(* ===== verification/Prelude.thy ===== *)
theory Prelude
  imports Main "HOL-Library.Word" "HOL-Library.AList" "HOL-Library.Char_ord" "HOL-Library.List_Lexorder"
begin

text \<open>
  Shared vocabulary of the development.

  \<^item> Rust's \<open>Result<T, E>\<close> is the sum type \<open>'e + 'a\<close>, with the abbreviations \<open>Err\<close> and
    \<open>Ok\<close>; the \<open>?\<close> operator is \<open>and_then\<close>, and an early \<open>return Err(..)\<close> behind a condition is
    \<open>reject_if\<close>.
  \<^item> Rust's \<open>u64\<close> and \<open>usize\<close> (on the 64-bit targets the Host is built for) are \<open>64 word\<close>;
    \<open>checked_add\<close>, \<open>saturating_add\<close>, \<open>saturating_sub\<close> and \<open>saturating_mul\<close> are the methods of
    the standard library with the wrap-around written out.
  \<^item> Rust's \<open>HashMap<K, V>\<close> is an association list with distinct keys; the iteration order, which
    Rust leaves open, is the order of the list, over which every theorem quantifies.
  \<^item> Rust strings are Isabelle strings, one \<open>char\<close> for one Unicode scalar value of the Latin-1
    range, so that \<open>chars().count()\<close> is \<open>length\<close> and \<open>trim\<close> removes the white space of that range.
  \<^item> Transition systems: reachability from an initial predicate under a step relation, and the
    locale that turns a one-step invariant into an invariant of every reachable state.
\<close>

named_theorems u64_arith \<open>machine-integer operations read as natural numbers\<close>
named_theorems res_simps \<open>case analysis of chained results\<close>
named_theorems hmap_simps \<open>hash maps read as association lists\<close>

section \<open>Results\<close>

abbreviation Err :: "'e \<Rightarrow> 'e + 'a" where "Err \<equiv> Inl"
abbreviation Ok :: "'a \<Rightarrow> 'e + 'a" where "Ok \<equiv> Inr"

definition and_then :: "'e + 'a \<Rightarrow> ('a \<Rightarrow> 'e + 'b) \<Rightarrow> 'e + 'b" where
  "and_then r f = (case r of Inl e \<Rightarrow> Inl e | Inr x \<Rightarrow> f x)"

definition map_ok :: "('a \<Rightarrow> 'b) \<Rightarrow> 'e + 'a \<Rightarrow> 'e + 'b" where
  "map_ok f r = (case r of Inl e \<Rightarrow> Inl e | Inr x \<Rightarrow> Inr (f x))"

definition map_err :: "('e \<Rightarrow> 'f) \<Rightarrow> 'e + 'a \<Rightarrow> 'f + 'a" where
  "map_err f r = (case r of Inl e \<Rightarrow> Inl (f e) | Inr x \<Rightarrow> Inr x)"

definition ok_or :: "'a option \<Rightarrow> 'e \<Rightarrow> 'e + 'a" where
  "ok_or x e = (case x of None \<Rightarrow> Inl e | Some v \<Rightarrow> Inr v)"

definition reject_if :: "bool \<Rightarrow> 'e \<Rightarrow> 'e + unit" where
  "reject_if b e = (if b then Inl e else Inr ())"

definition is_ok :: "'e + 'a \<Rightarrow> bool" where
  "is_ok r = (case r of Inl _ \<Rightarrow> False | Inr _ \<Rightarrow> True)"

lemma and_then_simps [simp]:
  "and_then (Err e) f = Err e" "and_then (Ok x) f = f x"
  by (simp_all add: and_then_def)

lemma map_ok_simps [simp]: "map_ok f (Err e) = Err e" "map_ok f (Ok x) = Ok (f x)"
  by (simp_all add: map_ok_def)

lemma map_err_simps [simp]: "map_err f (Err e) = Err (f e)" "map_err f (Ok x) = Ok x"
  by (simp_all add: map_err_def)

lemma ok_or_simps [simp]: "ok_or None e = Err e" "ok_or (Some v) e = Ok v"
  by (simp_all add: ok_or_def)

lemma reject_if_simps [simp]:
  "reject_if True e = Err e" "reject_if False e = Ok ()"
  by (simp_all add: reject_if_def)

lemma is_ok_simps [simp]: "\<not> is_ok (Err e)" "is_ok (Ok x)"
  by (simp_all add: is_ok_def)

lemma and_then_eq_Ok [res_simps]: "and_then r f = Ok y \<longleftrightarrow> (\<exists>x. r = Ok x \<and> f x = Ok y)"
  by (cases r) auto

lemma and_then_eq_Err [res_simps]:
  "and_then r f = Err e \<longleftrightarrow> r = Err e \<or> (\<exists>x. r = Ok x \<and> f x = Err e)"
  by (cases r) auto

lemma map_ok_eq_Ok [res_simps]: "map_ok f r = Ok y \<longleftrightarrow> (\<exists>x. r = Ok x \<and> y = f x)"
  by (cases r) auto

lemma map_ok_eq_Err [res_simps]: "map_ok f r = Err e \<longleftrightarrow> r = Err e"
  by (cases r) auto

lemma map_err_eq_Ok [res_simps]: "map_err f r = Ok y \<longleftrightarrow> r = Ok y"
  by (cases r) auto

lemma map_err_eq_Err [res_simps]: "map_err f r = Err e \<longleftrightarrow> (\<exists>d. r = Err d \<and> e = f d)"
  by (cases r) auto

lemma ok_or_eq_Ok [res_simps]: "ok_or x e = Ok y \<longleftrightarrow> x = Some y"
  by (cases x) auto

lemma ok_or_eq_Err [res_simps]: "ok_or x e = Err d \<longleftrightarrow> x = None \<and> d = e"
  by (cases x) auto

lemma reject_if_eq_Ok [res_simps]: "reject_if b e = Ok u \<longleftrightarrow> \<not> b"
  by (cases b) auto

lemma reject_if_eq_Err [res_simps]: "reject_if b e = Err d \<longleftrightarrow> b \<and> d = e"
  by (cases b) auto

lemma is_ok_iff: "is_ok r \<longleftrightarrow> (\<exists>x. r = Ok x)"
  by (cases r) auto

lemma is_ok_reject_if [simp]: "is_ok (reject_if b e) \<longleftrightarrow> \<not> b"
  by (cases b) auto

lemma is_ok_and_then: "is_ok (and_then r f) \<longleftrightarrow> (\<exists>x. r = Ok x \<and> is_ok (f x))"
  by (cases r) auto

lemma is_ok_map_err [simp]: "is_ok (map_err f r) \<longleftrightarrow> is_ok r"
  by (cases r) auto

lemma is_ok_map_ok [simp]: "is_ok (map_ok f r) \<longleftrightarrow> is_ok r"
  by (cases r) auto

lemma is_ok_ok_or [simp]: "is_ok (ok_or x e) \<longleftrightarrow> x \<noteq> None"
  by (cases x) auto

section \<open>Machine integers\<close>

type_synonym u8 = "8 word"
type_synonym u16 = "16 word"
type_synonym u32 = "32 word"
type_synonym u64 = "64 word"
type_synonym usize = "64 word"

definition checked_add :: "'a::len word \<Rightarrow> 'a word \<Rightarrow> 'a word option" where
  "checked_add a b = (if unat a + unat b < 2 ^ LENGTH('a) then Some (a + b) else None)"

definition saturating_add :: "'a::len word \<Rightarrow> 'a word \<Rightarrow> 'a word" where
  "saturating_add a b = (if unat a + unat b < 2 ^ LENGTH('a) then a + b else - 1)"

definition saturating_sub :: "'a::len word \<Rightarrow> 'a word \<Rightarrow> 'a word" where
  "saturating_sub a b = (if b \<le> a then a - b else 0)"

definition saturating_mul :: "'a::len word \<Rightarrow> 'a word \<Rightarrow> 'a word" where
  "saturating_mul a b = (if unat a * unat b < 2 ^ LENGTH('a) then a * b else - 1)"

text \<open>The length of a container as a \<open>usize\<close>; exact below \<open>2 ^ 64\<close> elements.\<close>

definition len_usize :: "'x list \<Rightarrow> usize" where
  "len_usize xs = word_of_nat (length xs)"

lemma unat_add_exact:
  fixes a b :: "'a::len word"
  assumes "unat a + unat b < 2 ^ LENGTH('a)"
  shows "unat (a + b) = unat a + unat b"
  using assms by (simp add: unat_word_ariths)

lemma checked_add_Some:
  fixes a b c :: "'a::len word"
  shows "checked_add a b = Some c \<longleftrightarrow> unat c = unat a + unat b"
proof
  assume "checked_add a b = Some c"
  then show "unat c = unat a + unat b"
    by (auto simp: checked_add_def unat_add_exact split: if_splits)
next
  assume c: "unat c = unat a + unat b"
  have "unat c < 2 ^ LENGTH('a)" by (rule unsigned_less)
  with c have lt: "unat a + unat b < 2 ^ LENGTH('a)" by simp
  then have "unat (a + b) = unat c" using c by (simp add: unat_add_exact)
  then have "a + b = c" by (rule unsigned_word_eqI)
  with lt show "checked_add a b = Some c" by (simp add: checked_add_def)
qed

lemma checked_add_None:
  fixes a b :: "'a::len word"
  shows "checked_add a b = None \<longleftrightarrow> 2 ^ LENGTH('a) \<le> unat a + unat b"
  by (auto simp: checked_add_def)

lemma checked_add_SomeD: "checked_add a b = Some c \<Longrightarrow> unat c = unat a + unat b"
  by (simp add: checked_add_Some)

lemma checked_add_NoneD:
  "checked_add (a :: 'a::len word) b = None \<Longrightarrow> 2 ^ LENGTH('a) \<le> unat a + unat b"
  by (simp add: checked_add_None)

lemmas checked_addD = checked_add_SomeD checked_add_NoneD

lemma unat_all_ones: "unat (- 1 :: 'a::len word) = 2 ^ LENGTH('a) - 1"
  by (simp add: unsigned_minus_1_eq_mask mask_eq_exp_minus_1)

lemma unat_lt_64: "unat (x :: 64 word) < 18446744073709551616"
  using unsigned_less [of x, where ?'a = nat] by simp

lemma word_of_nat_unat_id [simp]: "word_of_nat (unat x) = (x :: 'a::len word)"
  by (simp add: word_unat_eq_iff)

lemma unat_saturating_add [u64_arith]:
  fixes a b :: "'a::len word"
  shows "unat (saturating_add a b) = min (unat a + unat b) (2 ^ LENGTH('a) - 1)"
  by (auto simp: saturating_add_def unat_add_exact unat_all_ones)

lemma unat_saturating_sub [u64_arith]: "unat (saturating_sub a b) = unat a - unat b"
  by (auto simp: saturating_sub_def unat_sub word_le_nat_alt)

lemma unat_len_usize [u64_arith]: "length xs < 2 ^ 64 \<Longrightarrow> unat (len_usize xs) = length xs"
  by (simp add: len_usize_def unat_of_nat)

lemma unat_max [u64_arith]: "unat (max a b :: 'a::len word) = max (unat a) (unat b)"
  by (simp add: max_def word_le_nat_alt)

lemmas u64_order = word_le_nat_alt word_less_nat_alt

section \<open>Strings\<close>

text \<open>The white space of the Latin-1 range, as Rust's \<open>char::is_whitespace\<close> has it.\<close>

definition is_whitespace :: "char \<Rightarrow> bool" where
  "is_whitespace c = (of_char c \<in> {9, 10, 11, 12, 13, 32, 133, 160 :: nat})"

text \<open>\<open>s.trim().is_empty()\<close>\<close>

definition blank :: "string \<Rightarrow> bool" where
  "blank s = list_all is_whitespace s"

definition trim :: "string \<Rightarrow> string" where
  "trim s = rev (dropWhile is_whitespace (rev (dropWhile is_whitespace s)))"

definition is_ascii_digit :: "char \<Rightarrow> bool" where
  "is_ascii_digit c = (48 \<le> (of_char c :: nat) \<and> of_char c \<le> (57 :: nat))"

definition is_ascii_alphabetic :: "char \<Rightarrow> bool" where
  "is_ascii_alphabetic c =
     ((65 \<le> (of_char c :: nat) \<and> of_char c \<le> (90 :: nat)) \<or>
      (97 \<le> (of_char c :: nat) \<and> of_char c \<le> (122 :: nat)))"

definition is_ascii_hexdigit :: "char \<Rightarrow> bool" where
  "is_ascii_hexdigit c =
     (is_ascii_digit c \<or> (65 \<le> (of_char c :: nat) \<and> of_char c \<le> (70 :: nat)) \<or>
      (97 \<le> (of_char c :: nat) \<and> of_char c \<le> (102 :: nat)))"

definition strip_prefix :: "string \<Rightarrow> string \<Rightarrow> string option" where
  "strip_prefix p s = (if take (length p) s = p then Some (drop (length p) s) else None)"

text \<open>\<open>texts.join(sep)\<close>\<close>

fun join_texts :: "string \<Rightarrow> string list \<Rightarrow> string" where
  "join_texts sep [] = []"
| "join_texts sep [t] = t"
| "join_texts sep (t # ts) = t @ sep @ join_texts sep ts"

lemma blank_Nil [simp]: "blank []"
  by (simp add: blank_def)

lemma strip_prefix_Some: "strip_prefix p s = Some r \<longleftrightarrow> s = p @ r"
  by (auto simp: strip_prefix_def) (metis append_take_drop_id)

section \<open>Hash maps\<close>

type_synonym 'v hmap = "(string \<times> 'v) list"

abbreviation hget :: "('k \<times> 'v) list \<Rightarrow> 'k \<Rightarrow> 'v option" where "hget \<equiv> map_of"
abbreviation hput :: "'k \<Rightarrow> 'v \<Rightarrow> ('k \<times> 'v) list \<Rightarrow> ('k \<times> 'v) list" where "hput \<equiv> AList.update"
abbreviation hdel :: "'k \<Rightarrow> ('k \<times> 'v) list \<Rightarrow> ('k \<times> 'v) list" where "hdel \<equiv> AList.delete"

definition hwf :: "('k \<times> 'v) list \<Rightarrow> bool" where
  "hwf m = distinct (map fst m)"

text \<open>\<open>m.contains_key(k)\<close>\<close>

definition hmem :: "'k \<Rightarrow> ('k \<times> 'v) list \<Rightarrow> bool" where
  "hmem k m = (hget m k \<noteq> None)"

lemma hwf_Nil [simp]: "hwf []"
  by (simp add: hwf_def)

lemma hwf_hput [simp]: "hwf m \<Longrightarrow> hwf (hput k v m)"
  by (simp add: hwf_def distinct_update)

lemma hwf_hdel [simp]: "hwf m \<Longrightarrow> hwf (hdel k m)"
  by (simp add: hwf_def distinct_delete)

lemma hwf_filter [simp]: "hwf m \<Longrightarrow> hwf (filter P m)"
  by (simp add: hwf_def distinct_map_filter)

lemma hget_hput [simp]: "hget (hput k v m) k' = (if k' = k then Some v else hget m k')"
  by (simp add: update_conv)

lemma hget_hdel [simp]: "hget (hdel k m) k' = (if k' = k then None else hget m k')"
  by (simp add: delete_conv)

lemma hget_in_set: "hwf m \<Longrightarrow> hget m k = Some v \<longleftrightarrow> (k, v) \<in> set m"
  by (simp add: hwf_def)

lemma hget_filter:
  "hwf m \<Longrightarrow> hget (filter P m) k =
     (case hget m k of None \<Rightarrow> None | Some v \<Rightarrow> if P (k, v) then Some v else None)"
proof (induction m)
  case Nil
  then show ?case by simp
next
  case (Cons a m)
  then have wf: "hwf m" and fresh: "fst a \<notin> fst ` set m" by (auto simp: hwf_def)
  have "hget (filter P m) (fst a) = None"
    using fresh by (auto simp: map_of_eq_None_iff)
  then show ?case
    using Cons.IH [OF wf] fresh by (cases a) (auto simp: map_of_eq_None_iff split: option.splits)
qed

lemma length_hput_absent: "hget m k = None \<Longrightarrow> length (hput k v m) = Suc (length m)"
  by (induction m) (auto split: if_splits)

lemma length_hput_present: "hget m k \<noteq> None \<Longrightarrow> length (hput k v m) = length m"
  by (induction m) (auto split: if_splits)

lemma length_hput_le: "length (hput k v m) \<le> Suc (length m)"
  by (cases "hget m k") (auto simp: length_hput_absent length_hput_present)

lemma length_hdel_le: "length (hdel k m) \<le> length m"
  by (simp add: AList.delete_eq)

lemma length_hdel_present: "hwf m \<Longrightarrow> hget m k \<noteq> None \<Longrightarrow> length (hdel k m) = length m - 1"
proof (induction m)
  case Nil
  then show ?case by simp
next
  case (Cons a m)
  show ?case
  proof (cases "fst a = k")
    case True
    with Cons.prems have "k \<notin> fst ` set m" by (auto simp: hwf_def)
    then have "hdel k m = m" by (simp add: delete_id)
    with True show ?thesis by (cases a) (simp add: AList.delete_eq)
  next
    case False
    with Cons.prems have "hwf m" "hget m k \<noteq> None"
      by (auto simp: hwf_def split: if_splits)
    moreover from this have "m \<noteq> []" by auto
    ultimately show ?thesis using False Cons.IH by (cases a) (auto simp: AList.delete_eq)
  qed
qed

lemmas hmap_basic [hmap_simps] =
  hwf_Nil hwf_hput hwf_hdel hget_hput hget_hdel length_hput_absent length_hput_present

text \<open>The interface the registries rely on, and its implementation.\<close>

locale hash_map =
  fixes get :: "'m \<Rightarrow> 'k \<Rightarrow> 'v option"
    and put :: "'k \<Rightarrow> 'v \<Rightarrow> 'm \<Rightarrow> 'm"
    and del :: "'k \<Rightarrow> 'm \<Rightarrow> 'm"
    and size_of :: "'m \<Rightarrow> nat"
    and wf :: "'m \<Rightarrow> bool"
  assumes get_put: "get (put k v m) k' = (if k' = k then Some v else get m k')"
    and get_del: "get (del k m) k' = (if k' = k then None else get m k')"
    and wf_put: "wf m \<Longrightarrow> wf (put k v m)"
    and wf_del: "wf m \<Longrightarrow> wf (del k m)"
    and size_put: "size_of (put k v m) = (if get m k = None then Suc (size_of m) else size_of m)"
    and size_del: "wf m \<Longrightarrow> get m k \<noteq> None \<Longrightarrow> size_of (del k m) = size_of m - 1"
    and size_pos: "get m k \<noteq> None \<Longrightarrow> 0 < size_of m"
begin

lemma put_del_same: "wf m \<Longrightarrow> size_of (del k (put k v m)) \<le> size_of m"
  using size_del [OF wf_put, of m k v k] by (auto simp: get_put size_put split: if_splits)

lemma replace_keeps_size: "get m k = Some old \<Longrightarrow> size_of (put k v m) = size_of m"
  by (simp add: size_put)

lemma move_keeps_size:
  assumes "wf m" and "get m k = Some v" and "get m k' = None"
  shows "size_of (put k' v (del k m)) = size_of m"
proof -
  from assms have "get (del k m) k' = None" by (simp add: get_del)
  with assms show ?thesis using size_del [of m k] size_pos [of m k] by (simp add: size_put)
qed

end

interpretation hm: hash_map map_of AList.update AList.delete length hwf
proof unfold_locales
  fix m :: "('a \<times> 'b) list" and k :: 'a and v :: 'b
  show "length (hput k v m) = (if hget m k = None then Suc (length m) else length m)"
    by (simp add: length_hput_absent length_hput_present)
next
  fix m :: "('a \<times> 'b) list" and k :: 'a
  show "hget m k \<noteq> None \<Longrightarrow> 0 < length m" by (cases m) auto
qed (simp_all add: length_hdel_present)

section \<open>Transition systems\<close>

inductive reach :: "('s \<Rightarrow> bool) \<Rightarrow> ('s \<Rightarrow> 's \<Rightarrow> bool) \<Rightarrow> 's \<Rightarrow> bool"
  for init :: "'s \<Rightarrow> bool" and step :: "'s \<Rightarrow> 's \<Rightarrow> bool"
where
  reach_init: "init s \<Longrightarrow> reach init step s"
| reach_step: "reach init step s \<Longrightarrow> step s t \<Longrightarrow> reach init step t"

locale invariant_system =
  fixes init :: "'s \<Rightarrow> bool" and step :: "'s \<Rightarrow> 's \<Rightarrow> bool" and inv :: "'s \<Rightarrow> bool"
  assumes init_inv: "init s \<Longrightarrow> inv s"
    and step_inv: "inv s \<Longrightarrow> step s t \<Longrightarrow> inv t"
begin

lemma reach_inv: "reach init step s \<Longrightarrow> inv s"
  by (induction rule: reach.induct) (auto intro: init_inv step_inv)

lemma steps_inv: "step\<^sup>*\<^sup>* s t \<Longrightarrow> inv s \<Longrightarrow> inv t"
  by (induction rule: rtranclp_induct) (auto intro: step_inv)

end

text \<open>
  A refinement: an abstraction function takes every step of a system with an invariant to steps of its
  specification, so that every history is a history of the specification.
\<close>

locale refinement = invariant_system init step inv
  for init :: "'s \<Rightarrow> bool" and step :: "'s \<Rightarrow> 's \<Rightarrow> bool" and inv :: "'s \<Rightarrow> bool" +
  fixes spec_init :: "'a \<Rightarrow> bool" and spec_step :: "'a \<Rightarrow> 'a \<Rightarrow> bool" and abs :: "'s \<Rightarrow> 'a"
  assumes abs_init: "init s \<Longrightarrow> spec_init (abs s)"
    and abs_step: "inv s \<Longrightarrow> step s t \<Longrightarrow> spec_step\<^sup>*\<^sup>* (abs s) (abs t)"
begin

lemma reach_spec_steps: "spec_step\<^sup>*\<^sup>* a b \<Longrightarrow> reach spec_init spec_step a \<Longrightarrow> reach spec_init spec_step b"
  by (induction rule: rtranclp_induct) (auto intro: reach_step)

lemma reach_abs: "reach init step s \<Longrightarrow> reach spec_init spec_step (abs s)"
proof (induction rule: reach.induct)
  case (reach_init s)
  then show ?case by (auto intro: reach.reach_init abs_init)
next
  case (reach_step s t)
  from abs_step [OF reach_inv [OF reach_step.hyps(1)] reach_step.hyps(2)]
  show ?case by (rule reach_spec_steps) (rule reach_step.IH)
qed

lemma steps_abs: "step\<^sup>*\<^sup>* s t \<Longrightarrow> inv s \<Longrightarrow> spec_step\<^sup>*\<^sup>* (abs s) (abs t)"
proof (induction rule: rtranclp_induct)
  case (step t u)
  from step.prems step.hyps(1) have "inv t" by (rule steps_inv [rotated])
  from abs_step [OF this step.hyps(2)] step.IH [OF step.prems] show ?case by simp
qed simp

end

end
