(* ===== verification/Wire_Int.thy ===== *)
theory Wire_Int
  imports Prelude
begin

text \<open>
  Lossless integers of the extension wire (\<open>echo-sdk-protocol/src/scalar.rs\<close>): \<open>WireU64\<close>,
  \<open>WireNonZeroU64\<close> and \<open>WireI64\<close> carry canonical decimal strings, so that JSON numbers never
  lose precision. The theory holds the decimal printer and parser of the Rust standard library
  that the code relies on, the validation of \<open>try_from\<close>, the durations and timestamps built on
  them, and the round trips: the accepted strings are exactly the printed values.
\<close>

section \<open>Decimal digits\<close>

definition digit_char :: "nat \<Rightarrow> char" where
  "digit_char d = char_of (48 + d)"

definition digit_value :: "char \<Rightarrow> nat" where
  "digit_value c = of_char c - 48"

text \<open>\<open>to_string\<close> of an unsigned integer.\<close>

fun show_nat :: "nat \<Rightarrow> string" where
  "show_nat n = (if n < 10 then [digit_char n] else show_nat (n div 10) @ [digit_char (n mod 10)])"

declare show_nat.simps [simp del]

definition digits_value :: "string \<Rightarrow> nat" where
  "digits_value s = foldl (\<lambda>acc c. acc * 10 + digit_value c) 0 s"

definition show_int :: "int \<Rightarrow> string" where
  "show_int i = (if i < 0 then CHR ''-'' # show_nat (nat (- i)) else show_nat (nat i))"

lemma digit_value_char [simp]: "d < 10 \<Longrightarrow> digit_value (digit_char d) = d"
  by (simp add: digit_value_def digit_char_def)

lemma is_ascii_digit_char [simp]: "d < 10 \<Longrightarrow> is_ascii_digit (digit_char d)"
  by (simp add: is_ascii_digit_def digit_char_def)

lemma digit_char_value: "is_ascii_digit c \<Longrightarrow> digit_char (digit_value c) = c"
  by (simp add: is_ascii_digit_def digit_char_def digit_value_def)

lemma digit_value_less: "is_ascii_digit c \<Longrightarrow> digit_value c < 10"
  unfolding is_ascii_digit_def digit_value_def by arith

lemma digit_char_0: "digit_char 0 = CHR ''0''"
  unfolding digit_char_def by code_simp

lemma digit_char_zero_iff: "d < 10 \<Longrightarrow> digit_char d = CHR ''0'' \<longleftrightarrow> d = 0"
proof
  assume "d < 10" and "digit_char d = CHR ''0''"
  then have "digit_value (digit_char d) = digit_value (digit_char 0)" by (simp add: digit_char_0)
  with \<open>d < 10\<close> show "d = 0" by simp
qed (simp add: digit_char_0)

lemma digits_value_Nil [simp]: "digits_value [] = 0"
  by (simp add: digits_value_def)

lemma digits_value_snoc [simp]: "digits_value (s @ [c]) = digits_value s * 10 + digit_value c"
  by (simp add: digits_value_def)

lemma show_nat_nonempty [simp]: "show_nat n \<noteq> []"
  by (subst show_nat.simps) simp

lemma show_nat_digits: "list_all is_ascii_digit (show_nat n)"
proof (induction n rule: show_nat.induct)
  case (1 n)
  then show ?case by (subst show_nat.simps) auto
qed

lemma digits_value_show [simp]: "digits_value (show_nat n) = n"
proof (induction n rule: show_nat.induct)
  case (1 n)
  show ?case
  proof (cases "n < 10")
    case True
    then show ?thesis
      using digits_value_snoc [of "[]" "digit_char n"] by (subst show_nat.simps) simp
  next
    case False
    with 1 show ?thesis by (subst show_nat.simps) simp
  qed
qed

lemma show_nat_inj: "show_nat m = show_nat n \<longleftrightarrow> m = n"
  by (metis digits_value_show)

lemma show_nat_leading: "0 < n \<Longrightarrow> hd (show_nat n) \<noteq> CHR ''0''"
proof (induction n rule: show_nat.induct)
  case (1 n)
  show ?case
  proof (cases "n < 10")
    case True
    with "1.prems" show ?thesis by (subst show_nat.simps) (simp add: digit_char_zero_iff)
  next
    case False
    then have "0 < n div 10" by simp
    with False "1.IH" show ?thesis by (subst show_nat.simps) simp
  qed
qed

lemma show_nat_zero: "show_nat 0 = ''0''"
  by (subst show_nat.simps) (simp add: digit_char_0)

text \<open>Canonical digit strings (no leading zero) are the printed numbers.\<close>

lemma show_digits_value:
  assumes "list_all is_ascii_digit s" and "s \<noteq> []" and "length s = 1 \<or> hd s \<noteq> CHR ''0''"
  shows "show_nat (digits_value s) = s"
  using assms
proof (induction s rule: rev_induct)
  case Nil
  then show ?case by simp
next
  case (snoc c s)
  then have c: "is_ascii_digit c" by simp
  show ?case
  proof (cases "s = []")
    case True
    with c show ?thesis
      using digits_value_snoc [of "[]" c]
      by (subst show_nat.simps) (simp add: digit_value_less digit_char_value)
  next
    case False
    with snoc.prems have hd: "hd s \<noteq> CHR ''0''" by (cases s) auto
    with False snoc have IH: "show_nat (digits_value s) = s" by simp
    have pos: "0 < digits_value s"
    proof (rule ccontr)
      assume "\<not> 0 < digits_value s"
      with IH have "s = ''0''" by (simp add: show_nat_zero)
      with hd show False by simp
    qed
    have "(digits_value s * 10 + digit_value c) div 10 = digits_value s"
      using digit_value_less [OF c] by simp
    moreover have "(digits_value s * 10 + digit_value c) mod 10 = digit_value c"
      using digit_value_less [OF c] by simp
    ultimately show ?thesis
      using pos IH c by (subst show_nat.simps) (simp add: digit_char_value)
  qed
qed

section \<open>Integer parsing of the standard library\<close>

text \<open>
  \<open>str::parse\<close> for an unsigned type with the given largest value: one leading plus sign is
  skipped, the rest must be a non-empty run of ASCII digits, and overflow is an error.
\<close>

definition parse_unsigned :: "nat \<Rightarrow> string \<Rightarrow> nat option" where
  "parse_unsigned bound s =
     (let d = (if s \<noteq> [] \<and> hd s = CHR ''+'' then tl s else s)
      in if d = [] \<or> \<not> list_all is_ascii_digit d then None
         else if digits_value d \<le> bound then Some (digits_value d) else None)"

definition parse_signed :: "int \<Rightarrow> int \<Rightarrow> string \<Rightarrow> int option" where
  "parse_signed lower upper s =
     (let neg = (s \<noteq> [] \<and> hd s = CHR ''-'');
          d = (if s \<noteq> [] \<and> (hd s = CHR ''+'' \<or> hd s = CHR ''-'') then tl s else s)
      in if d = [] \<or> \<not> list_all is_ascii_digit d then None
         else let v = (if neg then - int (digits_value d) else int (digits_value d))
              in if lower \<le> v \<and> v \<le> upper then Some v else None)"

definition u64_max :: nat where "u64_max = 2 ^ 64 - 1"
definition u128_max :: nat where "u128_max = 2 ^ 128 - 1"
definition i64_min :: int where "i64_min = - (2 ^ 63)"
definition i64_max :: int where "i64_max = 2 ^ 63 - 1"

lemma no_plus_digits: "list_all is_ascii_digit s \<Longrightarrow> s \<noteq> [] \<Longrightarrow> hd s \<noteq> CHR ''+'' \<and> hd s \<noteq> CHR ''-''"
  by (cases s) (auto simp: is_ascii_digit_def)

lemma parse_unsigned_digits:
  assumes "list_all is_ascii_digit s" and "s \<noteq> []"
  shows "parse_unsigned bound s = (if digits_value s \<le> bound then Some (digits_value s) else None)"
  using assms no_plus_digits [OF assms] by (simp add: parse_unsigned_def)

lemma parse_unsigned_show [simp]:
  "parse_unsigned bound (show_nat n) = (if n \<le> bound then Some n else None)"
  by (simp add: parse_unsigned_digits show_nat_digits)

lemma parse_signed_show_int:
  "parse_signed lower upper (show_int i) = (if lower \<le> i \<and> i \<le> upper then Some i else None)"
  using no_plus_digits [OF show_nat_digits show_nat_nonempty, of "nat i"]
  by (auto simp: parse_signed_def show_int_def show_nat_digits)

section \<open>Validated integer strings\<close>

datatype scalar_error =
    InvalidInteger string
  | InvalidDuration
  | InvalidTimestamp
  | InvalidPath string
  | InvalidBase64
  | EmptyDomainId
  | ValueLimit string

definition validate_unsigned_decimal :: "string \<Rightarrow> scalar_error + unit" where
  "validate_unsigned_decimal value =
     (if value = [] \<or> \<not> list_all is_ascii_digit value then Err (InvalidInteger value)
      else if 1 < length value \<and> hd value = CHR ''0'' then Err (InvalidInteger value)
      else Ok ())"

lemma validate_unsigned_decimal_Ok:
  "validate_unsigned_decimal s = Ok u \<longleftrightarrow> s = show_nat (digits_value s)"
proof
  assume "validate_unsigned_decimal s = Ok u"
  then have "list_all is_ascii_digit s" "s \<noteq> []" "length s = 1 \<or> hd s \<noteq> CHR ''0''"
    by (auto simp: validate_unsigned_decimal_def le_Suc_eq split: if_splits)
       (metis One_nat_def Suc_lessI length_greater_0_conv)+
  then show "s = show_nat (digits_value s)" by (simp add: show_digits_value)
next
  assume s: "s = show_nat (digits_value s)"
  have "length s = 1 \<or> hd s \<noteq> CHR ''0''"
  proof (cases "digits_value s = 0")
    case True
    with s have "s = ''0''" by (simp add: show_nat_zero)
    then show ?thesis by simp
  next
    case False
    with s show ?thesis using show_nat_leading [of "digits_value s"] by simp
  qed
  moreover have "list_all is_ascii_digit s" and "s \<noteq> []"
    using s show_nat_digits [of "digits_value s"] show_nat_nonempty [of "digits_value s"] by simp_all
  ultimately show "validate_unsigned_decimal s = Ok u"
    by (auto simp: validate_unsigned_decimal_def)
qed

datatype wire_u64 = WireU64 (u64_text: string)
datatype wire_non_zero_u64 = WireNonZeroU64 (nz_inner: wire_u64)
datatype wire_i64 = WireI64 (i64_text: string)

definition from_u64 :: "u64 \<Rightarrow> wire_u64" where
  "from_u64 v = WireU64 (show_nat (unat v))"

definition to_u64 :: "wire_u64 \<Rightarrow> u64 option" where
  "to_u64 w = map_option word_of_nat (parse_unsigned u64_max (u64_text w))"

definition wire_u64_try_from :: "string \<Rightarrow> scalar_error + wire_u64" where
  "wire_u64_try_from value =
     and_then (validate_unsigned_decimal value) (\<lambda>_.
       if (case parse_unsigned u128_max value of
             None \<Rightarrow> True
           | Some number \<Rightarrow> u64_max < number)
       then Err (InvalidInteger value)
       else Ok (WireU64 value))"

definition nz_to_u64 :: "wire_non_zero_u64 \<Rightarrow> u64 option" where
  "nz_to_u64 w = to_u64 (nz_inner w)"

definition wire_non_zero_try_from :: "string \<Rightarrow> scalar_error + wire_non_zero_u64" where
  "wire_non_zero_try_from value =
     and_then (wire_u64_try_from value) (\<lambda>w.
       if to_u64 w = Some 0 then Err (InvalidInteger ''0'') else Ok (WireNonZeroU64 w))"

text \<open>An \<open>i64\<close> is its integer value; \<open>from_i64\<close> is applied to values in range only.\<close>

definition from_i64 :: "int \<Rightarrow> wire_i64" where
  "from_i64 v = WireI64 (show_int v)"

definition to_i64 :: "wire_i64 \<Rightarrow> int option" where
  "to_i64 w = parse_signed i64_min i64_max (i64_text w)"

definition wire_i64_try_from :: "string \<Rightarrow> scalar_error + wire_i64" where
  "wire_i64_try_from value =
     (let unsigned_part = (case strip_prefix ''-'' value of None \<Rightarrow> value | Some rest \<Rightarrow> rest)
      in and_then (validate_unsigned_decimal unsigned_part) (\<lambda>_.
           if value = ''-0'' \<or> parse_signed i64_min i64_max value = None
           then Err (InvalidInteger value)
           else Ok (WireI64 value)))"

lemma unat_le_u64_max [simp]: "unat (v :: u64) \<le> u64_max"
proof -
  have "unat v < 2 ^ LENGTH(64)" by (rule unsigned_less)
  then show ?thesis by (simp add: u64_max_def)
qed

lemma to_u64_from_u64 [simp]: "to_u64 (from_u64 v) = Some v"
  by (simp add: to_u64_def from_u64_def)

lemma from_u64_inject [simp]: "from_u64 a = from_u64 b \<longleftrightarrow> a = b"
  by (metis option.inject to_u64_from_u64)

lemma wire_u64_try_from_iff:
  "wire_u64_try_from s = Ok w \<longleftrightarrow> (\<exists>v. s = show_nat (unat v) \<and> w = from_u64 v)"
proof
  assume ok: "wire_u64_try_from s = Ok w"
  then have s: "s = show_nat (digits_value s)"
    by (auto simp: wire_u64_try_from_def and_then_eq_Ok validate_unsigned_decimal_Ok)
  moreover from ok have w: "w = WireU64 s"
    by (auto simp: wire_u64_try_from_def and_then_eq_Ok split: if_splits)
  moreover have le: "digits_value s \<le> u64_max"
  proof (rule ccontr)
    assume "\<not> digits_value s \<le> u64_max"
    then have "case parse_unsigned u128_max s of None \<Rightarrow> True | Some number \<Rightarrow> u64_max < number"
      by (subst s) simp
    with ok show False by (simp add: wire_u64_try_from_def and_then_eq_Ok)
  qed
  moreover from le have "unat (word_of_nat (digits_value s) :: u64) = digits_value s"
    by (simp add: unat_of_nat u64_max_def)
  ultimately show "\<exists>v. s = show_nat (unat v) \<and> w = from_u64 v"
    by (metis from_u64_def)
next
  assume "\<exists>v. s = show_nat (unat v) \<and> w = from_u64 v"
  then obtain v where s: "s = show_nat (unat v)" and w: "w = from_u64 v" by blast
  have "validate_unsigned_decimal s = Ok ()"
    using s by (simp add: validate_unsigned_decimal_Ok)
  moreover have "unat v \<le> u128_max"
    using unat_le_u64_max [of v] by (simp add: u64_max_def u128_max_def)
  ultimately show "wire_u64_try_from s = Ok w"
    using s w by (simp add: wire_u64_try_from_def from_u64_def not_less)
qed

lemma wire_u64_try_from_show [simp]: "wire_u64_try_from (show_nat (unat v)) = Ok (from_u64 v)"
  by (auto simp: wire_u64_try_from_iff)

lemma wire_non_zero_try_from_iff:
  "wire_non_zero_try_from s = Ok w \<longleftrightarrow>
     (\<exists>v. v \<noteq> 0 \<and> s = show_nat (unat v) \<and> w = WireNonZeroU64 (from_u64 v))"
proof
  assume "wire_non_zero_try_from s = Ok w"
  then obtain u where u: "wire_u64_try_from s = Ok u" "to_u64 u \<noteq> Some 0" "w = WireNonZeroU64 u"
    by (auto simp: wire_non_zero_try_from_def and_then_eq_Ok split: if_splits)
  then obtain v where "s = show_nat (unat v)" "u = from_u64 v"
    by (auto simp: wire_u64_try_from_iff)
  with u show "\<exists>v. v \<noteq> 0 \<and> s = show_nat (unat v) \<and> w = WireNonZeroU64 (from_u64 v)" by auto
qed (auto simp: wire_non_zero_try_from_def wire_u64_try_from_show)

lemma show_int_head_minus: "hd (show_int i) = CHR ''-'' \<longleftrightarrow> i < 0"
  using no_plus_digits [OF show_nat_digits show_nat_nonempty, of "nat i"] by (simp add: show_int_def)

lemma show_nat_eq_zero: "show_nat n = ''0'' \<longleftrightarrow> n = 0"
  using show_nat_inj [of n 0] by (simp add: show_nat_zero)

lemma strip_minus_show_int:
  "(case strip_prefix ''-'' (show_int i) of None \<Rightarrow> show_int i | Some rest \<Rightarrow> rest) = show_nat (nat \<bar>i\<bar>)"
proof (cases "i < 0")
  case True
  then show ?thesis by (simp add: strip_prefix_def show_int_def)
next
  case False
  obtain c r where cr: "show_nat (nat i) = c # r" by (cases "show_nat (nat i)") auto
  with False show_int_head_minus [of i] have "c \<noteq> CHR ''-''" by (simp add: show_int_def)
  with False cr show ?thesis by (simp add: strip_prefix_def show_int_def)
qed

lemma from_i64_to_i64 [simp]: "i64_min \<le> v \<Longrightarrow> v \<le> i64_max \<Longrightarrow> to_i64 (from_i64 v) = Some v"
  by (simp add: to_i64_def from_i64_def parse_signed_show_int)

lemma validate_show_nat [simp]: "validate_unsigned_decimal (show_nat n) = Ok ()"
  by (simp add: validate_unsigned_decimal_Ok)

lemma wire_i64_try_from_show:
  assumes "i64_min \<le> v" and "v \<le> i64_max"
  shows "wire_i64_try_from (show_int v) = Ok (from_i64 v)"
proof -
  have "show_int v \<noteq> ''-0''"
    using show_nat_eq_zero [of "nat (- v)"] show_int_head_minus [of v] by (auto simp: show_int_def)
  with assms show ?thesis
    by (simp add: wire_i64_try_from_def strip_minus_show_int parse_signed_show_int from_i64_def Let_def)
qed

lemma wire_i64_try_from_shape:
  assumes "wire_i64_try_from s = Ok w"
  shows "\<exists>v. i64_min \<le> v \<and> v \<le> i64_max \<and> s = show_int v \<and> w = from_i64 v"
proof -
  define d where "d = (case strip_prefix ''-'' s of None \<Rightarrow> s | Some rest \<Rightarrow> rest)"
  from assms have d: "d = show_nat (digits_value d)" and nz: "s \<noteq> ''-0''"
    and p: "parse_signed i64_min i64_max s \<noteq> None" and w: "w = WireI64 s"
    by (auto simp: wire_i64_try_from_def and_then_eq_Ok validate_unsigned_decimal_Ok Let_def d_def
        split: if_splits)
  have "\<exists>v. s = show_int v"
  proof (cases "strip_prefix ''-'' s")
    case None
    with d have "s = show_int (int (digits_value d))" by (simp add: d_def show_int_def)
    then show ?thesis by blast
  next
    case (Some r)
    then have s: "s = CHR ''-'' # r" by (simp add: strip_prefix_Some)
    with Some d nz have "digits_value d \<noteq> 0"
      by (metis d_def option.simps(5) show_nat_zero)
    with s Some d have "s = show_int (- int (digits_value d))" by (simp add: d_def show_int_def)
    then show ?thesis by blast
  qed
  with p w show ?thesis by (auto simp: parse_signed_show_int from_i64_def split: if_splits)
qed

section \<open>Durations and timestamps\<close>

definition nanos_per_second :: nat where "nanos_per_second = 1000000000"

record wire_duration =
  dur_seconds :: wire_u64
  dur_nanos :: u32

definition duration_from_nanos :: "u64 \<Rightarrow> wire_duration" where
  "duration_from_nanos nanos =
     \<lparr>dur_seconds = from_u64 (nanos div word_of_nat nanos_per_second),
      dur_nanos = word_of_nat (unat nanos mod nanos_per_second)\<rparr>"

definition validate_duration :: "wire_duration \<Rightarrow> scalar_error + unit" where
  "validate_duration d = reject_if (nanos_per_second \<le> unat (dur_nanos d)) InvalidDuration"

record wire_timestamp =
  unix_seconds :: wire_i64
  ts_nanos :: u32
  rfc3339 :: "string option"

definition validate_timestamp :: "wire_timestamp \<Rightarrow> scalar_error + unit" where
  "validate_timestamp t = reject_if (nanos_per_second \<le> unat (ts_nanos t)) InvalidTimestamp"

definition timestamp_from_unix_parts :: "int \<Rightarrow> u32 \<Rightarrow> scalar_error + wire_timestamp" where
  "timestamp_from_unix_parts secs nanos =
     (let t = \<lparr>unix_seconds = from_i64 secs, ts_nanos = nanos, rfc3339 = None\<rparr>
      in and_then (validate_timestamp t) (\<lambda>_. Ok t))"

definition timestamp_from_nanos :: "u64 \<Rightarrow> wire_timestamp" where
  "timestamp_from_nanos unix_nanos =
     (let secs = int (unat unix_nanos div nanos_per_second)
      in \<lparr>unix_seconds = from_i64 (if secs \<le> i64_max then secs else i64_max),
          ts_nanos = word_of_nat (unat unix_nanos mod nanos_per_second), rfc3339 = None\<rparr>)"

lemma unat_nanos_part [simp]:
  "unat (word_of_nat (n mod nanos_per_second) :: u32) = n mod nanos_per_second"
proof -
  have "n mod nanos_per_second < nanos_per_second" by (simp add: nanos_per_second_def)
  then have "n mod nanos_per_second < 2 ^ 32" by (simp add: nanos_per_second_def)
  then show ?thesis by (simp add: unat_of_nat)
qed

section \<open>Properties\<close>

text \<open>The canonical wire integers are lossless: a string is accepted as a \<open>WireU64\<close> exactly when
  it is the decimal rendering of some \<open>u64\<close>, and reading the accepted value back yields that very
  \<open>u64\<close>; so every \<open>u64\<close> has exactly one accepted spelling.\<close>

theorem wire_u64_lossless:
  "(wire_u64_try_from s = Ok w \<longleftrightarrow> (\<exists>v. s = show_nat (unat v) \<and> w = from_u64 v)) \<and>
   to_u64 (from_u64 v) = Some v \<and> wire_u64_try_from (u64_text (from_u64 v)) = Ok (from_u64 v)"
proof (intro conjI)
  show "wire_u64_try_from s = Ok w \<longleftrightarrow> (\<exists>v. s = show_nat (unat v) \<and> w = from_u64 v)"
    by (rule wire_u64_try_from_iff)
  show "wire_u64_try_from (u64_text (from_u64 v)) = Ok (from_u64 v)"
    using wire_u64_try_from_show [of v] by (simp only: from_u64_def wire_u64.sel)
qed simp

text \<open>Splitting a nanosecond count never loses or invents time: the duration built from \<open>nanos\<close>
  validates, its seconds read back as a \<open>u64\<close>, and seconds times one billion plus the sub-second
  part is exactly the input, for the whole \<open>u64\<close> range.\<close>

theorem duration_from_nanos_exact:
  "validate_duration (duration_from_nanos n) = Ok () \<and>
   (\<exists>secs. to_u64 (dur_seconds (duration_from_nanos n)) = Some secs \<and>
      unat secs * nanos_per_second + unat (dur_nanos (duration_from_nanos n)) = unat n)"
proof
  have "unat n mod nanos_per_second < nanos_per_second" by (simp add: nanos_per_second_def)
  then show "validate_duration (duration_from_nanos n) = Ok ()"
    by (simp add: validate_duration_def duration_from_nanos_def reject_if_def)
  have small: "unat (word_of_nat nanos_per_second :: u64) = nanos_per_second"
    by (simp add: nanos_per_second_def)
  have "unat (n div word_of_nat nanos_per_second) = unat n div nanos_per_second"
    by (simp add: unat_div_distrib small)
  then show "\<exists>secs. to_u64 (dur_seconds (duration_from_nanos n)) = Some secs \<and>
      unat secs * nanos_per_second + unat (dur_nanos (duration_from_nanos n)) = unat n"
    by (simp add: duration_from_nanos_def)
qed

text \<open>C3: The signed wire integers are lossless too: the accepted strings are exactly the decimal
  renderings of the values of \<open>i64\<close> (so \<open>-0\<close>, leading zeros and a plus sign are rejected), and every
  value in range is accepted and read back.\<close>

theorem wire_i64_lossless:
  "(wire_i64_try_from s = Ok w \<longleftrightarrow>
      (\<exists>v. i64_min \<le> v \<and> v \<le> i64_max \<and> s = show_int v \<and> w = from_i64 v \<and> to_i64 w = Some v))"
  using wire_i64_try_from_shape [of s w] wire_i64_try_from_show by fastforce

end
