(* ===== verification/Wire_Handle.thy ===== *)
theory Wire_Handle
  imports Wire_Int
begin

text \<open>
  Generation-fenced handles (\<open>echo-sdk-protocol/src/handle.rs\<close>): the kinds, the wire shape, its
  validation, and the constructor the Host uses (\<open>echo-sdk-host/src/core_profile/wire.rs\<close>).
\<close>

section \<open>Handles\<close>

datatype handle_kind =
    AgentKind | SessionKind | RunKind | StreamKind | TaskRunKind | PlanTaskKind
  | SubagentKind | ExtensionKindOf | FacadeResourceKind

fun handle_kind_str :: "handle_kind \<Rightarrow> string" where
  "handle_kind_str AgentKind = ''agent''"
| "handle_kind_str SessionKind = ''session''"
| "handle_kind_str RunKind = ''run''"
| "handle_kind_str StreamKind = ''stream''"
| "handle_kind_str TaskRunKind = ''task_run''"
| "handle_kind_str PlanTaskKind = ''plan_task''"
| "handle_kind_str SubagentKind = ''subagent''"
| "handle_kind_str ExtensionKindOf = ''extension''"
| "handle_kind_str FacadeResourceKind = ''facade_resource''"

record wire_handle =
  h_id :: string
  h_generation :: wire_u64
  h_kind :: handle_kind

definition validate_handle :: "wire_handle \<Rightarrow> string + unit" where
  "validate_handle h =
     (if blank (h_id h) then Err ''handle id must be non-empty''
      else if 256 < length (h_id h) then Err ''handle id exceeds 256 characters''
      else Ok ())"

text \<open>\<open>wire::handle\<close>\<close>

definition mk_handle :: "string \<Rightarrow> handle_kind \<Rightarrow> u64 \<Rightarrow> wire_handle" where
  "mk_handle i k g = \<lparr>h_id = i, h_generation = from_u64 g, h_kind = k\<rparr>"

lemma mk_handle_sel [simp]:
  "h_id (mk_handle i k g) = i" "h_generation (mk_handle i k g) = from_u64 g"
  "h_kind (mk_handle i k g) = k"
  by (simp_all add: mk_handle_def)

lemma mk_handle_inject [simp]:
  "mk_handle i k g = mk_handle i' k' g' \<longleftrightarrow> i = i' \<and> k = k' \<and> g = g'"
  by (auto simp: mk_handle_def)

lemma handle_kind_str_inject [simp]: "handle_kind_str a = handle_kind_str b \<longleftrightarrow> a = b"
  by (cases a; cases b) simp_all

end
