(* ===== verification/Sdk_Error.thy ===== *)
theory Sdk_Error
  imports Wire_Handle
begin

text \<open>
  The typed error envelope every extension method answers with
  (\<open>echo-sdk-protocol/src/error.rs\<close>): codes, retryability, bounded details, the bounded validation
  and the encoding into the JSON-RPC error, and the constructors the Host uses
  (\<open>echo-sdk-host/src/core_profile/wire.rs\<close>). The JSON serializer is a parameter: whether it turns
  an error into a JSON value, and the byte length of that value.
\<close>

section \<open>Typed errors\<close>

datatype error_code =
    AcpProtocolMismatch | ExtensionVersionMismatch | ExtensionDigestMismatch
  | ExtensionCapabilityMismatch | InvalidRequest | InvalidConfig | InvalidValue
  | FeatureUnavailable | StaleHandle | ClosedHandle | FrameworkError | ExtensionRejected
  | ExtensionFailed | ExtensionTimeout | ExtensionDisconnected | ExtensionConflict
  | Cancelled | HostShuttingDown | HostExited | EventGapCode | ReplayUnavailable
  | PayloadTooLarge | SerializationViolation

fun error_code_str :: "error_code \<Rightarrow> string" where
  "error_code_str AcpProtocolMismatch = ''acp_protocol_mismatch''"
| "error_code_str ExtensionVersionMismatch = ''extension_version_mismatch''"
| "error_code_str ExtensionDigestMismatch = ''extension_digest_mismatch''"
| "error_code_str ExtensionCapabilityMismatch = ''extension_capability_mismatch''"
| "error_code_str InvalidRequest = ''invalid_request''"
| "error_code_str InvalidConfig = ''invalid_config''"
| "error_code_str InvalidValue = ''invalid_value''"
| "error_code_str FeatureUnavailable = ''feature_unavailable''"
| "error_code_str StaleHandle = ''stale_handle''"
| "error_code_str ClosedHandle = ''closed_handle''"
| "error_code_str FrameworkError = ''framework_error''"
| "error_code_str ExtensionRejected = ''extension_rejected''"
| "error_code_str ExtensionFailed = ''extension_failed''"
| "error_code_str ExtensionTimeout = ''extension_timeout''"
| "error_code_str ExtensionDisconnected = ''extension_disconnected''"
| "error_code_str ExtensionConflict = ''extension_conflict''"
| "error_code_str Cancelled = ''cancelled''"
| "error_code_str HostShuttingDown = ''host_shutting_down''"
| "error_code_str HostExited = ''host_exited''"
| "error_code_str EventGapCode = ''event_gap''"
| "error_code_str ReplayUnavailable = ''replay_unavailable''"
| "error_code_str PayloadTooLarge = ''payload_too_large''"
| "error_code_str SerializationViolation = ''serialization_violation''"

datatype retryability = Never | Always | AfterDelay

record detail_field =
  df_key :: string
  df_value :: string

record facade_failure_detail =
  ff_operation :: "string option"
  ff_signature_digest :: "string option"
  ff_receiver_kind :: "string option"
  ff_expected_type :: "string option"
  ff_required_feature :: "string option"
  ff_resource :: "string option"

record error_details =
  ed_fields :: "detail_field list option"
  ed_facade :: "facade_failure_detail option"

record sdk_err =
  err_code :: error_code
  err_message :: string
  err_retryable :: retryability
  err_operation :: "string option"
  err_handle :: "wire_handle option"
  err_details :: "error_details option"

definition max_error_detail_entries :: nat where "max_error_detail_entries = 16"
definition max_error_message_chars :: nat where "max_error_message_chars = 4096"
definition max_error_operation_chars :: nat where "max_error_operation_chars = 256"
definition max_error_detail_key_chars :: nat where "max_error_detail_key_chars = 128"
definition max_error_detail_value_chars :: nat where "max_error_detail_value_chars = 2048"
definition max_error_data_bytes :: nat where "max_error_data_bytes = 8192"

definition is_sha256_digest :: "string \<Rightarrow> bool" where
  "is_sha256_digest s =
     (case strip_prefix ''sha256:'' s of
        None \<Rightarrow> False
      | Some hex \<Rightarrow> length hex = 64 \<and> list_all is_ascii_hexdigit hex)"

definition validate_facade_failure :: "facade_failure_detail \<Rightarrow> string + unit" where
  "validate_facade_failure d =
     (if list_ex (\<lambda>f. case f of None \<Rightarrow> False | Some t \<Rightarrow> blank t)
           [ff_operation d, ff_receiver_kind d, ff_expected_type d, ff_required_feature d, ff_resource d]
      then Err ''facade failure identity must be non-empty when present''
      else case ff_signature_digest d of
        None \<Rightarrow> Ok ()
      | Some digest \<Rightarrow>
          if is_sha256_digest digest then Ok ()
          else Err ''facade failure signature digest must be sha256'')"

definition sdk_error_new :: "error_code \<Rightarrow> string \<Rightarrow> retryability \<Rightarrow> sdk_err" where
  "sdk_error_new c m r =
     \<lparr>err_code = c, err_message = m, err_retryable = r, err_operation = None,
      err_handle = None, err_details = None\<rparr>"

definition with_operation :: "sdk_err \<Rightarrow> string \<Rightarrow> sdk_err" where
  "with_operation e operation = e\<lparr>err_operation := Some operation\<rparr>"

definition with_handle :: "sdk_err \<Rightarrow> wire_handle \<Rightarrow> sdk_err" where
  "with_handle e h = e\<lparr>err_handle := Some h\<rparr>"

text \<open>\<open>wire::sdk_error\<close> and \<open>wire::handle_error\<close>\<close>

definition sdk_error :: "error_code \<Rightarrow> string \<Rightarrow> retryability \<Rightarrow> string \<Rightarrow> sdk_err" where
  "sdk_error c m r operation = with_operation (sdk_error_new c m r) operation"

definition handle_error :: "error_code \<Rightarrow> string \<Rightarrow> string \<Rightarrow> wire_handle \<Rightarrow> sdk_err" where
  "handle_error c m operation h = with_handle (with_operation (sdk_error_new c m Never) operation) h"

text \<open>The detail fields of an error, none when a level is absent.\<close>

definition detail_fields :: "sdk_err \<Rightarrow> detail_field list" where
  "detail_fields e =
     (case err_details e of
        None \<Rightarrow> []
      | Some d \<Rightarrow> (case ed_fields d of None \<Rightarrow> [] | Some fs \<Rightarrow> fs))"

text \<open>\<open>wire::has_observation_hint\<close>\<close>

definition has_observation_hint :: "sdk_err \<Rightarrow> bool" where
  "has_observation_hint e =
     list_ex (\<lambda>f. df_key f = ''observation'' \<and> df_value f = ''not_settled'') (detail_fields e)"

text \<open>The framework's errors the Host itself raises.\<close>

datatype react_error = ReactOther string | ReactIo string

section \<open>Bounded emission\<close>

text \<open>The loop over the detail fields, with the keys seen so far.\<close>

fun validate_detail_fields :: "string list \<Rightarrow> detail_field list \<Rightarrow> string + unit" where
  "validate_detail_fields seen [] = Ok ()"
| "validate_detail_fields seen (f # fs) =
     (if blank (df_key f) then Err ''error detail key must be non-empty''
      else if max_error_detail_key_chars < length (df_key f)
        then Err ''error detail key exceeds the character bound''
      else if max_error_detail_value_chars < length (df_value f)
        then Err ''error detail value exceeds the character bound''
      else if df_key f \<in> set seen then Err ''error detail keys must be unique''
      else validate_detail_fields (df_key f # seen) fs)"

definition validate_sdk_err :: "sdk_err \<Rightarrow> string + unit" where
  "validate_sdk_err e =
     (if max_error_message_chars < length (err_message e)
        then Err ''error message exceeds the character bound''
      else if (case err_operation e of None \<Rightarrow> False | Some op \<Rightarrow> blank op)
        then Err ''error operation must be non-empty when present''
      else if (case err_operation e of None \<Rightarrow> False | Some op \<Rightarrow> max_error_operation_chars < length op)
        then Err ''error operation exceeds the character bound''
      else if max_error_detail_entries < length (detail_fields e)
        then Err ''error details exceed the bounded entry count''
      else and_then (validate_detail_fields [] (detail_fields e)) (\<lambda>_.
        case err_handle e of None \<Rightarrow> Ok () | Some h \<Rightarrow> validate_handle h))"

record rpc_error =
  rpc_code :: int
  rpc_message :: string
  rpc_data :: sdk_err

definition extension_error_code :: int where "extension_error_code = -32050"

definition bounded_error_message :: "string \<Rightarrow> string" where
  "bounded_error_message m = take max_error_message_chars m"

definition encode_bounded ::
  "(sdk_err \<Rightarrow> bool) \<Rightarrow> (sdk_err \<Rightarrow> nat option) \<Rightarrow> sdk_err \<Rightarrow> rpc_error" where
  "encode_bounded to_value_ok to_vec_len e =
     \<lparr>rpc_code = extension_error_code,
      rpc_message = bounded_error_message (err_message e),
      rpc_data =
        (if to_value_ok e then
           (case to_vec_len e of
              Some n \<Rightarrow>
                if n \<le> max_error_data_bytes then e
                else sdk_error_new SerializationViolation ''typed error data exceeded the byte bound'' Never
            | None \<Rightarrow> sdk_error_new SerializationViolation ''typed error data exceeded the byte bound'' Never)
         else sdk_error_new SerializationViolation ''typed error data was not serializable'' Never)\<rparr>"

definition into_jsonrpc_error ::
  "(sdk_err \<Rightarrow> bool) \<Rightarrow> (sdk_err \<Rightarrow> nat option) \<Rightarrow> sdk_err \<Rightarrow> rpc_error" where
  "into_jsonrpc_error to_value_ok to_vec_len e =
     (case validate_sdk_err e of
        Inl reason \<Rightarrow>
          encode_bounded to_value_ok to_vec_len
            (sdk_error_new SerializationViolation
               (''bounded error encoding rejected the payload: '' @ reason) Never)
      | Inr _ \<Rightarrow> encode_bounded to_value_ok to_vec_len e)"

text \<open>
  \<open>from_jsonrpc_data\<close> over the decoded JSON: \<open>decode\<close> is the deserializer, \<open>len\<close> the byte length
  of the received value.
\<close>

definition from_jsonrpc_data ::
  "('j \<Rightarrow> nat option) \<Rightarrow> ('j \<Rightarrow> sdk_err option) \<Rightarrow> 'j option \<Rightarrow> string + sdk_err" where
  "from_jsonrpc_data len decode data =
     and_then (ok_or data ''extension error is missing error.data'') (\<lambda>j.
     and_then (ok_or (len j) ''extension error data is not JSON'') (\<lambda>n.
     and_then (reject_if (max_error_data_bytes < n) ''extension error data exceeds the byte bound'') (\<lambda>_.
     and_then (ok_or (decode j) ''malformed echo-agent error data'') (\<lambda>e.
     and_then (map_err (\<lambda>reason. ''invalid echo-agent error data: '' @ reason) (validate_sdk_err e)) (\<lambda>_.
       Ok e)))))"

lemma error_code_simps [simp]:
  "err_code (sdk_error_new c m r) = c" "err_code (with_operation e op) = err_code e"
  "err_code (with_handle e h) = err_code e" "err_code (sdk_error c m r op) = c"
  "err_code (handle_error c m op h) = c"
  by (simp_all add: sdk_error_new_def with_operation_def with_handle_def sdk_error_def handle_error_def)

lemma error_handle_simps [simp]:
  "err_handle (sdk_error c m r op) = None" "err_handle (handle_error c m op h) = Some h"
  by (simp_all add: sdk_error_new_def with_operation_def with_handle_def sdk_error_def handle_error_def)

lemma error_code_str_inject: "error_code_str a = error_code_str b \<longleftrightarrow> a = b"
  by (cases a; cases b) simp_all

lemma validate_plain_error:
  "length m \<le> max_error_message_chars \<Longrightarrow> validate_sdk_err (sdk_error_new c m r) = Ok ()"
  by (simp add: validate_sdk_err_def sdk_error_new_def detail_fields_def)

lemma validate_detail_fields_reason:
  "validate_detail_fields seen fs = Err reason \<Longrightarrow> length reason \<le> 256"
  by (induction fs arbitrary: seen) (auto split: if_splits)

lemma validate_reason_short: "validate_sdk_err e = Err reason \<Longrightarrow> length reason \<le> 256"
  by (auto simp: validate_sdk_err_def validate_handle_def and_then_eq_Err
      dest: validate_detail_fields_reason split: if_splits option.splits)

lemma encode_bounded_data:
  assumes "validate_sdk_err e = Ok ()"
  shows "validate_sdk_err (rpc_data (encode_bounded v l e)) = Ok ()"
  using assms
  by (auto simp: encode_bounded_def validate_plain_error max_error_message_chars_def
      split: option.splits)

text \<open>
  What replaces an error that cannot be emitted: two fixed payloads of \<open>encode_bounded\<close>, and for an error that
  breaks its own contract the violation itself, with the reason of the check.
\<close>

definition fixed_replacements :: "sdk_err list" where
  "fixed_replacements =
     [sdk_error_new SerializationViolation ''typed error data exceeded the byte bound'' Never,
      sdk_error_new SerializationViolation ''typed error data was not serializable'' Never]"

definition rejected_payload :: "string \<Rightarrow> sdk_err" where
  "rejected_payload reason =
     sdk_error_new SerializationViolation (''bounded error encoding rejected the payload: '' @ reason) Never"

text \<open>
  The JSON library on errors: \<open>to_json\<close> is the value it writes. It reads back what it wrote, the bytes received
  are as many as were written, and the fixed payloads, three short members each, are below the byte bound.
\<close>

definition error_codec ::
  "(sdk_err \<Rightarrow> nat option) \<Rightarrow> (sdk_err \<Rightarrow> 'j) \<Rightarrow> ('j \<Rightarrow> nat option) \<Rightarrow> ('j \<Rightarrow> sdk_err option) \<Rightarrow> bool" where
  "error_codec to_vec_len to_json len decode \<longleftrightarrow>
     (\<forall>e. validate_sdk_err e = Ok () \<longrightarrow> decode (to_json e) = Some e) \<and>
     (\<forall>e n. to_vec_len e = Some n \<longrightarrow> len (to_json e) = Some n) \<and>
     (\<forall>e\<in>set fixed_replacements. \<exists>n\<le>max_error_data_bytes. len (to_json e) = Some n)"

lemma encode_bounded_cases:
  "rpc_data (encode_bounded v l e) = e \<and> (\<exists>n. l e = Some n \<and> n \<le> max_error_data_bytes) \<or>
   rpc_data (encode_bounded v l e) \<in> set fixed_replacements"
  by (auto simp: encode_bounded_def fixed_replacements_def split: option.splits)

lemma into_jsonrpc_error_cases:
  "rpc_data (into_jsonrpc_error v l e) = e \<and> validate_sdk_err e = Ok () \<and>
     (\<exists>n. l e = Some n \<and> n \<le> max_error_data_bytes) \<or>
   rpc_data (into_jsonrpc_error v l e) \<in> set fixed_replacements \<or>
   (\<exists>reason n. validate_sdk_err e = Err reason \<and> rpc_data (into_jsonrpc_error v l e) = rejected_payload reason \<and>
      l (rejected_payload reason) = Some n \<and> n \<le> max_error_data_bytes)"
proof (cases "validate_sdk_err e")
  case (Inl reason)
  with encode_bounded_cases [of v l "rejected_payload reason"] show ?thesis
    by (auto simp: into_jsonrpc_error_def rejected_payload_def)
next
  case (Inr u)
  with encode_bounded_cases [of v l e] show ?thesis by (auto simp: into_jsonrpc_error_def)
qed

lemma into_jsonrpc_error_valid: "validate_sdk_err (rpc_data (into_jsonrpc_error v l e)) = Ok ()"
proof (cases "validate_sdk_err e")
  case (Inl reason)
  have "validate_sdk_err (rejected_payload reason) = Ok ()"
    unfolding rejected_payload_def using validate_reason_short [OF Inl]
    by (intro validate_plain_error) (simp add: max_error_message_chars_def)
  from encode_bounded_data [OF this] Inl show ?thesis by (simp add: into_jsonrpc_error_def rejected_payload_def)
next
  case (Inr u)
  with encode_bounded_data [of e v l] show ?thesis by (simp add: into_jsonrpc_error_def)
qed

lemma from_jsonrpc_data_emitted:
  assumes "error_codec to_vec_len to_json len decode" and "validate_sdk_err e = Ok ()"
    and "e \<in> set fixed_replacements \<or> (\<exists>n. to_vec_len e = Some n \<and> n \<le> max_error_data_bytes)"
  shows "from_jsonrpc_data len decode (Some (to_json e)) = Ok e"
proof -
  obtain n where "len (to_json e) = Some n" "n \<le> max_error_data_bytes"
    using assms(1,3) unfolding error_codec_def by blast
  with assms(1,2) show ?thesis by (simp add: from_jsonrpc_data_def error_codec_def)
qed

text \<open>C37: Whatever error the Host produces, what reaches the wire is bounded and can be read: the fixed
  extension code, a message of at most 4096 characters, and a data object that passes the error contract and
  that the decoder of the other side accepts and decodes to just this object. The data object is the error
  itself, when it is valid and its encoding fits the byte bound; one of the two fixed replacements; or, for an
  error that breaks its own contract, the violation with the reason, again within the byte bound. The JSON
  library is a parameter: it reads back valid errors, the bytes received are those written, and the fixed
  payloads fit the bound.\<close>

theorem emitted_errors_are_bounded:
  assumes "error_codec to_vec_len to_json len decode"
  shows "let r = into_jsonrpc_error to_value_ok to_vec_len e in
     rpc_code r = -32050 \<and> length (rpc_message r) \<le> 4096 \<and>
     validate_sdk_err (rpc_data r) = Ok () \<and>
     from_jsonrpc_data len decode (Some (to_json (rpc_data r))) = Ok (rpc_data r) \<and>
     (rpc_data r = e \<and> validate_sdk_err e = Ok () \<and> (\<exists>n. to_vec_len e = Some n \<and> n \<le> max_error_data_bytes) \<or>
      rpc_data r \<in> set fixed_replacements \<or>
      (\<exists>reason n. validate_sdk_err e = Err reason \<and> rpc_data r = rejected_payload reason \<and>
         to_vec_len (rejected_payload reason) = Some n \<and> n \<le> max_error_data_bytes))"
proof -
  let ?r = "into_jsonrpc_error to_value_ok to_vec_len e"
  note cases = into_jsonrpc_error_cases [of to_value_ok to_vec_len e]
  have head: "rpc_code ?r = -32050" "length (rpc_message ?r) \<le> 4096"
    by (auto simp: into_jsonrpc_error_def encode_bounded_def extension_error_code_def
        bounded_error_message_def max_error_message_chars_def split: sum.splits)
  have "rpc_data ?r \<in> set fixed_replacements \<or> (\<exists>n. to_vec_len (rpc_data ?r) = Some n \<and> n \<le> max_error_data_bytes)"
    using cases by auto
  from from_jsonrpc_data_emitted [OF assms into_jsonrpc_error_valid this] head cases into_jsonrpc_error_valid
  show ?thesis by (simp only: Let_def)
qed

theorem emitted_errors_are_bounded_witness:
  "let e = sdk_error_new InvalidValue ''x'' Never; r = into_jsonrpc_error (\<lambda>_. True) (\<lambda>_. Some 100) e
   in from_jsonrpc_data (\<lambda>_. Some 100) Some (Some (rpc_data r)) = Ok (rpc_data r)"
proof -
  have "error_codec (\<lambda>_. Some 100) (\<lambda>e. e) (\<lambda>_. Some 100) Some"
    by (simp add: error_codec_def max_error_data_bytes_def)
  from emitted_errors_are_bounded [OF this, of "\<lambda>_. True" "sdk_error_new InvalidValue ''x'' Never"]
  show ?thesis by (simp add: Let_def)
qed

end
