(* ===== verification/Wire_Value.thy ===== *)
theory Wire_Value
  imports Sdk_Error
begin

text \<open>
  The structural value algebra of the extension wire (\<open>echo-sdk-protocol/src/scalar.rs\<close>):
  lossless paths and bytes, the closed \<open>WireValue\<close> type with its bounded validation, and the
  projection from and to JSON. The base64 decoder is a library and a parameter \<open>b64\<close> (the decoded
  bytes, or \<open>None\<close> for text that is not canonical base64). A floating point number is its IEEE bit
  pattern; a JSON value is the value tree of the JSON library, an object being its entries in
  iteration order. The theorems show that validation bounds nesting and collections, and that
  JSON survives the round trip through the wire algebra unchanged.
\<close>

section \<open>Bytes and paths\<close>

type_synonym base64_decoder = "string \<Rightarrow> u8 list option"

definition is_base64_no_pad :: "base64_decoder \<Rightarrow> string \<Rightarrow> bool" where
  "is_base64_no_pad b64 value = (b64 value \<noteq> None)"

definition is_absolute_unix_path_base64 :: "base64_decoder \<Rightarrow> string \<Rightarrow> bool" where
  "is_absolute_unix_path_base64 b64 value =
     (case b64 value of
        None \<Rightarrow> False
      | Some bytes \<Rightarrow> bytes \<noteq> [] \<and> hd bytes = 47 \<and> 0 \<notin> set bytes)"

fun le_units :: "u8 list \<Rightarrow> u16 list" where
  "le_units (low # high # rest) = (ucast low + 256 * ucast high) # le_units rest"
| "le_units _ = []"

definition nth_opt :: "'a list \<Rightarrow> nat \<Rightarrow> 'a option" where
  "nth_opt xs i = (if i < length xs then Some (xs ! i) else None)"

definition unit_is_ascii_letter :: "u16 \<Rightarrow> bool" where
  "unit_is_ascii_letter u = ((65 \<le> u \<and> u \<le> 90) \<or> (97 \<le> u \<and> u \<le> 122))"

definition windows_units_are_absolute :: "u16 list \<Rightarrow> bool" where
  "windows_units_are_absolute units =
     (let first = nth_opt units 0; second = nth_opt units 1; third = nth_opt units 2;
          drive_absolute = (case first of None \<Rightarrow> False | Some u \<Rightarrow> unit_is_ascii_letter u)
            \<and> second = Some 58 \<and> (third = Some 92 \<or> third = Some 47);
          unc = (first = Some 92 \<and> second = Some 92)
      in drive_absolute \<or> unc)"

definition is_absolute_windows_path_base64 :: "base64_decoder \<Rightarrow> string \<Rightarrow> bool" where
  "is_absolute_windows_path_base64 b64 value =
     (case b64 value of
        None \<Rightarrow> False
      | Some bytes \<Rightarrow>
          if bytes = [] \<or> odd (length bytes) then False
          else 0 \<notin> set (le_units bytes) \<and> windows_units_are_absolute (le_units bytes))"

definition is_absolute_utf8_path :: "string \<Rightarrow> bool" where
  "is_absolute_utf8_path path =
     (if CHR 0x00 \<in> set path then False
      else if take 1 path = ''/'' \<or> take 2 path = [CHR 0x5C, CHR 0x5C] then True
      else case (nth_opt path 0, nth_opt path 1, nth_opt path 2) of
             (Some letter, Some colon, Some sep) \<Rightarrow>
               colon = CHR '':'' \<and> (sep = CHR ''/'' \<or> sep = CHR 0x5C) \<and> is_ascii_alphabetic letter
           | _ \<Rightarrow> False)"

datatype wire_path =
    UnixPath string "string option"
  | WindowsPath string "string option"
  | Utf8Path string

fun validate_path :: "base64_decoder \<Rightarrow> wire_path \<Rightarrow> scalar_error + unit" where
  "validate_path b64 (UnixPath bytes display) =
     reject_if (\<not> is_absolute_unix_path_base64 b64 bytes) (InvalidPath ''Unix path must be absolute'')"
| "validate_path b64 (WindowsPath utf16 display) =
     reject_if (\<not> is_absolute_windows_path_base64 b64 utf16) (InvalidPath ''Windows path must be absolute'')"
| "validate_path b64 (Utf8Path path) =
     reject_if (\<not> is_absolute_utf8_path path) (InvalidPath ''UTF-8 path must be absolute'')"

definition validate_bytes :: "base64_decoder \<Rightarrow> string \<Rightarrow> scalar_error + unit" where
  "validate_bytes b64 text = (if is_base64_no_pad b64 text then Ok () else Err InvalidBase64)"

section \<open>Wire values\<close>

type_synonym f64 = "64 word"

text \<open>The exponent bits of a finite number are not all ones.\<close>

definition f64_is_finite :: "f64 \<Rightarrow> bool" where
  "f64_is_finite x = (unat x div 2 ^ 52 mod 2048 \<noteq> 2047)"

datatype wire_value =
    WNull
  | WBool bool
  | WString string
  | WI64 wire_i64
  | WU64 wire_u64
  | WF64 f64
  | WBytes string
  | WDuration wire_duration
  | WTimestamp wire_timestamp
  | WPath wire_path
  | WHandle wire_handle
  | WList "wire_value list"
  | WMap "(wire_value \<times> wire_value) list"
  | WRecord string "(string \<times> wire_value) list"
  | WVariant string string "(string \<times> wire_value) list"
  | WUnknown string "wire_value option"

definition max_wire_value_depth :: nat where "max_wire_value_depth = 64"
definition max_wire_collection_items :: nat where "max_wire_collection_items = 4096"
definition max_wire_text_chars :: nat where "max_wire_text_chars = 1048576"

definition validate_collection_len :: "nat \<Rightarrow> scalar_error + unit" where
  "validate_collection_len n =
     (if max_wire_collection_items < n then Err (ValueLimit ''maximum collection items'') else Ok ())"

definition validate_text :: "string \<Rightarrow> scalar_error + unit" where
  "validate_text value =
     (if max_wire_text_chars < length value then Err (ValueLimit ''maximum text characters'') else Ok ())"

definition validate_identity :: "string \<Rightarrow> scalar_error + unit" where
  "validate_identity value = (if blank value then Err EmptyDomainId else validate_text value)"

definition retired_sdk_record_field :: "string \<Rightarrow> string \<Rightarrow> bool" where
  "retired_sdk_record_field type_id field =
     ((type_id = ''echo_core::plugin::registry::ResolvedComponents'' \<and> field = ''lsp_config_file'') \<or>
      (type_id = ''echo_agent::plugin::prepared::PluginWiringResult'' \<and> field = ''lsp_discovered''))"

definition retired_sdk_variant :: "string \<Rightarrow> string \<Rightarrow> bool" where
  "retired_sdk_variant type_id variant =
     (type_id = ''echo_core::plugin::capability::PluginCapability'' \<and>
      (variant = ''LspServer'' \<or> variant = ''lsp_server''))"

text \<open>
  The loops over the items of a collection. Each item is given as its own check, a function of the
  depth, so that the recursion of \<open>validate_at_depth\<close> is the structural one of the value.
\<close>

type_synonym value_check = "nat \<Rightarrow> scalar_error + unit"

fun check_items :: "nat \<Rightarrow> value_check list \<Rightarrow> scalar_error + unit" where
  "check_items depth [] = Ok ()"
| "check_items depth (c # cs) = and_then (c depth) (\<lambda>_. check_items depth cs)"

fun check_entries :: "nat \<Rightarrow> (value_check \<times> value_check) list \<Rightarrow> scalar_error + unit" where
  "check_entries depth [] = Ok ()"
| "check_entries depth ((k, v) # es) =
     and_then (k depth) (\<lambda>_. and_then (v depth) (\<lambda>_. check_entries depth es))"

fun check_field_list ::
  "nat \<Rightarrow> string list \<Rightarrow> (string \<times> value_check) list \<Rightarrow> scalar_error + unit" where
  "check_field_list depth names [] = Ok ()"
| "check_field_list depth names ((name, v) # fs) =
     and_then (validate_identity name) (\<lambda>_.
     and_then (reject_if (name \<in> set names) (ValueLimit ''duplicate record field'')) (\<lambda>_.
     and_then (v depth) (\<lambda>_. check_field_list depth (name # names) fs)))"

text \<open>\<open>validate_fields\<close>\<close>

definition validate_fields :: "(string \<times> value_check) list \<Rightarrow> nat \<Rightarrow> scalar_error + unit" where
  "validate_fields flds depth =
     and_then (validate_collection_len (length flds)) (\<lambda>_. check_field_list (depth + 1) [] flds)"

definition depth_guard :: "nat \<Rightarrow> scalar_error + unit \<Rightarrow> scalar_error + unit" where
  "depth_guard depth r =
     (if max_wire_value_depth < depth then Err (ValueLimit ''maximum nesting depth'') else r)"

primrec validate_at_depth :: "base64_decoder \<Rightarrow> wire_value \<Rightarrow> nat \<Rightarrow> scalar_error + unit" where
  "validate_at_depth b64 WNull = (\<lambda>depth. depth_guard depth (Ok ()))"
| "validate_at_depth b64 (WBool b) = (\<lambda>depth. depth_guard depth (Ok ()))"
| "validate_at_depth b64 (WString s) = (\<lambda>depth. depth_guard depth (validate_text s))"
| "validate_at_depth b64 (WI64 i) = (\<lambda>depth. depth_guard depth (Ok ()))"
| "validate_at_depth b64 (WU64 u) = (\<lambda>depth. depth_guard depth (Ok ()))"
| "validate_at_depth b64 (WF64 x) = (\<lambda>depth. depth_guard depth
     (if \<not> f64_is_finite x then Err (ValueLimit ''non-finite floating point value'') else Ok ()))"
| "validate_at_depth b64 (WBytes s) = (\<lambda>depth. depth_guard depth (validate_bytes b64 s))"
| "validate_at_depth b64 (WDuration d) = (\<lambda>depth. depth_guard depth (validate_duration d))"
| "validate_at_depth b64 (WTimestamp t) = (\<lambda>depth. depth_guard depth (validate_timestamp t))"
| "validate_at_depth b64 (WPath p) = (\<lambda>depth. depth_guard depth (validate_path b64 p))"
| "validate_at_depth b64 (WHandle h) = (\<lambda>depth. depth_guard depth
     (map_err (\<lambda>_. EmptyDomainId) (validate_handle h)))"
| "validate_at_depth b64 (WList vs) = (\<lambda>depth. depth_guard depth
     (and_then (validate_collection_len (length vs)) (\<lambda>_.
        check_items (depth + 1) (map (validate_at_depth b64) vs))))"
| "validate_at_depth b64 (WMap es) = (\<lambda>depth. depth_guard depth
     (and_then (validate_collection_len (length es)) (\<lambda>_.
        check_entries (depth + 1)
          (map (map_prod (validate_at_depth b64) (validate_at_depth b64)) es))))"
| "validate_at_depth b64 (WRecord type_id flds) = (\<lambda>depth. depth_guard depth
     (and_then (validate_identity type_id) (\<lambda>_.
      and_then (reject_if (list_ex (\<lambda>f. retired_sdk_record_field type_id (fst f)) flds)
                  (ValueLimit ''retired SDK field'')) (\<lambda>_.
        validate_fields (map (map_prod id (validate_at_depth b64)) flds) depth))))"
| "validate_at_depth b64 (WVariant type_id variant flds) = (\<lambda>depth. depth_guard depth
     (and_then (validate_identity type_id) (\<lambda>_.
      and_then (validate_identity variant) (\<lambda>_.
      and_then (reject_if (retired_sdk_variant type_id variant)
                  (ValueLimit ''retired SDK variant'')) (\<lambda>_.
        validate_fields (map (map_prod id (validate_at_depth b64)) flds) depth)))))"
| "validate_at_depth b64 (WUnknown type_tag payload) = (\<lambda>depth. depth_guard depth
     (and_then (validate_identity type_tag) (\<lambda>_.
        case map_option (validate_at_depth b64) payload of
          None \<Rightarrow> Ok ()
        | Some check \<Rightarrow> check (depth + 1))))"

definition validate_wire_value :: "base64_decoder \<Rightarrow> wire_value \<Rightarrow> scalar_error + unit" where
  "validate_wire_value b64 v = validate_at_depth b64 v 0"

section \<open>Validation bounds every value\<close>

text \<open>The direct components of a value.\<close>

fun components :: "wire_value \<Rightarrow> wire_value list" where
  "components (WList vs) = vs"
| "components (WMap es) = map fst es @ map snd es"
| "components (WRecord t fs) = map snd fs"
| "components (WVariant t v fs) = map snd fs"
| "components (WUnknown t (Some p)) = [p]"
| "components v = []"

text \<open>A chain of values, each a component of the one before: a path into the first one.\<close>

fun nested_chain :: "wire_value \<Rightarrow> wire_value list \<Rightarrow> bool" where
  "nested_chain v [] = True"
| "nested_chain v (c # cs) = (c \<in> set (components v) \<and> nested_chain c cs)"

lemma check_items_Ok: "check_items d cs = Ok () \<longleftrightarrow> (\<forall>c\<in>set cs. c d = Ok ())"
  by (induction cs) (auto simp: and_then_eq_Ok)

lemma check_entries_Ok:
  "check_entries d es = Ok () \<longleftrightarrow> (\<forall>e\<in>set es. fst e d = Ok () \<and> snd e d = Ok ())"
  by (induction es) (auto simp: and_then_eq_Ok)

lemma check_field_list_Ok:
  "check_field_list d names fs = Ok () \<longleftrightarrow>
     (\<forall>f\<in>set fs. validate_identity (fst f) = Ok () \<and> snd f d = Ok () \<and> fst f \<notin> set names) \<and>
     distinct (map fst fs)"
proof (induction fs arbitrary: names)
  case Nil
  then show ?case by simp
next
  case (Cons f fs)
  obtain n v where f: "f = (n, v)" by (cases f)
  show ?case by (simp add: f Cons.IH and_then_eq_Ok reject_if_eq_Ok) blast
qed

lemma depth_guard_Ok: "depth_guard d r = Ok () \<longleftrightarrow> d \<le> max_wire_value_depth \<and> r = Ok ()"
  by (auto simp: depth_guard_def)

lemmas validation_Ok =
  depth_guard_Ok and_then_eq_Ok reject_if_eq_Ok map_err_eq_Ok check_items_Ok check_entries_Ok
  check_field_list_Ok validate_fields_def

lemma validate_depth: "validate_at_depth b64 v d = Ok () \<Longrightarrow> d \<le> max_wire_value_depth"
  by (cases v) (auto simp: depth_guard_Ok)

lemma validate_component:
  assumes "validate_at_depth b64 v d = Ok ()" and "c \<in> set (components v)"
  shows "validate_at_depth b64 c (Suc d) = Ok ()"
  using assms
  by (cases v) (auto simp: validation_Ok split: option.splits elim!: components.elims)

lemma validate_chain:
  "validate_at_depth b64 v d = Ok () \<Longrightarrow> nested_chain v cs \<Longrightarrow>
     d + length cs \<le> max_wire_value_depth \<and> (\<forall>c\<in>set cs. \<exists>e. validate_at_depth b64 c e = Ok ())"
proof (induction cs arbitrary: v d)
  case Nil
  then show ?case by (auto dest: validate_depth)
next
  case (Cons c cs)
  then have c: "validate_at_depth b64 c (Suc d) = Ok ()" and "nested_chain c cs"
    by (auto intro: validate_component)
  with Cons.IH [OF c] show ?case by auto
qed

lemma validate_width:
  "validate_at_depth b64 v d = Ok () \<Longrightarrow> length (components v) \<le> 2 * max_wire_collection_items"
  by (cases v)
     (auto simp: validation_Ok validate_collection_len_def max_wire_collection_items_def
       split: if_splits option.splits elim!: components.elims)

text \<open>Validation bounds what the Host accepts, however deeply the value is built: every chain of
  nested components of an accepted value has at most 64 steps, every value on it is itself accepted
  at its depth, and every value on it has at most 2 * 4096 direct components.\<close>

theorem validated_values_are_bounded:
  assumes "validate_wire_value b64 v = Ok ()" and "nested_chain v cs"
  shows "length cs \<le> 64 \<and> (\<forall>c\<in>set (v # cs). length (components c) \<le> 2 * 4096)"
proof
  from assms validate_chain [of b64 v 0 cs]
  show "length cs \<le> 64"
    by (simp add: validate_wire_value_def max_wire_value_depth_def)
  from assms validate_chain [of b64 v 0 cs]
  have "\<forall>c\<in>set (v # cs). \<exists>e. validate_at_depth b64 c e = Ok ()"
    by (auto simp: validate_wire_value_def)
  then show "\<forall>c\<in>set (v # cs). length (components c) \<le> 2 * 4096"
    by (auto dest!: validate_width simp: max_wire_collection_items_def)
qed

theorem validated_values_are_bounded_witness:
  "length [WList [WNull], WNull] \<le> (64::nat)"
proof -
  have "validate_wire_value (\<lambda>_. None) (WList [WList [WNull]]) = Ok ()"
    by (simp add: validate_wire_value_def depth_guard_def validate_collection_len_def
        max_wire_value_depth_def max_wire_collection_items_def)
  from validated_values_are_bounded [OF this, of "[WList [WNull], WNull]"]
  show ?thesis by simp
qed

section \<open>JSON projection\<close>

datatype json_number = PosInt u64 | NegInt int | JFloat f64

datatype json =
    JNull
  | JBool bool
  | JNumber json_number
  | JString string
  | JArray "json list"
  | JObject "(string \<times> json) list"

text \<open>
  What the JSON library guarantees of its values: negative integers are in the range of \<open>i64\<close>,
  floating point numbers are finite, and an object has every key once.
\<close>

fun number_ok :: "json_number \<Rightarrow> bool" where
  "number_ok (PosInt n) = True"
| "number_ok (NegInt i) = (i64_min \<le> i \<and> i < 0)"
| "number_ok (JFloat x) = f64_is_finite x"

primrec json_ok :: "json \<Rightarrow> bool" where
  "json_ok JNull = True"
| "json_ok (JBool b) = True"
| "json_ok (JNumber n) = number_ok n"
| "json_ok (JString s) = True"
| "json_ok (JArray vs) = list_all id (map json_ok vs)"
| "json_ok (JObject es) = (distinct (map fst es) \<and> list_all snd (map (map_prod id json_ok) es))"

text \<open>\<open>as_u64\<close>, \<open>as_i64\<close> and \<open>as_f64\<close> in the order in which \<open>from_json\<close> tries them.\<close>

definition number_from_json :: "json_number \<Rightarrow> scalar_error + wire_value" where
  "number_from_json n =
     (case n of
        PosInt u \<Rightarrow> Ok (WU64 (from_u64 u))
      | NegInt i \<Rightarrow> Ok (WI64 (from_i64 i))
      | JFloat x \<Rightarrow>
          if f64_is_finite x then Ok (WF64 x) else Err (ValueLimit ''unsupported JSON number''))"

fun collect_ok :: "('e + 'a) list \<Rightarrow> 'e + 'a list" where
  "collect_ok [] = Ok []"
| "collect_ok (r # rs) = and_then r (\<lambda>x. map_ok (\<lambda>xs. x # xs) (collect_ok rs))"

fun collect_entries :: "(string \<times> (scalar_error + wire_value)) list \<Rightarrow>
    scalar_error + (wire_value \<times> wire_value) list" where
  "collect_entries [] = Ok []"
| "collect_entries ((k, r) # rs) =
     and_then r (\<lambda>v. map_ok (\<lambda>es. (WString k, v) # es) (collect_entries rs))"

primrec from_json :: "json \<Rightarrow> scalar_error + wire_value" where
  "from_json JNull = Ok WNull"
| "from_json (JBool b) = Ok (WBool b)"
| "from_json (JNumber n) = number_from_json n"
| "from_json (JString s) = Ok (WString s)"
| "from_json (JArray vs) = map_ok WList (collect_ok (map from_json vs))"
| "from_json (JObject es) = map_ok WMap (collect_entries (map (map_prod id from_json) es))"

text \<open>The loop of \<open>into_json\<close> over the entries of a map, with the object built so far.\<close>

fun insert_entries :: "(string \<times> json) list \<Rightarrow>
    (wire_value \<times> (scalar_error + json)) list \<Rightarrow> scalar_error + (string \<times> json) list" where
  "insert_entries object [] = Ok object"
| "insert_entries object ((k, r) # rs) =
     (case k of
        WString key \<Rightarrow>
          and_then r (\<lambda>v.
            if hget object key \<noteq> None then Err (ValueLimit ''duplicate JSON object key'')
            else insert_entries (hput key v object) rs)
      | _ \<Rightarrow> Err (ValueLimit ''JSON object key must be text''))"

definition i64_to_number :: "int \<Rightarrow> json_number" where
  "i64_to_number i = (if i < 0 then NegInt i else PosInt (word_of_int i))"

fun into_json :: "wire_value \<Rightarrow> scalar_error + json" where
  "into_json WNull = Ok JNull"
| "into_json (WBool b) = Ok (JBool b)"
| "into_json (WString s) = Ok (JString s)"
| "into_json (WI64 w) =
     map_ok (\<lambda>i. JNumber (i64_to_number i)) (ok_or (to_i64 w) (InvalidInteger (i64_text w)))"
| "into_json (WU64 w) =
     map_ok (\<lambda>u. JNumber (PosInt u)) (ok_or (to_u64 w) (InvalidInteger (u64_text w)))"
| "into_json (WF64 x) =
     (if f64_is_finite x then Ok (JNumber (JFloat x))
      else Err (ValueLimit ''non-finite floating point value''))"
| "into_json (WList vs) = map_ok JArray (collect_ok (map into_json vs))"
| "into_json (WMap es) =
     map_ok JObject (insert_entries [] (map (\<lambda>e. (fst e, into_json (snd e))) es))"
| "into_json _ = Err (ValueLimit ''typed wire value has no implicit JSON projection'')"

lemma collect_ok_map:
  "(\<And>x. x \<in> set xs \<Longrightarrow> f x = Ok (g x)) \<Longrightarrow> collect_ok (map f xs) = Ok (map g xs)"
  by (induction xs) auto

lemma collect_entries_map:
  "\<forall>e\<in>set es. f (snd e) = Ok (g (snd e)) \<Longrightarrow>
     collect_entries (map (map_prod id f) es) = Ok (map (\<lambda>e. (WString (fst e), g (snd e))) es)"
  by (induction es) auto

lemma hput_absent: "hget m k = None \<Longrightarrow> hput k v m = m @ [(k, v)]"
  by (induction m) (auto split: if_splits)

lemma insert_entries_append:
  "distinct (map fst (object @ es)) \<Longrightarrow>
   insert_entries object (map (\<lambda>e. (WString (fst e), Ok (snd e))) es) = Ok (object @ es)"
proof (induction es arbitrary: object)
  case Nil
  then show ?case by simp
next
  case (Cons e es)
  then have "hget object (fst e) = None"
    by (auto simp: map_of_eq_None_iff)
  then show ?case
    using Cons by (simp add: hput_absent)
qed

text \<open>The wire form of a JSON value that \<open>from_json\<close> accepts, as a total function.\<close>

primrec wire_of :: "json \<Rightarrow> wire_value" where
  "wire_of JNull = WNull"
| "wire_of (JBool b) = WBool b"
| "wire_of (JNumber n) =
     (case n of PosInt u \<Rightarrow> WU64 (from_u64 u) | NegInt i \<Rightarrow> WI64 (from_i64 i) | JFloat x \<Rightarrow> WF64 x)"
| "wire_of (JString s) = WString s"
| "wire_of (JArray vs) = WList (map wire_of vs)"
| "wire_of (JObject es) = WMap (map (\<lambda>e. (WString (fst e), snd e)) (map (map_prod id wire_of) es))"

lemma from_json_total: "json_ok j \<Longrightarrow> from_json j = Ok (wire_of j)"
proof (induction j)
  case (JNumber n)
  then show ?case by (cases n) (auto simp: number_from_json_def)
next
  case (JArray vs)
  then show ?case by (simp add: list_all_iff collect_ok_map [where g = wire_of])
next
  case (JObject es)
  then have "\<forall>e\<in>set es. from_json (snd e) = Ok (wire_of (snd e))"
    by (fastforce simp: list_all_iff)
  then show ?case by (simp add: collect_entries_map [where g = wire_of] comp_def)
qed simp_all

lemma into_json_wire_of: "json_ok j \<Longrightarrow> into_json (wire_of j) = Ok j"
proof (induction j)
  case (JNumber n)
  have "i < 0 \<Longrightarrow> i \<le> i64_max" for i by (simp add: i64_max_def)
  with JNumber show ?case by (cases n) (auto simp: i64_to_number_def)
next
  case (JArray vs)
  then have "collect_ok (map (\<lambda>v. into_json (wire_of v)) vs) = Ok (map id vs)"
    by (intro collect_ok_map) (simp add: list_all_iff)
  then show ?case by (simp add: comp_def)
next
  case (JObject es)
  then have "into_json (wire_of v) = Ok v" if "(k, v) \<in> set es" for k v
    using that by (fastforce simp: list_all_iff)
  then have eq: "map (\<lambda>e. (WString (fst e), into_json (wire_of (snd e)))) es
      = map (\<lambda>e. (WString (fst e), Ok (snd e))) es"
    by auto
  have "into_json (wire_of (JObject es)) = map_ok JObject
      (insert_entries [] (map (\<lambda>e. (WString (fst e), into_json (wire_of (snd e)))) es))"
    by (simp add: comp_def)
  also have "\<dots> = Ok (JObject es)"
    unfolding eq using JObject.prems insert_entries_append [of "[]" es] by simp
  finally show ?case .
qed simp_all

text \<open>C36: JSON survives the wire algebra: every value of the JSON library is accepted by \<open>from_json\<close>,
  and projecting the wire value back gives the very same JSON value.\<close>

theorem json_round_trip:
  assumes "json_ok j"
  shows "\<exists>v. from_json j = Ok v \<and> into_json v = Ok j"
  using assms by (auto simp: from_json_total into_json_wire_of)

theorem json_round_trip_witness:
  "\<exists>v. from_json (JObject [(''a'', JArray [JNumber (NegInt (-1)), JNull]), (''b'', JString ''x'')]) = Ok v \<and>
     into_json v = Ok (JObject [(''a'', JArray [JNumber (NegInt (-1)), JNull]), (''b'', JString ''x'')])"
  by (rule json_round_trip) (simp add: i64_min_def)

end
