(* ===== verification/Wire_Event.thy ===== *)
theory Wire_Event
  imports Wire_Value
begin

text \<open>
  Event, acknowledgement, replay and gap messages (\<open>echo-sdk-protocol/src/event.rs\<close>): the DTOs as
  records and their validation, in the order of the code's checks. The theorems characterise
  what a validated replay page can be: one contiguous run of events of one stream that starts
  right after the requested cursor or after the reported gap, with the cursor on its end.
\<close>

section \<open>Events\<close>

record event_payload =
  ep_type :: string
  ep_data :: "wire_value option"

record event_envelope =
  ev_schema_version :: u16
  ev_id :: string
  ev_content_hash :: string
  ev_sequence :: wire_non_zero_u64
  ev_stream_id :: string
  ev_conversation_id :: "string option"
  ev_run_id :: "string option"
  ev_turn_id :: string
  ev_message_id :: "string option"
  ev_execution_id :: "string option"
  ev_parent_event_id :: "string option"
  ev_timestamp :: wire_timestamp
  ev_payload :: event_payload

datatype event_error =
    InvalidIdentity string
  | InvalidSequence
  | InvalidEventTimestamp
  | InvalidPayload string
  | ScalarErr scalar_error

definition validate_payload :: "base64_decoder \<Rightarrow> event_payload \<Rightarrow> event_error + unit" where
  "validate_payload b64 p =
     (if blank (ep_type p) then Err (InvalidIdentity ''event_type'')
      else case ep_data p of
        None \<Rightarrow> Ok ()
      | Some d \<Rightarrow> map_err ScalarErr (validate_wire_value b64 d))"

fun first_blank :: "(string \<times> string) list \<Rightarrow> event_error + unit" where
  "first_blank [] = Ok ()"
| "first_blank ((name, value) # rest) =
     (if blank value then Err (InvalidIdentity name) else first_blank rest)"

definition validate_envelope :: "base64_decoder \<Rightarrow> event_envelope \<Rightarrow> event_error + unit" where
  "validate_envelope b64 e =
     and_then (first_blank [(''event_id'', ev_id e), (''stream_id'', ev_stream_id e),
                 (''turn_id'', ev_turn_id e), (''content_hash'', ev_content_hash e)]) (\<lambda>_.
     and_then (reject_if (\<not> is_sha256_digest (ev_content_hash e)) (InvalidIdentity ''content_hash'')) (\<lambda>_.
     and_then (reject_if (case nz_to_u64 (ev_sequence e) of None \<Rightarrow> True | Some q \<Rightarrow> q = 0)
                 InvalidSequence) (\<lambda>_.
     and_then (map_err ScalarErr (validate_timestamp (ev_timestamp e))) (\<lambda>_.
       validate_payload b64 (ev_payload e)))))"

section \<open>Notifications\<close>

definition validate_stream_handle :: "wire_handle \<Rightarrow> event_error + unit" where
  "validate_stream_handle h =
     and_then (map_err (\<lambda>_. InvalidIdentity ''stream handle'') (validate_handle h)) (\<lambda>_.
       reject_if (h_kind h \<noteq> StreamKind) (InvalidIdentity ''stream handle kind''))"

record event_notification =
  en_stream :: wire_handle
  en_envelope :: event_envelope

definition validate_event_notification :: "base64_decoder \<Rightarrow> event_notification \<Rightarrow> event_error + unit" where
  "validate_event_notification b64 n =
     and_then (validate_stream_handle (en_stream n)) (\<lambda>_.
     and_then (reject_if (h_id (en_stream n) \<noteq> ev_stream_id (en_envelope n))
                 (InvalidIdentity ''notification stream must match the envelope stream_id'')) (\<lambda>_.
       validate_envelope b64 (en_envelope n)))"

record event_ack =
  ack_stream :: wire_handle
  ack_sequence :: wire_non_zero_u64

definition validate_ack :: "event_ack \<Rightarrow> event_error + unit" where
  "validate_ack a =
     and_then (validate_stream_handle (ack_stream a)) (\<lambda>_.
       reject_if (case nz_to_u64 (ack_sequence a) of None \<Rightarrow> True | Some q \<Rightarrow> q = 0) InvalidSequence)"

record event_gap =
  gap_from :: wire_non_zero_u64
  gap_to :: wire_non_zero_u64
  gap_reason :: string
  gap_watermark :: wire_non_zero_u64

definition validate_gap :: "event_gap \<Rightarrow> event_error + unit" where
  "validate_gap g =
     and_then (ok_or (nz_to_u64 (gap_from g)) InvalidSequence) (\<lambda>from.
     and_then (ok_or (nz_to_u64 (gap_to g)) InvalidSequence) (\<lambda>to.
     and_then (ok_or (nz_to_u64 (gap_watermark g)) InvalidSequence) (\<lambda>watermark.
       if from = 0 \<or> to < from \<or> watermark < to \<or> blank (gap_reason g)
       then Err InvalidSequence else Ok ())))"

record gap_notification =
  gn_stream :: wire_handle
  gn_gap :: event_gap

definition validate_gap_notification :: "gap_notification \<Rightarrow> event_error + unit" where
  "validate_gap_notification n =
     and_then (validate_stream_handle (gn_stream n)) (\<lambda>_. validate_gap (gn_gap n))"

section \<open>Replay\<close>

record replay_request =
  rq_stream :: wire_handle
  rq_after :: wire_u64
  rq_max_events :: "wire_non_zero_u64 option"

definition validate_replay_request :: "replay_request \<Rightarrow> event_error + unit" where
  "validate_replay_request r =
     and_then (validate_stream_handle (rq_stream r)) (\<lambda>_.
       reject_if (case rq_max_events r of None \<Rightarrow> False | Some m \<Rightarrow> nz_to_u64 m = Some 0) InvalidSequence)"

record event_cursor =
  cur_stream_id :: string
  cur_sequence :: wire_u64

definition validate_cursor :: "event_cursor \<Rightarrow> event_error + unit" where
  "validate_cursor c =
     (if blank (cur_stream_id c) then Err (InvalidIdentity ''stream_id'') else Ok ())"

record replay_response =
  rr_requested :: wire_u64
  rr_events :: "event_envelope list"
  rr_cursor :: event_cursor
  rr_gap :: "event_gap option"

text \<open>
  The loop over the events of a page, with the sequence of the previous event; \<open>base\<close> is where
  the first one has to follow.
\<close>

fun validate_replay_events ::
  "base64_decoder \<Rightarrow> string \<Rightarrow> u64 \<Rightarrow> u64 option \<Rightarrow> event_envelope list \<Rightarrow> event_error + u64 option" where
  "validate_replay_events b64 stream base previous [] = Ok previous"
| "validate_replay_events b64 stream base previous (e # es) =
     and_then (validate_envelope b64 e) (\<lambda>_.
     and_then (reject_if (ev_stream_id e \<noteq> stream) (InvalidIdentity ''replay stream_id'')) (\<lambda>_.
     and_then (ok_or (nz_to_u64 (ev_sequence e)) InvalidSequence) (\<lambda>q.
     and_then (reject_if (previous = None \<and> checked_add base 1 \<noteq> Some q) InvalidSequence) (\<lambda>_.
     and_then (reject_if (case previous of None \<Rightarrow> False | Some p \<Rightarrow> checked_add p 1 \<noteq> Some q)
                 InvalidSequence) (\<lambda>_.
       validate_replay_events b64 stream base (Some q) es)))))"

definition option_or :: "'a option \<Rightarrow> 'a option \<Rightarrow> 'a option" where
  "option_or a b = (case a of None \<Rightarrow> b | Some x \<Rightarrow> Some x)"

definition option_default :: "'a option \<Rightarrow> 'a \<Rightarrow> 'a" where
  "option_default a d = (case a of None \<Rightarrow> d | Some x \<Rightarrow> x)"

definition validate_replay_response :: "base64_decoder \<Rightarrow> replay_response \<Rightarrow> event_error + unit" where
  "validate_replay_response b64 r =
     and_then (validate_cursor (rr_cursor r)) (\<lambda>_.
     and_then (ok_or (to_u64 (rr_requested r)) InvalidSequence) (\<lambda>requested.
     and_then (case rr_gap r of
                 None \<Rightarrow> Ok None
               | Some g \<Rightarrow> map_ok Some (ok_or (nz_to_u64 (gap_watermark g)) InvalidSequence)) (\<lambda>mark.
     and_then (validate_replay_events b64 (cur_stream_id (rr_cursor r))
                 (option_default mark requested) None (rr_events r)) (\<lambda>previous.
     and_then (ok_or (to_u64 (cur_sequence (rr_cursor r))) InvalidSequence) (\<lambda>cursor.
     and_then (reject_if (cursor \<noteq> option_default (option_or previous mark) requested) InvalidSequence) (\<lambda>_.
       case rr_gap r of
         None \<Rightarrow> Ok ()
       | Some g \<Rightarrow>
           and_then (validate_gap g) (\<lambda>_.
           and_then (ok_or (nz_to_u64 (gap_from g)) InvalidSequence) (\<lambda>from.
             reject_if (checked_add requested 1 \<noteq> Some from) InvalidSequence))))))))"

section \<open>What a validated page is\<close>

text \<open>The sequence numbers of a page, as natural numbers.\<close>

definition event_seq :: "event_envelope \<Rightarrow> nat" where
  "event_seq e = (case nz_to_u64 (ev_sequence e) of None \<Rightarrow> 0 | Some q \<Rightarrow> unat q)"

lemma validate_replay_events_Ok:
  assumes "validate_replay_events b64 stream base previous es = Ok out"
  shows "map event_seq es = [Suc (unat (option_default previous base)) ..<
            Suc (unat (option_default previous base) + length es)] \<and>
         (\<forall>e\<in>set es. ev_stream_id e = stream \<and> validate_envelope b64 e = Ok ()) \<and>
         unat (option_default out base) = unat (option_default previous base) + length es \<and>
         (out = None \<longleftrightarrow> previous = None \<and> es = [])"
  using assms
proof (induction es arbitrary: previous)
  case Nil
  then show ?case by simp
next
  case (Cons e es)
  then obtain q where q: "nz_to_u64 (ev_sequence e) = Some q"
    and env: "validate_envelope b64 e = Ok ()" and sid: "ev_stream_id e = stream"
    and rest: "validate_replay_events b64 stream base (Some q) es = Ok out"
    and nxt: "checked_add (option_default previous base) 1 = Some q"
    by (cases previous) (auto simp: res_simps option_default_def split: option.splits)
  have uq: "unat q = Suc (unat (option_default previous base))"
    using checked_add_SomeD [OF nxt] by simp
  have seq: "event_seq e = Suc (unat (option_default previous base))"
    using q uq by (simp add: event_seq_def)
  have range: "[Suc (unat (option_default previous base)) ..<
       Suc (unat (option_default previous base) + length (e # es))] =
     Suc (unat (option_default previous base)) # [Suc (unat q) ..< Suc (unat q + length es)]"
    by (simp add: uq upt_conv_Cons del: upt_Suc)
  show ?case
    using Cons.IH [OF rest] env sid seq uq unfolding range
    by (simp add: option_default_def)
qed

text \<open>C26: A replay page that passes validation is one contiguous piece of one stream. Its events all
  belong to the cursor's stream and are each valid; their sequence numbers are consecutive and start
  right after the gap's watermark if a gap is reported, else right after the requested cursor; the
  returned cursor is the last covered sequence; and a reported gap begins right after the request.\<close>

theorem validated_replay_is_contiguous:
  assumes "validate_replay_response b64 r = Ok ()"
  shows "\<exists>requested cursor base.
     to_u64 (rr_requested r) = Some requested \<and>
     to_u64 (cur_sequence (rr_cursor r)) = Some cursor \<and>
     (case rr_gap r of
        None \<Rightarrow> base = unat requested
      | Some g \<Rightarrow> (\<exists>from watermark. nz_to_u64 (gap_from g) = Some from \<and>
           nz_to_u64 (gap_watermark g) = Some watermark \<and>
           unat from = Suc (unat requested) \<and> from \<le> watermark \<and> base = unat watermark)) \<and>
     map event_seq (rr_events r) = [Suc base ..< Suc (base + length (rr_events r))] \<and>
     unat cursor = base + length (rr_events r) \<and>
     (\<forall>e\<in>set (rr_events r). ev_stream_id e = cur_stream_id (rr_cursor r) \<and>
        validate_envelope b64 e = Ok ())"
proof -
  from assms obtain requested cursor mark previous where
    req: "to_u64 (rr_requested r) = Some requested"
    and cur: "to_u64 (cur_sequence (rr_cursor r)) = Some cursor"
    and mark: "(case rr_gap r of None \<Rightarrow> Ok None
       | Some g \<Rightarrow> map_ok Some (ok_or (nz_to_u64 (gap_watermark g)) InvalidSequence)) = Ok mark"
    and evs: "validate_replay_events b64 (cur_stream_id (rr_cursor r))
       (option_default mark requested) None (rr_events r) = Ok previous"
    and cursor: "cursor = option_default (option_or previous mark) requested"
    and gap: "case rr_gap r of None \<Rightarrow> True
       | Some g \<Rightarrow> validate_gap g = Ok () \<and>
           (\<exists>from. nz_to_u64 (gap_from g) = Some from \<and> checked_add requested 1 = Some from)"
    by (auto simp: validate_replay_response_def res_simps split: option.splits)
  let ?base = "unat (option_default mark requested)"
  note page = validate_replay_events_Ok [OF evs]
  have "unat cursor = ?base + length (rr_events r)"
    using page cursor by (cases previous) (auto simp: option_default_def option_or_def)
  moreover have "case rr_gap r of
        None \<Rightarrow> ?base = unat requested
      | Some g \<Rightarrow> (\<exists>from watermark. nz_to_u64 (gap_from g) = Some from \<and>
           nz_to_u64 (gap_watermark g) = Some watermark \<and>
           unat from = Suc (unat requested) \<and> from \<le> watermark \<and> ?base = unat watermark)"
    using mark gap
    by (auto simp: res_simps option_default_def validate_gap_def not_less
        split: option.splits if_splits dest!: checked_addD)
  ultimately show ?thesis
    using req cur page by (intro exI [of _ requested] exI [of _ cursor] exI [of _ ?base])
      (simp add: option_default_def split: option.splits)
qed

text \<open>A page of one event, requested after sequence 5.\<close>

definition sample_event :: "u64 \<Rightarrow> event_envelope" where
  "sample_event q =
     \<lparr>ev_schema_version = 4, ev_id = ''e'', ev_content_hash = ''sha256:'' @ replicate 64 (CHR ''a''),
      ev_sequence = WireNonZeroU64 (from_u64 q), ev_stream_id = ''s'', ev_conversation_id = None,
      ev_run_id = None, ev_turn_id = ''t'', ev_message_id = None, ev_execution_id = None,
      ev_parent_event_id = None,
      ev_timestamp = \<lparr>unix_seconds = from_i64 0, ts_nanos = 0, rfc3339 = None\<rparr>,
      ev_payload = \<lparr>ep_type = ''think'', ep_data = None\<rparr>\<rparr>"

definition sample_page :: replay_response where
  "sample_page =
     \<lparr>rr_requested = from_u64 5, rr_events = [sample_event 6],
      rr_cursor = \<lparr>cur_stream_id = ''s'', cur_sequence = from_u64 6\<rparr>, rr_gap = None\<rparr>"

lemma nz_to_u64_from_u64 [simp]: "nz_to_u64 (WireNonZeroU64 (from_u64 q)) = Some q"
  by (simp add: nz_to_u64_def)

lemma blank_Cons: "blank (c # s) \<longleftrightarrow> is_whitespace c \<and> blank s"
  by (simp add: blank_def)

lemma sample_event_valid: "q \<noteq> 0 \<Longrightarrow> validate_envelope b64 (sample_event q) = Ok ()"
  by (simp add: validate_envelope_def sample_event_def is_sha256_digest_def strip_prefix_def
      list_all_length is_ascii_hexdigit_def blank_Cons is_whitespace_def validate_timestamp_def
      nanos_per_second_def validate_payload_def)

theorem validated_replay_is_contiguous_witness:
  "unat (6 :: u64) = 5 + length (rr_events sample_page)"
proof -
  have ok: "validate_replay_response (\<lambda>_. None) sample_page = Ok ()"
    using sample_event_valid [of 6 "\<lambda>_. None"]
    by (simp add: validate_replay_response_def sample_page_def validate_cursor_def blank_Cons
        is_whitespace_def option_default_def option_or_def)
      (simp add: sample_event_def checked_add_def)
  show ?thesis
    using validated_replay_is_contiguous [OF ok] by (auto simp: sample_page_def)
qed

end
