(* ===== verification/Event_Projection.thy ===== *)
theory Event_Projection
  imports Wire_Event
begin

text \<open>
  From a committed framework event to its wire envelope (\<open>wire_envelope\<close> and
  \<open>project_event_envelope\<close> of \<open>echo-sdk-host/src/core_profile/wire.rs\<close>), with the texts of the
  errors it can raise (the \<open>Display\<close> implementations of \<open>scalar.rs\<close> and \<open>event.rs\<close>). The framework's
  event is the record of the fields the Host reads; its payload enters as the outcome of the JSON
  serializer on it.
\<close>

section \<open>Error texts\<close>

definition hex_digit :: "nat \<Rightarrow> char" where
  "hex_digit d = (if d < 10 then char_of (48 + d) else char_of (87 + d))"

text \<open>\<open>char::escape_debug\<close> inside a string, on the Latin-1 range.\<close>

definition escape_debug :: "char \<Rightarrow> string" where
  "escape_debug c =
     (let n = (of_char c :: nat) in
      if n = 0 then [CHR 0x5C, CHR ''0'']
      else if n = 9 then [CHR 0x5C, CHR ''t'']
      else if n = 10 then [CHR 0x5C, CHR ''n'']
      else if n = 13 then [CHR 0x5C, CHR ''r'']
      else if n = 34 \<or> n = 92 then [CHR 0x5C, c]
      else if n < 16 then [CHR 0x5C, CHR ''u'', CHR 0x7B, hex_digit n, CHR 0x7D]
      else if n < 32 \<or> (127 \<le> n \<and> n \<le> 160) \<or> n = 173
        then [CHR 0x5C, CHR ''u'', CHR 0x7B, hex_digit (n div 16), hex_digit (n mod 16), CHR 0x7D]
      else [c])"

definition debug_string :: "string \<Rightarrow> string" where
  "debug_string s = [CHR 0x22] @ concat (map escape_debug s) @ [CHR 0x22]"

fun display_scalar_error :: "scalar_error \<Rightarrow> string" where
  "display_scalar_error (InvalidInteger value) =
     ''not a canonical integer string: '' @ debug_string value"
| "display_scalar_error InvalidDuration = ''duration nanos must be below one second''"
| "display_scalar_error InvalidTimestamp = ''timestamp nanos must be below one second''"
| "display_scalar_error (InvalidPath reason) = ''invalid lossless path: '' @ reason"
| "display_scalar_error InvalidBase64 = ''invalid canonical base64 payload''"
| "display_scalar_error EmptyDomainId = ''domain identity must be non-empty''"
| "display_scalar_error (ValueLimit reason) = ''wire value exceeds limit: '' @ reason"

fun display_event_error :: "event_error \<Rightarrow> string" where
  "display_event_error (InvalidIdentity name) = name @ '' must be non-empty''"
| "display_event_error InvalidSequence = ''event sequence must start at one''"
| "display_event_error InvalidEventTimestamp = ''event timestamp is out of range''"
| "display_event_error (InvalidPayload message) = ''invalid AgentEvent payload: '' @ message"
| "display_event_error (ScalarErr e) = ''invalid wire scalar: '' @ display_scalar_error e"

section \<open>The framework event\<close>

record framework_event =
  fe_schema_version :: u16
  fe_id :: string
  fe_content_hash :: string
  fe_sequence :: u64
  fe_stream_id :: string
  fe_conversation_id :: "string option"
  fe_run_id :: "string option"
  fe_turn_id :: string
  fe_message_id :: "string option"
  fe_execution_id :: "string option"
  fe_parent_event_id :: "string option"
  fe_seconds :: int
  fe_subsec_nanos :: u32
  fe_rfc3339 :: string
  fe_payload :: "string + json"

fun as_json_object :: "json \<Rightarrow> (string \<times> json) list option" where
  "as_json_object (JObject es) = Some es"
| "as_json_object _ = None"

fun as_json_string :: "json \<Rightarrow> string option" where
  "as_json_string (JString s) = Some s"
| "as_json_string _ = None"

definition project_event_envelope ::
  "base64_decoder \<Rightarrow> framework_event \<Rightarrow> event_error + event_envelope" where
  "project_event_envelope b64 e =
     and_then (map_err InvalidPayload (fe_payload e)) (\<lambda>payload.
     and_then (ok_or (as_json_object payload) (InvalidPayload ''expected tagged object'')) (\<lambda>obj.
     and_then (ok_or (Option.bind (hget obj ''type'') as_json_string)
                 (InvalidPayload ''missing type tag'')) (\<lambda>event_type.
     and_then (case hget (hdel ''type'' obj) ''data'' of
                 None \<Rightarrow> Ok None
               | Some v \<Rightarrow> map_ok Some (map_err ScalarErr (from_json v))) (\<lambda>data.
     and_then (reject_if (hdel ''data'' (hdel ''type'' obj) \<noteq> [])
                 (InvalidPayload ''unexpected fields outside type/data'')) (\<lambda>_.
     and_then (map_err ScalarErr (wire_non_zero_try_from (show_nat (unat (fe_sequence e))))) (\<lambda>q.
       let wire = \<lparr>ev_schema_version = fe_schema_version e, ev_id = fe_id e,
             ev_content_hash = fe_content_hash e, ev_sequence = q, ev_stream_id = fe_stream_id e,
             ev_conversation_id = fe_conversation_id e, ev_run_id = fe_run_id e,
             ev_turn_id = fe_turn_id e, ev_message_id = fe_message_id e,
             ev_execution_id = fe_execution_id e, ev_parent_event_id = fe_parent_event_id e,
             ev_timestamp = \<lparr>unix_seconds = from_i64 (fe_seconds e), ts_nanos = fe_subsec_nanos e,
                             rfc3339 = Some (fe_rfc3339 e)\<rparr>,
             ev_payload = \<lparr>ep_type = event_type, ep_data = data\<rparr>\<rparr>
       in and_then (validate_envelope b64 wire) (\<lambda>_. Ok wire)))))))"

definition wire_envelope :: "base64_decoder \<Rightarrow> framework_event \<Rightarrow> sdk_err + event_envelope" where
  "wire_envelope b64 e =
     map_err (\<lambda>err. sdk_error SerializationViolation
                (''failed to project framework event: '' @ display_event_error err) Never
                ''_echo_agent/event'')
       (project_event_envelope b64 e)"

lemma wire_envelope_Ok:
  assumes "wire_envelope b64 e = Ok w"
  shows "validate_envelope b64 w = Ok () \<and> nz_to_u64 (ev_sequence w) = Some (fe_sequence e) \<and>
    fe_sequence e \<noteq> 0 \<and> event_seq w = unat (fe_sequence e) \<and>
    ev_stream_id w = fe_stream_id e \<and> ev_id w = fe_id e \<and> ev_content_hash w = fe_content_hash e \<and>
    ev_turn_id w = fe_turn_id e \<and> ev_run_id w = fe_run_id e"
proof -
  from assms obtain q v where q: "wire_non_zero_try_from (show_nat (unat (fe_sequence e))) = Ok q"
    and ok: "validate_envelope b64 w = Ok ()"
    and w: "ev_sequence w = q" "ev_stream_id w = fe_stream_id e" "ev_id w = fe_id e"
      "ev_content_hash w = fe_content_hash e" "ev_turn_id w = fe_turn_id e" "ev_run_id w = fe_run_id e"
    by (auto simp: wire_envelope_def project_event_envelope_def res_simps Let_def)
  from q obtain v where v: "show_nat (unat (fe_sequence e)) = show_nat (unat v)"
    "q = WireNonZeroU64 (from_u64 v)" "v \<noteq> 0"
    by (auto simp: wire_non_zero_try_from_iff)
  then have "v = fe_sequence e" by (simp add: show_nat_inj word_unat_eq_iff)
  with v w ok show ?thesis by (simp add: event_seq_def)
qed

text \<open>A concrete event, for examples.\<close>

definition sample_commit :: "u64 \<Rightarrow> framework_event" where
  "sample_commit q =
     \<lparr>fe_schema_version = 4, fe_id = ''e'', fe_content_hash = ''sha256:'' @ replicate 64 (CHR ''a''),
      fe_sequence = q, fe_stream_id = ''s'', fe_conversation_id = None, fe_run_id = None,
      fe_turn_id = ''t'', fe_message_id = None, fe_execution_id = None, fe_parent_event_id = None,
      fe_seconds = 0, fe_subsec_nanos = 0, fe_rfc3339 = ''t'',
      fe_payload = Ok (JObject [(''type'', JString ''think'')])\<rparr>"

definition sample_wire :: "u64 \<Rightarrow> event_envelope" where
  "sample_wire q = (sample_event q)\<lparr>ev_timestamp := \<lparr>unix_seconds = from_i64 0, ts_nanos = 0, rfc3339 = Some ''t''\<rparr>\<rparr>"

lemma sample_wire_sel [simp]:
  "ev_sequence (sample_wire q) = WireNonZeroU64 (from_u64 q)" "ev_stream_id (sample_wire q) = ''s''"
  by (simp_all add: sample_wire_def sample_event_def)

lemma sample_wire_valid: "q \<noteq> 0 \<Longrightarrow> validate_envelope b64 (sample_wire q) = Ok ()"
  using sample_event_valid [of q b64]
  by (simp add: validate_envelope_def sample_wire_def sample_event_def validate_timestamp_def
      nanos_per_second_def res_simps)

lemma wire_envelope_sample: "q \<noteq> 0 \<Longrightarrow> wire_envelope b64 (sample_commit q) = Ok (sample_wire q)"
proof -
  assume q: "q \<noteq> 0"
  then have "wire_non_zero_try_from (show_nat (unat q)) = Ok (WireNonZeroU64 (from_u64 q))"
    unfolding wire_non_zero_try_from_iff by blast
  with sample_wire_valid [OF q, of b64] show ?thesis
    by (simp add: wire_envelope_def project_event_envelope_def sample_commit_def sample_wire_def
        sample_event_def AList.delete_eq)
qed

end
