(* ===== verification/Delivery.thy ===== *)
theory Delivery
  imports Event_Projection
begin

text \<open>
  Bounded live delivery of one stream (\<open>echo-sdk-host/src/core_profile/events.rs\<close>): the window of
  unacknowledged events, the pause behind an announced gap, acknowledgement, replay coverage and
  resumption from the journal.

  \<open>DeliveryInner\<close> is the record \<open>delivery\<close>; its operations take the transport as the code does, as
  an argument \<open>send\<close>, here threading a world \<open>'w\<close>. \<open>StreamDelivery\<close> is the record
  \<open>stream_delivery\<close>: the window, its limits and, for the connection, the messages it has enqueued
  and the number of sends attempted. Whether the \<open>n\<close>-th send is accepted, the serialized length of a
  notification and the journal's answers are the fields of \<open>delivery_env\<close>.
\<close>

section \<open>The window\<close>

record delivery =
  unacked :: "(u64 \<times> usize) list"
  outstanding_bytes :: usize
  paused :: bool
  paused_sequence :: u64
  last_sent_sequence :: u64
  ackable_sequence :: u64

definition new_delivery :: delivery where
  "new_delivery = \<lparr>unacked = [], outstanding_bytes = 0, paused = False, paused_sequence = 0,
     last_sent_sequence = 0, ackable_sequence = 0\<rparr>"

definition outstanding :: "delivery \<Rightarrow> usize" where
  "outstanding d = len_usize (unacked d)"

text \<open>The loop that retires the acknowledged front of the queue, with the bytes released so far.\<close>

fun pop_acked :: "u64 \<Rightarrow> usize \<Rightarrow> (u64 \<times> usize) list \<Rightarrow> usize \<times> (u64 \<times> usize) list" where
  "pop_acked acked released [] = (released, [])"
| "pop_acked acked released ((q, bytes) # rest) =
     (if acked < q then (released, (q, bytes) # rest)
      else pop_acked acked (saturating_add released bytes) rest)"

definition acknowledge_inner ::
  "delivery \<Rightarrow> u64 \<Rightarrow> usize \<Rightarrow> (react_error + u64 option) \<times> delivery" where
  "acknowledge_inner d acked max_outstanding =
     (if ackable_sequence d < acked then
        (Err (ReactOther ''acknowledgement is ahead of the announced event or gap watermark''), d)
      else
        let (released, rest) = pop_acked acked 0 (unacked d);
            d1 = d\<lparr>unacked := rest,
                    outstanding_bytes := saturating_sub (outstanding_bytes d) released,
                    last_sent_sequence := max (last_sent_sequence d) acked\<rparr>
        in if paused d1 \<and> paused_sequence d1 \<le> acked \<and> outstanding d1 < max_outstanding
           then (Ok (Some (last_sent_sequence d1)), d1\<lparr>paused := False, paused_sequence := 0\<rparr>)
           else (Ok None, d1))"

definition last_opt :: "'a list \<Rightarrow> 'a option" where
  "last_opt xs = (if xs = [] then None else Some (last xs))"

definition replay_coverage :: "replay_response \<Rightarrow> u64 option" where
  "replay_coverage r =
     option_or (Option.bind (last_opt (rr_events r)) (\<lambda>e. nz_to_u64 (ev_sequence e)))
       (Option.bind (rr_gap r) (\<lambda>g. nz_to_u64 (gap_watermark g)))"

definition publish_replay_inner ::
  "delivery \<Rightarrow> replay_response \<Rightarrow> (replay_response \<Rightarrow> 'w \<Rightarrow> ('e + 't) \<times> 'w) \<Rightarrow> 'w
     \<Rightarrow> ('e + 't) \<times> delivery \<times> 'w" where
  "publish_replay_inner d response send w =
     (case send response w of
        (Inl e, w') \<Rightarrow> (Err e, d, w')
      | (Inr result, w') \<Rightarrow>
          (Ok result,
           (case replay_coverage response of
              None \<Rightarrow> d
            | Some coverage \<Rightarrow> d\<lparr>ackable_sequence := max (ackable_sequence d) coverage\<rparr>), w'))"

datatype reserve =
    Deliver
  | GapAndPause (gap_from_sequence: u64) (gap_to_sequence: u64) (gap_snapshot_watermark: u64)
  | SkipOversized
  | AlreadyPaused
  | AlreadySent

text \<open>The admission decision of \<open>publish\<close>, with the byte count the window would reach.\<close>

definition reservation ::
  "delivery \<Rightarrow> u64 \<Rightarrow> usize \<Rightarrow> usize \<Rightarrow> usize \<Rightarrow> usize \<Rightarrow> react_error + reserve \<times> usize" where
  "reservation d q bytes max_outstanding max_buffer_bytes max_event_bytes =
     and_then (ok_or (checked_add (outstanding_bytes d) bytes)
                 (ReactOther ''live window byte accounting overflow'')) (\<lambda>next_bytes.
     and_then (ok_or (checked_add (outstanding d) 1)
                 (ReactOther ''live window count overflow'')) (\<lambda>next_outstanding.
       if max_event_bytes < bytes then Ok (SkipOversized, next_bytes)
       else if max_outstanding < next_outstanding \<or> max_buffer_bytes < next_bytes then
         and_then (ok_or (checked_add (last_sent_sequence d) 1)
                     (ReactOther ''live sequence overflow'')) (\<lambda>from.
           Ok (GapAndPause from (max q from) (max q from), next_bytes))
       else Ok (Deliver, next_bytes)))"

text \<open>The accounting of \<open>publish\<close> once the transport has taken the message.\<close>

fun commit_reservation :: "delivery \<Rightarrow> u64 \<Rightarrow> usize \<Rightarrow> usize \<Rightarrow> reserve \<Rightarrow> delivery" where
  "commit_reservation d q bytes next_bytes Deliver =
     d\<lparr>unacked := unacked d @ [(q, bytes)], outstanding_bytes := next_bytes,
        last_sent_sequence := q, ackable_sequence := max (ackable_sequence d) q\<rparr>"
| "commit_reservation d q bytes next_bytes (GapAndPause from till watermark) =
     d\<lparr>paused := True, paused_sequence := watermark,
        ackable_sequence := max (ackable_sequence d) watermark\<rparr>"
| "commit_reservation d q bytes next_bytes SkipOversized =
     d\<lparr>paused := True, paused_sequence := q, ackable_sequence := max (ackable_sequence d) q\<rparr>"
| "commit_reservation d q bytes next_bytes AlreadyPaused = d"
| "commit_reservation d q bytes next_bytes AlreadySent = d"

definition publish_inner ::
  "delivery \<Rightarrow> u64 \<Rightarrow> usize \<Rightarrow> usize \<Rightarrow> usize \<Rightarrow> usize
     \<Rightarrow> (reserve \<Rightarrow> 'w \<Rightarrow> (react_error + unit) \<times> 'w) \<Rightarrow> 'w
     \<Rightarrow> (react_error + reserve) \<times> delivery \<times> 'w" where
  "publish_inner d q bytes max_outstanding max_buffer_bytes max_event_bytes send w =
     (if q \<le> last_sent_sequence d then (Ok AlreadySent, d, w)
      else if paused d then (Ok AlreadyPaused, d, w)
      else case reservation d q bytes max_outstanding max_buffer_bytes max_event_bytes of
        Inl e \<Rightarrow> (Err e, d, w)
      | Inr (r, next_bytes) \<Rightarrow>
          (case send r w of
             (Inl e, w') \<Rightarrow> (Err e, d, w')
           | (Inr _, w') \<Rightarrow> (Ok r, commit_reservation d q bytes next_bytes r, w')))"

section \<open>The stream\<close>

datatype message =
    EventMsg event_notification
  | GapMsg gap_notification
  | ReplayMsg replay_response

record stream_delivery =
  sd_run_id :: string
  sd_stream :: wire_handle
  sd_inner :: delivery
  sd_max_outstanding :: usize
  sd_max_buffer_bytes :: usize
  sd_max_event_bytes :: usize
  sd_outbox :: "message list"
  sd_attempts :: nat

record journal_record =
  jr_sequence :: u64
  jr_event :: framework_event

record delivery_env =
  env_base64 :: base64_decoder
  env_event_len :: "event_notification \<Rightarrow> string + nat"
  env_link :: "nat \<Rightarrow> message \<Rightarrow> string option"
  env_journal :: "string \<Rightarrow> react_error + (u64 \<Rightarrow> usize \<Rightarrow> string + journal_record list)"

text \<open>\<open>StreamDelivery::new\<close>\<close>

definition new_stream_delivery ::
  "string \<Rightarrow> wire_handle \<Rightarrow> usize \<Rightarrow> usize \<Rightarrow> usize \<Rightarrow> stream_delivery" where
  "new_stream_delivery run stream max_outstanding max_buffer_bytes max_event_bytes =
     \<lparr>sd_run_id = run, sd_stream = stream, sd_inner = new_delivery,
      sd_max_outstanding = max_outstanding, sd_max_buffer_bytes = max_buffer_bytes,
      sd_max_event_bytes = max_event_bytes, sd_outbox = [], sd_attempts = 0\<rparr>"

text \<open>One send on the connection: the message is enqueued, or the send fails with a text.\<close>

type_synonym outbox = "message list \<times> nat"

definition send_message :: "delivery_env \<Rightarrow> message \<Rightarrow> outbox \<Rightarrow> (string + unit) \<times> outbox" where
  "send_message env msg w =
     (case env_link env (snd w) msg of
        None \<Rightarrow> (Ok (), fst w @ [msg], Suc (snd w))
      | Some e \<Rightarrow> (Err e, fst w, Suc (snd w)))"

definition gap_reason_ack_window :: string where
  "gap_reason_ack_window = ''ack window exceeded; live delivery paused''"

definition gap_reason_event_too_large :: string where
  "gap_reason_event_too_large = ''event exceeds the live delivery bound''"

definition send_event ::
  "delivery_env \<Rightarrow> wire_handle \<Rightarrow> framework_event \<Rightarrow> outbox \<Rightarrow> (react_error + unit) \<times> outbox" where
  "send_event env stream e w =
     (case wire_envelope (env_base64 env) e of
        Inl err \<Rightarrow> (Err (ReactOther (err_message err)), w)
      | Inr wire \<Rightarrow>
          let n = \<lparr>en_stream = stream, en_envelope = wire\<rparr>
          in case validate_event_notification (env_base64 env) n of
               Inl err \<Rightarrow>
                 (Err (ReactOther (''event notification is invalid: '' @ display_event_error err)), w)
             | Inr _ \<Rightarrow>
                 (case send_message env (EventMsg n) w of
                    (r, w') \<Rightarrow> (map_err (\<lambda>t. ReactOther (''failed to send _echo_agent/event: '' @ t)) r, w')))"

definition gap_message :: "wire_handle \<Rightarrow> u64 \<Rightarrow> u64 \<Rightarrow> u64 \<Rightarrow> string \<Rightarrow> react_error + gap_notification" where
  "gap_message stream from till watermark reason =
     and_then (map_err (\<lambda>_. ReactOther ''gap sequence must be positive'')
                 (wire_non_zero_try_from (show_nat (unat from)))) (\<lambda>f.
     and_then (map_err (\<lambda>_. ReactOther ''gap sequence must be positive'')
                 (wire_non_zero_try_from (show_nat (unat till)))) (\<lambda>t.
     and_then (map_err (\<lambda>_. ReactOther ''gap watermark must be positive'')
                 (wire_non_zero_try_from (show_nat (unat watermark)))) (\<lambda>m.
       let n = \<lparr>gn_stream = stream,
                gn_gap = \<lparr>gap_from = f, gap_to = t, gap_reason = reason, gap_watermark = m\<rparr>\<rparr>
       in and_then (map_err (\<lambda>e. ReactOther (''gap notification is invalid: '' @ display_event_error e))
                      (validate_gap_notification n)) (\<lambda>_. Ok n))))"

definition send_gap ::
  "delivery_env \<Rightarrow> wire_handle \<Rightarrow> u64 \<Rightarrow> u64 \<Rightarrow> u64 \<Rightarrow> string \<Rightarrow> outbox \<Rightarrow> (react_error + unit) \<times> outbox" where
  "send_gap env stream from till watermark reason w =
     (case gap_message stream from till watermark reason of
        Inl e \<Rightarrow> (Err e, w)
      | Inr n \<Rightarrow>
          (case send_message env (GapMsg n) w of
             (r, w') \<Rightarrow> (map_err (\<lambda>t. ReactOther (''failed to send _echo_agent/gap: '' @ t)) r, w')))"

definition envelope_bytes :: "delivery_env \<Rightarrow> wire_handle \<Rightarrow> framework_event \<Rightarrow> react_error + usize" where
  "envelope_bytes env stream e =
     and_then (map_err (\<lambda>err. ReactOther (err_message err)) (wire_envelope (env_base64 env) e)) (\<lambda>wire.
       map_err (\<lambda>t. ReactOther (''event notification is not encodable: '' @ t))
         (map_ok word_of_nat (env_event_len env \<lparr>en_stream = stream, en_envelope = wire\<rparr>)))"

fun send_reservation ::
  "delivery_env \<Rightarrow> wire_handle \<Rightarrow> framework_event \<Rightarrow> reserve \<Rightarrow> outbox \<Rightarrow> (react_error + unit) \<times> outbox" where
  "send_reservation env stream e Deliver w = send_event env stream e w"
| "send_reservation env stream e SkipOversized w =
     send_gap env stream (fe_sequence e) (fe_sequence e) (fe_sequence e) gap_reason_event_too_large w"
| "send_reservation env stream e (GapAndPause from till watermark) w =
     send_gap env stream from till watermark gap_reason_ack_window w"
| "send_reservation env stream e AlreadyPaused w = (Ok (), w)"
| "send_reservation env stream e AlreadySent w = (Ok (), w)"

definition publish ::
  "delivery_env \<Rightarrow> stream_delivery \<Rightarrow> framework_event \<Rightarrow> (react_error + reserve) \<times> stream_delivery" where
  "publish env s e =
     (case envelope_bytes env (sd_stream s) e of
        Inl err \<Rightarrow> (Err err, s)
      | Inr bytes \<Rightarrow>
          (case publish_inner (sd_inner s) (fe_sequence e) bytes (sd_max_outstanding s)
                  (sd_max_buffer_bytes s) (sd_max_event_bytes s)
                  (send_reservation env (sd_stream s) e) (sd_outbox s, sd_attempts s) of
             (r, d, out, n) \<Rightarrow> (r, s\<lparr>sd_inner := d, sd_outbox := out, sd_attempts := n\<rparr>)))"

text \<open>\<open>RunEventObserver::on_committed_event\<close>\<close>

definition on_committed_event ::
  "delivery_env \<Rightarrow> stream_delivery \<Rightarrow> framework_event \<Rightarrow> (react_error + unit) \<times> stream_delivery" where
  "on_committed_event env s e = (case publish env s e of (r, s') \<Rightarrow> (map_ok (\<lambda>_. ()) r, s'))"

text \<open>The loop of \<open>resume_after\<close> over the journal records.\<close>

fun publish_records ::
  "delivery_env \<Rightarrow> stream_delivery \<Rightarrow> journal_record list \<Rightarrow> (react_error + unit) \<times> stream_delivery" where
  "publish_records env s [] = (Ok (), s)"
| "publish_records env s (r # rs) =
     (case publish env s (jr_event r) of
        (Inl e, s') \<Rightarrow> (Err e, s')
      | (Inr res, s') \<Rightarrow>
          (case res of
             Deliver \<Rightarrow> publish_records env s' rs
           | AlreadySent \<Rightarrow> publish_records env s' rs
           | _ \<Rightarrow> (Ok (), s')))"

definition resume_after ::
  "delivery_env \<Rightarrow> stream_delivery \<Rightarrow> u64 \<Rightarrow> (react_error + unit) \<times> stream_delivery" where
  "resume_after env s after_sequence =
     (case env_journal env (sd_run_id s) of
        Inl e \<Rightarrow> (Err e, s)
      | Inr replay_after \<Rightarrow>
          (case replay_after after_sequence (saturating_add (sd_max_outstanding s) 1) of
             Inl t \<Rightarrow> (Err (ReactOther (''failed to resume live stream: '' @ t)), s)
           | Inr records \<Rightarrow> publish_records env s records))"

text \<open>\<open>StreamDelivery::acknowledge\<close>; a failed resumption pauses the stream again.\<close>

definition pause_again :: "stream_delivery \<Rightarrow> stream_delivery" where
  "pause_again s =
     s\<lparr>sd_inner := (sd_inner s)\<lparr>paused := True, paused_sequence := last_sent_sequence (sd_inner s)\<rparr>\<rparr>"

definition acknowledge ::
  "delivery_env \<Rightarrow> stream_delivery \<Rightarrow> event_ack \<Rightarrow> (react_error + unit) \<times> stream_delivery" where
  "acknowledge env s ack =
     (if ack_stream ack \<noteq> sd_stream s
      then (Err (ReactOther ''ACK stream identity or generation mismatch''), s)
      else case nz_to_u64 (ack_sequence ack) of
        None \<Rightarrow> (Err (ReactOther ''acknowledgement sequence is invalid''), s)
      | Some acked \<Rightarrow>
          (case acknowledge_inner (sd_inner s) acked (sd_max_outstanding s) of
             (Inl e, d) \<Rightarrow> (Err e, s\<lparr>sd_inner := d\<rparr>)
           | (Inr None, d) \<Rightarrow> (Ok (), s\<lparr>sd_inner := d\<rparr>)
           | (Inr (Some after_sequence), d) \<Rightarrow>
               (case resume_after env (s\<lparr>sd_inner := d\<rparr>) after_sequence of
                  (Inl e, s') \<Rightarrow> (Err e, pause_again s')
                | (Inr _, s') \<Rightarrow> (Ok (), s'))))"

text \<open>\<open>StreamDelivery::publish_replay\<close>: the page is enqueued on the same connection.\<close>

datatype replay_error = ReplayData string | ReplaySend string

definition publish_replay ::
  "delivery_env \<Rightarrow> stream_delivery \<Rightarrow> wire_handle \<Rightarrow> replay_response
     \<Rightarrow> (replay_error + unit) \<times> stream_delivery" where
  "publish_replay env s stream response =
     (if stream \<noteq> sd_stream s \<or> cur_stream_id (rr_cursor response) \<noteq> h_id (sd_stream s)
      then (Err (ReplayData ''replay stream identity or generation mismatch''), s)
      else case validate_replay_response (env_base64 env) response of
        Inl e \<Rightarrow> (Err (ReplayData (display_event_error e)), s)
      | Inr _ \<Rightarrow>
          (case publish_replay_inner (sd_inner s) response
                  (\<lambda>r w. map_prod (map_err ReplaySend) id (send_message env (ReplayMsg r) w))
                  (sd_outbox s, sd_attempts s) of
             (r, d, out, n) \<Rightarrow> (r, s\<lparr>sd_inner := d, sd_outbox := out, sd_attempts := n\<rparr>)))"

end
