(* ===== verification/Delivery_Inv.thy ===== *)
theory Delivery_Inv
  imports Delivery
begin

text \<open>
  The invariant of a stream's delivery state (\<open>core_profile/events.rs\<close>) over every history of
  commits, acknowledgements and replay pages, whatever the transport and the journal answer: the
  bounds of the window, its byte count, what may be acknowledged, and the order of the live events.
\<close>

section \<open>The window invariant\<close>

definition window_bytes :: "delivery \<Rightarrow> nat" where
  "window_bytes d = sum_list (map (unat \<circ> snd) (unacked d))"

definition window_ok :: "usize \<Rightarrow> usize \<Rightarrow> usize \<Rightarrow> delivery \<Rightarrow> bool" where
  "window_ok max_outstanding max_buffer_bytes max_event_bytes d \<longleftrightarrow>
     length (unacked d) \<le> unat max_outstanding \<and>
     unat (outstanding_bytes d) = window_bytes d \<and> outstanding_bytes d \<le> max_buffer_bytes \<and>
     sorted_wrt (<) (map fst (unacked d)) \<and>
     (\<forall>(q, b)\<in>set (unacked d). q \<le> last_sent_sequence d \<and> b \<le> max_event_bytes) \<and>
     last_sent_sequence d \<le> ackable_sequence d \<and>
     (if paused d then
        (\<forall>(q, b)\<in>set (unacked d). q \<le> paused_sequence d) \<and> paused_sequence d \<le> ackable_sequence d
      else paused_sequence d = 0)"

lemma outstanding_exact: "length (unacked d) \<le> unat (m :: usize) \<Longrightarrow> unat (outstanding d) = length (unacked d)"
proof -
  have "unat m < 2 ^ 64" using unat_lt_64 [of m] by simp
  then show "length (unacked d) \<le> unat m \<Longrightarrow> unat (outstanding d) = length (unacked d)"
    by (simp add: outstanding_def unat_len_usize)
qed

lemma pop_acked_spec:
  assumes "sorted_wrt (<) (map fst us)" and "pop_acked acked r us = (released, rest)"
    and "unat r + sum_list (map (unat \<circ> snd) us) < 2 ^ 64"
  shows "rest = filter (\<lambda>(q, b). acked < q) us \<and>
    unat released + sum_list (map (unat \<circ> snd) rest) = unat r + sum_list (map (unat \<circ> snd) us)"
  using assms
proof (induction us arbitrary: r)
  case Nil
  then show ?case by simp
next
  case (Cons u us)
  obtain q b where u: "u = (q, b)" by (cases u)
  show ?case
  proof (cases "acked < q")
    case True
    have "\<forall>x\<in>set us. acked < fst x"
      using Cons.prems(1) True unfolding u by auto
    then have "filter (\<lambda>(q, b). acked < q) us = us" by (auto simp: filter_id_conv)
    with True Cons.prems u show ?thesis by auto
  next
    case False
    have "unat (saturating_add r b) = unat r + unat b"
      using Cons.prems(3) by (simp add: unat_saturating_add u)
    with False Cons.prems u show ?thesis
      using Cons.IH [of "saturating_add r b"] by (auto simp: add.assoc)
  qed
qed

lemma sum_filter_le: "sum_list (map f (filter P xs)) \<le> sum_list (map (f :: 'a \<Rightarrow> nat) xs)"
  by (induction xs) auto

lemma acknowledge_inner_cases:
  assumes "window_ok mo mb me d"
  shows "acknowledge_inner d acked mo =
    (if ackable_sequence d < acked then
       (Err (ReactOther ''acknowledgement is ahead of the announced event or gap watermark''), d)
     else
       let d1 = d\<lparr>unacked := filter (\<lambda>(q, b). acked < q) (unacked d),
           outstanding_bytes := word_of_nat (sum_list (map (unat \<circ> snd) (filter (\<lambda>(q, b). acked < q) (unacked d)))),
           last_sent_sequence := max (last_sent_sequence d) acked\<rparr>
       in if paused d \<and> paused_sequence d \<le> acked \<and> 0 < mo
          then (Ok (Some (max (last_sent_sequence d) acked)), d1\<lparr>paused := False, paused_sequence := 0\<rparr>)
          else (Ok None, d1))"
proof (cases "ackable_sequence d < acked")
  case True
  then show ?thesis by (simp add: acknowledge_inner_def)
next
  case False
  obtain released rest where pop: "pop_acked acked 0 (unacked d) = (released, rest)" by fastforce
  have bytes: "window_bytes d < 2 ^ 64"
    using assms unat_lt_64 [of "outstanding_bytes d"] by (simp add: window_ok_def)
  have rest: "rest = filter (\<lambda>(q, b). acked < q) (unacked d)"
    and rel: "unat released + sum_list (map (unat \<circ> snd) rest) = window_bytes d"
    using pop_acked_spec [OF _ pop] assms bytes by (auto simp: window_ok_def window_bytes_def)
  have "unat (saturating_sub (outstanding_bytes d) released) = sum_list (map (unat \<circ> snd) rest)"
    using rel assms by (simp add: unat_saturating_sub window_ok_def)
  then have sub: "saturating_sub (outstanding_bytes d) released = word_of_nat (sum_list (map (unat \<circ> snd) rest))"
    by (metis word_of_nat_unat_id)
  have empty: "outstanding (d\<lparr>unacked := rest\<rparr>) = 0" if "paused d" "paused_sequence d \<le> acked"
  proof -
    have "rest = []" using that assms unfolding rest window_ok_def
      by (fastforce simp: filter_empty_conv)
    then show ?thesis by (simp add: outstanding_def len_usize_def)
  qed
  have out: "outstanding (d\<lparr>unacked := rest, outstanding_bytes := x, last_sent_sequence := y\<rparr>) =
      outstanding (d\<lparr>unacked := rest\<rparr>)" for x y
    by (simp add: outstanding_def)
  show ?thesis
    using False pop empty unfolding acknowledge_inner_def
    by (auto simp: Let_def sub out rest [symmetric])
qed

lemma acknowledge_inner_window:
  assumes "window_ok mo mb me d" and "acknowledge_inner d acked mo = (r, d')"
  shows "window_ok mo mb me d'"
proof (cases "ackable_sequence d < acked")
  case True
  with assms show ?thesis by (simp add: acknowledge_inner_def)
next
  case False
  let ?us = "filter (\<lambda>(q, b). acked < q) (unacked d)"
  let ?n = "sum_list (map (unat \<circ> snd) ?us)"
  have le: "?n \<le> window_bytes d" unfolding window_bytes_def by (rule sum_filter_le)
  also have "window_bytes d = unat (outstanding_bytes d)" using assms by (simp add: window_ok_def)
  finally have n: "?n \<le> unat (outstanding_bytes d)" .
  then have un: "unat (word_of_nat ?n :: usize) = ?n"
    using unat_lt_64 [of "outstanding_bytes d"] by (simp add: unat_of_nat)
  have len: "length ?us \<le> unat mo"
    using assms(1) length_filter_le [of "\<lambda>(q, b). acked < q" "unacked d"]
    unfolding window_ok_def by linarith
  have srt: "sorted_wrt (<) (map fst ?us)"
    using assms by (simp add: window_ok_def sorted_wrt_map sorted_wrt_filter)
  have mb: "(word_of_nat ?n :: usize) \<le> mb"
    using n un assms by (simp add: window_ok_def word_le_nat_alt)
  let ?ls = "max (last_sent_sequence d) acked"
  let ?d1 = "d\<lparr>unacked := ?us, outstanding_bytes := word_of_nat ?n, last_sent_sequence := ?ls\<rparr>"
  have d': "d' = (if paused d \<and> paused_sequence d \<le> acked \<and> 0 < mo
      then ?d1\<lparr>paused := False, paused_sequence := 0\<rparr> else ?d1)"
    using assms(2) False unfolding acknowledge_inner_cases [OF assms(1)]
    by (cases "paused d \<and> paused_sequence d \<le> acked \<and> 0 < mo") (auto simp: Let_def)
  have ackable: "?ls \<le> ackable_sequence d"
    using assms(1) False by (simp add: window_ok_def)
  have members: "\<forall>(q, b)\<in>set ?us. q \<le> ?ls \<and> b \<le> me"
    using assms(1) by (auto simp: window_ok_def le_max_iff_disj)
  have pz: "if paused d then (\<forall>(q, b)\<in>set ?us. q \<le> paused_sequence d) \<and>
      paused_sequence d \<le> ackable_sequence d else paused_sequence d = 0"
    using assms(1) by (auto simp: window_ok_def split: if_splits)
  show ?thesis
    using len srt mb un ackable members pz unfolding d' window_ok_def window_bytes_def
    by (auto split: if_splits)
qed

lemma reservation_Ok:
  assumes "window_ok mo mb me d" and "reservation d q bytes mo mb me = Ok (r, nb)"
    and "last_sent_sequence d < q"
  shows "unat nb = window_bytes d + unat bytes \<and>
    (r = SkipOversized \<and> me < bytes \<or>
     r = Deliver \<and> bytes \<le> me \<and> nb \<le> mb \<and> length (unacked d) < unat mo \<or>
     (\<exists>frm. r = GapAndPause frm q q \<and> unat frm = Suc (unat (last_sent_sequence d)) \<and> frm \<le> q \<and>
        bytes \<le> me \<and> (mb < nb \<or> length (unacked d) = unat mo)))"
proof -
  have len: "unat (outstanding d) = length (unacked d)"
    using assms outstanding_exact by (auto simp: window_ok_def)
  have sum: "checked_add (outstanding_bytes d) bytes = Some nb" and "\<exists>no. checked_add (outstanding d) 1 = Some no"
    using assms(2) by (auto simp: reservation_def res_simps split: if_splits)
  moreover from sum have nb: "unat nb = window_bytes d + unat bytes"
    using assms(1) by (simp add: checked_add_Some window_ok_def)
  ultimately obtain no where no: "checked_add (outstanding d) 1 = Some no" "unat no = Suc (length (unacked d))"
    using len by (auto simp: checked_add_Some)
  have cap: "length (unacked d) \<le> unat mo" using assms by (simp add: window_ok_def)
  show ?thesis
  proof (cases "me < bytes")
    case True
    with assms(2) no sum nb show ?thesis by (auto simp: reservation_def res_simps)
  next
    case fits: False
    show ?thesis
    proof (cases "mo < no \<or> mb < nb")
      case True
      with assms(2) no sum fits obtain frm where frm: "checked_add (last_sent_sequence d) 1 = Some frm"
        and r: "r = GapAndPause frm (max q frm) (max q frm)"
        by (auto simp: reservation_def res_simps split: if_splits)
      have "unat frm = Suc (unat (last_sent_sequence d))"
        using frm by (simp add: checked_add_Some)
      moreover from this have "frm \<le> q" using assms(3) by (simp add: u64_order)
      moreover from this have "max q frm = q" by (simp add: max_def)
      ultimately show ?thesis using True no nb r fits cap by (auto simp: u64_order)
    next
      case False
      with assms(2) no sum fits have "r = Deliver" by (auto simp: reservation_def res_simps)
      with False no nb fits show ?thesis by (auto simp: u64_order)
    qed
  qed
qed

lemma commit_window:
  assumes "window_ok mo mb me d" and "reservation d q bytes mo mb me = Ok (r, nb)"
    and "last_sent_sequence d < q" and "\<not> paused d"
  shows "window_ok mo mb me (commit_reservation d q bytes nb r)"
proof -
  note r = reservation_Ok [OF assms(1-3)]
  have lt: "\<forall>x\<in>set (unacked d). fst x < q" and le: "\<And>a b. (a, b) \<in> set (unacked d) \<Longrightarrow> a \<le> q"
    using assms by (fastforce simp: window_ok_def)+
  show ?thesis
    using r assms lt le
    by (auto simp: window_ok_def window_bytes_def sorted_wrt_append le_max_iff_disj
        intro: order.strict_implies_order)
qed

section \<open>What has been announced to the client\<close>

fun message_coverage :: "message \<Rightarrow> nat" where
  "message_coverage (EventMsg n) = event_seq (en_envelope n)"
| "message_coverage (GapMsg n) =
     (case nz_to_u64 (gap_watermark (gn_gap n)) of None \<Rightarrow> 0 | Some w \<Rightarrow> unat w)"
| "message_coverage (ReplayMsg r) = (case replay_coverage r of None \<Rightarrow> 0 | Some c \<Rightarrow> unat c)"

text \<open>The highest sequence covered by an enqueued event, gap or replay page.\<close>

definition announced :: "message list \<Rightarrow> nat" where
  "announced ms = foldl max 0 (map message_coverage ms)"

fun live_sequences :: "message list \<Rightarrow> nat list" where
  "live_sequences [] = []"
| "live_sequences (EventMsg n # ms) = event_seq (en_envelope n) # live_sequences ms"
| "live_sequences (_ # ms) = live_sequences ms"

fun message_valid :: "base64_decoder \<Rightarrow> wire_handle \<Rightarrow> message \<Rightarrow> bool" where
  "message_valid b64 stream (EventMsg n) =
     (en_stream n = stream \<and> validate_event_notification b64 n = Ok ())"
| "message_valid b64 stream (GapMsg n) = (gn_stream n = stream \<and> validate_gap_notification n = Ok ())"
| "message_valid b64 stream (ReplayMsg r) =
     (cur_stream_id (rr_cursor r) = h_id stream \<and> validate_replay_response b64 r = Ok ())"

lemma announced_snoc [simp]: "announced (ms @ [m]) = max (announced ms) (message_coverage m)"
  by (simp add: announced_def)

lemma live_sequences_append [simp]: "live_sequences (ms @ ms') = live_sequences ms @ live_sequences ms'"
  by (induction ms rule: live_sequences.induct) simp_all

text \<open>The message a reservation sends, and what it covers.\<close>

fun reserve_coverage :: "u64 \<Rightarrow> reserve \<Rightarrow> nat" where
  "reserve_coverage q (GapAndPause from till watermark) = unat watermark"
| "reserve_coverage q r = unat q"

definition announces :: "base64_decoder \<Rightarrow> wire_handle \<Rightarrow> u64 \<Rightarrow> reserve \<Rightarrow> message \<Rightarrow> bool" where
  "announces b64 stream q r m \<longleftrightarrow>
     message_valid b64 stream m \<and> message_coverage m = reserve_coverage q r \<and>
     live_sequences [m] = (if r = Deliver then [unat q] else [])"

lemma gap_message_Ok:
  assumes "gap_message stream frm till watermark reason = Ok n"
  shows "gn_stream n = stream \<and> validate_gap_notification n = Ok () \<and>
    nz_to_u64 (gap_watermark (gn_gap n)) = Some watermark"
  using assms
  by (auto simp: gap_message_def res_simps wire_non_zero_try_from_iff show_nat_inj word_unat_eq_iff
      Let_def nz_to_u64_def)

lemma send_reservation_cases:
  assumes "send_reservation env stream e r w = (res, w')" and "r \<notin> {AlreadyPaused, AlreadySent}"
  shows "(\<exists>m. res = Ok () \<and> fst w' = fst w @ [m] \<and>
            announces (env_base64 env) stream (fe_sequence e) r m) \<or>
         ((\<exists>t. res = Err t) \<and> fst w' = fst w)"
proof (cases r)
  case Deliver
  show ?thesis
    using assms(1) unfolding Deliver
    by (auto simp: send_event_def send_message_def announces_def Let_def dest!: wire_envelope_Ok
        split: sum.splits option.splits)
next
  case (GapAndPause frm till watermark)
  show ?thesis
    using assms(1) unfolding GapAndPause
    by (auto simp: send_gap_def send_message_def announces_def dest!: gap_message_Ok
        split: sum.splits option.splits)
next
  case SkipOversized
  show ?thesis
    using assms(1) unfolding SkipOversized
    by (auto simp: send_gap_def send_message_def announces_def dest!: gap_message_Ok
        split: sum.splits option.splits)
qed (use assms in auto)

section \<open>One publication\<close>

definition same_stream :: "stream_delivery \<Rightarrow> stream_delivery \<Rightarrow> bool" where
  "same_stream s s' \<longleftrightarrow> sd_run_id s' = sd_run_id s \<and> sd_stream s' = sd_stream s \<and>
     sd_max_outstanding s' = sd_max_outstanding s \<and>
     sd_max_buffer_bytes s' = sd_max_buffer_bytes s \<and> sd_max_event_bytes s' = sd_max_event_bytes s"

text \<open>A publication fails without a trace, has nothing to do, or announces exactly one message.\<close>

definition committed_publication ::
  "delivery_env \<Rightarrow> stream_delivery \<Rightarrow> framework_event \<Rightarrow> reserve \<Rightarrow> stream_delivery \<Rightarrow> bool" where
  "committed_publication env s e r s' \<longleftrightarrow>
     last_sent_sequence (sd_inner s) < fe_sequence e \<and> \<not> paused (sd_inner s) \<and>
     (\<exists>bytes nb m.
        reservation (sd_inner s) (fe_sequence e) bytes (sd_max_outstanding s) (sd_max_buffer_bytes s)
          (sd_max_event_bytes s) = Ok (r, nb) \<and>
        sd_inner s' = commit_reservation (sd_inner s) (fe_sequence e) bytes nb r \<and>
        sd_outbox s' = sd_outbox s @ [m] \<and>
        announces (env_base64 env) (sd_stream s) (fe_sequence e) r m)"

lemma publish_cases:
  assumes "publish env s e = (r, s')"
  shows "same_stream s s' \<and>
    ((\<exists>err. r = Err err) \<and> sd_inner s' = sd_inner s \<and> sd_outbox s' = sd_outbox s \<or>
     r = Ok AlreadySent \<and> s' = s \<and> fe_sequence e \<le> last_sent_sequence (sd_inner s) \<or>
     r = Ok AlreadyPaused \<and> s' = s \<and> paused (sd_inner s) \<or>
     (\<exists>res. r = Ok res \<and> res \<notin> {AlreadySent, AlreadyPaused} \<and> committed_publication env s e res s'))"
proof (cases "envelope_bytes env (sd_stream s) e")
  case (Inl err)
  with assms show ?thesis by (auto simp: publish_def same_stream_def)
next
  case (Inr bytes)
  obtain r' d out n where inner: "publish_inner (sd_inner s) (fe_sequence e) bytes (sd_max_outstanding s)
      (sd_max_buffer_bytes s) (sd_max_event_bytes s) (send_reservation env (sd_stream s) e)
      (sd_outbox s, sd_attempts s) = (r', d, out, n)"
    by (metis prod.exhaust)
  with Inr assms have s': "r = r'" "s' = s\<lparr>sd_inner := d, sd_outbox := out, sd_attempts := n\<rparr>"
    by (auto simp: publish_def)
  let ?resv = "reservation (sd_inner s) (fe_sequence e) bytes (sd_max_outstanding s)
      (sd_max_buffer_bytes s) (sd_max_event_bytes s)"
  consider (sent) "fe_sequence e \<le> last_sent_sequence (sd_inner s)"
    | (paused) "\<not> fe_sequence e \<le> last_sent_sequence (sd_inner s)" "paused (sd_inner s)"
    | (err) t where "\<not> fe_sequence e \<le> last_sent_sequence (sd_inner s)" "\<not> paused (sd_inner s)" "?resv = Err t"
    | (ok) res nb where "\<not> fe_sequence e \<le> last_sent_sequence (sd_inner s)" "\<not> paused (sd_inner s)"
        "?resv = Ok (res, nb)"
    by (cases ?resv; cases "paused (sd_inner s)";
        cases "fe_sequence e \<le> last_sent_sequence (sd_inner s)") (auto simp: not_le)
  then show ?thesis
  proof cases
    case ok
    then have real: "res \<notin> {AlreadyPaused, AlreadySent}"
      by (auto simp: reservation_def res_simps split: if_splits)
    obtain sr w' where send: "send_reservation env (sd_stream s) e res (sd_outbox s, sd_attempts s) = (sr, w')"
      by (metis surj_pair)
    from send_reservation_cases [OF send real] consider
        (sent) m where "sr = Ok ()" "fst w' = sd_outbox s @ [m]"
          "announces (env_base64 env) (sd_stream s) (fe_sequence e) res m"
      | (failed) t where "sr = Err t" "fst w' = sd_outbox s"
      by auto
    then show ?thesis
    proof cases
      case sent
      then have "r' = Ok res" "d = commit_reservation (sd_inner s) (fe_sequence e) bytes nb res"
        "out = sd_outbox s @ [m]"
        using ok inner send by (auto simp: publish_inner_def)
      with ok real sent show ?thesis
        unfolding s' committed_publication_def same_stream_def by auto
    next
      case failed
      then have "r' = Err t" "d = sd_inner s" "out = sd_outbox s"
        using ok inner send by (auto simp: publish_inner_def)
      then show ?thesis unfolding s' same_stream_def by auto
    qed
  qed (use inner s' in \<open>auto simp: publish_inner_def same_stream_def\<close>)
qed

section \<open>The invariant of the stream\<close>

definition delivery_inv :: "base64_decoder \<Rightarrow> stream_delivery \<Rightarrow> bool" where
  "delivery_inv b64 s \<longleftrightarrow>
     window_ok (sd_max_outstanding s) (sd_max_buffer_bytes s) (sd_max_event_bytes s) (sd_inner s) \<and>
     unat (ackable_sequence (sd_inner s)) = announced (sd_outbox s) \<and>
     sorted_wrt (<) (live_sequences (sd_outbox s)) \<and>
     (\<forall>q\<in>set (live_sequences (sd_outbox s)). q \<le> unat (last_sent_sequence (sd_inner s))) \<and>
     (\<forall>m\<in>set (sd_outbox s). message_valid b64 (sd_stream s) m)"

lemma new_stream_inv: "delivery_inv b64 (new_stream_delivery run stream mo mb me)"
  by (simp add: delivery_inv_def new_stream_delivery_def new_delivery_def window_ok_def
      window_bytes_def announced_def)

lemma reserve_coverage_commit:
  assumes "window_ok mo mb me d" and "reservation d q bytes mo mb me = Ok (r, nb)"
    and "last_sent_sequence d < q"
  shows "unat (ackable_sequence (commit_reservation d q bytes nb r)) =
      max (unat (ackable_sequence d)) (reserve_coverage q r) \<and> reserve_coverage q r = unat q \<and>
    last_sent_sequence (commit_reservation d q bytes nb r) = (if r = Deliver then q else last_sent_sequence d)"
  using reservation_Ok [OF assms] by (auto simp: unat_max)

lemma publish_inv:
  assumes "delivery_inv (env_base64 env) s" and "publish env s e = (r, s')"
  shows "delivery_inv (env_base64 env) s'"
proof -
  let ?b = "env_base64 env"
  from publish_cases [OF assms(2)] consider
      (same) "same_stream s s'" "sd_inner s' = sd_inner s" "sd_outbox s' = sd_outbox s"
    | (commit) res where "same_stream s s'" "committed_publication env s e res s'"
    by (auto simp: same_stream_def)
  then show ?thesis
  proof cases
    case same
    with assms(1) show ?thesis by (simp add: delivery_inv_def same_stream_def)
  next
    case commit
    from commit(2) obtain bytes nb m where c:
        "last_sent_sequence (sd_inner s) < fe_sequence e" "\<not> paused (sd_inner s)"
        "reservation (sd_inner s) (fe_sequence e) bytes (sd_max_outstanding s) (sd_max_buffer_bytes s)
          (sd_max_event_bytes s) = Ok (res, nb)"
        "sd_inner s' = commit_reservation (sd_inner s) (fe_sequence e) bytes nb res"
        "sd_outbox s' = sd_outbox s @ [m]" "announces ?b (sd_stream s) (fe_sequence e) res m"
      by (auto simp: committed_publication_def)
    have win: "window_ok (sd_max_outstanding s) (sd_max_buffer_bytes s) (sd_max_event_bytes s) (sd_inner s)"
      using assms(1) by (simp add: delivery_inv_def)
    note cov = reserve_coverage_commit [OF win c(3,1)]
    have "window_ok (sd_max_outstanding s) (sd_max_buffer_bytes s) (sd_max_event_bytes s) (sd_inner s')"
      unfolding c(4) by (rule commit_window [OF win c(3,1,2)])
    moreover have "sorted_wrt (<) (live_sequences (sd_outbox s')) \<and>
        (\<forall>q\<in>set (live_sequences (sd_outbox s')). q \<le> unat (last_sent_sequence (sd_inner s')))"
      using assms(1) c cov
      by (fastforce simp: delivery_inv_def announces_def sorted_wrt_append u64_order)
    ultimately show ?thesis
      using assms(1) c cov commit(1) by (auto simp: delivery_inv_def same_stream_def announces_def)
  qed
qed

lemma publish_records_inv:
  "delivery_inv (env_base64 env) s \<Longrightarrow> publish_records env s rs = (r, s') \<Longrightarrow>
     delivery_inv (env_base64 env) s'"
proof (induction rs arbitrary: s)
  case (Cons x rs)
  obtain p t where p: "publish env s (jr_event x) = (p, t)" by fastforce
  with Cons show ?case
    by (auto dest: publish_inv split: sum.splits reserve.splits)
qed simp

lemma resume_after_inv:
  "delivery_inv (env_base64 env) s \<Longrightarrow> resume_after env s a = (r, s') \<Longrightarrow>
     delivery_inv (env_base64 env) s'"
  by (auto simp: resume_after_def split: sum.splits dest: publish_records_inv)

lemma pause_again_inv: "delivery_inv b64 s \<Longrightarrow> delivery_inv b64 (pause_again s)"
  by (auto simp: delivery_inv_def pause_again_def window_ok_def window_bytes_def)

lemma acknowledge_inner_announced:
  assumes "acknowledge_inner d acked mo = (r, d')"
  shows "ackable_sequence d' = ackable_sequence d \<and> last_sent_sequence d \<le> last_sent_sequence d'"
  using assms by (auto simp: acknowledge_inner_def Let_def split: if_splits prod.splits)

lemma acknowledge_inner_inv:
  assumes "delivery_inv b64 s" and "acknowledge_inner (sd_inner s) acked (sd_max_outstanding s) = (r, d)"
  shows "delivery_inv b64 (s\<lparr>sd_inner := d\<rparr>)"
  using assms acknowledge_inner_window [of "sd_max_outstanding s" _ _ "sd_inner s", OF _ assms(2)]
    acknowledge_inner_announced [OF assms(2)]
  by (fastforce simp: delivery_inv_def u64_order)

lemma acknowledge_cases:
  assumes "acknowledge env s a = (r, s')"
  shows "(\<exists>e. r = Err e \<and> s' = s) \<or>
    (\<exists>acked p d. ack_stream a = sd_stream s \<and> nz_to_u64 (ack_sequence a) = Some acked \<and>
       acknowledge_inner (sd_inner s) acked (sd_max_outstanding s) = (p, d) \<and>
       ((\<exists>e. p = Err e \<and> r = Err e \<and> s' = s\<lparr>sd_inner := d\<rparr>) \<or>
        p = Ok None \<and> r = Ok () \<and> s' = s\<lparr>sd_inner := d\<rparr> \<or>
        (\<exists>x t. p = Ok (Some x) \<and>
           (resume_after env (s\<lparr>sd_inner := d\<rparr>) x = (Ok (), t) \<and> r = Ok () \<and> s' = t \<or>
            (\<exists>e. resume_after env (s\<lparr>sd_inner := d\<rparr>) x = (Err e, t) \<and> r = Err e \<and> s' = pause_again t)))))"
proof (cases "ack_stream a = sd_stream s \<and> nz_to_u64 (ack_sequence a) \<noteq> None")
  case False
  with assms show ?thesis by (auto simp: acknowledge_def split: if_splits)
next
  case True
  then obtain acked where acked: "ack_stream a = sd_stream s" "nz_to_u64 (ack_sequence a) = Some acked"
    by auto
  obtain p d where p: "acknowledge_inner (sd_inner s) acked (sd_max_outstanding s) = (p, d)"
    by fastforce
  show ?thesis
  proof (cases p)
    case (Inl e)
    with assms acked p show ?thesis by (simp add: acknowledge_def)
  next
    case (Inr x)
    show ?thesis
    proof (cases x)
      case None
      with assms acked p Inr show ?thesis by (simp add: acknowledge_def)
    next
      case (Some y)
      obtain q t where q: "resume_after env (s\<lparr>sd_inner := d\<rparr>) y = (q, t)" by fastforce
      with assms acked p Inr Some show ?thesis
        by (cases q) (auto simp: acknowledge_def)
    qed
  qed
qed

lemma acknowledge_inv:
  assumes "delivery_inv (env_base64 env) s" and "acknowledge env s a = (r, s')"
  shows "delivery_inv (env_base64 env) s'"
  using acknowledge_cases [OF assms(2)] assms(1)
  by (elim disjE exE conjE)
    (auto intro: pause_again_inv resume_after_inv acknowledge_inner_inv)

lemma publish_replay_inv:
  assumes "delivery_inv (env_base64 env) s" and "publish_replay env s stream response = (r, s')"
  shows "delivery_inv (env_base64 env) s'"
  using assms
  by (auto simp: publish_replay_def publish_replay_inner_def send_message_def delivery_inv_def
      window_ok_def window_bytes_def unat_max le_max_iff_disj
      split: if_splits sum.splits option.splits)

section \<open>Every history\<close>

inductive delivery_step :: "base64_decoder \<Rightarrow> stream_delivery \<Rightarrow> stream_delivery \<Rightarrow> bool"
  for b64 :: base64_decoder
where
  step_commit: "env_base64 env = b64 \<Longrightarrow> on_committed_event env s e = (r, s') \<Longrightarrow> delivery_step b64 s s'"
| step_ack: "env_base64 env = b64 \<Longrightarrow> acknowledge env s a = (r, s') \<Longrightarrow> delivery_step b64 s s'"
| step_replay: "env_base64 env = b64 \<Longrightarrow> publish_replay env s stream response = (r, s') \<Longrightarrow>
    delivery_step b64 s s'"

definition new_stream :: "stream_delivery \<Rightarrow> bool" where
  "new_stream s \<longleftrightarrow>
     s = new_stream_delivery (sd_run_id s) (sd_stream s) (sd_max_outstanding s) (sd_max_buffer_bytes s)
           (sd_max_event_bytes s)"

lemma delivery_step_inv: "delivery_step b64 s s' \<Longrightarrow> delivery_inv b64 s \<Longrightarrow> delivery_inv b64 s'"
  by (auto elim!: delivery_step.cases simp: on_committed_event_def split: prod.splits
      dest: publish_inv acknowledge_inv publish_replay_inv)

interpretation stream_hist: invariant_system new_stream "delivery_step b64" "delivery_inv b64" for b64
proof unfold_locales
  show "delivery_inv b64 s" if "new_stream s" for s
    using that new_stream_inv unfolding new_stream_def by metis
qed (rule delivery_step_inv)

section \<open>Properties\<close>

text \<open>A stream after its first commit, for examples.\<close>

definition sample_env :: delivery_env where
  "sample_env = \<lparr>env_base64 = \<lambda>_. None, env_event_len = \<lambda>_. Ok 10, env_link = \<lambda>_ _. None,
     env_journal = \<lambda>_. Ok (\<lambda>_ _. Ok [])\<rparr>"

definition sample_stream :: "usize \<Rightarrow> stream_delivery" where
  "sample_stream window = new_stream_delivery ''r'' (mk_handle ''s'' StreamKind 1) window 100 50"

definition sample_sent :: "usize \<Rightarrow> stream_delivery" where
  "sample_sent window = snd (on_committed_event sample_env (sample_stream window) (sample_commit 1))"

lemma sample_stream_new: "new_stream (sample_stream w)"
  by (simp add: new_stream_def sample_stream_def new_stream_delivery_def)

lemma sample_sent_eq:
  "1 \<le> w \<Longrightarrow> on_committed_event sample_env (sample_stream w) (sample_commit 1) = (Ok (), sample_sent w)"
  "1 \<le> w \<Longrightarrow> sd_inner (sample_sent w) =
     \<lparr>unacked = [(1, 10)], outstanding_bytes = 10, paused = False, paused_sequence = 0,
      last_sent_sequence = 1, ackable_sequence = 1\<rparr>"
  "1 \<le> w \<Longrightarrow> sd_outbox (sample_sent w) =
     [EventMsg \<lparr>en_stream = mk_handle ''s'' StreamKind 1, en_envelope = sample_wire 1\<rparr>]"
  using sample_wire_valid [of 1 "\<lambda>_. None"]
  by (simp_all add: sample_sent_def on_committed_event_def publish_def envelope_bytes_def sample_env_def
      sample_stream_def new_stream_delivery_def new_delivery_def wire_envelope_sample publish_inner_def
      sample_commit_def [THEN arg_cong [where f = fe_sequence]] reservation_def outstanding_def
      len_usize_def checked_add_def send_event_def validate_event_notification_def
      validate_stream_handle_def validate_handle_def blank_Cons is_whitespace_def send_message_def
      word_le_nat_alt word_less_nat_alt)

lemma sample_sent_reach: "1 \<le> w \<Longrightarrow> reach new_stream (delivery_step (\<lambda>_. None)) (sample_sent w)"
proof (rule reach_step [OF reach_init [of new_stream, OF sample_stream_new [of w]]])
  show "1 \<le> w \<Longrightarrow> delivery_step (\<lambda>_. None) (sample_stream w) (sample_sent w)"
    by (rule step_commit [of sample_env _ _ "sample_commit 1" "Ok ()"]) (simp_all add: sample_env_def [THEN arg_cong [where f = env_base64]] sample_sent_eq(1))
qed

definition sample_paused :: stream_delivery where
  "sample_paused = snd (on_committed_event sample_env (sample_sent 1) (sample_commit 2))"

lemma sample_paused_eq:
  "on_committed_event sample_env (sample_sent 1) (sample_commit 2) = (Ok (), sample_paused)"
  "sd_inner sample_paused =
     \<lparr>unacked = [(1, 10)], outstanding_bytes = 10, paused = True, paused_sequence = 2,
      last_sent_sequence = 1, ackable_sequence = 2\<rparr>"
proof -
  have lim: "sd_stream (sample_sent 1) = mk_handle ''s'' StreamKind 1"
    "sd_max_outstanding (sample_sent 1) = 1" "sd_max_buffer_bytes (sample_sent 1) = 100"
    "sd_max_event_bytes (sample_sent 1) = 50"
    using sample_sent_eq(1) [of 1]
    by (auto simp: on_committed_event_def sample_stream_def new_stream_delivery_def same_stream_def
        split: prod.splits dest!: publish_cases)
  have nz: "wire_non_zero_try_from (show_nat 2) = Ok (WireNonZeroU64 (from_u64 2))"
    unfolding wire_non_zero_try_from_iff by (rule exI [of _ 2]) simp
  show "on_committed_event sample_env (sample_sent 1) (sample_commit 2) = (Ok (), sample_paused)"
    "sd_inner sample_paused =
     \<lparr>unacked = [(1, 10)], outstanding_bytes = 10, paused = True, paused_sequence = 2,
      last_sent_sequence = 1, ackable_sequence = 2\<rparr>"
    using lim sample_sent_eq(2) [of 1] nz
    by (simp_all add: sample_paused_def on_committed_event_def publish_def envelope_bytes_def
        sample_env_def wire_envelope_sample publish_inner_def
        sample_commit_def [THEN arg_cong [where f = fe_sequence]] reservation_def outstanding_def
        len_usize_def checked_add_def send_gap_def gap_message_def validate_gap_notification_def
        validate_stream_handle_def validate_handle_def blank_Cons is_whitespace_def validate_gap_def
        gap_reason_ack_window_def send_message_def word_le_nat_alt word_less_nat_alt)
qed

lemma sample_paused_reach: "reach new_stream (delivery_step (\<lambda>_. None)) sample_paused"
proof (rule reach_step [OF sample_sent_reach [of 1]])
  show "delivery_step (\<lambda>_. None) (sample_sent 1) sample_paused"
    by (rule step_commit [of sample_env _ _ "sample_commit 2" "Ok ()"])
      (simp_all add: sample_env_def [THEN arg_cong [where f = env_base64]] sample_paused_eq(1))
qed simp

text \<open>C16: The live window is bounded in every history. Whatever commits, acknowledgements and replay
  pages a stream has seen, and whatever the transport and the journal answered, it holds at most
  \<open>max_outstanding\<close> unacknowledged events, each within the event bound, whose bytes are exactly
  \<open>outstanding_bytes\<close> and within the buffer bound; their sequences are strictly increasing and
  already sent.\<close>

theorem live_window_is_bounded:
  assumes "reach new_stream (delivery_step b64) s"
  shows "length (unacked (sd_inner s)) \<le> unat (sd_max_outstanding s) \<and>
    unat (outstanding_bytes (sd_inner s)) = sum_list (map (unat \<circ> snd) (unacked (sd_inner s))) \<and>
    outstanding_bytes (sd_inner s) \<le> sd_max_buffer_bytes s \<and>
    sorted_wrt (<) (map fst (unacked (sd_inner s))) \<and>
    (\<forall>(q, bytes)\<in>set (unacked (sd_inner s)). q \<le> last_sent_sequence (sd_inner s) \<and> bytes \<le> sd_max_event_bytes s)"
  using stream_hist.reach_inv [OF assms] by (simp add: delivery_inv_def window_ok_def window_bytes_def)

theorem live_window_is_bounded_witness: "length (unacked (sd_inner (sample_sent 3))) \<le> unat (sd_max_outstanding (sample_sent 3))"
  using live_window_is_bounded [OF sample_sent_reach [of 3]] by (simp add: word_le_nat_alt)

text \<open>C15: Exactly what was announced can be acknowledged. In every history, an acknowledgement of
  sequence \<open>q\<close> on the stream's own handle is refused, with the state untouched, when \<open>q\<close> is beyond
  every event, gap watermark and replay page that was successfully enqueued, and is otherwise
  accepted: the window then holds precisely the events after \<open>q\<close> and the cursor has not moved back.\<close>

theorem acknowledgement_follows_announcement:
  assumes "reach new_stream (delivery_step b64) s"
    and "acknowledge_inner (sd_inner s) q (sd_max_outstanding s) = (r, d)"
  shows "if announced (sd_outbox s) < unat q
    then is_ok r = False \<and> d = sd_inner s
    else is_ok r \<and> unacked d = filter (\<lambda>(k, bytes). q < k) (unacked (sd_inner s)) \<and>
      last_sent_sequence d = max (last_sent_sequence (sd_inner s)) q"
proof -
  note inv = stream_hist.reach_inv [OF assms(1)]
  then have win: "window_ok (sd_max_outstanding s) (sd_max_buffer_bytes s) (sd_max_event_bytes s) (sd_inner s)"
    and ann: "announced (sd_outbox s) < unat q \<longleftrightarrow> ackable_sequence (sd_inner s) < q"
    by (simp_all add: delivery_inv_def word_less_nat_alt)
  show ?thesis
    using assms(2) unfolding acknowledge_inner_cases [OF win] ann
    by (auto simp: Let_def split: if_splits)
qed

theorem acknowledgement_follows_announcement_witness:
  "\<exists>r d. acknowledge_inner (sd_inner (sample_sent 3)) 1 (sd_max_outstanding (sample_sent 3)) = (r, d) \<and>
     unacked d = [] \<and> is_ok r"
proof -
  obtain r d where a: "acknowledge_inner (sd_inner (sample_sent 3)) 1 (sd_max_outstanding (sample_sent 3)) = (r, d)"
    by fastforce
  have "announced (sd_outbox (sample_sent 3)) = 1"
    using sample_sent_eq(3) [of 3] by (simp add: announced_def event_seq_def word_le_nat_alt)
  with acknowledgement_follows_announcement [OF sample_sent_reach a] a sample_sent_eq(2) [of 3]
  show ?thesis by (auto simp: word_le_nat_alt)
qed

text \<open>Everything the stream has put on the wire is valid and in order: in every history each
  enqueued event, gap and replay page validates against the contract and names this very stream,
  and the live events have strictly increasing sequence numbers, so none is duplicated or reordered.\<close>

theorem live_events_are_ordered_and_valid:
  assumes "reach new_stream (delivery_step b64) s"
  shows "sorted_wrt (<) (live_sequences (sd_outbox s)) \<and>
    (\<forall>m\<in>set (sd_outbox s). message_valid b64 (sd_stream s) m)"
  using stream_hist.reach_inv [OF assms] by (simp add: delivery_inv_def)

theorem live_events_are_ordered_and_valid_witness: "live_sequences (sd_outbox (sample_sent 3)) = [1]"
  using live_events_are_ordered_and_valid [OF sample_sent_reach [of 3]] sample_sent_eq(3) [of 3]
  by (simp add: event_seq_def word_le_nat_alt)

text \<open>A failed publication leaves no trace: when the observer reports an error for a committed
  event (projection, encoding, accounting or transport), the window, the pause, the cursors and the
  enqueued messages are exactly as before.\<close>

theorem failed_publication_changes_nothing:
  assumes "on_committed_event env s e = (Err err, s')"
  shows "sd_inner s' = sd_inner s \<and> sd_outbox s' = sd_outbox s \<and> same_stream s s'"
  using assms by (auto simp: on_committed_event_def map_ok_eq_Err split: prod.splits dest: publish_cases)

theorem failed_publication_changes_nothing_witness:
  "sd_outbox (snd (on_committed_event (sample_env\<lparr>env_link := \<lambda>_ _. Some ''down''\<rparr>)
     (sample_stream 3) (sample_commit 1))) = []"
proof -
  let ?env = "sample_env\<lparr>env_link := \<lambda>_ _. Some ''down''\<rparr>"
  obtain r s' where r: "on_committed_event ?env (sample_stream 3) (sample_commit 1) = (r, s')"
    by fastforce
  moreover have "\<exists>err. fst (on_committed_event ?env (sample_stream 3) (sample_commit 1)) = Err err"
    using sample_wire_valid [of 1 "\<lambda>_. None"]
    by (simp add: on_committed_event_def publish_def envelope_bytes_def sample_env_def
        sample_stream_def new_stream_delivery_def new_delivery_def wire_envelope_sample publish_inner_def
        sample_commit_def [THEN arg_cong [where f = fe_sequence]] reservation_def outstanding_def
        len_usize_def checked_add_def send_event_def validate_event_notification_def
        validate_stream_handle_def validate_handle_def blank_Cons is_whitespace_def send_message_def
        word_le_nat_alt word_less_nat_alt)
  ultimately obtain err where "on_committed_event ?env (sample_stream 3) (sample_commit 1) = (Err err, s')"
    by auto
  from failed_publication_changes_nothing [OF this] r show ?thesis
    by (simp add: sample_stream_def new_stream_delivery_def)
qed

text \<open>C17: A paused stream can always be recovered. In every history with a positive window, any
  acknowledgement from the pause watermark up to what was announced empties the window and resumes
  delivery after the acknowledged sequence; and when that resumption fails, the stream is paused
  again at a watermark that may be acknowledged in turn.\<close>

theorem paused_stream_recovers:
  assumes "reach new_stream (delivery_step b64) s" and "env_base64 env = b64"
    and "paused (sd_inner s)" and "0 < sd_max_outstanding s"
    and "ack_stream a = sd_stream s" and "nz_to_u64 (ack_sequence a) = Some q"
    and "paused_sequence (sd_inner s) \<le> q" and "q \<le> ackable_sequence (sd_inner s)"
  shows "\<exists>d. acknowledge_inner (sd_inner s) q (sd_max_outstanding s) =
        (Ok (Some (max (last_sent_sequence (sd_inner s)) q)), d) \<and> unacked d = [] \<and> \<not> paused d \<and>
    (case acknowledge env s a of
       (Inr _, s') \<Rightarrow> resume_after env (s\<lparr>sd_inner := d\<rparr>) (max (last_sent_sequence (sd_inner s)) q) = (Ok (), s')
     | (Inl _, s') \<Rightarrow> paused (sd_inner s') \<and> paused_sequence (sd_inner s') \<le> ackable_sequence (sd_inner s'))"
proof -
  have inv: "delivery_inv (env_base64 env) s" using stream_hist.reach_inv [OF assms(1)] assms(2) by simp
  then have win: "window_ok (sd_max_outstanding s) (sd_max_buffer_bytes s) (sd_max_event_bytes s) (sd_inner s)"
    by (simp add: delivery_inv_def)
  obtain d where d: "acknowledge_inner (sd_inner s) q (sd_max_outstanding s) =
        (Ok (Some (max (last_sent_sequence (sd_inner s)) q)), d)"
    using assms acknowledge_inner_cases [OF win] by (simp add: Let_def not_less)
  have "unacked d = [] \<and> \<not> paused d"
    using d win assms(3,7) unfolding acknowledge_inner_cases [OF win]
    by (fastforce simp: Let_def window_ok_def filter_empty_conv split: if_splits)
  moreover obtain r s' where r: "acknowledge env s a = (r, s')" by fastforce
  moreover have "case r of Inr _ \<Rightarrow> resume_after env (s\<lparr>sd_inner := d\<rparr>)
         (max (last_sent_sequence (sd_inner s)) q) = (Ok (), s')
     | Inl _ \<Rightarrow> paused (sd_inner s') \<and> paused_sequence (sd_inner s') \<le> ackable_sequence (sd_inner s')"
  proof (cases "resume_after env (s\<lparr>sd_inner := d\<rparr>) (max (last_sent_sequence (sd_inner s)) q)")
    case (Pair p t)
    have "delivery_inv (env_base64 env) s'" by (rule acknowledge_inv [OF inv r])
    then show ?thesis
      using r d Pair assms(5,6)
      by (cases p) (auto simp: acknowledge_def pause_again_def delivery_inv_def window_ok_def)
  qed
  ultimately show ?thesis using d by (intro exI [of _ d]) (auto split: sum.splits)
qed

theorem paused_stream_recovers_witness:
  "\<exists>d. acknowledge_inner (sd_inner sample_paused) 2 (sd_max_outstanding sample_paused) =
     (Ok (Some 2), d) \<and> unacked d = []"
proof -
  have lim: "sd_max_outstanding sample_paused = 1"
    using sample_sent_eq(1) [of 1] sample_paused_eq(1)
    by (auto simp: on_committed_event_def sample_stream_def new_stream_delivery_def same_stream_def
        split: prod.splits dest!: publish_cases)
  show ?thesis
    using paused_stream_recovers [OF sample_paused_reach, of sample_env
        "\<lparr>ack_stream = sd_stream sample_paused, ack_sequence = WireNonZeroU64 (from_u64 2)\<rparr>" 2]
    by (auto simp: sample_paused_eq(2) lim sample_env_def word_le_nat_alt max_def)
qed

end
