(* ===== verification/Delivery_Live.thy ===== *)
theory Delivery_Live
  imports Delivery_Inv
begin

text \<open>
  Completeness of live delivery (\<open>core_profile/events.rs\<close>): against the journal the stream resumes
  from, the only committed events a live stream skips are those whose own publication failed, and a
  stream that looks live has nothing else left to deliver.  The journal is a list of records; its
  reads are the documented ones (strictly after a cursor, in order, at most so many).  The run goes
  on when its observer reports an error, so the histories admit commits whose publication fails.
\<close>

section \<open>The journal\<close>

definition journal_wf :: "journal_record list \<Rightarrow> bool" where
  "journal_wf recs \<longleftrightarrow>
     map (\<lambda>r. unat (jr_sequence r)) recs = [1 ..< Suc (length recs)] \<and>
     (\<forall>r\<in>set recs. fe_sequence (jr_event r) = jr_sequence r)"

definition replay_from :: "journal_record list \<Rightarrow> u64 \<Rightarrow> usize \<Rightarrow> string + journal_record list" where
  "replay_from recs after_sequence n = Ok (take (unat n) (filter (\<lambda>r. after_sequence < jr_sequence r) recs))"

lemma journal_filter:
  assumes "journal_wf recs"
  shows "filter (\<lambda>r. a < jr_sequence r) recs = drop (unat a) recs"
proof -
  have nth: "unat (jr_sequence (recs ! i)) = Suc i" if "i < length recs" for i
  proof -
    have "map (\<lambda>r. unat (jr_sequence r)) recs ! i = [1 ..< Suc (length recs)] ! i"
      using assms by (simp add: journal_wf_def)
    then show ?thesis using that by (simp del: upt_Suc)
  qed
  have "filter (\<lambda>r. a < jr_sequence r) (take (unat a) recs) = []"
    by (auto simp: filter_empty_conv in_set_conv_nth nth u64_order)
  moreover have "filter (\<lambda>r. a < jr_sequence r) (drop (unat a) recs) = drop (unat a) recs"
    by (auto simp: filter_id_conv in_set_conv_nth nth u64_order)
  ultimately show ?thesis
    by (metis append_Nil append_take_drop_id filter_append)
qed

lemma journal_drop:
  assumes "journal_wf recs" and "rs = take n (drop a recs)"
  shows "map (\<lambda>r. unat (fe_sequence (jr_event r))) rs = [Suc a ..< Suc (a + length rs)]"
proof -
  have "map (\<lambda>r. unat (fe_sequence (jr_event r))) recs = [1 ..< Suc (length recs)]"
    using assms(1) by (auto simp: journal_wf_def cong: map_cong)
  then have "map (\<lambda>r. unat (fe_sequence (jr_event r))) rs = take n (drop a [1 ..< Suc (length recs)])"
    unfolding assms(2) by (simp flip: take_map drop_map del: upt_Suc)
  also have "\<dots> = [Suc a ..< Suc (a + length rs)]"
    unfolding assms(2) by (cases "a \<le> length recs") (simp_all add: min_def del: upt_Suc)
  finally show ?thesis .
qed

section \<open>Resumption\<close>

definition covered :: "nat set \<Rightarrow> nat \<Rightarrow> stream_delivery \<Rightarrow> bool" where
  "covered failed acked s \<longleftrightarrow>
     (\<forall>k. 1 \<le> k \<and> k \<le> unat (last_sent_sequence (sd_inner s)) \<longrightarrow>
        k \<in> set (live_sequences (sd_outbox s)) \<or> k \<le> acked \<or> k \<in> failed)"

lemma publish_next:
  assumes inv: "delivery_inv (env_base64 env) s" and pub: "publish env s e = (r, s')"
    and nxt: "unat (last_sent_sequence (sd_inner s)) < unat (fe_sequence e)"
    and skip: "\<forall>k. unat (last_sent_sequence (sd_inner s)) < k \<and> k < unat (fe_sequence e) \<longrightarrow> k \<in> failed"
    and cov: "covered failed acked s" and live: "\<not> paused (sd_inner s)"
  shows "covered failed acked s' \<and>
    (r = Ok Deliver \<and> \<not> paused (sd_inner s') \<and> last_sent_sequence (sd_inner s') = fe_sequence e \<and>
       length (unacked (sd_inner s')) = Suc (length (unacked (sd_inner s))) \<or>
     r \<noteq> Ok Deliver \<and> r \<noteq> Ok AlreadySent \<and>
       (paused (sd_inner s') \<or> (\<exists>err. r = Err err)) \<and>
       last_sent_sequence (sd_inner s') = last_sent_sequence (sd_inner s))"
proof -
  from publish_cases [OF pub] consider
      (err) err where "r = Err err" "sd_inner s' = sd_inner s" "sd_outbox s' = sd_outbox s"
    | (ok) res where "r = Ok res" "res \<notin> {AlreadySent, AlreadyPaused}" "committed_publication env s e res s'"
    using nxt live by (auto simp: u64_order)
  then show ?thesis
  proof cases
    case err
    with cov show ?thesis by (simp add: covered_def)
  next
    case ok
    then obtain bytes nb m where c:
        "last_sent_sequence (sd_inner s) < fe_sequence e"
        "reservation (sd_inner s) (fe_sequence e) bytes (sd_max_outstanding s) (sd_max_buffer_bytes s)
          (sd_max_event_bytes s) = Ok (res, nb)"
        "sd_inner s' = commit_reservation (sd_inner s) (fe_sequence e) bytes nb res"
        "sd_outbox s' = sd_outbox s @ [m]" "announces (env_base64 env) (sd_stream s) (fe_sequence e) res m"
      by (auto simp: committed_publication_def)
    have win: "window_ok (sd_max_outstanding s) (sd_max_buffer_bytes s) (sd_max_event_bytes s) (sd_inner s)"
      using inv by (simp add: delivery_inv_def)
    have step: "covered failed acked s'"
      if "fe_sequence e = last_sent_sequence (sd_inner s')"
        "live_sequences (sd_outbox s') = live_sequences (sd_outbox s) @ [unat (fe_sequence e)]"
      unfolding covered_def
    proof (intro allI impI)
      fix k assume "1 \<le> k \<and> k \<le> unat (last_sent_sequence (sd_inner s'))"
      with cov skip that show "k \<in> set (live_sequences (sd_outbox s')) \<or> k \<le> acked \<or> k \<in> failed"
        unfolding covered_def
        by (cases "k \<le> unat (last_sent_sequence (sd_inner s))"; cases "k = unat (fe_sequence e)") auto
    qed
    from reservation_Ok [OF win c(2,1)] show ?thesis
      using ok(1) c(3-5) cov live step by (fastforce simp: covered_def announces_def)
  qed
qed

lemma publish_records_progress:
  assumes "delivery_inv (env_base64 env) s" and "publish_records env s rs = (r, s')"
    and "\<not> paused (sd_inner s)" and "covered failed acked s"
    and "map (\<lambda>r. unat (fe_sequence (jr_event r))) rs =
      [Suc (unat (last_sent_sequence (sd_inner s))) ..<
       Suc (unat (last_sent_sequence (sd_inner s)) + length rs)]"
  shows "covered failed acked s' \<and>
    (r = Ok () \<and> \<not> paused (sd_inner s') \<longrightarrow>
       unat (last_sent_sequence (sd_inner s')) = unat (last_sent_sequence (sd_inner s)) + length rs \<and>
       length (unacked (sd_inner s')) = length (unacked (sd_inner s)) + length rs)"
  using assms
proof (induction rs arbitrary: s)
  case Nil
  then show ?case by simp
next
  case (Cons x rs)
  let ?l = "unat (last_sent_sequence (sd_inner s))"
  have range: "[Suc ?l ..< Suc (?l + length (x # rs))] = Suc ?l # [Suc (Suc ?l) ..< Suc (Suc ?l + length rs)]"
    by (simp add: upt_conv_Cons del: upt_Suc)
  have nxt: "unat (fe_sequence (jr_event x)) = Suc ?l"
    and rest: "map (\<lambda>r. unat (fe_sequence (jr_event r))) rs = [Suc (Suc ?l) ..< Suc (Suc ?l + length rs)]"
    using Cons.prems(5) unfolding range by simp_all
  obtain p t where p: "publish env s (jr_event x) = (p, t)" by fastforce
  have "?l < unat (fe_sequence (jr_event x))"
    and "\<forall>k. ?l < k \<and> k < unat (fe_sequence (jr_event x)) \<longrightarrow> k \<in> failed" using nxt by auto
  note one = publish_next [OF Cons.prems(1) p this Cons.prems(4,3)]
  show ?case
  proof (cases "p = Ok Deliver")
    case True
    with one have t: "covered failed acked t" "\<not> paused (sd_inner t)"
        "last_sent_sequence (sd_inner t) = fe_sequence (jr_event x)"
        "length (unacked (sd_inner t)) = Suc (length (unacked (sd_inner s)))" by auto
    have "publish_records env t rs = (r, s')" using Cons.prems(2) p True by simp
    from Cons.IH [OF publish_inv [OF Cons.prems(1) p] this t(2,1)] show ?thesis
      using rest nxt t by simp
  next
    case False
    with one have t: "covered failed acked t" "p \<noteq> Ok AlreadySent" "paused (sd_inner t) \<or> (\<exists>err. p = Err err)"
      by auto
    have "s' = t \<and> (r = Ok () \<longrightarrow> (\<exists>x. p = Ok x))"
      using Cons.prems(2) p False t(2) by (auto split: sum.splits reserve.splits)
    with t show ?thesis by auto
  qed
qed

lemma publish_records_same: "publish_records env s rs = (r, s') \<Longrightarrow> same_stream s s'"
proof (induction rs arbitrary: s)
  case Nil
  then show ?case by (simp add: same_stream_def)
next
  case (Cons x rs)
  obtain p t where p: "publish env s (jr_event x) = (p, t)" by fastforce
  have "same_stream s t" using publish_cases [OF p] by simp
  with Cons p show ?case
    by (auto simp: same_stream_def split: sum.splits reserve.splits dest!: Cons.IH)
qed

section \<open>Tracked histories\<close>

text \<open>
  A history together with the journal it has committed, the highest sequence whose acknowledgement
  was accepted, and the committed sequences whose publication the observer reported as failed.
\<close>

record tracked =
  tr_stream :: stream_delivery
  tr_journal :: "journal_record list"
  tr_acked :: nat
  tr_failed :: "nat set"

definition ack_accepted :: "stream_delivery \<Rightarrow> event_ack \<Rightarrow> nat" where
  "ack_accepted s a =
     (case nz_to_u64 (ack_sequence a) of
        None \<Rightarrow> 0
      | Some q \<Rightarrow>
          if ack_stream a = sd_stream s \<and> q \<le> ackable_sequence (sd_inner s) then unat q else 0)"

inductive tracked_step :: "base64_decoder \<Rightarrow> tracked \<Rightarrow> tracked \<Rightarrow> bool"
  for b64 :: base64_decoder
where
  tracked_commit:
    "env_base64 env = b64 \<Longrightarrow> unat (jr_sequence r) = Suc (length (tr_journal t)) \<Longrightarrow>
     fe_sequence (jr_event r) = jr_sequence r \<Longrightarrow>
     on_committed_event env (tr_stream t) (jr_event r) = (Ok (), s') \<Longrightarrow>
     tracked_step b64 t (t\<lparr>tr_stream := s', tr_journal := tr_journal t @ [r]\<rparr>)"
| tracked_failed_commit:
    "env_base64 env = b64 \<Longrightarrow> unat (jr_sequence r) = Suc (length (tr_journal t)) \<Longrightarrow>
     fe_sequence (jr_event r) = jr_sequence r \<Longrightarrow>
     on_committed_event env (tr_stream t) (jr_event r) = (Err err, s') \<Longrightarrow>
     tracked_step b64 t
       (t\<lparr>tr_stream := s', tr_journal := tr_journal t @ [r],
          tr_failed := insert (unat (jr_sequence r)) (tr_failed t)\<rparr>)"
| tracked_ack:
    "env_base64 env = b64 \<Longrightarrow>
     env_journal env (sd_run_id (tr_stream t)) = Ok (replay_from (tr_journal t)) \<Longrightarrow>
     acknowledge env (tr_stream t) a = (r, s') \<Longrightarrow>
     tracked_step b64 t
       (t\<lparr>tr_stream := s', tr_acked := max (tr_acked t) (ack_accepted (tr_stream t) a)\<rparr>)"
| tracked_replay:
    "env_base64 env = b64 \<Longrightarrow> publish_replay env (tr_stream t) stream response = (r, s') \<Longrightarrow>
     tracked_step b64 t (t\<lparr>tr_stream := s'\<rparr>)"

definition tracked_new :: "tracked \<Rightarrow> bool" where
  "tracked_new t \<longleftrightarrow> new_stream (tr_stream t) \<and> tr_journal t = [] \<and> tr_acked t = 0 \<and>
     tr_failed t = {} \<and> sd_max_outstanding (tr_stream t) < - 1"

text \<open>An unpaused stream has passed everything committed, failed publications apart.\<close>

definition caught_up :: "nat set \<Rightarrow> nat \<Rightarrow> delivery \<Rightarrow> bool" where
  "caught_up failed n d \<longleftrightarrow>
     (\<not> paused d \<longrightarrow> (\<forall>k. unat (last_sent_sequence d) < k \<and> k \<le> n \<longrightarrow> k \<in> failed))"

definition tracked_inv :: "base64_decoder \<Rightarrow> tracked \<Rightarrow> bool" where
  "tracked_inv b64 t \<longleftrightarrow>
     delivery_inv b64 (tr_stream t) \<and> journal_wf (tr_journal t) \<and>
     covered (tr_failed t) (tr_acked t) (tr_stream t) \<and> sd_max_outstanding (tr_stream t) < - 1 \<and>
     caught_up (tr_failed t) (length (tr_journal t)) (sd_inner (tr_stream t))"

lemma journal_wf_snoc:
  "journal_wf recs \<Longrightarrow> unat (jr_sequence r) = Suc (length recs) \<Longrightarrow>
     fe_sequence (jr_event r) = jr_sequence r \<Longrightarrow> journal_wf (recs @ [r])"
  by (simp add: journal_wf_def)

lemma tracked_commit_inv:
  assumes inv: "tracked_inv (env_base64 env) t" and seq: "unat (jr_sequence r) = Suc (length (tr_journal t))"
    and al: "fe_sequence (jr_event r) = jr_sequence r"
    and on: "on_committed_event env (tr_stream t) (jr_event r) = (Ok (), s')"
  shows "tracked_inv (env_base64 env) (t\<lparr>tr_stream := s', tr_journal := tr_journal t @ [r]\<rparr>)"
proof -
  let ?s = "tr_stream t" and ?e = "jr_event r" and ?f = "tr_failed t"
  from on obtain res where pub: "publish env ?s ?e = (Ok res, s')"
    by (auto simp: on_committed_event_def map_ok_eq_Ok split: prod.splits)
  have d: "delivery_inv (env_base64 env) ?s" and cov: "covered ?f (tr_acked t) ?s"
    and tail: "caught_up ?f (length (tr_journal t)) (sd_inner ?s)"
    using inv by (simp_all add: tracked_inv_def)
  have same: "same_stream ?s s'" using publish_cases [OF pub] by simp
  consider (same) "s' = ?s" "fe_sequence ?e \<le> last_sent_sequence (sd_inner ?s) \<or> paused (sd_inner ?s)"
    | (commit) "\<not> paused (sd_inner ?s)" "last_sent_sequence (sd_inner ?s) < fe_sequence ?e"
    using publish_cases [OF pub] by (auto simp: committed_publication_def)
  then have "covered ?f (tr_acked t) s' \<and> caught_up ?f (Suc (length (tr_journal t))) (sd_inner s')"
  proof cases
    case same
    with cov seq al show ?thesis by (auto simp: u64_order caught_up_def)
  next
    case commit
    then have "unat (last_sent_sequence (sd_inner ?s)) < unat (fe_sequence ?e)"
      by (simp add: u64_order)
    moreover have "\<forall>k. unat (last_sent_sequence (sd_inner ?s)) < k \<and> k < unat (fe_sequence ?e) \<longrightarrow> k \<in> ?f"
      using tail commit(1) seq al by (simp add: caught_up_def)
    ultimately show ?thesis
      using publish_next [OF d pub _ _ cov commit(1)] seq al by (auto simp: caught_up_def)
  qed
  then show ?thesis
    using inv publish_inv [OF d pub] same journal_wf_snoc [OF _ seq al]
    by (simp add: tracked_inv_def same_stream_def)
qed

lemma tracked_failed_commit_inv:
  assumes inv: "tracked_inv (env_base64 env) t" and seq: "unat (jr_sequence r) = Suc (length (tr_journal t))"
    and al: "fe_sequence (jr_event r) = jr_sequence r"
    and on: "on_committed_event env (tr_stream t) (jr_event r) = (Err err, s')"
  shows "tracked_inv (env_base64 env)
    (t\<lparr>tr_stream := s', tr_journal := tr_journal t @ [r],
       tr_failed := insert (unat (jr_sequence r)) (tr_failed t)\<rparr>)"
proof -
  from on have pub: "publish env (tr_stream t) (jr_event r) = (Err err, s')"
    by (auto simp: on_committed_event_def map_ok_eq_Err split: prod.splits)
  then have same: "same_stream (tr_stream t) s'" "sd_inner s' = sd_inner (tr_stream t)"
      "sd_outbox s' = sd_outbox (tr_stream t)"
    using publish_cases [OF pub] by auto
  have "delivery_inv (env_base64 env) s'"
    using inv publish_inv [OF _ pub] by (simp add: tracked_inv_def)
  then show ?thesis
    using inv same journal_wf_snoc [OF _ seq al] seq
    by (auto simp: tracked_inv_def same_stream_def covered_def caught_up_def le_Suc_eq)
qed

lemma acknowledge_inner_covered:
  assumes "covered failed acked s" and "acknowledge_inner (sd_inner s) q mo = (p, d)"
    and "q \<le> ackable_sequence (sd_inner s)"
  shows "covered failed (max acked (unat q)) (s\<lparr>sd_inner := d\<rparr>)"
proof -
  have "last_sent_sequence d = max (last_sent_sequence (sd_inner s)) q"
    using assms(2,3) by (auto simp: acknowledge_inner_def Let_def split: prod.splits if_splits)
  then show ?thesis using assms(1) by (auto simp: covered_def unat_max le_max_iff_disj)
qed

lemma acknowledge_inner_resumes:
  assumes "window_ok mo mb me d" and "acknowledge_inner d q mo = (Ok (Some x), d')"
  shows "q \<le> ackable_sequence d \<and> x = last_sent_sequence d' \<and> \<not> paused d' \<and> unacked d' = []"
proof -
  have parts: "q \<le> ackable_sequence d" "paused d" "paused_sequence d \<le> q"
      "x = last_sent_sequence d'" "\<not> paused d'" "unacked d' = filter (\<lambda>(k, b). q < k) (unacked d)"
    using assms(2) unfolding acknowledge_inner_cases [OF assms(1)]
    by (auto simp: Let_def split: if_splits)
  moreover have "filter (\<lambda>(k, b). q < k) (unacked d) = []"
    using assms(1) parts(2,3) by (fastforce simp: window_ok_def filter_empty_conv)
  ultimately show ?thesis by simp
qed

lemma resume_complete:
  assumes inv: "delivery_inv (env_base64 env) s" and live: "\<not> paused (sd_inner s)"
    and none: "unacked (sd_inner s) = []" and cov: "covered failed acked s"
    and wf: "journal_wf recs" and jr: "env_journal env (sd_run_id s) = Ok (replay_from recs)"
    and cap: "sd_max_outstanding s < - 1"
    and res: "resume_after env s (last_sent_sequence (sd_inner s)) = (r, s')"
  shows "covered failed acked s' \<and>
    (r = Ok () \<and> \<not> paused (sd_inner s') \<longrightarrow>
       length recs \<le> unat (last_sent_sequence (sd_inner s'))) \<and>
    same_stream s s'"
proof -
  let ?l = "unat (last_sent_sequence (sd_inner s))" and ?m = "sd_max_outstanding s"
  have "unat ?m < 18446744073709551615"
    using cap by (simp add: word_less_nat_alt unat_all_ones)
  then have lookahead: "unat (saturating_add ?m 1) = Suc (unat ?m)"
    by (simp add: unat_saturating_add)
  let ?rs = "take (Suc (unat ?m)) (drop ?l recs)"
  have pub: "publish_records env s ?rs = (r, s')"
    using res by (simp add: resume_after_def jr replay_from_def journal_filter [OF wf] lookahead)
  note prog = publish_records_progress [OF inv pub live cov journal_drop [OF wf refl]]
  have same: "same_stream s s'"
    using pub by (rule publish_records_same)
  have "length recs \<le> unat (last_sent_sequence (sd_inner s'))"
    if "r = Ok ()" "\<not> paused (sd_inner s')"
  proof -
    have len: "unat (last_sent_sequence (sd_inner s')) = ?l + length ?rs"
      "length (unacked (sd_inner s')) = length ?rs"
      using prog that none by simp_all
    have "length (unacked (sd_inner s')) \<le> unat ?m"
      using publish_records_inv [OF inv pub] same
      by (simp add: delivery_inv_def window_ok_def same_stream_def)
    with len have "length ?rs \<le> unat ?m" by simp
    then have "length (drop ?l recs) \<le> unat ?m" by (simp add: min_def split: if_splits)
    then show ?thesis using len(1) by simp
  qed
  with prog same show ?thesis by auto
qed

lemma covered_mono: "covered failed acked s \<Longrightarrow> acked \<le> acked' \<Longrightarrow> covered failed acked' s"
  by (auto simp: covered_def)

lemma tracked_ack_inv:
  assumes inv: "tracked_inv (env_base64 env) t"
    and jr: "env_journal env (sd_run_id (tr_stream t)) = Ok (replay_from (tr_journal t))"
    and ack: "acknowledge env (tr_stream t) a = (r, s')"
  shows "tracked_inv (env_base64 env)
    (t\<lparr>tr_stream := s', tr_acked := max (tr_acked t) (ack_accepted (tr_stream t) a)\<rparr>)"
proof -
  let ?s = "tr_stream t" and ?acked = "max (tr_acked t) (ack_accepted (tr_stream t) a)" and ?f = "tr_failed t"
  let ?n = "length (tr_journal t)"
  have d: "delivery_inv (env_base64 env) ?s" and cov: "covered ?f (tr_acked t) ?s"
    and cap: "sd_max_outstanding ?s < - 1" and wf: "journal_wf (tr_journal t)"
    and tail: "caught_up ?f ?n (sd_inner ?s)"
    using inv by (simp_all add: tracked_inv_def)
  have win: "window_ok (sd_max_outstanding ?s) (sd_max_buffer_bytes ?s) (sd_max_event_bytes ?s) (sd_inner ?s)"
    using d by (simp add: delivery_inv_def)
  have goal: "same_stream ?s s' \<and> covered ?f ?acked s' \<and> caught_up ?f ?n (sd_inner s')"
    using acknowledge_cases [OF ack]
  proof (elim disjE exE conjE)
    assume "s' = ?s"
    then show ?thesis using cov tail by (auto simp: same_stream_def intro: covered_mono)
  next
    fix q p d e
    assume "acknowledge_inner (sd_inner ?s) q (sd_max_outstanding ?s) = (p, d)"
      and "p = Err e" "s' = ?s\<lparr>sd_inner := d\<rparr>"
    then have "s' = ?s" by (auto simp: acknowledge_inner_def Let_def split: prod.splits if_splits)
    then show ?thesis using cov tail by (auto simp: same_stream_def intro: covered_mono)
  next
    fix q p d
    assume a: "ack_stream a = sd_stream ?s" "nz_to_u64 (ack_sequence a) = Some q"
      "acknowledge_inner (sd_inner ?s) q (sd_max_outstanding ?s) = (p, d)"
      "p = Ok None" "s' = ?s\<lparr>sd_inner := d\<rparr>"
    then have q: "q \<le> ackable_sequence (sd_inner ?s)" and keep: "paused d = paused (sd_inner ?s)"
      and ls: "last_sent_sequence (sd_inner ?s) \<le> last_sent_sequence d"
      by (auto simp: acknowledge_inner_def Let_def split: prod.splits if_splits)
    have "ack_accepted ?s a = unat q" using a q by (simp add: ack_accepted_def)
    with acknowledge_inner_covered [OF cov a(3) q] a(5) tail keep ls show ?thesis
      by (auto simp: same_stream_def u64_order caught_up_def)
  next
    fix q p d x u
    assume a: "ack_stream a = sd_stream ?s" "nz_to_u64 (ack_sequence a) = Some q"
      "acknowledge_inner (sd_inner ?s) q (sd_max_outstanding ?s) = (p, d)" "p = Ok (Some x)"
      and res: "resume_after env (?s\<lparr>sd_inner := d\<rparr>) x = (Ok (), u)" "s' = u"
    note r = acknowledge_inner_resumes [OF win a(3) [unfolded a(4)]]
    have acc: "ack_accepted ?s a = unat q" using a r by (simp add: ack_accepted_def)
    have "covered ?f ?acked (?s\<lparr>sd_inner := d\<rparr>)"
      using acknowledge_inner_covered [OF cov a(3)] r acc by simp
    with resume_complete [of env "?s\<lparr>sd_inner := d\<rparr>" ?f ?acked "tr_journal t" "Ok ()" s']
      acknowledge_inner_inv [OF d a(3)] r res wf jr cap show ?thesis
      by (auto simp: same_stream_def caught_up_def)
  next
    fix q p d x u e
    assume a: "ack_stream a = sd_stream ?s" "nz_to_u64 (ack_sequence a) = Some q"
      "acknowledge_inner (sd_inner ?s) q (sd_max_outstanding ?s) = (p, d)" "p = Ok (Some x)"
      and res: "resume_after env (?s\<lparr>sd_inner := d\<rparr>) x = (Err e, u)" "s' = pause_again u"
    note r = acknowledge_inner_resumes [OF win a(3) [unfolded a(4)]]
    have acc: "ack_accepted ?s a = unat q" using a r by (simp add: ack_accepted_def)
    have "covered ?f ?acked (?s\<lparr>sd_inner := d\<rparr>)"
      using acknowledge_inner_covered [OF cov a(3)] r acc by simp
    with resume_complete [of env "?s\<lparr>sd_inner := d\<rparr>" ?f ?acked "tr_journal t" "Err e" u]
      acknowledge_inner_inv [OF d a(3)] r res wf jr cap show ?thesis
      by (simp add: same_stream_def pause_again_def covered_def caught_up_def)
  qed
  then show ?thesis
    using inv acknowledge_inv [OF d ack] wf cap by (simp add: tracked_inv_def same_stream_def)
qed

lemma publish_replay_live:
  assumes "publish_replay env s stream response = (r, s')"
  shows "same_stream s s' \<and> paused (sd_inner s') = paused (sd_inner s) \<and>
    last_sent_sequence (sd_inner s') = last_sent_sequence (sd_inner s) \<and>
    live_sequences (sd_outbox s') = live_sequences (sd_outbox s)"
  using assms
  by (auto simp: publish_replay_def publish_replay_inner_def send_message_def same_stream_def
      split: if_splits sum.splits option.splits)

lemma tracked_step_inv: "tracked_inv b64 t \<Longrightarrow> tracked_step b64 t t' \<Longrightarrow> tracked_inv b64 t'"
proof (erule tracked_step.cases, goal_cases)
  case (4 env t stream response r s')
  then show ?case
    using publish_replay_live [OF 4(5)] publish_replay_inv [of env "tr_stream t" stream response r s']
    by (auto simp: tracked_inv_def same_stream_def covered_def caught_up_def)
qed (auto dest: tracked_commit_inv tracked_failed_commit_inv tracked_ack_inv)

interpretation tracked_hist: invariant_system tracked_new "tracked_step b64" "tracked_inv b64" for b64
proof unfold_locales
  show "tracked_inv b64 t" if "tracked_new t" for t
  proof -
    have new: "new_stream (tr_stream t)" using that by (simp add: tracked_new_def)
    then have "last_sent_sequence (sd_inner (tr_stream t)) = 0"
      by (metis delivery.select_convs(5) new_delivery_def new_stream_def new_stream_delivery_def
          stream_delivery.select_convs(3))
    then show ?thesis
      using that stream_hist.init_inv [OF new]
      by (auto simp: tracked_new_def tracked_inv_def journal_wf_def covered_def caught_up_def)
  qed
qed (rule tracked_step_inv)

section \<open>Properties\<close>



text \<open>
  What the exception means: a stream whose link failed for the first commit and recovered for the
  second has sent the second event, is not paused, announces no gap, and never sends the first.
\<close>

definition sample_skipped :: stream_delivery where
  "sample_skipped = snd (on_committed_event sample_env
     (snd (on_committed_event (sample_env\<lparr>env_link := \<lambda>_ _. Some ''down''\<rparr>) (sample_stream 3) (sample_commit 1)))
     (sample_commit 2))"

lemmas sample_publish_simps =
  on_committed_event_def publish_def envelope_bytes_def sample_env_def
  sample_stream_def new_stream_delivery_def new_delivery_def wire_envelope_sample publish_inner_def
  sample_commit_def [THEN arg_cong [where f = fe_sequence]] reservation_def outstanding_def
  len_usize_def checked_add_def send_event_def validate_event_notification_def
  validate_stream_handle_def validate_handle_def blank_Cons is_whitespace_def send_message_def
  word_le_nat_alt word_less_nat_alt

lemma failed_commit_is_skipped:
  "\<exists>err t. on_committed_event (sample_env\<lparr>env_link := \<lambda>_ _. Some ''down''\<rparr>) (sample_stream 3)
     (sample_commit 1) = (Err err, t) \<and>
   on_committed_event sample_env t (sample_commit 2) = (Ok (), sample_skipped) \<and>
   sd_outbox sample_skipped = [EventMsg \<lparr>en_stream = mk_handle ''s'' StreamKind 1, en_envelope = sample_wire 2\<rparr>] \<and>
   \<not> paused (sd_inner sample_skipped) \<and> last_sent_sequence (sd_inner sample_skipped) = 2"
  using sample_wire_valid [of 1 "\<lambda>_. None"] sample_wire_valid [of 2 "\<lambda>_. None"]
  by (simp add: sample_skipped_def sample_publish_simps)

end
