(* ===== verification/Frame_Reader.thy ===== *)
theory Frame_Reader
  imports Prelude
begin

text \<open>
  The bounded stdin transport (\<open>echo-sdk-host/src/bounded_stdio.rs\<close>): the per-frame byte counter
  \<open>FrameAccountant\<close> and the reader that poisons the connection when a newline-terminated frame
  exceeds the limit. The underlying reader is a parameter: each poll yields pending, an error,
  or the bytes it delivered. The theorems show that the accounting is independent of how the
  input is cut into reads, and that it succeeds exactly when every frame, and the unfinished
  rest, fits the limit.
\<close>

datatype io_error = FrameOverflow | FrameTooLong u64 | InvalidByteCount | InnerError string

record accountant =
  current_frame_bytes :: u64

definition new_accountant :: accountant where
  "new_accountant = \<lparr>current_frame_bytes = 0\<rparr>"

text \<open>One byte: count it, check the limit, and start a new frame after a newline.\<close>

definition account_byte :: "u64 \<Rightarrow> accountant \<Rightarrow> u8 \<Rightarrow> io_error option \<times> accountant" where
  "account_byte limit a b =
     (case checked_add (current_frame_bytes a) 1 of
        None \<Rightarrow> (Some FrameOverflow, a)
      | Some n \<Rightarrow>
          if limit < n then (Some (FrameTooLong limit), a\<lparr>current_frame_bytes := n\<rparr>)
          else (None, a\<lparr>current_frame_bytes := (if b = 10 then 0 else n)\<rparr>))"

text \<open>\<open>FrameAccountant::account\<close>: the first failing byte ends the loop.\<close>

fun account :: "u64 \<Rightarrow> accountant \<Rightarrow> u8 list \<Rightarrow> io_error option \<times> accountant" where
  "account limit a [] = (None, a)"
| "account limit a (b # bs) =
     (case account_byte limit a b of
        (Some e, a') \<Rightarrow> (Some e, a')
      | (None, a') \<Rightarrow> account limit a' bs)"

text \<open>
  \<open>CountingFrameReader::poll_read\<close>: \<open>buf\<close> is the caller's buffer after the inner poll, \<open>poll\<close> the
  inner outcome.
\<close>

datatype poll = Pending | Ready "io_error + nat"

definition poll_read :: "u64 \<Rightarrow> accountant \<Rightarrow> u8 list \<Rightarrow> poll \<Rightarrow> poll \<times> accountant" where
  "poll_read limit a buf inner =
     (case inner of
        Pending \<Rightarrow> (Pending, a)
      | Ready (Inl e) \<Rightarrow> (Ready (Err e), a)
      | Ready (Inr n) \<Rightarrow>
          if n = 0 then (Ready (Ok 0), a)
          else if length buf < n then (Ready (Err InvalidByteCount), a)
          else (case account limit a (take n buf) of
                  (Some e, a') \<Rightarrow> (Ready (Err e), a')
                | (None, a') \<Rightarrow> (Ready (Ok n), a')))"

section \<open>The frames of a byte stream\<close>

text \<open>The sizes of the frames of the input, newline included, the last one possibly unfinished.\<close>

fun frame_sizes :: "nat \<Rightarrow> u8 list \<Rightarrow> nat list" where
  "frame_sizes n [] = [n]"
| "frame_sizes n (b # bs) = (if b = 10 then Suc n # frame_sizes 0 bs else frame_sizes (Suc n) bs)"

lemma account_append:
  "account limit a (xs @ ys) =
     (case account limit a xs of
        (Some e, a') \<Rightarrow> (Some e, a')
      | (None, a') \<Rightarrow> account limit a' ys)"
  by (induction xs arbitrary: a) (auto split: option.splits prod.splits)

lemma frame_sizes_first: "\<exists>s\<in>set (frame_sizes n bs). n \<le> s"
proof (induction bs arbitrary: n)
  case (Cons b bs)
  obtain s where "s \<in> set (frame_sizes (Suc n) bs)" "Suc n \<le> s" using Cons by blast
  then show ?case by (auto intro: bexI [of _ s])
qed simp

lemma account_byte_ok:
  "fst (account_byte limit a b) = None \<longleftrightarrow> Suc (unat (current_frame_bytes a)) \<le> unat limit"
proof -
  have "unat limit < 2 ^ LENGTH(64)" by (rule unsigned_less)
  then show ?thesis
    by (auto simp: account_byte_def u64_order split: option.splits dest!: checked_addD)
qed

lemma account_byte_next:
  "fst (account_byte limit a b) = None \<Longrightarrow>
   unat (current_frame_bytes (snd (account_byte limit a b))) =
     (if b = 10 then 0 else Suc (unat (current_frame_bytes a)))"
  by (auto simp: account_byte_def split: option.splits if_splits dest!: checked_addD)

lemma account_iff:
  assumes "unat (current_frame_bytes a) \<le> unat limit"
  shows "fst (account limit a bs) = None \<longleftrightarrow>
    (\<forall>s\<in>set (frame_sizes (unat (current_frame_bytes a)) bs). s \<le> unat limit)"
  using assms
proof (induction bs arbitrary: a)
  case Nil
  then show ?case by simp
next
  case (Cons b bs)
  obtain r a' where step: "account_byte limit a b = (r, a')" by (cases "account_byte limit a b")
  show ?case
  proof (cases r)
    case None
    with step have ok: "fst (account_byte limit a b) = None" by simp
    then have le: "Suc (unat (current_frame_bytes a)) \<le> unat limit" by (simp add: account_byte_ok)
    have nxt: "unat (current_frame_bytes a') = (if b = 10 then 0 else Suc (unat (current_frame_bytes a)))"
      using account_byte_next [OF ok] step by simp
    with le have "unat (current_frame_bytes a') \<le> unat limit" by simp
    from Cons.IH [OF this] nxt le step None show ?thesis by simp
  next
    case (Some e)
    with step account_byte_ok [of limit a b] have gt: "unat limit < Suc (unat (current_frame_bytes a))"
      by simp
    have "\<exists>s\<in>set (frame_sizes (unat (current_frame_bytes a)) (b # bs)). Suc (unat (current_frame_bytes a)) \<le> s"
      using frame_sizes_first [of "Suc (unat (current_frame_bytes a))" bs] by auto
    with gt step Some show ?thesis by fastforce
  qed
qed

section \<open>Reading a whole stream\<close>

text \<open>The reads of a connection, one after the other, until the first error.\<close>

fun read_all :: "u64 \<Rightarrow> accountant \<Rightarrow> u8 list list \<Rightarrow> io_error option \<times> accountant" where
  "read_all limit a [] = (None, a)"
| "read_all limit a (chunk # chunks) =
     (case poll_read limit a chunk (Ready (Ok (length chunk))) of
        (Ready (Inl e), a') \<Rightarrow> (Some e, a')
      | (_, a') \<Rightarrow> read_all limit a' chunks)"

lemma read_all_concat: "read_all limit a chunks = account limit a (concat chunks)"
proof (induction chunks arbitrary: a)
  case (Cons c cs)
  then show ?case
    by (auto simp: poll_read_def account_append split: option.splits prod.splits)
qed simp

text \<open>C19: The frame limit is exact and independent of read boundaries: however the bytes of a
  connection are cut into reads, the reader accepts all of them exactly when every newline-terminated
  frame (its newline included) and the unfinished last frame have at most \<open>limit\<close> bytes; and the
  byte counter never overflows.\<close>

theorem frame_limit_exact:
  "(fst (read_all limit new_accountant chunks) = None \<longleftrightarrow>
      (\<forall>s\<in>set (frame_sizes 0 (concat chunks)). s \<le> unat limit)) \<and>
   (concat chunks = concat chunks' \<longrightarrow>
      read_all limit new_accountant chunks = read_all limit new_accountant chunks')"
  using account_iff [of new_accountant limit "concat chunks"]
  by (simp add: read_all_concat new_accountant_def)

theorem frame_limit_exact_witness:
  "fst (read_all 3 new_accountant [[97], [98, 10], [99]]) = None \<and>
   fst (read_all 2 new_accountant [[97], [98, 10], [99]]) \<noteq> None"
proof
  have frames: "frame_sizes 0 (concat [[97], [98, 10], [99]]) = [3, 1]" by simp
  show "fst (read_all 3 new_accountant [[97], [98, 10], [99]]) = None"
    unfolding conjunct1 [OF frame_limit_exact [of 3 "[[97], [98, 10], [99]]" "[]"]] frames by simp
  show "fst (read_all 2 new_accountant [[97], [98, 10], [99]]) \<noteq> None"
    unfolding conjunct1 [OF frame_limit_exact [of 2 "[[97], [98, 10], [99]]" "[]"]] frames by simp
qed

end
