(* ===== verification/Run_Wire.thy ===== *)
theory Run_Wire
  imports Event_Projection
begin

text \<open>
  Run outcomes on the wire: the framework failure (\<open>AgentFailureWire\<close> of
  \<open>echo-sdk-protocol/src/error.rs\<close>), the terminal and the receipt of a run
  (\<open>echo-sdk-protocol/src/methods.rs\<close>) with their validation, and their projection from the
  framework's turn receipt (\<open>echo-sdk-host/src/core_profile/wire.rs\<close>). The framework's enums and its
  receipt are records of what the Host reads; their serialized names are a parameter.
\<close>

text \<open>\<open>PathBuf\<close> on Unix: its bytes.\<close>

type_synonym native_path = "u8 list"

section \<open>Failures\<close>

record agent_failure_wire =
  afw_category :: string
  afw_terminal_kind :: string
  afw_retryable :: bool
  afw_code :: string
  afw_http_status :: "u16 option"
  afw_message :: string

definition max_failure_message_chars :: nat where "max_failure_message_chars = 4096"

definition agent_failure_type_id :: string where
  "agent_failure_type_id = ''echo_sdk_protocol::error::AgentFailureWire''"

definition validate_failure :: "agent_failure_wire \<Rightarrow> string + unit" where
  "validate_failure f =
     (if max_failure_message_chars < length (afw_message f)
      then Err ''failure message exceeds the character bound'' else Ok ())"

definition allowed_failure_fields :: "string list" where
  "allowed_failure_fields =
     [''category'', ''terminal_kind'', ''retryable'', ''code'', ''http_status'', ''message'']"

text \<open>The loop that rejects unknown and repeated fields.\<close>

fun check_failure_fields :: "string list \<Rightarrow> (string \<times> wire_value) list \<Rightarrow> string + unit" where
  "check_failure_fields seen [] = Ok ()"
| "check_failure_fields seen ((name, v) # rest) =
     (if name \<notin> set allowed_failure_fields then Err (''unknown AgentFailure field '' @ name)
      else if name \<in> set seen then Err (''duplicate AgentFailure field '' @ name)
      else check_failure_fields (name # seen) rest)"

definition failure_string :: "(string \<times> wire_value) list \<Rightarrow> string \<Rightarrow> string + string" where
  "failure_string flds name =
     (case hget flds name of
        Some (WString v) \<Rightarrow> Ok v
      | Some _ \<Rightarrow> Err (''AgentFailure field '' @ name @ '' must be a string'')
      | None \<Rightarrow> Err (''AgentFailure field '' @ name @ '' is required''))"

definition failure_http_status :: "(string \<times> wire_value) list \<Rightarrow> string + u16 option" where
  "failure_http_status flds =
     (case hget flds ''http_status'' of
        None \<Rightarrow> Ok None
      | Some WNull \<Rightarrow> Ok None
      | Some (WU64 v) \<Rightarrow>
          and_then (ok_or (to_u64 v) ''AgentFailure http_status is invalid'') (\<lambda>n.
            if unat n < 65536 then Ok (Some (word_of_nat (unat n)))
            else Err ''AgentFailure http_status exceeds u16'')
      | Some _ \<Rightarrow> Err ''AgentFailure field http_status must be U64 or null'')"

definition from_fields :: "(string \<times> wire_value) list \<Rightarrow> string + agent_failure_wire" where
  "from_fields flds =
     and_then (check_failure_fields [] flds) (\<lambda>_.
     and_then (case hget flds ''retryable'' of
                 Some (WBool b) \<Rightarrow> Ok b
               | Some _ \<Rightarrow> Err ''AgentFailure field retryable must be a bool''
               | None \<Rightarrow> Err ''AgentFailure field retryable is required'') (\<lambda>retryable.
     and_then (failure_http_status flds) (\<lambda>http_status.
     and_then (failure_string flds ''category'') (\<lambda>category.
     and_then (failure_string flds ''terminal_kind'') (\<lambda>terminal_kind.
     and_then (failure_string flds ''code'') (\<lambda>code.
     and_then (failure_string flds ''message'') (\<lambda>message.
       Ok \<lparr>afw_category = category, afw_terminal_kind = terminal_kind, afw_retryable = retryable,
           afw_code = code, afw_http_status = http_status, afw_message = message\<rparr>)))))))"

fun text_keyed :: "(wire_value \<times> wire_value) list \<Rightarrow> string + (string \<times> wire_value) list" where
  "text_keyed [] = Ok []"
| "text_keyed ((k, v) # es) =
     (case k of
        WString name \<Rightarrow> map_ok (\<lambda>rest. (name, v) # rest) (text_keyed es)
      | _ \<Rightarrow> Err ''AgentFailureWire map keys must be strings'')"

fun from_wire_value :: "wire_value \<Rightarrow> string + agent_failure_wire" where
  "from_wire_value (WRecord type_id flds) =
     (if type_id = agent_failure_type_id then from_fields flds
      else Err (''AgentFailureWire record type_id must be '' @ agent_failure_type_id @ '', got '' @ type_id))"
| "from_wire_value (WMap es) = and_then (text_keyed es) from_fields"
| "from_wire_value _ = Err ''AgentFailureWire must be a record or map''"

definition into_wire_value :: "agent_failure_wire \<Rightarrow> wire_value" where
  "into_wire_value f =
     WRecord agent_failure_type_id
       [(''category'', WString (afw_category f)),
        (''terminal_kind'', WString (afw_terminal_kind f)),
        (''retryable'', WBool (afw_retryable f)),
        (''code'', WString (afw_code f)),
        (''http_status'', case afw_http_status f of
            None \<Rightarrow> WNull | Some s \<Rightarrow> WU64 (from_u64 (word_of_nat (unat s)))),
        (''message'', WString (afw_message f))]"

section \<open>Framework failures\<close>

datatype failure_category =
    Llm | Tool | Parse | Agent | Config | Mcp | Memory | Sandbox | RuntimeState | Channel | Io | Other

datatype terminal_kind = KindFailed | KindCancelled | KindTimedOut | KindPermissionDenied

record agent_failure =
  af_category :: failure_category
  af_terminal_kind :: terminal_kind
  af_retryable :: bool
  af_code :: string
  af_http_status :: "u16 option"
  af_message :: string

text \<open>The serializer's outcome on the two enums.\<close>

record failure_names =
  fn_category :: "failure_category \<Rightarrow> string + json"
  fn_terminal_kind :: "terminal_kind \<Rightarrow> string + json"

definition serde_name :: "string + json \<Rightarrow> string" where
  "serde_name r =
     (case r of Inl _ \<Rightarrow> [] | Inr v \<Rightarrow> (case as_json_string v of None \<Rightarrow> [] | Some s \<Rightarrow> s))"

definition failure_wire :: "failure_names \<Rightarrow> agent_failure \<Rightarrow> agent_failure_wire" where
  "failure_wire names f =
     \<lparr>afw_category = serde_name (fn_category names (af_category f)),
      afw_terminal_kind = serde_name (fn_terminal_kind names (af_terminal_kind f)),
      afw_retryable = af_retryable f,
      afw_code = take 128 (af_code f),
      afw_http_status = af_http_status f,
      afw_message = take max_failure_message_chars (af_message f)\<rparr>"

definition category_names :: "(string \<times> failure_category) list" where
  "category_names =
     [(''llm'', Llm), (''tool'', Tool), (''parse'', Parse), (''agent'', Agent), (''config'', Config),
      (''mcp'', Mcp), (''memory'', Memory), (''sandbox'', Sandbox), (''runtime_state'', RuntimeState),
      (''channel'', Channel), (''io'', Io), (''other'', Other)]"

definition terminal_kind_names :: "(string \<times> terminal_kind) list" where
  "terminal_kind_names =
     [(''failed'', KindFailed), (''cancelled'', KindCancelled), (''timed_out'', KindTimedOut),
      (''permission_denied'', KindPermissionDenied)]"

definition failure_from_wire :: "agent_failure_wire \<Rightarrow> string + agent_failure" where
  "failure_from_wire w =
     and_then (ok_or (hget category_names (afw_category w))
                 (''unknown AgentFailure category '' @ afw_category w)) (\<lambda>category.
     and_then (ok_or (hget terminal_kind_names (afw_terminal_kind w))
                 (''unknown AgentFailure terminal_kind '' @ afw_terminal_kind w)) (\<lambda>kind.
     and_then (map_err (\<lambda>e. ''invalid AgentFailureWire: '' @ e) (validate_failure w)) (\<lambda>_.
     and_then (reject_if (blank (afw_code w)) ''AgentFailure code must be non-empty'') (\<lambda>_.
     and_then (reject_if (blank (afw_message w)) ''AgentFailure message must be non-empty'') (\<lambda>_.
       Ok \<lparr>af_category = category, af_terminal_kind = kind, af_retryable = afw_retryable w,
           af_code = afw_code w, af_http_status = afw_http_status w, af_message = afw_message w\<rparr>)))))"

section \<open>Terminals and receipts\<close>

datatype run_terminal = Completed "string option" | Cancelled | Failed agent_failure_wire

datatype run_status =
    StPending | StRunning | StPaused | StCompleted | StCancelled | StFailed | StInterrupted | StClosed

record run_receipt =
  rc_turn_id :: string
  rc_outcome :: string
  rc_delivery :: "string option"
  rc_delivery_error :: "agent_failure_wire option"
  rc_final_answer :: "string option"
  rc_final_message_id :: "string option"
  rc_prompt_tokens :: wire_u64
  rc_completion_tokens :: wire_u64
  rc_llm_calls :: wire_u64
  rc_compaction_count :: wire_u64
  rc_last_event_sequence :: wire_u64
  rc_elapsed_ms :: wire_u64

fun validate_terminal :: "run_terminal \<Rightarrow> string + unit" where
  "validate_terminal (Completed final_answer) =
     (if (case final_answer of None \<Rightarrow> False | Some text \<Rightarrow> text = [] \<or> 1048576 < length text)
      then Err ''completed terminal final_answer must be omitted when empty'' else Ok ())"
| "validate_terminal Cancelled = Ok ()"
| "validate_terminal (Failed f) = validate_failure f"

definition validate_receipt :: "run_receipt \<Rightarrow> string + unit" where
  "validate_receipt r =
     (if blank (rc_turn_id r) \<or> 256 < length (rc_turn_id r)
        then Err ''receipt turn_id must be non-empty and bounded''
      else if rc_outcome r \<notin> {''completed'', ''cancelled'', ''failed''}
        then Err ''receipt outcome must match its terminal''
      else if (case rc_delivery r of None \<Rightarrow> False
               | Some d \<Rightarrow> d \<notin> {''not_attempted'', ''delivered'', ''closed'', ''failed''})
        then Err ''receipt delivery must be a known delivery status''
      else if rc_delivery r = Some ''failed'' \<and> rc_delivery_error r = None
        then Err ''failed delivery must include delivery_error''
      else if rc_delivery r \<noteq> Some ''failed'' \<and> rc_delivery_error r \<noteq> None
        then Err ''delivery_error requires failed delivery''
      else if (case rc_delivery_error r of None \<Rightarrow> False | Some f \<Rightarrow> \<not> is_ok (validate_failure f))
        then Err ''delivery_error is invalid''
      else if (case rc_final_answer r of None \<Rightarrow> False | Some a \<Rightarrow> 1048576 < length a)
        then Err ''receipt final_answer exceeds the character bound''
      else if (case rc_final_message_id r of None \<Rightarrow> False | Some i \<Rightarrow> blank i \<or> 256 < length i)
        then Err ''receipt final_message_id must be non-empty and bounded''
      else if rc_outcome r \<noteq> ''completed'' \<and> (rc_final_answer r \<noteq> None \<or> rc_final_message_id r \<noteq> None)
        then Err ''non-completed receipt must not carry final fields''
      else Ok ())"

section \<open>Projection of the framework receipt\<close>

datatype turn_outcome = TurnCompleted | TurnCancelled | TurnFailed agent_failure

datatype turn_delivery = NotAttempted | Delivered | DeliveryClosed | DeliveryFailed agent_failure

record turn_receipt =
  tr_turn_id :: string
  tr_outcome :: turn_outcome
  tr_status :: string
  tr_delivery :: turn_delivery
  tr_final_answer :: "string option"
  tr_final_message_id :: "string option"
  tr_prompt_tokens :: u64
  tr_completion_tokens :: u64
  tr_llm_calls :: u64
  tr_compaction_count :: u64
  tr_last_event_sequence :: u64
  tr_elapsed_millis :: nat

definition terminal_of :: "failure_names \<Rightarrow> turn_receipt \<Rightarrow> string + run_terminal" where
  "terminal_of names r =
     (let terminal = (case tr_outcome r of
            TurnCompleted \<Rightarrow> Completed (tr_final_answer r)
          | TurnCancelled \<Rightarrow> Cancelled
          | TurnFailed f \<Rightarrow> Failed (failure_wire names f))
      in and_then (validate_terminal terminal) (\<lambda>_. Ok terminal))"

definition delivery_name :: "turn_delivery \<Rightarrow> string" where
  "delivery_name d =
     (case d of NotAttempted \<Rightarrow> ''not_attempted'' | Delivered \<Rightarrow> ''delivered''
      | DeliveryClosed \<Rightarrow> ''closed'' | DeliveryFailed _ \<Rightarrow> ''failed'')"

definition receipt_wire :: "failure_names \<Rightarrow> turn_receipt \<Rightarrow> string + run_receipt" where
  "receipt_wire names r =
     (let wire = \<lparr>rc_turn_id = tr_turn_id r, rc_outcome = tr_status r,
            rc_delivery = Some (delivery_name (tr_delivery r)),
            rc_delivery_error = (case tr_delivery r of DeliveryFailed f \<Rightarrow> Some (failure_wire names f) | _ \<Rightarrow> None),
            rc_final_answer = tr_final_answer r, rc_final_message_id = tr_final_message_id r,
            rc_prompt_tokens = from_u64 (tr_prompt_tokens r),
            rc_completion_tokens = from_u64 (tr_completion_tokens r),
            rc_llm_calls = from_u64 (tr_llm_calls r),
            rc_compaction_count = from_u64 (tr_compaction_count r),
            rc_last_event_sequence = from_u64 (tr_last_event_sequence r),
            rc_elapsed_ms = from_u64 (if tr_elapsed_millis r \<le> u64_max
                                      then word_of_nat (tr_elapsed_millis r) else - 1)\<rparr>
      in and_then (validate_receipt wire) (\<lambda>_. Ok wire))"

definition status_of :: "turn_receipt option \<Rightarrow> run_status" where
  "status_of receipt =
     (case receipt of
        None \<Rightarrow> StRunning
      | Some r \<Rightarrow>
          (case tr_outcome r of
             TurnCompleted \<Rightarrow> StCompleted | TurnCancelled \<Rightarrow> StCancelled | TurnFailed _ \<Rightarrow> StFailed))"

section \<open>Properties\<close>

lemma unat_u16_less: "unat (s :: u16) < 65536"
  using unsigned_less [of s, where ?'a = nat] by simp

lemma unat_u16_as_u64: "unat (ucast (s :: u16) :: u64) = unat s"
proof -
  have "unat s < 2 ^ 64" by (rule less_trans [OF unat_u16_less]) simp
  then show ?thesis by (simp add: unsigned_ucast_eq take_bit_nat_eq_self)
qed

lemma u16_via_u64: "unat (ucast (s :: u16) :: u64) < 65536" "(ucast (ucast s :: u64) :: u16) = s"
proof -
  show "unat (ucast s :: u64) < 65536" by (simp add: unat_u16_as_u64 unat_u16_less)
  have "(word_of_nat (unat (ucast s :: u64)) :: u16) = word_of_nat (unat s)"
    by (simp only: unat_u16_as_u64)
  then show "(ucast (ucast s :: u64) :: u16) = s" by simp
qed

lemma failure_round_trip: "from_wire_value (into_wire_value f) = Ok f"
  by (cases "afw_http_status f")
    (simp_all add: into_wire_value_def from_fields_def allowed_failure_fields_def failure_string_def
      failure_http_status_def u16_via_u64)

lemma failure_wire_valid: "validate_failure (failure_wire names f) = Ok ()"
  by (simp add: validate_failure_def failure_wire_def)

text \<open>A framework failure crosses the wire unchanged. Provided the serializer names the
  categories and terminal kinds by the names the Host parses, the failure's code and message are
  non-blank and within their bounds, encoding it as the canonical record and decoding that record
  gives back the very same failure.\<close>

theorem agent_failure_round_trip:
  assumes "\<forall>c. hget category_names (serde_name (fn_category names c)) = Some c"
    and "\<forall>k. hget terminal_kind_names (serde_name (fn_terminal_kind names k)) = Some k"
    and "length (af_code f) \<le> 128" and "length (af_message f) \<le> max_failure_message_chars"
    and "\<not> blank (af_code f)" and "\<not> blank (af_message f)"
  shows "and_then (from_wire_value (into_wire_value (failure_wire names f))) failure_from_wire = Ok f"
  using assms by (simp add: failure_round_trip failure_from_wire_def failure_wire_valid) (simp add: failure_wire_def)

definition sample_names :: failure_names where
  "sample_names =
     \<lparr>fn_category = \<lambda>c. Ok (JString (case c of Llm \<Rightarrow> ''llm'' | Tool \<Rightarrow> ''tool'' | Parse \<Rightarrow> ''parse''
        | Agent \<Rightarrow> ''agent'' | Config \<Rightarrow> ''config'' | Mcp \<Rightarrow> ''mcp'' | Memory \<Rightarrow> ''memory''
        | Sandbox \<Rightarrow> ''sandbox'' | RuntimeState \<Rightarrow> ''runtime_state'' | Channel \<Rightarrow> ''channel''
        | Io \<Rightarrow> ''io'' | Other \<Rightarrow> ''other'')),
      fn_terminal_kind = \<lambda>k. Ok (JString (case k of KindFailed \<Rightarrow> ''failed''
        | KindCancelled \<Rightarrow> ''cancelled'' | KindTimedOut \<Rightarrow> ''timed_out''
        | KindPermissionDenied \<Rightarrow> ''permission_denied''))\<rparr>"

definition sample_failure :: agent_failure where
  "sample_failure = \<lparr>af_category = Tool, af_terminal_kind = KindTimedOut, af_retryable = True,
     af_code = ''t1'', af_http_status = Some 504, af_message = ''late''\<rparr>"

theorem agent_failure_round_trip_witness:
  "and_then (from_wire_value (into_wire_value (failure_wire sample_names sample_failure))) failure_from_wire =
     Ok sample_failure"
proof (rule agent_failure_round_trip)
  show "\<forall>c. hget category_names (serde_name (fn_category sample_names c)) = Some c"
  proof
    fix c show "hget category_names (serde_name (fn_category sample_names c)) = Some c"
      by (cases c) (simp_all add: category_names_def serde_name_def sample_names_def)
  qed
  show "\<forall>k. hget terminal_kind_names (serde_name (fn_terminal_kind sample_names k)) = Some k"
  proof
    fix k show "hget terminal_kind_names (serde_name (fn_terminal_kind sample_names k)) = Some k"
      by (cases k) (simp_all add: terminal_kind_names_def serde_name_def sample_names_def)
  qed
qed (simp_all add: sample_failure_def max_failure_message_chars_def blank_Cons is_whitespace_def)

end
