(* ===== verification/Run_Index.thy ===== *)
theory Run_Index
  imports Run_Wire
begin

text \<open>
  Durable state of the Host (\<open>echo-sdk-host/src/core_profile/persistence.rs\<close>): the generation
  counter, the session index and the run index with its bounded pruning, and what a restart makes of
  them. The three files of the state root are fields of \<open>host_files\<close>; a missing file is \<open>None\<close>. The
  JSON codec and the outcome of file operations are the parameters of \<open>disk\<close>. Every operation holds
  the index lock, so it is one step on the files.
\<close>

section \<open>Files and records\<close>

record run_record =
  rr_run_id :: string
  rr_stream_id :: string
  rr_session_id :: string
  rr_agent_handle_id :: string
  rr_status :: string
  rr_last_sequence :: u64
  rr_input_kind :: string
  rr_fingerprint :: string
  rr_cwd :: "wire_path option"
  rr_terminal :: "run_terminal option"
  rr_receipt :: "run_receipt option"

record session_record =
  sr_session_id :: string
  sr_agent_handle_id :: string
  sr_fingerprint :: string
  sr_cwd :: wire_path

record recovered_run =
  rec_record :: run_record
  rec_status :: run_status
  rec_last_sequence :: u64
  rec_terminal :: "run_terminal option"
  rec_receipt :: "run_receipt option"

record host_files =
  hf_generation :: "string option"
  hf_runs :: "u8 list option"
  hf_sessions :: "u8 list option"

datatype file_name = GenerationFile | RunIndexFile | SessionIndexFile

text \<open>
  \<open>dk_read_error\<close> and \<open>dk_write_error\<close> say which reads and atomic writes fail, \<open>dk_metadata_ok\<close> which
  metadata queries succeed; the rest is the JSON codec and the text of a failed integer parse.
\<close>

record disk =
  dk_base64 :: base64_decoder
  dk_read_error :: "file_name \<Rightarrow> string option"
  dk_write_error :: "file_name \<Rightarrow> string option"
  dk_metadata_ok :: "file_name \<Rightarrow> bool"
  dk_encode_runs :: "run_record list \<Rightarrow> string + u8 list"
  dk_decode_runs :: "u8 list \<Rightarrow> string + run_record list"
  dk_encode_sessions :: "session_record list \<Rightarrow> string + u8 list"
  dk_decode_sessions :: "u8 list \<Rightarrow> string + session_record list"
  dk_parse_text :: "string \<Rightarrow> string"

definition max_run_index_entries :: nat where "max_run_index_entries = 1024"
definition max_run_index_bytes :: nat where "max_run_index_bytes = 4 * 1024 * 1024"
definition max_session_index_entries :: nat where "max_session_index_entries = 1024"
definition max_session_index_bytes :: nat where "max_session_index_bytes = 4 * 1024 * 1024"

text \<open>\<open>std::fs::read\<close>: the content, or \<open>None\<close> for a missing file.\<close>

definition read_file :: "disk \<Rightarrow> file_name \<Rightarrow> 'c option \<Rightarrow> react_error + 'c option" where
  "read_file dk name content =
     (case dk_read_error dk name of Some e \<Rightarrow> Err (ReactIo e) | None \<Rightarrow> Ok content)"

text \<open>The size check in front of every read of an index.\<close>

definition size_check :: "disk \<Rightarrow> file_name \<Rightarrow> u8 list option \<Rightarrow> nat \<Rightarrow> string \<Rightarrow> react_error + unit" where
  "size_check dk name content bound what =
     reject_if (dk_metadata_ok dk name \<and> (case content of None \<Rightarrow> False | Some b \<Rightarrow> bound < length b))
       (ReactOther (what @ '' exceeds the '' @ show_nat bound @ '' byte bound''))"

section \<open>Generation\<close>

definition advance_generation :: "disk \<Rightarrow> host_files \<Rightarrow> (react_error + u64) \<times> host_files" where
  "advance_generation dk fs =
     (case and_then (read_file dk GenerationFile (hf_generation fs)) (\<lambda>content.
             and_then (case content of
                         None \<Rightarrow> Ok 0
                       | Some text \<Rightarrow>
                           map_err (\<lambda>e. ReactOther (''generation file is corrupt: '' @ e))
                             (map_ok word_of_nat
                               (ok_or (parse_unsigned u64_max (trim text)) (dk_parse_text dk (trim text)))))
               (\<lambda>previous. ok_or (checked_add previous (1 :: u64)) (ReactOther ''Host generation exhausted''))) of
        Inl e \<Rightarrow> (Err e, fs)
      | Inr next \<Rightarrow>
          (case dk_write_error dk GenerationFile of
             Some e \<Rightarrow> (Err (ReactIo e), fs)
           | None \<Rightarrow> (Ok next, fs\<lparr>hf_generation := Some (show_nat (unat next))\<rparr>)))"

definition is_safe_char :: "char \<Rightarrow> bool" where
  "is_safe_char c = (is_ascii_alphabetic c \<or> is_ascii_digit c \<or> c = CHR ''-'' \<or> c = CHR ''_'')"

text \<open>The directory name of a run's journal.\<close>

definition sanitize :: "string \<Rightarrow> string" where
  "sanitize i =
     (let truncated = take 128 (map (\<lambda>c. if is_safe_char c then c else CHR ''_'') i)
      in if truncated = [] then ''unnamed'' else truncated)"

section \<open>Sessions\<close>

definition record_session ::
  "disk \<Rightarrow> string \<Rightarrow> string \<Rightarrow> string \<Rightarrow> wire_path \<Rightarrow> host_files \<Rightarrow> (react_error + unit) \<times> host_files" where
  "record_session dk session_id agent fingerprint cwd fs =
     (case and_then (map_err (\<lambda>e. ReactOther (''invalid session cwd: '' @ display_scalar_error e))
                       (validate_path (dk_base64 dk) cwd)) (\<lambda>_.
           and_then (size_check dk SessionIndexFile (hf_sessions fs) max_session_index_bytes ''session index'') (\<lambda>_.
           and_then (read_file dk SessionIndexFile (hf_sessions fs)) (\<lambda>content.
           and_then (case content of
                       None \<Rightarrow> Ok []
                     | Some b \<Rightarrow> map_err (\<lambda>e. ReactOther (''session index is corrupt: '' @ e))
                                   (dk_decode_sessions dk b)) (\<lambda>records.
           and_then (reject_if (max_session_index_entries \<le> length records \<and>
                         \<not> list_ex (\<lambda>r. sr_session_id r = session_id) records)
                       (ReactOther (''session index limit '' @ show_nat max_session_index_entries @ '' reached''))) (\<lambda>_.
           let records' = filter (\<lambda>r. sr_session_id r \<noteq> session_id) records @
                 [\<lparr>sr_session_id = session_id, sr_agent_handle_id = agent,
                   sr_fingerprint = fingerprint, sr_cwd = cwd\<rparr>]
           in and_then (map_err (\<lambda>e. ReactOther (''failed to encode session index: '' @ e))
                          (dk_encode_sessions dk records')) (\<lambda>bytes.
              and_then (reject_if (max_session_index_bytes < length bytes)
                          (ReactOther (''session index exceeds the '' @ show_nat max_session_index_bytes @ '' byte bound'')))
                (\<lambda>_. Ok bytes))))))) of
        Inl e \<Rightarrow> (Err e, fs)
      | Inr bytes \<Rightarrow>
          (case dk_write_error dk SessionIndexFile of
             Some e \<Rightarrow> (Err (ReactIo e), fs)
           | None \<Rightarrow> (Ok (), fs\<lparr>hf_sessions := Some bytes\<rparr>)))"

definition load_session :: "disk \<Rightarrow> host_files \<Rightarrow> string \<Rightarrow> react_error + session_record option" where
  "load_session dk fs session_id =
     and_then (size_check dk SessionIndexFile (hf_sessions fs) max_session_index_bytes ''session index'') (\<lambda>_.
     and_then (read_file dk SessionIndexFile (hf_sessions fs)) (\<lambda>content.
       case content of
         None \<Rightarrow> Ok None
       | Some b \<Rightarrow>
           and_then (map_err (\<lambda>e. ReactOther (''session index is corrupt: '' @ e)) (dk_decode_sessions dk b)) (\<lambda>records.
           and_then (reject_if (max_session_index_entries < length records)
                       (ReactOther (''session index contains more than '' @
                          show_nat max_session_index_entries @ '' entries''))) (\<lambda>_.
             Ok (List.find (\<lambda>r. sr_session_id r = session_id) records)))))"

section \<open>Settled runs\<close>

definition terminal_matches :: "run_terminal \<Rightarrow> run_receipt \<Rightarrow> bool" where
  "terminal_matches t r =
     (case t of
        Completed final_answer \<Rightarrow> rc_outcome r = ''completed'' \<and> final_answer = rc_final_answer r
      | Cancelled \<Rightarrow> rc_outcome r = ''cancelled'' \<and> rc_final_answer r = None
      | Failed _ \<Rightarrow> rc_outcome r = ''failed'' \<and> rc_final_answer r = None)"

definition validate_settled_run :: "string \<Rightarrow> run_terminal \<Rightarrow> run_receipt \<Rightarrow> u64 \<Rightarrow> react_error + unit" where
  "validate_settled_run run_id t r committed =
     and_then (map_err (\<lambda>e. ReactOther (''invalid run terminal: '' @ e)) (validate_terminal t)) (\<lambda>_.
     and_then (map_err (\<lambda>e. ReactOther (''invalid run receipt: '' @ e)) (validate_receipt r)) (\<lambda>_.
     and_then (reject_if (rc_turn_id r \<noteq> run_id)
                 (ReactOther (''run '' @ run_id @ '' receipt turn_id '' @ rc_turn_id r @ '' does not match''))) (\<lambda>_.
     and_then (reject_if (\<not> terminal_matches t r)
                 (ReactOther (''run '' @ run_id @ '' terminal and receipt outcome conflict''))) (\<lambda>_.
     and_then (ok_or (to_u64 (rc_last_event_sequence r))
                 (ReactOther (''run '' @ run_id @ '' receipt has invalid observed sequence''))) (\<lambda>observed.
     and_then (reject_if (observed < committed)
                 (ReactOther (''run '' @ run_id @ '' committed sequence '' @ show_nat (unat committed) @
                    '' exceeds observed sequence '' @ show_nat (unat observed)))) (\<lambda>_.
       reject_if (rc_delivery r = Some ''delivered'' \<and> committed \<noteq> observed)
         (ReactOther (''run '' @ run_id @ '' reports delivered at sequence '' @ show_nat (unat observed) @
            '' but committed through '' @ show_nat (unat committed)))))))))"

section \<open>The run index\<close>

definition read_index :: "disk \<Rightarrow> host_files \<Rightarrow> react_error + run_record list" where
  "read_index dk fs =
     and_then (size_check dk RunIndexFile (hf_runs fs) max_run_index_bytes ''run index'') (\<lambda>_.
     and_then (read_file dk RunIndexFile (hf_runs fs)) (\<lambda>content.
       case content of
         None \<Rightarrow> Ok []
       | Some b \<Rightarrow> map_err (\<lambda>e. ReactOther (''run index is corrupt: '' @ e)) (dk_decode_runs dk b)))"

text \<open>\<open>position\<close> of the first record that is not running, and \<open>remove\<close> of it.\<close>

fun remove_first_settled :: "run_record list \<Rightarrow> run_record list option" where
  "remove_first_settled [] = None"
| "remove_first_settled (r # rs) =
     (if rr_status r \<noteq> ''running'' then Some rs else map_option ((#) r) (remove_first_settled rs))"

lemma remove_first_settled_length: "remove_first_settled rs = Some rs' \<Longrightarrow> length rs = Suc (length rs')"
  by (induction rs arbitrary: rs') (auto split: if_splits)

function prune_entries :: "run_record list \<Rightarrow> run_record list" where
  "prune_entries rs =
     (if length rs \<le> max_run_index_entries then rs
      else case remove_first_settled rs of None \<Rightarrow> rs | Some rs' \<Rightarrow> prune_entries rs')"
  by pat_completeness auto
termination
  by (relation "measure length") (auto dest: remove_first_settled_length)

declare prune_entries.simps [simp del]

definition encode_runs :: "disk \<Rightarrow> run_record list \<Rightarrow> react_error + u8 list" where
  "encode_runs dk rs = map_err (\<lambda>e. ReactOther (''failed to encode run index: '' @ e)) (dk_encode_runs dk rs)"

function prune_bytes :: "disk \<Rightarrow> run_record list \<Rightarrow> u8 list \<Rightarrow> react_error + u8 list" where
  "prune_bytes dk rs bytes =
     (if length bytes \<le> max_run_index_bytes then Ok bytes
      else case remove_first_settled rs of
        None \<Rightarrow> Err (ReactOther (''run index exceeds the '' @ show_nat max_run_index_bytes @ '' byte bound''))
      | Some rs' \<Rightarrow> and_then (encode_runs dk rs') (prune_bytes dk rs'))"
  by pat_completeness auto
termination
  by (relation "measure (\<lambda>(dk, rs, bytes). length rs)") (auto dest: remove_first_settled_length)

declare prune_bytes.simps [simp del]

definition write_index :: "disk \<Rightarrow> host_files \<Rightarrow> run_record list \<Rightarrow> (react_error + unit) \<times> host_files" where
  "write_index dk fs records =
     (let kept = prune_entries records in
      case and_then (reject_if (max_run_index_entries < length kept)
                       (ReactOther (''run index limit '' @ show_nat max_run_index_entries @ '' reached by active runs''))) (\<lambda>_.
           and_then (encode_runs dk kept) (prune_bytes dk kept)) of
        Inl e \<Rightarrow> (Err e, fs)
      | Inr bytes \<Rightarrow>
          (case dk_write_error dk RunIndexFile of
             Some e \<Rightarrow> (Err (ReactIo e), fs)
           | None \<Rightarrow> (Ok (), fs\<lparr>hf_runs := Some bytes\<rparr>)))"

definition upsert_record :: "disk \<Rightarrow> run_record \<Rightarrow> host_files \<Rightarrow> (react_error + unit) \<times> host_files" where
  "upsert_record dk r fs =
     (case read_index dk fs of
        Inl e \<Rightarrow> (Err e, fs)
      | Inr records \<Rightarrow> write_index dk fs (filter (\<lambda>x. rr_run_id x \<noteq> rr_run_id r) records @ [r]))"

definition record_run_started ::
  "disk \<Rightarrow> string \<Rightarrow> string \<Rightarrow> string \<Rightarrow> string \<Rightarrow> string \<Rightarrow> wire_path option \<Rightarrow> string \<Rightarrow> host_files
     \<Rightarrow> (react_error + unit) \<times> host_files" where
  "record_run_started dk run stream session agent fingerprint cwd input_kind =
     upsert_record dk
       \<lparr>rr_run_id = run, rr_stream_id = stream, rr_session_id = session, rr_agent_handle_id = agent,
        rr_status = ''running'', rr_last_sequence = 0, rr_input_kind = input_kind,
        rr_fingerprint = fingerprint, rr_cwd = cwd, rr_terminal = None, rr_receipt = None\<rparr>"

fun settle_first :: "string \<Rightarrow> run_terminal \<Rightarrow> run_receipt \<Rightarrow> u64 \<Rightarrow> run_record list \<Rightarrow> run_record list option" where
  "settle_first run t rc q [] = None"
| "settle_first run t rc q (r # rs) =
     (if rr_run_id r = run then
        Some (r\<lparr>rr_status := ''settled'', rr_last_sequence := q, rr_terminal := Some t,
                rr_receipt := Some rc\<rparr> # rs)
      else map_option ((#) r) (settle_first run t rc q rs))"

definition record_run_settled ::
  "disk \<Rightarrow> string \<Rightarrow> run_terminal \<Rightarrow> run_receipt \<Rightarrow> u64 \<Rightarrow> host_files \<Rightarrow> (react_error + unit) \<times> host_files" where
  "record_run_settled dk run t rc last_sequence fs =
     (case and_then (validate_settled_run run t rc last_sequence) (\<lambda>_.
           and_then (read_index dk fs) (\<lambda>records.
             ok_or (settle_first run t rc last_sequence records)
               (ReactOther (''run '' @ run @ '' is missing from durable index'')))) of
        Inl e \<Rightarrow> (Err e, fs)
      | Inr records \<Rightarrow> write_index dk fs records)"

definition remove_run :: "disk \<Rightarrow> string \<Rightarrow> host_files \<Rightarrow> (react_error + unit) \<times> host_files" where
  "remove_run dk run fs =
     (case read_index dk fs of
        Inl e \<Rightarrow> (Err e, fs)
      | Inr records \<Rightarrow> write_index dk fs (filter (\<lambda>r. rr_run_id r \<noteq> run) records))"

section \<open>Recovery\<close>

definition recover_run :: "run_record \<Rightarrow> react_error + recovered_run" where
  "recover_run r =
     (if rr_status r = ''running'' then
        (if rr_terminal r \<noteq> None \<or> rr_receipt r \<noteq> None
         then Err (ReactOther (''running run '' @ rr_run_id r @ '' must not carry terminal settlement''))
         else Ok \<lparr>rec_record = r, rec_status = StInterrupted, rec_last_sequence = rr_last_sequence r,
                  rec_terminal = None, rec_receipt = None\<rparr>)
      else if rr_status r = ''settled'' then
        and_then (ok_or (rr_terminal r)
                    (ReactOther (''settled run '' @ rr_run_id r @ '' is missing its terminal''))) (\<lambda>t.
        and_then (ok_or (rr_receipt r)
                    (ReactOther (''settled run '' @ rr_run_id r @ '' is missing its receipt''))) (\<lambda>rc.
        and_then (validate_settled_run (rr_run_id r) t rc (rr_last_sequence r)) (\<lambda>_.
          Ok \<lparr>rec_record = r,
              rec_status = (case t of Completed _ \<Rightarrow> StCompleted | Cancelled \<Rightarrow> StCancelled | Failed _ \<Rightarrow> StFailed),
              rec_last_sequence = rr_last_sequence r, rec_terminal = Some t, rec_receipt = Some rc\<rparr>)))
      else Err (ReactOther (''run '' @ rr_run_id r @ '' has unknown durable status '' @ rr_status r)))"

definition load_recovered_runs :: "disk \<Rightarrow> host_files \<Rightarrow> react_error + recovered_run list" where
  "load_recovered_runs dk fs =
     and_then (size_check dk RunIndexFile (hf_runs fs) max_run_index_bytes ''run index'') (\<lambda>_.
     and_then (read_file dk RunIndexFile (hf_runs fs)) (\<lambda>content.
       case content of
         None \<Rightarrow> Ok []
       | Some b \<Rightarrow>
           and_then (map_err (\<lambda>e. ReactOther (''run index is corrupt: '' @ e)) (dk_decode_runs dk b)) (\<lambda>records.
           and_then (reject_if (max_run_index_entries < length records)
                       (ReactOther (''run index contains more than '' @ show_nat max_run_index_entries @ '' entries''))) (\<lambda>_.
             collect_ok (map recover_run records)))))"

definition validate_recovered_journal :: "recovered_run \<Rightarrow> u64 \<Rightarrow> react_error + unit" where
  "validate_recovered_journal rec journal_sequence =
     (let run = rr_run_id (rec_record rec) in
      if rec_status rec = StInterrupted then Ok ()
      else
        and_then (reject_if (journal_sequence \<noteq> rr_last_sequence (rec_record rec))
                    (ReactOther (''run '' @ run @ '' Journal sequence '' @ show_nat (unat journal_sequence) @
                       '' conflicts with index sequence '' @ show_nat (unat (rr_last_sequence (rec_record rec)))))) (\<lambda>_.
        and_then (ok_or (rec_terminal rec)
                    (ReactOther (''settled run '' @ run @ '' is missing its recovered terminal''))) (\<lambda>t.
        and_then (ok_or (rec_receipt rec)
                    (ReactOther (''settled run '' @ run @ '' is missing its recovered receipt''))) (\<lambda>rc.
          validate_settled_run run t rc journal_sequence))))"

end
