(* ===== verification/Run_Recovery.thy ===== *)
theory Run_Recovery
  imports Run_Index "HOL-Library.Sublist"
begin

text \<open>
  What the durable state promises across restarts (\<open>core_profile/persistence.rs\<close>): the bounded
  index, the recovery of started and settled runs, the generation counter, the session index and
  the journal directories.
\<close>

section \<open>The codec\<close>

text \<open>The JSON library reads back what it wrote.\<close>

definition codec_ok :: "disk \<Rightarrow> bool" where
  "codec_ok dk \<longleftrightarrow>
     (\<forall>rs b. dk_encode_runs dk rs = Ok b \<longrightarrow> dk_decode_runs dk b = Ok rs) \<and>
     (\<forall>rs b. dk_encode_sessions dk rs = Ok b \<longrightarrow> dk_decode_sessions dk b = Ok rs)"

section \<open>Pruning\<close>

definition running :: "run_record \<Rightarrow> bool" where
  "running r = (rr_status r = ''running'')"

definition kept_of :: "run_record list \<Rightarrow> run_record list \<Rightarrow> bool" where
  "kept_of rs rs' \<longleftrightarrow> subseq rs' rs \<and> filter running rs' = filter running rs"

lemma kept_of_refl [simp]: "kept_of rs rs" by (simp add: kept_of_def)

lemma kept_of_trans: "kept_of a b \<Longrightarrow> kept_of b c \<Longrightarrow> kept_of a c"
  by (auto simp: kept_of_def intro: subseq_order.trans)

lemma remove_first_settled_kept: "remove_first_settled rs = Some rs' \<Longrightarrow> kept_of rs rs'"
  by (induction rs arbitrary: rs') (auto simp: kept_of_def running_def split: if_splits)

lemma remove_first_settled_None: "remove_first_settled rs = None \<longleftrightarrow> list_all running rs"
  by (induction rs) (auto simp: running_def)

lemma prune_entries_kept: "kept_of rs (prune_entries rs)"
proof (induction rs rule: prune_entries.induct)
  case (1 rs)
  show ?case
    using 1 remove_first_settled_kept [of rs]
    by (subst prune_entries.simps) (auto split: option.splits intro: kept_of_trans)
qed

lemma prune_entries_bounded:
  "length (prune_entries rs) \<le> max_run_index_entries \<or> list_all running (prune_entries rs)"
proof (induction rs rule: prune_entries.induct)
  case (1 rs)
  then show ?case
    by (subst (1 2) prune_entries.simps) (auto simp: remove_first_settled_None split: option.splits)
qed

lemma prune_bytes_Ok:
  assumes "prune_bytes dk rs bytes = Ok out" and "dk_encode_runs dk rs = Ok bytes"
  shows "\<exists>rs'. kept_of rs rs' \<and> dk_encode_runs dk rs' = Ok out \<and> length out \<le> max_run_index_bytes"
  using assms
proof (induction dk rs bytes rule: prune_bytes.induct)
  case (1 dk rs bytes)
  show ?case
  proof (cases "length bytes \<le> max_run_index_bytes")
    case True
    with "1.prems" show ?thesis
      by (subst (asm) prune_bytes.simps) (auto intro: exI [of _ rs])
  next
    case False
    with "1.prems" obtain rs' b' where rs': "remove_first_settled rs = Some rs'"
      "dk_encode_runs dk rs' = Ok b'" "prune_bytes dk rs' b' = Ok out"
      by (subst (asm) prune_bytes.simps) (auto simp: encode_runs_def res_simps split: option.splits)
    from "1.IH" [OF False this(1) this(3,2)] show ?thesis
      using remove_first_settled_kept [OF rs'(1)] by (blast intro: kept_of_trans)
  qed
qed

lemma kept_of_length: "kept_of rs rs' \<Longrightarrow> length rs' \<le> length rs"
  by (auto simp: kept_of_def dest: list_emb_length)

lemma write_index_cases:
  assumes "write_index dk fs rs = (r, fs')"
  shows "(\<exists>e. r = Err e) \<and> fs' = fs \<or>
    (\<exists>rs' b. r = Ok () \<and> kept_of rs rs' \<and> length rs' \<le> max_run_index_entries \<and>
       dk_encode_runs dk rs' = Ok b \<and> length b \<le> max_run_index_bytes \<and> fs' = fs\<lparr>hf_runs := Some b\<rparr>)"
proof (cases r)
  case (Inl e)
  with assms show ?thesis by (auto simp: write_index_def Let_def split: sum.splits option.splits)
next
  case (Inr u)
  then obtain b where small: "length (prune_entries rs) \<le> max_run_index_entries"
    and b: "and_then (encode_runs dk (prune_entries rs)) (prune_bytes dk (prune_entries rs)) = Ok b"
    and fs': "fs' = fs\<lparr>hf_runs := Some b\<rparr>"
    using assms by (auto simp: write_index_def Let_def res_simps not_less split: sum.splits option.splits)
  from b obtain b0 where "dk_encode_runs dk (prune_entries rs) = Ok b0"
    "prune_bytes dk (prune_entries rs) b0 = Ok b"
    by (auto simp: encode_runs_def res_simps)
  from prune_bytes_Ok [OF this(2,1)] obtain rs' where rs': "kept_of (prune_entries rs) rs'"
    "dk_encode_runs dk rs' = Ok b" "length b \<le> max_run_index_bytes"
    by auto
  then have "length rs' \<le> max_run_index_entries" using small kept_of_length [OF rs'(1)] by linarith
  with Inr rs' fs' prune_entries_kept [of rs] show ?thesis by (auto intro: kept_of_trans)
qed

lemma read_index_after_write:
  assumes "codec_ok dk" and "dk_read_error dk RunIndexFile = None"
    and "dk_encode_runs dk rs = Ok b" and "length b \<le> max_run_index_bytes"
  shows "read_index dk (fs\<lparr>hf_runs := Some b\<rparr>) = Ok rs"
  using assms by (simp add: read_index_def size_check_def read_file_def codec_ok_def)

lemma load_after_write:
  assumes "codec_ok dk" and "dk_read_error dk RunIndexFile = None"
    and "dk_encode_runs dk rs = Ok b" and "length b \<le> max_run_index_bytes"
    and "length rs \<le> max_run_index_entries"
  shows "load_recovered_runs dk (fs\<lparr>hf_runs := Some b\<rparr>) = collect_ok (map recover_run rs)"
  using assms by (simp add: load_recovered_runs_def size_check_def read_file_def codec_ok_def)

section \<open>Recovery of one record\<close>

lemma collect_ok_Ok: "collect_ok rs = Ok xs \<longleftrightarrow> rs = map Ok xs"
  by (induction rs arbitrary: xs) (auto simp: res_simps Cons_eq_map_conv)

lemma recover_run_Ok:
  assumes "recover_run r = Ok rec"
  shows "rec_record rec = r \<and> rec_last_sequence rec = rr_last_sequence r \<and>
    (running r \<longrightarrow> rec_status rec = StInterrupted \<and> rec_terminal rec = None \<and> rec_receipt rec = None) \<and>
    (\<not> running r \<longrightarrow> (\<exists>t rc. rr_terminal r = Some t \<and> rr_receipt r = Some rc \<and>
        rec_terminal rec = Some t \<and> rec_receipt rec = Some rc \<and>
        validate_settled_run (rr_run_id r) t rc (rr_last_sequence r) = Ok () \<and>
        rec_status rec = (case t of Completed _ \<Rightarrow> StCompleted | Cancelled \<Rightarrow> StCancelled | Failed _ \<Rightarrow> StFailed)))"
  using assms by (auto simp: recover_run_def running_def res_simps split: if_splits)

lemma recovered_runs_Ok:
  assumes "collect_ok (map recover_run rs) = Ok runs"
  shows "map rec_record runs = rs \<and> (\<forall>rec\<in>set runs. recover_run (rec_record rec) = Ok rec)"
proof -
  from assms have eq: "map recover_run rs = map Ok runs" by (simp add: collect_ok_Ok)
  then have len: "length rs = length runs" by (metis length_map)
  have "recover_run (rs ! i) = Ok (runs ! i)" if "i < length runs" for i
    using eq that len by (metis nth_map)
  moreover from this have "rec_record (runs ! i) = rs ! i" if "i < length runs" for i
    using that recover_run_Ok by blast
  ultimately show ?thesis
    using len by (auto intro!: nth_equalityI simp: in_set_conv_nth)
qed

section \<open>The files\<close>

lemma settle_first_Some:
  assumes "settle_first run t rc q rs = Some rs'"
  shows "map rr_run_id rs' = map rr_run_id rs \<and>
    (\<exists>a r b. rs = a @ r # b \<and> rr_run_id r = run \<and> run \<notin> rr_run_id ` set a \<and>
       rs' = a @ r\<lparr>rr_status := ''settled'', rr_last_sequence := q, rr_terminal := Some t,
                  rr_receipt := Some rc\<rparr> # b)"
  using assms
proof (induction rs arbitrary: rs')
  case (Cons r rs)
  show ?case
  proof (cases "rr_run_id r = run")
    case True
    with Cons.prems show ?thesis by (intro conjI exI [of _ "[]"]) auto
  next
    case False
    with Cons.prems obtain rs1 where rs1: "settle_first run t rc q rs = Some rs1" "rs' = r # rs1" by auto
    from Cons.IH [OF rs1(1)] obtain a r' b where
      h: "map rr_run_id rs1 = map rr_run_id rs" "rs = a @ r' # b" "rr_run_id r' = run"
        "run \<notin> rr_run_id ` set a" "rs1 = a @ r'\<lparr>rr_status := ''settled'', rr_last_sequence := q,
           rr_terminal := Some t, rr_receipt := Some rc\<rparr> # b"
      by blast
    then show ?thesis using False rs1(2) by (intro conjI exI [of _ "r # a"]) auto
  qed
qed simp

text \<open>The index names every run at most once.\<close>

definition index_distinct :: "disk \<Rightarrow> host_files \<Rightarrow> bool" where
  "index_distinct dk fs \<longleftrightarrow>
     (\<forall>rs. read_index dk fs = Ok rs \<longrightarrow> distinct (map rr_run_id rs))"

lemma kept_of_distinct: "kept_of rs rs' \<Longrightarrow> distinct (map rr_run_id rs) \<Longrightarrow> distinct (map rr_run_id rs')"
proof -
  assume "kept_of rs rs'" and d: "distinct (map rr_run_id rs)"
  then obtain N where "rs' = nths rs N" by (auto simp: kept_of_def subseq_conv_nths)
  with d show ?thesis by (simp add: nths_map [symmetric] distinct_nthsI)
qed

lemma write_index_distinct:
  assumes "codec_ok dk" and "dk_read_error dk RunIndexFile = None"
    and "write_index dk fs rs = (r, fs')" and "index_distinct dk fs" and "distinct (map rr_run_id rs)"
  shows "index_distinct dk fs'"
  using write_index_cases [OF assms(3)] assms kept_of_distinct
  by (auto simp: index_distinct_def read_index_after_write)

inductive index_step :: "disk \<Rightarrow> host_files \<Rightarrow> host_files \<Rightarrow> bool" for dk :: disk where
  index_started: "record_run_started dk run stream session agent fp cwd kind fs = (r, fs') \<Longrightarrow> index_step dk fs fs'"
| index_settled: "record_run_settled dk run t rc q fs = (r, fs') \<Longrightarrow> index_step dk fs fs'"
| index_removed: "remove_run dk run fs = (r, fs') \<Longrightarrow> index_step dk fs fs'"

inductive_cases index_stepE: "index_step dk fs fs'"

definition fresh_root :: "disk \<Rightarrow> host_files \<Rightarrow> bool" where
  "fresh_root dk fs \<longleftrightarrow> codec_ok dk \<and> dk_read_error dk RunIndexFile = None \<and> hf_runs fs = None"

definition index_inv :: "disk \<Rightarrow> host_files \<Rightarrow> bool" where
  "index_inv dk fs \<longleftrightarrow> codec_ok dk \<and> dk_read_error dk RunIndexFile = None \<and> index_distinct dk fs \<and>
     (\<exists>rs. read_index dk fs = Ok rs \<and> length rs \<le> max_run_index_entries)"

lemma write_index_inv:
  assumes "index_inv dk fs" and "write_index dk fs rs = (r, fs')" and "distinct (map rr_run_id rs)"
  shows "index_inv dk fs'"
  using write_index_cases [OF assms(2)] assms(1) write_index_distinct [OF _ _ assms(2) _ assms(3)]
  by (auto simp: index_inv_def read_index_after_write)

lemma distinct_filter_run: "distinct (map rr_run_id rs) \<Longrightarrow> distinct (map rr_run_id (filter P rs))"
  by (simp add: distinct_map_filter)

lemma index_step_inv: "index_inv dk fs \<Longrightarrow> index_step dk fs fs' \<Longrightarrow> index_inv dk fs'"
proof (elim index_stepE)
  fix run stream session agent fp cwd kind r
  assume inv: "index_inv dk fs" and st: "record_run_started dk run stream session agent fp cwd kind fs = (r, fs')"
  obtain rs where rs: "read_index dk fs = Ok rs" "distinct (map rr_run_id rs)"
    using inv by (auto simp: index_inv_def index_distinct_def)
  have "distinct (map rr_run_id (filter (\<lambda>x. rr_run_id x \<noteq> run) rs @ [x]))" if "rr_run_id x = run" for x
    using rs(2) that by (auto simp: distinct_filter_run)
  then show "index_inv dk fs'"
    using st rs by (auto simp: record_run_started_def upsert_record_def distinct_filter_run
      dest!: write_index_inv [OF inv])
next
  fix run t rc q r
  assume inv: "index_inv dk fs" and st: "record_run_settled dk run t rc q fs = (r, fs')"
  show "index_inv dk fs'"
  proof (cases "\<exists>rs rs'. read_index dk fs = Ok rs \<and> settle_first run t rc q rs = Some rs' \<and>
      write_index dk fs rs' = (r, fs')")
    case True
    then obtain rs rs' where h: "read_index dk fs = Ok rs" "settle_first run t rc q rs = Some rs'"
      "write_index dk fs rs' = (r, fs')" by blast
    have "distinct (map rr_run_id rs')"
      using inv h settle_first_Some [OF h(2)] by (auto simp: index_inv_def index_distinct_def)
    then show ?thesis using write_index_inv [OF inv h(3)] by simp
  next
    case False
    with inv st show ?thesis
      by (auto simp: record_run_settled_def res_simps split: sum.splits)
  qed
next
  fix run r
  assume inv: "index_inv dk fs" and st: "remove_run dk run fs = (r, fs')"
  obtain rs where rs: "read_index dk fs = Ok rs" "distinct (map rr_run_id rs)"
    using inv by (auto simp: index_inv_def index_distinct_def)
  then show "index_inv dk fs'"
    using st by (auto simp: remove_run_def distinct_filter_run dest!: write_index_inv [OF inv])
qed

interpretation index_hist: invariant_system "fresh_root dk" "index_step dk" "index_inv dk" for dk
proof unfold_locales
  show "index_inv dk fs" if "fresh_root dk fs" for fs
    using that by (simp add: fresh_root_def index_inv_def index_distinct_def read_index_def
        size_check_def read_file_def)
qed (rule index_step_inv)

lemma filter_eq_last:
  assumes "subseq kept (xs @ [y])" and "\<not> list_ex P xs" and "P y" and "y \<in> set kept"
  shows "filter P kept = [y]"
proof -
  have "subseq (filter P kept) (filter P (xs @ [y]))" using assms(1) by (rule subseq_filter)
  also have "filter P (xs @ [y]) = [y]" using assms(2,3) by (auto simp: list_ex_iff filter_empty_conv)
  finally have "subseq (filter P kept) [y]" .
  then have "length (filter P kept) \<le> 1" "set (filter P kept) \<subseteq> {y}"
    using list_emb_length [of _ "filter P kept" "[y]"] list_emb_set [of _ "filter P kept" "[y]"] by auto
  moreover have "y \<in> set (filter P kept)" using assms(3,4) by simp
  ultimately show ?thesis by (cases "filter P kept") (auto simp: le_Suc_eq)
qed

lemma kept_last_run:
  assumes "kept_of (filter (\<lambda>x. rr_run_id x \<noteq> run) rs @ [r]) kept" and "running r" and "rr_run_id r = run"
  shows "filter (\<lambda>x. rr_run_id x = run) kept = [r]"
proof (rule filter_eq_last)
  show "subseq kept (filter (\<lambda>x. rr_run_id x \<noteq> run) rs @ [r])" using assms(1) by (simp add: kept_of_def)
  have "r \<in> set (filter running kept)" using assms(1,2) by (simp add: kept_of_def)
  then show "r \<in> set kept" by simp
qed (use assms in \<open>auto simp: list_ex_iff\<close>)

lemma digit_not_whitespace: "is_ascii_digit c \<Longrightarrow> \<not> is_whitespace c"
  by (auto simp: is_ascii_digit_def is_whitespace_def)

lemma trim_show [simp]: "trim (show_nat n) = show_nat n"
proof -
  have "\<forall>c\<in>set (show_nat n). \<not> is_whitespace c"
    using show_nat_digits [of n] digit_not_whitespace by (auto simp: list_all_iff)
  moreover have drop: "dropWhile is_whitespace xs = xs" if "\<forall>c\<in>set xs. \<not> is_whitespace c" for xs
    using that by (cases xs) auto
  ultimately show ?thesis using drop [of "show_nat n"] drop [of "rev (show_nat n)"] by (simp add: trim_def)
qed

section \<open>Journal directories\<close>

lemma sanitize_safe_id:
  assumes "list_all is_safe_char i" and "i \<noteq> []" and "length i \<le> 128"
  shows "sanitize i = i"
proof -
  have "map (\<lambda>c. if is_safe_char c then c else CHR ''_'') i = i"
    using assms(1) by (induction i) auto
  then show ?thesis using assms(2,3) by (simp add: sanitize_def)
qed

lemma sanitize_shape: "sanitize i \<noteq> [] \<and> length (sanitize i) \<le> 128 \<and> list_all is_safe_char (sanitize i)"
  by (auto simp: sanitize_def Let_def list_all_iff is_safe_char_def is_ascii_alphabetic_def
      dest!: in_set_takeD split: if_splits)

section \<open>Samples\<close>

text \<open>A disk whose codec keeps the records in a one-element encoding chosen by the test.\<close>

definition sample_record :: "string \<Rightarrow> run_record" where
  "sample_record i = \<lparr>rr_run_id = i, rr_stream_id = ''s'', rr_session_id = ''c'', rr_agent_handle_id = ''a'',
     rr_status = ''running'', rr_last_sequence = 0, rr_input_kind = ''prompt'', rr_fingerprint = ''f'',
     rr_cwd = None, rr_terminal = None, rr_receipt = None\<rparr>"

definition sample_receipt :: run_receipt where
  "sample_receipt = \<lparr>rc_turn_id = ''r'', rc_outcome = ''cancelled'', rc_delivery = Some ''delivered'',
     rc_delivery_error = None, rc_final_answer = None, rc_final_message_id = None,
     rc_prompt_tokens = from_u64 0, rc_completion_tokens = from_u64 0, rc_llm_calls = from_u64 0,
     rc_compaction_count = from_u64 0, rc_last_event_sequence = from_u64 7, rc_elapsed_ms = from_u64 0\<rparr>"

definition sample_settled :: run_record where
  "sample_settled = (sample_record ''r'')\<lparr>rr_status := ''settled'', rr_last_sequence := 7,
     rr_terminal := Some Cancelled, rr_receipt := Some sample_receipt\<rparr>"

definition sample_encode :: "run_record list \<Rightarrow> string + u8 list" where
  "sample_encode rs =
     (if rs = [] then Ok [0] else if rs = [sample_record ''r''] then Ok [1]
      else if rs = [sample_settled] then Ok [2] else Err ''unsupported'')"

definition sample_decode :: "u8 list \<Rightarrow> string + run_record list" where
  "sample_decode b =
     (if b = [0] then Ok [] else if b = [1] then Ok [sample_record ''r'']
      else if b = [2] then Ok [sample_settled] else Err ''unsupported'')"

definition sample_session :: session_record where
  "sample_session = \<lparr>sr_session_id = ''c'', sr_agent_handle_id = ''a'', sr_fingerprint = ''f'',
     sr_cwd = Utf8Path ''/''\<rparr>"

definition sample_disk :: disk where
  "sample_disk = \<lparr>dk_base64 = \<lambda>_. None, dk_read_error = \<lambda>_. None, dk_write_error = \<lambda>_. None,
     dk_metadata_ok = \<lambda>_. True, dk_encode_runs = sample_encode, dk_decode_runs = sample_decode,
     dk_encode_sessions = \<lambda>rs. if rs = [sample_session] then Ok [3] else Err ''unsupported'',
     dk_decode_sessions = \<lambda>b. if b = [3] then Ok [sample_session] else Err ''unsupported'',
     dk_parse_text = \<lambda>_. ''invalid digit''\<rparr>"

definition sample_root :: host_files where
  "sample_root = \<lparr>hf_generation = None, hf_runs = None, hf_sessions = None\<rparr>"

lemma sample_codec: "codec_ok sample_disk"
  by (auto simp: codec_ok_def sample_disk_def sample_encode_def sample_decode_def split: if_splits)

lemma sample_settled_valid: "validate_settled_run ''r'' Cancelled sample_receipt 7 = Ok ()"
  by (simp add: validate_settled_run_def validate_receipt_def sample_receipt_def blank_Cons
      is_whitespace_def terminal_matches_def)

lemma sample_settled_neq [simp]: "sample_settled \<noteq> sample_record ''r''" "sample_record ''r'' \<noteq> sample_settled"
  by (simp_all add: sample_settled_def sample_record_def)

lemma sample_started:
  "record_run_started sample_disk ''r'' ''s'' ''c'' ''a'' ''f'' None ''prompt'' sample_root =
     (Ok (), sample_root\<lparr>hf_runs := Some [1]\<rparr>)"
  unfolding record_run_started_def upsert_record_def
  by (simp add: read_index_def size_check_def read_file_def sample_root_def sample_disk_def write_index_def
      prune_entries.simps max_run_index_entries_def encode_runs_def)
    (simp add: sample_encode_def sample_record_def prune_bytes.simps max_run_index_bytes_def)

lemma sample_settles:
  "record_run_settled sample_disk ''r'' Cancelled sample_receipt 7 (sample_root\<lparr>hf_runs := Some [1]\<rparr>) =
     (Ok (), sample_root\<lparr>hf_runs := Some [2]\<rparr>)"
proof -
  have "settle_first ''r'' Cancelled sample_receipt 7 [sample_record ''r''] = Some [sample_settled]"
    by (simp add: sample_settled_def) (simp add: sample_record_def)
  then show ?thesis
    by (simp add: record_run_settled_def sample_settled_valid read_index_def size_check_def read_file_def
        sample_root_def write_index_def prune_entries.simps max_run_index_entries_def encode_runs_def
        prune_bytes.simps max_run_index_bytes_def sample_disk_def sample_decode_def sample_encode_def)
qed

lemma settled_recovery:
  assumes "index_inv dk fs" and "record_run_settled dk run t rc q fs = (Ok (), fs')"
    and "load_recovered_runs dk fs' = Ok runs" and "rec \<in> set runs" and "rr_run_id (rec_record rec) = run"
  shows "rr_terminal (rec_record rec) = Some t \<and> rr_receipt (rec_record rec) = Some rc \<and>
    rr_last_sequence (rec_record rec) = q \<and> rec_terminal rec = Some t \<and> rec_receipt rec = Some rc \<and> rec_last_sequence rec = q \<and>
    rec_status rec = (case t of Completed _ \<Rightarrow> StCompleted | Cancelled \<Rightarrow> StCancelled | Failed _ \<Rightarrow> StFailed) \<and>
    (\<forall>n. is_ok (validate_recovered_journal rec n) \<longleftrightarrow> n = q)"
proof -
  from assms(1) have dk: "codec_ok dk" "dk_read_error dk RunIndexFile = None" by (simp_all add: index_inv_def)
  obtain rs rs' where valid: "validate_settled_run run t rc q = Ok ()" and rs: "read_index dk fs = Ok rs"
    and rs': "settle_first run t rc q rs = Some rs'" and w: "write_index dk fs rs' = (Ok (), fs')"
    using assms(2) by (auto simp: record_run_settled_def res_simps split: sum.splits)
  have "distinct (map rr_run_id rs)" using assms(1) rs by (auto simp: index_inv_def index_distinct_def)
  then have dist: "distinct (map rr_run_id rs')" using settle_first_Some [OF rs'] by simp
  from write_index_cases [OF w] obtain kept b where
    k: "kept_of rs' kept" "length kept \<le> max_run_index_entries" "dk_encode_runs dk kept = Ok b"
      "length b \<le> max_run_index_bytes" "fs' = fs\<lparr>hf_runs := Some b\<rparr>" by auto
  have runs: "map rec_record runs = kept" "\<forall>rec\<in>set runs. recover_run (rec_record rec) = Ok rec"
    using recovered_runs_Ok assms(3) load_after_write [OF dk k(3,4,2)] k(5) by auto
  have "rec_record rec \<in> set kept" using assms(4) runs(1) by auto
  then have mem: "rec_record rec \<in> set rs'" using k(1) by (auto simp: kept_of_def dest: list_emb_set)
  obtain a r b' where r: "rs' = a @ r\<lparr>rr_status := ''settled'', rr_last_sequence := q, rr_terminal := Some t,
      rr_receipt := Some rc\<rparr> # b'" "rr_run_id r = run"
    using settle_first_Some [OF rs'] by blast
  have "rec_record rec = r\<lparr>rr_status := ''settled'', rr_last_sequence := q, rr_terminal := Some t,
      rr_receipt := Some rc\<rparr>"
    using mem dist r assms(5) by (force simp: image_iff)
  moreover have "recover_run (rec_record rec) = Ok rec" using runs(2) assms(4) by simp
  ultimately show ?thesis
    using recover_run_Ok [of "rec_record rec" rec] valid r(2)
    by (auto simp: running_def validate_recovered_journal_def Let_def is_ok_and_then res_simps
        split: run_terminal.splits)
qed

lemma sample_started_inv: "index_inv sample_disk (sample_root\<lparr>hf_runs := Some [1]\<rparr>)"
proof -
  have "fresh_root sample_disk sample_root"
    by (simp add: fresh_root_def sample_codec sample_root_def) (simp add: sample_disk_def)
  then show ?thesis
    by (rule index_hist.reach_inv [OF reach_step [OF reach_init]]) (rule index_started [OF sample_started])
qed

lemma sample_settled_id:
  "rr_run_id sample_settled = ''r''" "rr_status sample_settled = ''settled''"
  "rr_terminal sample_settled = Some Cancelled" "rr_receipt sample_settled = Some sample_receipt"
  "rr_last_sequence sample_settled = 7"
  by (simp_all add: sample_settled_def sample_record_def)

lemma sample_settled_loads:
  "load_recovered_runs sample_disk (sample_root\<lparr>hf_runs := Some [2]\<rparr>) =
     Ok [\<lparr>rec_record = sample_settled, rec_status = StCancelled, rec_last_sequence = 7,
          rec_terminal = Some Cancelled, rec_receipt = Some sample_receipt\<rparr>]"
  by (simp add: load_recovered_runs_def size_check_def read_file_def sample_disk_def sample_decode_def
      max_run_index_bytes_def max_run_index_entries_def recover_run_def sample_settled_id sample_settled_valid)

section \<open>Properties\<close>

text \<open>C30: The run index stays bounded and never forgets a running run. In every history of starts,
  settlements and removals from a fresh state root it names each run at most once and holds at most
  1024 records; and a write that succeeds stores, within the byte bound, a sub-sequence of the given
  records in their order that contains every running one, while a write that fails leaves the
  files as they were.\<close>

theorem run_index_is_bounded:
  assumes "reach (fresh_root dk) (index_step dk) fs"
  shows "(\<exists>rs. read_index dk fs = Ok rs \<and> length rs \<le> max_run_index_entries \<and> distinct (map rr_run_id rs)) \<and>
    (case write_index dk fs records of
       (Inl _, fs') \<Rightarrow> fs' = fs
     | (Inr _, fs') \<Rightarrow> (\<exists>kept b. read_index dk fs' = Ok kept \<and> subseq kept records \<and>
          filter running kept = filter running records \<and> length kept \<le> max_run_index_entries \<and>
          hf_runs fs' = Some b \<and> length b \<le> max_run_index_bytes))"
proof -
  note inv = index_hist.reach_inv [OF assms]
  then have dk: "codec_ok dk" "dk_read_error dk RunIndexFile = None" by (simp_all add: index_inv_def)
  obtain r fs' where w: "write_index dk fs records = (r, fs')" by fastforce
  show ?thesis
    using inv write_index_cases [OF w] w
    by (auto simp: index_inv_def index_distinct_def kept_of_def read_index_after_write [OF dk])
qed

theorem run_index_is_bounded_witness:
  "\<exists>rs. read_index sample_disk (sample_root\<lparr>hf_runs := Some [1]\<rparr>) = Ok rs \<and> distinct (map rr_run_id rs)"
proof -
  have "fresh_root sample_disk sample_root"
    by (simp add: fresh_root_def sample_codec sample_root_def) (simp add: sample_disk_def)
  then have "reach (fresh_root sample_disk) (index_step sample_disk) (sample_root\<lparr>hf_runs := Some [1]\<rparr>)"
    by (rule reach_step [OF reach_init]) (rule index_started [OF sample_started])
  from run_index_is_bounded [OF this, of "[]"] show ?thesis by auto
qed

text \<open>Every opening of the state root mints a new, strictly larger generation. A successful
  advance persists exactly the generation it returns, which is one more than the persisted one (one
  on a fresh root), so the next advance returns its successor; a failed advance changes no file.\<close>

theorem generation_strictly_increases:
  "case advance_generation dk fs of
     (Inl _, fs') \<Rightarrow> fs' = fs
   | (Inr g, fs') \<Rightarrow>
       0 < g \<and> hf_generation fs' = Some (show_nat (unat g)) \<and>
       (hf_generation fs = None \<longrightarrow> g = 1) \<and>
       (\<forall>p :: u64. hf_generation fs = Some (show_nat (unat p)) \<longrightarrow> unat g = Suc (unat p)) \<and>
       (case fst (advance_generation dk fs') of
          Inl _ \<Rightarrow> unat g = u64_max
        | Inr g' \<Rightarrow> unat g' = Suc (unat g))"
proof (cases "fst (advance_generation dk fs)")
  case (Inl e)
  then show ?thesis by (auto simp: advance_generation_def split: sum.splits option.splits)
next
  case (Inr g)
  let ?inner = "((case hf_generation fs of None \<Rightarrow> Ok 0
       | Some text \<Rightarrow> map_err (\<lambda>e. ReactOther (''generation file is corrupt: '' @ e))
           (map_ok word_of_nat (ok_or (parse_unsigned u64_max (trim text)) (dk_parse_text dk (trim text))))) :: react_error + u64)"
  from Inr have rd: "dk_read_error dk GenerationFile = None" and wr: "dk_write_error dk GenerationFile = None"
    by (auto simp: advance_generation_def read_file_def split: sum.splits option.splits)
  obtain previous where prev: "?inner = Ok previous"
    using Inr rd by (cases ?inner) (auto simp: advance_generation_def read_file_def)
  have ca: "checked_add previous 1 = Some g"
    using Inr rd wr prev by (auto simp: advance_generation_def read_file_def res_simps split: sum.splits)
  have adv: "advance_generation dk fs = (Ok g, fs\<lparr>hf_generation := Some (show_nat (unat g))\<rparr>)"
    using rd wr prev ca by (simp add: advance_generation_def read_file_def)
  have g: "unat g = Suc (unat previous)" using ca by (simp add: checked_add_Some)
  have later: "case fst (advance_generation dk (fs\<lparr>hf_generation := Some (show_nat (unat g))\<rparr>)) of
      Inl _ \<Rightarrow> unat g = u64_max | Inr g' \<Rightarrow> unat g' = Suc (unat g)"
    using rd wr unat_le_u64_max [of g]
    by (cases "checked_add g (1 :: u64)")
      (auto simp: advance_generation_def read_file_def u64_max_def dest: checked_addD)
  have "unat g = Suc (unat p)" if "hf_generation fs = Some (show_nat (unat p))" for p :: u64
    using prev g that by (simp add: trim_show)
  moreover have "g = 1" if "hf_generation fs = None"
    using prev g that by (simp add: word_unat_eq_iff)
  moreover have "0 < g" using g by (simp add: word_less_nat_alt)
  ultimately show ?thesis unfolding adv using later by simp
qed

theorem generation_strictly_increases_witness:
  "fst (advance_generation sample_disk (sample_root\<lparr>hf_generation := Some (show_nat 6)\<rparr>)) = Ok 7 \<and>
   fst (advance_generation sample_disk (sample_root\<lparr>hf_generation := Some (show_nat 7)\<rparr>)) = Ok 8"
proof -
  have six: "unat (6 :: u64) = 6" "unat (7 :: u64) = 7" by simp_all
  obtain g fs' where adv: "advance_generation sample_disk (sample_root\<lparr>hf_generation := Some (show_nat 6)\<rparr>) = (Ok g, fs')"
    using trim_show [of 6] parse_unsigned_show [of 6 u64_max]
    by (simp add: advance_generation_def sample_disk_def read_file_def u64_max_def checked_add_def)
  from generation_strictly_increases [where dk = sample_disk and fs = "sample_root\<lparr>hf_generation := Some (show_nat 6)\<rparr>"] adv
  have g: "unat g = 7" using six by (auto dest: spec [where x = "6 :: u64"])
  then have "g = 7" by (simp add: word_unat_eq_iff)
  obtain g' fs'' where adv': "advance_generation sample_disk (sample_root\<lparr>hf_generation := Some (show_nat 7)\<rparr>) = (Ok g', fs'')"
    using trim_show [of 7] parse_unsigned_show [of 7 u64_max]
    by (simp add: advance_generation_def sample_disk_def read_file_def u64_max_def checked_add_def)
  from generation_strictly_increases [where dk = sample_disk and fs = "sample_root\<lparr>hf_generation := Some (show_nat 7)\<rparr>"] adv'
  have "unat g' = 8" using six by (auto dest: spec [where x = "7 :: u64"])
  then have "g' = 8" by (simp add: word_unat_eq_iff)
  with adv adv' \<open>g = 7\<close> show ?thesis by simp
qed

text \<open>The session index is a bounded map: recording a session makes it load with exactly the
  recorded agent, fingerprint and directory, leaves every other session as it loaded before, and a
  failed recording changes no file.\<close>

theorem session_index_round_trip:
  assumes "codec_ok dk" and "dk_read_error dk SessionIndexFile = None"
    and "\<exists>x. load_session dk fs other = Ok x"
  shows "case record_session dk session agent fp cwd fs of
      (Inl _, fs') \<Rightarrow> fs' = fs
    | (Inr _, fs') \<Rightarrow>
        load_session dk fs' session =
          Ok (Some \<lparr>sr_session_id = session, sr_agent_handle_id = agent, sr_fingerprint = fp, sr_cwd = cwd\<rparr>) \<and>
        (other \<noteq> session \<longrightarrow> load_session dk fs' other = load_session dk fs other)"
proof (cases "fst (record_session dk session agent fp cwd fs)")
  case (Inl e)
  then show ?thesis by (auto simp: record_session_def split: sum.splits option.splits)
next
  case (Inr u)
  let ?new = "\<lparr>sr_session_id = session, sr_agent_handle_id = agent, sr_fingerprint = fp, sr_cwd = cwd\<rparr>"
  obtain records b where
    records: "(case hf_sessions fs of None \<Rightarrow> Ok [] | Some b \<Rightarrow>
        map_err (\<lambda>e. ReactOther (''session index is corrupt: '' @ e)) (dk_decode_sessions dk b)) = Ok records"
    and room: "max_session_index_entries \<le> length records \<longrightarrow> list_ex (\<lambda>r. sr_session_id r = session) records"
    and enc: "dk_encode_sessions dk (filter (\<lambda>r. sr_session_id r \<noteq> session) records @ [?new]) = Ok b"
    and len: "length b \<le> max_session_index_bytes"
    and res: "record_session dk session agent fp cwd fs = (Ok (), fs\<lparr>hf_sessions := Some b\<rparr>)"
    using Inr assms(2)
    by (auto simp: record_session_def res_simps Let_def read_file_def not_less split: sum.splits option.splits)
  have old: "load_session dk fs other = Ok (List.find (\<lambda>r. sr_session_id r = other) records)"
    and few: "length records \<le> max_session_index_entries"
    using assms(2,3) records
    by (auto simp: load_session_def read_file_def size_check_def res_simps not_less split: option.splits)
  have "length (filter (\<lambda>r. sr_session_id r \<noteq> session) records) < max_session_index_entries"
  proof (cases "list_ex (\<lambda>r. sr_session_id r = session) records")
    case True
    then obtain x where "x \<in> set records" "\<not> (sr_session_id x \<noteq> session)" by (auto simp: list_ex_iff)
    from length_filter_less [OF this(1), of "\<lambda>r. sr_session_id r \<noteq> session"] this(2) few show ?thesis by simp
  next
    case False
    with room have "length records < max_session_index_entries" by auto
    then show ?thesis using length_filter_le [of "\<lambda>r. sr_session_id r \<noteq> session" records] by linarith
  qed
  then have load: "load_session dk (fs\<lparr>hf_sessions := Some b\<rparr>) i =
      Ok (List.find (\<lambda>r. sr_session_id r = i) (filter (\<lambda>r. sr_session_id r \<noteq> session) records @ [?new]))" for i
    using assms(1,2) enc len
    by (simp add: load_session_def size_check_def read_file_def codec_ok_def)
  have "List.find (\<lambda>r. sr_session_id r = session) (filter (\<lambda>r. sr_session_id r \<noteq> session) records @ [?new]) = Some ?new"
    by (induction records) auto
  moreover have "List.find (\<lambda>r. sr_session_id r = other) (filter (\<lambda>r. sr_session_id r \<noteq> session) records @ [?new]) =
      List.find (\<lambda>r. sr_session_id r = other) records" if "other \<noteq> session"
    using that by (induction records) auto
  ultimately show ?thesis unfolding res by (simp add: load old)
qed

theorem session_index_round_trip_witness:
  "\<exists>fs. record_session sample_disk ''c'' ''a'' ''f'' (Utf8Path ''/'') sample_root = (Ok (), fs) \<and>
     load_session sample_disk fs ''c'' = Ok (Some sample_session)"
proof -
  have "dk_read_error sample_disk SessionIndexFile = None" by (simp add: sample_disk_def)
  moreover have "\<exists>x. load_session sample_disk sample_root ''d'' = Ok x"
    by (simp add: load_session_def size_check_def read_file_def sample_disk_def sample_root_def)
  moreover have "record_session sample_disk ''c'' ''a'' ''f'' (Utf8Path ''/'') sample_root =
      (Ok (), sample_root\<lparr>hf_sessions := Some [3]\<rparr>)"
    by (simp add: record_session_def is_absolute_utf8_path_def size_check_def read_file_def sample_root_def
        max_session_index_entries_def max_session_index_bytes_def sample_disk_def sample_session_def)
  ultimately show ?thesis
    using session_index_round_trip [OF sample_codec, of sample_root "''d''" "''c''" "''a''" "''f''" "Utf8Path ''/''"]
    by (simp add: sample_session_def)
qed

text \<open>Every run has its own journal directory. The directory name of any id is non-empty, at most
  128 characters and free of separators, and ids that are themselves such names, which the minted
  ones are, keep their own name, so two different ones never share a directory.\<close>

theorem journal_directories_are_separate:
  "sanitize i \<noteq> [] \<and> length (sanitize i) \<le> 128 \<and> list_all is_safe_char (sanitize i) \<and>
   (list_all is_safe_char i \<and> i \<noteq> [] \<and> length i \<le> 128 \<longrightarrow> sanitize i = i)"
  using sanitize_shape sanitize_safe_id by blast

theorem journal_directories_are_separate_witness: "sanitize ''run_1'' = ''run_1'' \<and> sanitize ''run/1'' = ''run_1''"
proof -
  have "sanitize ''run_1'' = ''run_1''"
    using journal_directories_are_separate [of "''run_1''"]
    by (simp add: is_safe_char_def is_ascii_alphabetic_def is_ascii_digit_def)
  moreover have "sanitize ''run/1'' = ''run_1''"
    by (simp add: sanitize_def is_safe_char_def is_ascii_alphabetic_def is_ascii_digit_def)
  ultimately show ?thesis by simp
qed

text \<open>The Host never refuses its own settlement. When the terminal and the receipt are projected
  from one framework receipt whose status names its outcome, and whose observed sequence is the
  committed one or, for an undelivered turn, beyond it, then the settled-run check accepts the pair.\<close>

theorem projected_settlement_validates:
  assumes "terminal_of names r = Ok t" and "receipt_wire names r = Ok rc"
    and "tr_status r = (case tr_outcome r of TurnCompleted \<Rightarrow> ''completed'' | TurnCancelled \<Rightarrow> ''cancelled''
           | TurnFailed _ \<Rightarrow> ''failed'')"
    and "committed \<le> tr_last_event_sequence r"
    and "tr_delivery r = Delivered \<Longrightarrow> committed = tr_last_event_sequence r"
  shows "validate_settled_run (tr_turn_id r) t rc committed = Ok ()"
proof -
  have t: "validate_terminal t = Ok ()" "t = (case tr_outcome r of
            TurnCompleted \<Rightarrow> Completed (tr_final_answer r) | TurnCancelled \<Rightarrow> Cancelled
          | TurnFailed f \<Rightarrow> Failed (failure_wire names f))"
    using assms(1) by (auto simp: terminal_of_def res_simps Let_def)
  have rc: "validate_receipt rc = Ok ()" "rc_turn_id rc = tr_turn_id r" "rc_outcome rc = tr_status r"
      "rc_final_answer rc = tr_final_answer r" "rc_delivery rc = Some (delivery_name (tr_delivery r))"
      "rc_last_event_sequence rc = from_u64 (tr_last_event_sequence r)"
    using assms(2) by (auto simp: receipt_wire_def res_simps Let_def)
  have "tr_status r \<noteq> ''completed'' \<longrightarrow> tr_final_answer r = None"
    using rc(1,3,4) by (auto simp: validate_receipt_def split: if_splits)
  then have "terminal_matches t rc"
    using t(2) rc assms(3) by (auto simp: terminal_matches_def split: turn_outcome.splits)
  moreover have "delivery_name (tr_delivery r) = ''delivered'' \<longleftrightarrow> tr_delivery r = Delivered"
    by (cases "tr_delivery r") (simp_all add: delivery_name_def)
  ultimately show ?thesis
    using t(1) rc assms(4,5) by (auto simp: validate_settled_run_def res_simps not_less)
qed

definition sample_turn :: turn_receipt where
  "sample_turn = \<lparr>tr_turn_id = ''r'', tr_outcome = TurnFailed sample_failure, tr_status = ''failed'',
     tr_delivery = DeliveryClosed, tr_final_answer = None, tr_final_message_id = None,
     tr_prompt_tokens = 1, tr_completion_tokens = 2, tr_llm_calls = 1, tr_compaction_count = 0,
     tr_last_event_sequence = 7, tr_elapsed_millis = 12\<rparr>"

theorem projected_settlement_validates_witness:
  "\<exists>t rc. terminal_of sample_names sample_turn = Ok t \<and> receipt_wire sample_names sample_turn = Ok rc \<and>
     validate_settled_run ''r'' t rc 5 = Ok ()"
proof -
  have "\<exists>t. terminal_of sample_names sample_turn = Ok t"
    by (simp add: terminal_of_def sample_turn_def Let_def failure_wire_valid)
  then obtain t where t: "terminal_of sample_names sample_turn = Ok t" by blast
  have "\<exists>rc. receipt_wire sample_names sample_turn = Ok rc"
    by (simp add: receipt_wire_def sample_turn_def Let_def validate_receipt_def blank_Cons
        is_whitespace_def delivery_name_def)
  then obtain rc where rc: "receipt_wire sample_names sample_turn = Ok rc" by blast
  have "validate_settled_run (tr_turn_id sample_turn) t rc 5 = Ok ()"
    by (rule projected_settlement_validates [OF t rc]) (simp_all add: sample_turn_def word_le_nat_alt)
  with t rc show ?thesis by (simp add: sample_turn_def)
qed

section \<open>A settlement that does not survive its own write\<close>

text \<open>
  The byte bound prunes settled records from the front, and the record being settled is one of them:
  when no older settled record is left and its own encoding is above the bound, the settlement is
  reported successful although the run is no longer in the index.
\<close>

lemma oversized_settlement_is_pruned:
  assumes "validate_settled_run run t rc q = Ok ()" and "read_index dk fs = Ok [r]" and "rr_run_id r = run"
    and "dk_encode_runs dk [r\<lparr>rr_status := ''settled'', rr_last_sequence := q, rr_terminal := Some t,
           rr_receipt := Some rc\<rparr>] = Ok b" and "max_run_index_bytes < length b"
    and "dk_encode_runs dk [] = Ok b0" and "length b0 \<le> max_run_index_bytes"
    and "dk_write_error dk RunIndexFile = None"
  shows "record_run_settled dk run t rc q fs = (Ok (), fs\<lparr>hf_runs := Some b0\<rparr>)"
  using assms
  by (simp add: record_run_settled_def write_index_def prune_entries.simps max_run_index_entries_def
      encode_runs_def prune_bytes.simps)

end
