(* ===== verification/Run_Survival.thy ===== *)
theory Run_Survival
  imports Run_Recovery
begin

text \<open>
  What becomes of the record of one run in the bounded index (\<open>core_profile/persistence.rs\<close>): exactly
  which records a write prunes and when, what a successful start, settlement or removal of a run leaves
  in the file, and what later writes about other runs do to it.
\<close>

section \<open>What a write prunes\<close>

text \<open>The records with the settled ones among the first \<open>n\<close> removed, the order in which pruning goes.\<close>

definition index_from :: "nat \<Rightarrow> run_record list \<Rightarrow> run_record list" where
  "index_from n rs = filter running (take n rs) @ drop n rs"

definition over_bound :: "disk \<Rightarrow> run_record list \<Rightarrow> bool" where
  "over_bound dk rs \<longleftrightarrow>
     max_run_index_entries < length rs \<or>
     (\<exists>b. dk_encode_runs dk rs = Ok b \<and> max_run_index_bytes < length b)"

text \<open>A settled record is removed only when the index is over a bound although every older settled
  record is gone.\<close>

definition pruned_to :: "disk \<Rightarrow> run_record list \<Rightarrow> nat \<Rightarrow> bool" where
  "pruned_to dk rs n \<longleftrightarrow>
     n \<le> length rs \<and> (\<forall>i<n. \<not> running (rs ! i) \<longrightarrow> over_bound dk (index_from i rs))"

lemma index_from_0 [simp]: "index_from 0 rs = rs"
  by (simp add: index_from_def)

lemma index_from_running: "n < length rs \<Longrightarrow> running (rs ! n) \<Longrightarrow> index_from (Suc n) rs = index_from n rs"
  by (simp add: index_from_def take_Suc_conv_app_nth Cons_nth_drop_Suc [symmetric])

lemma index_from_settled:
  assumes "n < length rs" and "\<not> running (rs ! n)"
  shows "remove_first_settled (index_from n rs) = Some (index_from (Suc n) rs)"
proof -
  have front: "remove_first_settled (filter running xs @ r # ys) = Some (filter running xs @ ys)"
    if "\<not> running r" for xs r ys
    using that by (induction xs) (auto simp: running_def)
  have "drop n rs = rs ! n # drop (Suc n) rs" using assms(1) by (simp add: Cons_nth_drop_Suc)
  then show ?thesis
    using assms front by (simp add: index_from_def take_Suc_conv_app_nth)
qed

lemma remove_first_settled_from:
  assumes "remove_first_settled (index_from n rs) = Some ks" and "n \<le> length rs"
  shows "\<exists>m. n \<le> m \<and> m < length rs \<and> \<not> running (rs ! m) \<and> (\<forall>i. n \<le> i \<and> i < m \<longrightarrow> running (rs ! i)) \<and>
    index_from m rs = index_from n rs \<and> ks = index_from (Suc m) rs"
  using assms(2,1)
proof (induction rule: inc_induct)
  case base
  have "list_all running (index_from (length rs) rs)" by (simp add: index_from_def list_all_iff)
  with base show ?case by (simp add: remove_first_settled_None [THEN iffD2])
next
  case (step n)
  show ?case
  proof (cases "running (rs ! n)")
    case False
    with step(2,4) index_from_settled [OF step(2) False] show ?thesis by (intro exI [of _ n]) auto
  next
    case True
    note same = index_from_running [OF step(2) True]
    with step obtain m where m: "Suc n \<le> m" "m < length rs" "\<not> running (rs ! m)"
      "\<forall>i. Suc n \<le> i \<and> i < m \<longrightarrow> running (rs ! i)" "index_from m rs = index_from (Suc n) rs"
      "ks = index_from (Suc m) rs" by auto
    have "running (rs ! i)" if "n \<le> i \<and> i < m" for i
      using that True m(4) by (cases "i = n") auto
    with m same show ?thesis by (intro exI [of _ m]) auto
  qed
qed

lemma pruned_to_step:
  assumes "pruned_to dk rs n" and "remove_first_settled (index_from n rs) = Some ks"
    and "over_bound dk (index_from n rs)"
  shows "\<exists>m. pruned_to dk rs m \<and> ks = index_from m rs"
proof -
  have n: "n \<le> length rs" using assms(1) by (simp add: pruned_to_def)
  from remove_first_settled_from [OF assms(2) n] obtain m where m: "n \<le> m" "m < length rs"
    "\<forall>i. n \<le> i \<and> i < m \<longrightarrow> running (rs ! i)" "index_from m rs = index_from n rs" "ks = index_from (Suc m) rs"
    by blast
  have "over_bound dk (index_from i rs)" if "i < Suc m" "\<not> running (rs ! i)" for i
  proof (cases "i < n")
    case True
    with assms(1) that show ?thesis by (simp add: pruned_to_def)
  next
    case False
    with that m(3) have "i = m" by (metis less_SucE not_less)
    with assms(3) m(4) show ?thesis by simp
  qed
  with m(2) have "pruned_to dk rs (Suc m)" by (simp add: pruned_to_def)
  with m(5) show ?thesis by blast
qed

lemma prune_entries_from:
  "pruned_to dk rs n \<Longrightarrow> \<exists>m. pruned_to dk rs m \<and> prune_entries (index_from n rs) = index_from m rs"
proof (induction "length (index_from n rs)" arbitrary: n rule: less_induct)
  case less
  let ?ks = "index_from n rs"
  show ?case
  proof (cases "max_run_index_entries < length ?ks \<and> remove_first_settled ?ks \<noteq> None")
    case False
    then show ?thesis using less.prems by (subst prune_entries.simps) auto
  next
    case True
    then obtain ks where ks: "remove_first_settled ?ks = Some ks" by auto
    have "over_bound dk ?ks" using True by (simp add: over_bound_def)
    from pruned_to_step [OF less.prems ks this] obtain m where m: "pruned_to dk rs m" "ks = index_from m rs"
      by blast
    have "length (index_from m rs) < length ?ks" using remove_first_settled_length [OF ks] m(2) by simp
    from less.hyps [OF this m(1)] show ?thesis
      using True ks m(2) by (subst prune_entries.simps) auto
  qed
qed

lemma prune_bytes_from:
  assumes "pruned_to dk rs n" and "dk_encode_runs dk (index_from n rs) = Ok bytes"
    and "prune_bytes dk (index_from n rs) bytes = Ok out"
  shows "\<exists>m. pruned_to dk rs m \<and> dk_encode_runs dk (index_from m rs) = Ok out \<and>
    length (index_from m rs) \<le> length (index_from n rs)"
  using assms
proof (induction "length (index_from n rs)" arbitrary: n bytes rule: less_induct)
  case less
  let ?ks = "index_from n rs"
  show ?case
  proof (cases "length bytes \<le> max_run_index_bytes")
    case True
    with less.prems show ?thesis by (subst (asm) prune_bytes.simps) auto
  next
    case False
    with less.prems(3) obtain ks b where ks: "remove_first_settled ?ks = Some ks" "dk_encode_runs dk ks = Ok b"
      "prune_bytes dk ks b = Ok out"
      by (subst (asm) prune_bytes.simps) (auto simp: encode_runs_def res_simps split: option.splits)
    have "over_bound dk ?ks" using False less.prems(2) by (simp add: over_bound_def)
    from pruned_to_step [OF less.prems(1) ks(1) this] obtain m where m: "pruned_to dk rs m" "ks = index_from m rs"
      by blast
    have shorter: "length (index_from m rs) < length ?ks"
      using remove_first_settled_length [OF ks(1)] m(2) by simp
    from less.hyps [OF this m(1)] ks m(2) obtain k where
      "pruned_to dk rs k" "dk_encode_runs dk (index_from k rs) = Ok out"
      "length (index_from k rs) \<le> length (index_from m rs)" by auto
    with shorter show ?thesis by (intro exI [of _ k]) simp
  qed
qed

section \<open>What a write leaves\<close>

text \<open>The index file is the encoding of these records, within the bounds.\<close>

definition index_holds :: "disk \<Rightarrow> host_files \<Rightarrow> run_record list \<Rightarrow> bool" where
  "index_holds dk fs rs \<longleftrightarrow>
     length rs \<le> max_run_index_entries \<and>
     (\<exists>b. hf_runs fs = Some b \<and> dk_encode_runs dk rs = Ok b \<and> length b \<le> max_run_index_bytes)"

lemma index_from_kept: "kept_of rs (index_from n rs)"
proof -
  have "subseq (filter running (take n rs) @ drop n rs) (take n rs @ drop n rs)"
    by (rule list_emb_append_mono) simp_all
  then have "subseq (index_from n rs) rs" by (simp add: index_from_def)
  moreover have "filter running (index_from n rs) = filter running (take n rs @ drop n rs)"
    unfolding index_from_def by (simp del: append_take_drop_id)
  ultimately show ?thesis by (simp add: kept_of_def)
qed

lemma write_index_from:
  assumes "write_index dk fs rs = (Ok (), fs')"
  shows "\<exists>n. pruned_to dk rs n \<and> index_holds dk fs' (index_from n rs)"
proof -
  obtain b where small: "length (prune_entries rs) \<le> max_run_index_entries"
    and b: "and_then (encode_runs dk (prune_entries rs)) (prune_bytes dk (prune_entries rs)) = Ok b"
    and fs': "fs' = fs\<lparr>hf_runs := Some b\<rparr>"
    using assms by (auto simp: write_index_def Let_def res_simps not_less split: sum.splits option.splits)
  have "pruned_to dk rs 0" by (simp add: pruned_to_def)
  from prune_entries_from [OF this] obtain k where k: "pruned_to dk rs k" "prune_entries rs = index_from k rs"
    by auto
  from b obtain b0 where b0: "dk_encode_runs dk (index_from k rs) = Ok b0" "prune_bytes dk (index_from k rs) b0 = Ok b"
    by (auto simp: encode_runs_def res_simps k(2))
  from prune_bytes_from [OF k(1) b0] obtain m where m: "pruned_to dk rs m" "dk_encode_runs dk (index_from m rs) = Ok b"
    "length (index_from m rs) \<le> length (index_from k rs)"
    by blast
  from prune_bytes_Ok [OF b0(2,1)] have "length b \<le> max_run_index_bytes" by auto
  moreover have "length (index_from m rs) \<le> max_run_index_entries" using m(3) small k(2) by simp
  ultimately show ?thesis using m fs' by (auto simp: index_holds_def)
qed

section \<open>The three operations\<close>

definition settled_record :: "run_terminal \<Rightarrow> run_receipt \<Rightarrow> u64 \<Rightarrow> run_record \<Rightarrow> run_record" where
  "settled_record t rc q r =
     r\<lparr>rr_status := ''settled'', rr_last_sequence := q, rr_terminal := Some t, rr_receipt := Some rc\<rparr>"

text \<open>
  A settlement of a run: the first record of the run, at position \<open>i\<close>, is replaced by its settled form,
  and that form is in the file, unless the index was over a bound with it when every older settled record
  was gone. Then the settlement itself is pruned, although the write succeeds.
\<close>

definition settlement_in_index ::
  "disk \<Rightarrow> string \<Rightarrow> run_terminal \<Rightarrow> run_receipt \<Rightarrow> u64 \<Rightarrow> host_files \<Rightarrow> host_files \<Rightarrow> bool" where
  "settlement_in_index dk run t rc q fs fs' \<longleftrightarrow>
     (\<exists>rs i kept. read_index dk fs = Ok rs \<and> i < length rs \<and> rr_run_id (rs ! i) = run \<and>
        (\<forall>j<i. rr_run_id (rs ! j) \<noteq> run) \<and> index_holds dk fs' kept \<and>
        (settled_record t rc q (rs ! i) \<in> set kept \<or>
         over_bound dk (index_from i (rs[i := settled_record t rc q (rs ! i)]))))"

lemma settle_first_at:
  assumes "settle_first run t rc q rs = Some rs'"
  shows "\<exists>i<length rs. rr_run_id (rs ! i) = run \<and> (\<forall>j<i. rr_run_id (rs ! j) \<noteq> run) \<and>
    rs' = rs[i := settled_record t rc q (rs ! i)]"
proof -
  from settle_first_Some [OF assms] obtain a r b where "rs = a @ r # b" "rr_run_id r = run"
    "run \<notin> rr_run_id ` set a" "rs' = a @ settled_record t rc q r # b"
    by (auto simp: settled_record_def)
  moreover from this(3) have "rr_run_id (a ! j) \<noteq> run" if "j < length a" for j
    using that nth_mem [OF that] by blast
  ultimately show ?thesis by (intro exI [of _ "length a"]) (auto simp: nth_append)
qed

lemma index_from_keeps: "n \<le> i \<Longrightarrow> i < length rs \<Longrightarrow> rs ! i \<in> set (index_from n rs)"
  by (auto simp: index_from_def in_set_conv_nth intro!: exI [of _ "i - n"])

lemma record_run_settled_in_index:
  assumes "record_run_settled dk run t rc q fs = (Ok (), fs')"
  shows "settlement_in_index dk run t rc q fs fs'"
proof -
  obtain rs rs' where rs: "read_index dk fs = Ok rs" and rs': "settle_first run t rc q rs = Some rs'"
    and w: "write_index dk fs rs' = (Ok (), fs')"
    using assms by (auto simp: record_run_settled_def res_simps split: sum.splits)
  from settle_first_at [OF rs'] obtain i where i: "i < length rs" "rr_run_id (rs ! i) = run"
    "\<forall>j<i. rr_run_id (rs ! j) \<noteq> run" "rs' = rs[i := settled_record t rc q (rs ! i)]" by blast
  from write_index_from [OF w] obtain n where n: "pruned_to dk rs' n" "index_holds dk fs' (index_from n rs')"
    by blast
  have "settled_record t rc q (rs ! i) \<in> set (index_from n rs') \<or> over_bound dk (index_from i rs')"
  proof (cases "n \<le> i")
    case True
    then show ?thesis using index_from_keeps [of n i rs'] i by simp
  next
    case False
    have "\<not> running (rs' ! i)" using i by (simp add: settled_record_def running_def)
    with False n(1) show ?thesis by (simp add: pruned_to_def)
  qed
  then show ?thesis using rs i n(2) unfolding settlement_in_index_def by blast
qed

text \<open>After a successful start the file holds exactly one record of the run, the running one.\<close>

definition started_record ::
  "string \<Rightarrow> string \<Rightarrow> string \<Rightarrow> string \<Rightarrow> string \<Rightarrow> wire_path option \<Rightarrow> string \<Rightarrow> run_record" where
  "started_record run stream session agent fp cwd kind =
     \<lparr>rr_run_id = run, rr_stream_id = stream, rr_session_id = session, rr_agent_handle_id = agent,
      rr_status = ''running'', rr_last_sequence = 0, rr_input_kind = kind, rr_fingerprint = fp,
      rr_cwd = cwd, rr_terminal = None, rr_receipt = None\<rparr>"

lemma record_run_started_in_index:
  assumes "record_run_started dk run stream session agent fp cwd kind fs = (Ok (), fs')"
  shows "\<exists>kept. index_holds dk fs' kept \<and>
    filter (\<lambda>x. rr_run_id x = run) kept = [started_record run stream session agent fp cwd kind]"
proof -
  let ?r = "started_record run stream session agent fp cwd kind"
  obtain rs where "write_index dk fs (filter (\<lambda>x. rr_run_id x \<noteq> run) rs @ [?r]) = (Ok (), fs')"
    using assms by (auto simp: record_run_started_def upsert_record_def started_record_def split: sum.splits)
  from write_index_from [OF this] obtain n where
    "index_holds dk fs' (index_from n (filter (\<lambda>x. rr_run_id x \<noteq> run) rs @ [?r]))" by blast
  moreover have "filter (\<lambda>x. rr_run_id x = run) (index_from n (filter (\<lambda>x. rr_run_id x \<noteq> run) rs @ [?r])) = [?r]"
    by (rule kept_last_run [OF index_from_kept]) (simp_all add: running_def started_record_def)
  ultimately show ?thesis by blast
qed

text \<open>After a successful removal the file holds no record of the run.\<close>

definition record_absent :: "disk \<Rightarrow> string \<Rightarrow> host_files \<Rightarrow> bool" where
  "record_absent dk run fs \<longleftrightarrow> (\<exists>kept. index_holds dk fs kept \<and> run \<notin> rr_run_id ` set kept)"

lemma remove_run_cases:
  "remove_run dk run fs = (r, fs') \<Longrightarrow>
     r = Ok () \<and> record_absent dk run fs' \<or> (\<exists>e. r = Err e) \<and> fs' = fs"
proof (cases r)
  case (Inl e)
  assume "remove_run dk run fs = (r, fs')"
  with Inl show ?thesis by (auto simp: remove_run_def split: sum.splits dest: write_index_cases)
next
  case (Inr u)
  assume "remove_run dk run fs = (r, fs')"
  with Inr obtain rs where "write_index dk fs (filter (\<lambda>x. rr_run_id x \<noteq> run) rs) = (Ok (), fs')"
    by (auto simp: remove_run_def split: sum.splits)
  from write_index_from [OF this] obtain n where
    n: "index_holds dk fs' (index_from n (filter (\<lambda>x. rr_run_id x \<noteq> run) rs))" by blast
  have "set (index_from n xs) \<subseteq> set xs" for xs
    using index_from_kept [of xs n] by (auto simp: kept_of_def dest: list_emb_set)
  then have "run \<notin> rr_run_id ` set (index_from n (filter (\<lambda>x. rr_run_id x \<noteq> run) rs))" by fastforce
  with n Inr show ?thesis by (auto simp: record_absent_def)
qed

lemma record_run_started_failed:
  "record_run_started dk run stream session agent fp cwd kind fs = (Err e, fs') \<Longrightarrow> fs' = fs"
  by (auto simp: record_run_started_def upsert_record_def split: sum.splits dest: write_index_cases)

section \<open>Later writes about other runs\<close>

text \<open>Each of them may fail in its own way.\<close>

inductive other_run_write :: "disk \<Rightarrow> string \<Rightarrow> host_files \<Rightarrow> host_files \<Rightarrow> bool" for dk :: disk and run :: string
where
  other_started: "other \<noteq> run \<Longrightarrow>
    record_run_started (dk\<lparr>dk_write_error := w\<rparr>) other stream session agent fp cwd kind fs = (r, fs') \<Longrightarrow>
    other_run_write dk run fs fs'"
| other_settled: "other \<noteq> run \<Longrightarrow>
    record_run_settled (dk\<lparr>dk_write_error := w\<rparr>) other t rc q fs = (r, fs') \<Longrightarrow> other_run_write dk run fs fs'"
| other_removed: "other \<noteq> run \<Longrightarrow> remove_run (dk\<lparr>dk_write_error := w\<rparr>) other fs = (r, fs') \<Longrightarrow>
    other_run_write dk run fs fs'"

lemma read_index_held:
  assumes "codec_ok dk" and "dk_read_error dk RunIndexFile = None" and "index_holds dk fs rs"
  shows "read_index dk fs = Ok rs" "load_recovered_runs dk fs = collect_ok (map recover_run rs)"
  using assms
  by (auto simp: index_holds_def codec_ok_def)
    (simp_all add: read_index_def load_recovered_runs_def size_check_def read_file_def)

lemma write_error_parts [simp]:
  "read_index (dk\<lparr>dk_write_error := w\<rparr>) fs = read_index dk fs"
  "index_holds (dk\<lparr>dk_write_error := w\<rparr>) fs rs = index_holds dk fs rs"
  by (simp_all add: read_index_def size_check_def read_file_def index_holds_def cong: option.case_cong)

text \<open>What is left of the records of a run: all of them while they run, else at most what was there.\<close>

definition run_kept :: "string \<Rightarrow> run_record list \<Rightarrow> run_record list \<Rightarrow> bool" where
  "run_kept run rs rs' \<longleftrightarrow>
     subseq (filter (\<lambda>x. rr_run_id x = run) rs') (filter (\<lambda>x. rr_run_id x = run) rs) \<and>
     filter (\<lambda>x. rr_run_id x = run \<and> running x) rs' = filter (\<lambda>x. rr_run_id x = run \<and> running x) rs"

lemma running_of_run:
  "filter (\<lambda>x. rr_run_id x = run \<and> running x) rs = filter running (filter (\<lambda>x. rr_run_id x = run) rs)"
  "filter (\<lambda>x. rr_run_id x = run \<and> running x) rs = filter (\<lambda>x. rr_run_id x = run) (filter running rs)"
  by (induction rs) auto

lemma run_kept_refl: "run_kept run rs rs"
  by (simp add: run_kept_def)

lemma run_kept_trans: "run_kept run a b \<Longrightarrow> run_kept run b c \<Longrightarrow> run_kept run a c"
  by (auto simp: run_kept_def intro: subseq_order.trans)

lemma kept_of_run_kept: "kept_of rs rs' \<Longrightarrow> run_kept run rs rs'"
proof -
  assume k: "kept_of rs rs'"
  then show ?thesis
    unfolding run_kept_def running_of_run(2) by (simp add: kept_of_def subseq_filter del: filter_filter)
qed

lemma write_index_run_kept:
  assumes "write_index (dk\<lparr>dk_write_error := w\<rparr>) fs rs = (r, fs')" and "index_holds dk fs kept"
    and "filter (\<lambda>x. rr_run_id x = run) rs = filter (\<lambda>x. rr_run_id x = run) kept"
  shows "\<exists>kept'. index_holds dk fs' kept' \<and> run_kept run kept kept'"
proof (cases r)
  case (Inl e)
  with write_index_cases [OF assms(1)] assms(2) show ?thesis by (auto intro: run_kept_refl)
next
  case (Inr u)
  with assms(1) write_index_from [of "dk\<lparr>dk_write_error := w\<rparr>" fs rs fs'] obtain n where
    n: "index_holds dk fs' (index_from n rs)" by auto
  have "run_kept run kept rs"
    using assms(3) unfolding run_kept_def running_of_run(1) by (simp del: filter_filter)
  with n show ?thesis using run_kept_trans kept_of_run_kept [OF index_from_kept] by blast
qed

lemma filter_of_other: "other \<noteq> run \<Longrightarrow>
    filter (\<lambda>x. rr_run_id x \<noteq> other \<and> rr_run_id x = run) rs = filter (\<lambda>x. rr_run_id x = run) rs"
  by (induction rs) auto

lemma other_run_write_kept:
  assumes dk: "codec_ok dk" "dk_read_error dk RunIndexFile = None"
    and "index_holds dk fs kept" and "other_run_write dk run fs fs'"
  shows "\<exists>kept'. index_holds dk fs' kept' \<and> run_kept run kept kept'"
  using assms(4,3)
proof cases
  case (other_started other w stream session agent fp cwd kind r)
  then show ?thesis
    using read_index_held(1) [OF dk assms(3)]
    by (auto simp: record_run_started_def upsert_record_def filter_of_other
        dest: write_index_run_kept [OF _ assms(3), of w _ r fs' run])
next
  case (other_settled other w t rc q r)
  show ?thesis
  proof (cases "\<exists>rs'. settle_first other t rc q kept = Some rs' \<and> write_index (dk\<lparr>dk_write_error := w\<rparr>) fs rs' = (r, fs')")
    case True
    then obtain rs' where rs': "settle_first other t rc q kept = Some rs'"
      "write_index (dk\<lparr>dk_write_error := w\<rparr>) fs rs' = (r, fs')" by blast
    have "filter (\<lambda>x. rr_run_id x = run) rs' = filter (\<lambda>x. rr_run_id x = run) kept"
      using settle_first_Some [OF rs'(1)] other_settled(1) by auto
    from write_index_run_kept [OF rs'(2) assms(3) this] show ?thesis .
  next
    case False
    then have "fs' = fs"
      using other_settled(2) read_index_held(1) [OF dk assms(3)]
      by (auto simp: record_run_settled_def res_simps split: sum.splits)
    with assms(3) show ?thesis by (auto intro: run_kept_refl)
  qed
next
  case (other_removed other w r)
  then show ?thesis
    using read_index_held(1) [OF dk assms(3)]
    by (auto simp: remove_run_def filter_of_other dest: write_index_run_kept [OF _ assms(3), of w _ r fs' run])
qed

lemma other_run_writes_kept:
  assumes dk: "codec_ok dk" "dk_read_error dk RunIndexFile = None"
    and "(other_run_write dk run)\<^sup>*\<^sup>* fs fs'" and "index_holds dk fs kept"
  shows "\<exists>kept'. index_holds dk fs' kept' \<and> run_kept run kept kept'"
  using assms(3)
proof (induction rule: rtranclp_induct)
  case base
  with assms(4) show ?case by (auto intro: run_kept_refl)
next
  case (step u v)
  then show ?case using other_run_write_kept [OF dk _ step(2)] run_kept_trans by blast
qed

lemma recovered_of_run:
  assumes "codec_ok dk" and "dk_read_error dk RunIndexFile = None" and "index_holds dk fs kept"
    and "load_recovered_runs dk fs = Ok runs"
  shows "map rec_record (filter (\<lambda>rec. rr_run_id (rec_record rec) = run) runs) =
      filter (\<lambda>x. rr_run_id x = run) kept \<and>
    (\<forall>rec\<in>set runs. recover_run (rec_record rec) = Ok rec)"
proof -
  have "collect_ok (map recover_run kept) = Ok runs"
    using read_index_held(2) [OF assms(1-3)] assms(4) by simp
  from recovered_runs_Ok [OF this]
  have "map rec_record runs = kept" "\<forall>rec\<in>set runs. recover_run (rec_record rec) = Ok rec" by simp_all
  then show ?thesis by (auto simp: filter_map o_def)
qed

text \<open>A settlement leaves its record as the only one of the run, or none.\<close>

lemma settled_record_alone:
  assumes inv: "index_inv dk fs" and ok: "record_run_settled dk run t rc q fs = (Ok (), fs')"
  shows "validate_settled_run run t rc q = Ok () \<and>
    (\<exists>kept r. index_holds dk fs' kept \<and> rr_run_id r = run \<and>
       subseq (filter (\<lambda>x. rr_run_id x = run) kept) [settled_record t rc q r])"
proof -
  obtain rs rs' where valid: "validate_settled_run run t rc q = Ok ()" and rs: "read_index dk fs = Ok rs"
    and rs': "settle_first run t rc q rs = Some rs'" and w: "write_index dk fs rs' = (Ok (), fs')"
    using ok by (auto simp: record_run_settled_def res_simps split: sum.splits)
  have dist: "distinct (map rr_run_id rs)" using inv rs by (auto simp: index_inv_def index_distinct_def)
  from settle_first_Some [OF rs'] obtain a r b where r: "rs = a @ r # b" "rr_run_id r = run"
    "rs' = a @ settled_record t rc q r # b" by (auto simp: settled_record_def)
  have "run \<notin> rr_run_id ` set a" "run \<notin> rr_run_id ` set b"
    using dist unfolding r(1) r(2) [symmetric] by auto
  then have "filter (\<lambda>x. rr_run_id x = run) a = []" "filter (\<lambda>x. rr_run_id x = run) b = []"
    by (auto simp: filter_empty_conv image_iff)
  then have only: "filter (\<lambda>x. rr_run_id x = run) rs' = [settled_record t rc q r]"
    using r(2,3) by (simp add: settled_record_def)
  from write_index_from [OF w] obtain n where n: "index_holds dk fs' (index_from n rs')" by blast
  have "subseq (filter (\<lambda>x. rr_run_id x = run) (index_from n rs')) (filter (\<lambda>x. rr_run_id x = run) rs')"
    using index_from_kept [of rs' n] by (simp add: kept_of_def subseq_filter)
  with only n r(2) valid show ?thesis by auto
qed

lemma subseq_single: "subseq xs [y] \<Longrightarrow> xs = [] \<or> xs = [y]"
  by (cases xs) (auto split: if_splits)

text \<open>A run is recovered with this settlement, and with a journal that ends at its sequence only.\<close>

definition recovered_settled :: "run_terminal \<Rightarrow> run_receipt \<Rightarrow> u64 \<Rightarrow> recovered_run \<Rightarrow> bool" where
  "recovered_settled t rc q rec \<longleftrightarrow>
     rec_terminal rec = Some t \<and> rec_receipt rec = Some rc \<and> rec_last_sequence rec = q \<and>
     rec_status rec = (case t of Completed _ \<Rightarrow> StCompleted | Cancelled \<Rightarrow> StCancelled | Failed _ \<Rightarrow> StFailed) \<and>
     (\<forall>n. is_ok (validate_recovered_journal rec n) \<longleftrightarrow> n = q)"

lemma recover_settled_record:
  assumes "recover_run (settled_record t rc q r) = Ok rec" and "validate_settled_run (rr_run_id r) t rc q = Ok ()"
  shows "recovered_settled t rc q rec"
  using recover_run_Ok [OF assms(1)] assms(2)
  by (auto simp: recovered_settled_def settled_record_def running_def validate_recovered_journal_def Let_def
      is_ok_and_then res_simps split: run_terminal.splits)

section \<open>Properties\<close>

text \<open>C32: A run that was started and then neither settled nor removed comes back from a restart exactly
  once, as interrupted, with no terminal and no receipt, under the ids it was started with; it is never
  reported completed. This holds whatever starts, settlements and removals of other runs, failing or not,
  came in between: their writes prune settled records only.\<close>

theorem started_run_recovers_interrupted:
  assumes "codec_ok dk" and "dk_read_error dk RunIndexFile = None"
    and "record_run_started dk run stream session agent fp cwd kind fs = (Ok (), fs')"
    and "(other_run_write dk run)\<^sup>*\<^sup>* fs' fs''" and "load_recovered_runs dk fs'' = Ok runs"
  shows "\<exists>rec. filter (\<lambda>rec. rr_run_id (rec_record rec) = run) runs = [rec] \<and>
    rec_status rec = StInterrupted \<and> rec_terminal rec = None \<and> rec_receipt rec = None \<and>
    rr_stream_id (rec_record rec) = stream \<and> rr_session_id (rec_record rec) = session \<and>
    rr_agent_handle_id (rec_record rec) = agent"
proof -
  let ?r = "started_record run stream session agent fp cwd kind"
  from record_run_started_in_index [OF assms(3)] obtain kept where
    k: "index_holds dk fs' kept" "filter (\<lambda>x. rr_run_id x = run) kept = [?r]" by blast
  from other_run_writes_kept [OF assms(1,2,4) k(1)] obtain kept' where
    k': "index_holds dk fs'' kept'" "run_kept run kept kept'" by blast
  have "filter (\<lambda>x. rr_run_id x = run \<and> running x) kept = [?r]"
    unfolding running_of_run(1) k(2) by (simp add: running_def started_record_def)
  then have "?r \<in> set (filter (\<lambda>x. rr_run_id x = run \<and> running x) kept')"
    using k'(2) by (simp add: run_kept_def)
  then have "filter (\<lambda>x. rr_run_id x = run) kept' \<noteq> []" by (auto simp: filter_empty_conv)
  then have only: "filter (\<lambda>x. rr_run_id x = run) kept' = [?r]"
    using k'(2) k(2) subseq_single by (fastforce simp: run_kept_def)
  note found = recovered_of_run [OF assms(1,2) k'(1) assms(5), of run]
  with only obtain rec where rec: "filter (\<lambda>rec. rr_run_id (rec_record rec) = run) runs = [rec]" "rec_record rec = ?r"
    by (auto simp: map_eq_Cons_conv)
  then have "rec \<in> set runs" by (metis list.set_intros(1) filter_is_subset subsetD)
  then have "recover_run ?r = Ok rec" using found rec(2) by force
  from recover_run_Ok [OF this] show ?thesis
    using rec by (intro exI [of _ rec]) (simp add: running_def started_record_def)
qed

theorem started_run_recovers_interrupted_witness:
  "\<exists>rec. load_recovered_runs sample_disk (sample_root\<lparr>hf_runs := Some [1]\<rparr>) = Ok [rec] \<and>
     rec_status rec = StInterrupted"
proof -
  let ?rec = "\<lparr>rec_record = sample_record ''r'', rec_status = StInterrupted, rec_last_sequence = 0,
     rec_terminal = None, rec_receipt = None\<rparr>"
  have load: "load_recovered_runs sample_disk (sample_root\<lparr>hf_runs := Some [1]\<rparr>) = Ok [?rec]"
    by (simp add: load_recovered_runs_def size_check_def read_file_def sample_disk_def sample_decode_def
        max_run_index_bytes_def max_run_index_entries_def recover_run_def)
      (simp add: sample_record_def)
  have "dk_read_error sample_disk RunIndexFile = None" by (simp add: sample_disk_def)
  from started_run_recovers_interrupted [OF sample_codec this sample_started rtranclp.rtrancl_refl load] load
  show ?thesis by auto
qed

text \<open>C33: A settled run whose record the bounded index has not pruned comes back verbatim after a restart,
  whatever writes about other runs followed the settlement: it is recovered at most once, and then with
  the recorded terminal, receipt and sequence, the terminal's status, and a recovery that accepts a journal
  exactly when it ends at the recorded sequence. The write of the settlement itself loses the record only
  if, with every older settled record gone, the index was still over a bound with it.\<close>

theorem settled_run_recovers_verbatim:
  assumes "index_inv dk fs" and "record_run_settled dk run t rc q fs = (Ok (), fs')"
    and "(other_run_write dk run)\<^sup>*\<^sup>* fs' fs''" and "load_recovered_runs dk fs'' = Ok runs"
  shows "settlement_in_index dk run t rc q fs fs' \<and>
    (case filter (\<lambda>rec. rr_run_id (rec_record rec) = run) runs of
       [] \<Rightarrow> (\<exists>kept. index_holds dk fs'' kept \<and> run \<notin> rr_run_id ` set kept)
     | rec # others \<Rightarrow> others = [] \<and> recovered_settled t rc q rec)"
proof -
  have dk: "codec_ok dk" "dk_read_error dk RunIndexFile = None" using assms(1) by (simp_all add: index_inv_def)
  from settled_record_alone [OF assms(1,2)] obtain kept r where
    valid: "validate_settled_run run t rc q = Ok ()" and k: "index_holds dk fs' kept" "rr_run_id r = run"
      "subseq (filter (\<lambda>x. rr_run_id x = run) kept) [settled_record t rc q r]" by blast
  from other_run_writes_kept [OF dk assms(3) k(1)] obtain kept' where
    k': "index_holds dk fs'' kept'" "run_kept run kept kept'" by blast
  then have "subseq (filter (\<lambda>x. rr_run_id x = run) kept') [settled_record t rc q r]"
    using k(3) by (auto simp: run_kept_def intro: subseq_order.trans)
  note one = subseq_single [OF this]
  note found = recovered_of_run [OF dk k'(1) assms(4), of run]
  have "case filter (\<lambda>rec. rr_run_id (rec_record rec) = run) runs of
      [] \<Rightarrow> (\<exists>kept. index_holds dk fs'' kept \<and> run \<notin> rr_run_id ` set kept)
    | rec # others \<Rightarrow> others = [] \<and> recovered_settled t rc q rec"
  proof (cases "filter (\<lambda>rec. rr_run_id (rec_record rec) = run) runs")
    case Nil
    with found have "filter (\<lambda>x. rr_run_id x = run) kept' = []" by simp
    with Nil k'(1) show ?thesis by (auto simp: filter_empty_conv)
  next
    case (Cons rec others)
    with found one have rec: "others = []" "rec_record rec = settled_record t rc q r" by auto
    have "rec \<in> set runs" using Cons by (metis list.set_intros(1) filter_is_subset subsetD)
    with found rec(2) have "recover_run (settled_record t rc q r) = Ok rec" by force
    from recover_settled_record [OF this] valid k(2) rec(1) Cons show ?thesis by simp
  qed
  with record_run_settled_in_index [OF assms(2)] show ?thesis by blast
qed

theorem settled_run_recovers_verbatim_witness:
  "\<exists>rec. load_recovered_runs sample_disk (sample_root\<lparr>hf_runs := Some [2]\<rparr>) = Ok [rec] \<and>
     rec_terminal rec = Some Cancelled \<and> is_ok (validate_recovered_journal rec 7)"
  using settled_run_recovers_verbatim [OF sample_started_inv sample_settles rtranclp.rtrancl_refl sample_settled_loads]
    sample_settled_loads
  by (simp add: sample_settled_id recovered_settled_def)

end
