(* ===== verification/Replay.thy ===== *)
theory Replay
  imports Delivery_Live
begin

text \<open>
  Bounded journal replay (\<open>bounded_replay\<close> and \<open>nonzero\<close> of
  \<open>echo-sdk-host/src/core_profile/events.rs\<close>). The journal is a parameter: its retention floor and
  its reads; the serialized length of an envelope is another.
\<close>

record replay_journal =
  rj_retained_floor :: u64
  rj_replay_after :: "u64 \<Rightarrow> usize \<Rightarrow> string + journal_record list"

record replay_env =
  re_base64 :: base64_decoder
  re_envelope_len :: "event_envelope \<Rightarrow> string + nat"
  re_react_text :: "react_error \<Rightarrow> string"

definition nonzero :: "u64 \<Rightarrow> react_error + wire_non_zero_u64" where
  "nonzero value =
     map_err (\<lambda>_. ReactOther ''gap sequence must be a positive integer'')
       (wire_non_zero_try_from (show_nat (unat (max value 1))))"

definition replay_operation :: string where "replay_operation = ''_echo_agent/run/replay''"

definition replay_violation :: "string \<Rightarrow> sdk_err" where
  "replay_violation text = sdk_error SerializationViolation text Never replay_operation"

text \<open>The loop over the records, with the page, its bytes and its last sequence so far.\<close>

fun replay_loop ::
  "replay_env \<Rightarrow> usize \<Rightarrow> usize \<Rightarrow> event_envelope list \<Rightarrow> usize \<Rightarrow> u64 \<Rightarrow> journal_record list
     \<Rightarrow> sdk_err + event_envelope list \<times> u64" where
  "replay_loop env max_replay_bytes max_events evs bytes last_sequence [] = Ok (evs, last_sequence)"
| "replay_loop env max_replay_bytes max_events evs bytes last_sequence (r # rs) =
     (let e = jr_event r in
      if jr_sequence r \<noteq> fe_sequence e then
        Err (replay_violation
          (''journal sequence '' @ show_nat (unat (jr_sequence r)) @
           '' does not align with envelope sequence '' @ show_nat (unat (fe_sequence e))))
      else
        and_then (map_err (\<lambda>err. replay_violation (err_message err)) (wire_envelope (re_base64 env) e)) (\<lambda>wire.
        and_then (map_err replay_violation (re_envelope_len env wire)) (\<lambda>len.
        and_then (ok_or (checked_add bytes (word_of_nat len))
                    (sdk_error PayloadTooLarge ''replay byte accounting overflow'' Never replay_operation)) (\<lambda>next_bytes.
          if max_events \<le> len_usize evs \<or> max_replay_bytes < next_bytes then
            (if evs = [] then
               Err (sdk_error PayloadTooLarge ''first replay event exceeds max_replay_bytes'' Never replay_operation)
             else Ok (evs, last_sequence))
          else replay_loop env max_replay_bytes max_events (evs @ [wire]) next_bytes (fe_sequence e) rs))))"

definition replay_gap :: "u64 \<Rightarrow> u64 \<Rightarrow> react_error + event_gap option" where
  "replay_gap floor after_sequence =
     (let next_sequence = saturating_add after_sequence 1 in
      if after_sequence < - 1 \<and> next_sequence < floor then
        (let missing_to = max (saturating_sub floor 1) next_sequence in
         and_then (nonzero next_sequence) (\<lambda>from.
         and_then (nonzero missing_to) (\<lambda>to.
         and_then (nonzero missing_to) (\<lambda>watermark.
           Ok (Some \<lparr>gap_from = from, gap_to = to,
                     gap_reason = ''replay below the journal retention floor'',
                     gap_watermark = watermark\<rparr>)))))
      else Ok None)"

definition bounded_replay ::
  "replay_env \<Rightarrow> usize \<Rightarrow> replay_journal \<Rightarrow> wire_handle \<Rightarrow> u64 \<Rightarrow> usize \<Rightarrow> sdk_err + replay_response" where
  "bounded_replay env max_replay_bytes journal stream after_sequence max_events =
     and_then (map_err (\<lambda>e. sdk_error SerializationViolation (re_react_text env e) Never
                              ''_echo_agent/run/replay'')
                 (replay_gap (rj_retained_floor journal) after_sequence)) (\<lambda>gap.
     let read_from = (case gap of None \<Rightarrow> after_sequence
                      | Some g \<Rightarrow> option_default (nz_to_u64 (gap_to g)) 0) in
     and_then (map_err (\<lambda>t. sdk_error ReplayUnavailable (''journal replay failed: '' @ t) AfterDelay
                              replay_operation)
                 (rj_replay_after journal read_from max_events)) (\<lambda>records.
     and_then (replay_loop env max_replay_bytes max_events [] 0 read_from records) (\<lambda>(evs, last_sequence).
     let cursor_sequence =
           (case gap of
              None \<Rightarrow> last_sequence
            | Some g \<Rightarrow> option_default
                (Option.bind (last_opt evs) (\<lambda>e. nz_to_u64 (ev_sequence e)))
                (option_default (nz_to_u64 (gap_watermark g)) 0));
         response =
           \<lparr>rr_requested = from_u64 after_sequence, rr_events = evs,
            rr_cursor = \<lparr>cur_stream_id = h_id stream, cur_sequence = from_u64 cursor_sequence\<rparr>,
            rr_gap = gap\<rparr>
     in and_then (map_err (\<lambda>e. replay_violation
                     (''replay response failed contract validation: '' @ display_event_error e))
                   (validate_replay_response (re_base64 env) response)) (\<lambda>_. Ok response))))"

section \<open>A journal that keeps a contiguous tail\<close>

text \<open>
  The retained records start at the floor and are consecutive; each projects to an envelope of the
  stream, whose length is known and small enough that the sums fit a \<open>usize\<close>.
\<close>

definition journal_tail :: "replay_env \<Rightarrow> string \<Rightarrow> replay_journal \<Rightarrow> journal_record list \<Rightarrow> bool" where
  "journal_tail env stream journal recs \<longleftrightarrow>
     0 < rj_retained_floor journal \<and>
     map (\<lambda>r. unat (jr_sequence r)) recs =
       [unat (rj_retained_floor journal) ..< unat (rj_retained_floor journal) + length recs] \<and>
     (\<forall>a n. rj_replay_after journal a n = Ok (take (unat n) (filter (\<lambda>r. a < jr_sequence r) recs))) \<and>
     (\<forall>r\<in>set recs. fe_sequence (jr_event r) = jr_sequence r \<and> fe_stream_id (jr_event r) = stream \<and>
        is_ok (wire_envelope (re_base64 env) (jr_event r))) \<and>
     (\<forall>w. \<exists>n. re_envelope_len env w = Ok n \<and> n < 2 ^ 62)"

definition wire_len :: "replay_env \<Rightarrow> event_envelope \<Rightarrow> nat" where
  "wire_len env w = (case re_envelope_len env w of Inl _ \<Rightarrow> 0 | Inr n \<Rightarrow> n)"

definition wire_image :: "replay_env \<Rightarrow> journal_record \<Rightarrow> event_envelope" where
  "wire_image env r = (case wire_envelope (re_base64 env) (jr_event r) of Inl _ \<Rightarrow> undefined | Inr w \<Rightarrow> w)"

definition page_bytes :: "replay_env \<Rightarrow> journal_record list \<Rightarrow> nat" where
  "page_bytes env rs = sum_list (map (\<lambda>r. wire_len env (wire_image env r)) rs)"

definition record_ok :: "replay_env \<Rightarrow> string \<Rightarrow> journal_record \<Rightarrow> bool" where
  "record_ok env stream r \<longleftrightarrow>
     fe_sequence (jr_event r) = jr_sequence r \<and> fe_stream_id (jr_event r) = stream \<and>
     wire_envelope (re_base64 env) (jr_event r) = Ok (wire_image env r) \<and>
     re_envelope_len env (wire_image env r) = Ok (wire_len env (wire_image env r)) \<and>
     wire_len env (wire_image env r) < 2 ^ 62"

lemma journal_tail_record:
  "journal_tail env stream journal recs \<Longrightarrow> r \<in> set recs \<Longrightarrow> record_ok env stream r"
proof -
  assume j: "journal_tail env stream journal recs" and r: "r \<in> set recs"
  obtain n where "re_envelope_len env (wire_image env r) = Ok n" "n < 2 ^ 62"
    using j unfolding journal_tail_def by blast
  with j r show "record_ok env stream r"
    by (auto simp: journal_tail_def record_ok_def wire_len_def wire_image_def is_ok_def split: sum.splits)
qed

text \<open>The longest prefix of the records whose bytes, on top of \<open>used\<close>, stay within the limit.\<close>

fun page_prefix :: "replay_env \<Rightarrow> nat \<Rightarrow> nat \<Rightarrow> journal_record list \<Rightarrow> journal_record list" where
  "page_prefix env limit used [] = []"
| "page_prefix env limit used (r # rs) =
     (if limit < used + wire_len env (wire_image env r) then []
      else r # page_prefix env limit (used + wire_len env (wire_image env r)) rs)"

lemma replay_loop_page:
  assumes "\<forall>r\<in>set rs. record_ok env stream r" and "max_replay_bytes < 2 ^ 62"
    and "unat bytes \<le> unat max_replay_bytes" and "length evs + length rs \<le> unat max_events"
  shows "replay_loop env max_replay_bytes max_events evs bytes ls rs =
    (if evs = [] \<and> rs \<noteq> [] \<and> page_prefix env (unat max_replay_bytes) (unat bytes) rs = [] then
       Err (sdk_error PayloadTooLarge ''first replay event exceeds max_replay_bytes'' Never replay_operation)
     else
       let page = page_prefix env (unat max_replay_bytes) (unat bytes) rs
       in Ok (evs @ map (wire_image env) page,
              if page = [] then ls else jr_sequence (last page)))"
  using assms
proof (induction rs arbitrary: evs bytes ls)
  case Nil
  then show ?case by simp
next
  case (Cons r rs)
  let ?n = "wire_len env (wire_image env r)"
  have ok: "record_ok env stream r" and lim: "unat max_replay_bytes < 2 ^ 62"
    using Cons.prems by (simp_all add: word_less_nat_alt)
  have un: "unat (word_of_nat ?n :: usize) = ?n" and sum: "unat bytes + ?n < 2 ^ 64"
    using ok Cons.prems lim by (simp_all add: record_ok_def unat_of_nat)
  then obtain nb where nb: "checked_add bytes (word_of_nat ?n :: usize) = Some nb" "unat nb = unat bytes + ?n"
    by (auto simp: checked_add_def unat_add_exact)
  have len: "\<not> max_events \<le> len_usize evs"
    using Cons.prems(4) unat_lt_64 [of max_events] by (simp add: word_le_nat_alt unat_len_usize)
  have fit: "max_replay_bytes < nb \<longleftrightarrow> unat max_replay_bytes < unat bytes + ?n"
    using nb by (simp add: word_less_nat_alt)
  show ?case
  proof (cases "unat max_replay_bytes < unat bytes + ?n")
    case True
    then show ?thesis using ok nb len fit by (simp add: record_ok_def Let_def)
  next
    case False
    have "replay_loop env max_replay_bytes max_events evs bytes ls (r # rs) =
        replay_loop env max_replay_bytes max_events (evs @ [wire_image env r]) nb (jr_sequence r) rs"
      using ok nb len fit False by (simp add: record_ok_def Let_def)
    with Cons.IH [of nb "evs @ [wire_image env r]" "jr_sequence r"] Cons.prems False nb show ?thesis
      by (simp add: Let_def)
  qed
qed

section \<open>The page is a valid answer\<close>

lemma page_prefix_take: "\<exists>k. page_prefix env limit used rs = take k rs"
proof (induction rs arbitrary: used)
  case (Cons r rs)
  obtain k where k: "page_prefix env limit (used + wire_len env (wire_image env r)) rs = take k rs"
    using Cons.IH by blast
  show ?case
  proof (cases "limit < used + wire_len env (wire_image env r)")
    case True
    then show ?thesis by (intro exI [of _ 0]) simp
  next
    case False
    then show ?thesis using k by (intro exI [of _ "Suc k"]) simp
  qed
qed simp

lemma page_prefix_maximal:
  "page_prefix env limit used rs = take k rs \<Longrightarrow> k < length rs \<Longrightarrow>
     limit < used + page_bytes env (take (Suc k) rs)"
proof (induction rs arbitrary: used k)
  case (Cons r rs)
  let ?n = "wire_len env (wire_image env r)"
  show ?case
  proof (cases "limit < used + ?n")
    case True
    then show ?thesis by (simp add: page_bytes_def)
  next
    case False
    with Cons.prems obtain m where m: "k = Suc m" "page_prefix env limit (used + ?n) rs = take m rs"
      by (cases k) auto
    with Cons.IH [OF m(2)] Cons.prems(2) show ?thesis by (simp add: page_bytes_def add.assoc)
  qed
qed simp

lemma page_prefix_bytes: "used \<le> limit \<Longrightarrow> used + page_bytes env (page_prefix env limit used rs) \<le> limit"
  by (induction rs arbitrary: used) (auto simp: page_bytes_def add.assoc [symmetric])

lemma record_ok_wire:
  assumes "record_ok env stream r"
  shows "validate_envelope (re_base64 env) (wire_image env r) = Ok ()"
    "nz_to_u64 (ev_sequence (wire_image env r)) = Some (jr_sequence r)"
    "ev_stream_id (wire_image env r) = stream" "jr_sequence r \<noteq> 0"
  using assms wire_envelope_Ok [of "re_base64 env" "jr_event r" "wire_image env r"]
  by (auto simp: record_ok_def)

lemma validate_page:
  assumes "\<forall>r\<in>set rs. record_ok env stream r"
    and "map (\<lambda>r. unat (jr_sequence r)) rs =
      [Suc (unat (option_default previous base)) ..< Suc (unat (option_default previous base) + length rs)]"
  shows "validate_replay_events (re_base64 env) stream base previous (map (wire_image env) rs) =
    Ok (if rs = [] then previous else Some (jr_sequence (last rs)))"
  using assms
proof (induction rs arbitrary: previous)
  case Nil
  then show ?case by simp
next
  case (Cons r rs)
  let ?b = "unat (option_default previous base)"
  have range: "[Suc ?b ..< Suc (?b + length (r # rs))] = Suc ?b # [Suc (Suc ?b) ..< Suc (Suc ?b + length rs)]"
    by (simp add: upt_conv_Cons del: upt_Suc)
  have seq: "unat (jr_sequence r) = Suc ?b"
    and rest: "map (\<lambda>r. unat (jr_sequence r)) rs = [Suc (Suc ?b) ..< Suc (Suc ?b + length rs)]"
    using Cons.prems(2) unfolding range by simp_all
  have nxt: "checked_add (option_default previous base) 1 = Some (jr_sequence r)"
    using seq by (simp add: checked_add_Some)
  have ok: "record_ok env stream r" using Cons.prems(1) by simp
  have tail: "validate_replay_events (re_base64 env) stream base (Some (jr_sequence r)) (map (wire_image env) rs) =
      Ok (if rs = [] then Some (jr_sequence r) else Some (jr_sequence (last rs)))"
    using Cons.IH [of "Some (jr_sequence r)"] Cons.prems(1) rest seq
    by (simp add: option_default_def)
  show ?case
    using record_ok_wire [OF ok] nxt tail
    by (cases previous) (simp_all add: option_default_def)
qed

lemma nonzero_Ok: "0 < v \<Longrightarrow> nonzero v = Ok (WireNonZeroU64 (from_u64 v))"
proof -
  assume "0 < v"
  then have "max v 1 = v" "v \<noteq> 0"
    by (auto simp: max_def word_le_nat_alt word_less_nat_alt word_unat_eq_iff)
  moreover from \<open>v \<noteq> 0\<close> have "wire_non_zero_try_from (show_nat (unat v)) = Ok (WireNonZeroU64 (from_u64 v))"
    unfolding wire_non_zero_try_from_iff by blast
  ultimately show ?thesis by (simp add: nonzero_def)
qed

text \<open>The gap a reader behind the floor is told about.\<close>

definition expected_gap :: "u64 \<Rightarrow> u64 \<Rightarrow> event_gap option" where
  "expected_gap floor after_sequence =
     (if unat after_sequence + 1 < unat floor then
        Some \<lparr>gap_from = WireNonZeroU64 (from_u64 (after_sequence + 1)),
              gap_to = WireNonZeroU64 (from_u64 (floor - 1)),
              gap_reason = ''replay below the journal retention floor'',
              gap_watermark = WireNonZeroU64 (from_u64 (floor - 1))\<rparr>
      else None)"

lemma unat_pred: "0 < unat (w :: u64) \<Longrightarrow> unat (w - 1) = unat w - 1"
  by (simp add: unat_sub word_le_nat_alt)

lemma unat_next: "unat (a :: u64) + 1 < unat (f :: u64) \<Longrightarrow> unat (a + 1) = unat a + 1"
  using unat_lt_64 [of f] by (simp add: unat_add_exact)

lemma replay_gap_expected: "replay_gap floor a = Ok (expected_gap floor a)"
proof (cases "unat a + 1 < unat floor")
  case True
  have a1: "saturating_add a 1 = a + 1"
    using True unat_lt_64 [of floor] by (simp add: saturating_add_def)
  have f1: "saturating_sub floor 1 = floor - 1"
    using True by (simp add: saturating_sub_def word_le_nat_alt)
  have un: "unat (a + 1) = unat a + 1" "unat (floor - 1) = unat floor - 1"
    using unat_next [OF True] unat_pred [of floor] True by linarith+
  have mx: "max (floor - 1) (a + 1) = floor - 1"
    using True un by (simp add: word_unat_eq_iff unat_max)
  have lt: "a < - 1" using True unat_lt_64 [of floor] by (simp add: word_less_nat_alt unat_all_ones)
  have pos: "0 < a + 1" "0 < floor - 1" using True un unfolding word_less_nat_alt by simp_all
  show ?thesis
    using True un lt pos
    by (simp add: replay_gap_def expected_gap_def a1 f1 mx nonzero_Ok word_less_nat_alt Let_def)
next
  case False
  have "\<not> (a < - 1 \<and> saturating_add a 1 < floor)"
  proof
    assume "a < - 1 \<and> saturating_add a 1 < floor"
    then have "Suc (unat a) < unat floor"
      by (auto simp: word_less_nat_alt unat_all_ones unat_saturating_add min_def split: if_splits)
    with False show False by simp
  qed
  with False show ?thesis by (auto simp: replay_gap_def expected_gap_def Let_def)
qed

lemma replay_page_validates:
  assumes "\<not> blank i"
    and evs: "validate_replay_events b64 i base None es = Ok prev"
    and ub: "unat base = max (unat a) (unat floor - 1)" and ua: "unat a + 1 < 2 ^ 64"
    and cur: "cursor = option_default prev base"
  shows "validate_replay_response b64
     \<lparr>rr_requested = from_u64 a, rr_events = es,
      rr_cursor = \<lparr>cur_stream_id = i, cur_sequence = from_u64 cursor\<rparr>,
      rr_gap = expected_gap floor a\<rparr> = Ok ()"
proof (cases "unat a + 1 < unat floor")
  case True
  have un: "unat (a + 1) = unat a + 1" "unat (floor - 1) = unat floor - 1"
    using unat_next [OF True] unat_pred [of floor] True by linarith+
  have base: "base = floor - 1" using ub un True by (simp add: word_unat_eq_iff)
  have "checked_add a 1 = Some (a + 1)" using un by (simp add: checked_add_Some)
  moreover have "a + 1 \<noteq> 0" "a + 1 \<le> floor - 1"
    using un True by (metis add_is_0 one_neq_zero unsigned_0) (use un True in \<open>simp add: word_le_nat_alt\<close>)
  ultimately show ?thesis
    using assms(1) evs True cur unfolding base
    by (cases prev) (simp_all add: validate_replay_response_def validate_cursor_def expected_gap_def
        option_default_def option_or_def validate_gap_def blank_Cons is_whitespace_def not_less)
next
  case False
  then have "base = a" using ub by (simp add: word_unat_eq_iff)
  with False show ?thesis
    using assms(1) evs cur
    by (cases prev) (simp_all add: validate_replay_response_def validate_cursor_def expected_gap_def
        option_default_def option_or_def)
qed

text \<open>Where reading starts, the records it may return, and the page made of them.\<close>

definition replay_base :: "u64 \<Rightarrow> u64 \<Rightarrow> u64" where
  "replay_base floor after_sequence = max after_sequence (floor - 1)"

definition replay_tail :: "journal_record list \<Rightarrow> u64 \<Rightarrow> usize \<Rightarrow> journal_record list" where
  "replay_tail recs base max_events = take (unat max_events) (filter (\<lambda>r. base < jr_sequence r) recs)"

lemma replay_tail_sequences:
  assumes "journal_tail env stream journal recs" and "rj_retained_floor journal \<le> base + 1"
    and "unat (base + 1) = unat base + 1"
  shows "map (\<lambda>r. unat (jr_sequence r)) (replay_tail recs base n) =
    [Suc (unat base) ..< Suc (unat base + length (replay_tail recs base n))]"
proof -
  let ?f = "unat (rj_retained_floor journal)"
  have all: "map (\<lambda>r. unat (jr_sequence r)) recs = [?f ..< ?f + length recs]"
    using assms(1) by (simp add: journal_tail_def)
  have f: "?f \<le> Suc (unat base)" using assms(2,3) by (simp add: word_le_nat_alt)
  have upt: "filter (\<lambda>k. b < k) [f ..< f + m] = drop (Suc b - f) [f ..< f + m]" if "f \<le> Suc b" for b f m :: nat
  proof (induction m)
    case (Suc m)
    then show ?case using that by auto
  qed simp
  have "map (\<lambda>r. unat (jr_sequence r)) (filter (\<lambda>r. base < jr_sequence r) recs) =
      filter (\<lambda>k. unat base < k) (map (\<lambda>r. unat (jr_sequence r)) recs)"
    by (simp add: filter_map word_less_nat_alt o_def)
  also have "\<dots> = [Suc (unat base) ..< ?f + length recs]"
    unfolding all upt [OF f] using f by simp
  finally have tail: "map (\<lambda>r. unat (jr_sequence r)) (filter (\<lambda>r. base < jr_sequence r) recs) =
      [Suc (unat base) ..< ?f + length recs]" .
  then have len: "length (filter (\<lambda>r. base < jr_sequence r) recs) = ?f + length recs - Suc (unat base)"
    by (metis length_map length_upt)
  show ?thesis
    unfolding replay_tail_def take_map [symmetric] tail using len
    by (cases "Suc (unat base) \<le> ?f + length recs") 
      (auto simp: min_def take_upt simp del: upt_Suc intro!: arg_cong2 [where f = upt])
qed

lemma bounded_replay_eq:
  assumes j: "journal_tail env (h_id stream) journal recs" and id: "\<not> blank (h_id stream)"
    and lim: "limit < 2 ^ 62" and top: "after_sequence < - 1"
  shows "bounded_replay env limit journal stream after_sequence max_events =
    (let base = replay_base (rj_retained_floor journal) after_sequence;
         tail = replay_tail recs base max_events;
         page = page_prefix env (unat limit) 0 tail
     in if tail \<noteq> [] \<and> page = [] then
          Err (sdk_error PayloadTooLarge ''first replay event exceeds max_replay_bytes'' Never replay_operation)
        else Ok \<lparr>rr_requested = from_u64 after_sequence, rr_events = map (wire_image env) page,
                 rr_cursor = \<lparr>cur_stream_id = h_id stream,
                              cur_sequence = from_u64 (if page = [] then base else jr_sequence (last page))\<rparr>,
                 rr_gap = expected_gap (rj_retained_floor journal) after_sequence\<rparr>)"
proof -
  let ?floor = "rj_retained_floor journal" and ?a = after_sequence
  define base where "base = replay_base ?floor ?a"
  define tail where "tail = replay_tail recs base max_events"
  define page where "page = page_prefix env (unat limit) 0 tail"
  have pos: "0 < unat ?floor" using j by (simp add: journal_tail_def word_less_nat_alt)
  have fl: "unat (?floor - 1) = unat ?floor - 1" using pos by (rule unat_pred)
  have ua: "unat ?a + 1 < 2 ^ 64" using top by (simp add: word_less_nat_alt unat_all_ones)
  have ub: "unat base = max (unat ?a) (unat ?floor - 1)"
    by (simp add: base_def replay_base_def unat_max fl)
  then have b1: "unat (base + 1) = unat base + 1"
    using ua unat_lt_64 [of ?floor] pos by (subst unat_add_exact) simp_all
  have fb: "?floor \<le> base + 1"
    unfolding word_le_nat_alt b1 ub by simp
  have read: "(case expected_gap ?floor ?a of None \<Rightarrow> ?a
      | Some g \<Rightarrow> option_default (nz_to_u64 (gap_to g)) 0) = base"
    using ub fl by (auto simp: expected_gap_def option_default_def word_unat_eq_iff)
  have mark: "(case expected_gap ?floor ?a of None \<Rightarrow> ?a
      | Some g \<Rightarrow> option_default (nz_to_u64 (gap_watermark g)) 0) = base"
    using ub fl by (auto simp: expected_gap_def option_default_def word_unat_eq_iff)
  have oks: "\<forall>r\<in>set tail. record_ok env (h_id stream) r"
    using journal_tail_record [OF j] by (auto simp: tail_def replay_tail_def dest: in_set_takeD)
  obtain k where k: "page = take k tail" using page_prefix_take unfolding page_def by blast
  have poks: "\<forall>r\<in>set page. record_ok env (h_id stream) r"
    using oks k by (auto dest: in_set_takeD)
  have "map (\<lambda>r. unat (jr_sequence r)) tail = [Suc (unat base) ..< Suc (unat base + length tail)]"
    unfolding tail_def by (rule replay_tail_sequences [OF j fb b1])
  then have pseq: "map (\<lambda>r. unat (jr_sequence r)) page =
      [Suc (unat base) ..< Suc (unat base + length page)]"
    unfolding k take_map [symmetric] by (simp add: take_upt min_def del: upt_Suc)
  have loop: "replay_loop env limit max_events [] 0 base tail =
      (if tail \<noteq> [] \<and> page = [] then
         Err (sdk_error PayloadTooLarge ''first replay event exceeds max_replay_bytes'' Never replay_operation)
       else Ok (map (wire_image env) page, if page = [] then base else jr_sequence (last page)))"
    using replay_loop_page [OF oks lim, of 0 "[]" max_events base] unfolding page_def
    by (simp add: tail_def replay_tail_def Let_def)
  have recs: "rj_replay_after journal base max_events = Ok tail"
    using j by (simp add: journal_tail_def tail_def replay_tail_def)
  let ?cursor = "if page = [] then base else jr_sequence (last page)"
  let ?resp = "\<lparr>rr_requested = from_u64 ?a, rr_events = map (wire_image env) page,
      rr_cursor = \<lparr>cur_stream_id = h_id stream, cur_sequence = from_u64 ?cursor\<rparr>,
      rr_gap = expected_gap ?floor ?a\<rparr>"
  have evs: "validate_replay_events (re_base64 env) (h_id stream) base None (map (wire_image env) page) =
      Ok (if page = [] then None else Some (jr_sequence (last page)))"
    using validate_page [OF poks, of None base] pseq by (simp add: option_default_def)
  have valid: "validate_replay_response (re_base64 env) ?resp = Ok ()"
    by (rule replay_page_validates [OF id evs ub ua]) (simp add: option_default_def)
  have last: "option_default (Option.bind (last_opt (map (wire_image env) page)) (\<lambda>e. nz_to_u64 (ev_sequence e))) base = ?cursor"
  proof (cases "page = []")
    case False
    then have "record_ok env (h_id stream) (last page)" using poks by simp
    with False show ?thesis by (simp add: last_opt_def option_default_def last_map record_ok_wire)
  qed (simp add: last_opt_def option_default_def)
  show ?thesis
  proof (cases "tail \<noteq> [] \<and> page = []")
    case True
    then show ?thesis
      using loop recs unfolding bounded_replay_def replay_gap_expected Let_def base_def [symmetric]
        tail_def [symmetric] page_def [symmetric]
      by (simp add: read)
  next
    case False
    have cursor: "(case expected_gap ?floor ?a of None \<Rightarrow> ?cursor
        | Some g \<Rightarrow> option_default
            (Option.bind (last_opt (map (wire_image env) page)) (\<lambda>e. nz_to_u64 (ev_sequence e)))
            (option_default (nz_to_u64 (gap_watermark g)) 0)) = ?cursor"
      using last mark by (cases "expected_gap ?floor ?a") simp_all
    from False show ?thesis
      using loop recs valid unfolding bounded_replay_def replay_gap_expected Let_def base_def [symmetric]
        tail_def [symmetric] page_def [symmetric]
      by (simp add: read cursor del: option.case)
  qed
qed

section \<open>Properties\<close>

text \<open>C18: Bounded replay makes progress within its bounds and never hides loss. On a journal that
  keeps a contiguous tail, a replay answers with a page that passes the contract's validation, whose
  events are the retained records right after the requested cursor (or from the retention floor, the
  missing range being reported as a gap), at most \<open>max_events\<close> of them and within the byte limit.
  The page is maximal: it ends only where the count bound is reached, nothing is retained any more,
  or the next event would exceed the byte limit; it is empty only if there is nothing left, and the
  only possible failure is a first record that alone exceeds the byte limit.\<close>

theorem bounded_replay_progress:
  assumes "journal_tail env (h_id stream) journal recs" and "\<not> blank (h_id stream)"
    and "limit < 2 ^ 62" and "after_sequence < - 1"
    and tail_def: "tail = replay_tail recs (replay_base (rj_retained_floor journal) after_sequence) max_events"
  shows "case bounded_replay env limit journal stream after_sequence max_events of
      Inl e \<Rightarrow> err_code e = PayloadTooLarge \<and> tail \<noteq> [] \<and>
        unat limit < wire_len env (wire_image env (hd tail))
    | Inr page \<Rightarrow>
        (\<exists>k \<le> length tail. rr_events page = map (wire_image env) (take k tail) \<and>
           page_bytes env (take k tail) \<le> unat limit \<and> k \<le> unat max_events \<and> (tail \<noteq> [] \<longrightarrow> 0 < k) \<and>
           (k < length tail \<longrightarrow> unat limit < page_bytes env (take (Suc k) tail)) \<and>
           (k = length tail \<longrightarrow> k = unat max_events \<or>
              (\<forall>r\<in>set recs. replay_base (rj_retained_floor journal) after_sequence < jr_sequence r \<longrightarrow>
                 r \<in> set tail))) \<and>
        rr_gap page = expected_gap (rj_retained_floor journal) after_sequence \<and>
        validate_replay_response (re_base64 env) page = Ok ()"
proof -
  let ?page = "page_prefix env (unat limit) 0 tail"
  note eq = bounded_replay_eq [OF assms(1-4), of max_events, unfolded Let_def, folded tail_def]
  obtain k where "?page = take k tail" using page_prefix_take by blast
  then obtain k where k: "k \<le> length tail" "?page = take k tail"
    by (metis linear order_refl take_all)
  show ?thesis
  proof (cases "tail \<noteq> [] \<and> ?page = []")
    case True
    then have "unat limit < wire_len env (wire_image env (hd tail))"
      by (cases tail) (auto split: if_splits)
    with True show ?thesis unfolding eq by simp
  next
    case False
    obtain page where page: "bounded_replay env limit journal stream after_sequence max_events = Ok page"
      "rr_events page = map (wire_image env) (take k tail)"
      "rr_gap page = expected_gap (rj_retained_floor journal) after_sequence"
      using False unfolding eq by (auto simp: k(2))
    then have "validate_replay_response (re_base64 env) page = Ok ()"
      by (auto simp: bounded_replay_def res_simps Let_def split: prod.splits)
    moreover have "k \<le> unat max_events" using k(1) by (simp add: tail_def replay_tail_def)
    moreover have "page_bytes env (take k tail) \<le> unat limit"
      using page_prefix_bytes [of 0 "unat limit" env tail] k(2) by simp
    moreover have "tail \<noteq> [] \<longrightarrow> 0 < k" using False k(2) by auto
    moreover have "k < length tail \<longrightarrow> unat limit < page_bytes env (take (Suc k) tail)"
      using page_prefix_maximal [OF k(2)] by simp
    moreover have "k = length tail \<longrightarrow> k = unat max_events \<or>
        (\<forall>r\<in>set recs. replay_base (rj_retained_floor journal) after_sequence < jr_sequence r \<longrightarrow>
           r \<in> set tail)"
      by (auto simp: tail_def replay_tail_def min_def not_le)
    ultimately show ?thesis using page k(1) by auto
  qed
qed

text \<open>One retained record, read from the start.\<close>

definition sample_journal :: replay_journal where
  "sample_journal = \<lparr>rj_retained_floor = 1,
     rj_replay_after = \<lambda>a n. Ok (take (unat n)
       (filter (\<lambda>r. a < jr_sequence r) [\<lparr>jr_sequence = 1, jr_event = sample_commit 1\<rparr>]))\<rparr>"

definition sample_replay_env :: replay_env where
  "sample_replay_env = \<lparr>re_base64 = \<lambda>_. None, re_envelope_len = \<lambda>_. Ok 10, re_react_text = \<lambda>_. []\<rparr>"

theorem bounded_replay_progress_witness:
  "\<exists>page. bounded_replay sample_replay_env 100 sample_journal (mk_handle ''s'' StreamKind 1) 0 8 = Ok page \<and>
     length (rr_events page) = 1"
proof -
  let ?recs = "[\<lparr>jr_sequence = 1, jr_event = sample_commit 1\<rparr>]" and ?h = "mk_handle ''s'' StreamKind 1"
  have j: "journal_tail sample_replay_env (h_id ?h) sample_journal ?recs"
    by (simp add: journal_tail_def sample_journal_def sample_replay_env_def wire_envelope_sample)
      (simp add: sample_commit_def)
  have tail: "replay_tail ?recs (replay_base (rj_retained_floor sample_journal) 0) 8 = ?recs"
    by (simp add: replay_tail_def replay_base_def sample_journal_def max_def word_le_nat_alt)
  have len: "wire_len sample_replay_env w = 10" for w by (simp add: wire_len_def sample_replay_env_def)
  have nb: "\<not> blank (h_id ?h)" by (simp add: blank_Cons is_whitespace_def)
  have "(0 :: u64) < - 1" "(100 :: usize) < 2 ^ 62"
    by (simp_all add: word_less_nat_alt unat_all_ones)
  from bounded_replay_progress [OF j nb this(2,1) tail [symmetric]] show ?thesis
    using len by (auto split: sum.splits simp: le_Suc_eq)
qed

end
