(* ===== verification/Settlement.thy ===== *)
theory Settlement
  imports Run_Survival Replay
begin

text \<open>
  Durable settlement of runs (\<open>echo-sdk-host/src/core_profile/state.rs\<close>): the reservation a run
  holds until its receipt is durable, the receipts owed to the index and their retry, the count of
  completion work the Host close waits for, the cached journals and the live deliveries. The receipts
  owed are the map \<open>durable_settlement_debt\<close>: \<open>None\<close> is a reservation, \<open>Some\<close> a receipt to be written.
\<close>

section \<open>State\<close>

record 'j core_state =
  cs_files :: host_files
  cs_debts :: "(turn_receipt \<times> u64) option hmap"
  cs_deliveries :: "stream_delivery hmap"
  cs_journals :: "'j hmap"
  cs_pending_settlements :: usize
  cs_settlement_error :: "string option"
  cs_recovered :: "recovered_run list"
  cs_max_open_handles :: usize

record settlement_env =
  se_disk :: disk
  se_names :: failure_names
  se_react_text :: "react_error \<Rightarrow> string"

definition max_cached_journals :: nat where "max_cached_journals = 1024"

section \<open>Cached journals and deliveries\<close>

definition cached_journal :: "(string \<Rightarrow> string + 'j) \<Rightarrow> string \<Rightarrow> 'j core_state \<Rightarrow> (react_error + 'j) \<times> 'j core_state" where
  "cached_journal open_journal run s =
     (case hget (cs_journals s) run of
        Some j \<Rightarrow> (Ok j, s)
      | None \<Rightarrow>
          (case open_journal run of
             Inl t \<Rightarrow> (Err (ReactOther t), s)
           | Inr j \<Rightarrow>
               let kept = (if max_cached_journals \<le> length (cs_journals s)
                           then (case cs_journals s of [] \<Rightarrow> [] | (oldest, _) # _ \<Rightarrow> hdel oldest (cs_journals s))
                           else cs_journals s)
               in (Ok j, s\<lparr>cs_journals := hput run j kept\<rparr>)))"

definition remove_journal :: "string \<Rightarrow> 'j core_state \<Rightarrow> 'j core_state" where
  "remove_journal run s = s\<lparr>cs_journals := hdel run (cs_journals s)\<rparr>"

definition register_delivery :: "stream_delivery \<Rightarrow> 'j core_state \<Rightarrow> 'j core_state" where
  "register_delivery d s = s\<lparr>cs_deliveries := hput (h_id (sd_stream d)) d (cs_deliveries s)\<rparr>"

definition remove_delivery :: "string \<Rightarrow> 'j core_state \<Rightarrow> 'j core_state" where
  "remove_delivery stream s = s\<lparr>cs_deliveries := hdel stream (cs_deliveries s)\<rparr>"

definition remove_delivery_for_run :: "string \<Rightarrow> 'j core_state \<Rightarrow> 'j core_state" where
  "remove_delivery_for_run run s =
     s\<lparr>cs_deliveries := filter (\<lambda>(_, d). sd_run_id d \<noteq> run) (cs_deliveries s)\<rparr>"

definition recovered_runs_of_session :: "string \<Rightarrow> 'j core_state \<Rightarrow> recovered_run list" where
  "recovered_runs_of_session session s =
     filter (\<lambda>rec. rr_session_id (rec_record rec) = session) (cs_recovered s)"

section \<open>Settlement\<close>

definition reserve_durable_settlement :: "string \<Rightarrow> 'j core_state \<Rightarrow> (string + unit) \<times> 'j core_state" where
  "reserve_durable_settlement run s =
     (if hmem run (cs_debts s) then (Err ''Run already owns a durable settlement reservation'', s)
      else if unat (cs_max_open_handles s) \<le> length (cs_debts s)
        then (Err ''durable settlement reservation quota is full'', s)
      else (Ok (), s\<lparr>cs_debts := hput run None (cs_debts s)\<rparr>))"

text \<open>Dropping an unadmitted \<open>DurableSettlementReservation\<close> releases it.\<close>

definition release_durable_reservation :: "string \<Rightarrow> 'j core_state \<Rightarrow> 'j core_state" where
  "release_durable_reservation run s =
     (if hget (cs_debts s) run = Some None then s\<lparr>cs_debts := hdel run (cs_debts s)\<rparr> else s)"

definition persist_settled_receipt ::
  "settlement_env \<Rightarrow> string \<Rightarrow> turn_receipt \<Rightarrow> u64 \<Rightarrow> 'j core_state \<Rightarrow> (string + unit) \<times> 'j core_state" where
  "persist_settled_receipt env run receipt last_sequence s =
     (if \<not> hmem run (cs_debts s) then
        (and_then (receipt_wire (se_names env) receipt) (\<lambda>expected.
         and_then (terminal_of (se_names env) receipt) (\<lambda>terminal.
         and_then (map_err (se_react_text env) (load_recovered_runs (se_disk env) (cs_files s))) (\<lambda>runs.
           case List.find (\<lambda>rec. rr_run_id (rec_record rec) = run) runs of
             Some rec \<Rightarrow>
               if rr_receipt (rec_record rec) = Some expected \<and> rr_terminal (rec_record rec) = Some terminal \<and>
                  rr_last_sequence (rec_record rec) = last_sequence
               then Ok () else Err ''Run has no reserved durable settlement owner''
           | None \<Rightarrow> Err ''Run has no reserved durable settlement owner''))), s)
      else
        let s1 = s\<lparr>cs_debts := hput run (Some (receipt, last_sequence)) (cs_debts s)\<rparr>
        in case and_then (terminal_of (se_names env) receipt) (\<lambda>terminal.
                  map_ok (Pair terminal) (receipt_wire (se_names env) receipt)) of
             Inl e \<Rightarrow> (Err e, s1)
           | Inr (terminal, rc) \<Rightarrow>
               (case record_run_settled (se_disk env) run terminal rc last_sequence (cs_files s1) of
                  (Inl e, fs) \<Rightarrow> (Err (se_react_text env e), s1\<lparr>cs_files := fs\<rparr>)
                | (Inr _, fs) \<Rightarrow>
                    (Ok (), remove_delivery_for_run run
                              (s1\<lparr>cs_files := fs, cs_debts := hdel run (cs_debts s1)\<rparr>))))"

text \<open>The receipts owed, collected before the retry, and the retry of each with its failures.\<close>

definition owed_receipts :: "'j core_state \<Rightarrow> (string \<times> turn_receipt \<times> u64) list" where
  "owed_receipts s = List.map_filter (\<lambda>(run, d). map_option (Pair run) d) (cs_debts s)"

fun retry_each ::
  "settlement_env \<Rightarrow> (string \<times> turn_receipt \<times> u64) list \<Rightarrow> 'j core_state \<Rightarrow> string list \<times> 'j core_state" where
  "retry_each env [] s = ([], s)"
| "retry_each env ((run, receipt, q) # rest) s =
     (case persist_settled_receipt env run receipt q s of
        (r, s') \<Rightarrow>
          (case retry_each env rest s' of
             (failures, s'') \<Rightarrow> (case r of Inl e \<Rightarrow> e # failures | Inr _ \<Rightarrow> failures, s'')))"

definition retry_durable_settlements :: "settlement_env \<Rightarrow> 'j core_state \<Rightarrow> (string + unit) \<times> 'j core_state" where
  "retry_durable_settlements env s =
     (case retry_each env (owed_receipts s) s of
        (failures, s') \<Rightarrow> (if failures = [] then Ok () else Err (join_texts ''; '' failures), s'))"

definition begin_settlement :: "'j core_state \<Rightarrow> 'j core_state" where
  "begin_settlement s = s\<lparr>cs_pending_settlements := cs_pending_settlements s + 1\<rparr>"

definition finish_settlement :: "string + unit \<Rightarrow> 'j core_state \<Rightarrow> 'j core_state" where
  "finish_settlement r s =
     s\<lparr>cs_settlement_error := (case r of Inl e \<Rightarrow> Some e | Inr _ \<Rightarrow> cs_settlement_error s),
       cs_pending_settlements := saturating_sub (cs_pending_settlements s) 1\<rparr>"

text \<open>
  \<open>wait_settlements\<close> in the state in which its wait ends: with the count at zero it goes on, else the
  timeout has passed.
\<close>

definition wait_settlements :: "settlement_env \<Rightarrow> 'j core_state \<Rightarrow> (string + unit) \<times> 'j core_state" where
  "wait_settlements env s =
     (if cs_pending_settlements s \<noteq> 0 then (Err ''timed out waiting for Host operation settlements'', s)
      else case retry_durable_settlements env s of
        (Inl e, s') \<Rightarrow> (Err e, s')
      | (Inr _, s') \<Rightarrow>
          (case cs_settlement_error s' of
             None \<Rightarrow> (Ok (), s')
           | Some e \<Rightarrow> (Err e, s'\<lparr>cs_settlement_error := None\<rparr>)))"

section \<open>Lemmas\<close>

lemma record_run_settled_cases:
  assumes "record_run_settled dk run t rc q fs = (r, fs')"
  shows "(\<exists>e. r = Err e) \<and> fs' = fs \<or> r = Ok ()"
  using assms write_index_cases
  by (cases r) (auto simp: record_run_settled_def split: sum.splits dest: write_index_cases)

lemma persist_cases:
  assumes "persist_settled_receipt env run receipt q s = (r, s')" and "hwf (cs_debts s)"
  shows "if hmem run (cs_debts s) then
      (case r of
         Inl _ \<Rightarrow> cs_files s' = cs_files s \<and> cs_debts s' = hput run (Some (receipt, q)) (cs_debts s) \<and>
           cs_deliveries s' = cs_deliveries s
       | Inr _ \<Rightarrow> cs_debts s' = hdel run (hput run (Some (receipt, q)) (cs_debts s)) \<and>
           (\<exists>t rc. terminal_of (se_names env) receipt = Ok t \<and> receipt_wire (se_names env) receipt = Ok rc \<and>
              record_run_settled (se_disk env) run t rc q (cs_files s) = (Ok (), cs_files s')))
    else s' = s"
  using assms record_run_settled_cases
  by (fastforce simp: persist_settled_receipt_def Let_def res_simps remove_delivery_for_run_def
      split: sum.splits prod.splits if_splits)

lemma persist_same:
  "persist_settled_receipt env run receipt q s = (r, s') \<Longrightarrow>
     cs_pending_settlements s' = cs_pending_settlements s \<and> cs_settlement_error s' = cs_settlement_error s \<and>
     cs_max_open_handles s' = cs_max_open_handles s \<and> cs_journals s' = cs_journals s \<and>
     cs_recovered s' = cs_recovered s"
  by (auto simp: persist_settled_receipt_def Let_def remove_delivery_for_run_def
      split: sum.splits prod.splits if_splits)

lemma persist_other_debts:
  "persist_settled_receipt env run receipt q s = (r, s') \<Longrightarrow> k \<noteq> run \<Longrightarrow>
     hget (cs_debts s') k = hget (cs_debts s) k"
  by (auto simp: persist_settled_receipt_def Let_def remove_delivery_for_run_def
      split: sum.splits prod.splits if_splits)

lemma persist_length:
  assumes "persist_settled_receipt env run receipt q s = (r, s')" and "hwf (cs_debts s)"
  shows "hwf (cs_debts s') \<and> length (cs_debts s') \<le> length (cs_debts s)"
proof (cases "hmem run (cs_debts s)")
  case False
  then show ?thesis using persist_cases [OF assms] assms(2) by simp
next
  case True
  then have len: "length (hput run (Some (receipt, q)) (cs_debts s)) = length (cs_debts s)"
    by (simp add: hmem_def length_hput_present)
  then show ?thesis
    using persist_cases [OF assms] True assms(2)
      length_hdel_le [of run "hput run (Some (receipt, q)) (cs_debts s)"]
    by (auto split: sum.splits)
qed

section \<open>The settlement invariant\<close>

definition settlement_inv :: "'j core_state \<Rightarrow> bool" where
  "settlement_inv s \<longleftrightarrow>
     hwf (cs_debts s) \<and> length (cs_debts s) \<le> unat (cs_max_open_handles s) \<and>
     hwf (cs_journals s) \<and> length (cs_journals s) \<le> max_cached_journals"

inductive settlement_step :: "settlement_env \<Rightarrow> 'j core_state \<Rightarrow> 'j core_state \<Rightarrow> bool"
  for env :: settlement_env
where
  step_reserve: "reserve_durable_settlement run s = (r, s') \<Longrightarrow> settlement_step env s s'"
| step_release: "settlement_step env s (release_durable_reservation run s)"
| step_persist: "persist_settled_receipt env run receipt q s = (r, s') \<Longrightarrow> settlement_step env s s'"
| step_wait: "wait_settlements env s = (r, s') \<Longrightarrow> settlement_step env s s'"
| step_begin: "settlement_step env s (begin_settlement s)"
| step_finish: "settlement_step env s (finish_settlement r s)"
| step_journal: "cached_journal open_journal run s = (r, s') \<Longrightarrow> settlement_step env s s'"
| step_drop_journal: "settlement_step env s (remove_journal run s)"
| step_deliver: "settlement_step env s (register_delivery d s)"
| step_undeliver: "settlement_step env s (remove_delivery stream s)"

definition settlement_new :: "'j core_state \<Rightarrow> bool" where
  "settlement_new s \<longleftrightarrow> cs_debts s = [] \<and> cs_journals s = []"

lemma persist_inv:
  "settlement_inv s \<Longrightarrow> persist_settled_receipt env run receipt q s = (r, s') \<Longrightarrow> settlement_inv s'"
  using persist_length persist_same by (fastforce simp: settlement_inv_def)

lemma retry_each_inv:
  "settlement_inv s \<Longrightarrow> retry_each env owed s = (fs, s') \<Longrightarrow>
     settlement_inv s' \<and> cs_pending_settlements s' = cs_pending_settlements s \<and>
     cs_settlement_error s' = cs_settlement_error s"
proof (induction env owed s arbitrary: fs s' rule: retry_each.induct)
  case (2 env run receipt q rest s)
  obtain r t where t: "persist_settled_receipt env run receipt q s = (r, t)" by fastforce
  obtain gs u where u: "retry_each env rest t = (gs, u)" by fastforce
  have "s' = u" using "2.prems"(2) t u by simp
  moreover have "settlement_inv t" by (rule persist_inv [OF "2.prems"(1) t])
  ultimately show ?case using "2.IH" [OF t [symmetric] _ u] persist_same [OF t] by simp
qed simp

lemma wait_inv: "settlement_inv s \<Longrightarrow> wait_settlements env s = (r, s') \<Longrightarrow> settlement_inv s'"
  by (auto simp: wait_settlements_def retry_durable_settlements_def settlement_inv_def
      split: if_splits prod.splits sum.splits option.splits dest!: retry_each_inv [unfolded settlement_inv_def, rotated])

lemma cached_journal_inv:
  assumes "settlement_inv s" and "cached_journal open_journal run s = (r, s')"
  shows "settlement_inv s'"
proof (cases "hget (cs_journals s) run")
  case (Some j)
  with assms show ?thesis by (simp add: cached_journal_def)
next
  case None
  show ?thesis
  proof (cases "open_journal run")
    case (Inl t)
    with None assms show ?thesis by (simp add: cached_journal_def)
  next
    case (Inr j)
    define kept where "kept = (if max_cached_journals \<le> length (cs_journals s)
        then (case cs_journals s of [] \<Rightarrow> [] | (oldest, _) # _ \<Rightarrow> hdel oldest (cs_journals s))
        else cs_journals s)"
    have s': "s' = s\<lparr>cs_journals := hput run j kept\<rparr>"
      using None Inr assms(2) by (simp add: cached_journal_def kept_def)
    have "hwf kept \<and> length kept < max_cached_journals"
    proof (cases "max_cached_journals \<le> length (cs_journals s)")
      case False
      with assms(1) show ?thesis by (simp add: kept_def settlement_inv_def)
    next
      case True
      then obtain k v rest where js: "cs_journals s = (k, v) # rest"
        by (cases "cs_journals s") (auto simp: max_cached_journals_def)
      have "length (hdel k (cs_journals s)) = length (cs_journals s) - 1"
        using assms(1) js by (intro length_hdel_present) (auto simp: settlement_inv_def)
      moreover have "hwf (hdel k (cs_journals s))" using assms(1) by (simp add: settlement_inv_def)
      ultimately show ?thesis
        using True js assms(1) by (simp add: kept_def settlement_inv_def max_cached_journals_def)
    qed
    then show ?thesis
      using assms(1) length_hput_le [of run j kept] unfolding s' by (simp add: settlement_inv_def)
  qed
qed

lemma settlement_step_inv: "settlement_inv s \<Longrightarrow> settlement_step env s s' \<Longrightarrow> settlement_inv s'"
proof (erule settlement_step.cases, goal_cases)
  case (1 run s r s')
  then show ?case
    using length_hput_le [of run None "cs_debts s"]
    by (auto simp: reserve_durable_settlement_def settlement_inv_def split: if_splits)
next
  case (2 s run)
  then show ?case
    using length_hdel_le [of run "cs_debts s"]
    by (auto simp: release_durable_reservation_def settlement_inv_def)
next
  case (8 s run)
  then show ?case
    using length_hdel_le [of run "cs_journals s"] by (auto simp: remove_journal_def settlement_inv_def)
next
  case (3 run receipt q s r s')
  then show ?case using persist_inv by blast
next
  case (4 s r s')
  then show ?case using wait_inv by blast
next
  case (7 open_journal run s r s')
  then show ?case using cached_journal_inv by blast
qed (auto simp: settlement_inv_def begin_settlement_def finish_settlement_def register_delivery_def
    remove_delivery_def)

interpretation settlement_hist: invariant_system settlement_new "settlement_step env" settlement_inv for env
proof unfold_locales
  show "settlement_inv s" if "settlement_new s" for s
    using that by (simp add: settlement_new_def settlement_inv_def)
qed (rule settlement_step_inv)

section \<open>Retries\<close>

lemma owed_receipts_in: "hwf (cs_debts s) \<Longrightarrow>
    (run, receipt, q) \<in> set (owed_receipts s) \<longleftrightarrow> hget (cs_debts s) run = Some (Some (receipt, q))"
  by (force simp: owed_receipts_def List.map_filter_def hget_in_set)

lemma owed_receipts_distinct: "hwf (cs_debts s) \<Longrightarrow> distinct (map fst (owed_receipts s))"
proof -
  have "map fst (List.map_filter (\<lambda>(run, d). map_option (Pair run) d) m) =
      map fst (filter (\<lambda>x. snd x \<noteq> None) m)" for m :: "(turn_receipt \<times> u64) option hmap"
    by (induction m) (auto simp: List.map_filter_simps split: option.splits)
  then show "hwf (cs_debts s) \<Longrightarrow> distinct (map fst (owed_receipts s))"
    by (simp add: owed_receipts_def hwf_def distinct_map_filter)
qed

lemma retry_each_debts:
  assumes "retry_each env owed s = ([], s')" and "hwf (cs_debts s)" and "distinct (map fst owed)"
    and "\<forall>d\<in>set owed. hmem (fst d) (cs_debts s)"
  shows "hget (cs_debts s') k = (if k \<in> fst ` set owed then None else hget (cs_debts s) k)"
  using assms
proof (induction env owed s arbitrary: s' rule: retry_each.induct)
  case (2 env run receipt q rest s)
  obtain r t where t: "persist_settled_receipt env run receipt q s = (r, t)" by fastforce
  obtain gs u where u: "retry_each env rest t = (gs, u)" by fastforce
  have r: "r = Ok ()" "gs = []" "s' = u"
    using "2.prems"(1) t u by (auto split: sum.splits)
  have mem: "hmem run (cs_debts s)" using "2.prems"(4) by simp
  have gone: "hget (cs_debts t) run = None"
    using persist_cases [OF t "2.prems"(2)] mem r(1) by simp
  have wf: "hwf (cs_debts t)" using persist_length [OF t "2.prems"(2)] by simp
  have rest: "\<forall>d\<in>set rest. hmem (fst d) (cs_debts t)"
  proof
    fix d assume d: "d \<in> set rest"
    then have "fst d \<noteq> run" using "2.prems"(3) by auto
    with d "2.prems"(4) persist_other_debts [OF t] show "hmem (fst d) (cs_debts t)" by (simp add: hmem_def)
  qed
  have "distinct (map fst rest)" "run \<notin> fst ` set rest" using "2.prems"(3) by auto
  with "2.IH" [OF t [symmetric] u [unfolded r(2)] wf _ rest]
  have "hget (cs_debts u) k = (if k \<in> fst ` set rest then None else hget (cs_debts t) k)" by simp
  with gone persist_other_debts [OF t, of k] r(3) show ?case by (cases "k = run") simp_all
qed simp

section \<open>Properties\<close>

definition sample_core :: "unit core_state" where
  "sample_core = \<lparr>cs_files = sample_root\<lparr>hf_runs := Some [1]\<rparr>, cs_debts = [(''r'', None)], cs_deliveries = [],
     cs_journals = [], cs_pending_settlements = 0, cs_settlement_error = None, cs_recovered = [],
     cs_max_open_handles = 8\<rparr>"

definition sample_cancelled_turn :: turn_receipt where
  "sample_cancelled_turn = \<lparr>tr_turn_id = ''r'', tr_outcome = TurnCancelled, tr_status = ''cancelled'',
     tr_delivery = Delivered, tr_final_answer = None, tr_final_message_id = None,
     tr_prompt_tokens = 0, tr_completion_tokens = 0, tr_llm_calls = 0, tr_compaction_count = 0,
     tr_last_event_sequence = 7, tr_elapsed_millis = 0\<rparr>"

definition sample_settlement_env :: settlement_env where
  "sample_settlement_env = \<lparr>se_disk = sample_disk, se_names = sample_names, se_react_text = \<lambda>_. ''error''\<rparr>"

lemma sample_turn_wire:
  "terminal_of names sample_cancelled_turn = Ok Cancelled"
  "receipt_wire names sample_cancelled_turn = Ok sample_receipt"
  by (simp_all add: terminal_of_def receipt_wire_def sample_cancelled_turn_def validate_receipt_def blank_Cons
      is_whitespace_def delivery_name_def sample_receipt_def Let_def)

lemma sample_persist:
  "persist_settled_receipt sample_settlement_env ''r'' sample_cancelled_turn 7 sample_core =
     (Ok (), sample_core\<lparr>cs_files := sample_root\<lparr>hf_runs := Some [2]\<rparr>, cs_debts := []\<rparr>)"
  using sample_settles
  by (simp add: persist_settled_receipt_def sample_core_def hmem_def sample_settlement_env_def sample_turn_wire
      Let_def remove_delivery_for_run_def AList.delete_eq)

lemma sample_core_inv: "settlement_inv sample_core"
  by (simp add: settlement_inv_def sample_core_def hwf_def max_cached_journals_def)

text \<open>C27: A receipt handed in is written, pruned or owed, never dropped in silence by the state. When a
  run with a reservation hands in its receipt and an error is reported, the index is as before and that
  very receipt with its sequence is owed; releasing a reservation never drops it. When success is reported
  the reservation ends, the terminal and the receipt projected from it replaced the run's record in the
  index, and the index file holds that settled record; the one exception is an index which was over a
  bound with it although every older settled record was gone: the write then pruned it, and still
  succeeded. The reservations and receipts of other runs are untouched.\<close>

theorem settled_receipt_is_written_or_owed:
  assumes "persist_settled_receipt env run receipt q s = (r, s')" and "hwf (cs_debts s)"
    and "hmem run (cs_debts s)"
  shows "(case r of
      Inl _ \<Rightarrow> hget (cs_debts s') run = Some (Some (receipt, q)) \<and> cs_files s' = cs_files s \<and>
        hget (cs_debts (release_durable_reservation run s')) run = Some (Some (receipt, q))
    | Inr _ \<Rightarrow> hget (cs_debts s') run = None \<and>
        (\<exists>t rc. terminal_of (se_names env) receipt = Ok t \<and> receipt_wire (se_names env) receipt = Ok rc \<and>
           record_run_settled (se_disk env) run t rc q (cs_files s) = (Ok (), cs_files s') \<and>
           (\<exists>rs i kept. read_index (se_disk env) (cs_files s) = Ok rs \<and> i < length rs \<and>
              rr_run_id (rs ! i) = run \<and> index_holds (se_disk env) (cs_files s') kept \<and>
              (settled_record t rc q (rs ! i) \<in> set kept \<or>
               over_bound (se_disk env) (index_from i (rs[i := settled_record t rc q (rs ! i)])))))) \<and>
    (\<forall>k. k \<noteq> run \<longrightarrow> hget (cs_debts s') k = hget (cs_debts s) k)"
proof -
  have files: "\<exists>rs i kept. read_index (se_disk env) (cs_files s) = Ok rs \<and> i < length rs \<and>
      rr_run_id (rs ! i) = run \<and> index_holds (se_disk env) (cs_files s') kept \<and>
      (settled_record t rc q (rs ! i) \<in> set kept \<or>
       over_bound (se_disk env) (index_from i (rs[i := settled_record t rc q (rs ! i)])))"
    if "record_run_settled (se_disk env) run t rc q (cs_files s) = (Ok (), cs_files s')" for t rc
    using record_run_settled_in_index [OF that] unfolding settlement_in_index_def by blast
  show ?thesis
    using persist_cases [OF assms(1,2)] assms(3) persist_other_debts [OF assms(1)] files
    by (cases r) (auto simp: release_durable_reservation_def)
qed

theorem settled_receipt_is_written_or_owed_witness:
  "hget (cs_debts (snd (persist_settled_receipt sample_settlement_env ''r'' sample_cancelled_turn 7 sample_core))) ''r'' = None"
proof -
  have "hwf (cs_debts sample_core)" "hmem ''r'' (cs_debts sample_core)"
    by (simp_all add: sample_core_def hwf_def hmem_def)
  from settled_receipt_is_written_or_owed [OF sample_persist this] show ?thesis
    unfolding sample_persist by simp
qed

text \<open>C28: A Host that reports its settlements drained owes nothing. When the wait succeeds there was no
  completion work pending, every owed receipt was handed to the index, which accepted it, so none is left, and no error of a
  finished settlement is swallowed; reservations without a receipt are the only debts that remain.\<close>

theorem drained_host_owes_nothing:
  assumes "settlement_inv s" and "wait_settlements env s = (Ok (), s')"
  shows "cs_pending_settlements s' = 0 \<and> owed_receipts s' = [] \<and> cs_settlement_error s = None \<and>
    (\<forall>run. hget (cs_debts s') run = Some None \<longleftrightarrow> hget (cs_debts s) run = Some None)"
proof -
  have wf: "hwf (cs_debts s)" using assms(1) by (simp add: settlement_inv_def)
  from assms(2) have pend: "cs_pending_settlements s = 0" and err: "cs_settlement_error s' = None"
    and retry: "retry_each env (owed_receipts s) s = ([], s')"
    by (auto simp: wait_settlements_def retry_durable_settlements_def
        split: if_splits prod.splits sum.splits option.splits)
  note after = retry_each_inv [OF assms(1) retry]
  then have wf': "hwf (cs_debts s')" by (simp add: settlement_inv_def)
  have mem: "\<forall>d\<in>set (owed_receipts s). hmem (fst d) (cs_debts s)"
    using owed_receipts_in [OF wf] by (auto simp: hmem_def)
  note debts = retry_each_debts [OF retry wf owed_receipts_distinct [OF wf] mem]
  have "x \<notin> set (owed_receipts s')" for x
  proof
    assume x: "x \<in> set (owed_receipts s')"
    obtain run receipt q where eq: "x = (run, receipt, q)" by (cases x)
    with x have "hget (cs_debts s') run = Some (Some (receipt, q))" by (simp add: owed_receipts_in [OF wf'])
    then have "run \<notin> fst ` set (owed_receipts s)" "hget (cs_debts s) run = Some (Some (receipt, q))"
      using debts [of run] by (simp_all split: if_splits)
    then show False using owed_receipts_in [OF wf, of run receipt q] by force
  qed
  then have none: "owed_receipts s' = []" by (cases "owed_receipts s'") auto
  have "k \<in> fst ` set (owed_receipts s) \<Longrightarrow> hget (cs_debts s) k \<noteq> Some None" for k
    using owed_receipts_in [OF wf] by force
  then have "\<forall>run. hget (cs_debts s') run = Some None \<longleftrightarrow> hget (cs_debts s) run = Some None"
    using debts by simp
  then show ?thesis using after pend err none by simp
qed

theorem drained_host_owes_nothing_witness:
  "\<exists>s'. wait_settlements sample_settlement_env
       (sample_core\<lparr>cs_debts := [(''r'', Some (sample_cancelled_turn, 7))]\<rparr>) = (Ok (), s') \<and>
     owed_receipts s' = [] \<and> hf_runs (cs_files s') = Some [2]"
proof -
  let ?s = "sample_core\<lparr>cs_debts := [(''r'', Some (sample_cancelled_turn, 7))]\<rparr>"
  have "persist_settled_receipt sample_settlement_env ''r'' sample_cancelled_turn 7 ?s =
      (Ok (), sample_core\<lparr>cs_files := sample_root\<lparr>hf_runs := Some [2]\<rparr>, cs_debts := []\<rparr>)"
    using sample_settles
    by (simp add: persist_settled_receipt_def sample_core_def hmem_def sample_settlement_env_def
        sample_turn_wire Let_def remove_delivery_for_run_def AList.delete_eq)
  then have w: "wait_settlements sample_settlement_env ?s =
      (Ok (), sample_core\<lparr>cs_files := sample_root\<lparr>hf_runs := Some [2]\<rparr>, cs_debts := []\<rparr>)"
    by (simp add: wait_settlements_def retry_durable_settlements_def owed_receipts_def List.map_filter_def)
      (simp add: sample_core_def)
  have "settlement_inv ?s"
    using sample_core_inv by (simp add: settlement_inv_def hwf_def) (simp add: sample_core_def)
  from drained_host_owes_nothing [OF this w] w show ?thesis by simp
qed

text \<open>Settlement bookkeeping is bounded: in every history of the operations of the state, started
  with no debts and no cached journals, there are at most \<open>max_open_handles\<close> reservations and owed
  receipts, at most 1024 cached journals, and each run holds at most one of either.\<close>

theorem settlement_bookkeeping_is_bounded:
  assumes "reach settlement_new (settlement_step env) s"
  shows "length (cs_debts s) \<le> unat (cs_max_open_handles s) \<and> distinct (map fst (cs_debts s)) \<and>
    length (cs_journals s) \<le> 1024 \<and> distinct (map fst (cs_journals s))"
  using settlement_hist.reach_inv [OF assms]
  by (simp add: settlement_inv_def hwf_def max_cached_journals_def)

theorem settlement_bookkeeping_is_bounded_witness:
  "length (cs_debts (snd (reserve_durable_settlement ''r'' (sample_core\<lparr>cs_debts := []\<rparr>)))) \<le> 8"
proof -
  let ?s = "sample_core\<lparr>cs_debts := []\<rparr>"
  obtain r s' where r: "reserve_durable_settlement ''r'' ?s = (r, s')" by fastforce
  have "settlement_new ?s" by (simp add: settlement_new_def) (simp add: sample_core_def)
  then have "reach settlement_new (settlement_step sample_settlement_env) s'"
    by (rule reach_step [OF reach_init]) (rule step_reserve [OF r])
  moreover have "cs_max_open_handles s' = 8"
    using r by (auto simp: reserve_durable_settlement_def hmem_def sample_core_def split: if_splits)
  ultimately show ?thesis
    using settlement_bookkeeping_is_bounded [of sample_settlement_env s'] r by simp
qed

text \<open>Settling a run twice is idempotent. After a successful settlement, handing in the same
  receipt with the same sequence again succeeds and changes nothing, as long as the index loads and
  still holds the run.\<close>

theorem settlement_is_idempotent:
  assumes "persist_settled_receipt env run receipt q s = (Ok (), s')" and "settlement_inv s"
    and "hmem run (cs_debts s)" and "index_inv (se_disk env) (cs_files s)"
    and "load_recovered_runs (se_disk env) (cs_files s') = Ok runs"
    and "\<exists>rec\<in>set runs. rr_run_id (rec_record rec) = run"
  shows "persist_settled_receipt env run receipt q s' = (Ok (), s')"
proof -
  have wf: "hwf (cs_debts s)" using assms(2) by (simp add: settlement_inv_def)
  obtain t rc where gone: "hget (cs_debts s') run = None"
    and t: "terminal_of (se_names env) receipt = Ok t" "receipt_wire (se_names env) receipt = Ok rc"
      "record_run_settled (se_disk env) run t rc q (cs_files s) = (Ok (), cs_files s')"
    using persist_cases [OF assms(1) wf] assms(3) by auto
  obtain rec where rec: "List.find (\<lambda>rec. rr_run_id (rec_record rec) = run) runs = Some rec"
    using assms(6) by (metis (mono_tags, lifting) find_None_iff not_None_eq)
  then have "rec \<in> set runs" "rr_run_id (rec_record rec) = run"
    by (auto simp: find_Some_iff)
  from settled_recovery [OF assms(4) t(3) assms(5) this] show ?thesis
    using gone t rec assms(5) by (simp add: persist_settled_receipt_def hmem_def)
qed

theorem settlement_is_idempotent_witness:
  "\<exists>s'. persist_settled_receipt sample_settlement_env ''r'' sample_cancelled_turn 7 sample_core = (Ok (), s') \<and>
     persist_settled_receipt sample_settlement_env ''r'' sample_cancelled_turn 7 s' = (Ok (), s')"
proof -
  let ?s' = "sample_core\<lparr>cs_files := sample_root\<lparr>hf_runs := Some [2]\<rparr>, cs_debts := []\<rparr>"
  have inv: "index_inv sample_disk (sample_root\<lparr>hf_runs := Some [1]\<rparr>)"
    by (rule sample_started_inv)
  have sel: "se_disk sample_settlement_env = sample_disk" "cs_files sample_core = sample_root\<lparr>hf_runs := Some [1]\<rparr>"
    "hmem ''r'' (cs_debts sample_core)"
    by (simp_all add: sample_settlement_env_def sample_core_def hmem_def)
  have "persist_settled_receipt sample_settlement_env ''r'' sample_cancelled_turn 7 ?s' = (Ok (), ?s')"
    by (rule settlement_is_idempotent [OF sample_persist sample_core_inv])
      (simp_all add: sel inv sample_settled_loads, simp add: sample_settled_def sample_record_def)
  with sample_persist show ?thesis by blast
qed

end
