(* ===== verification/Extension_Wire.thy ===== *)
theory Extension_Wire
  imports Wire_Value
begin

text \<open>
  The wire vocabulary of extension registrations (\<open>echo-sdk-protocol/src/methods.rs\<close>): the kinds,
  the versioned descriptors with their validation, the registration request and its bounds. The
  serializer is a parameter: the byte length of a descriptor's JSON, or none when it does not encode.
\<close>

section \<open>Kinds and capabilities\<close>

datatype extension_kind =
    KTool | KLlmClient | KStore | KHumanLoopProvider | KHook | KAgentCallback
  | KInterventionCallback | KAgentFactory | KCustomAgent | KCritic | KChannelPlugin
  | KChannelMessageHandler | KContextCompressor | KAgentComponent

fun extension_kind_str :: "extension_kind \<Rightarrow> string" where
  "extension_kind_str KTool = ''tool''"
| "extension_kind_str KLlmClient = ''llm_client''"
| "extension_kind_str KStore = ''store''"
| "extension_kind_str KHumanLoopProvider = ''human_loop_provider''"
| "extension_kind_str KHook = ''hook''"
| "extension_kind_str KAgentCallback = ''agent_callback''"
| "extension_kind_str KInterventionCallback = ''intervention_callback''"
| "extension_kind_str KAgentFactory = ''agent_factory''"
| "extension_kind_str KCustomAgent = ''custom_agent''"
| "extension_kind_str KCritic = ''critic''"
| "extension_kind_str KChannelPlugin = ''channel_plugin''"
| "extension_kind_str KChannelMessageHandler = ''channel_message_handler''"
| "extension_kind_str KContextCompressor = ''context_compressor''"
| "extension_kind_str KAgentComponent = ''agent_component''"

lemma extension_kind_str_inject [simp]: "extension_kind_str a = extension_kind_str b \<longleftrightarrow> a = b"
  by (cases a; cases b) simp_all

datatype model_modality = ModText | ModImage | ModAudio | ModVideo
datatype search_mode = SearchKeyword | SearchSemantic | SearchHybrid
datatype tool_permission = PermRead | PermWrite | PermNetwork | PermExecute | PermSensitive
datatype tool_risk_level = RiskReadOnly | RiskStandard | RiskDangerous

record llm_capabilities =
  lc_streaming_tool_calls :: bool
  lc_named_sse_events :: bool
  lc_reasoning_content :: bool
  lc_image_input :: bool
  lc_system_as_top_level :: bool
  lc_ndjson_streaming :: bool
  lc_tool_support :: bool
  lc_structured_output :: bool
  lc_requires_version_header :: bool
  lc_supports_parallel_tool_calls :: bool
  lc_supports_tool_choice_none :: bool
  lc_tokenizer_name :: "string option"

datatype channel_chat_type = ChatDirect | ChatGroup

record channel_capabilities =
  cc_chat_types :: "channel_chat_type list"
  cc_supports_media :: bool
  cc_supports_threads :: bool

record channel_plugin_descriptor =
  cp_descriptor_version :: u32
  cp_channel_id :: string
  cp_label :: string
  cp_capabilities :: channel_capabilities
  cp_handler_id :: string

record channel_handler_descriptor =
  ch_descriptor_version :: u32
  ch_handler_id :: string

datatype component_kind =
    ConversationStore | RunStore | RuntimeStateStore | AuditLogger | ContextProjector
  | MemoryTriggerSink | Guard | SearchProvider | WorkflowCheckpointStore | RevisionedTaskStore
  | SandboxExecutor | McpTransport | Embedder | MemoryPromoter | Workflow | IntentClassifier
  | SkillLoadPolicy

datatype conversation_projection = ProjectionUnsupported | ProjectionAtomicV1
datatype runtime_state_capability = RuntimeStateUnsupported | RuntimeStateRevisionedV1
datatype persistence_call = PersistenceUnsupported | AbsoluteDeadlineV1

record component_capabilities =
  ac_execution_cas_v1 :: bool
  ac_protected_claim_v1 :: bool
  ac_conversation_projection :: conversation_projection
  ac_runtime_state :: runtime_state_capability
  ac_persistence_call :: persistence_call
  ac_isolation_level :: "string option"
  ac_supports_streaming :: bool
  ac_supports_notifications :: bool
  ac_claim_heartbeat_interval_ms :: "wire_u64 option"

section \<open>Descriptors\<close>

record tool_descriptor =
  td_descriptor_version :: u32
  td_name :: string
  td_description :: string
  td_parameters :: wire_value
  td_schema_revision :: wire_u64
  td_required_input_modalities :: "model_modality list"
  td_required_permissions :: "tool_permission list"
  td_risk_level :: tool_risk_level
  td_supports_streaming :: bool
  td_exempt_from_batch_timeout :: bool
  td_allows_parallel_batch_execution :: bool
  td_manages_own_timeout :: bool

record custom_agent_descriptor =
  ca_descriptor_version :: u32
  ca_name :: string
  ca_model_name :: string
  ca_system_prompt :: string
  ca_tool_names :: "string list"

datatype extension_descriptor =
    DTool tool_descriptor
  | DLlmClient u32 string bool llm_capabilities
  | DStore u32 "search_mode list"
  | DHumanLoopProvider u32
  | DHook u32 "string list"
  | DAgentCallback u32
  | DInterventionCallback u32
  | DAgentFactory u32
  | DCustomAgent custom_agent_descriptor
  | DCritic u32 string
  | DChannelPlugin channel_plugin_descriptor
  | DChannelMessageHandler channel_handler_descriptor
  | DContextCompressor u32 string
  | DAgentComponent u32 component_kind string component_capabilities

fun descriptor_kind :: "extension_descriptor \<Rightarrow> extension_kind" where
  "descriptor_kind (DTool _) = KTool"
| "descriptor_kind (DLlmClient _ _ _ _) = KLlmClient"
| "descriptor_kind (DStore _ _) = KStore"
| "descriptor_kind (DHumanLoopProvider _) = KHumanLoopProvider"
| "descriptor_kind (DHook _ _) = KHook"
| "descriptor_kind (DAgentCallback _) = KAgentCallback"
| "descriptor_kind (DInterventionCallback _) = KInterventionCallback"
| "descriptor_kind (DAgentFactory _) = KAgentFactory"
| "descriptor_kind (DCustomAgent _) = KCustomAgent"
| "descriptor_kind (DCritic _ _) = KCritic"
| "descriptor_kind (DChannelPlugin _) = KChannelPlugin"
| "descriptor_kind (DChannelMessageHandler _) = KChannelMessageHandler"
| "descriptor_kind (DContextCompressor _ _) = KContextCompressor"
| "descriptor_kind (DAgentComponent _ _ _ _) = KAgentComponent"

fun descriptor_version :: "extension_descriptor \<Rightarrow> u32" where
  "descriptor_version (DTool t) = td_descriptor_version t"
| "descriptor_version (DLlmClient v _ _ _) = v"
| "descriptor_version (DStore v _) = v"
| "descriptor_version (DHumanLoopProvider v) = v"
| "descriptor_version (DHook v _) = v"
| "descriptor_version (DAgentCallback v) = v"
| "descriptor_version (DInterventionCallback v) = v"
| "descriptor_version (DAgentFactory v) = v"
| "descriptor_version (DCustomAgent a) = ca_descriptor_version a"
| "descriptor_version (DCritic v _) = v"
| "descriptor_version (DChannelPlugin p) = cp_descriptor_version p"
| "descriptor_version (DChannelMessageHandler h) = ch_descriptor_version h"
| "descriptor_version (DContextCompressor v _) = v"
| "descriptor_version (DAgentComponent v _ _ _) = v"

definition supported_descriptor_version :: u32 where "supported_descriptor_version = 1"

definition hook_event_names :: "string list" where
  "hook_event_names =
   [
    ''PreToolUse'', ''PostToolUse'', ''PostToolUseFailure'', ''PermissionRequest'',
    ''PermissionDenied'', ''SessionStart'', ''SessionEnd'', ''Stop'', ''Notification'',
    ''UserPromptSubmit'', ''PreCompact'', ''PostCompact'', ''ConfigChange'',
    ''InstructionsLoaded'', ''PostToolBatch'', ''SubagentStart'', ''SubagentStop'',
    ''TaskCreated'', ''TaskStarted'', ''TaskCompleted'', ''StopFailure'', ''PluginLoaded'',
    ''PluginDisabled'', ''PostMemoryWrite'', ''MemoryLayerChange'', ''SkillCandidateDetected'',
    ''SkillLifecycleTransition'', ''SkillHealthCheck'', ''SkillPatchApplied'',
    ''SkillMergeApplied'', ''RulePromoted'']"

text \<open>\<open>name.trim().is_empty() || name.chars().count() > limit\<close>\<close>

definition bad_name :: "nat \<Rightarrow> string \<Rightarrow> bool" where
  "bad_name limit s = (blank s \<or> limit < length s)"

definition validate_tool_descriptor :: "base64_decoder \<Rightarrow> tool_descriptor \<Rightarrow> string + unit" where
  "validate_tool_descriptor b64 t =
     (if bad_name 128 (td_name t) then Err ''tool descriptor name must be non-empty and bounded''
      else if 8192 < length (td_description t) then Err ''tool descriptor description exceeds its bound''
      else map_err (\<lambda>_. ''tool descriptor parameters are not a valid wire value'')
             (validate_wire_value b64 (td_parameters t)))"

definition validate_llm_descriptor :: "string \<Rightarrow> llm_capabilities \<Rightarrow> string + unit" where
  "validate_llm_descriptor model_name c =
     (if bad_name 256 model_name
      then Err ''llm client descriptor model_name must be non-empty and bounded''
      else case lc_tokenizer_name c of
        None \<Rightarrow> Ok ()
      | Some name \<Rightarrow>
          if name \<in> {''cl100k_base'', ''o200k_base'', ''claude''} then Ok ()
          else Err ''llm client descriptor tokenizer_name is unsupported by Rust'')"

definition validate_custom_agent_descriptor :: "custom_agent_descriptor \<Rightarrow> string + unit" where
  "validate_custom_agent_descriptor a =
     (if bad_name 256 (ca_name a)
      then Err ''custom agent descriptor name must be non-empty and bounded''
      else if bad_name 256 (ca_model_name a)
      then Err ''custom agent descriptor model_name must be non-empty and bounded''
      else if 65536 < length (ca_system_prompt a)
      then Err ''custom agent descriptor system_prompt exceeds its bound''
      else if 1024 < length (ca_tool_names a) \<or> list_ex (bad_name 256) (ca_tool_names a)
      then Err ''custom agent descriptor tool_names are empty or exceed their bound''
      else Ok ())"

definition valid_isolation_levels :: "string list" where
  "valid_isolation_levels = [''none'', ''process'', ''os-sandbox'', ''container'', ''orchestrated'']"

text \<open>The heartbeat check of workflow checkpoint stores: present and from 1 to 300000 ms.\<close>

definition heartbeat_in_range :: "wire_u64 option \<Rightarrow> bool" where
  "heartbeat_in_range h =
     (case h of None \<Rightarrow> False
      | Some w \<Rightarrow> (case to_u64 w of None \<Rightarrow> False | Some v \<Rightarrow> 1 \<le> v \<and> v \<le> 300000))"

definition validate_component_descriptor ::
  "component_kind \<Rightarrow> component_capabilities \<Rightarrow> string + unit" where
  "validate_component_descriptor k c =
     (if ac_execution_cas_v1 c \<and> k \<noteq> RevisionedTaskStore
      then Err ''execution CAS capability requires a revisioned task store''
      else if ac_protected_claim_v1 c \<and> k \<noteq> WorkflowCheckpointStore
      then Err ''protected claim capability requires a workflow checkpoint store''
      else if ac_conversation_projection c \<noteq> ProjectionUnsupported \<and> k \<noteq> ConversationStore
      then Err ''conversation projection capability requires a conversation store''
      else if ac_runtime_state c \<noteq> RuntimeStateUnsupported \<and> k \<noteq> RuntimeStateStore
      then Err ''runtime state capability requires a runtime state store''
      else if ac_persistence_call c \<noteq> PersistenceUnsupported \<and> k \<notin> {ConversationStore, RuntimeStateStore}
      then Err ''persistence deadline capability requires a managed store component''
      else if (case ac_isolation_level c of None \<Rightarrow> False | Some l \<Rightarrow> l \<notin> set valid_isolation_levels)
      then Err ''agent component isolation_level is invalid''
      else if ac_supports_streaming c \<and> k \<notin> {SandboxExecutor, Workflow}
      then Err ''streaming is only valid for sandbox and workflow components''
      else if k \<noteq> SandboxExecutor \<and> ac_isolation_level c \<noteq> None
      then Err ''isolation_level is only valid for sandbox components''
      else if k \<noteq> McpTransport \<and> ac_supports_notifications c
      then Err ''notifications are only valid for MCP transport components''
      else if k = WorkflowCheckpointStore
      then (if heartbeat_in_range (ac_claim_heartbeat_interval_ms c) then Ok ()
            else Err ''workflow checkpoint stores require a claim heartbeat from 1 to 300000 ms'')
      else if ac_claim_heartbeat_interval_ms c \<noteq> None
      then Err ''claim_heartbeat_interval_ms is only valid for workflow checkpoint stores''
      else Ok ())"

definition validate_channel_plugin :: "channel_plugin_descriptor \<Rightarrow> string + unit" where
  "validate_channel_plugin p =
     (if bad_name 256 (cp_channel_id p) \<or> 256 < length (cp_label p) \<or> bad_name 256 (cp_handler_id p)
      then Err ''channel plugin descriptor identity is empty or exceeds its bound''
      else if cc_chat_types (cp_capabilities p) = []
      then Err ''channel plugin descriptor must declare a chat type''
      else Ok ())"

fun validate_descriptor_body :: "base64_decoder \<Rightarrow> extension_descriptor \<Rightarrow> string + unit" where
  "validate_descriptor_body b64 (DTool t) = validate_tool_descriptor b64 t"
| "validate_descriptor_body b64 (DLlmClient _ model_name _ c) = validate_llm_descriptor model_name c"
| "validate_descriptor_body b64 (DCustomAgent a) = validate_custom_agent_descriptor a"
| "validate_descriptor_body b64 (DCritic _ name) =
     reject_if (bad_name 256 name) ''critic descriptor name is empty or exceeds its bound''"
| "validate_descriptor_body b64 (DContextCompressor _ name) =
     reject_if (bad_name 256 name) ''context compressor descriptor name is empty or exceeds its bound''"
| "validate_descriptor_body b64 (DAgentComponent _ k name c) =
     and_then (reject_if (bad_name 256 name) ''agent component descriptor name is empty or exceeds its bound'')
       (\<lambda>_. validate_component_descriptor k c)"
| "validate_descriptor_body b64 (DChannelPlugin p) = validate_channel_plugin p"
| "validate_descriptor_body b64 (DChannelMessageHandler h) =
     reject_if (bad_name 256 (ch_handler_id h))
       ''channel message handler descriptor identity is empty or bounded''"
| "validate_descriptor_body b64 (DHook _ events) =
     reject_if (128 < length events \<or> list_ex (\<lambda>e. \<not> List.member hook_event_names e) events)
       ''hook descriptor contains an unknown or excessive event name''"
| "validate_descriptor_body b64 (DStore _ _) = Ok ()"
| "validate_descriptor_body b64 (DHumanLoopProvider _) = Ok ()"
| "validate_descriptor_body b64 (DAgentCallback _) = Ok ()"
| "validate_descriptor_body b64 (DInterventionCallback _) = Ok ()"
| "validate_descriptor_body b64 (DAgentFactory _) = Ok ()"

definition validate_descriptor :: "base64_decoder \<Rightarrow> extension_descriptor \<Rightarrow> string + unit" where
  "validate_descriptor b64 d =
     (if descriptor_version d \<noteq> supported_descriptor_version
      then Err ''unsupported extension descriptor_version''
      else validate_descriptor_body b64 d)"

section \<open>Registration requests\<close>

definition max_extension_implementation_id_chars :: nat where "max_extension_implementation_id_chars = 256"
definition max_extension_descriptor_bytes :: nat where "max_extension_descriptor_bytes = 65536"

record register_request =
  rq_kind :: extension_kind
  rq_implementation_id :: string
  rq_descriptor :: extension_descriptor
  rq_timeout :: "wire_duration option"

definition validate_register_request ::
  "base64_decoder \<Rightarrow> (extension_descriptor \<Rightarrow> nat option) \<Rightarrow> register_request \<Rightarrow> string + unit" where
  "validate_register_request b64 encoded_len r =
     (if blank (rq_implementation_id r) \<or>
         max_extension_implementation_id_chars < length (rq_implementation_id r)
      then Err ''implementation_id must be non-empty and bounded''
      else if descriptor_kind (rq_descriptor r) \<noteq> rq_kind r
      then Err ''descriptor kind does not match the registration kind''
      else and_then (validate_descriptor b64 (rq_descriptor r)) (\<lambda>_.
        case encoded_len (rq_descriptor r) of
          None \<Rightarrow> Err ''descriptor is not encodable''
        | Some n \<Rightarrow>
            if max_extension_descriptor_bytes < n
            then Err ''descriptor exceeds the serialized descriptor bound''
            else (case rq_timeout r of
                None \<Rightarrow> Ok ()
              | Some t \<Rightarrow>
                  and_then (map_err (\<lambda>_. ''registration timeout is out of range'') (validate_duration t)) (\<lambda>_.
                  reject_if (to_u64 (dur_seconds t) = Some 0 \<and> dur_nanos t = 0)
                    ''registration timeout must be positive''))))"

end
