(* ===== verification/Registry.thy ===== *)
theory Registry
  imports Run_Wire Extension_Wire
begin

text \<open>
  The generation-fenced handle registry of the Host
  (\<open>echo-sdk-host/src/core_profile/handles.rs\<close>): its state, the validation ladder, the open-handle
  budget, and the Agent, Session, task, Run and Stream operations. \<open>HandleInner\<close> is the record
  \<open>handle_inner\<close>; every section the code runs under the registry lock is one function on it, and an
  operation that locks twice is the composition of two of them. The definition of an Agent is the type
  parameter \<open>'d\<close>; of a live run's framework entry only its session id is read. A minted UUID is an
  argument of the operation that mints it.
\<close>

section \<open>State\<close>

record 'd agent_entry =
  ae_closing :: bool
  ae_definition :: 'd
  ae_fingerprint :: string

record session_entry =
  sn_cancelled :: bool
  sn_closing :: bool
  sn_acp_session_id :: string
  sn_agent_handle_id :: string
  sn_cwd :: "native_path option"
  sn_task_run_handle_id :: string

record task_run_entry =
  tr_session_handle_id :: string
  tr_acp_session_id :: string

record plan_task_entry =
  pt_task_run_handle_id :: string
  pt_task_id :: string

record recovered_entry =
  rv_stream_id :: string
  rv_session_id :: string
  rv_status :: run_status
  rv_last_sequence :: u64
  rv_terminal :: "run_terminal option"
  rv_receipt :: "run_receipt option"

datatype run_entry = LiveRun string | RecoveredRun recovered_entry

text \<open>A stream; \<open>st_token\<close> is the facade cancellation token, with whether it is cancelled.\<close>

record stream_entry =
  st_run_handle_id :: string
  st_owner_session :: "string option"
  st_resource_id :: "string option"
  st_facade :: bool
  st_token :: "bool option"
  st_last_sequence :: u64
  st_cancelled :: bool
  st_terminal :: bool

record facade_entry =
  fr_closing :: bool
  fr_cancelled :: bool
  fr_family :: string
  fr_resource_type :: string
  fr_owner_session :: "string option"

record extension_entry =
  ex_kind :: extension_kind
  ex_implementation_id :: string
  ex_descriptor :: extension_descriptor
  ex_fingerprint :: string
  ex_timeout :: "wire_duration option"
  ex_registration_order :: u64
  ex_factory_instance :: bool
  ex_factory_origin :: "wire_handle option"
  ex_reserved :: bool

record publication_key =
  pk_generation :: u64
  pk_operation :: string
  pk_owner :: string
  pk_key :: string

text \<open>\<open>HandleInner\<close>; a publication is the address of its shared record.\<close>

record 'd handle_inner =
  hi_generation :: u64
  hi_max_handles :: usize
  hi_agents :: "'d agent_entry hmap"
  hi_sessions :: "session_entry hmap"
  hi_task_runs :: "task_run_entry hmap"
  hi_plan_tasks :: "plan_task_entry hmap"
  hi_plan_task_index :: "((string \<times> string) \<times> string) list"
  hi_runs :: "run_entry hmap"
  hi_streams :: "stream_entry hmap"
  hi_extensions :: "extension_entry hmap"
  hi_facade_resources :: "facade_entry hmap"
  hi_extension_index :: "string hmap"
  hi_tombstones :: "(handle_kind \<times> string) list"
  hi_idempotency :: "wire_handle hmap"
  hi_publications :: "(publication_key \<times> nat) list"
  hi_publications_fenced :: bool
  hi_next_agent_id :: u64
  hi_next_extension_order :: u64

definition new_registry :: "u64 \<Rightarrow> usize \<Rightarrow> 'd handle_inner" where
  "new_registry generation max_handles =
     \<lparr>hi_generation = generation, hi_max_handles = max_handles, hi_agents = [], hi_sessions = [],
      hi_task_runs = [], hi_plan_tasks = [], hi_plan_task_index = [], hi_runs = [], hi_streams = [],
      hi_extensions = [], hi_facade_resources = [], hi_extension_index = [], hi_tombstones = [],
      hi_idempotency = [], hi_publications = [], hi_publications_fenced = False,
      hi_next_agent_id = 0, hi_next_extension_order = 0\<rparr>"

section \<open>The validation ladder\<close>

datatype resolve_error_kind =
  InvalidShape string | WrongKind | StaleGeneration | UnknownHandle | ReleasedHandle

definition tombstoned :: "'d handle_inner \<Rightarrow> wire_handle \<Rightarrow> bool" where
  "tombstoned s h = list_ex (\<lambda>t. fst t = h_kind h \<and> snd t = h_id h) (hi_tombstones s)"

definition is_closed :: "'d handle_inner \<Rightarrow> wire_handle \<Rightarrow> bool" where
  "is_closed s h = (to_u64 (h_generation h) = Some (hi_generation s) \<and> tombstoned s h)"

definition classify :: "'d handle_inner \<Rightarrow> wire_handle \<Rightarrow> handle_kind \<Rightarrow> resolve_error_kind" where
  "classify s h expected =
     (if \<not> is_ok (validate_handle h) then InvalidShape ''handle id must be non-empty and bounded''
      else if h_kind h \<noteq> expected then WrongKind
      else case to_u64 (h_generation h) of
        None \<Rightarrow> InvalidShape ''handle generation is not a valid integer''
      | Some g \<Rightarrow>
          if g < hi_generation s then StaleGeneration
          else if hi_generation s < g then InvalidShape ''handle generation is from the future''
          else if tombstoned s h then ReleasedHandle else UnknownHandle)"

definition wrong_kind_message :: "wire_handle \<Rightarrow> handle_kind \<Rightarrow> string" where
  "wrong_kind_message h expected =
     ''handle kind '' @ handle_kind_str (h_kind h) @ '' does not address '' @ handle_kind_str expected"

definition stale_message :: "u64 \<Rightarrow> u64 \<Rightarrow> string" where
  "stale_message present generation =
     ''handle generation '' @ show_nat (unat present) @ '' predates Host generation '' @
     show_nat (unat generation)"

definition resolve_error :: "'d handle_inner \<Rightarrow> wire_handle \<Rightarrow> handle_kind \<Rightarrow> string \<Rightarrow> sdk_err" where
  "resolve_error s h expected operation =
     (case classify s h expected of
        InvalidShape reason \<Rightarrow> sdk_error InvalidValue reason Never operation
      | StaleGeneration \<Rightarrow>
          handle_error StaleHandle
            (stale_message (case to_u64 (h_generation h) of None \<Rightarrow> 0 | Some g \<Rightarrow> g) (hi_generation s)) operation h
      | WrongKind \<Rightarrow> handle_error InvalidValue (wrong_kind_message h expected) operation h
      | UnknownHandle \<Rightarrow>
          handle_error InvalidValue ''handle was never issued by this Host generation'' operation h
      | ReleasedHandle \<Rightarrow>
          handle_error ClosedHandle ''handle was already released by this Host generation'' operation h)"

definition check_shape_and_generation ::
  "'d handle_inner \<Rightarrow> wire_handle \<Rightarrow> handle_kind \<Rightarrow> string \<Rightarrow> sdk_err + unit" where
  "check_shape_and_generation s h expected operation =
     (if \<not> is_ok (validate_handle h)
      then Err (sdk_error InvalidValue ''handle id must be non-empty and bounded'' Never operation)
      else if h_kind h \<noteq> expected
      then Err (handle_error InvalidValue (wrong_kind_message h expected) operation h)
      else case to_u64 (h_generation h) of
        None \<Rightarrow> Err (sdk_error InvalidValue ''handle generation is not a valid integer'' Never operation)
      | Some present \<Rightarrow>
          if present < hi_generation s
          then Err (handle_error StaleHandle (stale_message present (hi_generation s)) operation h)
          else if hi_generation s < present
          then Err (handle_error InvalidValue
                 (''handle generation '' @ show_nat (unat present) @ '' is from a future Host generation '' @
                  show_nat (unat (hi_generation s))) operation h)
          else Ok ())"

text \<open>A family lookup behind the ladder, and the bare lookup that maps its failure.\<close>

definition lookup :: "'v hmap \<Rightarrow> 'd handle_inner \<Rightarrow> wire_handle \<Rightarrow> handle_kind \<Rightarrow> string \<Rightarrow> sdk_err + 'v" where
  "lookup m s h expected operation = ok_or (hget m (h_id h)) (resolve_error s h expected operation)"

definition checked_lookup ::
  "'v hmap \<Rightarrow> 'd handle_inner \<Rightarrow> wire_handle \<Rightarrow> handle_kind \<Rightarrow> string \<Rightarrow> sdk_err + 'v" where
  "checked_lookup m s h expected operation =
     and_then (check_shape_and_generation s h expected operation) (\<lambda>_. lookup m s h expected operation)"

section \<open>Budget, identities and tombstones\<close>

definition open_handles :: "'d handle_inner \<Rightarrow> usize" where
  "open_handles s =
     saturating_add (saturating_add (saturating_add (saturating_add (saturating_add (saturating_add
       (saturating_add (len_usize (hi_agents s)) (len_usize (hi_sessions s)))
       (len_usize (hi_task_runs s))) (len_usize (hi_plan_tasks s))) (len_usize (hi_runs s)))
       (len_usize (hi_streams s))) (len_usize (hi_extensions s))) (len_usize (hi_facade_resources s))"

definition enforce_budget :: "'d handle_inner \<Rightarrow> usize \<Rightarrow> sdk_err + unit" where
  "enforce_budget s additional =
     reject_if (hi_max_handles s < saturating_add (open_handles s) additional)
       (sdk_error PayloadTooLarge
          (''open handle limit '' @ show_nat (unat (hi_max_handles s)) @ '' reached'') AfterDelay ''handle-registry'')"

text \<open>\<open>format!("{}-{}", kind.as_str(), uuid)\<close>\<close>

definition minted_id :: "handle_kind \<Rightarrow> string \<Rightarrow> string" where
  "minted_id kind uuid = handle_kind_str kind @ ''-'' @ uuid"

text \<open>\<open>mint_id\<close>: Agent ids count up, every other id carries a fresh UUID.\<close>

definition mint_id :: "handle_kind \<Rightarrow> string \<Rightarrow> 'd handle_inner \<Rightarrow> (sdk_err + string) \<times> 'd handle_inner" where
  "mint_id kind uuid s =
     (if kind = AgentKind then
        (case checked_add (hi_next_agent_id s) 1 of
           None \<Rightarrow> (Err (sdk_error PayloadTooLarge ''Agent handle id counter exhausted'' Never ''handle-registry''), s)
         | Some n \<Rightarrow> (Ok (''agent-'' @ show_nat (unat n)), s\<lparr>hi_next_agent_id := n\<rparr>))
      else (Ok (minted_id kind uuid), s))"

definition issued :: "'d handle_inner \<Rightarrow> handle_kind \<Rightarrow> string \<Rightarrow> wire_handle" where
  "issued s kind i = mk_handle i kind (hi_generation s)"

text \<open>\<open>while tombstones.len() > max_handles { tombstones.pop_front(); }\<close>\<close>

fun pop_excess :: "nat \<Rightarrow> 'a list \<Rightarrow> 'a list" where
  "pop_excess m [] = []"
| "pop_excess m (t # ts) = (if m < length (t # ts) then pop_excess m ts else t # ts)"

definition push_tombstones :: "(handle_kind \<times> string) list \<Rightarrow> 'd handle_inner \<Rightarrow> 'd handle_inner" where
  "push_tombstones ts s =
     s\<lparr>hi_tombstones := pop_excess (unat (hi_max_handles s)) (hi_tombstones s @ ts)\<rparr>"

section \<open>Agents\<close>

definition register_agent ::
  "'d \<Rightarrow> string \<Rightarrow> 'd handle_inner \<Rightarrow> (sdk_err + wire_handle \<times> 'd agent_entry) \<times> 'd handle_inner" where
  "register_agent definition_of fingerprint s =
     (case enforce_budget s 1 of
        Inl e \<Rightarrow> (Err e, s)
      | Inr _ \<Rightarrow>
          (case mint_id AgentKind [] s of
             (Inl e, s1) \<Rightarrow> (Err e, s1)
           | (Inr i, s1) \<Rightarrow>
               let entry = \<lparr>ae_closing = False, ae_definition = definition_of, ae_fingerprint = fingerprint\<rparr>
               in (Ok (issued s1 AgentKind i, entry), s1\<lparr>hi_agents := hput i entry (hi_agents s1)\<rparr>)))"

definition agent_create_operation :: string where
  "agent_create_operation = ''_echo_agent/agent/create''"

definition idempotency_closed :: "wire_handle \<Rightarrow> sdk_err" where
  "idempotency_closed h =
     handle_error ClosedHandle ''idempotent create refers to a closed agent'' agent_create_operation h"

definition idempotency_conflict :: "wire_handle \<Rightarrow> sdk_err" where
  "idempotency_conflict h =
     handle_error InvalidRequest ''idempotency id was already used with a different config'' agent_create_operation h"

text \<open>The first locked section: an earlier creation under the same idempotency id.\<close>

definition create_lookup ::
  "string \<Rightarrow> string \<Rightarrow> 'd handle_inner \<Rightarrow> sdk_err + (wire_handle \<times> 'd agent_entry) option" where
  "create_lookup idem fingerprint s =
     (case hget (hi_idempotency s) idem of
        None \<Rightarrow> Ok None
      | Some previous \<Rightarrow>
          (case hget (hi_agents s) (h_id previous) of
             None \<Rightarrow> Err (idempotency_closed previous)
           | Some entry \<Rightarrow>
               if ae_fingerprint entry = fingerprint then Ok (Some (previous, entry))
               else Err (idempotency_conflict previous)))"

text \<open>The last locked section, after the Agent was registered: a concurrent creation may have won.\<close>

definition create_commit ::
  "string \<Rightarrow> string \<Rightarrow> wire_handle \<Rightarrow> 'd agent_entry \<Rightarrow> 'd handle_inner \<Rightarrow>
     (sdk_err + wire_handle \<times> 'd agent_entry \<times> bool) \<times> 'd handle_inner" where
  "create_commit idem fingerprint agent entry s =
     (case hget (hi_idempotency s) idem of
        Some previous \<Rightarrow>
          (case hget (hi_agents s) (h_id previous) of
             None \<Rightarrow> (Err (idempotency_closed previous), s)
           | Some winner \<Rightarrow>
               let s1 = s\<lparr>hi_agents := hdel (h_id agent) (hi_agents s)\<rparr>
               in if ae_fingerprint winner = fingerprint then (Ok (previous, winner, False), s1)
                  else (Err (idempotency_conflict previous), s1))
      | None \<Rightarrow>
          let kept = (if unat (hi_max_handles s) \<le> length (hi_idempotency s)
                      then (case hi_idempotency s of [] \<Rightarrow> [] | (oldest, _) # _ \<Rightarrow> hdel oldest (hi_idempotency s))
                      else hi_idempotency s)
          in (Ok (agent, entry, True), s\<lparr>hi_idempotency := hput idem agent kept\<rparr>))"

definition agent_create_idempotent ::
  "string \<Rightarrow> string \<Rightarrow> sdk_err + 'd \<times> string \<Rightarrow> 'd handle_inner \<Rightarrow>
     (sdk_err + wire_handle \<times> 'd agent_entry \<times> bool) \<times> 'd handle_inner" where
  "agent_create_idempotent idem fingerprint create s =
     (case create_lookup idem fingerprint s of
        Inl e \<Rightarrow> (Err e, s)
      | Inr (Some (h, entry)) \<Rightarrow> (Ok (h, entry, False), s)
      | Inr None \<Rightarrow>
          (case create of
             Inl e \<Rightarrow> (Err e, s)
           | Inr (definition_of, created_fingerprint) \<Rightarrow>
               (case register_agent definition_of created_fingerprint s of
                  (Inl e, s1) \<Rightarrow> (Err e, s1)
                | (Inr (agent, entry), s1) \<Rightarrow> create_commit idem fingerprint agent entry s1)))"

definition agent :: "wire_handle \<Rightarrow> 'd handle_inner \<Rightarrow> sdk_err + 'd agent_entry" where
  "agent h s = lookup (hi_agents s) s h AgentKind ''_echo_agent/agent''"

definition agent_fingerprint :: "wire_handle \<Rightarrow> 'd handle_inner \<Rightarrow> sdk_err + string" where
  "agent_fingerprint h s = map_ok ae_fingerprint (agent h s)"

text \<open>\<open>close_agent\<close>: the entry leaves the map under one lock, its tombstone enters under the next.\<close>

definition close_agent :: "wire_handle \<Rightarrow> 'd handle_inner \<Rightarrow> (sdk_err + bool) \<times> 'd handle_inner" where
  "close_agent h s =
     (case hget (hi_agents s) (h_id h) of
        None \<Rightarrow>
          (if is_closed s h then Ok False
           else Err (resolve_error s h AgentKind ''_echo_agent/agent/close''), s)
      | Some _ \<Rightarrow>
          (Ok True,
           push_tombstones [(AgentKind, h_id h)] (s\<lparr>hi_agents := hdel (h_id h) (hi_agents s)\<rparr>)))"

section \<open>Sessions and task graphs\<close>

definition register_session_with_cwd ::
  "string \<Rightarrow> string \<Rightarrow> string \<Rightarrow> string \<Rightarrow> native_path option \<Rightarrow> 'd handle_inner \<Rightarrow>
     (sdk_err + wire_handle \<times> wire_handle \<times> session_entry) \<times> 'd handle_inner" where
  "register_session_with_cwd session_uuid task_uuid acp_session_id agent_handle_id cwd s =
     (if (case hget (hi_agents s) agent_handle_id of None \<Rightarrow> True | Some a \<Rightarrow> ae_closing a)
      then (Err (resolve_error s (issued s AgentKind agent_handle_id) AgentKind ''_echo_agent/session/create''), s)
      else case enforce_budget s 2 of
        Inl e \<Rightarrow> (Err e, s)
      | Inr _ \<Rightarrow>
          (case mint_id SessionKind session_uuid s of
             (Inl e, s1) \<Rightarrow> (Err e, s1)
           | (Inr i, s1) \<Rightarrow>
               (case mint_id TaskRunKind task_uuid s1 of
                  (Inl e, s2) \<Rightarrow> (Err e, s2)
                | (Inr t, s2) \<Rightarrow>
                    let entry = \<lparr>sn_cancelled = False, sn_closing = False, sn_acp_session_id = acp_session_id,
                                 sn_agent_handle_id = agent_handle_id, sn_cwd = cwd, sn_task_run_handle_id = t\<rparr>
                    in (Ok (issued s2 SessionKind i, issued s2 TaskRunKind t, entry),
                        s2\<lparr>hi_sessions := hput i entry (hi_sessions s2),
                           hi_task_runs := hput t \<lparr>tr_session_handle_id = i, tr_acp_session_id = acp_session_id\<rparr>
                                             (hi_task_runs s2)\<rparr>))))"

definition session :: "wire_handle \<Rightarrow> 'd handle_inner \<Rightarrow> sdk_err + session_entry" where
  "session h s = lookup (hi_sessions s) s h SessionKind ''_echo_agent/session''"

definition task_run :: "wire_handle \<Rightarrow> 'd handle_inner \<Rightarrow> sdk_err + task_run_entry" where
  "task_run h s = checked_lookup (hi_task_runs s) s h TaskRunKind ''_echo_agent/task''"

definition task_run_for_session :: "wire_handle \<Rightarrow> 'd handle_inner \<Rightarrow> sdk_err + wire_handle" where
  "task_run_for_session h s = map_ok (\<lambda>entry. issued s TaskRunKind (sn_task_run_handle_id entry)) (session h s)"

definition register_plan_task ::
  "string \<Rightarrow> wire_handle \<Rightarrow> string \<Rightarrow> string \<Rightarrow> 'd handle_inner \<Rightarrow> (sdk_err + wire_handle) \<times> 'd handle_inner" where
  "register_plan_task uuid run_handle task_id operation s =
     (case task_run run_handle s of
        Inl e \<Rightarrow> (Err e, s)
      | Inr _ \<Rightarrow>
          if blank task_id
          then (Err (sdk_error InvalidValue ''PlanTask identity must be non-empty'' Never operation), s)
          else (case hget (hi_plan_task_index s) (h_id run_handle, task_id) of
             Some existing \<Rightarrow> (Ok (issued s PlanTaskKind existing), s)
           | None \<Rightarrow>
               if \<not> hmem (h_id run_handle) (hi_task_runs s)
               then (Err (resolve_error s run_handle TaskRunKind operation), s)
               else (case enforce_budget s 1 of
                  Inl e \<Rightarrow> (Err e, s)
                | Inr _ \<Rightarrow>
                    (case mint_id PlanTaskKind uuid s of
                       (Inl e, s1) \<Rightarrow> (Err e, s1)
                     | (Inr i, s1) \<Rightarrow>
                         (Ok (issued s1 PlanTaskKind i),
                          s1\<lparr>hi_plan_tasks := hput i \<lparr>pt_task_run_handle_id = h_id run_handle, pt_task_id = task_id\<rparr>
                                               (hi_plan_tasks s1),
                             hi_plan_task_index := hput (h_id run_handle, task_id) i (hi_plan_task_index s1)\<rparr>)))))"

definition plan_task_for_run ::
  "wire_handle \<Rightarrow> wire_handle \<Rightarrow> string \<Rightarrow> 'd handle_inner \<Rightarrow> sdk_err + plan_task_entry" where
  "plan_task_for_run h run_handle operation s =
     and_then (check_shape_and_generation s h PlanTaskKind operation) (\<lambda>_.
     and_then (check_shape_and_generation s run_handle TaskRunKind operation) (\<lambda>_.
     and_then (lookup (hi_plan_tasks s) s h PlanTaskKind operation) (\<lambda>entry.
       if pt_task_run_handle_id entry \<noteq> h_id run_handle
       then Err (handle_error InvalidValue ''PlanTask belongs to another TaskRun'' operation h)
       else Ok entry)))"

text \<open>\<open>close_session\<close>: the plan tasks and the TaskRun of the session are released with it.\<close>

definition remove_plan_task :: "string \<Rightarrow> 'd handle_inner \<Rightarrow> 'd handle_inner" where
  "remove_plan_task i s =
     (case hget (hi_plan_tasks s) i of
        None \<Rightarrow> s
      | Some pt \<Rightarrow>
          s\<lparr>hi_plan_tasks := hdel i (hi_plan_tasks s),
            hi_plan_task_index := hdel (pt_task_run_handle_id pt, pt_task_id pt) (hi_plan_task_index s)\<rparr>)"

definition plan_tasks_of :: "string \<Rightarrow> 'd handle_inner \<Rightarrow> string list" where
  "plan_tasks_of run_id s =
     map fst (filter (\<lambda>e. pt_task_run_handle_id (snd e) = run_id) (hi_plan_tasks s))"

definition release_session :: "wire_handle \<Rightarrow> session_entry \<Rightarrow> 'd handle_inner \<Rightarrow> 'd handle_inner" where
  "release_session h entry s =
     (let t = sn_task_run_handle_id entry;
          tasks = plan_tasks_of t s;
          s1 = fold remove_plan_task tasks s;
          s2 = s1\<lparr>hi_task_runs := hdel t (hi_task_runs s1)\<rparr>
      in push_tombstones
           (map (Pair PlanTaskKind) tasks @
            (if hmem t (hi_task_runs s1) then [(TaskRunKind, t)] else []) @ [(SessionKind, h_id h)]) s2)"

definition close_session :: "wire_handle \<Rightarrow> 'd handle_inner \<Rightarrow> (sdk_err + bool \<times> string) \<times> 'd handle_inner" where
  "close_session h s =
     (case hget (hi_sessions s) (h_id h) of
        None \<Rightarrow>
          (if is_closed s h then Ok (False, h_id h)
           else Err (resolve_error s h SessionKind ''_echo_agent/session/close''), s)
      | Some entry \<Rightarrow>
          (Ok (True, sn_acp_session_id entry),
           release_session h entry (s\<lparr>hi_sessions := hdel (h_id h) (hi_sessions s)\<rparr>)))"

text \<open>\<open>fence_sessions\<close>: every Agent and Session is closing, every Session's operations are cancelled.\<close>

definition fence_sessions :: "'d handle_inner \<Rightarrow> session_entry list \<times> 'd handle_inner" where
  "fence_sessions s =
     (let fenced = map (\<lambda>(i, e). (i, e\<lparr>sn_closing := True, sn_cancelled := True\<rparr>)) (hi_sessions s)
      in (map snd fenced,
          s\<lparr>hi_agents := map (\<lambda>(i, a). (i, a\<lparr>ae_closing := True\<rparr>)) (hi_agents s), hi_sessions := fenced\<rparr>))"

definition session_handle_for_acp :: "string \<Rightarrow> 'd handle_inner \<Rightarrow> wire_handle option" where
  "session_handle_for_acp acp s =
     map_option (\<lambda>e. issued s SessionKind (fst e))
       (List.find (\<lambda>e. sn_acp_session_id (snd e) = acp) (hi_sessions s))"

definition sessions_for_agent :: "string \<Rightarrow> 'd handle_inner \<Rightarrow> (wire_handle \<times> string) list" where
  "sessions_for_agent a s =
     map (\<lambda>e. (issued s SessionKind (fst e), sn_acp_session_id (snd e)))
       (filter (\<lambda>e. sn_agent_handle_id (snd e) = a) (hi_sessions s))"

section \<open>Runs and streams\<close>

definition plain_stream :: "string \<Rightarrow> u64 \<Rightarrow> stream_entry" where
  "plain_stream run_id last_sequence =
     \<lparr>st_run_handle_id = run_id, st_owner_session = None, st_resource_id = None, st_facade = False,
      st_token = None, st_last_sequence = last_sequence, st_cancelled = False, st_terminal = False\<rparr>"

text \<open>The checks of \<open>register_live_run\<close>: the Session of the entry, the budget, and a run id that is free.\<close>

definition admit_live_run :: "string \<Rightarrow> string \<Rightarrow> string option \<Rightarrow> 'd handle_inner \<Rightarrow> sdk_err + unit" where
  "admit_live_run run_id entry_session session_handle_id s =
     and_then
       (case session_handle_id of
          None \<Rightarrow> Ok ()
        | Some sh \<Rightarrow>
            (case hget (hi_sessions s) sh of
               None \<Rightarrow> Err (resolve_error s (issued s SessionKind sh) SessionKind ''_echo_agent/run/start'')
             | Some sess \<Rightarrow>
                 reject_if (sn_acp_session_id sess \<noteq> entry_session)
                   (sdk_error InvalidRequest ''run entry does not belong to the requested Session'' Never
                      ''_echo_agent/run/start'')))
       (\<lambda>_. and_then (enforce_budget s 1) (\<lambda>_.
         reject_if (hmem run_id (hi_runs s))
           (sdk_error InvalidRequest ''run id is already registered'' AfterDelay ''_echo_agent/run/start'')))"

definition register_live_run ::
  "string \<Rightarrow> string \<Rightarrow> string option \<Rightarrow> 'd handle_inner \<Rightarrow> (sdk_err + wire_handle \<times> run_entry) \<times> 'd handle_inner" where
  "register_live_run run_id entry_session session_handle_id s =
     (case admit_live_run run_id entry_session session_handle_id s of
        Inl e \<Rightarrow> (Err e, s)
      | Inr _ \<Rightarrow>
          (Ok (issued s RunKind run_id, LiveRun entry_session),
           s\<lparr>hi_runs := hput run_id (LiveRun entry_session) (hi_runs s)\<rparr>))"

definition register_recovered_run ::
  "string \<Rightarrow> recovered_entry \<Rightarrow> 'd handle_inner \<Rightarrow>
     (sdk_err + wire_handle \<times> wire_handle \<times> run_entry) \<times> 'd handle_inner" where
  "register_recovered_run run_id entry s =
     (case and_then (enforce_budget s 2) (\<lambda>_.
           reject_if (hmem run_id (hi_runs s) \<or> hmem (rv_stream_id entry) (hi_streams s))
             (sdk_error InvalidRequest ''recovered run or stream id is already registered'' AfterDelay
                ''_echo_agent/session/load'')) of
        Inl e \<Rightarrow> (Err e, s)
      | Inr _ \<Rightarrow>
          (Ok (issued s RunKind run_id, issued s StreamKind (rv_stream_id entry), RecoveredRun entry),
           s\<lparr>hi_runs := hput run_id (RecoveredRun entry) (hi_runs s),
             hi_streams := hput (rv_stream_id entry) (plain_stream run_id (rv_last_sequence entry)) (hi_streams s)\<rparr>))"

definition register_live_stream ::
  "string \<Rightarrow> string \<Rightarrow> 'd handle_inner \<Rightarrow> (sdk_err + wire_handle) \<times> 'd handle_inner" where
  "register_live_stream stream_id run_handle_id s =
     (case and_then (enforce_budget s 1) (\<lambda>_.
           reject_if (hmem stream_id (hi_streams s))
             (sdk_error InvalidRequest ''stream id is already registered'' AfterDelay ''_echo_agent/run/start'')) of
        Inl e \<Rightarrow> (Err e, s)
      | Inr _ \<Rightarrow>
          (Ok (issued s StreamKind stream_id),
           s\<lparr>hi_streams := hput stream_id (plain_stream run_handle_id 0) (hi_streams s)\<rparr>))"

definition run :: "wire_handle \<Rightarrow> 'd handle_inner \<Rightarrow> sdk_err + run_entry" where
  "run h s = lookup (hi_runs s) s h RunKind ''_echo_agent/run''"

definition stream :: "wire_handle \<Rightarrow> 'd handle_inner \<Rightarrow> sdk_err + stream_entry" where
  "stream h s = lookup (hi_streams s) s h StreamKind ''_echo_agent/run/replay''"

definition run_handle_for_id :: "string \<Rightarrow> 'd handle_inner \<Rightarrow> wire_handle option" where
  "run_handle_for_id i s = (if hmem i (hi_runs s) then Some (issued s RunKind i) else None)"

definition stream_handle_for_id :: "string \<Rightarrow> 'd handle_inner \<Rightarrow> wire_handle option" where
  "stream_handle_for_id i s = (if hmem i (hi_streams s) then Some (issued s StreamKind i) else None)"

fun run_session :: "run_entry \<Rightarrow> string" where
  "run_session (LiveRun sess) = sess"
| "run_session (RecoveredRun entry) = rv_session_id entry"

definition runs_for_session :: "string \<Rightarrow> 'd handle_inner \<Rightarrow> string list" where
  "runs_for_session sess s = map fst (filter (\<lambda>e. run_session (snd e) = sess) (hi_runs s))"

definition remove_run_handles :: "string \<Rightarrow> 'd handle_inner \<Rightarrow> 'd handle_inner" where
  "remove_run_handles run_id s =
     (let s1 = s\<lparr>hi_runs := hdel run_id (hi_runs s)\<rparr>
      in case List.find (\<lambda>e. st_run_handle_id (snd e) = run_id) (hi_streams s) of
           None \<Rightarrow> push_tombstones [(RunKind, run_id)] s1
         | Some (stream_id, _) \<Rightarrow>
             push_tombstones [(RunKind, run_id), (StreamKind, stream_id)]
               (s1\<lparr>hi_streams := hdel stream_id (hi_streams s1)\<rparr>))"

section \<open>Closing flags\<close>

text \<open>
  The close handlers raise the flag of their entry before they wait for its users, and never lower it.
\<close>

definition mark_agent_closing :: "string \<Rightarrow> 'd handle_inner \<Rightarrow> 'd handle_inner" where
  "mark_agent_closing i s =
     (case hget (hi_agents s) i of
        None \<Rightarrow> s
      | Some a \<Rightarrow> s\<lparr>hi_agents := hput i (a\<lparr>ae_closing := True\<rparr>) (hi_agents s)\<rparr>)"

definition mark_session_closing :: "string \<Rightarrow> 'd handle_inner \<Rightarrow> 'd handle_inner" where
  "mark_session_closing i s =
     (case hget (hi_sessions s) i of
        None \<Rightarrow> s
      | Some e \<Rightarrow> s\<lparr>hi_sessions := hput i (e\<lparr>sn_closing := True, sn_cancelled := True\<rparr>) (hi_sessions s)\<rparr>)"

definition mark_resource_closing :: "string \<Rightarrow> 'd handle_inner \<Rightarrow> 'd handle_inner" where
  "mark_resource_closing i s =
     (case hget (hi_facade_resources s) i of
        None \<Rightarrow> s
      | Some e \<Rightarrow>
          s\<lparr>hi_facade_resources := hput i (e\<lparr>fr_closing := True, fr_cancelled := True\<rparr>) (hi_facade_resources s)\<rparr>)"

end
