(* ===== verification/Registry_Extension.thy ===== *)
theory Registry_Extension
  imports Registry
begin

text \<open>
  Extension registrations in the handle registry (\<open>core_profile/handles.rs\<close>): registration with
  its two identities, factory children and their reservation, callback streams, and the release of one
  or all registrations. Serialization is the parameter \<open>codec\<close>. The callback and factory owners an
  entry carries belong to the extension bridge and are not part of the model.
\<close>

section \<open>Registration\<close>

record descriptor_codec =
  dc_fingerprint :: "extension_descriptor \<Rightarrow> wire_duration option \<Rightarrow> wire_handle option \<Rightarrow> string + string"
  dc_encoded_len :: "extension_descriptor \<Rightarrow> string + nat"

record registration_limits =
  rl_max_extensions :: usize
  rl_max_descriptor_bytes :: usize

definition extension_semantic_identity_conflicts :: "extension_descriptor \<Rightarrow> extension_descriptor \<Rightarrow> bool" where
  "extension_semantic_identity_conflicts existing candidate =
     (case existing of
        DTool a \<Rightarrow> (case candidate of DTool b \<Rightarrow> td_name a = td_name b | _ \<Rightarrow> False)
      | DCustomAgent a \<Rightarrow> (case candidate of DCustomAgent b \<Rightarrow> ca_name a = ca_name b | _ \<Rightarrow> False)
      | DChannelPlugin a \<Rightarrow>
          (case candidate of DChannelPlugin b \<Rightarrow> cp_channel_id a = cp_channel_id b | _ \<Rightarrow> False)
      | DChannelMessageHandler a \<Rightarrow>
          (case candidate of DChannelMessageHandler b \<Rightarrow> ch_handler_id a = ch_handler_id b | _ \<Rightarrow> False)
      | DStore _ _ \<Rightarrow> (case candidate of DStore _ _ \<Rightarrow> True | _ \<Rightarrow> False)
      | DHumanLoopProvider _ \<Rightarrow> (case candidate of DHumanLoopProvider _ \<Rightarrow> True | _ \<Rightarrow> False)
      | _ \<Rightarrow> False)"

definition register_operation :: string where
  "register_operation = ''_echo_agent/extension/register''"

text \<open>\<open>format!("{}/{}", kind.as_str(), implementation_id)\<close>\<close>

definition extension_identity :: "extension_kind \<Rightarrow> string \<Rightarrow> string" where
  "extension_identity kind implementation_id = extension_kind_str kind @ ''/'' @ implementation_id"

definition identity_of :: "extension_entry \<Rightarrow> string" where
  "identity_of e = extension_identity (ex_kind e) (ex_implementation_id e)"

text \<open>An open registration of a factory.\<close>

definition open_factory :: "'d handle_inner \<Rightarrow> string \<Rightarrow> bool" where
  "open_factory s i =
     (case hget (hi_extensions s) i of None \<Rightarrow> False | Some e \<Rightarrow> ex_kind e = KAgentFactory)"

text \<open>The size check in front of the lock.\<close>

definition descriptor_bound :: "descriptor_codec \<Rightarrow> registration_limits \<Rightarrow> extension_descriptor \<Rightarrow> string \<Rightarrow> sdk_err + unit" where
  "descriptor_bound codec limits d message =
     and_then (map_err (\<lambda>t. sdk_error SerializationViolation t Never register_operation) (dc_encoded_len codec d))
       (\<lambda>n. reject_if (unat (rl_max_descriptor_bytes limits) < n \<or> max_extension_descriptor_bytes < n)
              (sdk_error PayloadTooLarge message Never register_operation))"

text \<open>The identity checks under the lock: an earlier registration of the same implementation.\<close>

definition existing_registration ::
  "extension_kind \<Rightarrow> string \<Rightarrow> string \<Rightarrow> 'd handle_inner \<Rightarrow> sdk_err + (wire_handle \<times> extension_entry) option" where
  "existing_registration kind implementation_id fingerprint s =
     (case hget (hi_extension_index s) (extension_identity kind implementation_id) of
        None \<Rightarrow> Ok None
      | Some i \<Rightarrow>
          (case hget (hi_extensions s) i of
             None \<Rightarrow> Ok None
           | Some e \<Rightarrow>
               if ex_fingerprint e = fingerprint then Ok (Some (issued s ExtensionKindOf i, e))
               else Err (handle_error ExtensionConflict
                 (''implementation '' @ extension_identity kind implementation_id @
                  '' is already registered with a different descriptor'')
                 register_operation (issued s ExtensionKindOf i))))"

definition semantic_owner :: "extension_descriptor \<Rightarrow> 'd handle_inner \<Rightarrow> (string \<times> extension_entry) option" where
  "semantic_owner d s =
     List.find (\<lambda>e. \<not> ex_factory_instance (snd e) \<and>
         extension_semantic_identity_conflicts (ex_descriptor (snd e)) d) (hi_extensions s)"

definition admit_registration ::
  "registration_limits \<Rightarrow> extension_descriptor \<Rightarrow> bool \<Rightarrow> 'd handle_inner \<Rightarrow> sdk_err + unit" where
  "admit_registration limits d factory_instance s =
     and_then
       (case (if factory_instance then None else semantic_owner d s) of
          None \<Rightarrow> Ok ()
        | Some (i, e) \<Rightarrow>
            Err (handle_error ExtensionConflict
              (''extension semantic identity is already owned by '' @ identity_of e)
              register_operation (issued s ExtensionKindOf i)))
       (\<lambda>_. and_then
          (reject_if (unat (rl_max_extensions limits) \<le> length (hi_extensions s))
             (sdk_error PayloadTooLarge
                (''registered extension limit '' @ show_nat (unat (rl_max_extensions limits)) @ '' reached'')
                AfterDelay register_operation))
          (\<lambda>_. enforce_budget s 1))"

text \<open>
  Everything \<open>register_extension_owned\<close> checks, in its order: the fingerprint of the request, with the
  earlier registration it repeats, if any.
\<close>

definition registration_gate ::
  "descriptor_codec \<Rightarrow> registration_limits \<Rightarrow> extension_kind \<Rightarrow> string \<Rightarrow> extension_descriptor \<Rightarrow>
     wire_duration option \<Rightarrow> bool \<Rightarrow> wire_handle option \<Rightarrow> 'd handle_inner \<Rightarrow>
     sdk_err + string \<times> (wire_handle \<times> extension_entry) option" where
  "registration_gate codec limits kind implementation_id d timeout factory_instance origin s =
     and_then (reject_if (descriptor_kind d \<noteq> kind)
       (sdk_error InvalidValue ''descriptor kind does not match the registration kind'' Never register_operation)) (\<lambda>_.
     and_then (map_err (\<lambda>t. sdk_error SerializationViolation t Never register_operation)
       (dc_fingerprint codec d timeout origin)) (\<lambda>fingerprint.
     and_then (descriptor_bound codec limits d ''extension descriptor exceeds the serialized descriptor bound'') (\<lambda>_.
     and_then
       (case origin of
          None \<Rightarrow> Ok ()
        | Some parent \<Rightarrow>
            reject_if (\<not> open_factory s (h_id parent))
              (handle_error ClosedHandle ''factory origin is not an open AgentFactory'' register_operation parent)) (\<lambda>_.
     and_then (existing_registration kind implementation_id fingerprint s) (\<lambda>earlier.
       case earlier of
         Some found \<Rightarrow> Ok (fingerprint, Some found)
       | None \<Rightarrow> map_ok (\<lambda>_. (fingerprint, None)) (admit_registration limits d factory_instance s))))))"

definition register_extension_owned ::
  "descriptor_codec \<Rightarrow> string \<Rightarrow> registration_limits \<Rightarrow> extension_kind \<Rightarrow> string \<Rightarrow> extension_descriptor \<Rightarrow>
     wire_duration option \<Rightarrow> bool \<Rightarrow> wire_handle option \<Rightarrow> bool \<Rightarrow> 'd handle_inner \<Rightarrow>
     (sdk_err + wire_handle \<times> extension_entry) \<times> 'd handle_inner" where
  "register_extension_owned codec uuid limits kind implementation_id d timeout factory_instance origin reserved s =
     (case registration_gate codec limits kind implementation_id d timeout factory_instance origin s of
        Inl e \<Rightarrow> (Err e, s)
      | Inr (_, Some earlier) \<Rightarrow> (Ok earlier, s)
      | Inr (fingerprint, None) \<Rightarrow>
          (case checked_add (hi_next_extension_order s) 1 of
             None \<Rightarrow> (Err (sdk_error PayloadTooLarge ''extension registration order exhausted'' Never register_operation), s)
           | Some order \<Rightarrow>
               (case mint_id ExtensionKindOf uuid (s\<lparr>hi_next_extension_order := order\<rparr>) of
                  (Inl e, s1) \<Rightarrow> (Err e, s1)
                | (Inr i, s1) \<Rightarrow>
                    let entry = \<lparr>ex_kind = kind, ex_implementation_id = implementation_id, ex_descriptor = d,
                          ex_fingerprint = fingerprint, ex_timeout = timeout, ex_registration_order = order,
                          ex_factory_instance = factory_instance, ex_factory_origin = origin, ex_reserved = reserved\<rparr>
                    in (Ok (issued s1 ExtensionKindOf i, entry),
                        s1\<lparr>hi_extensions := hput i entry (hi_extensions s1),
                           hi_extension_index := hput (extension_identity kind implementation_id) i
                                                   (hi_extension_index s1)\<rparr>))))"

definition register_extension ::
  "descriptor_codec \<Rightarrow> string \<Rightarrow> registration_limits \<Rightarrow> extension_kind \<Rightarrow> string \<Rightarrow> extension_descriptor \<Rightarrow>
     wire_duration option \<Rightarrow> bool \<Rightarrow> 'd handle_inner \<Rightarrow>
     (sdk_err + wire_handle \<times> extension_entry) \<times> 'd handle_inner" where
  "register_extension codec uuid limits kind implementation_id d timeout factory_instance s =
     register_extension_owned codec uuid limits kind implementation_id d timeout factory_instance None False s"

definition reserved_child_descriptor :: extension_descriptor where
  "reserved_child_descriptor =
     DCustomAgent \<lparr>ca_descriptor_version = 1, ca_name = ''reserved-factory-child'', ca_model_name = ''pending'',
                   ca_system_prompt = [], ca_tool_names = []\<rparr>"

definition reserve_factory_instance ::
  "descriptor_codec \<Rightarrow> string \<Rightarrow> registration_limits \<Rightarrow> wire_handle \<Rightarrow> string \<Rightarrow> wire_duration option \<Rightarrow>
     'd handle_inner \<Rightarrow> (sdk_err + wire_handle) \<times> 'd handle_inner" where
  "reserve_factory_instance codec uuid limits parent implementation_id timeout s =
     (case check_shape_and_generation s parent ExtensionKindOf register_operation of
        Inl e \<Rightarrow> (Err e, s)
      | Inr _ \<Rightarrow>
          apfst (map_ok fst)
            (register_extension_owned codec uuid limits KCustomAgent implementation_id reserved_child_descriptor
               timeout True (Some parent) True s))"

text \<open>
  The checks of a completion, and the completion: the committed entry keeps the identity, timeout and
  order of its reservation.
\<close>

definition completion_gate ::
  "descriptor_codec \<Rightarrow> registration_limits \<Rightarrow> wire_handle \<Rightarrow> wire_handle \<Rightarrow> extension_descriptor \<Rightarrow>
     'd handle_inner \<Rightarrow> sdk_err + extension_entry" where
  "completion_gate codec limits child parent d s =
     and_then (check_shape_and_generation s child ExtensionKindOf register_operation) (\<lambda>_.
     and_then (check_shape_and_generation s parent ExtensionKindOf register_operation) (\<lambda>_.
     and_then (reject_if (descriptor_kind d \<noteq> KCustomAgent)
       (sdk_error InvalidValue ''factory child descriptor must be CustomAgent'' Never register_operation)) (\<lambda>_.
     and_then (descriptor_bound codec limits d ''factory child descriptor exceeds serialized bound'') (\<lambda>_.
     and_then (ok_or (hget (hi_extensions s) (h_id child))
       (handle_error ClosedHandle ''factory child reservation is closed'' register_operation child)) (\<lambda>previous.
     and_then (reject_if (ex_factory_origin previous \<noteq> Some parent)
       (handle_error ExtensionConflict ''factory child belongs to another origin'' register_operation child)) (\<lambda>_.
     and_then (reject_if (\<not> open_factory s (h_id parent))
       (handle_error ClosedHandle ''factory origin is closed'' register_operation parent)) (\<lambda>_. Ok previous)))))))"

definition complete_factory_instance_reserved ::
  "descriptor_codec \<Rightarrow> registration_limits \<Rightarrow> wire_handle \<Rightarrow> wire_handle \<Rightarrow> extension_descriptor \<Rightarrow>
     'd handle_inner \<Rightarrow> (sdk_err + extension_entry) \<times> 'd handle_inner" where
  "complete_factory_instance_reserved codec limits child parent d s =
     (case completion_gate codec limits child parent d s of
        Inl e \<Rightarrow> (Err e, s)
      | Inr previous \<Rightarrow>
          if \<not> ex_reserved previous
          then (if ex_descriptor previous = d then Ok previous
                else Err (handle_error ExtensionConflict ''factory child descriptor is already committed'' register_operation child), s)
          else (case map_err (\<lambda>t. sdk_error SerializationViolation t Never register_operation)
                       (dc_fingerprint codec d (ex_timeout previous) (Some parent)) of
             Inl e \<Rightarrow> (Err e, s)
           | Inr fingerprint \<Rightarrow>
               let committed = previous\<lparr>ex_descriptor := d, ex_fingerprint := fingerprint, ex_factory_instance := True,
                     ex_factory_origin := Some parent, ex_reserved := False\<rparr>
               in (Ok committed, s\<lparr>hi_extensions := hput (h_id child) committed (hi_extensions s)\<rparr>)))"

section \<open>Lookup and release\<close>

definition extension_for_cleanup :: "wire_handle \<Rightarrow> 'd handle_inner \<Rightarrow> sdk_err + extension_entry" where
  "extension_for_cleanup h s = checked_lookup (hi_extensions s) s h ExtensionKindOf ''_echo_agent/extension''"

definition extension :: "wire_handle \<Rightarrow> 'd handle_inner \<Rightarrow> sdk_err + extension_entry" where
  "extension h s =
     and_then (extension_for_cleanup h s) (\<lambda>e.
       if ex_reserved e
       then Err (handle_error ExtensionConflict ''factory child reservation is not committed'' ''_echo_agent/extension'' h)
       else Ok e)"

text \<open>The callback streams of the given registrations, and their removal with tombstones.\<close>

definition streams_where :: "(stream_entry \<Rightarrow> bool) \<Rightarrow> 'd handle_inner \<Rightarrow> string list" where
  "streams_where P s = map fst (filter (\<lambda>e. P (snd e)) (hi_streams s))"

definition remove_streams :: "string list \<Rightarrow> 'd handle_inner \<Rightarrow> 'd handle_inner" where
  "remove_streams ids s = s\<lparr>hi_streams := fold hdel ids (hi_streams s)\<rparr>"

definition close_extension :: "wire_handle \<Rightarrow> 'd handle_inner \<Rightarrow> (sdk_err + bool) \<times> 'd handle_inner" where
  "close_extension h s =
     (if list_ex (\<lambda>e. case ex_factory_origin (snd e) of None \<Rightarrow> False | Some origin \<Rightarrow> h_id origin = h_id h)
           (hi_extensions s)
      then (Err (handle_error ExtensionConflict ''factory still owns live CustomAgent instances''
              ''_echo_agent/extension/unregister'' h), s)
      else case hget (hi_extensions s) (h_id h) of
        None \<Rightarrow>
          (if is_closed s h then Ok False
           else Err (resolve_error s h ExtensionKindOf ''_echo_agent/extension/unregister''), s)
      | Some e \<Rightarrow>
          let ids = streams_where (\<lambda>st. st_run_handle_id st = h_id h) s
          in (Ok True,
              push_tombstones (map (Pair StreamKind) ids @ [(ExtensionKindOf, h_id h)])
                (remove_streams ids
                   (s\<lparr>hi_extensions := hdel (h_id h) (hi_extensions s),
                      hi_extension_index := hdel (identity_of e) (hi_extension_index s)\<rparr>))))"

definition close_all_extensions :: "'d handle_inner \<Rightarrow> 'd handle_inner" where
  "close_all_extensions s =
     (let drained = hi_extensions s;
          ids = streams_where (\<lambda>st. st_run_handle_id st \<in> set (map fst drained)) s
      in push_tombstones (map (\<lambda>e. (ExtensionKindOf, fst e)) drained @ map (Pair StreamKind) ids)
           (remove_streams ids
              (s\<lparr>hi_extensions := [],
                 hi_extension_index := fold (\<lambda>e. hdel (identity_of (snd e))) drained (hi_extension_index s)\<rparr>)))"

text \<open>\<open>sort_by_key\<close> is the stable sort by registration order.\<close>

definition extensions_of_kind :: "extension_kind \<Rightarrow> 'd handle_inner \<Rightarrow> (wire_handle \<times> extension_entry) list" where
  "extensions_of_kind kind s =
     sort_key (\<lambda>e. ex_registration_order (snd e))
       (map (\<lambda>e. (issued s ExtensionKindOf (fst e), snd e))
          (filter (\<lambda>e. ex_kind (snd e) = kind) (hi_extensions s)))"

definition session_extensions_of_kind ::
  "extension_kind \<Rightarrow> 'd handle_inner \<Rightarrow> (wire_handle \<times> extension_entry) list" where
  "session_extensions_of_kind kind s =
     filter (\<lambda>e. \<not> ex_factory_instance (snd e)) (extensions_of_kind kind s)"

section \<open>Callback streams\<close>

definition register_extension_stream ::
  "string \<Rightarrow> string \<Rightarrow> 'd handle_inner \<Rightarrow> (sdk_err + wire_handle) \<times> 'd handle_inner" where
  "register_extension_stream uuid extension_id s =
     (if \<not> hmem extension_id (hi_extensions s)
      then (Err (sdk_error ClosedHandle ''extension registration is no longer live'' Never
              ''_echo_agent/extension/invoke''), s)
      else case enforce_budget s 1 of
        Inl e \<Rightarrow> (Err e, s)
      | Inr _ \<Rightarrow>
          (case mint_id StreamKind uuid s of
             (Inl e, s1) \<Rightarrow> (Err e, s1)
           | (Inr i, s1) \<Rightarrow>
               (Ok (issued s1 StreamKind i),
                s1\<lparr>hi_streams := hput i (plain_stream extension_id 0) (hi_streams s1)\<rparr>)))"

definition remove_extension_stream :: "string \<Rightarrow> 'd handle_inner \<Rightarrow> 'd handle_inner" where
  "remove_extension_stream i s =
     (if hmem i (hi_streams s)
      then push_tombstones [(StreamKind, i)] (s\<lparr>hi_streams := hdel i (hi_streams s)\<rparr>)
      else s)"

end
