(* ===== verification/Registry_Facade.thy ===== *)
theory Registry_Facade
  imports Registry_Extension
begin

text \<open>
  Facade resources and facade streams in the handle registry (\<open>core_profile/handles.rs\<close>): batched
  publication under two bounds, the resource lookups, the commit of an MCP preparation, the close
  cascades, and the watermark, cancellation and single terminal of a facade stream. The checks and
  the insertion of \<open>register_facade_stream\<close> are two locked sections in the code and two functions
  here.
\<close>

section \<open>Facade resources\<close>

definition session_open_for :: "'d handle_inner \<Rightarrow> string \<Rightarrow> bool" where
  "session_open_for s owner =
     list_ex (\<lambda>e. sn_acp_session_id (snd e) = owner \<and> \<not> sn_closing (snd e)) (hi_sessions s)"

definition new_facade_entry :: "string \<Rightarrow> string \<Rightarrow> string option \<Rightarrow> facade_entry" where
  "new_facade_entry family resource_type owner =
     \<lparr>fr_closing = False, fr_cancelled = False, fr_family = family, fr_resource_type = resource_type,
      fr_owner_session = owner\<rparr>"

text \<open>One id per requested address; minting a facade resource id does not change the registry.\<close>

fun mint_resources ::
  "string list \<Rightarrow> facade_entry \<Rightarrow> 'd handle_inner \<Rightarrow> (sdk_err + (wire_handle \<times> facade_entry) list) \<times> 'd handle_inner" where
  "mint_resources [] entry s = (Ok [], s)"
| "mint_resources (uuid # uuids) entry s =
     (case mint_id FacadeResourceKind uuid s of
        (Inl e, s1) \<Rightarrow> (Err e, s1)
      | (Inr i, s1) \<Rightarrow>
          apfst (map_ok (\<lambda>rest. (issued s1 FacadeResourceKind i, entry) # rest)) (mint_resources uuids entry s1))"

text \<open>\<open>uuids\<close> has one UUID for each of the \<open>count\<close> addresses.\<close>

definition register_facade_resource_batch ::
  "string list \<Rightarrow> usize \<Rightarrow> string \<Rightarrow> string \<Rightarrow> string option \<Rightarrow> string \<Rightarrow> 'd handle_inner \<Rightarrow>
     (sdk_err + (wire_handle \<times> facade_entry) list) \<times> 'd handle_inner" where
  "register_facade_resource_batch uuids max_facade_resources family resource_type owner operation s =
     (if max_facade_resources < saturating_add (len_usize (hi_facade_resources s)) (len_usize uuids)
      then (Err (sdk_error PayloadTooLarge
              (''open facade resource limit '' @ show_nat (unat max_facade_resources) @ '' reached'')
              AfterDelay operation), s)
      else if (case owner of None \<Rightarrow> False | Some o_id \<Rightarrow> \<not> session_open_for s o_id)
      then (Err (resolve_error s (issued s SessionKind (case owner of None \<Rightarrow> [] | Some o_id \<Rightarrow> o_id)) SessionKind operation), s)
      else case enforce_budget s (len_usize uuids) of
        Inl e \<Rightarrow> (Err e, s)
      | Inr _ \<Rightarrow>
          (case mint_resources uuids (new_facade_entry family resource_type owner) s of
             (Inl e, s1) \<Rightarrow> (Err e, s1)
           | (Inr published, s1) \<Rightarrow>
               (Ok published,
                s1\<lparr>hi_facade_resources :=
                     fold (\<lambda>p. hput (h_id (fst p)) (snd p)) published (hi_facade_resources s1)\<rparr>)))"

definition register_facade_resource ::
  "string \<Rightarrow> usize \<Rightarrow> string \<Rightarrow> string \<Rightarrow> string option \<Rightarrow> string \<Rightarrow> 'd handle_inner \<Rightarrow>
     (sdk_err + wire_handle \<times> facade_entry) \<times> 'd handle_inner" where
  "register_facade_resource uuid max_facade_resources family resource_type owner operation s =
     (case register_facade_resource_batch [uuid] max_facade_resources family resource_type owner operation s of
        (Inl e, s1) \<Rightarrow> (Err e, s1)
      | (Inr [], s1) \<Rightarrow>
          (Err (sdk_error FrameworkError ''facade resource publication omitted its reserved address'' Never operation), s1)
      | (Inr (first # _), s1) \<Rightarrow> (Ok first, s1))"

definition facade_resource_for_close ::
  "wire_handle \<Rightarrow> string \<Rightarrow> 'd handle_inner \<Rightarrow> sdk_err + facade_entry" where
  "facade_resource_for_close h operation s =
     checked_lookup (hi_facade_resources s) s h FacadeResourceKind operation"

definition facade_resource :: "wire_handle \<Rightarrow> string \<Rightarrow> 'd handle_inner \<Rightarrow> sdk_err + facade_entry" where
  "facade_resource h operation s =
     and_then (facade_resource_for_close h operation s) (\<lambda>entry.
       if fr_closing entry then Err (handle_error ClosedHandle ''resource is closing'' operation h) else Ok entry)"

definition mcp_preparation :: "wire_handle \<Rightarrow> 'd handle_inner \<Rightarrow> sdk_err + facade_entry" where
  "mcp_preparation h s =
     (let operation = ''_echo_agent/mcp/op'' in
      and_then (check_shape_and_generation s h FacadeResourceKind operation) (\<lambda>_.
      and_then (ok_or (hget (hi_facade_resources s) (h_id h))
        (handle_error ClosedHandle ''MCP publication reservation is closed'' operation h)) (\<lambda>previous.
      and_then (reject_if (fr_resource_type previous \<noteq> ''mcp.pending_client'')
        (handle_error InvalidValue ''resource is not an MCP preparation'' operation h)) (\<lambda>_.
      and_then (reject_if (case fr_owner_session previous of None \<Rightarrow> False | Some o_id \<Rightarrow> \<not> session_open_for s o_id)
        (handle_error ClosedHandle ''MCP preparation owner is closing'' operation h)) (\<lambda>_. Ok previous)))))"

definition commit_mcp_preparation :: "wire_handle \<Rightarrow> 'd handle_inner \<Rightarrow> (sdk_err + unit) \<times> 'd handle_inner" where
  "commit_mcp_preparation h s =
     (case mcp_preparation h s of
        Inl e \<Rightarrow> (Err e, s)
      | Inr previous \<Rightarrow>
          (Ok (), s\<lparr>hi_facade_resources :=
             hput (h_id h) (new_facade_entry (fr_family previous) ''mcp.client'' (fr_owner_session previous))
               (hi_facade_resources s)\<rparr>))"

section \<open>Facade streams\<close>

text \<open>The first locked section: the resource is open and has the stream's owner.\<close>

definition facade_stream_admitted ::
  "wire_handle \<Rightarrow> string option \<Rightarrow> string \<Rightarrow> 'd handle_inner \<Rightarrow> sdk_err + unit" where
  "facade_stream_admitted resource owner operation s =
     and_then (facade_resource resource operation s) (\<lambda>entry.
       reject_if (fr_owner_session entry \<noteq> owner)
         (sdk_error InvalidValue ''facade stream owner does not match its resource'' Never operation))"

definition new_facade_stream :: "string \<Rightarrow> string option \<Rightarrow> stream_entry" where
  "new_facade_stream resource_id owner =
     \<lparr>st_run_handle_id = resource_id, st_owner_session = owner, st_resource_id = Some resource_id,
      st_facade = True, st_token = Some False, st_last_sequence = 0, st_cancelled = False, st_terminal = False\<rparr>"

text \<open>The second: the bounds, and the insertion.\<close>

definition insert_facade_stream ::
  "string \<Rightarrow> usize \<Rightarrow> wire_handle \<Rightarrow> string option \<Rightarrow> string \<Rightarrow> 'd handle_inner \<Rightarrow>
     (sdk_err + wire_handle) \<times> 'd handle_inner" where
  "insert_facade_stream uuid max_facade_streams resource owner operation s =
     (if unat max_facade_streams \<le> length (filter (\<lambda>e. st_facade (snd e)) (hi_streams s))
      then (Err (sdk_error PayloadTooLarge
              (''open facade stream limit '' @ show_nat (unat max_facade_streams) @ '' reached'') AfterDelay operation), s)
      else case enforce_budget s 1 of
        Inl e \<Rightarrow> (Err e, s)
      | Inr _ \<Rightarrow>
          (case mint_id StreamKind uuid s of
             (Inl e, s1) \<Rightarrow> (Err e, s1)
           | (Inr i, s1) \<Rightarrow>
               (Ok (issued s1 StreamKind i),
                s1\<lparr>hi_streams := hput i (new_facade_stream (h_id resource) owner) (hi_streams s1)\<rparr>)))"

definition register_facade_stream ::
  "string \<Rightarrow> usize \<Rightarrow> wire_handle \<Rightarrow> string option \<Rightarrow> string \<Rightarrow> 'd handle_inner \<Rightarrow>
     (sdk_err + wire_handle) \<times> 'd handle_inner" where
  "register_facade_stream uuid max_facade_streams resource owner operation s =
     (case facade_stream_admitted resource owner operation s of
        Inl e \<Rightarrow> (Err e, s)
      | Inr _ \<Rightarrow> insert_facade_stream uuid max_facade_streams resource owner operation s)"

definition not_facade_stream :: "string \<Rightarrow> wire_handle \<Rightarrow> sdk_err" where
  "not_facade_stream operation h =
     handle_error InvalidValue ''stream handle does not address a facade stream'' operation h"

definition foreign_facade_stream :: "string \<Rightarrow> wire_handle \<Rightarrow> sdk_err" where
  "foreign_facade_stream operation h =
     handle_error InvalidValue ''facade stream belongs to another Session'' operation h"

definition facade_stream ::
  "wire_handle \<Rightarrow> string option \<Rightarrow> string \<Rightarrow> 'd handle_inner \<Rightarrow> sdk_err + stream_entry" where
  "facade_stream h owner operation s =
     and_then (checked_lookup (hi_streams s) s h StreamKind operation) (\<lambda>entry.
       if \<not> st_facade entry then Err (not_facade_stream operation h)
       else if st_owner_session entry \<noteq> owner then Err (foreign_facade_stream operation h)
       else Ok entry)"

text \<open>\<open>StreamRecord::observe_facade_cancellation\<close>\<close>

definition observe_facade_cancellation :: "stream_entry \<Rightarrow> stream_entry" where
  "observe_facade_cancellation entry =
     (if \<not> st_terminal entry \<and> st_token entry = Some True then entry\<lparr>st_cancelled := True\<rparr> else entry)"

text \<open>
  The operations on the state of one stream: the lookup, and a section under the stream's own lock
  that first observes the shared token.
\<close>

definition put_stream :: "wire_handle \<Rightarrow> stream_entry \<Rightarrow> 'd handle_inner \<Rightarrow> 'd handle_inner" where
  "put_stream h entry s = s\<lparr>hi_streams := hput (h_id h) entry (hi_streams s)\<rparr>"

definition with_facade_stream ::
  "wire_handle \<Rightarrow> string option \<Rightarrow> string \<Rightarrow> (stream_entry \<Rightarrow> (sdk_err + 'a) \<times> stream_entry) \<Rightarrow>
     'd handle_inner \<Rightarrow> (sdk_err + 'a) \<times> 'd handle_inner" where
  "with_facade_stream h owner operation section s =
     (case facade_stream h owner operation s of
        Inl e \<Rightarrow> (Err e, s)
      | Inr entry \<Rightarrow>
          (case section (observe_facade_cancellation entry) of (r, entry') \<Rightarrow> (r, put_stream h entry' s)))"

definition facade_stream_state ::
  "wire_handle \<Rightarrow> string option \<Rightarrow> string \<Rightarrow> 'd handle_inner \<Rightarrow> (sdk_err + u64 \<times> bool) \<times> 'd handle_inner" where
  "facade_stream_state h owner operation s =
     with_facade_stream h owner operation (\<lambda>entry. (Ok (st_last_sequence entry, st_cancelled entry), entry)) s"

definition advance_section :: "wire_handle \<Rightarrow> u64 \<Rightarrow> string \<Rightarrow> stream_entry \<Rightarrow> (sdk_err + unit) \<times> stream_entry" where
  "advance_section h sequence operation entry =
     (if st_cancelled entry
      then (Err (handle_error error_code.Cancelled ''facade stream is cancelled'' operation h), entry)
      else if st_terminal entry
      then (Err (handle_error ClosedHandle ''facade stream already reached its terminal'' operation h), entry)
      else if sequence \<le> st_last_sequence entry
      then (Err (handle_error InvalidRequest
              (''facade stream sequence '' @ show_nat (unat sequence) @ '' does not advance past '' @
               show_nat (unat (st_last_sequence entry))) operation h), entry)
      else (Ok (), entry\<lparr>st_last_sequence := sequence\<rparr>))"

definition advance_facade_stream ::
  "wire_handle \<Rightarrow> string option \<Rightarrow> u64 \<Rightarrow> string \<Rightarrow> 'd handle_inner \<Rightarrow> (sdk_err + unit) \<times> 'd handle_inner" where
  "advance_facade_stream h owner sequence operation s =
     with_facade_stream h owner operation (advance_section h sequence operation) s"

definition settle_section :: "wire_handle \<Rightarrow> bool \<Rightarrow> string \<Rightarrow> stream_entry \<Rightarrow> (sdk_err + u64 \<times> bool) \<times> stream_entry" where
  "settle_section h cancelled operation entry =
     (if st_terminal entry
      then (Err (handle_error ClosedHandle ''facade stream already reached its terminal'' operation h), entry)
      else case checked_add (st_last_sequence entry) 1 of
        None \<Rightarrow> (Err (handle_error FrameworkError ''facade stream sequence exhausted'' operation h), entry)
      | Some sequence \<Rightarrow>
          (Ok (sequence, st_cancelled entry \<or> cancelled),
           entry\<lparr>st_last_sequence := sequence, st_cancelled := st_cancelled entry \<or> cancelled, st_terminal := True\<rparr>))"

definition settle_facade_stream ::
  "wire_handle \<Rightarrow> string option \<Rightarrow> bool \<Rightarrow> string \<Rightarrow> 'd handle_inner \<Rightarrow> (sdk_err + u64 \<times> bool) \<times> 'd handle_inner" where
  "settle_facade_stream h owner cancelled operation s =
     with_facade_stream h owner operation (settle_section h cancelled operation) s"

definition cancel_section :: "stream_entry \<Rightarrow> (sdk_err + bool) \<times> stream_entry" where
  "cancel_section entry =
     (if st_cancelled entry \<or> st_terminal entry then (Ok False, entry)
      else (Ok True, entry\<lparr>st_cancelled := True, st_token := map_option (\<lambda>_. True) (st_token entry)\<rparr>))"

definition cancel_facade_stream ::
  "wire_handle \<Rightarrow> string option \<Rightarrow> string \<Rightarrow> 'd handle_inner \<Rightarrow> (sdk_err + bool) \<times> 'd handle_inner" where
  "cancel_facade_stream h owner operation s = with_facade_stream h owner operation cancel_section s"

text \<open>The producer of a facade stream cancels the token it shares with the registry.\<close>

definition cancel_stream_token :: "string \<Rightarrow> 'd handle_inner \<Rightarrow> 'd handle_inner" where
  "cancel_stream_token i s =
     (case hget (hi_streams s) i of
        None \<Rightarrow> s
      | Some entry \<Rightarrow> s\<lparr>hi_streams := hput i (entry\<lparr>st_token := map_option (\<lambda>_. True) (st_token entry)\<rparr>) (hi_streams s)\<rparr>)"

section \<open>Close cascades\<close>

definition close_facade_stream ::
  "wire_handle \<Rightarrow> string option \<Rightarrow> string \<Rightarrow> 'd handle_inner \<Rightarrow> (sdk_err + bool) \<times> 'd handle_inner" where
  "close_facade_stream h owner operation s =
     (case check_shape_and_generation s h StreamKind operation of
        Inl e \<Rightarrow> (Err e, s)
      | Inr _ \<Rightarrow>
          (case hget (hi_streams s) (h_id h) of
             Some entry \<Rightarrow>
               if st_facade entry \<and> st_owner_session entry = owner
               then (Ok True, push_tombstones [(StreamKind, h_id h)]
                       (s\<lparr>hi_streams := hdel (h_id h) (hi_streams s)\<rparr>))
               else if \<not> st_facade entry then (Err (not_facade_stream operation h), s)
               else (Err (foreign_facade_stream operation h), s)
           | None \<Rightarrow>
               (if is_closed s h then Ok False else Err (resolve_error s h StreamKind operation), s)))"

definition of_resource :: "string \<Rightarrow> stream_entry \<Rightarrow> bool" where
  "of_resource resource_id st = (st_facade st \<and> st_resource_id st = Some resource_id)"

definition close_facade_resource ::
  "wire_handle \<Rightarrow> string \<Rightarrow> 'd handle_inner \<Rightarrow> (sdk_err + bool) \<times> 'd handle_inner" where
  "close_facade_resource h operation s =
     (case check_shape_and_generation s h FacadeResourceKind operation of
        Inl e \<Rightarrow> (Err e, s)
      | Inr _ \<Rightarrow>
          if \<not> hmem (h_id h) (hi_facade_resources s)
          then (if is_closed s h then Ok False else Err (resolve_error s h FacadeResourceKind operation), s)
          else let ids = streams_where (of_resource (h_id h)) s
               in (Ok True,
                   push_tombstones (map (Pair StreamKind) ids @ [(FacadeResourceKind, h_id h)])
                     (remove_streams ids
                        (s\<lparr>hi_facade_resources := hdel (h_id h) (hi_facade_resources s)\<rparr>))))"

definition close_facade_streams_of_resource :: "string \<Rightarrow> 'd handle_inner \<Rightarrow> nat \<times> 'd handle_inner" where
  "close_facade_streams_of_resource resource_id s =
     (let ids = streams_where (of_resource resource_id) s
      in (length ids, push_tombstones (map (Pair StreamKind) ids) (remove_streams ids s)))"

definition facade_stream_count_of_resource :: "string \<Rightarrow> 'd handle_inner \<Rightarrow> nat" where
  "facade_stream_count_of_resource resource_id s = length (filter (\<lambda>e. of_resource resource_id (snd e)) (hi_streams s))"

definition facade_resource_ids_of :: "string \<Rightarrow> 'd handle_inner \<Rightarrow> string list" where
  "facade_resource_ids_of owner s =
     map fst (filter (\<lambda>e. fr_owner_session (snd e) = Some owner) (hi_facade_resources s))"

definition close_facade_resources_of :: "string \<Rightarrow> 'd handle_inner \<Rightarrow> string list \<times> 'd handle_inner" where
  "close_facade_resources_of owner s =
     (let owned = facade_resource_ids_of owner s;
          ids = streams_where (\<lambda>st. st_facade st \<and> st_owner_session st = Some owner) s
      in (owned,
          push_tombstones (map (Pair FacadeResourceKind) owned @ map (Pair StreamKind) ids)
            (remove_streams ids (s\<lparr>hi_facade_resources := fold hdel owned (hi_facade_resources s)\<rparr>))))"

definition close_all_facade_resources :: "'d handle_inner \<Rightarrow> string list \<times> 'd handle_inner" where
  "close_all_facade_resources s =
     (let closed = map fst (hi_facade_resources s);
          ids = streams_where st_facade s
      in (closed,
          push_tombstones (map (Pair FacadeResourceKind) closed @ map (Pair StreamKind) ids)
            (remove_streams ids (s\<lparr>hi_facade_resources := []\<rparr>))))"

end
