(* ===== verification/Registry_Inv.thy ===== *)
theory Registry_Inv
  imports Registry_Facade
begin

text \<open>
  The invariant of the handle registry. A registry is paired with the ledger of its history, the
  addresses issued and the addresses released so far: a step that mints a UUID can say that the UUID
  is new, and a released address can be required to stay released. The invariant bounds the open
  handles, the tombstones and the idempotency outcomes, and keeps the indexes and the ownership between
  entries consistent.
\<close>

section \<open>Live handles\<close>

fun live_handle :: "'d handle_inner \<Rightarrow> handle_kind \<Rightarrow> string \<Rightarrow> bool" where
  "live_handle s AgentKind i = hmem i (hi_agents s)"
| "live_handle s SessionKind i = hmem i (hi_sessions s)"
| "live_handle s RunKind i = hmem i (hi_runs s)"
| "live_handle s StreamKind i = hmem i (hi_streams s)"
| "live_handle s TaskRunKind i = hmem i (hi_task_runs s)"
| "live_handle s PlanTaskKind i = hmem i (hi_plan_tasks s)"
| "live_handle s SubagentKind i = False"
| "live_handle s ExtensionKindOf i = hmem i (hi_extensions s)"
| "live_handle s FacadeResourceKind i = hmem i (hi_facade_resources s)"

definition live :: "'d handle_inner \<Rightarrow> (handle_kind \<times> string) set" where
  "live s = {(k, i). live_handle s k i}"

text \<open>The kinds whose every id the Host mints; run and stream ids also come from the framework.\<close>

definition minted :: "handle_kind \<Rightarrow> bool" where
  "minted k = (k \<notin> {RunKind, StreamKind})"

definition open_count :: "'d handle_inner \<Rightarrow> nat" where
  "open_count s =
     length (hi_agents s) + length (hi_sessions s) + length (hi_task_runs s) + length (hi_plan_tasks s) +
     length (hi_runs s) + length (hi_streams s) + length (hi_extensions s) + length (hi_facade_resources s)"

lemma in_live [simp]: "(k, i) \<in> live s \<longleftrightarrow> live_handle s k i"
  by (simp add: live_def)

lemma hmem_simps [simp]:
  "\<not> hmem k []" "hmem k (hput k' v m) \<longleftrightarrow> k = k' \<or> hmem k m"
  "hmem k (hdel k' m) \<longleftrightarrow> k \<noteq> k' \<and> hmem k m"
  by (simp_all add: hmem_def)

section \<open>The budget\<close>

lemma unat_one_64 [simp]: "unat (1 :: u64) = 1" "unat (2 :: u64) = 2"
  by simp_all

lemma open_handles_exact:
  assumes "open_count s < 2 ^ 64"
  shows "unat (open_handles s) = open_count s"
  using assms by (simp add: open_handles_def open_count_def unat_saturating_add unat_len_usize)

lemma enforce_budget_Ok:
  assumes "enforce_budget s k = Ok ()" and "open_count s \<le> unat (hi_max_handles s)"
    and "hi_max_handles s < - 1"
  shows "open_count s + unat k \<le> unat (hi_max_handles s)"
proof -
  have lt: "open_count s < 2 ^ 64" using assms(2) unat_lt_64 [of "hi_max_handles s"] by simp
  have "unat (hi_max_handles s) < 2 ^ 64 - 1"
    using assms(3) by (simp add: word_less_nat_alt unat_all_ones)
  moreover have "min (open_count s + unat k) (2 ^ 64 - 1) \<le> unat (hi_max_handles s)"
    using assms(1) open_handles_exact [OF lt]
    by (simp add: enforce_budget_def reject_if_eq_Ok not_less word_le_nat_alt unat_saturating_add)
  ultimately show ?thesis by simp
qed

lemma pop_excess_drop: "pop_excess m ts = drop (length ts - m) ts"
  by (induction m ts rule: pop_excess.induct) (auto simp: Suc_diff_le)

lemma pop_excess_bound: "length (pop_excess m ts) \<le> m" "set (pop_excess m ts) \<subseteq> set ts"
  by (simp_all add: pop_excess_drop set_drop_subset)

lemma push_tombstones_simps [simp]:
  "hi_generation (push_tombstones ts s) = hi_generation s"
  "hi_max_handles (push_tombstones ts s) = hi_max_handles s"
  "hi_agents (push_tombstones ts s) = hi_agents s"
  "hi_sessions (push_tombstones ts s) = hi_sessions s"
  "hi_task_runs (push_tombstones ts s) = hi_task_runs s"
  "hi_plan_tasks (push_tombstones ts s) = hi_plan_tasks s"
  "hi_plan_task_index (push_tombstones ts s) = hi_plan_task_index s"
  "hi_runs (push_tombstones ts s) = hi_runs s"
  "hi_streams (push_tombstones ts s) = hi_streams s"
  "hi_extensions (push_tombstones ts s) = hi_extensions s"
  "hi_facade_resources (push_tombstones ts s) = hi_facade_resources s"
  "hi_extension_index (push_tombstones ts s) = hi_extension_index s"
  "hi_idempotency (push_tombstones ts s) = hi_idempotency s"
  "hi_publications (push_tombstones ts s) = hi_publications s"
  "hi_publications_fenced (push_tombstones ts s) = hi_publications_fenced s"
  "hi_next_agent_id (push_tombstones ts s) = hi_next_agent_id s"
  "hi_next_extension_order (push_tombstones ts s) = hi_next_extension_order s"
  by (simp_all add: push_tombstones_def)

lemma push_tombstones_length: "length (hi_tombstones (push_tombstones ts s)) \<le> unat (hi_max_handles s)"
  by (simp add: push_tombstones_def pop_excess_bound)

lemma push_tombstones_set: "set (hi_tombstones (push_tombstones ts s)) \<subseteq> set (hi_tombstones s) \<union> set ts"
  using pop_excess_bound(2) [of "unat (hi_max_handles s)" "hi_tombstones s @ ts"]
  by (simp add: push_tombstones_def)

lemma live_push [simp]: "live_handle (push_tombstones ts s) k i = live_handle s k i"
  by (cases k) simp_all

section \<open>The invariant\<close>

definition maps_wf :: "'d handle_inner \<Rightarrow> bool" where
  "maps_wf s =
     (hwf (hi_agents s) \<and> hwf (hi_sessions s) \<and> hwf (hi_task_runs s) \<and> hwf (hi_plan_tasks s) \<and>
      hwf (hi_plan_task_index s) \<and> hwf (hi_runs s) \<and> hwf (hi_streams s) \<and> hwf (hi_extensions s) \<and>
      hwf (hi_facade_resources s) \<and> hwf (hi_extension_index s) \<and> hwf (hi_idempotency s))"

definition bounds_inv :: "'d handle_inner \<Rightarrow> bool" where
  "bounds_inv s =
     (0 < hi_max_handles s \<and> hi_max_handles s < - 1 \<and> open_count s \<le> unat (hi_max_handles s) \<and>
      length (hi_tombstones s) \<le> unat (hi_max_handles s) \<and>
      length (hi_idempotency s) \<le> unat (hi_max_handles s))"

definition agent_id :: "nat \<Rightarrow> string" where
  "agent_id n = ''agent-'' @ show_nat n"

text \<open>The bound and the addresses issued and released in a history, and their update by one operation.\<close>

record ledger =
  lg_bound :: nat
  lg_issued :: "(handle_kind \<times> string) set"
  lg_retired :: "(handle_kind \<times> string) set"

definition advance :: "ledger \<Rightarrow> 'd handle_inner \<Rightarrow> 'd handle_inner \<Rightarrow> ledger" where
  "advance L s s' =
     \<lparr>lg_bound = lg_bound L, lg_issued = lg_issued L \<union> live s', lg_retired = lg_retired L \<union> (live s - live s')\<rparr>"

lemma advance_simps [simp]:
  "lg_bound (advance L s s') = lg_bound L"
  "lg_issued (advance L s s') = lg_issued L \<union> live s'"
  "lg_retired (advance L s s') = lg_retired L \<union> (live s - live s')"
  by (simp_all add: advance_def)

text \<open>
  Live and retired addresses are issued, and there are no others; a retired address the Host minted is
  not live, and a tombstone of such an address is retired; Agent ids are below their counter.
\<close>

definition ids_inv :: "'d handle_inner \<Rightarrow> ledger \<Rightarrow> bool" where
  "ids_inv s L =
     (lg_bound L = unat (hi_max_handles s) \<and> lg_issued L = live s \<union> lg_retired L \<and>
      (\<forall>k i. (k, i) \<in> lg_retired L \<longrightarrow> minted k \<longrightarrow> \<not> live_handle s k i) \<and>
      (\<forall>k i. (k, i) \<in> set (hi_tombstones s) \<longrightarrow> minted k \<longrightarrow> (k, i) \<in> lg_retired L) \<and>
      (\<forall>i. (AgentKind, i) \<in> lg_issued L \<longrightarrow> (\<exists>n. i = agent_id n \<and> 0 < n \<and> n \<le> unat (hi_next_agent_id s))))"

text \<open>Every plan task is indexed under its own task, and lives in an issued TaskRun.\<close>

definition plan_inv ::
  "task_run_entry hmap \<Rightarrow> plan_task_entry hmap \<Rightarrow> ((string \<times> string) \<times> string) list \<Rightarrow> bool" where
  "plan_inv runs tasks index =
     ((\<forall>i pt. hget tasks i = Some pt \<longrightarrow>
         hget index (pt_task_run_handle_id pt, pt_task_id pt) = Some i \<and> hmem (pt_task_run_handle_id pt) runs) \<and>
      (\<forall>k i. hget index k = Some i \<longrightarrow>
         (\<exists>pt. hget tasks i = Some pt \<and> k = (pt_task_run_handle_id pt, pt_task_id pt))))"

text \<open>
  Every registration is indexed under its identity, holds its own order number, and a factory child is
  a custom Agent whose factory is open.
\<close>

definition ext_inv :: "extension_entry hmap \<Rightarrow> string hmap \<Rightarrow> u64 \<Rightarrow> bool" where
  "ext_inv exts index order =
     ((\<forall>i e. hget exts i = Some e \<longrightarrow>
         hget index (identity_of e) = Some i \<and> ex_registration_order e \<le> order \<and>
         descriptor_kind (ex_descriptor e) = ex_kind e \<and>
         (\<forall>p. ex_factory_origin e = Some p \<longrightarrow> ex_kind e = KCustomAgent \<and>
            (\<exists>f. hget exts (h_id p) = Some f \<and> ex_kind f = KAgentFactory))) \<and>
      (\<forall>n i. hget index n = Some i \<longrightarrow> (\<exists>e. hget exts i = Some e \<and> identity_of e = n)) \<and>
      (\<forall>i j e f. hget exts i = Some e \<longrightarrow> hget exts j = Some f \<longrightarrow>
         ex_registration_order e = ex_registration_order f \<longrightarrow> i = j))"

text \<open>Every facade stream belongs to an open resource and has that resource's owner.\<close>

definition facade_inv :: "stream_entry hmap \<Rightarrow> facade_entry hmap \<Rightarrow> bool" where
  "facade_inv streams resources =
     (\<forall>i st. hget streams i = Some st \<longrightarrow> st_facade st \<longrightarrow>
        (\<exists>r res. st_resource_id st = Some r \<and> hget resources r = Some res \<and>
                 fr_owner_session res = st_owner_session st))"

definition registry_inv :: "'d handle_inner \<times> ledger \<Rightarrow> bool" where
  "registry_inv t =
     (case t of (s, L) \<Rightarrow>
        maps_wf s \<and> bounds_inv s \<and> ids_inv s L \<and>
        plan_inv (hi_task_runs s) (hi_plan_tasks s) (hi_plan_task_index s) \<and>
        ext_inv (hi_extensions s) (hi_extension_index s) (hi_next_extension_order s) \<and>
        facade_inv (hi_streams s) (hi_facade_resources s))"

lemmas registry_inv_parts = registry_inv_def maps_wf_def bounds_inv_def

lemma registry_invI:
  assumes "maps_wf s" "bounds_inv s" "ids_inv s L"
    "plan_inv (hi_task_runs s) (hi_plan_tasks s) (hi_plan_task_index s)"
    "ext_inv (hi_extensions s) (hi_extension_index s) (hi_next_extension_order s)"
    "facade_inv (hi_streams s) (hi_facade_resources s)"
  shows "registry_inv (s, L)"
  using assms by (simp add: registry_inv_def)

lemma registry_invD:
  assumes "registry_inv (s, L)"
  shows "maps_wf s" "bounds_inv s" "ids_inv s L"
    "plan_inv (hi_task_runs s) (hi_plan_tasks s) (hi_plan_task_index s)"
    "ext_inv (hi_extensions s) (hi_extension_index s) (hi_next_extension_order s)"
    "facade_inv (hi_streams s) (hi_facade_resources s)"
  using assms by (simp_all add: registry_inv_def)

text \<open>
  What an operation must respect to keep the identities: a minted address that becomes live is new, and
  a minted address that is tombstoned has just been live.
\<close>

lemma ids_inv_step:
  assumes inv: "ids_inv s L" and max: "hi_max_handles s' = hi_max_handles s"
    and opened: "\<And>k i. live_handle s' k i \<Longrightarrow> minted k \<Longrightarrow> live_handle s k i \<or> (k, i) \<notin> lg_issued L"
    and closed: "\<And>k i. (k, i) \<in> set (hi_tombstones s') \<Longrightarrow> minted k \<Longrightarrow>
        (k, i) \<in> set (hi_tombstones s) \<or> live_handle s k i \<and> \<not> live_handle s' k i"
    and counter: "unat (hi_next_agent_id s) \<le> unat (hi_next_agent_id s')"
    and agents: "\<And>i. live_handle s' AgentKind i \<Longrightarrow> live_handle s AgentKind i \<or>
        (\<exists>n. i = agent_id n \<and> 0 < n \<and> n \<le> unat (hi_next_agent_id s'))"
  shows "ids_inv s' (advance L s s')"
  unfolding ids_inv_def advance_simps
proof (intro conjI allI impI)
  show "lg_bound L = unat (hi_max_handles s')" using inv max by (simp add: ids_inv_def)
  show "lg_issued L \<union> live s' = live s' \<union> (lg_retired L \<union> (live s - live s'))"
    using inv by (auto simp: ids_inv_def)
next
  fix k i assume t: "(k, i) \<in> lg_retired L \<union> (live s - live s')" and m: "minted k"
  show "\<not> live_handle s' k i"
  proof (cases "(k, i) \<in> lg_retired L")
    case True
    with inv m have "(k, i) \<in> lg_issued L" "\<not> live_handle s k i" by (auto simp: ids_inv_def)
    with opened [OF _ m] show ?thesis by blast
  qed (use t in simp)
next
  fix k i assume t: "(k, i) \<in> set (hi_tombstones s')" and m: "minted k"
  from closed [OF t m] inv m show "(k, i) \<in> lg_retired L \<union> (live s - live s')" by (auto simp: ids_inv_def)
next
  fix i assume i: "(AgentKind, i) \<in> lg_issued L \<union> live s'"
  have known: "\<exists>n. i = agent_id n \<and> 0 < n \<and> n \<le> unat (hi_next_agent_id s')" if "(AgentKind, i) \<in> lg_issued L"
    using that inv counter unfolding ids_inv_def by (meson le_trans)
  have "live_handle s AgentKind i \<Longrightarrow> (AgentKind, i) \<in> lg_issued L" using inv by (simp add: ids_inv_def)
  with i agents [of i] known show "\<exists>n. i = agent_id n \<and> 0 < n \<and> n \<le> unat (hi_next_agent_id s')"
    unfolding Un_iff in_live by blast
qed

lemma agent_id_inject [simp]: "agent_id m = agent_id n \<longleftrightarrow> m = n"
  by (auto simp: agent_id_def show_nat_inj)

lemma fresh_agent_id:
  assumes "ids_inv s L" and "unat (hi_next_agent_id s) < n"
  shows "(AgentKind, agent_id n) \<notin> lg_issued L"
  using assms unfolding ids_inv_def by (metis agent_id_inject leD)

lemma live_in_issued: "registry_inv (s, L) \<Longrightarrow> live_handle s k i \<Longrightarrow> (k, i) \<in> lg_issued L"
  using registry_invD(3) by (force simp: ids_inv_def)

end
