(* ===== verification/Registry_Steps.thy ===== *)
theory Registry_Steps
  imports Registry_Inv
begin

text \<open>
  Every operation of the handle registry keeps its invariant: one lemma per operation, over all
  arguments and every outcome.
\<close>

section \<open>Updates\<close>

lemma registry_updateI:
  assumes inv: "registry_inv (s, L)"
    and wf: "maps_wf s'" and max: "hi_max_handles s' = hi_max_handles s"
    and count: "open_count s' \<le> unat (hi_max_handles s)"
    and ring: "length (hi_tombstones s') \<le> unat (hi_max_handles s)"
    and idem: "length (hi_idempotency s') \<le> unat (hi_max_handles s)"
    and opened: "\<And>k i. live_handle s' k i \<Longrightarrow> minted k \<Longrightarrow> live_handle s k i \<or> (k, i) \<notin> lg_issued L"
    and closed: "\<And>k i. (k, i) \<in> set (hi_tombstones s') \<Longrightarrow> minted k \<Longrightarrow>
        (k, i) \<in> set (hi_tombstones s) \<or> live_handle s k i \<and> \<not> live_handle s' k i"
    and counter: "unat (hi_next_agent_id s) \<le> unat (hi_next_agent_id s')"
    and agents: "\<And>i. live_handle s' AgentKind i \<Longrightarrow> live_handle s AgentKind i \<or>
        (\<exists>n. i = agent_id n \<and> 0 < n \<and> n \<le> unat (hi_next_agent_id s'))"
    and plan: "plan_inv (hi_task_runs s') (hi_plan_tasks s') (hi_plan_task_index s')"
    and ext: "ext_inv (hi_extensions s') (hi_extension_index s') (hi_next_extension_order s')"
    and facade: "facade_inv (hi_streams s') (hi_facade_resources s')"
  shows "registry_inv (s', advance L s s')"
proof (rule registry_invI [OF wf _ _ plan ext facade])
  show "bounds_inv s'"
    using registry_invD(2) [OF inv] max count ring idem by (simp add: bounds_inv_def)
  show "ids_inv s' (advance L s s')"
    by (rule ids_inv_step [OF registry_invD(3) [OF inv] max opened closed counter agents])
qed

text \<open>The facts an update usually starts from.\<close>

lemma registry_inv_facts:
  assumes "registry_inv (s, L)"
  shows "maps_wf s" "open_count s \<le> unat (hi_max_handles s)" "hi_max_handles s < - 1"
    "0 < hi_max_handles s"
    "length (hi_tombstones s) \<le> unat (hi_max_handles s)" "length (hi_idempotency s) \<le> unat (hi_max_handles s)"
    "plan_inv (hi_task_runs s) (hi_plan_tasks s) (hi_plan_task_index s)"
    "ext_inv (hi_extensions s) (hi_extension_index s) (hi_next_extension_order s)"
    "facade_inv (hi_streams s) (hi_facade_resources s)"
  using assms by (simp_all add: registry_inv_def bounds_inv_def)

lemma registry_inv_same:
  assumes "registry_inv (s, L)"
  shows "registry_inv (s, advance L s s)"
  by (rule registry_updateI [OF assms])
    (use registry_inv_facts [OF assms] in \<open>simp_all add: bounds_inv_def\<close>)

lemma registry_budget:
  assumes "registry_inv (s, L)" and "enforce_budget s k = Ok u"
  shows "open_count s + unat k \<le> unat (hi_max_handles s)"
  using enforce_budget_Ok [of s k] registry_inv_facts(2,3) [OF assms(1)] assms(2) by (cases u) simp

text \<open>A tombstone batch after a removal.\<close>

lemma tombs_after:
  assumes "(k, i) \<in> set (hi_tombstones (push_tombstones ts s'))" and "hi_tombstones s' = hi_tombstones s"
  shows "(k, i) \<in> set (hi_tombstones s) \<or> (k, i) \<in> set ts"
  using assms push_tombstones_set [of ts s'] by auto

lemmas map_lengths = length_hput_le length_hdel_le

lemma not_minted [simp]: "\<not> minted RunKind" "\<not> minted StreamKind"
  "minted AgentKind" "minted SessionKind" "minted TaskRunKind" "minted PlanTaskKind" "minted SubagentKind"
  "minted ExtensionKindOf" "minted FacadeResourceKind"
  by (simp_all add: minted_def)

lemma maps_wf_push [simp]: "maps_wf (push_tombstones ts s) = maps_wf s"
  by (simp add: maps_wf_def)

lemma open_count_push [simp]: "open_count (push_tombstones ts s) = open_count s"
  by (simp add: open_count_def)

section \<open>Agents\<close>

lemma register_agent_cases:
  assumes "register_agent d fp s = (r, s')"
  obtains (rejected) e where "r = Err e" "s' = s"
  | (registered) n entry where "enforce_budget s 1 = Ok ()" "unat n = Suc (unat (hi_next_agent_id s))"
      "r = Ok (issued s AgentKind (agent_id (unat n)), entry)" "ae_fingerprint entry = fp" "ae_definition entry = d"
      "s' = s\<lparr>hi_next_agent_id := n, hi_agents := hput (agent_id (unat n)) entry (hi_agents s)\<rparr>"
proof (cases "enforce_budget s 1")
  case (Inl e)
  with assms show ?thesis by (auto simp: register_agent_def intro: rejected)
next
  case (Inr u)
  show ?thesis
  proof (cases "checked_add (hi_next_agent_id s) 1")
    case None
    with assms Inr show ?thesis by (auto simp: register_agent_def mint_id_def intro: rejected)
  next
    case (Some n)
    with assms Inr show ?thesis
      by (intro registered [of n "\<lparr>ae_closing = False, ae_definition = d, ae_fingerprint = fp\<rparr>"])
        (auto simp: register_agent_def mint_id_def Let_def agent_id_def issued_def checked_add_Some)
  qed
qed

lemma register_agent_inv:
  assumes inv: "registry_inv (s, L)" and run: "register_agent d fp s = (r, s')"
  shows "registry_inv (s', advance L s s')"
  using run
proof (cases rule: register_agent_cases)
  case (rejected e)
  then show ?thesis using registry_inv_same [OF inv] by simp
next
  case (registered n entry)
  let ?i = "agent_id (unat n)"
  note facts = registry_inv_facts [OF inv]
  have budget: "open_count s + 1 \<le> unat (hi_max_handles s)"
    using registry_budget [OF inv registered(1)] by simp
  have fresh: "(AgentKind, ?i) \<notin> lg_issued L"
    using registered(2) by (intro fresh_agent_id [OF registry_invD(3) [OF inv]]) simp
  show ?thesis
  proof (rule registry_updateI [OF inv])
    show "maps_wf s'" using facts(1) registered(6) by (simp add: maps_wf_def)
    show "open_count s' \<le> unat (hi_max_handles s)"
      using budget registered(6) length_hput_le [of ?i entry "hi_agents s"] by (simp add: open_count_def)
    fix k i assume "live_handle s' k i"
    then show "live_handle s k i \<or> (k, i) \<notin> lg_issued L" using fresh registered(6) by (cases k) auto
  next
    fix i assume "live_handle s' AgentKind i"
    then show "live_handle s AgentKind i \<or> (\<exists>n. i = agent_id n \<and> 0 < n \<and> n \<le> unat (hi_next_agent_id s'))"
      using registered by auto
  next
    fix k i assume "(k, i) \<in> set (hi_tombstones s')" "minted k"
    then show "(k, i) \<in> set (hi_tombstones s) \<or> live_handle s k i \<and> \<not> live_handle s' k i"
      using registered(6) by simp
  qed (use facts registered in simp_all)
qed

lemma hdel_head_length: "m = (k, v) # rest \<Longrightarrow> length (hdel k m) \<le> length rest"
  using length_hdel_le [of k rest] by (simp add: AList.delete_eq)

lemma create_commit_cases:
  assumes "create_commit idem fp h entry s = (r, s')"
  obtains (kept) "s' = s" | (lost) "s' = s\<lparr>hi_agents := hdel (h_id h) (hi_agents s)\<rparr>"
  | (won) "hget (hi_idempotency s) idem = None" "r = Ok (h, entry, True)"
      "s' = s\<lparr>hi_idempotency := hput idem h
         (if unat (hi_max_handles s) \<le> length (hi_idempotency s)
          then (case hi_idempotency s of [] \<Rightarrow> [] | (oldest, _) # _ \<Rightarrow> hdel oldest (hi_idempotency s))
          else hi_idempotency s)\<rparr>"
proof (cases "hget (hi_idempotency s) idem")
  case None
  with assms show ?thesis by (intro won) (simp_all add: create_commit_def Let_def)
next
  case (Some previous)
  show ?thesis
  proof (cases "hget (hi_agents s) (h_id previous)")
    case None
    with assms Some show ?thesis by (intro kept) (simp add: create_commit_def)
  next
    case (Some winner)
    with assms \<open>hget (hi_idempotency s) idem = Some previous\<close> show ?thesis
      by (intro lost) (simp add: create_commit_def Let_def split: if_splits)
  qed
qed

lemma create_commit_inv:
  assumes inv: "registry_inv (s, L)" and run: "create_commit idem fp h entry s = (r, s')"
  shows "registry_inv (s', advance L s s')"
  using run
proof (cases rule: create_commit_cases)
  case kept
  then show ?thesis using registry_inv_same [OF inv] by simp
next
  case lost
  note facts = registry_inv_facts [OF inv]
  show ?thesis
  proof (rule registry_updateI [OF inv])
    show "maps_wf s'" using facts(1) lost by (simp add: maps_wf_def)
    show "open_count s' \<le> unat (hi_max_handles s)"
      using facts(2) lost length_hdel_le [of "h_id h" "hi_agents s"] by (simp add: open_count_def)
    fix k i assume "live_handle s' k i"
    then show "live_handle s k i \<or> (k, i) \<notin> lg_issued L" using lost by (cases k) auto
  qed (use facts in \<open>simp_all add: lost\<close>)
next
  case won
  note facts = registry_inv_facts [OF inv]
  let ?kept = "(if unat (hi_max_handles s) \<le> length (hi_idempotency s)
          then (case hi_idempotency s of [] \<Rightarrow> [] | (oldest, _) # _ \<Rightarrow> hdel oldest (hi_idempotency s))
          else hi_idempotency s)"
  have pos: "0 < unat (hi_max_handles s)" using facts(4) by (simp add: word_less_nat_alt)
  have "length ?kept < unat (hi_max_handles s)"
    using facts(6) pos hdel_head_length by (fastforce split: list.splits)
  then have len: "length (hput idem h ?kept) \<le> unat (hi_max_handles s)"
    using length_hput_le [of idem h ?kept] by linarith
  have "hwf ?kept" using facts(1) by (auto simp: maps_wf_def split: list.splits) (simp add: hwf_def)
  then have wf: "maps_wf s'" using facts(1) won(3) by (simp add: maps_wf_def)
  show ?thesis
  proof (rule registry_updateI [OF inv wf])
    show "open_count s' \<le> unat (hi_max_handles s)" using facts(2) won(3) by (simp add: open_count_def)
    show "length (hi_idempotency s') \<le> unat (hi_max_handles s)" using len won(3) by simp
    fix k i assume "live_handle s' k i" then show "live_handle s k i \<or> (k, i) \<notin> lg_issued L"
      using won(3) by (cases k) auto
  qed (use facts in \<open>simp_all add: won(3)\<close>)
qed

lemma close_agent_inv:
  assumes inv: "registry_inv (s, L)" and run: "close_agent h s = (r, s')"
  shows "registry_inv (s', advance L s s')"
proof (cases "hget (hi_agents s) (h_id h)")
  case None
  with run have "s' = s" by (simp add: close_agent_def)
  then show ?thesis using registry_inv_same [OF inv] by simp
next
  case (Some a)
  let ?s1 = "s\<lparr>hi_agents := hdel (h_id h) (hi_agents s)\<rparr>"
  have s': "s' = push_tombstones [(AgentKind, h_id h)] ?s1"
    using run Some by (auto simp: close_agent_def)
  note facts = registry_inv_facts [OF inv]
  show ?thesis
  proof (rule registry_updateI [OF inv])
    show "maps_wf s'" using facts(1) s' by (simp add: maps_wf_def)
    show "open_count s' \<le> unat (hi_max_handles s)"
      using facts(2) s' length_hdel_le [of "h_id h" "hi_agents s"] by (simp add: open_count_def)
    show "length (hi_tombstones s') \<le> unat (hi_max_handles s)"
      using push_tombstones_length [of _ ?s1] s' by simp
    fix k i assume "live_handle s' k i"
    then show "live_handle s k i \<or> (k, i) \<notin> lg_issued L" using s' by (cases k) auto
  next
    fix k i assume "(k, i) \<in> set (hi_tombstones s')" "minted k"
    then show "(k, i) \<in> set (hi_tombstones s) \<or> live_handle s k i \<and> \<not> live_handle s' k i"
      using tombs_after [of k i "[(AgentKind, h_id h)]" ?s1 s] s' Some by (auto simp: hmem_def)
  qed (use facts in \<open>simp_all add: s'\<close>)
qed

lemma mark_agent_closing_inv:
  assumes inv: "registry_inv (s, L)" and run: "s' = mark_agent_closing i s"
  shows "registry_inv (s', advance L s s')"
proof (cases "hget (hi_agents s) i")
  case None
  then show ?thesis using registry_inv_same [OF inv] run by (simp add: mark_agent_closing_def)
next
  case (Some a)
  note facts = registry_inv_facts [OF inv]
  have s': "s' = s\<lparr>hi_agents := hput i (a\<lparr>ae_closing := True\<rparr>) (hi_agents s)\<rparr>"
    using run Some by (simp add: mark_agent_closing_def)
  have mem: "hmem i (hi_agents s)" using Some by (simp add: hmem_def)
  show ?thesis
  proof (rule registry_updateI [OF inv])
    show "maps_wf s'" using facts(1) s' by (simp add: maps_wf_def)
    show "open_count s' \<le> unat (hi_max_handles s)"
      using facts(2) s' Some by (simp add: open_count_def length_hput_present)
    fix k j assume "live_handle s' k j"
    then show "live_handle s k j \<or> (k, j) \<notin> lg_issued L" using s' mem by (cases k) auto
  next
    fix j assume "live_handle s' AgentKind j"
    then show "live_handle s AgentKind j \<or> (\<exists>n. j = agent_id n \<and> 0 < n \<and> n \<le> unat (hi_next_agent_id s'))"
      using s' mem by auto
  qed (use facts in \<open>simp_all add: s'\<close>)
qed

section \<open>Sessions and task graphs\<close>

lemma plan_inv_mono:
  "plan_inv R tasks index \<Longrightarrow> (\<And>k. hmem k R \<Longrightarrow> hmem k R') \<Longrightarrow> plan_inv R' tasks index"
  by (auto simp: plan_inv_def)

lemma register_session_cases:
  assumes "register_session_with_cwd u t acp a cwd s = (r, s')"
  obtains (rejected) e where "r = Err e" "s' = s"
  | (registered) entry where "enforce_budget s 2 = Ok ()"
      "r = Ok (issued s SessionKind (minted_id SessionKind u), issued s TaskRunKind (minted_id TaskRunKind t), entry)"
      "sn_task_run_handle_id entry = minted_id TaskRunKind t" "sn_acp_session_id entry = acp"
      "sn_agent_handle_id entry = a" "\<not> sn_closing entry"
      "\<exists>ae. hget (hi_agents s) a = Some ae \<and> \<not> ae_closing ae"
      "s' = s\<lparr>hi_sessions := hput (minted_id SessionKind u) entry (hi_sessions s),
              hi_task_runs := hput (minted_id TaskRunKind t)
                 \<lparr>tr_session_handle_id = minted_id SessionKind u, tr_acp_session_id = acp\<rparr> (hi_task_runs s)\<rparr>"
proof (cases "case hget (hi_agents s) a of None \<Rightarrow> True | Some ae \<Rightarrow> ae_closing ae")
  case True
  with assms show ?thesis by (auto simp: register_session_with_cwd_def intro: rejected)
next
  case open_agent: False
  show ?thesis
  proof (cases "enforce_budget s 2")
    case (Inl e)
    with assms open_agent show ?thesis by (auto simp: register_session_with_cwd_def intro: rejected)
  next
    case (Inr u')
    with assms open_agent show ?thesis
      by (intro registered [of "\<lparr>sn_cancelled = False, sn_closing = False, sn_acp_session_id = acp,
             sn_agent_handle_id = a, sn_cwd = cwd, sn_task_run_handle_id = minted_id TaskRunKind t\<rparr>"])
        (auto simp: register_session_with_cwd_def mint_id_def Let_def issued_def split: option.splits)
  qed
qed

lemma register_session_inv:
  assumes inv: "registry_inv (s, L)" and run: "register_session_with_cwd u t acp a cwd s = (r, s')"
    and fresh: "(SessionKind, minted_id SessionKind u) \<notin> lg_issued L" "(TaskRunKind, minted_id TaskRunKind t) \<notin> lg_issued L"
  shows "registry_inv (s', advance L s s')"
  using run
proof (cases rule: register_session_cases)
  case (rejected e)
  then show ?thesis using registry_inv_same [OF inv] by simp
next
  case (registered entry)
  note facts = registry_inv_facts [OF inv] and s' = registered(8)
  have budget: "open_count s + 2 \<le> unat (hi_max_handles s)"
    using registry_budget [OF inv registered(1)] by simp
  show ?thesis
  proof (rule registry_updateI [OF inv])
    show "maps_wf s'" using facts(1) by (simp add: s' maps_wf_def)
    show "open_count s' \<le> unat (hi_max_handles s)"
      using budget length_hput_le [of "minted_id SessionKind u" entry "hi_sessions s"]
        length_hput_le [of "minted_id TaskRunKind t" "\<lparr>tr_session_handle_id = minted_id SessionKind u, tr_acp_session_id = acp\<rparr>"
          "hi_task_runs s"]
      by (simp add: s' open_count_def)
    show "plan_inv (hi_task_runs s') (hi_plan_tasks s') (hi_plan_task_index s')"
      unfolding s' using facts(7) by (simp, rule plan_inv_mono) simp_all
    fix k i assume "live_handle s' k i"
    then show "live_handle s k i \<or> (k, i) \<notin> lg_issued L" using fresh by (cases k) (auto simp: s')
  qed (use facts in \<open>simp_all add: s'\<close>)
qed

lemma plan_inv_insert:
  assumes inv: "plan_inv R tasks index" and free: "hget index (r, t) = None" and run: "hmem r R"
    and absent: "hget tasks i = None"
  shows "plan_inv R (hput i \<lparr>pt_task_run_handle_id = r, pt_task_id = t\<rparr> tasks) (hput (r, t) i index)"
proof -
  have "hget index k \<noteq> Some i" for k
    using inv absent unfolding plan_inv_def by (metis option.distinct(1))
  moreover have "(pt_task_run_handle_id pt, pt_task_id pt) \<noteq> (r, t)" if "hget tasks j = Some pt" for j pt
    using inv free that unfolding plan_inv_def by (metis option.distinct(1))
  ultimately show ?thesis using inv run unfolding plan_inv_def by (auto split: if_splits)
qed

lemma register_plan_task_cases:
  assumes "register_plan_task u h tid operation s = (r, s')"
  obtains (same) "s' = s"
  | (registered) "hget (hi_plan_task_index s) (h_id h, tid) = None" "hmem (h_id h) (hi_task_runs s)"
      "enforce_budget s 1 = Ok ()" "r = Ok (issued s PlanTaskKind (minted_id PlanTaskKind u))" "\<not> blank tid"
      "s' = s\<lparr>hi_plan_tasks := hput (minted_id PlanTaskKind u) \<lparr>pt_task_run_handle_id = h_id h, pt_task_id = tid\<rparr>
                                (hi_plan_tasks s),
              hi_plan_task_index := hput (h_id h, tid) (minted_id PlanTaskKind u) (hi_plan_task_index s)\<rparr>"
proof (cases "hget (hi_plan_task_index s) (h_id h, tid) = None \<and> hmem (h_id h) (hi_task_runs s) \<and>
    enforce_budget s 1 = Ok () \<and> \<not> blank tid \<and> is_ok (task_run h s)")
  case True
  then obtain te where "task_run h s = Ok te" by (auto simp: is_ok_iff)
  with True assms show ?thesis
    by (intro registered) (auto simp: register_plan_task_def mint_id_def issued_def)
next
  case False
  with assms show ?thesis
    by (intro same) (auto simp: register_plan_task_def is_ok_iff split: sum.splits option.splits if_splits)
qed

lemma register_plan_task_inv:
  assumes inv: "registry_inv (s, L)" and run: "register_plan_task u h tid operation s = (r, s')"
    and fresh: "(PlanTaskKind, minted_id PlanTaskKind u) \<notin> lg_issued L"
  shows "registry_inv (s', advance L s s')"
  using run
proof (cases rule: register_plan_task_cases)
  case same
  then show ?thesis using registry_inv_same [OF inv] by simp
next
  case registered
  note facts = registry_inv_facts [OF inv] and s' = registered(6)
  have budget: "open_count s + 1 \<le> unat (hi_max_handles s)"
    using registry_budget [OF inv registered(3)] by simp
  have absent: "hget (hi_plan_tasks s) (minted_id PlanTaskKind u) = None"
    using live_in_issued [OF inv, of PlanTaskKind "minted_id PlanTaskKind u"] fresh
    by (cases "hget (hi_plan_tasks s) (minted_id PlanTaskKind u)") (auto simp: hmem_def)
  show ?thesis
  proof (rule registry_updateI [OF inv])
    show "maps_wf s'" using facts(1) by (simp add: s' maps_wf_def)
    show "open_count s' \<le> unat (hi_max_handles s)"
      using budget length_hput_le [of "minted_id PlanTaskKind u" "\<lparr>pt_task_run_handle_id = h_id h, pt_task_id = tid\<rparr>"
        "hi_plan_tasks s"] by (simp add: s' open_count_def)
    show "plan_inv (hi_task_runs s') (hi_plan_tasks s') (hi_plan_task_index s')"
      using plan_inv_insert [OF facts(7) registered(1,2) absent] by (simp add: s')
    fix k i assume "live_handle s' k i"
    then show "live_handle s k i \<or> (k, i) \<notin> lg_issued L" using fresh by (cases k) (auto simp: s')
  qed (use facts in \<open>simp_all add: s'\<close>)
qed

lemma plan_inv_delete:
  assumes inv: "plan_inv R tasks index" and old: "hget tasks i = Some pt"
  shows "plan_inv R (hdel i tasks) (hdel (pt_task_run_handle_id pt, pt_task_id pt) index)"
proof -
  let ?key = "\<lambda>pt. (pt_task_run_handle_id pt, pt_task_id pt)"
  have own: "hget index (?key q) = Some j \<and> hmem (pt_task_run_handle_id q) R" if "hget tasks j = Some q" for j q
    using inv that unfolding plan_inv_def by blast
  have indexed: "\<exists>q. hget tasks j = Some q \<and> k = ?key q" if "hget index k = Some j" for j k
    using inv that unfolding plan_inv_def by blast
  show ?thesis unfolding plan_inv_def
  proof (intro conjI allI impI)
    fix j q assume j: "hget (hdel i tasks) j = Some q"
    then have q: "hget tasks j = Some q" "j \<noteq> i" by (auto split: if_splits)
    have "?key q \<noteq> ?key pt" using own [OF q(1)] own [OF old] q(2) by (metis option.inject)
    with own [OF q(1)] show "hget (hdel (?key pt) index) (?key q) = Some j"
      by (metis hget_hdel)
    show "hmem (pt_task_run_handle_id q) R" using own [OF q(1)] by simp
  next
    fix k j assume "hget (hdel (?key pt) index) k = Some j"
    then have k: "hget index k = Some j" "k \<noteq> ?key pt" by (auto split: if_splits)
    from indexed [OF k(1)] obtain q where q: "hget tasks j = Some q" "k = ?key q" by blast
    with k old have "j \<noteq> i" by auto
    with q show "\<exists>q. hget (hdel i tasks) j = Some q \<and> k = ?key q" by auto
  qed
qed

lemma remove_plan_task_plan:
  assumes inv: "plan_inv R (hi_plan_tasks s) (hi_plan_task_index s)"
  shows "plan_inv R (hi_plan_tasks (remove_plan_task i s)) (hi_plan_task_index (remove_plan_task i s))"
  using plan_inv_delete [OF inv] inv by (simp add: remove_plan_task_def split: option.splits)

lemma remove_plan_tasks:
  assumes "plan_inv R (hi_plan_tasks s) (hi_plan_task_index s)"
    and "hwf (hi_plan_tasks s)" and "hwf (hi_plan_task_index s)"
  shows "\<exists>T X. fold remove_plan_task ids s = s\<lparr>hi_plan_tasks := T, hi_plan_task_index := X\<rparr> \<and>
    plan_inv R T X \<and> hwf T \<and> hwf X \<and> length T \<le> length (hi_plan_tasks s) \<and>
    (\<forall>i. hget T i = (if i \<in> set ids then None else hget (hi_plan_tasks s) i))"
  using assms
proof (induction ids arbitrary: s)
  case Nil
  then show ?case
    by (intro exI [of _ "hi_plan_tasks s"] exI [of _ "hi_plan_task_index s"]) simp
next
  case (Cons i ids)
  let ?s = "remove_plan_task i s"
  have get: "hget (hi_plan_tasks ?s) j = (if j = i then None else hget (hi_plan_tasks s) j)" for j
    by (auto simp: remove_plan_task_def split: option.splits)
  have wf: "hwf (hi_plan_tasks ?s)" "hwf (hi_plan_task_index ?s)"
    using Cons.prems by (auto simp: remove_plan_task_def split: option.splits)
  have len: "length (hi_plan_tasks ?s) \<le> length (hi_plan_tasks s)"
    by (auto simp: remove_plan_task_def length_hdel_le split: option.splits)
  have upd: "?s\<lparr>hi_plan_tasks := T, hi_plan_task_index := X\<rparr> = s\<lparr>hi_plan_tasks := T, hi_plan_task_index := X\<rparr>" for T X
    by (simp add: remove_plan_task_def split: option.splits)
  from Cons.IH [OF remove_plan_task_plan [OF Cons.prems(1)] wf] obtain T X where
    tx: "fold remove_plan_task ids ?s = s\<lparr>hi_plan_tasks := T, hi_plan_task_index := X\<rparr>"
      "plan_inv R T X" "hwf T" "hwf X" "length T \<le> length (hi_plan_tasks ?s)"
      "\<forall>j. hget T j = (if j \<in> set ids then None else hget (hi_plan_tasks ?s) j)"
    unfolding upd by blast
  show ?case
    by (intro exI [of _ T] exI [of _ X]) (use tx get len in auto)
qed

lemma plan_tasks_of_mem:
  "hwf (hi_plan_tasks s) \<Longrightarrow>
     i \<in> set (plan_tasks_of t s) \<longleftrightarrow> (\<exists>pt. hget (hi_plan_tasks s) i = Some pt \<and> pt_task_run_handle_id pt = t)"
  by (force simp: plan_tasks_of_def hget_in_set image_iff)

lemma close_session_inv:
  assumes inv: "registry_inv (s, L)" and run: "close_session h s = (r, s')"
  shows "registry_inv (s', advance L s s')"
proof (cases "hget (hi_sessions s) (h_id h)")
  case None
  with run have "s' = s" by (simp add: close_session_def)
  then show ?thesis using registry_inv_same [OF inv] by simp
next
  case (Some entry)
  note facts = registry_inv_facts [OF inv]
  let ?t = "sn_task_run_handle_id entry" and ?s0 = "s\<lparr>hi_sessions := hdel (h_id h) (hi_sessions s)\<rparr>"
  let ?ids = "plan_tasks_of ?t ?s0"
  have wf: "hwf (hi_plan_tasks s)" "hwf (hi_plan_task_index s)" using facts(1) by (simp_all add: maps_wf_def)
  obtain T X where fold: "fold remove_plan_task ?ids ?s0 = ?s0\<lparr>hi_plan_tasks := T, hi_plan_task_index := X\<rparr>"
    and plan: "plan_inv (hi_task_runs s) T X" "hwf T" "hwf X" "length T \<le> length (hi_plan_tasks s)"
    and get: "\<forall>i. hget T i = (if i \<in> set ?ids then None else hget (hi_plan_tasks s) i)"
    using remove_plan_tasks [of "hi_task_runs s" ?s0 ?ids] facts(7) wf by auto
  let ?s2 = "?s0\<lparr>hi_plan_tasks := T, hi_plan_task_index := X, hi_task_runs := hdel ?t (hi_task_runs s)\<rparr>"
  let ?ts = "map (Pair PlanTaskKind) ?ids @ (if hmem ?t (hi_task_runs s) then [(TaskRunKind, ?t)] else []) @
      [(SessionKind, h_id h)]"
  have s': "s' = push_tombstones ?ts ?s2"
    using run Some by (simp add: close_session_def release_session_def Let_def fold)
  have kept: "pt_task_run_handle_id pt \<noteq> ?t" if "hget T i = Some pt" for i pt
    using that get plan_tasks_of_mem [of ?s0 i ?t] wf by (auto split: if_splits)
  have mem: "hmem i T \<longleftrightarrow> hmem i (hi_plan_tasks s) \<and> i \<notin> set ?ids" for i
    using get by (simp add: hmem_def)
  have ids: "hmem i (hi_plan_tasks s)" if "i \<in> set ?ids" for i
    using that plan_tasks_of_mem [of ?s0 i ?t] wf by (auto simp: hmem_def)
  show ?thesis
  proof (rule registry_updateI [OF inv])
    show "maps_wf s'" using facts(1) plan by (simp add: s' maps_wf_def)
    show "open_count s' \<le> unat (hi_max_handles s)"
      using facts(2) plan(4) length_hdel_le [of "h_id h" "hi_sessions s"] length_hdel_le [of ?t "hi_task_runs s"]
      by (simp add: s' open_count_def)
    show "length (hi_tombstones s') \<le> unat (hi_max_handles s)"
      using push_tombstones_length [of ?ts ?s2] by (simp add: s')
    show "plan_inv (hi_task_runs s') (hi_plan_tasks s') (hi_plan_task_index s')"
      using plan(1) kept unfolding s' plan_inv_def by fastforce
    fix k i assume "live_handle s' k i"
    then show "live_handle s k i \<or> (k, i) \<notin> lg_issued L" using mem by (cases k) (auto simp: s')
  next
    fix k i assume t: "(k, i) \<in> set (hi_tombstones s')" and "minted k"
    have "(k, i) \<in> set (hi_tombstones s) \<or> (k, i) \<in> set ?ts"
      using tombs_after [of k i ?ts ?s2 s] t by (simp add: s')
    moreover have "live_handle s k i \<and> \<not> live_handle s' k i" if "(k, i) \<in> set ?ts"
      using that ids mem Some by (auto simp: s' hmem_def split: if_splits)
    ultimately show "(k, i) \<in> set (hi_tombstones s) \<or> live_handle s k i \<and> \<not> live_handle s' k i" by blast
  qed (use facts in \<open>simp_all add: s'\<close>)
qed

lemma hwf_map_values [simp]: "hwf (map (\<lambda>(i, e). (i, f e)) m) = hwf m"
  by (simp add: hwf_def comp_def split_def)

lemma hmem_map_values [simp]: "hmem k (map (\<lambda>(i, e). (i, f e)) m) = hmem k m"
  by (simp add: hmem_def map_of_map)

lemma fence_sessions_inv:
  assumes inv: "registry_inv (s, L)" and run: "fence_sessions s = (r, s')"
  shows "registry_inv (s', advance L s s')"
proof -
  note facts = registry_inv_facts [OF inv]
  have s': "s' = s\<lparr>hi_agents := map (\<lambda>(i, a). (i, a\<lparr>ae_closing := True\<rparr>)) (hi_agents s),
      hi_sessions := map (\<lambda>(i, e). (i, e\<lparr>sn_closing := True, sn_cancelled := True\<rparr>)) (hi_sessions s)\<rparr>"
    using run by (simp add: fence_sessions_def Let_def)
  show ?thesis
  proof (rule registry_updateI [OF inv])
    show "maps_wf s'" using facts(1) by (simp add: s' maps_wf_def)
    show "open_count s' \<le> unat (hi_max_handles s)" using facts(2) by (simp add: s' open_count_def)
    fix k i assume "live_handle s' k i"
    then show "live_handle s k i \<or> (k, i) \<notin> lg_issued L" by (cases k) (simp_all add: s')
  qed (use facts in \<open>simp_all add: s'\<close>)
qed

lemma mark_session_closing_inv:
  assumes inv: "registry_inv (s, L)" and run: "s' = mark_session_closing i s"
  shows "registry_inv (s', advance L s s')"
proof (cases "hget (hi_sessions s) i")
  case None
  then show ?thesis using registry_inv_same [OF inv] run by (simp add: mark_session_closing_def)
next
  case (Some e)
  note facts = registry_inv_facts [OF inv]
  have s': "s' = s\<lparr>hi_sessions := hput i (e\<lparr>sn_closing := True, sn_cancelled := True\<rparr>) (hi_sessions s)\<rparr>"
    using run Some by (simp add: mark_session_closing_def)
  have mem: "hmem i (hi_sessions s)" using Some by (simp add: hmem_def)
  show ?thesis
  proof (rule registry_updateI [OF inv])
    show "maps_wf s'" using facts(1) by (simp add: s' maps_wf_def)
    show "open_count s' \<le> unat (hi_max_handles s)"
      using facts(2) Some by (simp add: s' open_count_def length_hput_present)
    fix k j assume "live_handle s' k j"
    then show "live_handle s k j \<or> (k, j) \<notin> lg_issued L" using mem by (cases k) (auto simp: s')
  qed (use facts in \<open>simp_all add: s'\<close>)
qed

section \<open>Runs and streams\<close>

lemma plain_stream_facade [simp]: "\<not> st_facade (plain_stream run_id q)"
  by (simp add: plain_stream_def)

lemma facade_inv_plain:
  "facade_inv streams resources \<Longrightarrow> \<not> st_facade st \<Longrightarrow> facade_inv (hput i st streams) resources"
  by (auto simp: facade_inv_def)

lemma facade_inv_subset:
  "facade_inv streams resources \<Longrightarrow> (\<And>i st. hget streams' i = Some st \<Longrightarrow> hget streams i = Some st) \<Longrightarrow>
     facade_inv streams' resources"
  unfolding facade_inv_def by blast

lemma register_live_run_inv:
  assumes inv: "registry_inv (s, L)" and run: "register_live_run i sess sh s = (r, s')"
  shows "registry_inv (s', advance L s s')"
proof (cases "admit_live_run i sess sh s")
  case (Inl e)
  then show ?thesis using registry_inv_same [OF inv] run by (simp add: register_live_run_def)
next
  case (Inr u)
  note facts = registry_inv_facts [OF inv]
  have budget: "open_count s + 1 \<le> unat (hi_max_handles s)"
    using Inr registry_budget [OF inv, of 1] by (auto simp: admit_live_run_def and_then_eq_Ok)
  have s': "s' = s\<lparr>hi_runs := hput i (LiveRun sess) (hi_runs s)\<rparr>"
    using run Inr by (simp add: register_live_run_def)
  show ?thesis
  proof (rule registry_updateI [OF inv])
    show "maps_wf s'" using facts(1) by (simp add: s' maps_wf_def)
    show "open_count s' \<le> unat (hi_max_handles s)"
      using budget length_hput_le [of i "LiveRun sess" "hi_runs s"] by (simp add: s' open_count_def)
    fix k j assume "live_handle s' k j" "minted k"
    then show "live_handle s k j \<or> (k, j) \<notin> lg_issued L" by (cases k) (simp_all add: s')
  qed (use facts in \<open>simp_all add: s'\<close>)
qed

lemma register_recovered_run_inv:
  assumes inv: "registry_inv (s, L)" and run: "register_recovered_run i entry s = (r, s')"
  shows "registry_inv (s', advance L s s')"
proof (cases "enforce_budget s 2 = Ok () \<and> \<not> (hmem i (hi_runs s) \<or> hmem (rv_stream_id entry) (hi_streams s))")
  case False
  then have "s' = s"
    using run by (cases "enforce_budget s 2") (auto simp: register_recovered_run_def)
  then show ?thesis using registry_inv_same [OF inv] by simp
next
  case True
  note facts = registry_inv_facts [OF inv]
  let ?st = "plain_stream i (rv_last_sequence entry)"
  have budget: "open_count s + 2 \<le> unat (hi_max_handles s)"
    using True registry_budget [OF inv, of 2] by simp
  have s': "s' = s\<lparr>hi_runs := hput i (RecoveredRun entry) (hi_runs s),
      hi_streams := hput (rv_stream_id entry) ?st (hi_streams s)\<rparr>"
    using run True by (simp add: register_recovered_run_def)
  show ?thesis
  proof (rule registry_updateI [OF inv])
    show "maps_wf s'" using facts(1) by (simp add: s' maps_wf_def)
    show "open_count s' \<le> unat (hi_max_handles s)"
      using budget length_hput_le [of i "RecoveredRun entry" "hi_runs s"]
        length_hput_le [of "rv_stream_id entry" ?st "hi_streams s"] by (simp add: s' open_count_def)
    fix k j assume "live_handle s' k j" "minted k"
    then show "live_handle s k j \<or> (k, j) \<notin> lg_issued L" by (cases k) (simp_all add: s')
  qed (use facts in \<open>simp_all add: s' facade_inv_plain\<close>)
qed

text \<open>The insertion of one plain stream, live or for a callback.\<close>

lemma insert_plain_stream_inv:
  assumes inv: "registry_inv (s, L)" and budget: "enforce_budget s 1 = Ok ()" and st: "\<not> st_facade st"
    and s': "s' = s\<lparr>hi_streams := hput i st (hi_streams s)\<rparr>"
  shows "registry_inv (s', advance L s s')"
proof -
  note facts = registry_inv_facts [OF inv]
  show ?thesis
  proof (rule registry_updateI [OF inv])
    show "maps_wf s'" using facts(1) by (simp add: s' maps_wf_def)
    show "open_count s' \<le> unat (hi_max_handles s)"
      using registry_budget [OF inv budget] length_hput_le [of i st "hi_streams s"] by (simp add: s' open_count_def)
    fix k j assume "live_handle s' k j" "minted k"
    then show "live_handle s k j \<or> (k, j) \<notin> lg_issued L" by (cases k) (simp_all add: s')
  qed (use facts st in \<open>simp_all add: s' facade_inv_plain\<close>)
qed

lemma register_live_stream_inv:
  assumes inv: "registry_inv (s, L)" and run: "register_live_stream i owner s = (r, s')"
  shows "registry_inv (s', advance L s s')"
proof (cases "enforce_budget s 1 = Ok () \<and> \<not> hmem i (hi_streams s)")
  case False
  then have "s' = s" using run by (cases "enforce_budget s 1") (auto simp: register_live_stream_def)
  then show ?thesis using registry_inv_same [OF inv] by simp
next
  case True
  then have "s' = s\<lparr>hi_streams := hput i (plain_stream owner 0) (hi_streams s)\<rparr>"
    using run by (simp add: register_live_stream_def)
  from insert_plain_stream_inv [OF inv _ _ this] True show ?thesis by simp
qed

text \<open>An update that only removes runs, streams, resources and extensions, and leaves tombstones.\<close>

lemma registry_shrinkI:
  assumes inv: "registry_inv (s, L)"
    and s1: "s1 = s\<lparr>hi_runs := R, hi_streams := S, hi_facade_resources := F, hi_extensions := E,
               hi_extension_index := X\<rparr>"
    and wf: "hwf R" "hwf S" "hwf F" "hwf E" "hwf X"
    and len: "length R \<le> length (hi_runs s)" "length S \<le> length (hi_streams s)"
      "length F \<le> length (hi_facade_resources s)" "length E \<le> length (hi_extensions s)"
    and sub: "\<And>i. hmem i F \<Longrightarrow> hmem i (hi_facade_resources s)" "\<And>i. hmem i E \<Longrightarrow> hmem i (hi_extensions s)"
    and ts: "\<And>k i. (k, i) \<in> set ts \<Longrightarrow> minted k \<Longrightarrow> live_handle s k i \<and> \<not> live_handle s1 k i"
    and ext: "ext_inv E X (hi_next_extension_order s)" and facade: "facade_inv S F"
  shows "registry_inv (push_tombstones ts s1, advance L s (push_tombstones ts s1))"
proof -
  note facts = registry_inv_facts [OF inv]
  let ?s = "push_tombstones ts s1"
  show ?thesis
  proof (rule registry_updateI [OF inv])
    show "maps_wf ?s" using facts(1) wf by (simp add: s1 maps_wf_def)
    show "open_count ?s \<le> unat (hi_max_handles s)" using facts(2) len by (simp add: s1 open_count_def)
    show "length (hi_tombstones ?s) \<le> unat (hi_max_handles s)" using push_tombstones_length [of ts s1] by (simp add: s1)
    fix k i assume "live_handle ?s k i" "minted k"
    then show "live_handle s k i \<or> (k, i) \<notin> lg_issued L" using sub by (cases k) (auto simp: s1)
  next
    fix k i assume t: "(k, i) \<in> set (hi_tombstones ?s)" and m: "minted k"
    have "(k, i) \<in> set (hi_tombstones s) \<or> (k, i) \<in> set ts"
      using tombs_after [OF t, of s] by (simp add: s1)
    with ts [OF _ m] show "(k, i) \<in> set (hi_tombstones s) \<or> live_handle s k i \<and> \<not> live_handle ?s k i" by auto
  qed (use facts ext facade in \<open>simp_all add: s1\<close>)
qed

lemma remove_run_handles_inv:
  assumes inv: "registry_inv (s, L)" and run: "s' = remove_run_handles i s"
  shows "registry_inv (s', advance L s s')"
proof -
  note facts = registry_inv_facts [OF inv]
  obtain ts S where s': "s' = push_tombstones ts (s\<lparr>hi_runs := hdel i (hi_runs s), hi_streams := S\<rparr>)"
    and ts: "\<And>k j. (k, j) \<in> set ts \<Longrightarrow> \<not> minted k"
    and S: "S = hi_streams s \<or> (\<exists>j. S = hdel j (hi_streams s))"
  proof (cases "List.find (\<lambda>e. st_run_handle_id (snd e) = i) (hi_streams s)")
    case None
    with run show ?thesis by (intro that [of "[(RunKind, i)]" "hi_streams s"]) (auto simp: remove_run_handles_def)
  next
    case (Some e)
    with run show ?thesis
      by (intro that [of "[(RunKind, i), (StreamKind, fst e)]" "hdel (fst e) (hi_streams s)"])
        (cases e; auto simp: remove_run_handles_def)+
  qed
  have wf: "hwf S" using S facts(1) by (auto simp: maps_wf_def)
  have len: "length S \<le> length (hi_streams s)" using S length_hdel_le by auto
  have fac: "facade_inv S (hi_facade_resources s)"
    by (rule facade_inv_subset [OF facts(9)]) (use S in \<open>auto split: if_splits\<close>)
  show ?thesis unfolding s'
    by (rule registry_shrinkI [OF inv, where R = "hdel i (hi_runs s)" and S = S and F = "hi_facade_resources s"
          and E = "hi_extensions s" and X = "hi_extension_index s"])
      (use facts wf len fac ts in \<open>auto simp: maps_wf_def length_hdel_le\<close>)
qed

end
