(* ===== verification/Registry_Ext_Steps.thy ===== *)
theory Registry_Ext_Steps
  imports Registry_Steps
begin

text \<open>
  The operations on extensions and facade resources keep the registry invariant.
\<close>

section \<open>Extensions\<close>

lemma identity_of_sel:
  "ex_kind e = k \<Longrightarrow> ex_implementation_id e = n \<Longrightarrow> identity_of e = extension_identity k n"
  by (simp add: identity_of_def)

lemma ext_inv_entry:
  assumes "ext_inv E X q" and "hget E i = Some e"
  shows "hget X (identity_of e) = Some i" "ex_registration_order e \<le> q"
    "descriptor_kind (ex_descriptor e) = ex_kind e"
    "ex_factory_origin e = Some p \<Longrightarrow> \<exists>f. hget E (h_id p) = Some f \<and> ex_kind f = KAgentFactory"
    "ex_factory_origin e = Some p \<Longrightarrow> ex_kind e = KCustomAgent"
  using assms unfolding ext_inv_def by blast+

lemma ext_inv_indexed:
  "ext_inv E X q \<Longrightarrow> hget X n = Some i \<Longrightarrow> \<exists>e. hget E i = Some e \<and> identity_of e = n"
  unfolding ext_inv_def by blast

lemma ext_inv_order:
  "ext_inv E X q \<Longrightarrow> hget E i = Some e \<Longrightarrow> hget E j = Some f \<Longrightarrow>
     ex_registration_order e = ex_registration_order f \<Longrightarrow> i = j"
  unfolding ext_inv_def by blast

lemma ext_inv_insert:
  assumes inv: "ext_inv E X q" and free: "hget X (identity_of e) = None" and absent: "hget E i = None"
    and order: "ex_registration_order e = q'" "unat q' = Suc (unat q)"
    and kind: "descriptor_kind (ex_descriptor e) = ex_kind e"
    and origin: "\<And>p. ex_factory_origin e = Some p \<Longrightarrow> \<exists>f. hget E (h_id p) = Some f \<and> ex_kind f = KAgentFactory"
    and child: "\<And>p. ex_factory_origin e = Some p \<Longrightarrow> ex_kind e = KCustomAgent"
  shows "ext_inv (hput i e E) (hput (identity_of e) i X) q'"
proof -
  have older: "ex_registration_order f < q'" if "hget E j = Some f" for j f
    using ext_inv_entry(2) [OF inv that] order(2) by (simp add: word_less_nat_alt word_le_nat_alt)
  have less: "q < q'" using order(2) by (simp add: word_less_nat_alt)
  have other: "identity_of f \<noteq> identity_of e" if "hget E j = Some f" for j f
    using ext_inv_entry(1) [OF inv that] free by auto
  have parent: "\<exists>f. hget (hput i e E) (h_id p) = Some f \<and> ex_kind f = KAgentFactory"
    if "\<exists>f. hget E (h_id p) = Some f \<and> ex_kind f = KAgentFactory" for p
    using that absent by auto
  show ?thesis unfolding ext_inv_def
  proof (intro conjI allI impI)
    fix j f assume j: "hget (hput i e E) j = Some f"
    show "hget (hput (identity_of e) i X) (identity_of f) = Some j"
      using j other [of j f] ext_inv_entry(1) [OF inv, of j f] by (auto split: if_splits)
    show "ex_registration_order f \<le> q'"
      using j older [of j f] order(1) by (auto split: if_splits)
    show "descriptor_kind (ex_descriptor f) = ex_kind f"
      using j kind ext_inv_entry(3) [OF inv, of j f] by (auto split: if_splits)
    fix p assume p: "ex_factory_origin f = Some p"
    then show "ex_kind f = KCustomAgent"
      using j child [of p] ext_inv_entry(5) [OF inv, of j f p] by (auto split: if_splits)
    from p show "\<exists>f. hget (hput i e E) (h_id p) = Some f \<and> ex_kind f = KAgentFactory"
      using j origin [of p] ext_inv_entry(4) [OF inv, of j f p]
      by (intro parent) (auto split: if_splits)
  next
    fix n j assume "hget (hput (identity_of e) i X) n = Some j"
    then consider "n = identity_of e" "j = i" | "hget X n = Some j"
      by (cases "n = identity_of e") simp_all
    then show "\<exists>f. hget (hput i e E) j = Some f \<and> identity_of f = n"
    proof cases
      case 2
      from ext_inv_indexed [OF inv this] absent show ?thesis by auto
    qed simp
  next
    fix j k f g assume "hget (hput i e E) j = Some f" "hget (hput i e E) k = Some g"
      "ex_registration_order f = ex_registration_order g"
    then show "j = k"
      using older order(1) ext_inv_order [OF inv, of j f k g]
      by (cases "j = i"; cases "k = i") fastforce+
  qed
qed

lemma ext_inv_delete:
  assumes inv: "ext_inv E X q" and old: "hget E i = Some e"
    and childless: "\<And>j f p. hget E j = Some f \<Longrightarrow> ex_factory_origin f = Some p \<Longrightarrow> h_id p \<noteq> i"
  shows "ext_inv (hdel i E) (hdel (identity_of e) X) q"
proof -
  have other: "identity_of f \<noteq> identity_of e" if "hget E j = Some f" "j \<noteq> i" for j f
    using ext_inv_entry(1) [OF inv that(1)] ext_inv_entry(1) [OF inv old] that(2) by auto
  show ?thesis unfolding ext_inv_def
  proof (intro conjI allI impI)
    fix j f assume "hget (hdel i E) j = Some f"
    then have j: "hget E j = Some f" "j \<noteq> i" by (auto split: if_splits)
    show "hget (hdel (identity_of e) X) (identity_of f) = Some j"
      using other [OF j] ext_inv_entry(1) [OF inv j(1)] by simp
    show "ex_registration_order f \<le> q" "descriptor_kind (ex_descriptor f) = ex_kind f"
      using ext_inv_entry(2,3) [OF inv j(1)] by simp_all
    fix p assume p: "ex_factory_origin f = Some p"
    show "ex_kind f = KCustomAgent" by (rule ext_inv_entry(5) [OF inv j(1) p])
    from ext_inv_entry(4) [OF inv j(1) p] childless [OF j(1) p]
    show "\<exists>f. hget (hdel i E) (h_id p) = Some f \<and> ex_kind f = KAgentFactory" by auto
  next
    fix n j assume "hget (hdel (identity_of e) X) n = Some j"
    then have n: "hget X n = Some j" "n \<noteq> identity_of e" by (auto split: if_splits)
    from ext_inv_indexed [OF inv n(1)] n(2) old show "\<exists>f. hget (hdel i E) j = Some f \<and> identity_of f = n"
      by auto
  next
    fix j k f g assume "hget (hdel i E) j = Some f" "hget (hdel i E) k = Some g"
      "ex_registration_order f = ex_registration_order g"
    then show "j = k" using ext_inv_order [OF inv, of j f k g] by (auto split: if_splits)
  qed
qed

lemma option_pair_None: "(\<forall>a b. x \<noteq> Some (a, b)) \<longleftrightarrow> x = None"
  by (cases x) auto

lemma register_extension_cases:
  assumes "register_extension_owned codec u limits kind impl d timeout inst origin reserved s = (r, s')"
  obtains (same) "s' = s"
  | (registered) fp n e where "descriptor_kind d = kind"
      "existing_registration kind impl fp s = Ok None" "enforce_budget s 1 = Ok ()"
      "length (hi_extensions s) < unat (rl_max_extensions limits)"
      "unat n = Suc (unat (hi_next_extension_order s))" "\<And>p. origin = Some p \<Longrightarrow> open_factory s (h_id p)"
      "e = \<lparr>ex_kind = kind, ex_implementation_id = impl, ex_descriptor = d, ex_fingerprint = fp,
            ex_timeout = timeout, ex_registration_order = n, ex_factory_instance = inst,
            ex_factory_origin = origin, ex_reserved = reserved\<rparr>"
      "r = Ok (issued s ExtensionKindOf (minted_id ExtensionKindOf u), e)"
      "s' = s\<lparr>hi_next_extension_order := n,
              hi_extensions := hput (minted_id ExtensionKindOf u) e (hi_extensions s),
              hi_extension_index := hput (extension_identity kind impl) (minted_id ExtensionKindOf u)
                                      (hi_extension_index s)\<rparr>"
proof (cases "registration_gate codec limits kind impl d timeout inst origin s")
  case (Inl e)
  with assms show ?thesis by (intro same) (simp add: register_extension_owned_def)
next
  case (Inr found)
  obtain fp earlier where found: "found = (fp, earlier)" by (cases found)
  show ?thesis
  proof (cases "earlier = None \<and> checked_add (hi_next_extension_order s) 1 \<noteq> None")
    case False
    with assms Inr found show ?thesis
      by (intro same) (auto simp: register_extension_owned_def split: option.splits)
  next
    case True
    then obtain n where n: "checked_add (hi_next_extension_order s) 1 = Some n" by auto
    note gate = Inr [unfolded found registration_gate_def and_then_eq_Ok reject_if_eq_Ok map_err_eq_Ok]
    have kind: "descriptor_kind d = kind" and org: "\<And>p. origin = Some p \<Longrightarrow> open_factory s (h_id p)"
      and ex: "existing_registration kind impl fp s = Ok None"
      and adm: "admit_registration limits d inst s = Ok ()"
      using gate True by (auto simp: map_ok_eq_Ok reject_if_eq_Ok option_pair_None split: option.splits)
    have lim: "enforce_budget s 1 = Ok ()" "length (hi_extensions s) < unat (rl_max_extensions limits)"
      using adm by (auto simp: admit_registration_def and_then_eq_Ok reject_if_eq_Ok)
    show ?thesis
      by (rule registered [OF kind ex lim _ org refl])
        (use assms Inr found True n in
          \<open>auto simp: register_extension_owned_def mint_id_def issued_def checked_add_Some Let_def\<close>)
  qed
qed

lemma existing_none:
  assumes "ext_inv E X q" and "hi_extensions s = E" and "hi_extension_index s = X"
    and "existing_registration kind impl fp s = Ok None"
  shows "hget X (extension_identity kind impl) = None"
proof (rule ccontr)
  assume "hget X (extension_identity kind impl) \<noteq> None"
  then obtain i where i: "hget X (extension_identity kind impl) = Some i" by blast
  from ext_inv_indexed [OF assms(1) i] obtain e where "hget E i = Some e" by blast
  with i assms(2-4) show False by (simp add: existing_registration_def split: if_splits)
qed

lemma register_extension_inv:
  assumes inv: "registry_inv (s, L)"
    and run: "register_extension_owned codec u limits kind impl d timeout inst origin reserved s = (r, s')"
    and fresh: "(ExtensionKindOf, minted_id ExtensionKindOf u) \<notin> lg_issued L"
    and child: "\<And>p. origin = Some p \<Longrightarrow> kind = KCustomAgent"
  shows "registry_inv (s', advance L s s')"
  using run
proof (cases rule: register_extension_cases)
  case same
  then show ?thesis using registry_inv_same [OF inv] by simp
next
  case (registered fp n e)
  note facts = registry_inv_facts [OF inv] and s' = registered(9)
  let ?i = "minted_id ExtensionKindOf u"
  have absent: "hget (hi_extensions s) ?i = None"
    using live_in_issued [OF inv, of ExtensionKindOf ?i] fresh
    by (cases "hget (hi_extensions s) ?i") (auto simp: hmem_def)
  have id: "identity_of e = extension_identity kind impl" by (simp add: registered(7) identity_of_def)
  have ext: "ext_inv (hput ?i e (hi_extensions s)) (hput (extension_identity kind impl) ?i (hi_extension_index s)) n"
    unfolding id [symmetric]
  proof (rule ext_inv_insert [OF facts(8) _ absent _ registered(5)])
    show "hget (hi_extension_index s) (identity_of e) = None"
      unfolding id by (rule existing_none [OF facts(8) refl refl registered(2)])
    show "\<exists>f. hget (hi_extensions s) (h_id p) = Some f \<and> ex_kind f = KAgentFactory"
      if "ex_factory_origin e = Some p" for p
      using that registered(6) [of p] registered(7) by (auto simp: open_factory_def split: option.splits)
    show "ex_kind e = KCustomAgent" if "ex_factory_origin e = Some p" for p
      using that child [of p] registered(7) by simp
  qed (use registered in simp_all)
  show ?thesis
  proof (rule registry_updateI [OF inv])
    show "maps_wf s'" using facts(1) by (simp add: s' maps_wf_def)
    show "open_count s' \<le> unat (hi_max_handles s)"
      using registry_budget [OF inv registered(3)] length_hput_le [of ?i e "hi_extensions s"]
      by (simp add: s' open_count_def)
    fix k j assume "live_handle s' k j"
    then show "live_handle s k j \<or> (k, j) \<notin> lg_issued L" using fresh by (cases k) (auto simp: s')
  qed (use facts ext in \<open>simp_all add: s'\<close>)
qed

lemma ext_inv_replace:
  assumes inv: "ext_inv E X q" and old: "hget E i = Some e"
    and same: "ex_kind e' = ex_kind e" "identity_of e' = identity_of e"
      "ex_registration_order e' = ex_registration_order e" "ex_factory_origin e' = ex_factory_origin e"
    and kind: "descriptor_kind (ex_descriptor e') = ex_kind e'"
  shows "ext_inv (hput i e' E) X q"
proof -
  have parent: "\<exists>f. hget (hput i e' E) p = Some f \<and> ex_kind f = KAgentFactory"
    if "\<exists>f. hget E p = Some f \<and> ex_kind f = KAgentFactory" for p
    using that old same(1) by auto
  have lift: "\<exists>g. hget E j = Some g \<and> ex_registration_order f = ex_registration_order g \<and>
      identity_of f = identity_of g \<and> ex_factory_origin f = ex_factory_origin g \<and>
      ex_kind f = ex_kind g \<and> descriptor_kind (ex_descriptor f) = ex_kind f" if "hget (hput i e' E) j = Some f" for j f
  proof (cases "j = i")
    case True
    with that old same kind show ?thesis by simp
  next
    case False
    with that ext_inv_entry(3) [OF inv, of j f] show ?thesis by simp
  qed
  show ?thesis unfolding ext_inv_def
  proof (intro conjI allI impI)
    fix j f assume "hget (hput i e' E) j = Some f"
    from lift [OF this] obtain g where g: "hget E j = Some g" "ex_registration_order f = ex_registration_order g"
      "identity_of f = identity_of g" "ex_factory_origin f = ex_factory_origin g" "ex_kind f = ex_kind g"
      "descriptor_kind (ex_descriptor f) = ex_kind f" by blast
    show "hget X (identity_of f) = Some j" "ex_registration_order f \<le> q"
      "descriptor_kind (ex_descriptor f) = ex_kind f" using g ext_inv_entry [OF inv g(1)] by simp_all
    fix p assume p: "ex_factory_origin f = Some p"
    show "ex_kind f = KCustomAgent" using p g ext_inv_entry(5) [OF inv g(1), of p] by simp
    from p g(4) ext_inv_entry(4) [OF inv g(1), of p]
    show "\<exists>f. hget (hput i e' E) (h_id p) = Some f \<and> ex_kind f = KAgentFactory" by (intro parent) simp
  next
    fix n j assume "hget X n = Some j"
    from ext_inv_indexed [OF inv this] old same(2)
    show "\<exists>f. hget (hput i e' E) j = Some f \<and> identity_of f = n" by auto
  next
    fix j k f g assume jf: "hget (hput i e' E) j = Some f" and kg: "hget (hput i e' E) k = Some g"
      and eq: "ex_registration_order f = ex_registration_order g"
    from lift [OF jf] lift [OF kg] eq show "j = k" using ext_inv_order [OF inv] by metis
  qed
qed

lemma complete_factory_inv:
  assumes inv: "registry_inv (s, L)"
    and run: "complete_factory_instance_reserved codec limits child parent d s = (r, s')"
  shows "registry_inv (s', advance L s s')"
proof (cases "completion_gate codec limits child parent d s")
  case (Inl e)
  then show ?thesis using registry_inv_same [OF inv] run by (simp add: complete_factory_instance_reserved_def)
next
  case (Inr e)
  then have old: "hget (hi_extensions s) (h_id child) = Some e" "ex_factory_origin e = Some parent"
    and kind: "descriptor_kind d = KCustomAgent"
    by (auto simp: completion_gate_def and_then_eq_Ok reject_if_eq_Ok ok_or_eq_Ok)
  note facts = registry_inv_facts [OF inv]
  have custom: "ex_kind e = KCustomAgent" by (rule ext_inv_entry(5) [OF facts(8) old])
  show ?thesis
  proof (cases "s' = s")
    case True
    then show ?thesis using registry_inv_same [OF inv] by simp
  next
    case False
    then obtain fp where s': "s' = s\<lparr>hi_extensions := hput (h_id child) (e\<lparr>ex_descriptor := d,
        ex_fingerprint := fp, ex_factory_instance := True, ex_factory_origin := Some parent,
        ex_reserved := False\<rparr>) (hi_extensions s)\<rparr>"
      using run Inr
      by (cases "ex_reserved e"; cases "dc_fingerprint codec d (ex_timeout e) (Some parent)")
        (auto simp: complete_factory_instance_reserved_def Let_def)
    have mem: "hmem (h_id child) (hi_extensions s)" using old by (simp add: hmem_def)
    show ?thesis
    proof (rule registry_updateI [OF inv])
      show "maps_wf s'" using facts(1) by (simp add: s' maps_wf_def)
      show "open_count s' \<le> unat (hi_max_handles s)"
        using facts(2) old by (simp add: s' open_count_def length_hput_present)
      show "ext_inv (hi_extensions s') (hi_extension_index s') (hi_next_extension_order s')"
        using ext_inv_replace [OF facts(8) old(1)] old(2) kind custom by (simp add: s' identity_of_def)
      fix k j assume "live_handle s' k j"
      then show "live_handle s k j \<or> (k, j) \<notin> lg_issued L" using mem by (cases k) (auto simp: s')
    qed (use facts in \<open>simp_all add: s'\<close>)
  qed
qed

section \<open>Releases\<close>

lemma hget_fold_hdel: "hget (fold hdel ks m) k = (if k \<in> set ks then None else hget m k)"
  by (induction ks arbitrary: m) auto

lemma hget_fold_hdel_by: "hget (fold (\<lambda>e. hdel (f e)) es m) k = (if k \<in> f ` set es then None else hget m k)"
  by (induction es arbitrary: m) auto

lemma hwf_fold_hdel: "hwf m \<Longrightarrow> hwf (fold (\<lambda>e. hdel (f e)) es m)"
  by (induction es arbitrary: m) simp_all

lemma length_fold_hdel: "length (fold (\<lambda>e. hdel (f e)) es m) \<le> length m"
  by (induction es arbitrary: m) (auto intro: le_trans length_hdel_le)

lemmas fold_hdel = hget_fold_hdel hwf_fold_hdel [of _ "\<lambda>k. k", simplified] length_fold_hdel [of "\<lambda>k. k", simplified]

lemma streams_where_mem:
  "hwf (hi_streams s) \<Longrightarrow> i \<in> set (streams_where P s) \<longleftrightarrow> (\<exists>st. hget (hi_streams s) i = Some st \<and> P st)"
  by (force simp: streams_where_def hget_in_set image_iff)

lemma live_hmem:
  "live_handle s k i \<longleftrightarrow>
     (case k of AgentKind \<Rightarrow> hmem i (hi_agents s) | SessionKind \<Rightarrow> hmem i (hi_sessions s)
      | RunKind \<Rightarrow> hmem i (hi_runs s) | StreamKind \<Rightarrow> hmem i (hi_streams s)
      | TaskRunKind \<Rightarrow> hmem i (hi_task_runs s) | PlanTaskKind \<Rightarrow> hmem i (hi_plan_tasks s)
      | SubagentKind \<Rightarrow> False | ExtensionKindOf \<Rightarrow> hmem i (hi_extensions s)
      | FacadeResourceKind \<Rightarrow> hmem i (hi_facade_resources s))"
  by (cases k) simp_all

text \<open>Removing streams keeps every facade stream's resource; the resource goes only with its streams.\<close>

lemma facade_inv_fewer_streams: "facade_inv S F \<Longrightarrow> facade_inv (fold hdel ids S) F"
  by (rule facade_inv_subset) (auto simp: hget_fold_hdel split: if_splits)

lemma remove_streams_shrink:
  assumes inv: "registry_inv (s, L)"
    and s1: "s1 = s\<lparr>hi_facade_resources := F, hi_extensions := E, hi_extension_index := X,
               hi_streams := fold hdel ids (hi_streams s)\<rparr>"
    and wf: "hwf F" "hwf E" "hwf X"
    and len: "length F \<le> length (hi_facade_resources s)" "length E \<le> length (hi_extensions s)"
    and sub: "\<And>i. hmem i F \<Longrightarrow> hmem i (hi_facade_resources s)" "\<And>i. hmem i E \<Longrightarrow> hmem i (hi_extensions s)"
    and ts: "\<And>k i. (k, i) \<in> set ts \<Longrightarrow> minted k \<Longrightarrow> live_handle s k i \<and> \<not> live_handle s1 k i"
    and ext: "ext_inv E X (hi_next_extension_order s)"
    and facade: "facade_inv (fold hdel ids (hi_streams s)) F"
  shows "registry_inv (push_tombstones ts s1, advance L s (push_tombstones ts s1))"
proof (rule registry_shrinkI [OF inv, where R = "hi_runs s" and S = "fold hdel ids (hi_streams s)" and F = F
      and E = E and X = X])
  have "maps_wf s" by (rule registry_inv_facts [OF inv])
  then show "hwf (hi_runs s)" "hwf (fold hdel ids (hi_streams s))"
    by (simp_all add: maps_wf_def fold_hdel)
  show "live_handle s k i \<and> \<not> live_handle s1 k i" if "(k, i) \<in> set ts" "minted k" for k i
    using ts [OF that] .
qed (use assms in \<open>simp_all add: fold_hdel\<close>)

lemma close_extension_inv:
  assumes inv: "registry_inv (s, L)" and run: "close_extension h s = (r, s')"
  shows "registry_inv (s', advance L s s')"
proof (cases "list_ex (\<lambda>e. case ex_factory_origin (snd e) of None \<Rightarrow> False | Some origin \<Rightarrow> h_id origin = h_id h)
      (hi_extensions s) \<or> hget (hi_extensions s) (h_id h) = None")
  case True
  then have "s' = s" using run by (auto simp: close_extension_def split: if_splits)
  then show ?thesis using registry_inv_same [OF inv] by simp
next
  case False
  note facts = registry_inv_facts [OF inv]
  from False obtain e where e: "hget (hi_extensions s) (h_id h) = Some e" by auto
  let ?ids = "streams_where (\<lambda>st. st_run_handle_id st = h_id h) s"
  let ?E = "hdel (h_id h) (hi_extensions s)" and ?X = "hdel (identity_of e) (hi_extension_index s)"
  let ?ts = "map (Pair StreamKind) ?ids @ [(ExtensionKindOf, h_id h)]"
  let ?s1 = "s\<lparr>hi_facade_resources := hi_facade_resources s, hi_extensions := ?E, hi_extension_index := ?X,
               hi_streams := fold hdel ?ids (hi_streams s)\<rparr>"
  have s': "s' = push_tombstones ?ts ?s1"
    using run False e by (simp add: close_extension_def Let_def remove_streams_def)
  have childless: "h_id p \<noteq> h_id h" if "hget (hi_extensions s) j = Some f" "ex_factory_origin f = Some p" for j f p
    using False that map_of_SomeD [OF that(1)] by (fastforce simp: list_ex_iff)
  have mem: "hmem (h_id h) (hi_extensions s)" using e by (simp add: hmem_def)
  show ?thesis unfolding s'
    by (rule remove_streams_shrink [OF inv refl])
      (use facts ext_inv_delete [OF facts(8) e childless] facade_inv_fewer_streams mem in
        \<open>auto simp: maps_wf_def length_hdel_le\<close>)
qed

lemma close_all_extensions_inv:
  assumes inv: "registry_inv (s, L)" and run: "s' = close_all_extensions s"
  shows "registry_inv (s', advance L s s')"
proof -
  note facts = registry_inv_facts [OF inv]
  let ?E = "hi_extensions s"
  let ?ids = "streams_where (\<lambda>st. st_run_handle_id st \<in> set (map fst ?E)) s"
  let ?X = "fold (\<lambda>e. hdel (identity_of (snd e))) ?E (hi_extension_index s)"
  let ?ts = "map (\<lambda>e. (ExtensionKindOf, fst e)) ?E @ map (Pair StreamKind) ?ids"
  let ?s1 = "s\<lparr>hi_facade_resources := hi_facade_resources s, hi_extensions := [], hi_extension_index := ?X,
               hi_streams := fold hdel ?ids (hi_streams s)\<rparr>"
  have s': "s' = push_tombstones ?ts ?s1"
    using run by (simp add: close_all_extensions_def Let_def remove_streams_def)
  have none: "hget ?X n = None" for n
  proof (cases "hget (hi_extension_index s) n")
    case (Some i)
    from ext_inv_indexed [OF facts(8) Some] obtain e where "hget ?E i = Some e" "identity_of e = n" by blast
    then have "n \<in> (\<lambda>e. identity_of (snd e)) ` set ?E" using map_of_SomeD by force
    then show ?thesis by (simp add: hget_fold_hdel_by)
  qed (simp add: hget_fold_hdel_by)
  have ext: "ext_inv [] ?X (hi_next_extension_order s)" by (simp add: ext_inv_def none)
  have mem: "hmem i ?E" if "(i, e) \<in> set ?E" for i e
    using that facts(1) by (auto simp: maps_wf_def hmem_def simp flip: hget_in_set)
  show ?thesis unfolding s'
    by (rule remove_streams_shrink [OF inv refl])
      (use facts ext facade_inv_fewer_streams mem in \<open>auto simp: maps_wf_def hwf_fold_hdel\<close>)
qed

lemma register_extension_stream_inv:
  assumes inv: "registry_inv (s, L)" and run: "register_extension_stream u i s = (r, s')"
  shows "registry_inv (s', advance L s s')"
proof (cases "hmem i (hi_extensions s) \<and> enforce_budget s 1 = Ok ()")
  case False
  then have "s' = s" using run by (cases "enforce_budget s 1") (auto simp: register_extension_stream_def split: if_splits)
  then show ?thesis using registry_inv_same [OF inv] by simp
next
  case True
  then have "s' = s\<lparr>hi_streams := hput (minted_id StreamKind u) (plain_stream i 0) (hi_streams s)\<rparr>"
    using run by (simp add: register_extension_stream_def mint_id_def)
  from insert_plain_stream_inv [OF inv _ _ this] True show ?thesis by simp
qed

lemma remove_extension_stream_inv:
  assumes inv: "registry_inv (s, L)" and run: "s' = remove_extension_stream i s"
  shows "registry_inv (s', advance L s s')"
proof (cases "hmem i (hi_streams s)")
  case False
  then show ?thesis using registry_inv_same [OF inv] run by (simp add: remove_extension_stream_def)
next
  case True
  note facts = registry_inv_facts [OF inv]
  let ?s1 = "s\<lparr>hi_facade_resources := hi_facade_resources s, hi_extensions := hi_extensions s,
      hi_extension_index := hi_extension_index s, hi_streams := fold hdel [i] (hi_streams s)\<rparr>"
  have s': "s' = push_tombstones [(StreamKind, i)] ?s1" using run True by (simp add: remove_extension_stream_def)
  show ?thesis unfolding s'
    by (rule remove_streams_shrink [OF inv refl])
      (use facts facade_inv_fewer_streams [OF facts(9), of "[i]"] in \<open>auto simp: maps_wf_def\<close>)
qed

end
