(* ===== verification/Registry_Facade_Steps.thy ===== *)
theory Registry_Facade_Steps
  imports Registry_Ext_Steps
begin

text \<open>
  The operations on facade resources and facade streams keep the registry invariant, in particular
  that a facade stream never outlives its resource.
\<close>

section \<open>Resources\<close>

lemma mint_resources_eq:
  "mint_resources uuids entry s =
     (Ok (map (\<lambda>u. (issued s FacadeResourceKind (minted_id FacadeResourceKind u), entry)) uuids), s)"
  by (induction uuids entry s rule: mint_resources.induct) (simp_all add: mint_id_def)

lemma fold_hput_get:
  "hget (fold (\<lambda>u. hput (f u) v) us m) k = (if k \<in> f ` set us then Some v else hget m k)"
  by (induction us arbitrary: m) auto

lemma fold_hput_wf: "hwf m \<Longrightarrow> hwf (fold (\<lambda>u. hput (f u) v) us m)"
  by (induction us arbitrary: m) simp_all

lemma fold_hput_length: "length (fold (\<lambda>u. hput (f u) v) us m) \<le> length us + length m"
proof (induction us arbitrary: m)
  case (Cons u us)
  from Cons.IH [of "hput (f u) v m"] length_hput_le [of "f u" v m] show ?case by simp
qed simp

lemma facade_batch_cases:
  assumes "register_facade_resource_batch uuids bound family kind owner operation s = (r, s')"
  obtains (rejected) e where "r = Err e" "s' = s"
  | (registered) "\<not> bound < saturating_add (len_usize (hi_facade_resources s)) (len_usize uuids)"
      "enforce_budget s (len_usize uuids) = Ok ()" "\<And>acp. owner = Some acp \<Longrightarrow> session_open_for s acp"
      "r = Ok (map (\<lambda>u. (issued s FacadeResourceKind (minted_id FacadeResourceKind u),
                         new_facade_entry family kind owner)) uuids)"
      "s' = s\<lparr>hi_facade_resources :=
         fold (\<lambda>u. hput (minted_id FacadeResourceKind u) (new_facade_entry family kind owner)) uuids
           (hi_facade_resources s)\<rparr>"
proof (cases "bound < saturating_add (len_usize (hi_facade_resources s)) (len_usize uuids) \<or>
    (case owner of None \<Rightarrow> False | Some o_id \<Rightarrow> \<not> session_open_for s o_id)")
  case True
  with assms show ?thesis
    by (auto simp: register_facade_resource_batch_def intro: rejected split: if_splits)
next
  case False
  show ?thesis
  proof (cases "enforce_budget s (len_usize uuids)")
    case (Inl e)
    with assms False show ?thesis by (auto simp: register_facade_resource_batch_def intro: rejected)
  next
    case (Inr u)
    have fold: "fold (\<lambda>p. hput (h_id (fst p)) (snd p))
         (map (\<lambda>u. (issued s FacadeResourceKind (minted_id FacadeResourceKind u), v)) uuids) m =
       fold (\<lambda>u. hput (minted_id FacadeResourceKind u) v) uuids m" for v m
      by (simp add: fold_map comp_def issued_def)
    from assms False Inr show ?thesis
      by (intro registered) (auto simp: register_facade_resource_batch_def mint_resources_eq fold)
  qed
qed

lemma facade_batch_inv:
  assumes inv: "registry_inv (s, L)"
    and run: "register_facade_resource_batch uuids bound family kind owner operation s = (r, s')"
    and small: "length uuids < 2 ^ 64"
    and fresh: "\<And>u. u \<in> set uuids \<Longrightarrow> (FacadeResourceKind, minted_id FacadeResourceKind u) \<notin> lg_issued L"
  shows "registry_inv (s', advance L s s')"
  using run
proof (cases rule: facade_batch_cases)
  case (rejected e)
  then show ?thesis using registry_inv_same [OF inv] by simp
next
  case registered
  note facts = registry_inv_facts [OF inv] and s' = registered(5)
  let ?entry = "new_facade_entry family kind owner" and ?id = "minted_id FacadeResourceKind"
  let ?F = "fold (\<lambda>u. hput (?id u) ?entry) uuids (hi_facade_resources s)"
  have get: "hget ?F i = (if i \<in> ?id ` set uuids then Some ?entry else hget (hi_facade_resources s) i)" for i
    by (rule fold_hput_get)
  have absent: "hget (hi_facade_resources s) (?id u) = None" if "u \<in> set uuids" for u
    using live_in_issued [OF inv, of FacadeResourceKind "?id u"] fresh [OF that]
    by (cases "hget (hi_facade_resources s) (?id u)") (auto simp: hmem_def)
  have fac: "facade_inv (hi_streams s) ?F"
    unfolding facade_inv_def
  proof (intro allI impI)
    fix i st assume "hget (hi_streams s) i = Some st" "st_facade st"
    with facts(9) obtain q res where q: "st_resource_id st = Some q" "hget (hi_facade_resources s) q = Some res"
      "fr_owner_session res = st_owner_session st" unfolding facade_inv_def by blast
    with absent have "q \<notin> ?id ` set uuids" by auto
    with q get show "\<exists>q res. st_resource_id st = Some q \<and> hget ?F q = Some res \<and>
        fr_owner_session res = st_owner_session st" by auto
  qed
  show ?thesis
  proof (rule registry_updateI [OF inv])
    show "maps_wf s'" using facts(1) by (simp add: s' maps_wf_def fold_hput_wf)
    show "open_count s' \<le> unat (hi_max_handles s)"
      using registry_budget [OF inv registered(2)] small fold_hput_length [of ?id ?entry uuids "hi_facade_resources s"]
      by (simp add: s' open_count_def unat_len_usize)
    fix k j assume "live_handle s' k j"
    then show "live_handle s k j \<or> (k, j) \<notin> lg_issued L" using fresh by (cases k) (auto simp: s' hmem_def get split: if_splits)
  qed (use facts fac in \<open>simp_all add: s'\<close>)
qed

text \<open>An update of one resource in place that keeps its owner.\<close>

lemma replace_resource_inv:
  assumes inv: "registry_inv (s, L)" and old: "hget (hi_facade_resources s) i = Some e"
    and s': "s' = s\<lparr>hi_facade_resources := hput i e' (hi_facade_resources s)\<rparr>"
    and owner: "fr_owner_session e' = fr_owner_session e"
  shows "registry_inv (s', advance L s s')"
proof -
  note facts = registry_inv_facts [OF inv]
  have mem: "hmem i (hi_facade_resources s)" using old by (simp add: hmem_def)
  have fac: "facade_inv (hi_streams s) (hput i e' (hi_facade_resources s))"
    using facts(9) old owner unfolding facade_inv_def by fastforce
  show ?thesis
  proof (rule registry_updateI [OF inv])
    show "maps_wf s'" using facts(1) by (simp add: s' maps_wf_def)
    show "open_count s' \<le> unat (hi_max_handles s)"
      using facts(2) old by (simp add: s' open_count_def length_hput_present)
    fix k j assume "live_handle s' k j"
    then show "live_handle s k j \<or> (k, j) \<notin> lg_issued L" using mem by (cases k) (auto simp: s')
  qed (use facts fac in \<open>simp_all add: s'\<close>)
qed

lemma commit_mcp_inv:
  assumes inv: "registry_inv (s, L)" and run: "commit_mcp_preparation h s = (r, s')"
  shows "registry_inv (s', advance L s s')"
proof (cases "s' = s")
  case True
  then show ?thesis using registry_inv_same [OF inv] by simp
next
  case False
  then obtain e where "hget (hi_facade_resources s) (h_id h) = Some e"
    "s' = s\<lparr>hi_facade_resources := hput (h_id h) (new_facade_entry (fr_family e) ''mcp.client'' (fr_owner_session e))
        (hi_facade_resources s)\<rparr>"
    using run by (auto simp: commit_mcp_preparation_def mcp_preparation_def Let_def and_then_eq_Ok ok_or_eq_Ok reject_if_eq_Ok split: sum.splits)
  from replace_resource_inv [OF inv this] show ?thesis by (simp add: new_facade_entry_def)
qed

lemma mark_resource_closing_inv:
  assumes inv: "registry_inv (s, L)" and run: "s' = mark_resource_closing i s"
  shows "registry_inv (s', advance L s s')"
proof (cases "hget (hi_facade_resources s) i")
  case None
  then show ?thesis using registry_inv_same [OF inv] run by (simp add: mark_resource_closing_def)
next
  case (Some e)
  then have "s' = s\<lparr>hi_facade_resources := hput i (e\<lparr>fr_closing := True, fr_cancelled := True\<rparr>) (hi_facade_resources s)\<rparr>"
    using run by (simp add: mark_resource_closing_def)
  from replace_resource_inv [OF inv Some this] show ?thesis by simp
qed

section \<open>Streams\<close>

text \<open>An update of one stream in place that keeps its kind, resource and owner.\<close>

definition same_stream :: "stream_entry \<Rightarrow> stream_entry \<Rightarrow> bool" where
  "same_stream a b =
     (st_facade a = st_facade b \<and> st_resource_id a = st_resource_id b \<and>
      st_owner_session a = st_owner_session b \<and> st_run_handle_id a = st_run_handle_id b)"

lemma replace_stream_inv:
  assumes inv: "registry_inv (s, L)" and old: "hget (hi_streams s) i = Some st"
    and s': "s' = s\<lparr>hi_streams := hput i st' (hi_streams s)\<rparr>" and same: "same_stream st' st"
  shows "registry_inv (s', advance L s s')"
proof -
  note facts = registry_inv_facts [OF inv]
  have mem: "hmem i (hi_streams s)" using old by (simp add: hmem_def)
  have fac: "facade_inv (hput i st' (hi_streams s)) (hi_facade_resources s)"
    unfolding facade_inv_def
  proof (intro allI impI)
    fix j x assume "hget (hput i st' (hi_streams s)) j = Some x" "st_facade x"
    then obtain y where "hget (hi_streams s) j = Some y" "same_stream x y" "st_facade y"
      using old same by (cases "j = i") (auto simp: same_stream_def)
    with facts(9) show "\<exists>r res. st_resource_id x = Some r \<and> hget (hi_facade_resources s) r = Some res \<and>
        fr_owner_session res = st_owner_session x"
      unfolding facade_inv_def same_stream_def by metis
  qed
  show ?thesis
  proof (rule registry_updateI [OF inv])
    show "maps_wf s'" using facts(1) by (simp add: s' maps_wf_def)
    show "open_count s' \<le> unat (hi_max_handles s)"
      using facts(2) old by (simp add: s' open_count_def length_hput_present)
    fix k j assume "live_handle s' k j"
    then show "live_handle s k j \<or> (k, j) \<notin> lg_issued L" using mem by (cases k) (auto simp: s')
  qed (use facts fac in \<open>simp_all add: s'\<close>)
qed

lemma same_stream_observe: "same_stream (observe_facade_cancellation st) st"
  by (simp add: same_stream_def observe_facade_cancellation_def)

lemma facade_stream_Ok:
  assumes "facade_stream h owner operation s = Ok st"
  shows "hget (hi_streams s) (h_id h) = Some st" "st_facade st" "st_owner_session st = owner"
    "check_shape_and_generation s h StreamKind operation = Ok ()"
  using assms
  by (auto simp: facade_stream_def checked_lookup_def lookup_def and_then_eq_Ok ok_or_eq_Ok split: if_splits)

text \<open>Every stream operation answers an error on an unchanged registry, or replaces its stream.\<close>

definition stream_replaced :: "wire_handle \<Rightarrow> 'd handle_inner \<Rightarrow> 'd handle_inner \<Rightarrow> bool" where
  "stream_replaced h s s' =
     (s' = s \<or> (\<exists>st st'. hget (hi_streams s) (h_id h) = Some st \<and> same_stream st' st \<and>
        s' = s\<lparr>hi_streams := hput (h_id h) st' (hi_streams s)\<rparr>))"

lemma stream_replacedI:
  "hget (hi_streams s) (h_id h) = Some st \<Longrightarrow> same_stream st' st \<Longrightarrow> stream_replaced h s (put_stream h st' s)"
  by (auto simp: stream_replaced_def put_stream_def)

lemma stream_replaced_inv: "registry_inv (s, L) \<Longrightarrow> stream_replaced h s s' \<Longrightarrow> registry_inv (s', advance L s s')"
  using replace_stream_inv registry_inv_same unfolding stream_replaced_def by metis

lemma with_facade_stream_replaces:
  assumes run: "with_facade_stream h owner operation f s = (r, s')" and same: "\<And>x. same_stream (snd (f x)) x"
  shows "stream_replaced h s s'"
proof (cases "facade_stream h owner operation s")
  case (Inl e)
  with run show ?thesis by (simp add: with_facade_stream_def stream_replaced_def)
next
  case (Inr st)
  let ?st = "snd (f (observe_facade_cancellation st))"
  have "s' = put_stream h ?st s" using run Inr by (simp add: with_facade_stream_def split: prod.splits)
  moreover have "same_stream ?st st"
    using same [of "observe_facade_cancellation st"] same_stream_observe [of st] by (simp add: same_stream_def)
  ultimately show ?thesis using stream_replacedI [OF facade_stream_Ok(1) [OF Inr]] by simp
qed

lemma stream_sections_same:
  "same_stream (snd (advance_section h q operation x)) x"
  "same_stream (snd (settle_section h c operation x)) x"
  "same_stream (snd (cancel_section x)) x"
  by (simp_all add: same_stream_def advance_section_def settle_section_def cancel_section_def split: option.splits)

lemma stream_operation_inv:
  assumes "registry_inv (s, L)"
  shows "facade_stream_state h owner operation s = (r1, s') \<Longrightarrow> registry_inv (s', advance L s s')"
    "advance_facade_stream h owner q operation s = (r2, s') \<Longrightarrow> registry_inv (s', advance L s s')"
    "settle_facade_stream h owner c operation s = (r1, s') \<Longrightarrow> registry_inv (s', advance L s s')"
    "cancel_facade_stream h owner operation s = (r3, s') \<Longrightarrow> registry_inv (s', advance L s s')"
proof -
  have state: "same_stream (snd (Ok (st_last_sequence x, st_cancelled x), x)) x" for x
    by (simp add: same_stream_def)
  note inv = stream_replaced_inv [OF assms with_facade_stream_replaces]
  show "facade_stream_state h owner operation s = (r1, s') \<Longrightarrow> registry_inv (s', advance L s s')"
    unfolding facade_stream_state_def by (rule inv [OF _ state])
  show "advance_facade_stream h owner q operation s = (r2, s') \<Longrightarrow> registry_inv (s', advance L s s')"
    unfolding advance_facade_stream_def by (rule inv [OF _ stream_sections_same(1)])
  show "settle_facade_stream h owner c operation s = (r1, s') \<Longrightarrow> registry_inv (s', advance L s s')"
    unfolding settle_facade_stream_def by (rule inv [OF _ stream_sections_same(2)])
  show "cancel_facade_stream h owner operation s = (r3, s') \<Longrightarrow> registry_inv (s', advance L s s')"
    unfolding cancel_facade_stream_def by (rule inv [OF _ stream_sections_same(3)])
qed

lemma cancel_stream_token_inv:
  assumes inv: "registry_inv (s, L)" and run: "s' = cancel_stream_token i s"
  shows "registry_inv (s', advance L s s')"
proof (cases "hget (hi_streams s) i")
  case None
  then show ?thesis using registry_inv_same [OF inv] run by (simp add: cancel_stream_token_def)
next
  case (Some st)
  then have "s' = s\<lparr>hi_streams := hput i (st\<lparr>st_token := map_option (\<lambda>_. True) (st_token st)\<rparr>) (hi_streams s)\<rparr>"
    using run by (simp add: cancel_stream_token_def)
  from replace_stream_inv [OF inv Some this] show ?thesis by (simp add: same_stream_def)
qed

section \<open>Registration and release of streams\<close>

lemma facade_stream_admitted_Ok:
  assumes "facade_stream_admitted h owner operation s = Ok u"
  shows "\<exists>e. hget (hi_facade_resources s) (h_id h) = Some e \<and> \<not> fr_closing e \<and> fr_owner_session e = owner"
  using assms
  by (auto simp: facade_stream_admitted_def facade_resource_def facade_resource_for_close_def checked_lookup_def
      lookup_def and_then_eq_Ok ok_or_eq_Ok reject_if_eq_Ok split: if_splits)

lemma insert_facade_stream_cases:
  assumes "insert_facade_stream u bound h owner operation s = (r, s')"
  obtains (rejected) e where "r = Err e" "s' = s"
  | (registered) "length (filter (\<lambda>e. st_facade (snd e)) (hi_streams s)) < unat bound"
      "enforce_budget s 1 = Ok ()" "r = Ok (issued s StreamKind (minted_id StreamKind u))"
      "s' = s\<lparr>hi_streams := hput (minted_id StreamKind u) (new_facade_stream (h_id h) owner) (hi_streams s)\<rparr>"
proof (cases "unat bound \<le> length (filter (\<lambda>e. st_facade (snd e)) (hi_streams s))")
  case True
  with assms show ?thesis by (auto simp: insert_facade_stream_def intro: rejected)
next
  case False
  then show ?thesis
  proof (cases "enforce_budget s 1")
    case (Inl e)
    with assms False show ?thesis by (auto simp: insert_facade_stream_def intro: rejected)
  next
    case (Inr v)
    with assms False show ?thesis by (intro registered) (auto simp: insert_facade_stream_def mint_id_def issued_def)
  qed
qed

lemma register_facade_stream_inv:
  assumes inv: "registry_inv (s, L)" and run: "register_facade_stream u bound h owner operation s = (r, s')"
  shows "registry_inv (s', advance L s s')"
proof (cases "facade_stream_admitted h owner operation s")
  case (Inl e)
  then show ?thesis using registry_inv_same [OF inv] run by (simp add: register_facade_stream_def)
next
  case (Inr v)
  from facade_stream_admitted_Ok [OF Inr] obtain e where
    e: "hget (hi_facade_resources s) (h_id h) = Some e" "fr_owner_session e = owner" by blast
  from run Inr have "insert_facade_stream u bound h owner operation s = (r, s')"
    by (simp add: register_facade_stream_def)
  then show ?thesis
  proof (cases rule: insert_facade_stream_cases)
    case (rejected e)
    then show ?thesis using registry_inv_same [OF inv] by simp
  next
    case registered
    note facts = registry_inv_facts [OF inv] and s' = registered(4)
    let ?st = "new_facade_stream (h_id h) owner"
    have fac: "facade_inv (hput (minted_id StreamKind u) ?st (hi_streams s)) (hi_facade_resources s)"
      using facts(9) e unfolding facade_inv_def by (simp add: new_facade_stream_def)
    show ?thesis
    proof (rule registry_updateI [OF inv])
      show "maps_wf s'" using facts(1) by (simp add: s' maps_wf_def)
      show "open_count s' \<le> unat (hi_max_handles s)"
        using registry_budget [OF inv registered(2)] length_hput_le [of "minted_id StreamKind u" ?st "hi_streams s"]
        by (simp add: s' open_count_def)
      fix k j assume "live_handle s' k j" "minted k"
      then show "live_handle s k j \<or> (k, j) \<notin> lg_issued L" by (cases k) (simp_all add: s')
    qed (use facts fac in \<open>simp_all add: s'\<close>)
  qed
qed

lemma close_facade_stream_inv:
  assumes inv: "registry_inv (s, L)" and run: "close_facade_stream h owner operation s = (r, s')"
  shows "registry_inv (s', advance L s s')"
proof (cases "s' = s")
  case True
  then show ?thesis using registry_inv_same [OF inv] by simp
next
  case False
  note facts = registry_inv_facts [OF inv]
  let ?s1 = "s\<lparr>hi_facade_resources := hi_facade_resources s, hi_extensions := hi_extensions s,
      hi_extension_index := hi_extension_index s, hi_streams := fold hdel [h_id h] (hi_streams s)\<rparr>"
  have s': "s' = push_tombstones [(StreamKind, h_id h)] ?s1"
    using run False by (auto simp: close_facade_stream_def split: sum.splits option.splits if_splits)
  show ?thesis unfolding s'
    by (rule remove_streams_shrink [OF inv refl])
      (use facts facade_inv_fewer_streams [OF facts(9), of "[h_id h]"] in \<open>auto simp: maps_wf_def\<close>)
qed

text \<open>A release of resources that takes with it every facade stream it would leave without one.\<close>

lemma release_resources_inv:
  assumes inv: "registry_inv (s, L)"
    and s': "s' = push_tombstones (map (Pair FacadeResourceKind) gone @ map (Pair StreamKind) ids @
                    map (Pair FacadeResourceKind) gone')
              (s\<lparr>hi_facade_resources := F, hi_streams := fold hdel ids (hi_streams s)\<rparr>)"
    and F: "\<And>i. hget F i = (if i \<in> set gone \<union> set gone' then None else hget (hi_facade_resources s) i)"
    and wf: "hwf F" and len: "length F \<le> length (hi_facade_resources s)"
    and was: "\<And>i. i \<in> set gone \<union> set gone' \<Longrightarrow> hmem i (hi_facade_resources s)"
    and streams: "\<And>j st r res. hget (hi_streams s) j = Some st \<Longrightarrow> st_facade st \<Longrightarrow> st_resource_id st = Some r \<Longrightarrow>
        r \<in> set gone \<union> set gone' \<Longrightarrow> hget (hi_facade_resources s) r = Some res \<Longrightarrow>
        fr_owner_session res = st_owner_session st \<Longrightarrow> j \<in> set ids"
  shows "registry_inv (s', advance L s s')"
proof -
  note facts = registry_inv_facts [OF inv]
  let ?s1 = "s\<lparr>hi_facade_resources := F, hi_extensions := hi_extensions s,
      hi_extension_index := hi_extension_index s, hi_streams := fold hdel ids (hi_streams s)\<rparr>"
  have s1: "s' = push_tombstones (map (Pair FacadeResourceKind) gone @ map (Pair StreamKind) ids @
        map (Pair FacadeResourceKind) gone') ?s1" by (simp add: s')
  have fac: "facade_inv (fold hdel ids (hi_streams s)) F"
    unfolding facade_inv_def
  proof (intro allI impI)
    fix j st assume j: "hget (fold hdel ids (hi_streams s)) j = Some st" and f: "st_facade st"
    then have j': "hget (hi_streams s) j = Some st" "j \<notin> set ids" by (auto simp: hget_fold_hdel split: if_splits)
    from facts(9) j'(1) f obtain r res where r: "st_resource_id st = Some r"
      "hget (hi_facade_resources s) r = Some res" "fr_owner_session res = st_owner_session st"
      unfolding facade_inv_def by blast
    from streams [OF j'(1) f r(1) _ r(2,3)] j'(2) have "r \<notin> set gone \<union> set gone'" by blast
    with r F show "\<exists>r res. st_resource_id st = Some r \<and> hget F r = Some res \<and>
        fr_owner_session res = st_owner_session st" by auto
  qed
  have mem: "hmem i F \<longleftrightarrow> hmem i (hi_facade_resources s) \<and> i \<notin> set gone \<union> set gone'" for i
    using F by (simp add: hmem_def)
  show ?thesis unfolding s1
    by (rule remove_streams_shrink [OF inv refl])
      (use facts wf len fac mem was in \<open>auto simp: maps_wf_def\<close>)
qed

lemma close_facade_resource_inv:
  assumes inv: "registry_inv (s, L)" and run: "close_facade_resource h operation s = (r, s')"
  shows "registry_inv (s', advance L s s')"
proof (cases "s' = s")
  case True
  then show ?thesis using registry_inv_same [OF inv] by simp
next
  case False
  note facts = registry_inv_facts [OF inv]
  let ?ids = "streams_where (of_resource (h_id h)) s"
  have mem: "hmem (h_id h) (hi_facade_resources s)"
    and s': "s' = push_tombstones (map (Pair FacadeResourceKind) [] @ map (Pair StreamKind) ?ids @
        map (Pair FacadeResourceKind) [h_id h])
      (s\<lparr>hi_facade_resources := hdel (h_id h) (hi_facade_resources s), hi_streams := fold hdel ?ids (hi_streams s)\<rparr>)"
    using run False
    by (auto simp: close_facade_resource_def Let_def remove_streams_def split: sum.splits if_splits)
  have wf: "hwf (hi_streams s)" "hwf (hi_facade_resources s)" using facts(1) by (simp_all add: maps_wf_def)
  show ?thesis
    by (rule release_resources_inv [OF inv s'])
      (use wf mem streams_where_mem [of s _ "of_resource (h_id h)"] in \<open>auto simp: length_hdel_le of_resource_def\<close>)
qed

lemma close_facade_streams_of_resource_inv:
  assumes inv: "registry_inv (s, L)" and run: "close_facade_streams_of_resource i s = (n, s')"
  shows "registry_inv (s', advance L s s')"
proof -
  have s': "s' = push_tombstones (map (Pair FacadeResourceKind) [] @
      map (Pair StreamKind) (streams_where (of_resource i) s) @ map (Pair FacadeResourceKind) [])
    (s\<lparr>hi_facade_resources := hi_facade_resources s,
       hi_streams := fold hdel (streams_where (of_resource i) s) (hi_streams s)\<rparr>)"
    using run by (auto simp: close_facade_streams_of_resource_def Let_def remove_streams_def)
  show ?thesis
    by (rule release_resources_inv [OF inv s'])
      (use registry_inv_facts(1) [OF inv] in \<open>simp_all add: maps_wf_def\<close>)
qed

lemma close_facade_resources_of_inv:
  assumes inv: "registry_inv (s, L)" and run: "close_facade_resources_of owner s = (r, s')"
  shows "registry_inv (s', advance L s s')"
proof -
  let ?gone = "facade_resource_ids_of owner s"
  let ?ids = "streams_where (\<lambda>st. st_facade st \<and> st_owner_session st = Some owner) s"
  have s': "s' = push_tombstones (map (Pair FacadeResourceKind) ?gone @ map (Pair StreamKind) ?ids @
        map (Pair FacadeResourceKind) [])
      (s\<lparr>hi_facade_resources := fold hdel ?gone (hi_facade_resources s), hi_streams := fold hdel ?ids (hi_streams s)\<rparr>)"
    using run by (auto simp: close_facade_resources_of_def Let_def remove_streams_def)
  have wf: "hwf (hi_streams s)" "hwf (hi_facade_resources s)"
    using registry_inv_facts(1) [OF inv] by (simp_all add: maps_wf_def)
  have gone: "i \<in> set ?gone \<longleftrightarrow> (\<exists>e. hget (hi_facade_resources s) i = Some e \<and> fr_owner_session e = Some owner)" for i
    using wf(2) by (force simp: facade_resource_ids_of_def hget_in_set image_iff)
  show ?thesis
    by (rule release_resources_inv [OF inv s'])
      (use wf gone streams_where_mem [OF wf(1), of _ "\<lambda>st. st_facade st \<and> st_owner_session st = Some owner"] in
        \<open>auto simp: fold_hdel hmem_def\<close>)
qed

lemma close_all_facade_resources_inv:
  assumes inv: "registry_inv (s, L)" and run: "close_all_facade_resources s = (r, s')"
  shows "registry_inv (s', advance L s s')"
proof -
  let ?gone = "map fst (hi_facade_resources s)" and ?ids = "streams_where st_facade s"
  have s': "s' = push_tombstones (map (Pair FacadeResourceKind) ?gone @ map (Pair StreamKind) ?ids @
        map (Pair FacadeResourceKind) [])
      (s\<lparr>hi_facade_resources := [], hi_streams := fold hdel ?ids (hi_streams s)\<rparr>)"
    using run by (auto simp: close_all_facade_resources_def Let_def remove_streams_def)
  have wf: "hwf (hi_streams s)" using registry_inv_facts(1) [OF inv] by (simp add: maps_wf_def)
  have gone: "i \<in> set ?gone \<longleftrightarrow> hget (hi_facade_resources s) i \<noteq> None" for i
    by (simp add: map_of_eq_None_iff)
  show ?thesis
    by (rule release_resources_inv [OF inv s'])
      (use gone streams_where_mem [OF wf, of _ st_facade] in \<open>auto simp: hmem_def simp del: set_map\<close>)
qed

end
