(* ===== verification/Registry_History.thy ===== *)
theory Registry_History
  imports Registry_Facade_Steps
begin

text \<open>
  Histories of the handle registry: any sequence of calls of its operations, with any arguments, from
  an empty registry. A UUID a call mints has not been issued before; nothing else is asked of the
  calls. The histories refine an abstract specification, a set of open and a set of retired addresses.
\<close>

section \<open>All open handles\<close>

definition all_handles :: "'d handle_inner \<Rightarrow> (handle_kind \<times> string) list" where
  "all_handles s =
     map (\<lambda>e. (AgentKind, fst e)) (hi_agents s) @ map (\<lambda>e. (SessionKind, fst e)) (hi_sessions s) @
     map (\<lambda>e. (TaskRunKind, fst e)) (hi_task_runs s) @ map (\<lambda>e. (PlanTaskKind, fst e)) (hi_plan_tasks s) @
     map (\<lambda>e. (RunKind, fst e)) (hi_runs s) @ map (\<lambda>e. (StreamKind, fst e)) (hi_streams s) @
     map (\<lambda>e. (ExtensionKindOf, fst e)) (hi_extensions s) @
     map (\<lambda>e. (FacadeResourceKind, fst e)) (hi_facade_resources s)"

lemma hmem_keys: "hmem i m \<longleftrightarrow> i \<in> fst ` set m"
  by (simp add: hmem_def map_of_eq_None_iff flip: not_None_eq)

lemma live_all_handles: "live s = set (all_handles s)"
proof (rule set_eqI)
  fix x :: "handle_kind \<times> string"
  obtain k i where "x = (k, i)" by (cases x)
  then show "x \<in> live s \<longleftrightarrow> x \<in> set (all_handles s)"
    by (cases k) (auto simp: all_handles_def hmem_keys image_iff)
qed

lemma finite_live: "finite (live s)" and card_live: "card (live s) \<le> open_count s"
  using card_length [of "all_handles s"] by (simp_all add: live_all_handles all_handles_def open_count_def)

section \<open>Calls\<close>

inductive registry_call :: "'d handle_inner \<Rightarrow> ledger \<Rightarrow> 'd handle_inner \<Rightarrow> bool" where
  call_register_agent: "register_agent d fp s = (r, s') \<Longrightarrow> registry_call s L s'"
| call_create_commit: "create_commit idem fp h entry s = (r, s') \<Longrightarrow> registry_call s L s'"
| call_close_agent: "close_agent h s = (r, s') \<Longrightarrow> registry_call s L s'"
| call_mark_agent: "registry_call s L (mark_agent_closing i s)"
| call_register_session: "register_session_with_cwd u t acp a cwd s = (r, s') \<Longrightarrow>
    (SessionKind, minted_id SessionKind u) \<notin> lg_issued L \<Longrightarrow>
    (TaskRunKind, minted_id TaskRunKind t) \<notin> lg_issued L \<Longrightarrow> registry_call s L s'"
| call_register_plan_task: "register_plan_task u h tid operation s = (r, s') \<Longrightarrow>
    (PlanTaskKind, minted_id PlanTaskKind u) \<notin> lg_issued L \<Longrightarrow> registry_call s L s'"
| call_close_session: "close_session h s = (r, s') \<Longrightarrow> registry_call s L s'"
| call_fence_sessions: "fence_sessions s = (r, s') \<Longrightarrow> registry_call s L s'"
| call_mark_session: "registry_call s L (mark_session_closing i s)"
| call_register_live_run: "register_live_run i sess sh s = (r, s') \<Longrightarrow> registry_call s L s'"
| call_register_recovered_run: "register_recovered_run i entry s = (r, s') \<Longrightarrow> registry_call s L s'"
| call_register_live_stream: "register_live_stream i owner s = (r, s') \<Longrightarrow> registry_call s L s'"
| call_remove_run: "registry_call s L (remove_run_handles i s)"
| call_register_extension: "register_extension codec u limits kind impl d timeout inst s = (r, s') \<Longrightarrow>
    (ExtensionKindOf, minted_id ExtensionKindOf u) \<notin> lg_issued L \<Longrightarrow> registry_call s L s'"
| call_reserve_factory_instance: "reserve_factory_instance codec u limits parent impl timeout s = (r, s') \<Longrightarrow>
    (ExtensionKindOf, minted_id ExtensionKindOf u) \<notin> lg_issued L \<Longrightarrow> registry_call s L s'"
| call_complete_factory: "complete_factory_instance_reserved codec limits child parent d s = (r, s') \<Longrightarrow>
    registry_call s L s'"
| call_close_extension: "close_extension h s = (r, s') \<Longrightarrow> registry_call s L s'"
| call_close_all_extensions: "registry_call s L (close_all_extensions s)"
| call_register_extension_stream: "register_extension_stream u i s = (r, s') \<Longrightarrow> registry_call s L s'"
| call_remove_extension_stream: "registry_call s L (remove_extension_stream i s)"
| call_register_facade_batch:
    "register_facade_resource_batch uuids bound family kind owner operation s = (r, s') \<Longrightarrow>
     length uuids < 2 ^ 64 \<Longrightarrow>
     (\<And>u. u \<in> set uuids \<Longrightarrow> (FacadeResourceKind, minted_id FacadeResourceKind u) \<notin> lg_issued L) \<Longrightarrow>
     registry_call s L s'"
| call_commit_mcp: "commit_mcp_preparation h s = (r, s') \<Longrightarrow> registry_call s L s'"
| call_mark_resource: "registry_call s L (mark_resource_closing i s)"
| call_register_facade_stream: "register_facade_stream u bound h owner operation s = (r, s') \<Longrightarrow>
    registry_call s L s'"
| call_stream_state: "facade_stream_state h owner operation s = (r, s') \<Longrightarrow> registry_call s L s'"
| call_advance_stream: "advance_facade_stream h owner q operation s = (r, s') \<Longrightarrow> registry_call s L s'"
| call_settle_stream: "settle_facade_stream h owner c operation s = (r, s') \<Longrightarrow> registry_call s L s'"
| call_cancel_stream: "cancel_facade_stream h owner operation s = (r, s') \<Longrightarrow> registry_call s L s'"
| call_cancel_token: "registry_call s L (cancel_stream_token i s)"
| call_close_facade_stream: "close_facade_stream h owner operation s = (r, s') \<Longrightarrow> registry_call s L s'"
| call_close_facade_resource: "close_facade_resource h operation s = (r, s') \<Longrightarrow> registry_call s L s'"
| call_close_streams_of: "close_facade_streams_of_resource i s = (n, s') \<Longrightarrow> registry_call s L s'"
| call_close_resources_of: "close_facade_resources_of owner s = (r, s') \<Longrightarrow> registry_call s L s'"
| call_close_all_resources: "close_all_facade_resources s = (r, s') \<Longrightarrow> registry_call s L s'"

inductive registry_step :: "'d handle_inner \<times> ledger \<Rightarrow> 'd handle_inner \<times> ledger \<Rightarrow> bool" where
  registry_stepI: "registry_call s L s' \<Longrightarrow> registry_step (s, L) (s', advance L s s')"

inductive_cases registry_stepE: "registry_step (s, L) t"

text \<open>A fresh registry; the configuration rejects a zero bound, and \<open>usize::MAX\<close> would never fill.\<close>

definition registry_init :: "'d handle_inner \<times> ledger \<Rightarrow> bool" where
  "registry_init t =
     (\<exists>g m. 0 < m \<and> m < - 1 \<and>
        t = (new_registry g m, \<lparr>lg_bound = unat m, lg_issued = {}, lg_retired = {}\<rparr>))"

lemma live_new_registry [simp]: "live (new_registry g m) = {}" "open_count (new_registry g m) = 0"
  by (simp_all add: live_all_handles all_handles_def new_registry_def open_count_def)

lemma new_registry_fields [simp]:
  "hi_max_handles (new_registry g m) = m" "hi_tombstones (new_registry g m) = []"
  "hi_idempotency (new_registry g m) = []" "maps_wf (new_registry g m)"
  "hi_plan_tasks (new_registry g m) = []" "hi_plan_task_index (new_registry g m) = []"
  "hi_extensions (new_registry g m) = []" "hi_extension_index (new_registry g m) = []"
  "hi_streams (new_registry g m) = []"
  by (simp_all add: new_registry_def maps_wf_def)

lemma registry_init_inv: "registry_init t \<Longrightarrow> registry_inv t"
  by (auto simp: registry_init_def registry_inv_def bounds_inv_def ids_inv_def plan_inv_def ext_inv_def facade_inv_def)

lemma registry_call_inv:
  assumes "registry_call s L s'" and "registry_inv (s, L)"
  shows "registry_inv (s', advance L s s')"
  using assms
proof (cases rule: registry_call.cases)
  case (call_register_extension codec u limits kind impl d timeout inst r)
  from register_extension_inv [OF assms(2) call_register_extension(1) [unfolded register_extension_def]
      call_register_extension(2)] show ?thesis by simp
next
  case (call_reserve_factory_instance codec u limits parent impl timeout r)
  show ?thesis
  proof (cases "check_shape_and_generation s parent ExtensionKindOf register_operation")
    case (Inl e)
    with call_reserve_factory_instance show ?thesis
      using registry_inv_same [OF assms(2)] by (simp add: reserve_factory_instance_def)
  next
    case (Inr v)
    with call_reserve_factory_instance obtain r' where
      "register_extension_owned codec u limits KCustomAgent impl reserved_child_descriptor timeout True
         (Some parent) True s = (r', s')"
      by (cases "register_extension_owned codec u limits KCustomAgent impl reserved_child_descriptor timeout True
         (Some parent) True s") (auto simp: reserve_factory_instance_def)
    from register_extension_inv [OF assms(2) this call_reserve_factory_instance(2)] show ?thesis by simp
  qed
next
  case (call_register_facade_batch uuids bound family kind owner operation r)
  then show ?thesis by (intro facade_batch_inv [OF assms(2)]) simp_all
next
  case (call_register_session u t acp a cwd r)
  then show ?thesis by (intro register_session_inv [OF assms(2)]) simp_all
next
  case (call_register_plan_task u h tid operation r)
  then show ?thesis by (intro register_plan_task_inv [OF assms(2)]) simp_all
qed (use assms(2) in \<open>blast intro: register_agent_inv create_commit_inv close_agent_inv mark_agent_closing_inv
    close_session_inv fence_sessions_inv mark_session_closing_inv register_live_run_inv register_recovered_run_inv
    register_live_stream_inv remove_run_handles_inv complete_factory_inv close_extension_inv
    close_all_extensions_inv register_extension_stream_inv remove_extension_stream_inv commit_mcp_inv
    mark_resource_closing_inv register_facade_stream_inv stream_operation_inv cancel_stream_token_inv
    close_facade_stream_inv close_facade_resource_inv close_facade_streams_of_resource_inv
    close_facade_resources_of_inv close_all_facade_resources_inv\<close>)+

lemma registry_step_inv: "registry_inv t \<Longrightarrow> registry_step t t' \<Longrightarrow> registry_inv t'"
  by (cases t) (auto elim!: registry_stepE intro: registry_call_inv)

section \<open>The specification\<close>

text \<open>
  What the registry promises, without its tables: addresses open and retired, a bound on the open ones,
  and the rule that a minted address is issued once.
\<close>

record handle_spec =
  hs_bound :: nat
  hs_open :: "(handle_kind \<times> string) set"
  hs_retired :: "(handle_kind \<times> string) set"

definition spec_init :: "handle_spec \<Rightarrow> bool" where
  "spec_init a = (hs_open a = {} \<and> hs_retired a = {})"

inductive spec_step :: "handle_spec \<Rightarrow> handle_spec \<Rightarrow> bool" where
  spec_release: "C \<subseteq> hs_open a \<Longrightarrow>
    spec_step a (a\<lparr>hs_open := hs_open a - C, hs_retired := hs_retired a \<union> C\<rparr>)"
| spec_issue: "finite N \<Longrightarrow> (\<And>k i. (k, i) \<in> N \<Longrightarrow> minted k \<Longrightarrow> (k, i) \<notin> hs_open a \<union> hs_retired a) \<Longrightarrow>
    card (hs_open a \<union> N) \<le> hs_bound a \<Longrightarrow> spec_step a (a\<lparr>hs_open := hs_open a \<union> N\<rparr>)"

definition abs_registry :: "'d handle_inner \<times> ledger \<Rightarrow> handle_spec" where
  "abs_registry t = \<lparr>hs_bound = lg_bound (snd t), hs_open = live (fst t), hs_retired = lg_retired (snd t)\<rparr>"

lemma registry_abs_step:
  assumes inv: "registry_inv t" and step: "registry_step t t'"
  shows "spec_step\<^sup>*\<^sup>* (abs_registry t) (abs_registry t')"
proof -
  obtain s L where t: "t = (s, L)" by (cases t)
  with step obtain s' where t': "t' = (s', advance L s s')" by (auto elim: registry_stepE)
  let ?a = "abs_registry t" and ?C = "live s - live s'" and ?N = "live s' - live s"
  let ?b = "?a\<lparr>hs_open := hs_open ?a - ?C, hs_retired := hs_retired ?a \<union> ?C\<rparr>"
  have inv': "registry_inv (s', advance L s s')" using registry_step_inv [OF inv step] t' by simp
  note ids = registry_invD(3) [OF inv [unfolded t]] and ids' = registry_invD(3) [OF inv']
  have "spec_step ?a ?b" by (rule spec_release) (auto simp: abs_registry_def t)
  moreover have "spec_step ?b (?b\<lparr>hs_open := hs_open ?b \<union> ?N\<rparr>)"
  proof (rule spec_issue)
    show "finite ?N" by (simp add: finite_live)
    fix k i assume n: "(k, i) \<in> ?N" and m: "minted k"
    from ids' have "(k, i) \<in> lg_retired L \<union> (live s - live s') \<longrightarrow> minted k \<longrightarrow> \<not> live_handle s' k i"
      unfolding ids_inv_def advance_simps by blast
    with n m show "(k, i) \<notin> hs_open ?b \<union> hs_retired ?b" by (auto simp: abs_registry_def t)
  next
    have "hs_open ?b \<union> ?N = live s'" by (auto simp: abs_registry_def t)
    moreover have "card (live s') \<le> lg_bound L"
      using card_live [of s'] registry_inv_facts(2) [OF inv'] ids' by (simp add: ids_inv_def)
    ultimately show "card (hs_open ?b \<union> ?N) \<le> hs_bound ?b" by (simp add: abs_registry_def t)
  qed
  moreover have "?b\<lparr>hs_open := hs_open ?b \<union> ?N\<rparr> = abs_registry t'"
    by (auto simp: abs_registry_def t t' advance_def)
  ultimately show ?thesis by simp
qed

interpretation registry_hist: refinement registry_init registry_step registry_inv spec_init spec_step abs_registry
proof unfold_locales
  fix t :: "'a handle_inner \<times> ledger"
  assume "registry_init t"
  then show "registry_inv t" by (rule registry_init_inv)
next
  fix t t' :: "'a handle_inner \<times> ledger"
  assume "registry_inv t" and "registry_step t t'"
  then show "registry_inv t'" by (rule registry_step_inv)
next
  fix t :: "'a handle_inner \<times> ledger"
  assume "registry_init t"
  then show "spec_init (abs_registry t)"
    by (auto simp: registry_init_def spec_init_def abs_registry_def)
next
  fix t t' :: "'a handle_inner \<times> ledger"
  assume "registry_inv t" and "registry_step t t'"
  then show "spec_step\<^sup>*\<^sup>* (abs_registry t) (abs_registry t')" by (rule registry_abs_step)
qed

end
