(* ===== verification/Registry_Contract.thy ===== *)
theory Registry_Contract
  imports Registry_History
begin

text \<open>
  What the handle registry guarantees in every history: the refinement of the specification, the
  bounds, the error ladder, and the identities and ownership of extensions, facade streams and plan
  tasks.
\<close>

section \<open>Lookups\<close>

lemma checked_lookup_Ok:
  "checked_lookup m s h k operation = Ok v \<longleftrightarrow>
     check_shape_and_generation s h k operation = Ok () \<and> hget m (h_id h) = Some v"
  by (auto simp: checked_lookup_def lookup_def and_then_eq_Ok ok_or_eq_Ok)

lemma is_ok_checked_lookup:
  "is_ok (checked_lookup m s h k operation) \<longleftrightarrow>
     is_ok (check_shape_and_generation s h k operation) \<and> hmem (h_id h) m"
  by (auto simp: is_ok_iff checked_lookup_Ok hmem_def)

lemma check_shape_Ok:
  "check_shape_and_generation s h k operation = Ok () \<longleftrightarrow>
     is_ok (validate_handle h) \<and> h_kind h = k \<and> to_u64 (h_generation h) = Some (hi_generation s)"
  by (auto simp: check_shape_and_generation_def split: option.splits)

lemma is_ok_check_shape:
  "is_ok (check_shape_and_generation s h k operation) \<longleftrightarrow>
     is_ok (validate_handle h) \<and> h_kind h = k \<and> to_u64 (h_generation h) = Some (hi_generation s)"
  using check_shape_Ok [of s h k operation] by (auto simp: is_ok_iff)

lemma error_parts [simp]:
  "err_code (handle_error c m operation h) = c" "err_retryable (handle_error c m operation h) = Never"
  "err_operation (handle_error c m operation h) = Some operation" "err_handle (handle_error c m operation h) = Some h"
  "err_code (sdk_error c m r operation) = c" "err_retryable (sdk_error c m r operation) = r"
  "err_operation (sdk_error c m r operation) = Some operation" "err_handle (sdk_error c m r operation) = None"
  by (simp_all add: handle_error_def sdk_error_def sdk_error_new_def with_operation_def with_handle_def)

lemmas family_lookups = extension_for_cleanup_def task_run_def facade_resource_for_close_def

lemma distinct_all_handles: "maps_wf s \<Longrightarrow> distinct (all_handles s)"
  by (auto simp: all_handles_def maps_wf_def hwf_def distinct_map inj_on_def)

lemma retired_mono: "registry_step\<^sup>*\<^sup>* t t' \<Longrightarrow> lg_retired (snd t) \<subseteq> lg_retired (snd t')"
proof (induction rule: rtranclp_induct)
  case (step t u)
  from step.hyps(2) have "lg_retired (snd t) \<subseteq> lg_retired (snd u)" by (cases rule: registry_step.cases) auto
  with step.IH show ?case by simp
qed simp

text \<open>A sample history: an Agent, a Session and a plan task.\<close>

definition sample_registry :: "nat handle_inner" where
  "sample_registry = new_registry 7 16"

definition sample_with_agent :: "nat handle_inner" where
  "sample_with_agent = snd (register_agent 0 ''f'' sample_registry)"

definition sample_with_session :: "nat handle_inner" where
  "sample_with_session = snd (register_session_with_cwd ''u1'' ''u2'' ''acp'' ''agent-1'' None sample_with_agent)"

definition sample_task_run :: wire_handle where
  "sample_task_run = mk_handle (minted_id TaskRunKind ''u2'') TaskRunKind 7"

text \<open>The history that leads to it, with its ledger.\<close>

definition sample_ledger0 :: ledger where
  "sample_ledger0 = \<lparr>lg_bound = 16, lg_issued = {}, lg_retired = {}\<rparr>"

definition sample_ledger1 :: ledger where
  "sample_ledger1 = advance sample_ledger0 sample_registry sample_with_agent"

definition sample_ledger2 :: ledger where
  "sample_ledger2 = advance sample_ledger1 sample_with_agent sample_with_session"

lemma sample_start: "reach registry_init registry_step (sample_registry, sample_ledger0)"
proof (rule reach_init)
  have "(16 :: usize) < - 1" by simp
  then show "registry_init (sample_registry, sample_ledger0)"
    unfolding registry_init_def sample_registry_def sample_ledger0_def
    by (intro exI [of _ "7 :: u64"] exI [of _ "16 :: usize"]) simp
qed

lemma sample_agent_reach: "reach registry_init registry_step (sample_with_agent, sample_ledger1)"
  unfolding sample_ledger1_def
  by (rule reach_step [OF sample_start registry_stepI [OF call_register_agent]])
    (simp add: sample_with_agent_def prod_eq_iff)

lemma show_one: "show_nat (Suc 0) = ''1''"
  by code_simp

lemma sample_with_agent_eq:
  "sample_with_agent = (new_registry 7 16)\<lparr>hi_next_agent_id := 1,
     hi_agents := [(''agent-1'', \<lparr>ae_closing = False, ae_definition = 0, ae_fingerprint = ''f''\<rparr>)]\<rparr>"
  by (simp add: sample_with_agent_def sample_registry_def register_agent_def enforce_budget_def open_handles_def
      new_registry_def len_usize_def saturating_add_def mint_id_def checked_add_def show_one Let_def issued_def)

lemma sample_live: "live sample_with_agent = {(AgentKind, ''agent-1'')}"
  by (simp add: sample_with_agent_eq live_all_handles all_handles_def new_registry_def)

lemma sample_register_session:
  "register_session_with_cwd ''u1'' ''u2'' ''acp'' ''agent-1'' None sample_with_agent =
     (Ok (mk_handle (minted_id SessionKind ''u1'') SessionKind 7, sample_task_run,
          \<lparr>sn_cancelled = False, sn_closing = False, sn_acp_session_id = ''acp'', sn_agent_handle_id = ''agent-1'',
           sn_cwd = None, sn_task_run_handle_id = minted_id TaskRunKind ''u2''\<rparr>), sample_with_session)"
  by (simp add: sample_with_session_def sample_with_agent_eq register_session_with_cwd_def enforce_budget_def
      open_handles_def new_registry_def len_usize_def saturating_add_def mint_id_def issued_def sample_task_run_def Let_def)

lemma sample_session_fields:
  "hi_generation sample_with_session = 7" "hi_max_handles sample_with_session = 16"
  "hi_task_runs sample_with_session = [(minted_id TaskRunKind ''u2'',
     \<lparr>tr_session_handle_id = minted_id SessionKind ''u1'', tr_acp_session_id = ''acp''\<rparr>)]"
  "hi_tombstones sample_with_session = []" "hi_plan_tasks sample_with_session = []"
  "hi_plan_task_index sample_with_session = []"
  by (simp_all add: sample_with_session_def sample_with_agent_eq register_session_with_cwd_def enforce_budget_def
      open_handles_def new_registry_def len_usize_def saturating_add_def mint_id_def Let_def)

lemma sample_session_reach: "reach registry_init registry_step (sample_with_session, sample_ledger2)"
  unfolding sample_ledger2_def
  by (rule reach_step [OF sample_agent_reach registry_stepI [OF call_register_session [OF sample_register_session]]])
    (simp_all add: sample_ledger1_def sample_ledger0_def sample_live)

section \<open>Refinement and bounds\<close>

text \<open>C4: The registry implements its specification, whatever calls are made: every history is one of
  sets of open and retired addresses in which a minted address is issued once, and a family lookup
  answers a well-formed handle of its kind and of this generation exactly when the address is open. An
  address reported closed is one the Host retired.\<close>

theorem registry_refines_spec:
  assumes "reach registry_init registry_step (s, L)"
  shows "reach spec_init spec_step (abs_registry (s, L)) \<and>
    is_ok (extension_for_cleanup h s) =
      (is_ok (check_shape_and_generation s h ExtensionKindOf op) \<and>
       (ExtensionKindOf, h_id h) \<in> hs_open (abs_registry (s, L))) \<and>
    is_ok (task_run h s) =
      (is_ok (check_shape_and_generation s h TaskRunKind op) \<and>
       (TaskRunKind, h_id h) \<in> hs_open (abs_registry (s, L))) \<and>
    is_ok (facade_resource_for_close h op s) =
      (is_ok (check_shape_and_generation s h FacadeResourceKind op) \<and>
       (FacadeResourceKind, h_id h) \<in> hs_open (abs_registry (s, L))) \<and>
    (minted (h_kind h) \<and> is_closed s h \<longrightarrow>
       (h_kind h, h_id h) \<in> hs_retired (abs_registry (s, L)) - hs_open (abs_registry (s, L)))"
proof (intro conjI impI)
  show "reach spec_init spec_step (abs_registry (s, L))" by (rule registry_hist.reach_abs [OF assms])
next
  assume c: "minted (h_kind h) \<and> is_closed s h"
  have "ids_inv s L" using registry_hist.reach_inv [OF assms] by (rule registry_invD)
  moreover have "(h_kind h, h_id h) \<in> set (hi_tombstones s)"
    using c by (auto simp: is_closed_def tombstoned_def list_ex_iff)
  ultimately show "(h_kind h, h_id h) \<in> hs_retired (abs_registry (s, L)) - hs_open (abs_registry (s, L))"
    using c unfolding ids_inv_def abs_registry_def by auto
qed (simp_all add: family_lookups is_ok_checked_lookup is_ok_check_shape abs_registry_def)

theorem registry_refines_spec_witness:
  "reach spec_init spec_step (abs_registry (sample_with_session, sample_ledger2)) \<and>
   is_ok (task_run sample_task_run sample_with_session)"
proof -
  have "validate_handle sample_task_run = Ok ()"
    by (simp add: validate_handle_def sample_task_run_def minted_id_def blank_def is_whitespace_def)
  then have "is_ok (check_shape_and_generation sample_with_session sample_task_run TaskRunKind [])"
    by (simp add: is_ok_check_shape sample_session_fields) (simp add: sample_task_run_def to_u64_from_u64)
  moreover have "(TaskRunKind, h_id sample_task_run) \<in> hs_open (abs_registry (sample_with_session, sample_ledger2))"
    by (simp add: abs_registry_def sample_session_fields hmem_def) (simp add: sample_task_run_def)
  ultimately show ?thesis
    using registry_refines_spec [OF sample_session_reach] by blast
qed

text \<open>C9: The registry is bounded in every history: the handles open at one time, the tombstones it
  remembers and the idempotency outcomes it keeps are each at most the configured number of handles,
  and every address is held once.\<close>

theorem registry_is_bounded:
  assumes "reach registry_init registry_step (s, L)"
  shows "open_count s \<le> unat (hi_max_handles s) \<and> length (hi_tombstones s) \<le> unat (hi_max_handles s) \<and>
    length (hi_idempotency s) \<le> unat (hi_max_handles s) \<and> hi_max_handles s = word_of_nat (lg_bound L) \<and>
    unat (open_handles s) = card (live s) \<and> distinct (all_handles s)"
proof -
  note facts = registry_inv_facts [OF registry_hist.reach_inv [OF assms]]
  have d: "distinct (all_handles s)" using facts(1) by (rule distinct_all_handles)
  have "card (live s) = open_count s"
    using distinct_card [OF d] by (simp add: live_all_handles) (simp add: all_handles_def open_count_def)
  moreover have "open_count s < 2 ^ 64" using facts(2) unat_lt_64 [of "hi_max_handles s"] by simp
  moreover have "lg_bound L = unat (hi_max_handles s)"
    using registry_invD(3) [OF registry_hist.reach_inv [OF assms]] by (simp add: ids_inv_def)
  ultimately show ?thesis using facts d by (simp add: open_handles_exact)
qed

theorem registry_is_bounded_witness:
  "open_count sample_with_session \<le> 16 \<and> unat (open_handles sample_with_session) = card (live sample_with_session)"
proof -
  have "unat (hi_max_handles sample_with_session) = 16"
    by (simp add: sample_session_fields)
  with registry_is_bounded [OF sample_session_reach] show ?thesis by simp
qed

text \<open>C14: A released handle stays released: once an address the Host minted has been retired, no later
  call makes it resolve again, however long the history and although its tombstone may be forgotten.\<close>

theorem released_handles_stay_released:
  assumes "reach registry_init registry_step (s, L)" and "registry_step\<^sup>*\<^sup>* (s, L) (s', L')"
    and "(h_kind h, h_id h) \<in> lg_retired L" and "minted (h_kind h)"
  shows "\<not> live_handle s' (h_kind h) (h_id h) \<and> \<not> is_ok (extension_for_cleanup h s') \<and> \<not> is_ok (task_run h s') \<and>
    \<not> is_ok (facade_resource_for_close h op s') \<and> \<not> is_ok (plan_task_for_run h r op s')"
proof -
  have "lg_retired L \<subseteq> lg_retired L'" using retired_mono [OF assms(2)] by simp
  moreover have "ids_inv s' L'"
    using registry_hist.steps_inv [OF assms(2) registry_hist.reach_inv [OF assms(1)]] by (rule registry_invD)
  ultimately have dead: "\<not> live_handle s' (h_kind h) (h_id h)"
    using assms(3,4) by (auto simp: ids_inv_def)
  then show ?thesis
    by (auto simp: family_lookups is_ok_checked_lookup is_ok_check_shape plan_task_for_run_def is_ok_and_then
        check_shape_Ok lookup_def ok_or_eq_Ok hmem_def)
qed

theorem released_handles_stay_released_witness:
  "\<not> live_handle (snd (register_agent 1 ''g'' (snd (close_agent (mk_handle ''agent-1'' AgentKind 7) sample_with_agent))))
     AgentKind ''agent-1''"
proof -
  let ?h = "mk_handle ''agent-1'' AgentKind 7"
  let ?s = "snd (close_agent ?h sample_with_agent)"
  let ?L = "advance sample_ledger1 sample_with_agent ?s"
  have r1: "reach registry_init registry_step (?s, ?L)"
    by (rule reach_step [OF sample_agent_reach registry_stepI [OF call_close_agent]]) (simp add: prod_eq_iff)
  have r2: "registry_step\<^sup>*\<^sup>* (?s, ?L) (snd (register_agent 1 ''g'' ?s), advance ?L ?s (snd (register_agent 1 ''g'' ?s)))"
    by (rule r_into_rtranclp, rule registry_stepI, rule call_register_agent) (simp add: prod_eq_iff)
  have gone: "(h_kind ?h, h_id ?h) \<in> lg_retired ?L"
    by (simp add: sample_live close_agent_def sample_with_agent_eq hmem_def)
  show ?thesis using released_handles_stay_released [OF r1 r2 gone] by simp
qed

section \<open>The error ladder\<close>

text \<open>A family lookup fails in one fixed order and never reports a later stage before an earlier
  one: shape, kind, generation, issued or released. A handle of an older generation is stale, a handle
  of this generation whose address is gone is closed exactly while its tombstone is remembered, and
  every other failure is an invalid value; a failure about an addressable handle names that handle.\<close>

theorem handle_ladder:
  "case checked_lookup m s h k operation of
     Inr v \<Rightarrow> is_ok (validate_handle h) \<and> h_kind h = k \<and> to_u64 (h_generation h) = Some (hi_generation s) \<and>
              hget m (h_id h) = Some v
   | Inl e \<Rightarrow>
       (err_code e = StaleHandle \<longleftrightarrow> is_ok (validate_handle h) \<and> h_kind h = k \<and>
          (\<exists>g. to_u64 (h_generation h) = Some g \<and> g < hi_generation s)) \<and>
       (err_code e = ClosedHandle \<longleftrightarrow> is_ok (validate_handle h) \<and> h_kind h = k \<and> is_closed s h \<and>
          hget m (h_id h) = None) \<and>
       err_code e \<in> {InvalidValue, StaleHandle, ClosedHandle} \<and> err_retryable e = Never \<and>
       err_operation e = Some operation \<and>
       (is_ok (validate_handle h) \<and> to_u64 (h_generation h) \<noteq> None \<longrightarrow> err_handle e = Some h)"
proof (cases "is_ok (check_shape_and_generation s h k operation)")
  case True
  then have ok: "is_ok (validate_handle h)" "h_kind h = k" "to_u64 (h_generation h) = Some (hi_generation s)"
    by (simp_all add: is_ok_check_shape)
  then have "check_shape_and_generation s h k operation = Ok ()" by (simp add: check_shape_Ok)
  with ok show ?thesis
    by (cases "hget m (h_id h)")
      (auto simp: checked_lookup_def lookup_def resolve_error_def classify_def is_closed_def error_parts)
next
  case False
  then obtain e where e: "check_shape_and_generation s h k operation = Err e"
    by (cases "check_shape_and_generation s h k operation") auto
  then have r: "checked_lookup m s h k operation = Err e" by (simp add: checked_lookup_def)
  have "\<not> (is_ok (validate_handle h) \<and> h_kind h = k \<and> is_closed s h)"
    using False by (auto simp: is_ok_check_shape is_closed_def)
  with e show ?thesis unfolding r
    by (auto simp: check_shape_and_generation_def error_parts split: if_splits option.splits)
qed

theorem handle_ladder_witness:
  "err_code (projl (task_run (mk_handle ''x'' TaskRunKind 6) sample_with_session)) = StaleHandle \<and>
   err_code (projl (task_run (mk_handle ''x'' SessionKind 7) sample_with_session)) = InvalidValue"
proof -
  have v: "is_ok (validate_handle (mk_handle ''x'' k g))" for k g
    by (simp add: validate_handle_def blank_def is_whitespace_def)
  have none: "hget (hi_task_runs sample_with_session) ''x'' = None"
    by (simp add: sample_session_fields minted_id_def)
  obtain e where e: "task_run (mk_handle ''x'' TaskRunKind 6) sample_with_session = Err e"
    using none by (cases "task_run (mk_handle ''x'' TaskRunKind 6) sample_with_session")
      (auto simp: task_run_def checked_lookup_Ok)
  obtain d where d: "task_run (mk_handle ''x'' SessionKind 7) sample_with_session = Err d"
    using none by (cases "task_run (mk_handle ''x'' SessionKind 7) sample_with_session")
      (auto simp: task_run_def checked_lookup_Ok)
  have "err_code e = StaleHandle"
    using handle_ladder [where m = "hi_task_runs sample_with_session" and s = sample_with_session and
        h = "mk_handle ''x'' TaskRunKind 6" and k = TaskRunKind and operation = "''_echo_agent/task''"] e v
    by (simp add: task_run_def to_u64_from_u64 sample_session_fields)
  moreover have "err_code d = InvalidValue"
    using handle_ladder [where m = "hi_task_runs sample_with_session" and s = sample_with_session and
        h = "mk_handle ''x'' SessionKind 7" and k = TaskRunKind and operation = "''_echo_agent/task''"] d v
    by (auto simp: task_run_def to_u64_from_u64)
  ultimately show ?thesis using e d by simp
qed

section \<open>Extensions\<close>

text \<open>The entry and the index of a registration that was answered.\<close>

lemma register_extension_answer:
  assumes inv: "ext_inv (hi_extensions s) (hi_extension_index s) (hi_next_extension_order s)"
    and run: "register_extension codec u limits kind impl d timeout inst s = (Ok (h, e), s')"
  shows "descriptor_kind d = kind \<and> h = issued s' ExtensionKindOf (h_id h) \<and>
    hget (hi_extensions s') (h_id h) = Some e \<and> hget (hi_extension_index s') (extension_identity kind impl) = Some (h_id h) \<and>
    dc_fingerprint codec d timeout None = Ok (ex_fingerprint e) \<and>
    is_ok (descriptor_bound codec limits d ''extension descriptor exceeds the serialized descriptor bound'')"
proof -
  let ?gate = "registration_gate codec limits kind impl d timeout inst None s"
  from run obtain fp found where gate: "?gate = Ok (fp, found)"
    by (cases ?gate) (auto simp: register_extension_def register_extension_owned_def)
  then have parts: "descriptor_kind d = kind" "dc_fingerprint codec d timeout None = Ok fp"
      "is_ok (descriptor_bound codec limits d ''extension descriptor exceeds the serialized descriptor bound'')"
    by (auto simp: registration_gate_def and_then_eq_Ok reject_if_eq_Ok map_err_eq_Ok map_ok_eq_Ok is_ok_iff
        split: option.splits)
  show ?thesis
  proof (cases found)
    case (Some old)
    with run gate have "(h, e) = old" "s' = s" by (auto simp: register_extension_def register_extension_owned_def)
    moreover have "existing_registration kind impl fp s = Ok (Some old)"
      using gate Some by (auto simp: registration_gate_def and_then_eq_Ok map_ok_eq_Ok split: option.splits)
    ultimately show ?thesis using parts
      by (auto simp: existing_registration_def issued_def split: option.splits if_splits)
  next
    case None
    with run gate obtain n where "checked_add (hi_next_extension_order s) 1 = Some n"
      by (cases "checked_add (hi_next_extension_order s) 1")
        (auto simp: register_extension_def register_extension_owned_def)
    with run gate None parts show ?thesis
      by (auto simp: register_extension_def register_extension_owned_def mint_id_def Let_def issued_def)
  qed
qed

text \<open>Extension registration is idempotent and never silently replaces: registering an
  implementation again with the same descriptor and timeout answers the same handle and entry and
  changes nothing; with another descriptor or timeout it is a conflict that names the handle that is
  registered, and changes nothing.\<close>

theorem extension_registration_is_idempotent:
  assumes "reach registry_init registry_step (s, L)"
    and "register_extension codec u limits kind impl d timeout inst s = (Ok (h, e), s')"
  shows "register_extension codec u' limits kind impl d timeout inst' s' = (Ok (h, e), s') \<and>
    (descriptor_kind d' = kind \<and> dc_fingerprint codec d' timeout' None = Ok fp' \<and> fp' \<noteq> ex_fingerprint e \<and>
     is_ok (descriptor_bound codec limits d' ''extension descriptor exceeds the serialized descriptor bound'') \<longrightarrow>
     (\<exists>err. register_extension codec u' limits kind impl d' timeout' inst' s' = (Err err, s') \<and>
        err_code err = ExtensionConflict \<and> err_handle err = Some h))"
proof -
  note a = register_extension_answer [OF registry_inv_facts(8) [OF registry_hist.reach_inv [OF assms(1)]] assms(2)]
  have same: "existing_registration kind impl (ex_fingerprint e) s' = Ok (Some (h, e))"
    using a by (simp add: existing_registration_def)
  have other: "\<exists>err. existing_registration kind impl fp' s' = Err err \<and> err_code err = ExtensionConflict \<and>
      err_handle err = Some h" if "fp' \<noteq> ex_fingerprint e"
    using a that by (simp add: existing_registration_def)
  show ?thesis
    using a same other
    by (auto simp: register_extension_def register_extension_owned_def registration_gate_def is_ok_iff)
qed

definition sample_codec_desc :: descriptor_codec where
  "sample_codec_desc = \<lparr>dc_fingerprint = \<lambda>d _ _. Ok (case d of DCritic _ n \<Rightarrow> n | _ \<Rightarrow> ''?''),
     dc_encoded_len = \<lambda>_. Ok 10\<rparr>"

definition sample_limits :: registration_limits where
  "sample_limits = \<lparr>rl_max_extensions = 4, rl_max_descriptor_bytes = 100\<rparr>"

theorem extension_registration_is_idempotent_witness:
  "\<exists>h e s'. register_extension sample_codec_desc ''u3'' sample_limits KCritic ''c'' (DCritic 1 ''x'') None False
      sample_with_session = (Ok (h, e), s') \<and>
    register_extension sample_codec_desc ''u4'' sample_limits KCritic ''c'' (DCritic 1 ''x'') None False s' = (Ok (h, e), s') \<and>
    \<not> is_ok (fst (register_extension sample_codec_desc ''u4'' sample_limits KCritic ''c'' (DCritic 1 ''y'') None False s'))"
proof -
  have empty: "hi_extensions sample_with_session = []" "hi_extension_index sample_with_session = []"
    "hi_next_extension_order sample_with_session = 0" "enforce_budget sample_with_session 1 = Ok ()"
    by (simp_all add: sample_with_session_def sample_with_agent_eq register_session_with_cwd_def enforce_budget_def
        open_handles_def new_registry_def len_usize_def saturating_add_def mint_id_def Let_def)
  obtain h e s' where run: "register_extension sample_codec_desc ''u3'' sample_limits KCritic ''c'' (DCritic 1 ''x'')
      None False sample_with_session = (Ok (h, e), s')" and fp: "ex_fingerprint e = ''x''"
    by (auto simp: register_extension_def register_extension_owned_def registration_gate_def descriptor_bound_def
        sample_codec_desc_def sample_limits_def existing_registration_def admit_registration_def semantic_owner_def
        empty checked_add_def mint_id_def Let_def max_extension_descriptor_bytes_def)
  show ?thesis
    using run extension_registration_is_idempotent [OF sample_session_reach run, where d' = "DCritic 1 ''y''" and
        fp' = "''y''" and timeout' = None and u' = "''u4''" and inst' = False] fp
    by (intro exI [of _ h] exI [of _ e] exI [of _ s'])
      (auto simp: sample_codec_desc_def sample_limits_def descriptor_bound_def max_extension_descriptor_bytes_def)
qed

text \<open>A factory child never outlives its factory: in every history the factory of a registered child
  is open and is a factory, the child is a custom Agent, and the registry refuses to release the factory
  and changes nothing as long as one of its children is registered.\<close>

theorem factory_children_keep_their_factory:
  assumes "reach registry_init registry_step (s, L)"
    and "hget (hi_extensions s) i = Some e" and "ex_factory_origin e = Some parent"
  shows "ex_kind e = KCustomAgent \<and> open_factory s (h_id parent) \<and> i \<noteq> h_id parent \<and>
    (\<exists>err. close_extension parent s = (Err err, s) \<and> err_code err = ExtensionConflict)"
proof -
  note ext = registry_inv_facts(8) [OF registry_hist.reach_inv [OF assms(1)]]
  from ext_inv_entry(4,5) [OF ext assms(2,3)] obtain f where
    f: "hget (hi_extensions s) (h_id parent) = Some f" "ex_kind f = KAgentFactory" "ex_kind e = KCustomAgent" by blast
  have "list_ex (\<lambda>e. case ex_factory_origin (snd e) of None \<Rightarrow> False | Some origin \<Rightarrow> h_id origin = h_id parent)
      (hi_extensions s)"
    using map_of_SomeD [OF assms(2)] assms(3) by (force simp: list_ex_iff)
  with f assms(2) show ?thesis by (auto simp: open_factory_def close_extension_def)
qed

text \<open>A factory and a reserved child of it.\<close>

definition sample_factory :: wire_handle where
  "sample_factory = mk_handle (minted_id ExtensionKindOf ''f'') ExtensionKindOf 7"

definition sample_with_factory :: "nat handle_inner" where
  "sample_with_factory = snd (register_extension sample_codec_desc ''f'' sample_limits KAgentFactory ''fac''
     (DAgentFactory 1) None False sample_registry)"

definition sample_with_child :: "nat handle_inner" where
  "sample_with_child = snd (reserve_factory_instance sample_codec_desc ''c'' sample_limits sample_factory ''child''
     None sample_with_factory)"

lemma sample_with_factory_eq:
  "sample_with_factory = sample_registry\<lparr>hi_next_extension_order := 1,
     hi_extensions := [(minted_id ExtensionKindOf ''f'', \<lparr>ex_kind = KAgentFactory, ex_implementation_id = ''fac'',
        ex_descriptor = DAgentFactory 1, ex_fingerprint = ''?'', ex_timeout = None, ex_registration_order = 1,
        ex_factory_instance = False, ex_factory_origin = None, ex_reserved = False\<rparr>)],
     hi_extension_index := [(extension_identity KAgentFactory ''fac'', minted_id ExtensionKindOf ''f'')]\<rparr>"
  by (simp add: sample_with_factory_def sample_registry_def register_extension_def register_extension_owned_def
      registration_gate_def descriptor_bound_def sample_codec_desc_def sample_limits_def existing_registration_def
      admit_registration_def semantic_owner_def checked_add_def mint_id_def Let_def enforce_budget_def
      open_handles_def new_registry_def len_usize_def saturating_add_def max_extension_descriptor_bytes_def)

lemma sample_factory_fields:
  "hi_generation sample_with_factory = 7" "hi_next_extension_order sample_with_factory = 1"
  "enforce_budget sample_with_factory 1 = Ok ()" "open_factory sample_with_factory (h_id sample_factory)"
  "hget (hi_extension_index sample_with_factory) (extension_identity KCustomAgent ''child'') = None"
  "length (hi_extensions sample_with_factory) = 1"
  by (simp_all add: sample_with_factory_eq sample_registry_def new_registry_def enforce_budget_def open_handles_def
      len_usize_def saturating_add_def open_factory_def sample_factory_def extension_identity_def)

lemma sample_child_registered:
  "\<exists>r e. reserve_factory_instance sample_codec_desc ''c'' sample_limits sample_factory ''child'' None sample_with_factory =
     (Ok r, sample_with_child) \<and>
   hget (hi_extensions sample_with_child) (minted_id ExtensionKindOf ''c'') = Some e \<and>
   ex_factory_origin e = Some sample_factory"
proof -
  have shape: "check_shape_and_generation sample_with_factory sample_factory ExtensionKindOf register_operation = Ok ()"
    by (simp add: check_shape_Ok sample_factory_fields)
      (simp add: sample_factory_def validate_handle_def blank_def is_whitespace_def minted_id_def to_u64_from_u64)
  have gate: "registration_gate sample_codec_desc sample_limits KCustomAgent ''child'' reserved_child_descriptor None True
      (Some sample_factory) sample_with_factory = Ok (''?'', None)"
    by (simp add: registration_gate_def descriptor_bound_def existing_registration_def admit_registration_def
        sample_factory_fields reserved_child_descriptor_def)
      (simp add: sample_codec_desc_def sample_limits_def max_extension_descriptor_bytes_def)
  have order: "checked_add (1 :: u64) 1 = Some 2" by (simp add: checked_add_Some)
  show ?thesis
    by (simp add: sample_with_child_def reserve_factory_instance_def shape register_extension_owned_def gate
        sample_factory_fields order mint_id_def Let_def)
qed

theorem factory_children_keep_their_factory_witness:
  "\<exists>err. close_extension sample_factory sample_with_child = (Err err, sample_with_child) \<and>
     err_code err = ExtensionConflict"
proof -
  obtain r e where child: "reserve_factory_instance sample_codec_desc ''c'' sample_limits sample_factory ''child'' None
      sample_with_factory = (Ok r, sample_with_child)"
    "hget (hi_extensions sample_with_child) (minted_id ExtensionKindOf ''c'') = Some e"
    "ex_factory_origin e = Some sample_factory" using sample_child_registered by blast
  have r1: "reach registry_init registry_step (sample_with_factory, advance sample_ledger0 sample_registry sample_with_factory)"
    by (rule reach_step [OF sample_start registry_stepI [OF call_register_extension]])
      (simp_all add: sample_with_factory_def prod_eq_iff sample_ledger0_def)
  have "live sample_with_factory = {(ExtensionKindOf, minted_id ExtensionKindOf ''f'')}"
    by (simp add: live_all_handles all_handles_def sample_with_factory_eq sample_registry_def new_registry_def)
  then have "(ExtensionKindOf, minted_id ExtensionKindOf ''c'') \<notin>
      lg_issued (advance sample_ledger0 sample_registry sample_with_factory)"
    by (simp add: sample_ledger0_def minted_id_def)
  with reach_step [OF r1 registry_stepI [OF call_reserve_factory_instance [OF child(1)]]]
  have "reach registry_init registry_step (sample_with_child,
      advance (advance sample_ledger0 sample_registry sample_with_factory) sample_with_factory sample_with_child)" by simp
  from factory_children_keep_their_factory [OF this child(2,3)] show ?thesis by simp
qed

end
