(* ===== verification/Registry_Streams.thy ===== *)
theory Registry_Streams
  imports Registry_Contract
begin

text \<open>
  Facade streams and plan tasks in the handle registry: the ownership of a stream by its resource, the
  race of its registration with the close of the resource, the order and the single terminal of the
  items a stream delivers, and the stable address of a plan task.
\<close>

section \<open>Ownership\<close>

lemma close_facade_resource_effect:
  assumes "close_facade_resource h operation s = (Ok True, s')"
  shows "hmem (h_id h) (hi_facade_resources s)"
    "s' = push_tombstones (map (Pair StreamKind) (streams_where (of_resource (h_id h)) s) @ [(FacadeResourceKind, h_id h)])
       (s\<lparr>hi_facade_resources := hdel (h_id h) (hi_facade_resources s),
          hi_streams := fold hdel (streams_where (of_resource (h_id h)) s) (hi_streams s)\<rparr>)"
  using assms
  by (auto simp: close_facade_resource_def Let_def remove_streams_def split: sum.splits if_splits)

text \<open>A facade stream never outlives its resource: in every history of whole calls a stream that
  resolves belongs to an open resource with the owner it was resolved for, and once that resource is
  closed the stream does not resolve any more.\<close>

theorem facade_streams_have_their_resource:
  assumes "reach registry_init registry_step (s, L)" and "facade_stream h owner op s = Ok st"
  shows "\<exists>r res. st_resource_id st = Some r \<and> hget (hi_facade_resources s) r = Some res \<and>
    fr_owner_session res = owner \<and>
    (\<forall>rh op'. h_id rh = r \<and> fst (close_facade_resource rh op' s) = Ok True \<longrightarrow>
       \<not> is_ok (facade_stream h owner op (snd (close_facade_resource rh op' s))))"
proof -
  note facts = registry_inv_facts [OF registry_hist.reach_inv [OF assms(1)]] and st = facade_stream_Ok [OF assms(2)]
  from facts(9) st(1,2) obtain r res where r: "st_resource_id st = Some r" "hget (hi_facade_resources s) r = Some res"
    "fr_owner_session res = st_owner_session st" unfolding facade_inv_def by blast
  have "\<not> is_ok (facade_stream h owner op s')"
    if "h_id rh = r" and run: "close_facade_resource rh op' s = (Ok True, s')" for rh op' s'
  proof -
    have wf: "hwf (hi_streams s)" using facts(1) by (simp add: maps_wf_def)
    have "h_id h \<in> set (streams_where (of_resource r) s)"
      unfolding streams_where_mem [OF wf] using st(1,2) r(1) by (simp add: of_resource_def)
    then have "hget (hi_streams s') (h_id h) = None"
      using close_facade_resource_effect(2) [OF run] that(1) by (simp add: hget_fold_hdel)
    then show ?thesis by (auto simp: is_ok_iff dest: facade_stream_Ok(1))
  qed
  with r st(3) show ?thesis by (metis prod.collapse)
qed

text \<open>A resource and a stream of it.\<close>

definition sample_resource :: wire_handle where
  "sample_resource = mk_handle (minted_id FacadeResourceKind ''r'') FacadeResourceKind 7"

definition sample_with_resource :: "nat handle_inner" where
  "sample_with_resource = snd (register_facade_resource_batch [''r''] 4 ''memory'' ''memory.namespace'' None ''op'' sample_registry)"

definition sample_stream_handle :: wire_handle where
  "sample_stream_handle = mk_handle (minted_id StreamKind ''s'') StreamKind 7"

definition sample_with_stream :: "nat handle_inner" where
  "sample_with_stream = sample_with_resource\<lparr>hi_streams := [(minted_id StreamKind ''s'',
     new_facade_stream (minted_id FacadeResourceKind ''r'') None)]\<rparr>"

lemma sample_registry_fields:
  "hi_generation sample_registry = 7" "hi_facade_resources sample_registry = []"
  "enforce_budget sample_registry 1 = Ok ()" "hi_streams sample_registry = []"
  by (simp_all add: sample_registry_def new_registry_def enforce_budget_def open_handles_def len_usize_def saturating_add_def)

lemma sample_with_resource_eq:
  "sample_with_resource = sample_registry\<lparr>hi_facade_resources :=
     [(minted_id FacadeResourceKind ''r'', new_facade_entry ''memory'' ''memory.namespace'' None)]\<rparr>"
  by (simp add: sample_with_resource_def register_facade_resource_batch_def mint_resources_eq sample_registry_fields
      len_usize_def saturating_add_def issued_def)

lemma sample_with_resource_fields:
  "hi_generation sample_with_resource = 7" "hi_streams sample_with_resource = []"
  "hi_facade_resources sample_with_resource =
     [(minted_id FacadeResourceKind ''r'', new_facade_entry ''memory'' ''memory.namespace'' None)]"
  "enforce_budget sample_with_resource 1 = Ok ()" "hi_max_handles sample_with_resource = 16"
  by (simp_all add: sample_with_resource_eq sample_registry_def new_registry_def enforce_budget_def open_handles_def
      len_usize_def saturating_add_def)

lemma sample_handles_shape:
  "hi_generation s = 7 \<Longrightarrow> check_shape_and_generation s sample_resource FacadeResourceKind operation = Ok ()"
  "hi_generation s = 7 \<Longrightarrow> check_shape_and_generation s sample_stream_handle StreamKind operation = Ok ()"
  by (simp_all add: check_shape_Ok sample_resource_def sample_stream_handle_def validate_handle_def blank_def
      is_whitespace_def minted_id_def to_u64_from_u64)

lemma sample_admitted: "facade_stream_admitted sample_resource None op sample_with_resource = Ok ()"
  by (simp add: facade_stream_admitted_def facade_resource_def facade_resource_for_close_def checked_lookup_def
      lookup_def sample_handles_shape sample_with_resource_fields)
    (simp add: sample_resource_def new_facade_entry_def)

lemma sample_stream_registered:
  "register_facade_stream ''s'' 4 sample_resource None op sample_with_resource = (Ok sample_stream_handle, sample_with_stream)"
  by (simp add: register_facade_stream_def sample_admitted insert_facade_stream_def sample_with_resource_fields
      mint_id_def issued_def sample_stream_handle_def sample_with_stream_def)
    (simp add: sample_resource_def)

lemma sample_stream_reach: "\<exists>L. reach registry_init registry_step (sample_with_stream, L)"
proof -
  have small: "length [''r''] < 2 ^ 64" by simp
  have "reach registry_init registry_step (sample_with_resource, advance sample_ledger0 sample_registry sample_with_resource)"
    by (rule reach_step [OF sample_start registry_stepI [OF call_register_facade_batch [OF _ small]]])
      (simp_all add: sample_with_resource_def prod_eq_iff sample_ledger0_def)
  from reach_step [OF this registry_stepI [OF call_register_facade_stream [OF sample_stream_registered]]]
  show ?thesis by blast
qed

lemma sample_stream_resolves:
  "facade_stream sample_stream_handle None op sample_with_stream = Ok (new_facade_stream (minted_id FacadeResourceKind ''r'') None)"
proof -
  have gen: "hi_generation sample_with_stream = 7"
    by (simp add: sample_with_stream_def sample_with_resource_fields)
  show ?thesis
    by (simp add: facade_stream_def checked_lookup_def lookup_def sample_handles_shape gen)
      (simp add: sample_with_stream_def sample_stream_handle_def new_facade_stream_def)
qed

lemma sample_resource_closes:
  "hi_generation s = 7 \<Longrightarrow> hmem (h_id sample_resource) (hi_facade_resources s) \<Longrightarrow>
     fst (close_facade_resource sample_resource op s) = Ok True"
  by (simp add: close_facade_resource_def sample_handles_shape Let_def)

theorem facade_streams_have_their_resource_witness:
  "\<not> is_ok (facade_stream sample_stream_handle None ''op'' (snd (close_facade_resource sample_resource ''op'' sample_with_stream)))"
proof -
  obtain L where "reach registry_init registry_step (sample_with_stream, L)" using sample_stream_reach by blast
  from facade_streams_have_their_resource [OF this sample_stream_resolves [of "''op''"]]
  have *: "h_id rh = minted_id FacadeResourceKind ''r'' \<and> fst (close_facade_resource rh op' sample_with_stream) = Ok True \<longrightarrow>
       \<not> is_ok (facade_stream sample_stream_handle None ''op'' (snd (close_facade_resource rh op' sample_with_stream)))" for rh op'
    by (simp add: new_facade_stream_def) blast
  have "fst (close_facade_resource sample_resource ''op'' sample_with_stream) = Ok True"
    by (rule sample_resource_closes)
      (simp_all add: sample_with_stream_def sample_with_resource_fields hmem_def sample_resource_def)
  with * [of sample_resource "''op''"] show ?thesis by (simp add: sample_resource_def)
qed

section \<open>The race of a registration with a close\<close>

text \<open>The two locked sections of a facade stream registration do not guarantee this between them: a
  close of the resource that runs after the checks and before the insertion succeeds, the insertion
  succeeds as well, and the stream it publishes has no resource.\<close>

theorem facade_stream_registration_races_close:
  assumes "facade_stream_admitted rh owner op s = Ok ()"
    and "close_facade_resource rh op s = (Ok True, s1)"
    and "insert_facade_stream uuid bound rh owner op s1 = (Ok h, s2)"
    and "is_ok (validate_handle h)"
  shows "\<exists>st. facade_stream h owner op s2 = Ok st \<and> st_resource_id st = Some (h_id rh) \<and>
    \<not> hmem (h_id rh) (hi_facade_resources s2)"
  using assms(3)
proof (cases rule: insert_facade_stream_cases)
  case registered
  let ?st = "new_facade_stream (h_id rh) owner"
  have h: "h = mk_handle (minted_id StreamKind uuid) StreamKind (hi_generation s1)"
    using registered(3) by (simp add: issued_def)
  have gen: "hi_generation s2 = hi_generation s1" using registered(4) by simp
  have "facade_stream h owner op s2 = Ok ?st"
    using assms(4) gen registered(4) h
    by (auto simp: facade_stream_def and_then_eq_Ok checked_lookup_Ok check_shape_Ok to_u64_from_u64 new_facade_stream_def
        intro!: exI [of _ ?st])
  moreover have "\<not> hmem (h_id rh) (hi_facade_resources s2)"
    using close_facade_resource_effect(2) [OF assms(2)] registered(4) by simp
  ultimately show ?thesis by (auto simp: new_facade_stream_def)
qed simp

theorem facade_stream_registration_races_close_witness:
  "\<exists>s1 s2. close_facade_resource sample_resource ''op'' sample_with_resource = (Ok True, s1) \<and>
     insert_facade_stream ''s'' 4 sample_resource None ''op'' s1 = (Ok sample_stream_handle, s2) \<and>
     (\<exists>st. facade_stream sample_stream_handle None ''op'' s2 = Ok st \<and>
        \<not> hmem (h_id sample_resource) (hi_facade_resources s2))"
proof -
  obtain s1 where close: "close_facade_resource sample_resource ''op'' sample_with_resource = (Ok True, s1)"
    using sample_resource_closes [of sample_with_resource "''op''"]
    by (cases "close_facade_resource sample_resource ''op'' sample_with_resource")
      (simp add: sample_with_resource_fields hmem_def sample_resource_def)
  have "enforce_budget s1 1 = Ok ()" "hi_streams s1 = []" "hi_generation s1 = 7"
    unfolding close_facade_resource_effect(2) [OF close]
    by (simp_all add: streams_where_def sample_with_resource_eq sample_registry_def new_registry_def enforce_budget_def
        open_handles_def len_usize_def saturating_add_def sample_resource_def)
  then obtain s2 where ins: "insert_facade_stream ''s'' 4 sample_resource None ''op'' s1 = (Ok sample_stream_handle, s2)"
    by (simp add: insert_facade_stream_def mint_id_def issued_def sample_stream_handle_def)
  have "is_ok (validate_handle sample_stream_handle)"
    by (simp add: sample_stream_handle_def validate_handle_def blank_def is_whitespace_def minted_id_def)
  from facade_stream_registration_races_close [OF sample_admitted close ins this] close ins
  show ?thesis by blast
qed

section \<open>Sequences and the terminal\<close>

text \<open>The operations on one stream, and the items they deliver: a sequence, and whether it is the terminal.\<close>

datatype stream_op = AdvanceTo u64 | SettleWith bool | CancelStream | CancelToken

fun stream_op_step ::
  "wire_handle \<Rightarrow> string \<Rightarrow> stream_op \<Rightarrow> stream_entry \<Rightarrow> (u64 \<times> bool) list \<times> stream_entry" where
  "stream_op_step h operation (AdvanceTo q) st =
     (case advance_section h q operation (observe_facade_cancellation st) of
        (Inl _, st') \<Rightarrow> ([], st') | (Inr _, st') \<Rightarrow> ([(q, False)], st'))"
| "stream_op_step h operation (SettleWith c) st =
     (case settle_section h c operation (observe_facade_cancellation st) of
        (Inl _, st') \<Rightarrow> ([], st') | (Inr (q, _), st') \<Rightarrow> ([(q, True)], st'))"
| "stream_op_step h operation CancelStream st = ([], snd (cancel_section (observe_facade_cancellation st)))"
| "stream_op_step h operation CancelToken st = ([], st\<lparr>st_token := map_option (\<lambda>_. True) (st_token st)\<rparr>)"

fun run_stream_ops ::
  "wire_handle \<Rightarrow> string \<Rightarrow> stream_op list \<Rightarrow> stream_entry \<Rightarrow> (u64 \<times> bool) list \<times> stream_entry" where
  "run_stream_ops h operation [] st = ([], st)"
| "run_stream_ops h operation (x # xs) st =
     (case stream_op_step h operation x st of
        (d, st') \<Rightarrow> (case run_stream_ops h operation xs st' of (ds, st'') \<Rightarrow> (d @ ds, st'')))"

definition stream_cancelled :: "stream_entry \<Rightarrow> bool" where
  "stream_cancelled st = (st_cancelled st \<or> st_token st = Some True)"

lemma stream_op_step_effect:
  assumes "stream_op_step h operation x st = (d, st')"
  shows "(d = [] \<and> st_last_sequence st' = st_last_sequence st \<and> st_terminal st' = st_terminal st \<or>
      (\<exists>q t. d = [(q, t)] \<and> st_last_sequence st < q \<and> st_last_sequence st' = q \<and> \<not> st_terminal st \<and>
         st_terminal st' = t \<and> (stream_cancelled st \<longrightarrow> t))) \<and>
    (stream_cancelled st \<and> \<not> st_terminal st \<longrightarrow> stream_cancelled st')"
proof (cases x)
  case (SettleWith c)
  have less: "st_last_sequence st < q" if "checked_add (st_last_sequence st) 1 = Some q" for q
    using that by (simp add: checked_add_Some word_less_nat_alt)
  show ?thesis
    using assms SettleWith less
    by (cases "checked_add (st_last_sequence st) 1")
      (auto simp: settle_section_def observe_facade_cancellation_def stream_cancelled_def split: if_splits)
qed (use assms in \<open>auto simp: advance_section_def cancel_section_def observe_facade_cancellation_def
    stream_cancelled_def not_le split: if_splits\<close>)

lemma run_stream_ops_effect:
  assumes "run_stream_ops h operation xs st = (ds, st')"
  shows "sorted_wrt (<) (map fst ds) \<and> (\<forall>p\<in>set ds. st_last_sequence st < fst p) \<and>
    (st_terminal st \<longrightarrow> ds = []) \<and> (\<forall>p\<in>set (butlast ds). \<not> snd p) \<and>
    (stream_cancelled st \<longrightarrow> length ds \<le> 1 \<and> (\<forall>p\<in>set ds. snd p)) \<and>
    (st_terminal st' \<longleftrightarrow> st_terminal st \<or> (ds \<noteq> [] \<and> snd (last ds)))"
  using assms
proof (induction xs arbitrary: st ds)
  case Nil
  then show ?case by simp
next
  case (Cons x xs)
  obtain d st1 where one: "stream_op_step h operation x st = (d, st1)" by (cases "stream_op_step h operation x st")
  obtain es where rest: "run_stream_ops h operation xs st1 = (es, st')" and ds: "ds = d @ es"
    using Cons.prems one by (auto split: prod.splits)
  note IH = Cons.IH [OF rest]
  from stream_op_step_effect [OF one] consider
    "d = []" "st_last_sequence st1 = st_last_sequence st" "st_terminal st1 = st_terminal st" |
    q t where "d = [(q, t)]" "st_last_sequence st < q" "st_last_sequence st1 = q" "\<not> st_terminal st"
      "st_terminal st1 = t" "stream_cancelled st \<longrightarrow> t" by blast
  then show ?case
  proof cases
    case 1
    have "stream_cancelled st \<longrightarrow> st_terminal st \<or> stream_cancelled st1" using stream_op_step_effect [OF one] by blast
    with IH 1 ds show ?thesis by auto
  next
    case 2
    have "\<forall>p\<in>set es. st_last_sequence st < fst p" using IH 2(2,3) by (auto intro: less_trans)
    moreover have "t \<longrightarrow> es = []" using IH 2(5) by simp
    ultimately show ?thesis using IH 2 ds by (cases t; cases "es = []") auto
  qed
qed

lemma run_stream_ops_append:
  "run_stream_ops h operation xs st = (ds, st') \<Longrightarrow> run_stream_ops h operation ys st' = (es, st'') \<Longrightarrow>
     run_stream_ops h operation (xs @ ys) st = (ds @ es, st'')"
  by (induction xs arbitrary: ds st) (auto split: prod.splits)

text \<open>The same operations called on the registry, each with its own lookup of the handle.\<close>

fun call_stream_op ::
  "wire_handle \<Rightarrow> string option \<Rightarrow> string \<Rightarrow> stream_op \<Rightarrow> 'd handle_inner \<Rightarrow> (u64 \<times> bool) list \<times> 'd handle_inner" where
  "call_stream_op h owner operation (AdvanceTo q) s =
     (case advance_facade_stream h owner q operation s of (Inl _, s') \<Rightarrow> ([], s') | (Inr _, s') \<Rightarrow> ([(q, False)], s'))"
| "call_stream_op h owner operation (SettleWith c) s =
     (case settle_facade_stream h owner c operation s of (Inl _, s') \<Rightarrow> ([], s') | (Inr (q, _), s') \<Rightarrow> ([(q, True)], s'))"
| "call_stream_op h owner operation CancelStream s = ([], snd (cancel_facade_stream h owner operation s))"
| "call_stream_op h owner operation CancelToken s = ([], cancel_stream_token (h_id h) s)"

fun call_stream_ops ::
  "wire_handle \<Rightarrow> string option \<Rightarrow> string \<Rightarrow> stream_op list \<Rightarrow> 'd handle_inner \<Rightarrow> (u64 \<times> bool) list \<times> 'd handle_inner" where
  "call_stream_ops h owner operation [] s = ([], s)"
| "call_stream_ops h owner operation (x # xs) s =
     (case call_stream_op h owner operation x s of
        (d, s') \<Rightarrow> (case call_stream_ops h owner operation xs s' of (ds, s'') \<Rightarrow> (d @ ds, s'')))"

lemma facade_stream_put:
  assumes "facade_stream h owner operation s = Ok st" and "same_stream st' st"
  shows "facade_stream h owner operation (put_stream h st' s) = Ok st'"
  using facade_stream_Ok [OF assms(1)] assms(2)
  by (auto simp: facade_stream_def and_then_eq_Ok checked_lookup_Ok check_shape_Ok put_stream_def same_stream_def
      intro!: exI [of _ st'])

lemma same_stream_trans: "same_stream a b \<Longrightarrow> same_stream b c \<Longrightarrow> same_stream a c"
  by (simp add: same_stream_def)

lemma call_stream_op_entry:
  assumes "facade_stream h owner operation s = Ok st"
  shows "fst (call_stream_op h owner operation x s) = fst (stream_op_step h operation x st)"
    "facade_stream h owner operation (snd (call_stream_op h owner operation x s)) =
       Ok (snd (stream_op_step h operation x st))"
proof -
  let ?o = "observe_facade_cancellation st"
  note put = facade_stream_put [OF assms] and trans = same_stream_trans [OF _ same_stream_observe]
  have "fst (call_stream_op h owner operation x s) = fst (stream_op_step h operation x st) \<and>
    facade_stream h owner operation (snd (call_stream_op h owner operation x s)) =
       Ok (snd (stream_op_step h operation x st))"
  proof (cases x)
    case (AdvanceTo q)
    have "same_stream (snd (advance_section h q operation ?o)) st" by (rule trans [OF stream_sections_same(1)])
    from put [OF this] assms AdvanceTo show ?thesis
      by (cases "advance_section h q operation ?o"; cases "fst (advance_section h q operation ?o)")
        (auto simp: advance_facade_stream_def with_facade_stream_def)
  next
    case (SettleWith c)
    have "same_stream (snd (settle_section h c operation ?o)) st" by (rule trans [OF stream_sections_same(2)])
    from put [OF this] assms SettleWith show ?thesis
      by (cases "settle_section h c operation ?o"; cases "fst (settle_section h c operation ?o)")
        (auto simp: settle_facade_stream_def with_facade_stream_def)
  next
    case CancelStream
    have "same_stream (snd (cancel_section ?o)) st" by (rule trans [OF stream_sections_same(3)])
    from put [OF this] assms CancelStream show ?thesis
      by (cases "cancel_section ?o") (auto simp: cancel_facade_stream_def with_facade_stream_def)
  next
    case CancelToken
    have "same_stream (st\<lparr>st_token := map_option (\<lambda>_. True) (st_token st)\<rparr>) st" by (simp add: same_stream_def)
    from put [OF this] CancelToken facade_stream_Ok(1) [OF assms] show ?thesis
      by (simp add: cancel_stream_token_def put_stream_def)
  qed
  then show "fst (call_stream_op h owner operation x s) = fst (stream_op_step h operation x st)"
    "facade_stream h owner operation (snd (call_stream_op h owner operation x s)) =
       Ok (snd (stream_op_step h operation x st))" by simp_all
qed

lemma call_stream_ops_entry:
  assumes "facade_stream h owner operation s = Ok st"
  shows "fst (call_stream_ops h owner operation xs s) = fst (run_stream_ops h operation xs st) \<and>
    facade_stream h owner operation (snd (call_stream_ops h owner operation xs s)) =
       Ok (snd (run_stream_ops h operation xs st))"
  using assms
proof (induction xs arbitrary: s st)
  case Nil
  then show ?case by simp
next
  case (Cons x xs)
  from Cons.IH [OF call_stream_op_entry(2) [OF Cons.prems, of x]] call_stream_op_entry(1) [OF Cons.prems, of x]
  show ?case by (auto simp: split_def)
qed

text \<open>C20: A facade stream delivers strictly increasing sequences and at most one terminal, which is the
  last item, whatever operations are called on it; once its cancellation is accepted, by the registry or
  through the producer's token, nothing but the terminal can follow, and the terminal reports it.\<close>

theorem facade_stream_is_ordered_and_ends_once:
  assumes "facade_stream h owner operation s = Ok (new_facade_stream resource owner)"
    and "call_stream_ops h owner operation xs s = (ds, s1)"
    and "call_stream_ops h owner operation ys s1 = (es, s2)"
  shows "sorted_wrt (<) (map fst (ds @ es)) \<and> (\<forall>p\<in>set (butlast (ds @ es)). \<not> snd p) \<and>
    (\<forall>p\<in>set (ds @ es). 0 < fst p) \<and>
    (\<forall>st. facade_stream h owner operation s1 = Ok st \<and> stream_cancelled st \<longrightarrow> (\<forall>p\<in>set es. snd p) \<and>
       (\<forall>c q r. fst (settle_facade_stream h owner c operation s1) = Ok (q, r) \<longrightarrow> r))"
proof -
  obtain st1 where one: "run_stream_ops h operation xs (new_facade_stream resource owner) = (ds, st1)"
    and s1: "facade_stream h owner operation s1 = Ok st1"
    using call_stream_ops_entry [OF assms(1), of xs] assms(2)
    by (cases "run_stream_ops h operation xs (new_facade_stream resource owner)") simp
  obtain st2 where two: "run_stream_ops h operation ys st1 = (es, st2)"
    using call_stream_ops_entry [OF s1, of ys] assms(3) by (cases "run_stream_ops h operation ys st1") simp
  have report: "r" if "stream_cancelled st1" "fst (settle_facade_stream h owner c operation s1) = Ok (q, r)" for c q r
    using that s1 by (auto simp: settle_facade_stream_def with_facade_stream_def settle_section_def stream_cancelled_def
        observe_facade_cancellation_def split: if_splits option.splits)
  from run_stream_ops_effect [OF run_stream_ops_append [OF one two]] run_stream_ops_effect [OF two] report s1
  show ?thesis by (auto simp: new_facade_stream_def)
qed

theorem facade_stream_is_ordered_and_ends_once_witness:
  "let s1 = snd (call_stream_ops sample_stream_handle None ''op'' [AdvanceTo 3, AdvanceTo 2, CancelToken] sample_with_stream)
   in fst (call_stream_ops sample_stream_handle None ''op'' [AdvanceTo 3, AdvanceTo 2, CancelToken] sample_with_stream) =
        [(3, False)] \<and>
      (\<forall>p\<in>set (fst (call_stream_ops sample_stream_handle None ''op'' [AdvanceTo 9, SettleWith False, SettleWith True] s1)). snd p)"
proof -
  let ?h = sample_stream_handle and ?new = "new_facade_stream (minted_id FacadeResourceKind ''r'') None"
  obtain ds s1 where first: "call_stream_ops ?h None ''op'' [AdvanceTo 3, AdvanceTo 2, CancelToken] sample_with_stream = (ds, s1)"
    by fastforce
  obtain es s2 where second: "call_stream_ops ?h None ''op'' [AdvanceTo 9, SettleWith False, SettleWith True] s1 = (es, s2)"
    by fastforce
  have run: "run_stream_ops ?h ''op'' [AdvanceTo 3, AdvanceTo 2, CancelToken] ?new =
     ([(3, False)], ?new\<lparr>st_token := Some True, st_last_sequence := 3\<rparr>)"
    by (simp add: advance_section_def observe_facade_cancellation_def new_facade_stream_def)
  from call_stream_ops_entry [OF sample_stream_resolves, of "''op''" "[AdvanceTo 3, AdvanceTo 2, CancelToken]"] run first
  have "ds = [(3, False)]" and "facade_stream ?h None ''op'' s1 = Ok (?new\<lparr>st_token := Some True, st_last_sequence := 3\<rparr>)"
    by simp_all
  with facade_stream_is_ordered_and_ends_once [OF sample_stream_resolves first second] first second
  show ?thesis by (simp add: stream_cancelled_def)
qed

section \<open>Plan tasks\<close>

lemma register_plan_task_answer:
  assumes "register_plan_task u tr task op s = (Ok h, s')"
  shows "hget (hi_plan_task_index s') (h_id tr, task) = Some (h_id h)" "h = issued s' PlanTaskKind (h_id h)"
    "is_ok (task_run tr s')" "\<not> blank task"
proof -
  from assms obtain te where te: "task_run tr s = Ok te" and nonblank: "\<not> blank task"
    by (auto simp: register_plan_task_def split: sum.splits if_splits)
  have all: "hget (hi_plan_task_index s') (h_id tr, task) = Some (h_id h) \<and> h = issued s' PlanTaskKind (h_id h) \<and>
      hi_generation s' = hi_generation s \<and> hi_task_runs s' = hi_task_runs s"
  proof (cases "hget (hi_plan_task_index s) (h_id tr, task)")
    case (Some i)
    with assms te nonblank show ?thesis by (auto simp: register_plan_task_def issued_def)
  next
    case None
    have mem: "hmem (h_id tr) (hi_task_runs s)" using te by (simp add: task_run_def checked_lookup_Ok hmem_def)
    show ?thesis
    proof (cases "enforce_budget s 1")
      case (Inl e)
      with assms te nonblank None mem show ?thesis by (simp add: register_plan_task_def)
    next
      case (Inr v)
      with assms te nonblank None mem show ?thesis by (auto simp: register_plan_task_def mint_id_def issued_def)
    qed
  qed
  then have "task_run tr s' = Ok te" using te by (simp add: task_run_def checked_lookup_Ok check_shape_Ok)
  with all nonblank show "hget (hi_plan_task_index s') (h_id tr, task) = Some (h_id h)"
    "h = issued s' PlanTaskKind (h_id h)" "is_ok (task_run tr s')" "\<not> blank task" by simp_all
qed

text \<open>A plan task has one address: registering a task of a TaskRun again answers the same handle and
  changes nothing, the handle resolves to exactly that task in that TaskRun and in no other, and no
  other task of any TaskRun has it.\<close>

theorem plan_task_address_is_stable:
  assumes "reach registry_init registry_step (s, L)"
    and "register_plan_task uuid tr task op s = (Ok h, s')"
    and "(PlanTaskKind, minted_id PlanTaskKind uuid) \<notin> lg_issued L"
  shows "register_plan_task uuid' tr task op s' = (Ok h, s') \<and>
    hget (hi_plan_tasks s') (h_id h) = Some \<lparr>pt_task_run_handle_id = h_id tr, pt_task_id = task\<rparr> \<and>
    (is_ok (validate_handle h) \<longrightarrow>
       plan_task_for_run h tr op s' = Ok \<lparr>pt_task_run_handle_id = h_id tr, pt_task_id = task\<rparr>) \<and>
    (\<forall>other. h_id other \<noteq> h_id tr \<longrightarrow> \<not> is_ok (plan_task_for_run h other op s')) \<and>
    (\<forall>k. hget (hi_plan_task_index s') k = Some (h_id h) \<longrightarrow> k = (h_id tr, task))"
proof -
  note inv = registry_hist.reach_inv [OF assms(1)]
  have inv': "registry_inv (s', advance L s s')" by (rule register_plan_task_inv [OF inv assms(2,3)])
  note plan = registry_inv_facts(7) [OF inv']
  note a = register_plan_task_answer [OF assms(2)]
  from plan a(1) obtain pt where pt: "hget (hi_plan_tasks s') (h_id h) = Some pt"
    "(h_id tr, task) = (pt_task_run_handle_id pt, pt_task_id pt)" unfolding plan_inv_def by blast
  then have entry: "hget (hi_plan_tasks s') (h_id h) = Some \<lparr>pt_task_run_handle_id = h_id tr, pt_task_id = task\<rparr>"
    by (cases pt) simp
  have again: "register_plan_task uuid' tr task op s' = (Ok h, s')"
    using a by (auto simp: register_plan_task_def is_ok_iff)
  have resolve: "plan_task_for_run h tr op s' = Ok \<lparr>pt_task_run_handle_id = h_id tr, pt_task_id = task\<rparr>"
    if "is_ok (validate_handle h)"
  proof -
    have "h_kind h = PlanTaskKind" "h_generation h = from_u64 (hi_generation s')"
      by (subst a(2), simp add: issued_def)+
    with that have "check_shape_and_generation s' h PlanTaskKind op = Ok ()" by (simp add: check_shape_Ok to_u64_from_u64)
    moreover have "check_shape_and_generation s' tr TaskRunKind op = Ok ()"
      using a(3) by (auto simp: task_run_def is_ok_iff checked_lookup_Ok check_shape_Ok)
    ultimately show ?thesis by (simp add: plan_task_for_run_def lookup_def entry)
  qed
  have foreign: "\<not> is_ok (plan_task_for_run h other op s')" if "h_id other \<noteq> h_id tr" for other
    using that entry by (auto simp: plan_task_for_run_def is_ok_and_then lookup_def ok_or_eq_Ok)
  have unique: "k = (h_id tr, task)" if "hget (hi_plan_task_index s') k = Some (h_id h)" for k
    using plan that pt unfolding plan_inv_def by fastforce
  show ?thesis using again entry resolve foreign unique by blast
qed

theorem plan_task_address_is_stable_witness:
  "\<exists>h s'. register_plan_task ''p'' sample_task_run ''t1'' ''op'' sample_with_session = (Ok h, s') \<and>
     register_plan_task ''q'' sample_task_run ''t1'' ''op'' s' = (Ok h, s')"
proof -
  have "task_run sample_task_run sample_with_session = Ok \<lparr>tr_session_handle_id = minted_id SessionKind ''u1'', tr_acp_session_id = ''acp''\<rparr>"
    by (simp add: task_run_def checked_lookup_Ok check_shape_Ok sample_session_fields)
      (simp add: sample_task_run_def validate_handle_def blank_def is_whitespace_def minted_id_def to_u64_from_u64)
  moreover have "enforce_budget sample_with_session 1 = Ok ()"
    by (simp add: sample_with_session_def sample_with_agent_eq register_session_with_cwd_def enforce_budget_def
        open_handles_def new_registry_def len_usize_def saturating_add_def mint_id_def Let_def)
  ultimately obtain h s' where run: "register_plan_task ''p'' sample_task_run ''t1'' ''op'' sample_with_session = (Ok h, s')"
    by (simp add: register_plan_task_def sample_session_fields mint_id_def hmem_def blank_def is_whitespace_def)
      (simp add: sample_task_run_def mint_id_def)
  have "(PlanTaskKind, minted_id PlanTaskKind ''p'') \<notin> lg_issued sample_ledger2"
    by (simp add: sample_ledger2_def sample_ledger1_def sample_ledger0_def sample_live sample_session_fields)
  from plan_task_address_is_stable [OF sample_session_reach run this] run show ?thesis by blast
qed

section \<open>Recovered runs\<close>

text \<open>
  Loading a session, closing it and loading it again registers the same run and stream addresses twice
  in one generation: the second time they are live and still remembered as released.
\<close>

definition sample_recovered :: recovered_entry where
  "sample_recovered = \<lparr>rv_stream_id = ''st'', rv_session_id = ''acp'', rv_status = StInterrupted,
     rv_last_sequence = 3, rv_terminal = None, rv_receipt = None\<rparr>"

lemma recovered_addresses_rebind:
  assumes "hi_generation s = 7" and "enforce_budget s 2 = Ok ()" and "hi_runs s = []" and "hi_streams s = []"
    and "hi_tombstones s = []" and "hi_max_handles s = 16"
  defines "s1 \<equiv> snd (register_recovered_run ''r'' sample_recovered s)"
  defines "s2 \<equiv> remove_run_handles ''r'' s1"
  defines "s3 \<equiv> snd (register_recovered_run ''r'' sample_recovered s2)"
  shows "live_handle s3 RunKind ''r'' \<and> is_closed s3 (mk_handle ''r'' RunKind 7)"
proof -
  have s1: "s1 = s\<lparr>hi_runs := [(''r'', RecoveredRun sample_recovered)], hi_streams := [(''st'', plain_stream ''r'' 3)]\<rparr>"
    using assms(2-4) by (simp add: s1_def register_recovered_run_def) (simp add: sample_recovered_def)
  have s2: "s2 = s\<lparr>hi_tombstones := [(RunKind, ''r''), (StreamKind, ''st'')]\<rparr>"
    using assms(3-6) by (simp add: s2_def s1 remove_run_handles_def plain_stream_def push_tombstones_def)
  have "enforce_budget s2 2 = Ok ()" using assms(2) by (simp add: s2 enforce_budget_def open_handles_def)
  then have "s3 = s2\<lparr>hi_runs := hput ''r'' (RecoveredRun sample_recovered) (hi_runs s2),
      hi_streams := hput (rv_stream_id sample_recovered) (plain_stream ''r'' (rv_last_sequence sample_recovered)) (hi_streams s2)\<rparr>"
    using assms(3,4) by (simp add: s3_def register_recovered_run_def s2)
  then show ?thesis using assms(1) by (simp add: s2 is_closed_def tombstoned_def to_u64_from_u64)
qed

end
