(* ===== verification/Capability.thy ===== *)
theory Capability
  imports Prelude Wire_Int
begin

text \<open>
  The namespaced capability a Host publishes under \<open>_meta.echo_agent\<close> and the hello a client answers
  with (\<open>echo-sdk-protocol/src/capability.rs\<close>): their shape validations, which list every violated
  precondition, and the negotiation of a hello against an advertisement. The lemmas characterise the
  shapes and the negotiation by the properties they stand for.
\<close>

section \<open>Extension capabilities\<close>

datatype extension_capability =
    AgentLifecycle | SessionHandles | Runs | EventReplayCap | TaskGraph | Subagents
  | ExtensionBridge | StructuredOutput | FeatureSurfaces

fun capability_str :: "extension_capability \<Rightarrow> string" where
  "capability_str AgentLifecycle = ''agent_lifecycle''"
| "capability_str SessionHandles = ''session_handles''"
| "capability_str Runs = ''runs''"
| "capability_str EventReplayCap = ''event_replay''"
| "capability_str TaskGraph = ''task_graph''"
| "capability_str Subagents = ''subagents''"
| "capability_str ExtensionBridge = ''extension_bridge''"
| "capability_str StructuredOutput = ''structured_output''"
| "capability_str FeatureSurfaces = ''feature_surfaces''"

lemma capability_str_inject [simp]: "capability_str a = capability_str b \<longleftrightarrow> a = b"
  by (cases a; cases b) simp_all

text \<open>Capabilities are ordered as their names are, which is the order the wire sorts them in.\<close>

instantiation extension_capability :: linorder
begin

definition less_eq_extension_capability :: "extension_capability \<Rightarrow> extension_capability \<Rightarrow> bool" where
  "less_eq_extension_capability a b = (capability_str a \<le> capability_str b)"

definition less_extension_capability :: "extension_capability \<Rightarrow> extension_capability \<Rightarrow> bool" where
  "less_extension_capability a b = (capability_str a < capability_str b)"

instance
  by standard
    (auto simp: less_eq_extension_capability_def less_extension_capability_def order.strict_iff_order)

end

definition extension_protocol_version :: u32 where "extension_protocol_version = 1"

record capability_declaration =
  cd_capability :: extension_capability
  cd_required :: bool

section \<open>The advertisement\<close>

record echo_limits =
  el_message_bytes :: wire_u64
  el_stream_buffer_events :: wire_u64
  el_callback_concurrency :: u32
  el_callback_timeout :: wire_duration
  el_replay_events :: wire_u64
  el_structured_output_bytes :: wire_u64
  el_outstanding_live_events :: wire_u64
  el_stream_buffer_bytes :: wire_u64
  el_replay_bytes :: wire_u64
  el_open_handles :: wire_u64
  el_registered_extensions :: wire_u64
  el_extension_descriptor_bytes :: wire_u64
  el_extension_payload_bytes :: wire_u64
  el_extension_stream_bytes :: wire_u64
  el_inflight_extension_invocations :: wire_u64
  el_facade_resources :: wire_u64
  el_facade_streams :: wire_u64
  el_facade_page_items :: wire_u64
  el_facade_operation_args :: wire_u64

record echo_capability =
  ec_version :: u32
  ec_contract_digest :: string
  ec_source_digest :: string
  ec_features :: "string list"
  ec_capabilities :: "capability_declaration list"
  ec_limits :: echo_limits

record client_hello =
  ch_version :: u32
  ch_contract_digest :: string
  ch_source_digest :: string
  ch_features :: "string list"
  ch_capabilities :: "extension_capability list"

section \<open>Shape validation\<close>

text \<open>\<open>problem_if b p\<close> pushes the problem \<open>p\<close> under the condition \<open>b\<close>.\<close>

definition problem_if :: "bool \<Rightarrow> string \<Rightarrow> string list" where
  "problem_if b p = (if b then [p] else [])"

lemma problem_if_Nil [simp]: "problem_if b p = [] \<longleftrightarrow> \<not> b"
  by (simp add: problem_if_def)

definition digest_is_valid :: "string \<Rightarrow> bool" where
  "digest_is_valid digest =
     (case strip_prefix ''sha256:'' digest of
        None \<Rightarrow> False
      | Some hex \<Rightarrow> length hex = 64 \<and> list_all is_ascii_hexdigit hex)"

definition digest_problems :: "string \<Rightarrow> string \<Rightarrow> string list" where
  "digest_problems contract source =
     concat (map (\<lambda>(name, digest).
       problem_if (\<not> digest_is_valid digest) (name @ '' must be sha256 plus 64 hex characters''))
       [(''contract_digest'', contract), (''source_contract_digest'', source)])"

text \<open>\<open>sort\<close> and then \<open>dedup\<close> of a clone, compared with the original.\<close>

definition sorted_dedup :: "string list \<Rightarrow> string list" where
  "sorted_dedup xs = remdups_adj (sort xs)"

text \<open>The loop over the declared capabilities; \<open>seen\<close> is the set of the names inserted so far.\<close>

fun duplicate_problems :: "string \<Rightarrow> string list \<Rightarrow> extension_capability list \<Rightarrow> string list" where
  "duplicate_problems what seen [] = []"
| "duplicate_problems what seen (c # cs) =
     problem_if (capability_str c \<in> set seen) (what @ capability_str c) @
     duplicate_problems what (capability_str c # seen) cs"

definition named_limits :: "echo_limits \<Rightarrow> (string \<times> wire_u64) list" where
  "named_limits l =
     [(''max_message_bytes'', el_message_bytes l),
      (''max_stream_buffer_events'', el_stream_buffer_events l),
      (''max_replay_events'', el_replay_events l),
      (''max_structured_output_bytes'', el_structured_output_bytes l),
      (''max_outstanding_live_events'', el_outstanding_live_events l),
      (''max_stream_buffer_bytes'', el_stream_buffer_bytes l),
      (''max_replay_bytes'', el_replay_bytes l),
      (''max_open_handles'', el_open_handles l),
      (''max_registered_extensions'', el_registered_extensions l),
      (''max_extension_descriptor_bytes'', el_extension_descriptor_bytes l),
      (''max_extension_payload_bytes'', el_extension_payload_bytes l),
      (''max_extension_stream_bytes'', el_extension_stream_bytes l),
      (''max_inflight_extension_invocations'', el_inflight_extension_invocations l),
      (''max_facade_resources'', el_facade_resources l),
      (''max_facade_streams'', el_facade_streams l),
      (''max_facade_page_items'', el_facade_page_items l),
      (''max_facade_operation_args'', el_facade_operation_args l)]"

text \<open>The printed scalar error of the callback timeout; the only error a duration has.\<close>

definition duration_problem :: "wire_duration \<Rightarrow> string list" where
  "duration_problem d =
     (case validate_duration d of
        Ok _ \<Rightarrow> []
      | Err _ \<Rightarrow> [''duration nanos must be below one second''])"

definition capability_problems :: "echo_capability \<Rightarrow> string list" where
  "capability_problems c =
     digest_problems (ec_contract_digest c) (ec_source_digest c) @
     problem_if (ec_version c \<noteq> extension_protocol_version)
       (''unsupported extension_protocol_version '' @ show_nat (unat (ec_version c))) @
     problem_if (sorted_dedup (ec_features c) \<noteq> ec_features c) ''features must be sorted and deduplicated'' @
     problem_if (ec_capabilities c = []) ''at least one capability must be declared'' @
     duplicate_problems ''duplicate capability '' [] (map cd_capability (ec_capabilities c)) @
     concat (map (\<lambda>(name, v). problem_if (to_u64 v = Some 0) (name @ '' must be positive''))
       (named_limits (ec_limits c))) @
     problem_if (el_callback_concurrency (ec_limits c) = 0) ''max_callback_concurrency must be positive'' @
     duration_problem (el_callback_timeout (ec_limits c))"

definition hello_problems :: "client_hello \<Rightarrow> string list" where
  "hello_problems h =
     digest_problems (ch_contract_digest h) (ch_source_digest h) @
     problem_if (ch_version h \<noteq> extension_protocol_version)
       (''unsupported hello extension_protocol_version '' @ show_nat (unat (ch_version h))) @
     problem_if (sorted_dedup (ch_features h) \<noteq> ch_features h)
       ''required_features must be sorted and deduplicated'' @
     duplicate_problems ''duplicate required capability '' [] (ch_capabilities h)"

section \<open>Negotiation\<close>

definition declares :: "echo_capability \<Rightarrow> extension_capability \<Rightarrow> bool" where
  "declares c cap = list_ex (\<lambda>d. cd_capability d = cap) (ec_capabilities c)"

definition negotiate_hello :: "echo_capability \<Rightarrow> client_hello \<Rightarrow> string list" where
  "negotiate_hello c h =
     problem_if (ch_version h \<noteq> ec_version c)
       (''hello extension_protocol_version '' @ show_nat (unat (ch_version h)) @
        '' does not match host '' @ show_nat (unat (ec_version c))) @
     problem_if (ch_contract_digest h \<noteq> ec_contract_digest c)
       ''hello contract_digest does not match host'' @
     problem_if (ch_source_digest h \<noteq> ec_source_digest c)
       ''hello source_contract_digest does not match host'' @
     concat (map (\<lambda>f. problem_if (\<not> list_ex (\<lambda>host. host = f) (ec_features c))
       (''required feature '' @ f @ '' is not compiled in'')) (ch_features h)) @
     concat (map (\<lambda>cap. problem_if (\<not> declares c cap)
       (''required capability '' @ capability_str cap @ '' is not advertised'')) (ch_capabilities h))"

section \<open>What the checks mean\<close>

text \<open>A list survives sorting and removing adjacent duplicates exactly when it is strictly increasing.\<close>

lemma distinct_remdups_adj_sorted: "sorted xs \<Longrightarrow> distinct (remdups_adj xs)"
  by (induction xs rule: remdups_adj.induct) auto

lemma sorted_dedup_strict: "sorted_wrt (<) (sorted_dedup xs)"
proof -
  have "sorted (sorted_dedup xs)" by (simp add: sorted_dedup_def sorted_remdups_adj)
  moreover have "distinct (sorted_dedup xs)"
    by (simp add: sorted_dedup_def distinct_remdups_adj_sorted)
  ultimately show ?thesis by (simp add: strict_sorted_iff)
qed

lemma set_sorted_dedup [simp]: "set (sorted_dedup xs) = set xs"
  by (simp add: sorted_dedup_def)

lemma sorted_dedup_id_iff: "sorted_dedup xs = xs \<longleftrightarrow> sorted_wrt (<) xs"
proof
  assume "sorted_dedup xs = xs"
  then show "sorted_wrt (<) xs" using sorted_dedup_strict [of xs] by simp
next
  assume "sorted_wrt (<) xs"
  then have "sorted xs" "distinct xs" by (simp_all add: strict_sorted_iff)
  then show "sorted_dedup xs = xs"
    by (simp add: sorted_dedup_def sorted_sort_id remdups_adj_distinct)
qed

lemma duplicate_problems_Nil:
  "duplicate_problems what seen cs = [] \<longleftrightarrow>
     distinct cs \<and> set (map capability_str cs) \<inter> set seen = {}"
  by (induction cs arbitrary: seen) auto

lemma digest_problems_Nil:
  "digest_problems a b = [] \<longleftrightarrow> digest_is_valid a \<and> digest_is_valid b"
  by (simp add: digest_problems_def)

lemma capability_problems_Nil:
  "capability_problems c = [] \<longleftrightarrow>
     digest_is_valid (ec_contract_digest c) \<and> digest_is_valid (ec_source_digest c) \<and>
     ec_version c = extension_protocol_version \<and> sorted_wrt (<) (ec_features c) \<and>
     ec_capabilities c \<noteq> [] \<and> distinct (map cd_capability (ec_capabilities c)) \<and>
     (\<forall>v\<in>snd ` set (named_limits (ec_limits c)). to_u64 v \<noteq> Some 0) \<and>
     el_callback_concurrency (ec_limits c) \<noteq> 0 \<and>
     is_ok (validate_duration (el_callback_timeout (ec_limits c)))"
  by (auto simp: capability_problems_def digest_problems_Nil sorted_dedup_id_iff
      duplicate_problems_Nil duration_problem_def is_ok_def split: sum.splits)

lemma hello_problems_Nil:
  "hello_problems h = [] \<longleftrightarrow>
     digest_is_valid (ch_contract_digest h) \<and> digest_is_valid (ch_source_digest h) \<and>
     ch_version h = extension_protocol_version \<and> sorted_wrt (<) (ch_features h) \<and>
     distinct (ch_capabilities h)"
  by (simp add: hello_problems_def digest_problems_Nil sorted_dedup_id_iff duplicate_problems_Nil)

lemma declares_iff: "declares c cap \<longleftrightarrow> cap \<in> cd_capability ` set (ec_capabilities c)"
  by (auto simp: declares_def list_ex_iff)

lemma negotiate_hello_Nil:
  "negotiate_hello c h = [] \<longleftrightarrow>
     ch_version h = ec_version c \<and> ch_contract_digest h = ec_contract_digest c \<and>
     ch_source_digest h = ec_source_digest c \<and> set (ch_features h) \<subseteq> set (ec_features c) \<and>
     (\<forall>cap\<in>set (ch_capabilities h). declares c cap)"
  by (auto simp: negotiate_hello_def list_ex_iff)

end
