(* ===== verification/Catalog.thy ===== *)
theory Catalog
  imports Capability
begin

text \<open>
  The catalog of the \<open>_echo_agent/*\<close> methods (\<open>echo-sdk-protocol/src/catalog.rs\<close>): every method with
  its direction and the capability that gates it, the schema of its parameters and of its result, and
  the mechanical validation the contract tools run. The names of the standard ACP methods come from
  the official schema crate and are an argument.
\<close>

section \<open>Descriptors\<close>

datatype direction = Request | ClientNotification | ReverseRequest | HostNotification

fun direction_str :: "direction \<Rightarrow> string" where
  "direction_str Request = ''request''"
| "direction_str ClientNotification = ''client_notification''"
| "direction_str ReverseRequest = ''reverse_request''"
| "direction_str HostNotification = ''host_notification''"

record method_descriptor =
  md_name :: string
  md_direction :: direction
  md_capability :: extension_capability
  md_summary :: string

abbreviation (input) "method n d c s \<equiv>
  \<lparr>md_name = n, md_direction = d, md_capability = c, md_summary = s\<rparr>"

definition extension_namespace :: string where "extension_namespace = ''_echo_agent''"

section \<open>Schemas\<close>

text \<open>The methods whose parameters and result are the generic feature operation.\<close>

definition feature_operation_methods :: "string list" where
  "feature_operation_methods =
     [''_echo_agent/structured_output/validate'',
      ''_echo_agent/memory/op'',
      ''_echo_agent/workflow/op'',
      ''_echo_agent/state/op'',
      ''_echo_agent/delivery/op'',
      ''_echo_agent/trace/op'',
      ''_echo_agent/eval/op'',
      ''_echo_agent/improve/op'',
      ''_echo_agent/permission/op'',
      ''_echo_agent/mcp/op'',
      ''_echo_agent/channels/op'',
      ''_echo_agent/telemetry/op'',
      ''_echo_agent/topology/op'',
      ''_echo_agent/web/op'',
      ''_echo_agent/files/op'',
      ''_echo_agent/shell/op'',
      ''_echo_agent/git/op'',
      ''_echo_agent/database/op'',
      ''_echo_agent/rag/op'',
      ''_echo_agent/chart/op'',
      ''_echo_agent/media/op'',
      ''_echo_agent/data/op'',
      ''_echo_agent/statistics/op'',
      ''_echo_agent/research/op'',
      ''_echo_agent/content-guard/op'',
      ''_echo_agent/project-rules/op'',
      ''_echo_agent/testing/op'',
      ''_echo_agent/facade/invoke'']"

definition params_table :: "(string \<times> string) list" where
  "params_table =
     [(''_echo_agent/agent/create'', ''AgentCreateRequest''),
      (''_echo_agent/agent/describe'', ''AgentDescribeRequest''),
      (''_echo_agent/agent/close'', ''AgentCloseRequest''),
      (''_echo_agent/session/create'', ''SessionCreateRequest''),
      (''_echo_agent/session/load'', ''SessionLoadRequest''),
      (''_echo_agent/session/close'', ''SessionCloseRequest''),
      (''_echo_agent/run/start'', ''RunStartRequest''),
      (''_echo_agent/run/get'', ''RunGetRequest''),
      (''_echo_agent/run/wait'', ''RunWaitRequest''),
      (''_echo_agent/run/cancel'', ''RunCancelRequest''),
      (''_echo_agent/run/steer'', ''RunSteerRequest''),
      (''_echo_agent/run/replay'', ''ReplayRequest''),
      (''_echo_agent/event'', ''EventNotification''),
      (''_echo_agent/event/ack'', ''EventAckNotification''),
      (''_echo_agent/gap'', ''GapNotification''),
      (''_echo_agent/task/create'', ''TaskCreateRequest''),
      (''_echo_agent/task/update'', ''TaskUpdateRequest''),
      (''_echo_agent/task/list'', ''TaskListRequest''),
      (''_echo_agent/task/execute'', ''TaskExecuteRequest''),
      (''_echo_agent/task/control'', ''TaskControlRequest''),
      (''_echo_agent/subagent/dispatch'', ''SubagentDispatchRequest''),
      (''_echo_agent/subagent/await'', ''SubagentAwaitRequest''),
      (''_echo_agent/subagent/control'', ''SubagentControlRequest''),
      (''_echo_agent/extension/register'', ''ExtensionRegisterRequest''),
      (''_echo_agent/extension/unregister'', ''ExtensionUnregisterRequest''),
      (''_echo_agent/extension/invoke'', ''ExtensionInvokeCall''),
      (''_echo_agent/extension/cancel'', ''ExtensionCancelNotice''),
      (''_echo_agent/extension/stream'', ''ExtensionStreamEvent'')]"

definition result_table :: "(string \<times> string) list" where
  "result_table =
     [(''_echo_agent/agent/create'', ''AgentCreateResponse''),
      (''_echo_agent/agent/describe'', ''AgentDescribeResponse''),
      (''_echo_agent/agent/close'', ''AgentCloseResponse''),
      (''_echo_agent/session/create'', ''SessionCreateResponse''),
      (''_echo_agent/session/load'', ''SessionLoadResponse''),
      (''_echo_agent/session/close'', ''SessionCloseResponse''),
      (''_echo_agent/run/start'', ''RunStartResponse''),
      (''_echo_agent/run/get'', ''RunGetResponse''),
      (''_echo_agent/run/wait'', ''RunWaitResponse''),
      (''_echo_agent/run/cancel'', ''RunCancelResponse''),
      (''_echo_agent/run/steer'', ''RunSteerResponse''),
      (''_echo_agent/run/replay'', ''ReplayResponse''),
      (''_echo_agent/task/create'', ''TaskCreateResponse''),
      (''_echo_agent/task/update'', ''TaskUpdateResponse''),
      (''_echo_agent/task/list'', ''TaskListResponse''),
      (''_echo_agent/task/execute'', ''TaskExecuteResponse''),
      (''_echo_agent/task/control'', ''TaskControlResponse''),
      (''_echo_agent/subagent/dispatch'', ''SubagentDispatchResponse''),
      (''_echo_agent/subagent/await'', ''SubagentAwaitResponse''),
      (''_echo_agent/subagent/control'', ''SubagentControlResponse''),
      (''_echo_agent/extension/register'', ''ExtensionRegisterResponse''),
      (''_echo_agent/extension/unregister'', ''ExtensionUnregisterResponse''),
      (''_echo_agent/extension/invoke'', ''ExtensionInvokeOutcome'')]"

definition params_schema :: "string \<Rightarrow> string" where
  "params_schema name =
     (case map_of params_table name of
        Some schema \<Rightarrow> schema
      | None \<Rightarrow> if name \<in> set feature_operation_methods then ''FeatureOperationRequest'' else [])"

text \<open>Notifications, and names outside the table, have no result schema.\<close>

definition result_schema :: "string \<Rightarrow> string option" where
  "result_schema name =
     (case map_of result_table name of
        Some schema \<Rightarrow> Some schema
      | None \<Rightarrow> if name \<in> set feature_operation_methods then Some ''FeatureOperationResponse'' else None)"

definition error_schema :: "method_descriptor \<Rightarrow> string option" where
  "error_schema m =
     (if md_direction m = Request \<or> md_direction m = ReverseRequest then Some ''EchoSdkError'' else None)"

section \<open>The catalog\<close>

definition method_catalog :: "method_descriptor list" where
  "method_catalog =
     [method ''_echo_agent/agent/create'' Request AgentLifecycle
        ''Construct an agent instance from a typed config; framework validates.'',
      method ''_echo_agent/agent/describe'' Request AgentLifecycle
        ''Capability snapshot and immutable construction facts of an agent.'',
      method ''_echo_agent/agent/close'' Request AgentLifecycle
        ''Release an agent; in-flight runs settle via framework semantics.'',
      method ''_echo_agent/session/create'' Request SessionHandles
        ''Create an extension session handle on an agent.'',
      method ''_echo_agent/session/load'' Request SessionHandles
        ''Resume a persisted session by framework identity.'',
      method ''_echo_agent/session/close'' Request SessionHandles
        ''Release a session handle; idempotent.'',
      method ''_echo_agent/run/start'' Request Runs
        ''Start a chat/execute run; returns run handle and first event.'',
      method ''_echo_agent/run/get'' Request Runs
        ''Snapshot run status, last sequence and settled terminal/receipt.'',
      method ''_echo_agent/run/wait'' Request Runs
        ''Bounded wait for the single authoritative terminal.'',
      method ''_echo_agent/run/cancel'' Request Runs
        ''Request cancellation; framework CAS decides the unique outcome.'',
      method ''_echo_agent/run/steer'' Request Runs
        ''Mid-flight steering on supporting runs.'',
      method ''_echo_agent/run/replay'' Request EventReplayCap
        ''Bounded event replay strictly after a cursor; gap-aware.'',
      method ''_echo_agent/event'' HostNotification Runs
        ''Full EventEnvelope notification for accepted framework events.'',
      method ''_echo_agent/event/ack'' ClientNotification Runs
        ''Client acknowledgement cursor that retires outstanding live events.'',
      method ''_echo_agent/gap'' HostNotification EventReplayCap
        ''Retention-floor breach notice with snapshot watermark.'',
      method ''_echo_agent/task/create'' Request TaskGraph
        ''Create a PlanTask in a revisioned TaskRun graph.'',
      method ''_echo_agent/task/update'' Request TaskGraph
        ''Patch a task at an expected revision (optimistic concurrency).'',
      method ''_echo_agent/task/list'' Request TaskGraph
        ''List task identity/status/revision summaries of a TaskRun.'',
      method ''_echo_agent/task/execute'' Request TaskGraph
        ''Drive one PlanTask through the framework executor.'',
      method ''_echo_agent/task/control'' Request TaskGraph
        ''Pause/resume/cancel a task via the framework service.'',
      method ''_echo_agent/subagent/dispatch'' Request Subagents
        ''Dispatch a subagent execution; framework scheduler owns it.'',
      method ''_echo_agent/subagent/await'' Request Subagents
        ''Bounded wait for a subagent result.'',
      method ''_echo_agent/subagent/control'' Request Subagents
        ''Control verbs for a running subagent.'',
      method ''_echo_agent/extension/register'' Request ExtensionBridge
        ''Register a host-language implementation of a public trait.'',
      method ''_echo_agent/extension/unregister'' Request ExtensionBridge
        ''Release a registered extension; idempotent.'',
      method ''_echo_agent/extension/invoke'' ReverseRequest ExtensionBridge
        ''Host -> SDK reverse call into a registered implementation.'',
      method ''_echo_agent/extension/cancel'' HostNotification ExtensionBridge
        ''Host -> SDK cancellation notice for an in-flight invocation.'',
      method ''_echo_agent/extension/stream'' ClientNotification ExtensionBridge
        ''Chunk or terminal event for a reverse-callback stream.'',
      method ''_echo_agent/structured_output/validate'' Request StructuredOutput
        ''Validate a structured-output contract against the facade schema.'',
      method ''_echo_agent/memory/op'' Request FeatureSurfaces
        ''Memory/conversation/compression operations over the Store authority.'',
      method ''_echo_agent/workflow/op'' Request FeatureSurfaces
        ''Workflow definition/execution/checkpoint operations.'',
      method ''_echo_agent/state/op'' Request FeatureSurfaces
        ''RuntimeStateStore/EventJournal operations (checkpoint/sequence/recovery).'',
      method ''_echo_agent/delivery/op'' Request FeatureSurfaces
        ''DeliveryLedger claim/settlement/recovery operations.'',
      method ''_echo_agent/trace/op'' Request FeatureSurfaces
        ''RunStore/TraceAnalyzer query and analysis operations.'',
      method ''_echo_agent/eval/op'' Request FeatureSurfaces
        ''Eval runner/report/comparator operations (feature: eval).'',
      method ''_echo_agent/improve/op'' Request FeatureSurfaces
        ''Improvement loop trajectory/critique operations (feature: improve).'',
      method ''_echo_agent/permission/op'' Request FeatureSurfaces
        ''Session-owned PermissionService checks, rules and approval cache operations.'',
      method ''_echo_agent/mcp/op'' Request FeatureSurfaces
        ''MCP manager lifecycle/request operations (feature: mcp).'',
      method ''_echo_agent/channels/op'' Request FeatureSurfaces
        ''Channel manager/session operations (feature: channels).'',
      method ''_echo_agent/telemetry/op'' Request FeatureSurfaces
        ''Telemetry/skill-telemetry operations (feature: telemetry).'',
      method ''_echo_agent/topology/op'' Request FeatureSurfaces
        ''Topology tracker operations (feature: topology).'',
      method ''_echo_agent/web/op'' Request FeatureSurfaces
        ''Web tool family operations (feature: web).'',
      method ''_echo_agent/files/op'' Request FeatureSurfaces
        ''File tool family operations (feature: files).'',
      method ''_echo_agent/shell/op'' Request FeatureSurfaces
        ''Shell tool family operations (feature: shell).'',
      method ''_echo_agent/git/op'' Request FeatureSurfaces
        ''Git tool family operations (feature: git).'',
      method ''_echo_agent/database/op'' Request FeatureSurfaces
        ''Database tool family operations (feature: database).'',
      method ''_echo_agent/rag/op'' Request FeatureSurfaces
        ''RAG tool family operations (feature: rag).'',
      method ''_echo_agent/chart/op'' Request FeatureSurfaces
        ''Chart tool family operations (feature: chart).'',
      method ''_echo_agent/media/op'' Request FeatureSurfaces
        ''Media tool family operations (feature: media).'',
      method ''_echo_agent/data/op'' Request FeatureSurfaces
        ''Data tool family operations (feature: data).'',
      method ''_echo_agent/statistics/op'' Request FeatureSurfaces
        ''Statistics tool family operations (feature: statistics).'',
      method ''_echo_agent/research/op'' Request FeatureSurfaces
        ''Research tool family operations (feature: research).'',
      method ''_echo_agent/content-guard/op'' Request FeatureSurfaces
        ''Content guard operations (feature: content-guard).'',
      method ''_echo_agent/project-rules/op'' Request FeatureSurfaces
        ''Project rules resolution operations (feature: project-rules).'',
      method ''_echo_agent/testing/op'' Request FeatureSurfaces
        ''Testing mock/fixture operations (feature: testing).'',
      method ''_echo_agent/facade/invoke'' Request FeatureSurfaces
        ''Invoke one manifest-identified facade operation with typed wire values.'']"

section \<open>Validation\<close>

definition starts_with :: "string \<Rightarrow> string \<Rightarrow> bool" where
  "starts_with s p = (take (length p) s = p)"

definition is_notification :: "direction \<Rightarrow> bool" where
  "is_notification d = (d = ClientNotification \<or> d = HostNotification)"

text \<open>The loop over the catalog; \<open>seen\<close> are the names met so far, \<open>official\<close> the standard ones.\<close>

fun catalog_problems :: "string list \<Rightarrow> string list \<Rightarrow> method_descriptor list \<Rightarrow> string list" where
  "catalog_problems official seen [] = []"
| "catalog_problems official seen (m # ms) =
     (let name = md_name m; note = is_notification (md_direction m)
      in problem_if (\<not> starts_with name extension_namespace)
           (''method '' @ name @ '' is outside the extension namespace'') @
         problem_if (\<not> starts_with name ''_'')
           (''method '' @ name @ '' must start with an underscore'') @
         problem_if (name \<in> set official)
           (''method '' @ name @ '' collides with a standard ACP method'') @
         problem_if (params_schema name = []) (''method '' @ name @ '' has no params schema'') @
         problem_if (note \<and> result_schema name \<noteq> None)
           (''notification '' @ name @ '' must not declare a result schema'') @
         problem_if (\<not> note \<and> result_schema name = None)
           (''request '' @ name @ '' has no result schema'') @
         problem_if (name \<in> set seen) (''duplicate catalog entry '' @ name) @
         catalog_problems official (seen @ [name]) ms)"

definition validate_catalog :: "string list \<Rightarrow> method_descriptor list \<Rightarrow> string list" where
  "validate_catalog official catalog = catalog_problems official [] catalog"

section \<open>What the validation means\<close>

lemma catalog_problems_Nil:
  "catalog_problems official seen ms = [] \<longleftrightarrow>
     (\<forall>m\<in>set ms. starts_with (md_name m) extension_namespace \<and> starts_with (md_name m) ''_'' \<and>
        md_name m \<notin> set official \<and> params_schema (md_name m) \<noteq> [] \<and>
        (result_schema (md_name m) = None \<longleftrightarrow> is_notification (md_direction m))) \<and>
     distinct (map md_name ms) \<and> set (map md_name ms) \<inter> set seen = {}"
  by (induction ms arbitrary: seen) (auto simp: Let_def)

lemma validate_catalog_Nil:
  "validate_catalog official ms = [] \<longleftrightarrow>
     (\<forall>m\<in>set ms. starts_with (md_name m) extension_namespace \<and> starts_with (md_name m) ''_'' \<and>
        md_name m \<notin> set official \<and> params_schema (md_name m) \<noteq> [] \<and>
        (result_schema (md_name m) = None \<longleftrightarrow> is_notification (md_direction m))) \<and>
     distinct (map md_name ms)"
  by (simp add: validate_catalog_def catalog_problems_Nil)

text \<open>The catalog evaluated: its names, their prefixes and their schemas.\<close>

lemma catalog_names:
  "list_all (\<lambda>m. starts_with (md_name m) ''_'' \<and> starts_with (md_name m) extension_namespace) method_catalog"
  by (simp add: method_catalog_def starts_with_def extension_namespace_def)

lemma catalog_distinct: "distinct (map md_name method_catalog)"
  by (simp add: method_catalog_def)

lemma catalog_schemas:
  "list_all (\<lambda>m. params_schema (md_name m) \<noteq> [] \<and>
     (result_schema (md_name m) = None \<longleftrightarrow> is_notification (md_direction m))) method_catalog"
  by code_simp

text \<open>So the catalog validates as soon as no standard method is named like a vendor method.\<close>

lemma catalog_valid:
  assumes "list_all (\<lambda>name. \<not> starts_with name ''_'') official"
  shows "validate_catalog official method_catalog = []"
  using assms catalog_names catalog_distinct catalog_schemas
  by (auto simp: validate_catalog_Nil list_all_iff)

end
