(* ===== verification/Host_Config.thy ===== *)
theory Host_Config
  imports Prelude Wire_Int Extension_Wire
begin

text \<open>
  Configuration and command line of the Host (\<open>echo-sdk-host/src/config.rs\<close>): the resource limits
  and their validation, the bounded reading of the configuration file, the validation that prepares
  the model client, and the command-line grammar. The framework's configuration type is seen through
  the accessors the Host calls; the JSON decoder, the process environment and the construction of the
  model client are arguments.
\<close>

section \<open>Errors\<close>

datatype host_error =
    HostArgument string
  | HostConfigError string
  | HostConfigFile string string
  | HostRuntime string

section \<open>Resource limits\<close>

record profile_limits =
  max_frame_bytes :: u64
  max_event_bytes :: usize
  max_outstanding_live_events :: usize
  max_replay_events :: usize
  max_replay_bytes :: usize
  max_open_handles :: usize
  max_registered_extensions :: usize
  limit_extension_descriptor_bytes :: usize
  limit_extension_payload_bytes :: usize
  limit_extension_stream_bytes :: usize
  max_extension_invocations :: usize
  max_callback_concurrency :: usize
  callback_timeout_secs :: u64
  shutdown_timeout_secs :: u64
  max_facade_resources :: usize
  max_facade_streams :: usize
  max_facade_page_items :: usize
  max_facade_operation_args :: usize

definition default_limits :: profile_limits where
  "default_limits =
     \<lparr>max_frame_bytes = 1024 * 1024, max_event_bytes = 1024 * 1024,
      max_outstanding_live_events = 128, max_replay_events = 512,
      max_replay_bytes = 8 * 1024 * 1024, max_open_handles = 512,
      max_registered_extensions = 64, limit_extension_descriptor_bytes = 65536,
      limit_extension_payload_bytes = 1048576, limit_extension_stream_bytes = 262144,
      max_extension_invocations = 16, max_callback_concurrency = 8,
      callback_timeout_secs = 30, shutdown_timeout_secs = 5,
      max_facade_resources = 256, max_facade_streams = 128,
      max_facade_page_items = 512, max_facade_operation_args = 64\<rparr>"

definition max_extension_payload_bytes :: nat where "max_extension_payload_bytes = 1048576"
definition max_extension_stream_chunk_bytes :: nat where "max_extension_stream_chunk_bytes = 262144"

definition u32_max_usize :: usize where "u32_max_usize = 4294967295"

definition some_limit_zero :: "profile_limits \<Rightarrow> bool" where
  "some_limit_zero l =
     (max_frame_bytes l = 0 \<or> max_event_bytes l = 0 \<or> max_outstanding_live_events l = 0 \<or>
      max_replay_events l = 0 \<or> max_replay_bytes l = 0 \<or> max_open_handles l = 0 \<or>
      max_registered_extensions l = 0 \<or> limit_extension_descriptor_bytes l = 0 \<or>
      limit_extension_payload_bytes l = 0 \<or> limit_extension_stream_bytes l = 0 \<or>
      max_extension_invocations l = 0 \<or> max_callback_concurrency l = 0 \<or>
      callback_timeout_secs l = 0 \<or> shutdown_timeout_secs l = 0 \<or>
      max_facade_resources l = 0 \<or> max_facade_streams l = 0 \<or>
      max_facade_page_items l = 0 \<or> max_facade_operation_args l = 0 \<or>
      u32_max_usize < max_callback_concurrency l)"

text \<open>The second check is compiled with the core profile, which the development models.\<close>

definition validate_limits :: "profile_limits \<Rightarrow> host_error + unit" where
  "validate_limits l =
     and_then (reject_if (some_limit_zero l)
       (HostConfigError ''sdk_profile.limits values must all be positive'')) (\<lambda>_.
     reject_if
       (max_extension_descriptor_bytes < unat (limit_extension_descriptor_bytes l) \<or>
        max_extension_payload_bytes < unat (limit_extension_payload_bytes l) \<or>
        max_extension_stream_chunk_bytes < unat (limit_extension_stream_bytes l))
       (HostConfigError ''sdk_profile extension limits exceed the protocol bounds''))"

record profile_config =
  pc_state_root :: string
  pc_limits :: profile_limits

text \<open>\<open>Path::is_absolute\<close> on Unix.\<close>

definition is_absolute :: "string \<Rightarrow> bool" where
  "is_absolute path = (take 1 path = ''/'')"

definition validate_profile :: "profile_config \<Rightarrow> host_error + unit" where
  "validate_profile p =
     and_then (reject_if (\<not> is_absolute (pc_state_root p))
       (HostConfigError ''sdk_profile.state_root must be an absolute path'')) (\<lambda>_.
     validate_limits (pc_limits p))"

section \<open>The framework configuration, through the accessors the Host calls\<close>

text \<open>
  \<open>fc_token\<close> is what \<open>get_auth_token()\<close> returns and the field \<open>auth_token\<close> that
  \<open>validate_with_env\<close> clears; \<open>fc_base_url\<close> and \<open>fc_model\<close> are \<open>get_base_url()\<close> and
  \<open>get_model_name()\<close>.
\<close>

record 'p framework_config =
  fc_name :: string
  fc_system_prompt :: string
  fc_max_iterations :: usize
  fc_enable_tools :: bool
  fc_human_in_loop :: bool
  fc_api_protocol :: "'p option"
  fc_base_url :: "string option"
  fc_model :: string
  fc_provider :: string
  fc_token :: "string option"

record 'p host_config =
  hc_schema_version :: u32
  hc_default_agent :: "'p framework_config"
  hc_api_key_env :: "string option"
  hc_sdk_profile :: "profile_config option"

definition host_config_schema_version :: u32 where "host_config_schema_version = 1"
definition max_host_config_bytes :: u64 where "max_host_config_bytes = 1024 * 1024"

text \<open>
  The compiled features \<open>sdk-extension-bridge\<close> decides whether a human in the loop needs a later
  callback profile; it is the argument \<open>bridge\<close>.
\<close>

definition validate_agent_settings :: "bool \<Rightarrow> 'p framework_config \<Rightarrow> host_error + unit" where
  "validate_agent_settings bridge c =
     and_then (reject_if (blank (fc_name c))
       (HostConfigError ''default_agent.agent.name must not be empty'')) (\<lambda>_.
     and_then (reject_if (blank (fc_system_prompt c))
       (HostConfigError ''default_agent.agent.system_prompt must not be empty'')) (\<lambda>_.
     and_then (reject_if (fc_max_iterations c = 0)
       (HostConfigError ''default_agent.agent.max_iterations must be positive'')) (\<lambda>_.
     and_then (reject_if (\<not> fc_enable_tools c)
       (HostConfigError ''default_agent.agent.enable_tools must be true for ACP stdio MCP support'')) (\<lambda>_.
     reject_if (\<not> bridge \<and> fc_human_in_loop c)
       (HostConfigError ''default_agent.agent.enable_human_in_loop requires a later ACP callback profile'')))))"

record ('p, 'c) prepared_config =
  pr_framework :: "'p framework_config"
  pr_client :: 'c
  pr_sdk_profile :: "profile_config option"

text \<open>
  The credential: an inline token, else the named environment variable, else the empty string.
  \<open>read_env\<close> reads one variable.
\<close>

definition resolve_credential ::
  "(string \<Rightarrow> string + string) \<Rightarrow> string option \<Rightarrow> string option \<Rightarrow> host_error + string" where
  "resolve_credential read_env inline env_name =
     (case inline of
        Some token \<Rightarrow> Ok token
      | None \<Rightarrow>
          (case env_name of
             Some name \<Rightarrow>
               map_err (\<lambda>_. HostConfigError (''credential environment variable '' @ name @ '' is unavailable''))
                 (read_env name)
           | None \<Rightarrow> Ok []))"

text \<open>
  \<open>build_client\<close> stands for \<open>LlmConfig::for_provider\<close> followed by \<open>build_client\<close>, applied to the
  provider, base URL, key, model and protocol.
\<close>

definition validate_with_env ::
  "bool \<Rightarrow> (string \<Rightarrow> string \<Rightarrow> string \<Rightarrow> string \<Rightarrow> 'p \<Rightarrow> string + 'c) \<Rightarrow>
     (string \<Rightarrow> string + string) \<Rightarrow> 'p host_config \<Rightarrow> host_error + ('p, 'c) prepared_config" where
  "validate_with_env bridge build_client read_env c =
     and_then (reject_if (hc_schema_version c \<noteq> host_config_schema_version)
       (HostConfigError (''unsupported Host config schema_version '' @
          show_nat (unat (hc_schema_version c)) @ ''; expected '' @
          show_nat (unat host_config_schema_version)))) (\<lambda>_.
     and_then (case hc_sdk_profile c of None \<Rightarrow> Ok () | Some p \<Rightarrow> validate_profile p) (\<lambda>_.
     and_then (validate_agent_settings bridge (hc_default_agent c)) (\<lambda>_.
     and_then (ok_or (fc_api_protocol (hc_default_agent c))
       (HostConfigError ''default_agent.model.api_protocol is required'')) (\<lambda>protocol.
     and_then (ok_or (fc_base_url (hc_default_agent c))
       (HostConfigError ''default_agent.model.base_url is required'')) (\<lambda>base_url.
     and_then (reject_if (blank (fc_model (hc_default_agent c)))
       (HostConfigError ''default_agent.model.name must not be empty'')) (\<lambda>_.
     and_then (reject_if (trim (fc_provider (hc_default_agent c)) = [])
       (HostConfigError ''default_agent.model.provider must not be empty'')) (\<lambda>_.
     (let inline = fc_token (hc_default_agent c);
          env_name = map_option trim (hc_api_key_env c)
      in and_then (reject_if (env_name = Some [])
           (HostConfigError ''api_key_env must not be empty when provided'')) (\<lambda>_.
         and_then (reject_if (inline \<noteq> None \<and> env_name \<noteq> None)
           (HostConfigError ''default_agent.model.auth_token and api_key_env are mutually exclusive'')) (\<lambda>_.
         and_then (resolve_credential read_env inline env_name) (\<lambda>api_key.
         and_then (map_err HostConfigError
           (build_client (trim (fc_provider (hc_default_agent c))) base_url api_key
              (fc_model (hc_default_agent c)) protocol)) (\<lambda>client.
         Ok \<lparr>pr_framework = (hc_default_agent c)\<lparr>fc_token := None\<rparr>, pr_client = client,
             pr_sdk_profile = hc_sdk_profile c\<rparr>))))))))))))"

section \<open>Reading the configuration file\<close>

text \<open>
  A reader is the bytes it yields and then the error it ends with, if any. \<open>take(n).read_to_end\<close>
  stops asking the reader once it has \<open>n\<close> bytes.
\<close>

type_synonym reader = "u8 list \<times> string option"

definition read_to_end :: "nat \<Rightarrow> reader \<Rightarrow> string + u8 list" where
  "read_to_end n r =
     (if n \<le> length (fst r) then Ok (take n (fst r))
      else case snd r of Some e \<Rightarrow> Err e | None \<Rightarrow> Ok (fst r))"

definition config_too_long :: host_error where
  "config_too_long = HostConfigError (''Host config exceeds the '' @
     show_nat (unat max_host_config_bytes) @ '' byte limit'')"

definition read_bounded :: "reader \<Rightarrow> string \<Rightarrow> host_error + u8 list" where
  "read_bounded r path =
     and_then (map_err (HostConfigFile path)
       (read_to_end (unat (saturating_add max_host_config_bytes 1)) r)) (\<lambda>bytes.
     and_then (reject_if (unat max_host_config_bytes < length bytes) config_too_long) (\<lambda>_.
     Ok bytes))"

record config_file =
  cf_metadata :: "string + bool \<times> u64"
  cf_reader :: reader

text \<open>\<open>open_file\<close> is \<open>File::open\<close>, \<open>decode\<close> is \<open>serde_json::from_slice\<close>.\<close>

definition from_path ::
  "(string \<Rightarrow> string + config_file) \<Rightarrow> (u8 list \<Rightarrow> string + 'p host_config) \<Rightarrow> string \<Rightarrow>
     host_error + 'p host_config" where
  "from_path open_file decode path =
     and_then (map_err (HostConfigFile path) (open_file path)) (\<lambda>file.
     and_then (map_err (HostConfigFile path) (cf_metadata file)) (\<lambda>meta.
     and_then (reject_if (\<not> fst meta)
       (HostConfigError ''Host config path must be a regular file'')) (\<lambda>_.
     and_then (reject_if (max_host_config_bytes < snd meta) config_too_long) (\<lambda>_.
     and_then (read_bounded (cf_reader file) path) (\<lambda>bytes.
     map_err (\<lambda>e. HostConfigError (''invalid Host config JSON: '' @ e)) (decode bytes))))))"

section \<open>Command line\<close>

datatype host_command = RunCommand string | CheckConfig string | Help | Version

fun parse_loop :: "string list \<Rightarrow> string option \<Rightarrow> bool \<Rightarrow> host_error + host_command" where
  "parse_loop [] config check =
     and_then (ok_or config (HostArgument ''--config <path> is required for Host startup'')) (\<lambda>c.
       Ok (if check then CheckConfig c else RunCommand c))"
| "parse_loop (a # rest) config check =
     (if a = ''--config'' then
        (if config \<noteq> None then Err (HostArgument ''--config may appear only once'')
         else case rest of
                [] \<Rightarrow> Err (HostArgument ''--config requires a path'')
              | value # rest' \<Rightarrow> parse_loop rest' (Some value) check)
      else if a = ''--check-config'' then parse_loop rest config True
      else if a = ''--help'' \<or> a = ''-h'' then Ok Help
      else if a = ''--version'' \<or> a = ''-V'' then Ok Version
      else Err (HostArgument (''unknown Host argument: '' @ a)))"

definition parse_args :: "string list \<Rightarrow> host_error + host_command" where
  "parse_args args = parse_loop args None False"

section \<open>Lemmas\<close>

lemma validate_limits_Ok:
  "validate_limits l = Ok u \<longleftrightarrow>
     \<not> some_limit_zero l \<and>
     unat (limit_extension_descriptor_bytes l) \<le> max_extension_descriptor_bytes \<and>
     unat (limit_extension_payload_bytes l) \<le> max_extension_payload_bytes \<and>
     unat (limit_extension_stream_bytes l) \<le> max_extension_stream_chunk_bytes"
  by (auto simp: validate_limits_def res_simps not_less)

lemma default_limits_validate [simp]: "validate_limits default_limits = Ok ()"
  by (simp add: validate_limits_Ok some_limit_zero_def default_limits_def u32_max_usize_def
      max_extension_descriptor_bytes_def max_extension_payload_bytes_def
      max_extension_stream_chunk_bytes_def)

text \<open>
  What a prepared configuration guarantees: the limits are valid, the credential came from exactly
  one place, and it is no longer in the framework configuration that is kept.
\<close>

lemma validate_with_env_Ok:
  assumes "validate_with_env bridge build read_env c = Ok p"
  shows "hc_schema_version c = host_config_schema_version" and
    "pr_sdk_profile p = hc_sdk_profile c" and
    "\<forall>profile. hc_sdk_profile c = Some profile \<longrightarrow> validate_profile profile = Ok ()" and
    "pr_framework p = (hc_default_agent c)\<lparr>fc_token := None\<rparr>" and
    "fc_token (hc_default_agent c) = None \<or> hc_api_key_env c = None" and
    "\<exists>protocol base_url key.
       fc_api_protocol (hc_default_agent c) = Some protocol \<and>
       fc_base_url (hc_default_agent c) = Some base_url \<and>
       resolve_credential read_env (fc_token (hc_default_agent c))
         (map_option trim (hc_api_key_env c)) = Ok key \<and>
       build (trim (fc_provider (hc_default_agent c))) base_url key
         (fc_model (hc_default_agent c)) protocol = Ok (pr_client p)"
  using assms
  by (auto simp: validate_with_env_def res_simps Let_def split: option.splits)

text \<open>Reading stops at the limit: what is accepted is the whole file, and it is within the bound.\<close>

lemma read_bounded_Ok:
  "read_bounded r path = Ok bytes \<Longrightarrow>
     bytes = fst r \<and> snd r = None \<and> length bytes \<le> unat max_host_config_bytes"
  by (auto simp: read_bounded_def read_to_end_def res_simps u64_arith max_host_config_bytes_def
      split: if_splits option.splits)

end
