(* ===== verification/Advertisement.thy ===== *)
theory Advertisement
  imports Catalog Host_Config Wire_Value
begin

text \<open>
  What a Host advertises and when a connection becomes extended: the compiled features
  (\<open>echo-sdk-host/src/features.rs\<close>), the advertisement built from them and from the configured limits
  (\<open>build_advertisement\<close> of \<open>core_profile/state.rs\<close>), and the negotiation of a client hello
  (\<open>negotiate_hello\<close> of \<open>core_profile/mod.rs\<close>). A Cargo feature is compiled or not: the predicate
  \<open>cfg\<close> is an argument, and so are the digest of the contract, the embedded source contract and
  the decoder of the hello.
\<close>

section \<open>Compiled features\<close>

definition framework_feature_table :: "(string \<times> string) list" where
  "framework_feature_table =
     [(''framework-acp'', ''acp''), (''framework-mcp'', ''mcp''),
      (''framework-human-loop'', ''human-loop''), (''framework-subagent'', ''subagent''),
      (''framework-sqlite'', ''sqlite''), (''framework-telemetry'', ''telemetry''),
      (''framework-channels'', ''channels''), (''framework-testing'', ''testing''),
      (''framework-eval'', ''eval''), (''framework-improve'', ''improve''),
      (''framework-web'', ''web''), (''framework-files'', ''files''),
      (''framework-shell'', ''shell''), (''framework-git'', ''git''),
      (''framework-database'', ''database''), (''framework-rag'', ''rag''),
      (''framework-chart'', ''chart''), (''framework-media'', ''media''),
      (''framework-data'', ''data''), (''framework-statistics'', ''statistics''),
      (''framework-research'', ''research''), (''framework-content-guard'', ''content-guard''),
      (''framework-project-rules'', ''project-rules''), (''framework-topology'', ''topology'')]"

type_synonym cfg = "string \<Rightarrow> bool"

definition compiled_leaf_features :: "cfg \<Rightarrow> string list" where
  "compiled_leaf_features cfg = sorted_dedup (map snd (filter (cfg \<circ> fst) framework_feature_table))"

text \<open>The families that follow a feature of their own, in the order the code pushes them.\<close>

definition family_table :: "(string \<times> string) list" where
  "family_table =
     [(''framework-eval'', ''eval''), (''framework-improve'', ''improve''),
      (''framework-human-loop'', ''permission''),
      (''framework-web'', ''web''), (''framework-files'', ''files''), (''framework-shell'', ''shell''),
      (''framework-git'', ''git''), (''framework-database'', ''database''), (''framework-rag'', ''rag''),
      (''framework-chart'', ''chart''), (''framework-media'', ''media''), (''framework-data'', ''data''),
      (''framework-statistics'', ''statistics''), (''framework-research'', ''research''),
      (''framework-content-guard'', ''content_guard''),
      (''framework-project-rules'', ''project_rules''), (''framework-mcp'', ''mcp''),
      (''framework-topology'', ''topology''), (''framework-telemetry'', ''telemetry'')]"

definition compiled_facade_families :: "cfg \<Rightarrow> string list" where
  "compiled_facade_families cfg =
     sort ([''delivery'', ''memory'', ''state'', ''trace'', ''workflow''] @
       map snd (filter (cfg \<circ> fst) family_table) @
       (if cfg ''framework-channels'' \<and> cfg ''sdk-extension-bridge'' then [''channels''] else []))"

definition facade_runtime_compiled :: "cfg \<Rightarrow> bool" where
  "facade_runtime_compiled cfg = cfg ''sdk-facade-adapters''"

section \<open>The advertisement\<close>

definition optional_capability :: "extension_capability \<Rightarrow> capability_declaration" where
  "optional_capability c = \<lparr>cd_capability = c, cd_required = False\<rparr>"

definition compiled_capabilities :: "cfg \<Rightarrow> extension_capability list" where
  "compiled_capabilities cfg =
     [AgentLifecycle, SessionHandles, Runs, EventReplayCap] @
     (if cfg ''sdk-extension-bridge'' then [ExtensionBridge] else []) @
     (if cfg ''sdk-facade-adapters'' then [FeatureSurfaces] else []) @
     (if cfg ''sdk-facade-adapters'' then [TaskGraph] else []) @
     (if cfg ''sdk-facade-adapters'' \<and> cfg ''framework-subagent'' then [Subagents] else []) @
     (if cfg ''sdk-facade-adapters'' then [StructuredOutput] else [])"

text \<open>\<open>usize\<close> to \<open>u32\<close>, saturating; \<open>usize\<close> to \<open>u64\<close> is the identity on the targets of the Host.\<close>

definition to_u32_or_max :: "usize \<Rightarrow> u32" where
  "to_u32_or_max n = (if unat n < 2 ^ 32 then ucast n else - 1)"

definition echo_limits_of :: "profile_limits \<Rightarrow> echo_limits" where
  "echo_limits_of l =
     \<lparr>el_message_bytes = from_u64 (max_frame_bytes l),
      el_stream_buffer_events = from_u64 (max_outstanding_live_events l),
      el_callback_concurrency = to_u32_or_max (max_callback_concurrency l),
      el_callback_timeout = \<lparr>dur_seconds = from_u64 (callback_timeout_secs l), dur_nanos = 0\<rparr>,
      el_replay_events = from_u64 (max_replay_events l),
      el_structured_output_bytes = from_u64 262144,
      el_outstanding_live_events = from_u64 (max_outstanding_live_events l),
      el_stream_buffer_bytes = from_u64 (saturating_mul (max_event_bytes l) (max_outstanding_live_events l)),
      el_replay_bytes = from_u64 (max_replay_bytes l),
      el_open_handles = from_u64 (max_open_handles l),
      el_registered_extensions = from_u64 (max_registered_extensions l),
      el_extension_descriptor_bytes = from_u64 (limit_extension_descriptor_bytes l),
      el_extension_payload_bytes = from_u64 (limit_extension_payload_bytes l),
      el_extension_stream_bytes = from_u64 (limit_extension_stream_bytes l),
      el_inflight_extension_invocations = from_u64 (max_extension_invocations l),
      el_facade_resources = from_u64 (max_facade_resources l),
      el_facade_streams = from_u64 (max_facade_streams l),
      el_facade_page_items = from_u64 (max_facade_page_items l),
      el_facade_operation_args = from_u64 (max_facade_operation_args l)\<rparr>"

text \<open>\<open>value.get(key).and_then(Value::as_str)\<close>\<close>

fun get_text :: "string \<Rightarrow> json \<Rightarrow> string option" where
  "get_text key (JObject es) = (case map_of es key of Some (JString s) \<Rightarrow> Some s | _ \<Rightarrow> None)"
| "get_text key _ = None"

definition build_advertisement ::
  "cfg \<Rightarrow> string \<Rightarrow> string + json \<Rightarrow> profile_limits \<Rightarrow> host_error + echo_capability" where
  "build_advertisement cfg contract_digest source_contract l =
     and_then (map_err (\<lambda>e. HostConfigError (''embedded source contract is invalid: '' @ e))
       source_contract) (\<lambda>source.
     and_then (ok_or (get_text ''aggregate_digest'' source)
       (HostConfigError ''source contract missing aggregate_digest'')) (\<lambda>source_digest.
     (let adv = \<lparr>ec_version = extension_protocol_version, ec_contract_digest = contract_digest,
                 ec_source_digest = source_digest, ec_features = compiled_leaf_features cfg,
                 ec_capabilities = map optional_capability (compiled_capabilities cfg),
                 ec_limits = echo_limits_of l\<rparr>;
          problems = capability_problems adv
      in if problems \<noteq> [] then
           Err (HostConfigError (''core profile advertisement failed validation: '' @ join_texts ''; '' problems))
         else Ok adv)))"

section \<open>Negotiation of a connection\<close>

text \<open>\<open>parse_hello\<close> is \<open>EchoAgentClientHello::from_meta_value\<close>, the serde decoder.\<close>

definition negotiate_connection ::
  "(json \<Rightarrow> string + client_hello) \<Rightarrow> echo_capability \<Rightarrow> json \<Rightarrow> string + unit" where
  "negotiate_connection parse_hello adv hello =
     and_then (parse_hello hello) (\<lambda>parsed.
     (let shape = hello_problems parsed
      in and_then (reject_if (shape \<noteq> [])
           (''client hello failed shape validation: '' @ join_texts ''; '' shape)) (\<lambda>_.
         (let problems = negotiate_hello adv parsed
          in if problems = [] then Ok () else Err (join_texts ''; '' problems)))))"

section \<open>Lemmas\<close>

lemma distinct_compiled_capabilities [simp]: "distinct (compiled_capabilities cfg)"
  by (simp add: compiled_capabilities_def)

lemma declared_capabilities: "cd_capability \<circ> optional_capability = id"
  by (simp add: optional_capability_def comp_def id_def)

lemma to_u32_or_max_pos: "n \<noteq> 0 \<Longrightarrow> to_u32_or_max n \<noteq> 0"
proof -
  assume n: "n \<noteq> 0"
  show ?thesis
  proof (cases "unat n < 2 ^ 32")
    case True
    then have "unat (ucast n :: u32) = unat n" by (simp add: unsigned_ucast_eq take_bit_nat_eq_self)
    moreover have "unat n \<noteq> 0" using n by (simp add: unat_eq_zero)
    ultimately have "(ucast n :: u32) \<noteq> 0" by (metis unsigned_0)
    with True show ?thesis by (simp add: to_u32_or_max_def)
  next
    case False
    then show ?thesis by (simp add: to_u32_or_max_def)
  qed
qed

lemma saturating_mul_pos: "a \<noteq> 0 \<Longrightarrow> b \<noteq> 0 \<Longrightarrow> saturating_mul (a :: u64) b \<noteq> 0"
proof -
  assume ab: "a \<noteq> 0" "b \<noteq> 0"
  then have pos: "unat a * unat b \<noteq> 0" by (simp add: unat_eq_zero)
  show ?thesis
  proof (cases "unat a * unat b < 2 ^ 64")
    case True
    then have "unat (a * b) = unat a * unat b" by (simp add: unat_word_ariths)
    with pos have "a * b \<noteq> 0" by (metis unsigned_0)
    with True show ?thesis by (simp add: saturating_mul_def)
  next
    case False
    then show ?thesis by (simp add: saturating_mul_def)
  qed
qed

lemma named_limits_positive:
  assumes "validate_limits l = Ok u" and "v \<in> snd ` set (named_limits (echo_limits_of l))"
  shows "to_u64 v \<noteq> Some 0"
  using assms
  by (auto simp: validate_limits_Ok some_limit_zero_def named_limits_def echo_limits_of_def
      saturating_mul_pos)

lemma built_advertisement:
  assumes "validate_limits l = Ok ()" and "digest_is_valid contract"
    and "get_text ''aggregate_digest'' source = Some digest" and "digest_is_valid digest"
  shows "build_advertisement cfg contract (Ok source) l =
    Ok \<lparr>ec_version = extension_protocol_version, ec_contract_digest = contract,
        ec_source_digest = digest, ec_features = compiled_leaf_features cfg,
        ec_capabilities = map optional_capability (compiled_capabilities cfg),
        ec_limits = echo_limits_of l\<rparr>"
proof -
  have cap: "max_callback_concurrency l \<noteq> 0"
    using assms(1) by (simp add: validate_limits_Ok some_limit_zero_def)
  have "capability_problems \<lparr>ec_version = extension_protocol_version, ec_contract_digest = contract,
        ec_source_digest = digest, ec_features = compiled_leaf_features cfg,
        ec_capabilities = map optional_capability (compiled_capabilities cfg),
        ec_limits = echo_limits_of l\<rparr> = []"
    using assms named_limits_positive [OF assms(1)] to_u32_or_max_pos [OF cap]
    by (simp add: capability_problems_Nil compiled_leaf_features_def sorted_dedup_strict
        declared_capabilities echo_limits_of_def validate_duration_def nanos_per_second_def)
      (simp add: compiled_capabilities_def)
  then show ?thesis using assms(3) by (simp add: build_advertisement_def Let_def)
qed

text \<open>Every capability the Host can declare gates some method of the catalog.\<close>

lemma capability_has_methods: "\<exists>m\<in>set method_catalog. md_capability m = cap"
proof -
  have "list_all (\<lambda>c. list_ex (\<lambda>m. md_capability m = c) method_catalog)
      [AgentLifecycle, SessionHandles, Runs, EventReplayCap, TaskGraph, Subagents, ExtensionBridge,
       StructuredOutput, FeatureSurfaces]"
    by code_simp
  then have "list_ex (\<lambda>m. md_capability m = cap) method_catalog" by (cases cap) simp_all
  then show ?thesis by (simp add: list_ex_iff)
qed

section \<open>Properties\<close>

text \<open>C39: A Host whose configured limits validate always comes up with an advertisement, and that
  advertisement is well formed for every set of compiled features: it passes the shape check a client
  runs, its features are the compiled ones in strictly increasing order, no capability is declared
  twice, each declared capability gates a method of the catalog, and every limit reads back as a
  positive \<open>u64\<close>; the open-handle, replay and outstanding-event bounds are exactly the configured
  ones. A client built for the same contract that requires nothing else is accepted.\<close>

theorem advertisement_is_well_formed:
  assumes "validate_limits l = Ok ()" and "digest_is_valid contract"
    and "get_text ''aggregate_digest'' source = Some digest" and "digest_is_valid digest"
  shows "\<exists>adv. build_advertisement cfg contract (Ok source) l = Ok adv \<and>
    capability_problems adv = [] \<and>
    sorted_wrt (<) (ec_features adv) \<and>
    set (ec_features adv) = snd ` {row \<in> set framework_feature_table. cfg (fst row)} \<and>
    distinct (map cd_capability (ec_capabilities adv)) \<and>
    (\<forall>cap. declares adv cap \<longrightarrow> (\<exists>m\<in>set method_catalog. md_capability m = cap)) \<and>
    (\<forall>v\<in>snd ` set (named_limits (ec_limits adv)). \<exists>n. to_u64 v = Some n \<and> n \<noteq> 0) \<and>
    to_u64 (el_open_handles (ec_limits adv)) = Some (max_open_handles l) \<and>
    to_u64 (el_replay_events (ec_limits adv)) = Some (max_replay_events l) \<and>
    to_u64 (el_outstanding_live_events (ec_limits adv)) = Some (max_outstanding_live_events l) \<and>
    negotiate_hello adv \<lparr>ch_version = extension_protocol_version, ch_contract_digest = contract,
      ch_source_digest = digest, ch_features = [], ch_capabilities = []\<rparr> = []"
proof -
  have limits: "\<exists>n. to_u64 v = Some n \<and> n \<noteq> 0" if "v \<in> snd ` set (named_limits (echo_limits_of l))" for v
    using that named_limits_positive [OF assms(1) that]
    by (auto simp: named_limits_def echo_limits_of_def)
  show ?thesis
    using assms limits named_limits_positive [OF assms(1)] built_advertisement [OF assms, of cfg]
    by (auto simp: compiled_leaf_features_def sorted_dedup_strict declared_capabilities
        capability_has_methods negotiate_hello_Nil echo_limits_of_def
        build_advertisement_def Let_def split: if_splits)
qed

definition sample_digest :: string where
  "sample_digest = ''sha256:'' @ replicate 64 (CHR ''0'')"

lemma sample_digest_valid [simp]: "digest_is_valid sample_digest"
proof -
  have "strip_prefix ''sha256:'' sample_digest = Some (replicate 64 (CHR ''0''))"
    by (simp add: strip_prefix_Some sample_digest_def)
  then show ?thesis by (simp add: digest_is_valid_def list_all_iff is_ascii_hexdigit_def is_ascii_digit_def)
qed

definition sample_source :: json where
  "sample_source = JObject [(''aggregate_digest'', JString sample_digest)]"

theorem advertisement_is_well_formed_witness:
  "\<exists>adv. build_advertisement (\<lambda>_. True) sample_digest (Ok sample_source) default_limits = Ok adv \<and>
    to_u64 (el_open_handles (ec_limits adv)) = Some 512"
  using advertisement_is_well_formed [OF default_limits_validate sample_digest_valid,
      of sample_source sample_digest "\<lambda>_. True"]
  by (auto simp: sample_source_def default_limits_def)

text \<open>
  A hello that requires nothing is well formed: the comment of \<open>validate_shape\<close> lists a non-empty request
  among its checks, the code has no such check.
\<close>

lemma empty_hello_is_accepted:
  assumes "parse_hello hello = Ok h" and "ch_features h = []" and "ch_capabilities h = []"
    and "ch_version h = extension_protocol_version" and "ec_version adv = extension_protocol_version"
    and "digest_is_valid (ch_contract_digest h)" and "ch_contract_digest h = ec_contract_digest adv"
    and "digest_is_valid (ch_source_digest h)" and "ch_source_digest h = ec_source_digest adv"
  shows "negotiate_connection parse_hello adv hello = Ok ()"
  using assms by (simp add: negotiate_connection_def res_simps Let_def hello_problems_Nil negotiate_hello_Nil)

text \<open>C38: A connection becomes extended exactly when the client's hello decodes, is well formed and
  matches the advertisement: the same protocol version and digests, required features that are
  compiled in, listed in strictly increasing order, and required capabilities that are declared, each
  listed once. A hello that requires no feature and no capability qualifies. Every other hello is refused
  with a reason, so the connection stays standard.\<close>

theorem extended_mode_exactly_on_match:
  "negotiate_connection parse_hello adv hello = Ok () \<longleftrightarrow>
     (\<exists>h. parse_hello hello = Ok h \<and>
        ch_version h = extension_protocol_version \<and> ch_version h = ec_version adv \<and>
        digest_is_valid (ch_contract_digest h) \<and> ch_contract_digest h = ec_contract_digest adv \<and>
        digest_is_valid (ch_source_digest h) \<and> ch_source_digest h = ec_source_digest adv \<and>
        sorted_wrt (<) (ch_features h) \<and> set (ch_features h) \<subseteq> set (ec_features adv) \<and>
        distinct (ch_capabilities h) \<and>
        set (ch_capabilities h) \<subseteq> cd_capability ` set (ec_capabilities adv))"
  by (auto simp: negotiate_connection_def res_simps Let_def hello_problems_Nil negotiate_hello_Nil
      declares_iff split: if_splits)

end
