(* ===== verification/Handler_Gate.thy ===== *)
theory Handler_Gate
  imports Registry Capability
begin

text \<open>
  The admission ladder every \<open>_echo_agent/*\<close> handler starts with (\<open>core_profile/handler.rs\<close>): the
  extended-mode gate, the capability gate and the errors a handler answers with. What the connection
  services say is the record \<open>connection\<close>; the outer error of a \<open>handled\<close> result is returned by the
  handler, the inner one is sent with its responder.
\<close>

text \<open>\<open>agent_client_protocol::Error\<close> as the Host builds it.\<close>

datatype handler_error = RpcTyped rpc_error | RpcMethodNotFound string | RpcInternal string

record error_codec =
  ec_to_value_ok :: "sdk_err \<Rightarrow> bool"
  ec_to_vec_len :: "sdk_err \<Rightarrow> nat option"

definition typed_error :: "error_codec \<Rightarrow> sdk_err \<Rightarrow> handler_error" where
  "typed_error ec e = RpcTyped (into_jsonrpc_error (ec_to_value_ok ec) (ec_to_vec_len ec) e)"

record connection =
  cn_services_error :: "string option"
  cn_extended :: bool
  cn_admission :: bool

definition require_extended :: "error_codec \<Rightarrow> connection \<Rightarrow> string \<Rightarrow> handler_error + unit" where
  "require_extended ec cn operation =
     (case cn_services_error cn of
        Some e \<Rightarrow> Err (RpcInternal e)
      | None \<Rightarrow>
          if \<not> cn_extended cn then Err (RpcMethodNotFound operation)
          else if \<not> cn_admission cn
          then Err (typed_error ec (sdk_error HostShuttingDown ''ACP Host is shutting down'' Never operation))
          else Ok ())"

definition require_capability ::
  "error_codec \<Rightarrow> echo_capability \<Rightarrow> extension_capability \<Rightarrow> string \<Rightarrow> handler_error + unit" where
  "require_capability ec advertisement capability operation =
     (if declares advertisement capability then Ok ()
      else Err (typed_error ec
        (sdk_error ExtensionCapabilityMismatch (''capability '' @ capability_str capability @ '' is not advertised'')
           Never operation)))"

definition admission ::
  "error_codec \<Rightarrow> connection \<Rightarrow> echo_capability \<Rightarrow> extension_capability \<Rightarrow> string \<Rightarrow> handler_error + unit" where
  "admission ec cn advertisement capability operation =
     and_then (require_extended ec cn operation) (\<lambda>_. require_capability ec advertisement capability operation)"

type_synonym 'a handled = "handler_error + (handler_error + 'a)"

definition respond :: "error_codec \<Rightarrow> sdk_err + 'a \<Rightarrow> 'a handled" where
  "respond ec r = Ok (map_err (typed_error ec) r)"

lemma respond_simps [simp]:
  "respond ec (Ok x) = Ok (Ok x)" "respond ec (Err e) = Ok (Err (typed_error ec e))"
  by (simp_all add: respond_def)

lemma admission_Ok:
  "admission ec cn advertisement capability operation = Ok u \<longleftrightarrow>
     cn_services_error cn = None \<and> cn_extended cn \<and> cn_admission cn \<and> declares advertisement capability"
  by (cases u) (auto simp: admission_def require_extended_def require_capability_def res_simps
      split: option.splits)

text \<open>A connection that stayed standard answers with method-not-found, whatever the request is.\<close>

lemma standard_connection_is_refused:
  "cn_services_error cn = None \<Longrightarrow> \<not> cn_extended cn \<Longrightarrow>
     admission ec cn advertisement capability operation = Err (RpcMethodNotFound operation)"
  by (simp add: admission_def require_extended_def)

end
