(* ===== verification/Publication.thy ===== *)
theory Publication
  imports Handler_Gate Wire_Event
begin

text \<open>
  Idempotent publication of Sessions and Runs: the receipts the handle registry keeps per idempotency
  key (\<open>core_profile/handles.rs\<close>, \<open>reserve_publication\<close> to \<open>discard_publications_after_settlement\<close>),
  the job that owns the original effect (\<open>spawn_publication\<close> of \<open>core_profile/state.rs\<close>) and the request
  that waits for it (\<open>request_publication\<close> of \<open>core_profile/handler.rs\<close>). The records are shared
  between the registry, the job and the waiters, so they live in a store and are known by their
  address.

  The histories interleave requests, dropped waiters, admissions, completions, the fence of a closing
  Host and any other change of the registry; the invariant is that a key has at most one job that
  still may have, or already had, its effect.
\<close>

section \<open>Records\<close>

record session_create_response =
  sc_session :: wire_handle
  sc_task_run :: wire_handle
  sc_acp_session_id :: string

record run_start_response =
  rs_run :: wire_handle
  rs_stream :: wire_handle
  rs_first_event :: "event_envelope option"

datatype publication_value = PubSession session_create_response | PubRun run_start_response

record publication =
  pb_key :: publication_key
  pb_fingerprint :: json
  pb_effects_started :: bool
  pb_caller_cancelled :: bool
  pb_result :: "(handler_error + publication_value) option"
  pb_cancel_token :: bool

record 'd publication_world =
  pw_registry :: "'d handle_inner"
  pw_store :: "publication list"

definition update_publication ::
  "nat \<Rightarrow> (publication \<Rightarrow> publication) \<Rightarrow> 'd publication_world \<Rightarrow> 'd publication_world" where
  "update_publication a f w = w\<lparr>pw_store := (pw_store w)[a := f (pw_store w ! a)]\<rparr>"

definition cancel_waiter_before_effects :: "publication \<Rightarrow> publication" where
  "cancel_waiter_before_effects p =
     (if pb_effects_started p then p else p\<lparr>pb_caller_cancelled := True, pb_cancel_token := True\<rparr>)"

text \<open>\<open>to_rpc\<close> is the bounded encoding of typed errors, \<open>wire::into_jsonhandler_error\<close>.\<close>

definition cancellation_error :: "(sdk_err \<Rightarrow> handler_error) \<Rightarrow> publication \<Rightarrow> handler_error" where
  "cancellation_error to_rpc p =
     to_rpc (sdk_error error_code.Cancelled ''original request cancelled before effect admission'' Never
       (pk_operation (pb_key p)))"

definition publications_closed :: "string \<Rightarrow> sdk_err" where
  "publications_closed operation =
     sdk_error HostShuttingDown ''request publication admission is closed'' Never operation"

section \<open>Registry operations\<close>

definition publication_retired :: "'d handle_inner \<Rightarrow> publication_value \<Rightarrow> bool" where
  "publication_retired s v =
     (case v of
        PubSession r \<Rightarrow>
          (case hget (hi_sessions s) (h_id (sc_session r)) of None \<Rightarrow> True | Some e \<Rightarrow> sn_closing e)
      | PubRun r \<Rightarrow> \<not> hmem (h_id (rs_run r)) (hi_runs s) \<or> \<not> hmem (h_id (rs_stream r)) (hi_streams s))"

definition new_publication :: "publication_key \<Rightarrow> json \<Rightarrow> publication" where
  "new_publication key fingerprint =
     \<lparr>pb_key = key, pb_fingerprint = fingerprint, pb_effects_started = False,
      pb_caller_cancelled = False, pb_result = None, pb_cancel_token = False\<rparr>"

definition publication_key_of :: "'d handle_inner \<Rightarrow> wire_handle \<Rightarrow> string \<Rightarrow> string \<Rightarrow> publication_key" where
  "publication_key_of s owner operation key =
     \<lparr>pk_generation = hi_generation s, pk_operation = operation, pk_owner = h_id owner, pk_key = key\<rparr>"

definition reserve_publication ::
  "wire_handle \<Rightarrow> string \<Rightarrow> string \<Rightarrow> json \<Rightarrow> 'd publication_world \<Rightarrow>
     (sdk_err + nat \<times> bool) \<times> 'd publication_world" where
  "reserve_publication owner operation key fingerprint w =
     (let s = pw_registry w; k = publication_key_of s owner operation key
      in if hi_publications_fenced s then (Err (publications_closed operation), w)
         else case hget (hi_publications s) k of
           Some a \<Rightarrow>
             (let p = pw_store w ! a
              in if (case pb_result p of Some (Inr v) \<Rightarrow> publication_retired s v | _ \<Rightarrow> False)
                 then (Err (handle_error ClosedHandle
                        ''idempotent publication refers to a closed resource'' operation owner), w)
                 else if pb_fingerprint p \<noteq> fingerprint
                 then (Err (handle_error InvalidRequest
                        ''idempotency id was already used with a different payload'' operation owner), w)
                 else (Ok (a, False), w))
         | None \<Rightarrow>
             if unat (hi_max_handles s) \<le> length (hi_publications s)
             then (Err (sdk_error PayloadTooLarge ''request publication receipt quota is full''
                    AfterDelay operation), w)
             else (let a = length (pw_store w)
                   in (Ok (a, True),
                       w\<lparr>pw_registry := s\<lparr>hi_publications := hput k a (hi_publications s)\<rparr>,
                         pw_store := pw_store w @ [new_publication k fingerprint]\<rparr>)))"

text \<open>
  \<open>admitted\<close> is what the original synchronous admission returns when it is reached: the framework
  begins the turn, or only the marker is set (\<open>begin_publication_effects\<close>).
\<close>

definition admit_publication_effects ::
  "(sdk_err \<Rightarrow> handler_error) \<Rightarrow> nat \<Rightarrow> handler_error + 't \<Rightarrow> 'd publication_world \<Rightarrow>
     (handler_error + 't) \<times> 'd publication_world" where
  "admit_publication_effects to_rpc a admitted w =
     (let p = pw_store w ! a
      in if hi_publications_fenced (pw_registry w)
         then (Err (to_rpc (publications_closed (pk_operation (pb_key p)))), w)
         else if pb_caller_cancelled p then (Err (cancellation_error to_rpc p), w)
         else case admitted of
           Inl e \<Rightarrow> (Err e, w)
         | Inr x \<Rightarrow> (Ok x, update_publication a (\<lambda>p. p\<lparr>pb_effects_started := True\<rparr>) w))"

definition begin_publication_effects ::
  "(sdk_err \<Rightarrow> handler_error) \<Rightarrow> nat \<Rightarrow> 'd publication_world \<Rightarrow> (handler_error + unit) \<times> 'd publication_world" where
  "begin_publication_effects to_rpc a w = admit_publication_effects to_rpc a (Ok ()) w"

definition finish_publication ::
  "nat \<Rightarrow> handler_error + publication_value \<Rightarrow> 'd publication_world \<Rightarrow> 'd publication_world" where
  "finish_publication a result w =
     (let w1 = update_publication a (\<lambda>p. p\<lparr>pb_result := Some result\<rparr>) w;
          p = pw_store w1 ! a; s = pw_registry w1
      in if \<not> pb_effects_started p \<and> hget (hi_publications s) (pb_key p) = Some a
         then w1\<lparr>pw_registry := s\<lparr>hi_publications := hdel (pb_key p) (hi_publications s)\<rparr>\<rparr>
         else w1)"

definition fence_publications :: "'d publication_world \<Rightarrow> 'd publication_world" where
  "fence_publications w =
     (let s = pw_registry w
      in fold (\<lambda>a. update_publication a cancel_waiter_before_effects) (map snd (hi_publications s))
           (w\<lparr>pw_registry := s\<lparr>hi_publications_fenced := True\<rparr>\<rparr>))"

definition discard_publications_after_settlement :: "'d publication_world \<Rightarrow> 'd publication_world" where
  "discard_publications_after_settlement w =
     w\<lparr>pw_registry := (pw_registry w)\<lparr>hi_publications := []\<rparr>\<rparr>"

section \<open>The request\<close>

text \<open>\<open>PublicationRecord::wait\<close> returns the result once it is there.\<close>

definition observed_result :: "nat \<Rightarrow> 'd publication_world \<Rightarrow> (handler_error + publication_value) option" where
  "observed_result a w = pb_result (pw_store w ! a)"

definition publication_owner ::
  "(sdk_err \<Rightarrow> handler_error) \<Rightarrow> wire_handle \<Rightarrow> string \<Rightarrow> 'd handle_inner \<Rightarrow> handler_error + unit" where
  "publication_owner to_rpc owner operation s =
     and_then (map_err to_rpc
        (case h_kind owner of
           AgentKind \<Rightarrow> map_ok ae_closing (agent owner s)
         | SessionKind \<Rightarrow> map_ok sn_closing (session owner s)
         | _ \<Rightarrow> Err (handle_error InvalidValue ''invalid publication owner'' operation owner))) (\<lambda>closing.
     reject_if closing (to_rpc (handle_error ClosedHandle ''publication owner is closing'' operation owner)))"

text \<open>What a waiter answers once the result is there: owner and published resource must still be live.\<close>

definition publication_answer ::
  "(sdk_err \<Rightarrow> handler_error) \<Rightarrow> wire_handle \<Rightarrow> string \<Rightarrow> handler_error + publication_value \<Rightarrow>
     'd handle_inner \<Rightarrow> handler_error + publication_value" where
  "publication_answer to_rpc owner operation result s =
     and_then result (\<lambda>v.
     and_then (publication_owner to_rpc owner operation s) (\<lambda>_.
     and_then (map_err to_rpc
        (case v of
           PubSession r \<Rightarrow> map_ok (\<lambda>_. ()) (session (sc_session r) s)
         | PubRun r \<Rightarrow>
             and_then (run (rs_run r) s) (\<lambda>_. map_ok (\<lambda>_. ()) (stream (rs_stream r) s)))) (\<lambda>_.
     Ok v)))"

section \<open>Histories\<close>

text \<open>
  A job waits for its admission, has passed it or failed it, or is finished. \<open>ph_effects\<close> lists the
  keys whose effect was admitted, in order; it records the history and no operation reads it.
\<close>

datatype job_phase = JobWaiting | JobEntered | JobFinished

record 'd publication_history =
  ph_world :: "'d publication_world"
  ph_jobs :: "job_phase list"
  ph_effects :: "publication_key list"

definition request_publication ::
  "wire_handle \<Rightarrow> string \<Rightarrow> string \<Rightarrow> json \<Rightarrow> 'd publication_history \<Rightarrow>
     (sdk_err + nat \<times> bool) \<times> 'd publication_history" where
  "request_publication owner operation key fingerprint h =
     (case reserve_publication owner operation key fingerprint (ph_world h) of
        (Inl e, w) \<Rightarrow> (Err e, h\<lparr>ph_world := w\<rparr>)
      | (Inr (a, fresh), w) \<Rightarrow>
          (Ok (a, fresh),
           h\<lparr>ph_world := w, ph_jobs := ph_jobs h @ (if fresh then [JobWaiting] else [])\<rparr>))"

definition job_admits ::
  "(sdk_err \<Rightarrow> handler_error) \<Rightarrow> nat \<Rightarrow> handler_error + 't \<Rightarrow> 'd publication_history \<Rightarrow> 'd publication_history" where
  "job_admits to_rpc a admitted h =
     (case admit_publication_effects to_rpc a admitted (ph_world h) of
        (r, w) \<Rightarrow>
          h\<lparr>ph_world := w, ph_jobs := (ph_jobs h)[a := JobEntered],
            ph_effects := ph_effects h @ (if is_ok r then [pb_key (pw_store w ! a)] else [])\<rparr>)"

definition job_finishes ::
  "nat \<Rightarrow> handler_error + publication_value \<Rightarrow> 'd publication_history \<Rightarrow> 'd publication_history" where
  "job_finishes a result h =
     h\<lparr>ph_world := finish_publication a result (ph_world h), ph_jobs := (ph_jobs h)[a := JobFinished]\<rparr>"

definition same_publications :: "'d handle_inner \<Rightarrow> 'd handle_inner \<Rightarrow> bool" where
  "same_publications s s' =
     (hi_publications s' = hi_publications s \<and> hi_publications_fenced s' = hi_publications_fenced s \<and>
      hi_max_handles s' = hi_max_handles s \<and> hi_generation s' = hi_generation s)"

text \<open>
  The steps. A job may finish with any result at any time, which covers the cancellation branch of
  its \<open>select!\<close>; the receipts are discarded only after the fence, as the connection's close chain does
  (\<open>wait_for_settlements\<close> before \<open>release_after_agents\<close>).
\<close>

inductive publication_step ::
  "(sdk_err \<Rightarrow> handler_error) \<Rightarrow> 'd publication_history \<Rightarrow> 'd publication_history \<Rightarrow> bool"
  for to_rpc :: "sdk_err \<Rightarrow> handler_error" where
  step_request: "publication_step to_rpc h (snd (request_publication owner operation key fingerprint h))"
| step_waiter_dropped: "a < length (pw_store (ph_world h)) \<Longrightarrow>
    publication_step to_rpc h
      (h\<lparr>ph_world := update_publication a cancel_waiter_before_effects (ph_world h)\<rparr>)"
| step_admit: "a < length (ph_jobs h) \<Longrightarrow> ph_jobs h ! a = JobWaiting \<Longrightarrow>
    publication_step to_rpc h (job_admits to_rpc a (admitted :: handler_error + unit) h)"
| step_finish: "a < length (ph_jobs h) \<Longrightarrow> ph_jobs h ! a \<noteq> JobFinished \<Longrightarrow>
    publication_step to_rpc h (job_finishes a result h)"
| step_fence: "publication_step to_rpc h (h\<lparr>ph_world := fence_publications (ph_world h)\<rparr>)"
| step_discard: "hi_publications_fenced (pw_registry (ph_world h)) \<Longrightarrow>
    publication_step to_rpc h (h\<lparr>ph_world := discard_publications_after_settlement (ph_world h)\<rparr>)"
| step_registry: "same_publications (pw_registry (ph_world h)) s' \<Longrightarrow>
    publication_step to_rpc h (h\<lparr>ph_world := (ph_world h)\<lparr>pw_registry := s'\<rparr>\<rparr>)"

definition publication_new :: "'d publication_history \<Rightarrow> bool" where
  "publication_new h =
     (pw_store (ph_world h) = [] \<and> ph_jobs h = [] \<and> ph_effects h = [] \<and>
      hi_publications (pw_registry (ph_world h)) = [] \<and>
      \<not> hi_publications_fenced (pw_registry (ph_world h)))"

section \<open>The invariant\<close>

text \<open>
  \<open>job_keyed\<close>: a job that still may have its effect, or had it, is the one its key leads to; it holds
  until the receipts are discarded, which the fence precedes.
\<close>

definition store_inv :: "publication list \<Rightarrow> job_phase list \<Rightarrow> bool" where
  "store_inv store jobs =
     (length jobs = length store \<and>
      (\<forall>a < length store.
         (pb_effects_started (store ! a) \<longrightarrow> \<not> pb_caller_cancelled (store ! a)) \<and>
         pb_cancel_token (store ! a) = pb_caller_cancelled (store ! a) \<and>
         (jobs ! a = JobWaiting \<longrightarrow> \<not> pb_effects_started (store ! a))))"

definition job_keyed :: "(publication_key \<times> nat) list \<Rightarrow> publication list \<Rightarrow> job_phase list \<Rightarrow> bool" where
  "job_keyed pubs store jobs =
     (\<forall>a < length store. jobs ! a \<noteq> JobFinished \<or> pb_effects_started (store ! a) \<longrightarrow>
        hget pubs (pb_key (store ! a)) = Some a)"

definition receipts_inv :: "'d handle_inner \<Rightarrow> publication list \<Rightarrow> bool" where
  "receipts_inv s store =
     (hwf (hi_publications s) \<and> length (hi_publications s) \<le> unat (hi_max_handles s) \<and>
      (\<forall>k a. hget (hi_publications s) k = Some a \<longrightarrow> a < length store \<and> pb_key (store ! a) = k))"

definition effects_inv :: "publication_key list \<Rightarrow> publication list \<Rightarrow> bool" where
  "effects_inv effects store =
     (distinct effects \<and>
      set effects = pb_key ` {p \<in> set store. pb_effects_started p})"

definition publication_inv :: "'d publication_history \<Rightarrow> bool" where
  "publication_inv h =
     (let s = pw_registry (ph_world h); store = pw_store (ph_world h)
      in store_inv store (ph_jobs h) \<and> receipts_inv s store \<and> effects_inv (ph_effects h) store \<and>
         (job_keyed (hi_publications s) store (ph_jobs h) \<or>
          hi_publications_fenced s \<and> hi_publications s = []))"

lemmas publication_invs = store_inv_def job_keyed_def receipts_inv_def effects_inv_def

lemma update_publication_simps [simp]:
  "pw_registry (update_publication a f w) = pw_registry w"
  "length (pw_store (update_publication a f w)) = length (pw_store w)"
  by (simp_all add: update_publication_def)

lemma update_publication_nth:
  "b < length (pw_store w) \<Longrightarrow>
     pw_store (update_publication a f w) ! b = (if b = a then f (pw_store w ! a) else pw_store w ! b)"
  by (simp add: update_publication_def nth_list_update)

text \<open>Withdrawing a record keeps everything the invariant reads but the cancellation itself.\<close>

lemma cancel_waiter_simps [simp]:
  "pb_key (cancel_waiter_before_effects p) = pb_key p"
  "pb_effects_started (cancel_waiter_before_effects p) = pb_effects_started p"
  by (simp_all add: cancel_waiter_before_effects_def)

definition shape :: "publication list \<Rightarrow> (publication_key \<times> bool) list" where
  "shape store = map (\<lambda>p. (pb_key p, pb_effects_started p)) store"

lemma same_shape_length: "shape t = shape u \<Longrightarrow> length t = length u"
  by (metis length_map shape_def)

lemma same_shape_nth:
  assumes "shape t = shape u" and "a < length u"
  shows "pb_key (t ! a) = pb_key (u ! a)" and "pb_effects_started (t ! a) = pb_effects_started (u ! a)"
proof -
  have "(pb_key (t ! a), pb_effects_started (t ! a)) = shape t ! a"
    using assms(2) same_shape_length [OF assms(1)] by (simp add: shape_def)
  also have "\<dots> = (pb_key (u ! a), pb_effects_started (u ! a))"
    using assms by (simp add: shape_def [of u])
  finally show "pb_key (t ! a) = pb_key (u ! a)" "pb_effects_started (t ! a) = pb_effects_started (u ! a)"
    by simp_all
qed

lemma effect_key_iff:
  "k \<in> pb_key ` {p \<in> set store. pb_effects_started p} \<longleftrightarrow>
     (\<exists>b < length store. pb_effects_started (store ! b) \<and> pb_key (store ! b) = k)"
  by (auto simp: in_set_conv_nth image_iff)

lemma effects_keys: "pb_key ` {p \<in> set store. pb_effects_started p} = fst ` {x \<in> set (shape store). snd x}"
  by (force simp: shape_def)

lemma same_shape_inv:
  assumes "shape t = shape u"
  shows "receipts_inv s t = receipts_inv s u" and "effects_inv E t = effects_inv E u"
    and "job_keyed pubs t jobs = job_keyed pubs u jobs"
  using same_shape_length [OF assms] same_shape_nth [OF assms]
  by (simp_all add: receipts_inv_def effects_inv_def job_keyed_def effects_keys assms cong: conj_cong)

lemma cancel_shape [simp]:
  "shape (pw_store (update_publication a cancel_waiter_before_effects w)) = shape (pw_store w)"
proof (cases "a < length (pw_store w)")
  case True
  then have "(shape (pw_store w))[a := (pb_key (pw_store w ! a), pb_effects_started (pw_store w ! a))] =
      shape (pw_store w)"
    by (metis (no_types, lifting) list_update_id nth_map shape_def)
  then show ?thesis by (simp add: update_publication_def shape_def map_update)
next
  case False
  then show ?thesis by (simp add: update_publication_def list_update_beyond)
qed

lemma cancel_store_inv:
  assumes "store_inv (pw_store w) jobs" and "a < length (pw_store w)"
  shows "store_inv (pw_store (update_publication a cancel_waiter_before_effects w)) jobs"
  using assms
  by (auto simp: store_inv_def update_publication_nth cancel_waiter_before_effects_def)

lemma cancel_inv:
  assumes "publication_inv h" and "a < length (pw_store (ph_world h))"
  shows "publication_inv (h\<lparr>ph_world := update_publication a cancel_waiter_before_effects (ph_world h)\<rparr>)"
proof -
  note sh = same_shape_inv [OF cancel_shape [of a "ph_world h"]]
  show ?thesis
    using assms cancel_store_inv [of "ph_world h" "ph_jobs h" a]
    by (simp add: publication_inv_def Let_def sh)
qed

lemma publication_inv_world:
  "publication_inv (h\<lparr>ph_world := w, ph_jobs := jobs, ph_effects := effects\<rparr>) \<longleftrightarrow>
     store_inv (pw_store w) jobs \<and> receipts_inv (pw_registry w) (pw_store w) \<and>
     effects_inv effects (pw_store w) \<and>
     (job_keyed (hi_publications (pw_registry w)) (pw_store w) jobs \<or>
      hi_publications_fenced (pw_registry w) \<and> hi_publications (pw_registry w) = [])"
  by (simp add: publication_inv_def Let_def)

lemma reserve_cases:
  assumes "reserve_publication owner operation key fingerprint w = (r, w')"
  obtains (refused) e where "r = Err e" "w' = w"
  | (shared) a where "r = Ok (a, False)" "w' = w" "\<not> hi_publications_fenced (pw_registry w)"
      "hget (hi_publications (pw_registry w)) (publication_key_of (pw_registry w) owner operation key) = Some a"
      "pb_fingerprint (pw_store w ! a) = fingerprint"
  | (fresh) k where "r = Ok (length (pw_store w), True)" "\<not> hi_publications_fenced (pw_registry w)"
      "k = publication_key_of (pw_registry w) owner operation key"
      "hget (hi_publications (pw_registry w)) k = None"
      "length (hi_publications (pw_registry w)) < unat (hi_max_handles (pw_registry w))"
      "w' = w\<lparr>pw_registry := (pw_registry w)\<lparr>hi_publications :=
               hput k (length (pw_store w)) (hi_publications (pw_registry w))\<rparr>,
             pw_store := pw_store w @ [new_publication k fingerprint]\<rparr>"
proof -
  let ?s = "pw_registry w"
  let ?k = "publication_key_of ?s owner operation key"
  note eq = assms [unfolded reserve_publication_def Let_def]
  show ?thesis
  proof (cases "hi_publications_fenced ?s")
    case True
    with eq have "r = Err (publications_closed operation)" "w' = w" by simp_all
    then show ?thesis by (rule refused)
  next
    case False
    show ?thesis
    proof (cases "hget (hi_publications ?s) ?k")
      case (Some a)
      show ?thesis
      proof (cases "case pb_result (pw_store w ! a) of Some (Inr v) \<Rightarrow> publication_retired ?s v | _ \<Rightarrow> False")
        case True
        with eq False Some have "r = Err (handle_error ClosedHandle
            ''idempotent publication refers to a closed resource'' operation owner)" "w' = w"
          by simp_all
        then show ?thesis by (rule refused)
      next
        case live: False
        show ?thesis
        proof (cases "pb_fingerprint (pw_store w ! a) = fingerprint")
          case True
          with eq False Some live have "r = Ok (a, False)" "w' = w" by simp_all
          from shared [OF this False Some True] show ?thesis .
        next
          case other: False
          with eq False Some live have "r = Err (handle_error InvalidRequest
              ''idempotency id was already used with a different payload'' operation owner)" "w' = w"
            by simp_all
          then show ?thesis by (rule refused)
        qed
      qed
    next
      case None
      show ?thesis
      proof (cases "unat (hi_max_handles ?s) \<le> length (hi_publications ?s)")
        case True
        with eq False None have "r = Err (sdk_error PayloadTooLarge
            ''request publication receipt quota is full'' AfterDelay operation)" "w' = w"
          by simp_all
        then show ?thesis by (rule refused)
      next
        case room: False
        with eq False None have "r = Ok (length (pw_store w), True)"
          "w' = w\<lparr>pw_registry := ?s\<lparr>hi_publications := hput ?k (length (pw_store w)) (hi_publications ?s)\<rparr>,
             pw_store := pw_store w @ [new_publication ?k fingerprint]\<rparr>"
          by simp_all
        with False None room show ?thesis by (intro fresh [of ?k]) simp_all
      qed
    qed
  qed
qed

lemma request_inv:
  assumes inv: "publication_inv h"
  shows "publication_inv (snd (request_publication owner operation key fingerprint h))"
proof (cases "reserve_publication owner operation key fingerprint (ph_world h)")
  case (Pair r w)
  from Pair show ?thesis
  proof (cases rule: reserve_cases)
    case (fresh k)
    let ?s = "pw_registry (ph_world h)" and ?store = "pw_store (ph_world h)"
    have st: "store_inv ?store (ph_jobs h)" and re: "receipts_inv ?s ?store"
      and ef: "effects_inv (ph_effects h) ?store"
      and jk: "job_keyed (hi_publications ?s) ?store (ph_jobs h)"
      using inv fresh(2) by (simp_all add: publication_inv_def Let_def)
    have none: "hget (hi_publications ?s) k = None" and len: "length (ph_jobs h) = length ?store"
      using fresh(4) st by (simp_all add: store_inv_def)
    have "store_inv (?store @ [new_publication k fingerprint]) (ph_jobs h @ [JobWaiting])"
      using st by (auto simp: store_inv_def nth_append new_publication_def less_Suc_eq)
    moreover have "receipts_inv (?s\<lparr>hi_publications := hput k (length ?store) (hi_publications ?s)\<rparr>)
        (?store @ [new_publication k fingerprint])"
      using re fresh(5) none
      by (auto simp: receipts_inv_def nth_append new_publication_def length_hput_absent less_Suc_eq)
    moreover have "effects_inv (ph_effects h) (?store @ [new_publication k fingerprint])"
      using ef by (auto simp: effects_inv_def new_publication_def)
    moreover have "job_keyed (hput k (length ?store) (hi_publications ?s))
        (?store @ [new_publication k fingerprint]) (ph_jobs h @ [JobWaiting])"
      using jk none len by (auto simp: job_keyed_def nth_append new_publication_def less_Suc_eq)
    ultimately show ?thesis
      using Pair fresh(1,6) by (simp add: request_publication_def publication_inv_def Let_def)
  qed (use inv Pair in \<open>simp_all add: request_publication_def\<close>)
qed

lemma admit_cases:
  assumes "admit_publication_effects to_rpc a admitted w = (r, w')"
  obtains (refused) e where "r = Err e" "w' = w"
  | (entered) x where "r = Ok x" "admitted = Ok x" "\<not> hi_publications_fenced (pw_registry w)"
      "\<not> pb_caller_cancelled (pw_store w ! a)"
      "w' = update_publication a (\<lambda>p. p\<lparr>pb_effects_started := True\<rparr>) w"
  using assms by (auto simp: admit_publication_effects_def Let_def split: if_splits sum.splits)

text \<open>A waiting job whose effect may be admitted has a key without an effect.\<close>

lemma waiting_key_new:
  assumes "effects_inv E store" and "job_keyed pubs store jobs" and "store_inv store jobs"
    and "a < length store" and "jobs ! a = JobWaiting"
  shows "pb_key (store ! a) \<notin> set E"
proof
  assume "pb_key (store ! a) \<in> set E"
  then have "pb_key (store ! a) \<in> pb_key ` {p \<in> set store. pb_effects_started p}"
    using assms(1) by (simp only: effects_inv_def)
  then obtain b where b: "b < length store" "pb_effects_started (store ! b)"
      "pb_key (store ! b) = pb_key (store ! a)"
    by (subst (asm) effect_key_iff) blast
  then have "hget pubs (pb_key (store ! a)) = Some b"
    using assms(2) by (metis job_keyed_def)
  moreover have "hget pubs (pb_key (store ! a)) = Some a"
    using assms(2,4,5) by (simp add: job_keyed_def)
  ultimately have "a = b" by simp
  with b(2) assms(3-5) show False by (simp add: store_inv_def)
qed

lemma entered_job_inv:
  assumes "store_inv store jobs" and "job_keyed pubs store jobs \<or> Q" and "a < length jobs"
    and "jobs ! a = JobWaiting"
  shows "store_inv store (jobs[a := JobEntered])" and "job_keyed pubs store (jobs[a := JobEntered]) \<or> Q"
  using assms by (auto simp: store_inv_def job_keyed_def nth_list_update)

lemma admits_inv:
  assumes inv: "publication_inv h" and a: "a < length (ph_jobs h)" and waiting: "ph_jobs h ! a = JobWaiting"
  shows "publication_inv (job_admits to_rpc a (admitted :: handler_error + 't) h)"
proof (cases "admit_publication_effects to_rpc a admitted (ph_world h)")
  case (Pair r w)
  let ?s = "pw_registry (ph_world h)" and ?store = "pw_store (ph_world h)"
  have st: "store_inv ?store (ph_jobs h)" and re: "receipts_inv ?s ?store"
    and ef: "effects_inv (ph_effects h) ?store"
    and jk: "job_keyed (hi_publications ?s) ?store (ph_jobs h) \<or>
      hi_publications_fenced ?s \<and> hi_publications ?s = []"
    using inv by (simp_all add: publication_inv_def Let_def)
  note st' = entered_job_inv [OF st jk a waiting]
  from Pair show ?thesis
  proof (cases rule: admit_cases)
    case (refused e)
    with Pair st' re ef show ?thesis by (simp add: job_admits_def publication_inv_def Let_def)
  next
    case (entered x)
    let ?u = "\<lambda>p. p\<lparr>pb_effects_started := True\<rparr>"
    have al: "a < length ?store" using st a by (simp add: store_inv_def)
    have keyed: "job_keyed (hi_publications ?s) ?store (ph_jobs h)" using jk entered(3) by simp
    have store: "pw_store w = ?store[a := ?u (?store ! a)]"
      using entered(5) by (simp add: update_publication_def)
    have keys: "pb_key (pw_store w ! b) = pb_key (?store ! b)" for b
      using al by (cases "b = a") (simp_all add: store)
    have "store_inv (pw_store w) ((ph_jobs h)[a := JobEntered])"
      using st'(1) entered(4) al by (auto simp: store_inv_def store nth_list_update)
    moreover have "receipts_inv (pw_registry w) (pw_store w)"
      using re entered(5) keys by (auto simp: receipts_inv_def store)
    moreover have "effects_inv (ph_effects h @ [pb_key (pw_store w ! a)]) (pw_store w)"
    proof -
      have new: "pb_key (?store ! a) \<notin> set (ph_effects h)"
        by (rule waiting_key_new [OF ef keyed st al waiting])
      have "pb_key ` {p \<in> set (pw_store w). pb_effects_started p} =
          insert (pb_key (?store ! a)) (pb_key ` {p \<in> set ?store. pb_effects_started p})"
        using al keys
        by (auto simp only: set_eq_iff insert_iff effect_key_iff) (auto simp: store nth_list_update split: if_splits)
      with ef new show ?thesis by (simp add: effects_inv_def keys)
    qed
    moreover have "job_keyed (hi_publications (pw_registry w)) (pw_store w) ((ph_jobs h)[a := JobEntered])"
      unfolding job_keyed_def
    proof (intro allI impI)
      fix b
      assume b: "b < length (pw_store w)"
        and busy: "(ph_jobs h)[a := JobEntered] ! b \<noteq> JobFinished \<or> pb_effects_started (pw_store w ! b)"
      have "ph_jobs h ! b \<noteq> JobFinished \<or> pb_effects_started (?store ! b)"
        using busy waiting by (cases "b = a") (simp_all add: store)
      with b keyed have "hget (hi_publications ?s) (pb_key (?store ! b)) = Some b"
        by (simp add: job_keyed_def store)
      then show "hget (hi_publications (pw_registry w)) (pb_key (pw_store w ! b)) = Some b"
        using entered(5) keys by simp
    qed
    ultimately show ?thesis
      using Pair entered(1) by (simp add: job_admits_def publication_inv_def Let_def)
  qed
qed

lemma finishes_inv:
  assumes inv: "publication_inv h" and a: "a < length (ph_jobs h)"
  shows "publication_inv (job_finishes a result h)"
proof -
  let ?s = "pw_registry (ph_world h)" and ?store = "pw_store (ph_world h)"
  let ?w = "update_publication a (\<lambda>p. p\<lparr>pb_result := Some result\<rparr>) (ph_world h)"
  let ?jobs = "(ph_jobs h)[a := JobFinished]"
  have st: "store_inv ?store (ph_jobs h)" and re: "receipts_inv ?s ?store"
    and ef: "effects_inv (ph_effects h) ?store"
    and jk: "job_keyed (hi_publications ?s) ?store (ph_jobs h) \<or>
      hi_publications_fenced ?s \<and> hi_publications ?s = []"
    using inv by (simp_all add: publication_inv_def Let_def)
  have al: "a < length ?store" using st a by (simp add: store_inv_def)
  have store: "pw_store ?w = ?store[a := (?store ! a)\<lparr>pb_result := Some result\<rparr>]"
    by (simp add: update_publication_def)
  have sh: "shape (pw_store ?w) = shape ?store"
    using al by (intro nth_equalityI) (auto simp: shape_def store nth_list_update)
  note cong = same_shape_inv [OF sh]
  have st': "store_inv (pw_store ?w) ?jobs"
    using st al by (auto simp: store_inv_def store nth_list_update)
  have keep: "job_keyed (hi_publications ?s) (pw_store ?w) ?jobs \<or>
      hi_publications_fenced ?s \<and> hi_publications ?s = []"
    unfolding cong(3) using jk a by (auto simp: job_keyed_def nth_list_update)
  show ?thesis
  proof (cases "\<not> pb_effects_started (pw_store ?w ! a) \<and> hget (hi_publications ?s) (pb_key (pw_store ?w ! a)) = Some a")
    case False
    then have "finish_publication a result (ph_world h) = ?w"
      by (auto simp: finish_publication_def Let_def)
    with st' re ef keep show ?thesis
      by (simp add: job_finishes_def publication_inv_def Let_def cong(1,2))
  next
    case True
    let ?k = "pb_key (pw_store ?w ! a)"
    have keyed: "job_keyed (hi_publications ?s) (pw_store ?w) ?jobs" using keep True by auto
    have fin: "finish_publication a result (ph_world h) =
        ?w\<lparr>pw_registry := ?s\<lparr>hi_publications := hdel ?k (hi_publications ?s)\<rparr>\<rparr>"
      using True by (simp add: finish_publication_def Let_def)
    have re': "receipts_inv (?s\<lparr>hi_publications := hdel ?k (hi_publications ?s)\<rparr>) (pw_store ?w)"
      using re length_hdel_le [of ?k "hi_publications ?s"]
      by (auto simp: receipts_inv_def same_shape_length [OF sh] same_shape_nth(1) [OF sh]
          split: if_splits)
    have "job_keyed (hdel ?k (hi_publications ?s)) (pw_store ?w) ?jobs"
      unfolding job_keyed_def
    proof (intro allI impI)
      fix b
      assume b: "b < length (pw_store ?w)"
        and busy: "?jobs ! b \<noteq> JobFinished \<or> pb_effects_started (pw_store ?w ! b)"
      then have mapped: "hget (hi_publications ?s) (pb_key (pw_store ?w ! b)) = Some b"
        using keyed by (simp add: job_keyed_def)
      have "b \<noteq> a" using busy True a by auto
      with mapped True show "hget (hdel ?k (hi_publications ?s)) (pb_key (pw_store ?w ! b)) = Some b"
        by auto
    qed
    with st' re' ef fin show ?thesis
      by (simp add: job_finishes_def publication_inv_def Let_def cong(2))
  qed
qed

lemma fold_cancel_inv:
  assumes "store_inv (pw_store w) jobs" and "\<forall>a\<in>set as. a < length (pw_store w)"
  shows "store_inv (pw_store (fold (\<lambda>a. update_publication a cancel_waiter_before_effects) as w)) jobs \<and>
    shape (pw_store (fold (\<lambda>a. update_publication a cancel_waiter_before_effects) as w)) = shape (pw_store w) \<and>
    pw_registry (fold (\<lambda>a. update_publication a cancel_waiter_before_effects) as w) = pw_registry w"
  using assms by (induction as arbitrary: w) (auto simp: cancel_store_inv)

lemma fence_inv:
  assumes inv: "publication_inv h"
  shows "publication_inv (h\<lparr>ph_world := fence_publications (ph_world h)\<rparr>)"
proof -
  let ?s = "pw_registry (ph_world h)"
  let ?w = "(ph_world h)\<lparr>pw_registry := ?s\<lparr>hi_publications_fenced := True\<rparr>\<rparr>"
  let ?w' = "fence_publications (ph_world h)"
  have re: "receipts_inv ?s (pw_store (ph_world h))"
    using inv by (simp add: publication_inv_def Let_def)
  have "\<forall>a\<in>set (map snd (hi_publications ?s)). a < length (pw_store ?w)"
  proof
    fix a assume "a \<in> set (map snd (hi_publications ?s))"
    then obtain k where "(k, a) \<in> set (hi_publications ?s)" by auto
    then have "hget (hi_publications ?s) k = Some a"
      using re by (simp add: receipts_inv_def hget_in_set)
    with re show "a < length (pw_store ?w)" by (simp add: receipts_inv_def)
  qed
  moreover have "store_inv (pw_store ?w) (ph_jobs h)"
    using inv by (simp add: publication_inv_def Let_def)
  ultimately have f: "store_inv (pw_store ?w') (ph_jobs h)"
      "shape (pw_store ?w') = shape (pw_store (ph_world h))"
      "pw_registry ?w' = ?s\<lparr>hi_publications_fenced := True\<rparr>"
    using fold_cancel_inv [of ?w "ph_jobs h" "map snd (hi_publications ?s)"]
    by (simp_all add: fence_publications_def Let_def)
  have "receipts_inv (?s\<lparr>hi_publications_fenced := True\<rparr>) (pw_store (ph_world h))"
    using re by (simp add: receipts_inv_def)
  with inv f(1,3) show ?thesis
    by (auto simp: publication_inv_def Let_def same_shape_inv [OF f(2)])
qed

lemma publication_step_inv:
  assumes "publication_inv h" and "publication_step to_rpc h h'"
  shows "publication_inv h'"
  using assms(2)
proof cases
  case step_discard
  with assms(1) show ?thesis
    by (auto simp: publication_inv_def Let_def receipts_inv_def discard_publications_after_settlement_def)
next
  case (step_registry s')
  with assms(1) show ?thesis
    by (auto simp: publication_inv_def Let_def receipts_inv_def same_publications_def)
qed (use assms(1) in \<open>simp_all add: request_inv cancel_inv admits_inv finishes_inv fence_inv\<close>)

lemma publication_new_inv: "publication_new h \<Longrightarrow> publication_inv h"
  by (simp add: publication_new_def publication_inv_def Let_def publication_invs)

interpretation publication_hist:
  invariant_system publication_new "publication_step to_rpc" publication_inv for to_rpc
  by unfold_locales (auto intro: publication_new_inv publication_step_inv)

text \<open>A key whose effect was admitted keeps its receipt until the fence, so no new job takes it.\<close>

lemma effect_key_not_fresh:
  assumes inv: "publication_inv h"
    and k: "publication_key_of (pw_registry (ph_world h)) owner operation key \<in> set (ph_effects h)"
  shows "reserve_publication owner operation key fingerprint (ph_world h) \<noteq> (Ok (a, True), w)"
proof
  assume r: "reserve_publication owner operation key fingerprint (ph_world h) = (Ok (a, True), w)"
  let ?s = "pw_registry (ph_world h)" and ?store = "pw_store (ph_world h)"
  from r have nf: "\<not> hi_publications_fenced ?s"
      and none: "hget (hi_publications ?s) (publication_key_of ?s owner operation key) = None"
    by (cases rule: reserve_cases; simp)+
  have "publication_key_of ?s owner operation key \<in> pb_key ` {p \<in> set ?store. pb_effects_started p}"
    using inv k by (simp add: publication_inv_def Let_def effects_inv_def)
  then obtain b where "b < length ?store" "pb_effects_started (?store ! b)"
      "pb_key (?store ! b) = publication_key_of ?s owner operation key"
    by (subst (asm) effect_key_iff) blast
  with inv nf have "hget (hi_publications ?s) (publication_key_of ?s owner operation key) = Some b"
    by (auto simp: publication_inv_def Let_def job_keyed_def)
  with none show False by simp
qed

lemma fenced_admits_nothing:
  assumes "hi_publications_fenced (pw_registry (ph_world h))"
  shows "ph_effects (job_admits to_rpc a admitted h) = ph_effects h"
  using assms by (simp add: job_admits_def admit_publication_effects_def Let_def)

section \<open>Properties\<close>

text \<open>C6: In every history of requests, dropped waiters, admissions, completions, fence, discard and
  other registry changes, each idempotency key has its effect admitted at most once. A key whose
  effect was admitted never starts a second job, whatever payload it comes with; an effect is admitted
  only for a request whose waiter had not withdrawn it; once admission is fenced no effect is admitted
  any more; and the receipts kept are within the handle quota.\<close>

theorem publication_effects_at_most_once:
  assumes "reach publication_new (publication_step to_rpc) h"
  shows "distinct (ph_effects h) \<and>
    (publication_key_of (pw_registry (ph_world h)) owner operation key \<in> set (ph_effects h) \<longrightarrow>
       reserve_publication owner operation key fingerprint (ph_world h) \<noteq> (Ok (a, True), w)) \<and>
    (\<forall>p\<in>set (pw_store (ph_world h)). pb_effects_started p \<longrightarrow> \<not> pb_caller_cancelled p) \<and>
    (hi_publications_fenced (pw_registry (ph_world h)) \<longrightarrow>
       ph_effects (job_admits to_rpc b admitted h) = ph_effects h) \<and>
    length (hi_publications (pw_registry (ph_world h))) \<le> unat (hi_max_handles (pw_registry (ph_world h)))"
proof -
  have inv: "publication_inv h" using assms by (rule publication_hist.reach_inv)
  then have "\<forall>p\<in>set (pw_store (ph_world h)). pb_effects_started p \<longrightarrow> \<not> pb_caller_cancelled p"
    by (auto simp: publication_inv_def Let_def store_inv_def in_set_conv_nth)
  with inv effect_key_not_fresh [OF inv] fenced_admits_nothing show ?thesis
    by (auto simp: publication_inv_def Let_def effects_inv_def receipts_inv_def)
qed

text \<open>A Host with one request that passed its admission.\<close>

definition sample_publications :: "unit publication_history" where
  "sample_publications =
     \<lparr>ph_world = \<lparr>pw_registry = new_registry 7 4, pw_store = []\<rparr>, ph_jobs = [], ph_effects = []\<rparr>"

definition sample_owner :: wire_handle where
  "sample_owner = mk_handle ''agent-1'' AgentKind 7"

definition sample_to_rpc :: "sdk_err \<Rightarrow> handler_error" where
  "sample_to_rpc e = RpcInternal (err_message e)"

definition sample_admitted :: "(sdk_err \<Rightarrow> handler_error) \<Rightarrow> unit publication_history" where
  "sample_admitted to_rpc =
     job_admits to_rpc 0 (Ok ())
       (snd (request_publication sample_owner ''_echo_agent/session/create'' ''k'' JNull sample_publications))"

lemma sample_admitted_reach: "reach publication_new (publication_step to_rpc) (sample_admitted to_rpc)"
proof -
  let ?h = "snd (request_publication sample_owner ''_echo_agent/session/create'' ''k'' JNull sample_publications)"
  have "publication_new sample_publications"
    by (simp add: publication_new_def sample_publications_def new_registry_def)
  then have "reach publication_new (publication_step to_rpc) sample_publications" by (rule reach_init)
  moreover have "publication_step to_rpc sample_publications ?h" by (rule step_request)
  ultimately have "reach publication_new (publication_step to_rpc) ?h" by (rule reach_step)
  moreover have "ph_jobs ?h = [JobWaiting]"
    by (simp add: request_publication_def reserve_publication_def sample_publications_def
        new_registry_def Let_def)
  then have "publication_step to_rpc ?h (sample_admitted to_rpc)"
    unfolding sample_admitted_def by (intro step_admit) simp_all
  ultimately show ?thesis by (rule reach_step)
qed

theorem publication_effects_at_most_once_witness:
  "ph_effects (sample_admitted sample_to_rpc) =
     [publication_key_of (new_registry 7 4 :: unit handle_inner) sample_owner ''_echo_agent/session/create'' ''k''] \<and>
   reserve_publication sample_owner ''_echo_agent/session/create'' ''k'' (JBool True)
     (ph_world (sample_admitted sample_to_rpc)) \<noteq> (Ok (1, True), ph_world (sample_admitted sample_to_rpc))"
  using publication_effects_at_most_once [OF sample_admitted_reach [of sample_to_rpc],
      where owner = sample_owner and operation = "''_echo_agent/session/create''" and key = "''k''"
        and fingerprint = "JBool True" and a = 1 and w = "ph_world (sample_admitted sample_to_rpc)" and b = 0 and admitted = "Ok ()"]
  by (simp add: sample_admitted_def job_admits_def admit_publication_effects_def request_publication_def
      reserve_publication_def sample_publications_def new_registry_def Let_def new_publication_def
      publication_key_of_def update_publication_def)

end
