(* ===== verification/Framework_Wire.thy ===== *)
theory Framework_Wire
  imports Run_Wire
begin

text \<open>
  Framework errors and native paths on the wire (\<open>core_profile/wire.rs\<close>): the projection of a
  framework error, the observation that an execution has not settled and its recognition, and the
  conversion between native and wire paths on Unix, where a native path is its bytes. The text
  encoding and base64 are arguments.
\<close>

section \<open>Framework errors\<close>

text \<open>
  What \<open>AgentFailure::try_from\<close> makes of a framework error: a failure with the error's text, the
  observation that the execution has not settled, or another refusal.
\<close>

datatype framework_observation =
    FwFailure string agent_failure
  | FwNotSettled string "string option"
  | FwRefused

definition bounded_message :: "string \<Rightarrow> string" where
  "bounded_message m = take 2048 m"

definition with_fields :: "sdk_err \<Rightarrow> detail_field list \<Rightarrow> sdk_err" where
  "with_fields e fs = e\<lparr>err_details := Some \<lparr>ed_fields = Some fs, ed_facade = None\<rparr>\<rparr>"

abbreviation (input) "detail_entry k v \<equiv> \<lparr>df_key = k, df_value = v\<rparr>"

definition not_settled_error :: "string \<Rightarrow> string option \<Rightarrow> string \<Rightarrow> sdk_err" where
  "not_settled_error run_id execution_id operation =
     with_fields
       (sdk_error FrameworkError ''original execution has not physically settled'' Never operation)
       ([detail_entry ''observation'' ''not_settled'', detail_entry ''run_id'' run_id] @
        (case execution_id of None \<Rightarrow> [] | Some i \<Rightarrow> [detail_entry ''execution_id'' i]))"

definition framework_error :: "failure_names \<Rightarrow> framework_observation \<Rightarrow> string \<Rightarrow> sdk_err" where
  "framework_error names obs operation =
     (case obs of
        FwNotSettled run_id execution_id \<Rightarrow> not_settled_error run_id execution_id operation
      | FwRefused \<Rightarrow>
          sdk_error SerializationViolation
            ''framework terminal classification refused this observation'' Never operation
      | FwFailure shown f \<Rightarrow>
          (let p = failure_wire names f;
               code = (if af_terminal_kind f = KindCancelled then error_code.Cancelled else FrameworkError)
           in with_fields (sdk_error code (bounded_message shown) Never operation)
                ([detail_entry ''framework_failure_category'' (afw_category p),
                  detail_entry ''framework_terminal_kind'' (afw_terminal_kind p),
                  detail_entry ''framework_failure_code'' (afw_code p),
                  detail_entry ''framework_retryable'' (if afw_retryable p then ''true'' else ''false'')] @
                 (case afw_http_status p of
                    None \<Rightarrow> []
                  | Some status \<Rightarrow> [detail_entry ''framework_http_status'' (show_nat (unat status))]))))"

text \<open>The first field with a key.\<close>

definition field_value :: "detail_field list \<Rightarrow> string \<Rightarrow> string option" where
  "field_value fs key = map_option df_value (List.find (\<lambda>f. df_key f = key) fs)"

definition observation_from_sdk_error :: "sdk_err \<Rightarrow> framework_observation option" where
  "observation_from_sdk_error e =
     (if \<not> is_ok (validate_sdk_err e) then None
      else if err_code e \<noteq> FrameworkError \<or> err_retryable e \<noteq> Never then None
      else case err_details e of None \<Rightarrow> None | Some d \<Rightarrow>
        (case ed_fields d of None \<Rightarrow> None | Some fs \<Rightarrow>
          (if field_value fs ''observation'' \<noteq> Some ''not_settled'' then None
           else case field_value fs ''run_id'' of None \<Rightarrow> None | Some run_id \<Rightarrow>
             (if blank run_id then None
              else if (case field_value fs ''execution_id'' of None \<Rightarrow> False | Some i \<Rightarrow> blank i) then None
              else Some (FwNotSettled run_id (field_value fs ''execution_id''))))))"

section \<open>Native paths\<close>

record path_codec =
  pc_to_text :: "u8 list \<Rightarrow> string option"
  pc_to_bytes :: "string \<Rightarrow> u8 list"
  pc_encode :: "u8 list \<Rightarrow> string"
  pc_decode :: base64_decoder
  pc_decode_error :: "string \<Rightarrow> string"


definition native_is_absolute :: "native_path \<Rightarrow> bool" where
  "native_is_absolute p = (take 1 p = [47])"

definition path_to_wire :: "path_codec \<Rightarrow> native_path \<Rightarrow> string + wire_path" where
  "path_to_wire pc p =
     (if \<not> native_is_absolute p then Err ''path must be absolute''
      else case pc_to_text pc p of
             Some path \<Rightarrow> Ok (Utf8Path path)
           | None \<Rightarrow> Ok (UnixPath (pc_encode pc p) None))"

fun to_path_buf :: "path_codec \<Rightarrow> wire_path \<Rightarrow> string + native_path" where
  "to_path_buf pc (Utf8Path path) = Ok (pc_to_bytes pc path)"
| "to_path_buf pc (UnixPath bytes display) =
     ok_or (pc_decode pc bytes) (''invalid base64 path encoding: '' @ pc_decode_error pc bytes)"
| "to_path_buf pc (WindowsPath utf16 display) =
     and_then (ok_or (pc_decode pc utf16)
       (''invalid base64 path encoding: '' @ pc_decode_error pc utf16)) (\<lambda>_.
       Err ''Windows UTF-16 paths require a Windows platform'')"

definition path_from_wire :: "path_codec \<Rightarrow> wire_path \<Rightarrow> string + native_path" where
  "path_from_wire pc path =
     and_then (map_err (\<lambda>e. ''invalid wire path: '' @ display_scalar_error e) (validate_path (pc_decode pc) path)) (\<lambda>_.
     to_path_buf pc path)"

definition working_dir_from_wire :: "path_codec \<Rightarrow> wire_path option \<Rightarrow> sdk_err + native_path option" where
  "working_dir_from_wire pc path =
     (case path of
        None \<Rightarrow> Ok None
      | Some p \<Rightarrow>
          map_ok Some (map_err (\<lambda>e. sdk_error InvalidValue
            (''working_dir cannot be represented on this platform: '' @ e) Never ''_echo_agent/session'')
            (to_path_buf pc p)))"

section \<open>Lemmas\<close>

lemma framework_error_never_retryable: "err_retryable (framework_error names obs operation) = Never"
  by (cases obs)
    (simp_all add: framework_error_def not_settled_error_def with_fields_def sdk_error_def
      with_operation_def sdk_error_new_def Let_def)

lemma framework_error_hint:
  "has_observation_hint (framework_error names obs operation) \<longleftrightarrow>
     (\<exists>run_id execution_id. obs = FwNotSettled run_id execution_id)"
  by (cases obs)
    (auto simp: framework_error_def not_settled_error_def with_fields_def has_observation_hint_def
      detail_fields_def sdk_error_def with_operation_def sdk_error_new_def Let_def
      split: option.splits)

lemma not_settled_round_trip:
  assumes "\<not> blank run_id" and "case execution_id of None \<Rightarrow> True | Some i \<Rightarrow> \<not> blank i"
    and "is_ok (validate_sdk_err (not_settled_error run_id execution_id operation))"
  shows "observation_from_sdk_error (not_settled_error run_id execution_id operation) =
    Some (FwNotSettled run_id execution_id)"
  using assms
  by (cases execution_id)
    (auto simp: observation_from_sdk_error_def not_settled_error_def with_fields_def field_value_def
      sdk_error_def with_operation_def sdk_error_new_def)

lemma recognised_observation:
  assumes "observation_from_sdk_error e = Some obs"
  shows "\<exists>run_id execution_id. obs = FwNotSettled run_id execution_id \<and> \<not> blank run_id \<and>
    err_code e = FrameworkError \<and> has_observation_hint e"
proof -
  have hint: "has_observation_hint e"
    if "err_details e = Some d" "ed_fields d = Some fs" "field_value fs ''observation'' = Some ''not_settled''" for d fs
    using that by (auto simp: has_observation_hint_def detail_fields_def field_value_def list_ex_iff
        find_Some_iff)
  show ?thesis
    using assms hint by (auto simp: observation_from_sdk_error_def split: if_splits option.splits)
qed

text \<open>
  What the text encoding and base64 do: a path that is text encodes back to its bytes and its text
  starts and is free of NUL as its bytes are; base64 decodes what it encodes.
\<close>

definition path_codec_ok :: "path_codec \<Rightarrow> bool" where
  "path_codec_ok pc =
     ((\<forall>p t. pc_to_text pc p = Some t \<longrightarrow> pc_to_bytes pc t = p \<and>
        (take 1 p = [47] \<longleftrightarrow> take 1 t = ''/'') \<and> (0 \<in> set p \<longleftrightarrow> CHR 0x00 \<in> set t)) \<and>
      (\<forall>p. pc_decode pc (pc_encode pc p) = Some p))"

lemma take_1_hd: "take (Suc 0) p = [x] \<longleftrightarrow> p \<noteq> [] \<and> hd p = x"
  by (cases p) auto

lemma path_to_wire_valid:
  assumes "path_codec_ok pc" and "native_is_absolute p" and "0 \<notin> set p"
  shows "\<exists>w. path_to_wire pc p = Ok w \<and> is_ok (validate_path (pc_decode pc) w) \<and> to_path_buf pc w = Ok p"
proof (cases "pc_to_text pc p")
  case (Some t)
  then have t: "pc_to_bytes pc t = p" "take 1 t = ''/''" "CHR 0x00 \<notin> set t"
    using assms by (simp_all add: path_codec_ok_def native_is_absolute_def)
  with assms(2) Some show ?thesis
    by (simp add: path_to_wire_def is_absolute_utf8_path_def)
next
  case None
  have "pc_decode pc (pc_encode pc p) = Some p" using assms(1) by (simp add: path_codec_ok_def)
  with assms(2,3) None show ?thesis
    by (simp add: path_to_wire_def is_absolute_unix_path_base64_def native_is_absolute_def take_1_hd)
qed

section \<open>Properties\<close>

text \<open>C40: Every absolute native path without a NUL byte crosses the wire unchanged, whether it is text or
  not: it is encoded as a wire path that validates, decoding that wire path gives back the very same
  bytes, also through the working directory of a request, and a relative path is never encoded.\<close>

theorem native_path_round_trip:
  assumes "path_codec_ok pc" and "0 \<notin> set p"
  shows "if native_is_absolute p
    then \<exists>w. path_to_wire pc p = Ok w \<and> path_from_wire pc w = Ok p \<and>
      working_dir_from_wire pc (Some w) = Ok (Some p)
    else \<not> is_ok (path_to_wire pc p)"
proof (cases "native_is_absolute p")
  case True
  from path_to_wire_valid [OF assms(1) True assms(2)] obtain w
    where w: "path_to_wire pc p = Ok w" "is_ok (validate_path (pc_decode pc) w)" "to_path_buf pc w = Ok p"
    by blast
  then have "path_from_wire pc w = Ok p" "working_dir_from_wire pc (Some w) = Ok (Some p)"
    by (auto simp: path_from_wire_def working_dir_from_wire_def is_ok_iff)
  with True w(1) show ?thesis by auto
qed (simp add: path_to_wire_def)

text \<open>ASCII as the text encoding, bytes as characters in place of base64.\<close>

definition sample_path_codec :: path_codec where
  "sample_path_codec =
     \<lparr>pc_to_text = (\<lambda>p. if list_all (\<lambda>b. b < 128) p then Some (map (\<lambda>b. char_of (unat b)) p) else None),
      pc_to_bytes = map (\<lambda>c. word_of_nat (of_char c)),
      pc_encode = map (\<lambda>b. char_of (unat b)),
      pc_decode = (\<lambda>s. Some (map (\<lambda>c. word_of_nat (of_char c)) s)),
      pc_decode_error = (\<lambda>_. [])\<rparr>"

lemma byte_mod [simp]: "(word_of_nat (unat (b :: u8) mod 256) :: u8) = b"
proof -
  have "unat b < 256" using unsigned_less [of b, where ?'a = nat] by simp
  then show ?thesis by simp
qed

lemma byte_char: "(word_of_nat (of_char (char_of (unat (b :: u8)))) :: u8) = b"
  by simp

lemma byte_char_inject: "char_of (unat (a :: u8)) = char_of (unat b) \<longleftrightarrow> a = b"
  by (metis byte_char)

lemma sample_path_codec_ok: "path_codec_ok sample_path_codec"
proof -
  have slash: "CHR ''/'' = char_of (unat (47 :: u8))" by code_simp
  have zero: "CHR 0x00 = char_of (unat (0 :: u8))" by code_simp
  have head: "take 1 p = [47] \<longleftrightarrow> take 1 (map (\<lambda>b. char_of (unat b)) p) = ''/''" for p :: "u8 list"
  proof (cases p)
    case (Cons a q)
    then have "take 1 p = [a]" "take 1 (map (\<lambda>b. char_of (unat b)) p) = [char_of (unat a)]" by simp_all
    then show ?thesis by (simp only: slash byte_char_inject list.inject simp_thms)
  qed simp
  have nul: "0 \<in> set p \<longleftrightarrow> CHR 0x00 \<in> (\<lambda>b. char_of (unat b)) ` set p" for p :: "u8 list"
    unfolding zero image_iff using byte_char_inject by metis
  show ?thesis
    unfolding path_codec_ok_def sample_path_codec_def
    using head nul by (simp add: comp_def)
qed

theorem native_path_round_trip_witness:
  "\<exists>w. path_to_wire sample_path_codec [47, 200] = Ok w \<and> path_from_wire sample_path_codec w = Ok [47, 200]"
  using native_path_round_trip [OF sample_path_codec_ok, of "[47, 200]"]
  by (auto simp: native_is_absolute_def)

end
