(* ===== verification/Tool_Wire.thy ===== *)
theory Tool_Wire
  imports Framework_Wire
begin

text \<open>
  Tool results and chat messages on the wire (\<open>core_profile/wire.rs\<close>, with the wire types of
  \<open>echo-sdk-protocol/src/methods.rs\<close>): the two projections of a tool result and the decoding of a
  chat message. The framework's types have the constructors and fields the source names; the serialized
  names of its failure enums and the decoding of a message content are arguments.
\<close>

section \<open>Wire types\<close>

datatype tool_result_kind_wire =
    TextWire
  | JsonWire
  | ImageWire string
  | TableWire "string list" "string list list"
  | DiffWire string
  | FileReferenceWire string
  | CommandOutputWire "u32 option"
  | SkillActivationWire string
  | StructuredErrorWire string

record tool_failure_wire =
  tfw_category :: string
  tfw_recovery :: string
  tfw_side_effect :: string
  tfw_retry_after_ms :: "wire_u64 option"
  tfw_idempotency_key :: "string option"
  tfw_postcondition :: "string option"

record artifact_ref_wire =
  arw_path :: wire_path
  arw_artifact_bytes :: wire_u64
  arw_payload_bytes :: wire_u64
  arw_sha256 :: string
  arw_retention :: string

datatype tool_content_wire = ImageUrlWire string "string option"

datatype tool_effect_wire =
    FileReadWire string
  | FileEditWire string
  | TestRunWire string bool "wire_u64 option"
  | SubagentRunWire string string string

text \<open>The metadata is a \<open>BTreeMap\<close>: its entries in the order of their keys.\<close>

record tool_result_wire =
  tw_kind :: tool_result_kind_wire
  tw_success :: bool
  tw_output :: string
  tw_error :: "string option"
  tw_failure :: "tool_failure_wire option"
  tw_data :: "wire_value option"
  tw_truncated :: bool
  tw_mime_type :: "string option"
  tw_artifact :: "artifact_ref_wire option"
  tw_metadata :: "(string \<times> string) list"
  tw_model_content :: "tool_content_wire list"
  tw_effects :: "tool_effect_wire list"

section \<open>Framework types\<close>

datatype tool_result_kind =
    KText
  | KJson
  | KImage string
  | KTable "string list" "string list list"
  | KDiff string
  | KFileReference string
  | KCommandOutput "u32 option"
  | KSkillActivation string
  | KStructuredError string

datatype tool_failure_category =
    InvalidArguments | Unavailable | Timeout | TfCancelled | Transient | Permanent | PartialSideEffect

datatype tool_recovery_action = CorrectArguments | Retry | RestoreThenRetry | VerifyThenRetry | Stop

datatype tool_side_effect = SideNone | SidePossible | SideConfirmed

record tool_failure =
  tf_category :: tool_failure_category
  tf_recovery :: tool_recovery_action
  tf_side_effect :: tool_side_effect
  tf_retry_after_ms :: "u64 option"
  tf_idempotency_key :: "string option"
  tf_postcondition :: "string option"

record artifact_ref =
  ar_path :: native_path
  ar_artifact_bytes :: u64
  ar_payload_bytes :: u64
  ar_sha256 :: string
  ar_retention :: string

datatype tool_content = ImageUrl string "string option"

datatype tool_effect =
    FileRead string
  | FileEdit string
  | TestRun string bool "usize option"
  | SubagentRun string string string

record tool_result =
  tl_kind :: tool_result_kind
  tl_success :: bool
  tl_output :: string
  tl_error :: "string option"
  tl_failure :: "tool_failure option"
  tl_data :: "json option"
  tl_truncated :: bool
  tl_mime_type :: "string option"
  tl_artifact :: "artifact_ref option"
  tl_metadata :: "(string \<times> string) list"
  tl_model_content :: "tool_content list"
  tl_effects :: "tool_effect list"

text \<open>\<open>o.map(f).transpose()\<close>\<close>

definition transpose_with :: "('a \<Rightarrow> 'e + 'b) \<Rightarrow> 'a option \<Rightarrow> 'e + 'b option" where
  "transpose_with f x = (case x of None \<Rightarrow> Ok None | Some v \<Rightarrow> map_ok Some (f v))"

section \<open>From the wire\<close>

fun kind_from_wire :: "tool_result_kind_wire \<Rightarrow> tool_result_kind" where
  "kind_from_wire TextWire = KText"
| "kind_from_wire JsonWire = KJson"
| "kind_from_wire (ImageWire mime_type) = KImage mime_type"
| "kind_from_wire (TableWire columns rows) = KTable columns rows"
| "kind_from_wire (DiffWire unified_diff) = KDiff unified_diff"
| "kind_from_wire (FileReferenceWire path) = KFileReference path"
| "kind_from_wire (CommandOutputWire exit_code) = KCommandOutput exit_code"
| "kind_from_wire (SkillActivationWire name) = KSkillActivation name"
| "kind_from_wire (StructuredErrorWire code) = KStructuredError code"

definition failure_category_names :: "(string \<times> tool_failure_category) list" where
  "failure_category_names =
     [(''invalid_arguments'', InvalidArguments), (''unavailable'', Unavailable), (''timeout'', Timeout),
      (''cancelled'', TfCancelled), (''transient'', Transient), (''permanent'', Permanent),
      (''partial_side_effect'', PartialSideEffect)]"

definition recovery_names :: "(string \<times> tool_recovery_action) list" where
  "recovery_names =
     [(''correct_arguments'', CorrectArguments), (''retry'', Retry),
      (''restore_then_retry'', RestoreThenRetry), (''verify_then_retry'', VerifyThenRetry), (''stop'', Stop)]"

definition side_effect_names :: "(string \<times> tool_side_effect) list" where
  "side_effect_names = [(''none'', SideNone), (''possible'', SidePossible), (''confirmed'', SideConfirmed)]"

definition tool_failure_from_wire :: "tool_failure_wire \<Rightarrow> string + tool_failure" where
  "tool_failure_from_wire w =
     and_then (ok_or (hget failure_category_names (tfw_category w)) ''unknown tool failure category'') (\<lambda>category.
     and_then (ok_or (hget recovery_names (tfw_recovery w)) ''unknown tool recovery action'') (\<lambda>recovery.
     and_then (ok_or (hget side_effect_names (tfw_side_effect w)) ''unknown tool side-effect status'') (\<lambda>side.
     and_then (transpose_with (\<lambda>v. ok_or (to_u64 v) ''invalid retry_after_ms'') (tfw_retry_after_ms w)) (\<lambda>ms.
       Ok \<lparr>tf_category = category, tf_recovery = recovery, tf_side_effect = side, tf_retry_after_ms = ms,
           tf_idempotency_key = tfw_idempotency_key w, tf_postcondition = tfw_postcondition w\<rparr>))))"

definition artifact_from_wire :: "path_codec \<Rightarrow> artifact_ref_wire \<Rightarrow> string + artifact_ref" where
  "artifact_from_wire pc w =
     and_then (path_from_wire pc (arw_path w)) (\<lambda>path.
     and_then (ok_or (to_u64 (arw_artifact_bytes w)) ''invalid artifact byte count'') (\<lambda>artifact_bytes.
     and_then (ok_or (to_u64 (arw_payload_bytes w)) ''invalid payload byte count'') (\<lambda>payload_bytes.
       Ok \<lparr>ar_path = path, ar_artifact_bytes = artifact_bytes, ar_payload_bytes = payload_bytes,
           ar_sha256 = arw_sha256 w, ar_retention = arw_retention w\<rparr>)))"

text \<open>On a 64-bit target every \<open>u64\<close> is a \<open>usize\<close>.\<close>

fun effect_from_wire :: "tool_effect_wire \<Rightarrow> string + tool_effect" where
  "effect_from_wire (FileReadWire path) = Ok (FileRead path)"
| "effect_from_wire (FileEditWire path) = Ok (FileEdit path)"
| "effect_from_wire (TestRunWire command passed failure_count) =
     map_ok (TestRun command passed)
       (transpose_with (\<lambda>c. ok_or (to_u64 c) ''tool failure_count exceeds platform range'') failure_count)"
| "effect_from_wire (SubagentRunWire agent_name task outcome) = Ok (SubagentRun agent_name task outcome)"

fun content_from_wire :: "tool_content_wire \<Rightarrow> tool_content" where
  "content_from_wire (ImageUrlWire url detail) = ImageUrl url detail"

definition tool_result_from_wire :: "path_codec \<Rightarrow> tool_result_wire \<Rightarrow> string + tool_result" where
  "tool_result_from_wire pc w =
     and_then (transpose_with tool_failure_from_wire (tw_failure w)) (\<lambda>failure.
     and_then (transpose_with (artifact_from_wire pc) (tw_artifact w)) (\<lambda>artifact.
     and_then (transpose_with (\<lambda>v. map_err display_scalar_error (into_json v)) (tw_data w)) (\<lambda>data.
     and_then (collect_ok (map effect_from_wire (tw_effects w))) (\<lambda>effects.
       Ok \<lparr>tl_kind = kind_from_wire (tw_kind w), tl_success = tw_success w, tl_output = tw_output w,
           tl_error = tw_error w, tl_failure = failure, tl_data = data, tl_truncated = tw_truncated w,
           tl_mime_type = tw_mime_type w, tl_artifact = artifact, tl_metadata = tw_metadata w,
           tl_model_content = map content_from_wire (tw_model_content w), tl_effects = effects\<rparr>))))"

section \<open>To the wire\<close>

fun kind_to_wire :: "tool_result_kind \<Rightarrow> tool_result_kind_wire" where
  "kind_to_wire KText = TextWire"
| "kind_to_wire KJson = JsonWire"
| "kind_to_wire (KImage mime_type) = ImageWire mime_type"
| "kind_to_wire (KTable columns rows) = TableWire columns rows"
| "kind_to_wire (KDiff unified_diff) = DiffWire unified_diff"
| "kind_to_wire (KFileReference path) = FileReferenceWire path"
| "kind_to_wire (KCommandOutput exit_code) = CommandOutputWire exit_code"
| "kind_to_wire (KSkillActivation name) = SkillActivationWire name"
| "kind_to_wire (KStructuredError code) = StructuredErrorWire code"

text \<open>\<open>as_str\<close> of the framework's failure category and recovery action.\<close>

record tool_names =
  tn_category :: "tool_failure_category \<Rightarrow> string"
  tn_recovery :: "tool_recovery_action \<Rightarrow> string"

definition side_effect_str :: "tool_side_effect \<Rightarrow> string" where
  "side_effect_str e =
     (case e of SideNone \<Rightarrow> ''none'' | SidePossible \<Rightarrow> ''possible'' | SideConfirmed \<Rightarrow> ''confirmed'')"

definition tool_failure_to_wire :: "tool_names \<Rightarrow> tool_failure \<Rightarrow> tool_failure_wire" where
  "tool_failure_to_wire names f =
     \<lparr>tfw_category = tn_category names (tf_category f), tfw_recovery = tn_recovery names (tf_recovery f),
      tfw_side_effect = side_effect_str (tf_side_effect f),
      tfw_retry_after_ms = map_option from_u64 (tf_retry_after_ms f),
      tfw_idempotency_key = tf_idempotency_key f, tfw_postcondition = tf_postcondition f\<rparr>"

definition artifact_to_wire :: "path_codec \<Rightarrow> artifact_ref \<Rightarrow> string + artifact_ref_wire" where
  "artifact_to_wire pc a =
     map_ok (\<lambda>path.
       \<lparr>arw_path = path, arw_artifact_bytes = from_u64 (ar_artifact_bytes a),
        arw_payload_bytes = from_u64 (ar_payload_bytes a), arw_sha256 = ar_sha256 a,
        arw_retention = ar_retention a\<rparr>) (path_to_wire pc (ar_path a))"

text \<open>On a 64-bit target every \<open>usize\<close> is a \<open>u64\<close>, so the conversion of the count cannot fail.\<close>

fun effect_to_wire :: "tool_effect \<Rightarrow> string + tool_effect_wire" where
  "effect_to_wire (FileRead path) = Ok (FileReadWire path)"
| "effect_to_wire (FileEdit path) = Ok (FileEditWire path)"
| "effect_to_wire (TestRun command passed failure_count) =
     Ok (TestRunWire command passed (map_option from_u64 failure_count))"
| "effect_to_wire (SubagentRun agent_name task outcome) = Ok (SubagentRunWire agent_name task outcome)"

fun content_to_wire :: "tool_content \<Rightarrow> tool_content_wire" where
  "content_to_wire (ImageUrl url detail) = ImageUrlWire url detail"

definition tool_result_to_wire :: "tool_names \<Rightarrow> path_codec \<Rightarrow> tool_result \<Rightarrow> string + tool_result_wire" where
  "tool_result_to_wire names pc r =
     and_then (transpose_with (artifact_to_wire pc) (tl_artifact r)) (\<lambda>artifact.
     and_then (transpose_with (\<lambda>d. map_err display_scalar_error (from_json d)) (tl_data r)) (\<lambda>data.
     and_then (collect_ok (map effect_to_wire (tl_effects r))) (\<lambda>effects.
       Ok \<lparr>tw_kind = kind_to_wire (tl_kind r), tw_success = tl_success r, tw_output = tl_output r,
           tw_error = tl_error r, tw_failure = map_option (tool_failure_to_wire names) (tl_failure r),
           tw_data = data, tw_truncated = tl_truncated r, tw_mime_type = tl_mime_type r,
           tw_artifact = artifact, tw_metadata = sort_key fst (tl_metadata r),
           tw_model_content = map content_to_wire (tl_model_content r), tw_effects = effects\<rparr>)))"

section \<open>Chat messages\<close>

datatype reasoning_block_wire =
    SignedWire string string
  | RedactedWire string
  | OpaqueWire string string string "string list"

datatype reasoning_block = Signed string string | Redacted string | Opaque string string string "string list"

record tool_call_wire =
  tcw_id :: string
  tcw_call_type :: string
  tcw_function_name :: string
  tcw_arguments :: string

record llm_message_wire =
  lm_role :: string
  lm_content :: wire_value
  lm_tool_calls :: "tool_call_wire list option"
  lm_name :: "string option"
  lm_tool_call_id :: "string option"
  lm_reasoning_content :: "string option"
  lm_reasoning_blocks :: "reasoning_block_wire list option"

record tool_call =
  tc_id :: string
  tc_call_type :: string
  tc_function :: "string \<times> string"

record 'c chat_message =
  cm_role :: string
  cm_content :: 'c
  cm_tool_calls :: "tool_call list option"
  cm_name :: "string option"
  cm_tool_call_id :: "string option"
  cm_reasoning_content :: "string option"
  cm_reasoning_blocks :: "reasoning_block list option"

fun block_from_wire :: "reasoning_block_wire \<Rightarrow> reasoning_block" where
  "block_from_wire (SignedWire thinking signature) = Signed thinking signature"
| "block_from_wire (RedactedWire d) = Redacted d"
| "block_from_wire (OpaqueWire provider i d summary) = Opaque provider i d summary"

definition tool_call_from_wire :: "tool_call_wire \<Rightarrow> tool_call" where
  "tool_call_from_wire c =
     \<lparr>tc_id = tcw_id c, tc_call_type = tcw_call_type c,
      tc_function = (tcw_function_name c, tcw_arguments c)\<rparr>"

definition message_from_wire ::
  "(json \<Rightarrow> string + 'c) \<Rightarrow> llm_message_wire \<Rightarrow> string + 'c chat_message" where
  "message_from_wire decode_content m =
     map_ok (\<lambda>content.
       \<lparr>cm_role = lm_role m, cm_content = content,
        cm_tool_calls = map_option (map tool_call_from_wire) (lm_tool_calls m), cm_name = lm_name m,
        cm_tool_call_id = lm_tool_call_id m, cm_reasoning_content = lm_reasoning_content m,
        cm_reasoning_blocks = map_option (map block_from_wire) (lm_reasoning_blocks m)\<rparr>)
     (and_then (map_err display_scalar_error (into_json (lm_content m))) decode_content)"

section \<open>Lemmas\<close>

lemma transpose_with_simps [simp]:
  "transpose_with f None = Ok None" "transpose_with f (Some v) = map_ok Some (f v)"
  by (simp_all add: transpose_with_def)

lemma kind_round_trip [simp]: "kind_from_wire (kind_to_wire k) = k"
  by (cases k) auto

lemma content_round_trip [simp]: "content_from_wire (content_to_wire c) = c"
  by (cases c) auto

lemma effect_to_wire_Ok:
  "\<exists>w. effect_to_wire e = Ok w \<and> effect_from_wire w = Ok e"
  by (cases e) (auto split: option.splits simp: transpose_with_def)

lemma effects_round_trip:
  "\<exists>ws. collect_ok (map effect_to_wire es) = Ok ws \<and> collect_ok (map effect_from_wire ws) = Ok es"
proof (induction es)
  case (Cons e es)
  from effect_to_wire_Ok [of e] Cons.IH show ?case by auto
qed simp

text \<open>The serialized names of the failure enums are the ones the decoder knows.\<close>

definition tool_names_ok :: "tool_names \<Rightarrow> bool" where
  "tool_names_ok names =
     ((\<forall>c. hget failure_category_names (tn_category names c) = Some c) \<and>
      (\<forall>r. hget recovery_names (tn_recovery names r) = Some r))"

lemma side_effect_round_trip [simp]: "hget side_effect_names (side_effect_str e) = Some e"
  by (cases e) (simp_all add: side_effect_names_def side_effect_str_def)

lemma tool_failure_round_trip:
  "tool_names_ok names \<Longrightarrow> tool_failure_from_wire (tool_failure_to_wire names f) = Ok f"
  by (cases "tf_retry_after_ms f")
    (simp_all add: tool_failure_from_wire_def tool_failure_to_wire_def tool_names_ok_def)

lemma artifact_round_trip:
  assumes "path_codec_ok pc" and "0 \<notin> set (ar_path a)"
  shows "if native_is_absolute (ar_path a)
    then \<exists>w. artifact_to_wire pc a = Ok w \<and> artifact_from_wire pc w = Ok a
    else \<not> is_ok (artifact_to_wire pc a)"
proof (cases "native_is_absolute (ar_path a)")
  case True
  from path_to_wire_valid [OF assms(1) True assms(2)] obtain w
    where w: "path_to_wire pc (ar_path a) = Ok w" "is_ok (validate_path (pc_decode pc) w)"
      "to_path_buf pc w = Ok (ar_path a)" by blast
  then have "path_from_wire pc w = Ok (ar_path a)" by (auto simp: path_from_wire_def is_ok_iff)
  with True w(1) show ?thesis by (simp add: artifact_to_wire_def artifact_from_wire_def)
qed (simp add: artifact_to_wire_def path_to_wire_def)

section \<open>Properties\<close>

text \<open>A tool result survives the shared projection: every result whose data is JSON the decoder can
  hold and whose artifact path is absolute goes to the wire, and reading that back gives the very same
  kind, failure, data, artifact, effects and model content; the metadata is the same map, in key order.\<close>

theorem tool_result_round_trip:
  assumes "tool_names_ok names" and "path_codec_ok pc"
    and "case tl_artifact r of None \<Rightarrow> True | Some a \<Rightarrow> native_is_absolute (ar_path a) \<and> 0 \<notin> set (ar_path a)"
    and "case tl_data r of None \<Rightarrow> True | Some d \<Rightarrow> json_ok d"
  shows "\<exists>w. tool_result_to_wire names pc r = Ok w \<and>
    tool_result_from_wire pc w = Ok (r\<lparr>tl_metadata := sort_key fst (tl_metadata r)\<rparr>)"
proof -
  obtain artifact where a: "transpose_with (artifact_to_wire pc) (tl_artifact r) = Ok artifact"
    "transpose_with (artifact_from_wire pc) artifact = Ok (tl_artifact r)"
    using assms(2,3) artifact_round_trip [of pc] by (cases "tl_artifact r") (auto, force)
  obtain d where d: "transpose_with (\<lambda>d. map_err display_scalar_error (from_json d)) (tl_data r) = Ok d"
    "transpose_with (\<lambda>v. map_err display_scalar_error (into_json v)) d = Ok (tl_data r)"
    using assms(4) by (cases "tl_data r") (auto simp: from_json_total into_json_wire_of)
  obtain effects where e: "collect_ok (map effect_to_wire (tl_effects r)) = Ok effects"
    "collect_ok (map effect_from_wire effects) = Ok (tl_effects r)"
    using effects_round_trip by blast
  have f: "transpose_with tool_failure_from_wire (map_option (tool_failure_to_wire names) (tl_failure r)) =
      Ok (tl_failure r)"
    using tool_failure_round_trip [OF assms(1)] by (cases "tl_failure r") simp_all
  show ?thesis
    using a d e f by (simp add: tool_result_to_wire_def tool_result_from_wire_def comp_def)
qed

definition sample_tool_names :: tool_names where
  "sample_tool_names =
     \<lparr>tn_category = (\<lambda>c. case c of InvalidArguments \<Rightarrow> ''invalid_arguments'' | Unavailable \<Rightarrow> ''unavailable''
        | Timeout \<Rightarrow> ''timeout'' | TfCancelled \<Rightarrow> ''cancelled'' | Transient \<Rightarrow> ''transient''
        | Permanent \<Rightarrow> ''permanent'' | PartialSideEffect \<Rightarrow> ''partial_side_effect''),
      tn_recovery = (\<lambda>r. case r of CorrectArguments \<Rightarrow> ''correct_arguments'' | Retry \<Rightarrow> ''retry''
        | RestoreThenRetry \<Rightarrow> ''restore_then_retry'' | VerifyThenRetry \<Rightarrow> ''verify_then_retry'' | Stop \<Rightarrow> ''stop'')\<rparr>"

lemma sample_tool_names_ok: "tool_names_ok sample_tool_names"
proof -
  have "hget failure_category_names (tn_category sample_tool_names c) = Some c" for c
    by (cases c) (simp_all add: failure_category_names_def sample_tool_names_def)
  moreover have "hget recovery_names (tn_recovery sample_tool_names r) = Some r" for r
    by (cases r) (simp_all add: recovery_names_def sample_tool_names_def)
  ultimately show ?thesis by (simp add: tool_names_ok_def)
qed

definition sample_tool_result :: tool_result where
  "sample_tool_result =
     \<lparr>tl_kind = KCommandOutput (Some 3), tl_success = False, tl_output = ''out'', tl_error = Some ''bad'',
      tl_failure = Some \<lparr>tf_category = Timeout, tf_recovery = Retry, tf_side_effect = SidePossible,
        tf_retry_after_ms = Some 250, tf_idempotency_key = None, tf_postcondition = None\<rparr>,
      tl_data = Some (JArray [JNull, JNumber (PosInt 7)]), tl_truncated = True, tl_mime_type = None,
      tl_artifact = Some \<lparr>ar_path = [47, 200], ar_artifact_bytes = 9, ar_payload_bytes = 8,
        ar_sha256 = ''d'', ar_retention = ''run''\<rparr>,
      tl_metadata = [(''b'', ''1''), (''a'', ''2'')], tl_model_content = [ImageUrl ''u'' None],
      tl_effects = [TestRun ''make test'' False (Some 2), FileEdit ''x'']\<rparr>"

theorem tool_result_round_trip_witness:
  "\<exists>w. tool_result_to_wire sample_tool_names sample_path_codec sample_tool_result = Ok w \<and>
    tool_result_from_wire sample_path_codec w =
      Ok (sample_tool_result\<lparr>tl_metadata := sort_key fst (tl_metadata sample_tool_result)\<rparr>)"
  by (rule tool_result_round_trip [OF sample_tool_names_ok sample_path_codec_ok])
    (simp_all add: sample_tool_result_def native_is_absolute_def)

end
