(* ===== verification/Core_Messages.thy ===== *)
theory Core_Messages
  imports Publication Tool_Wire
begin

text \<open>
  The typed messages of the core handlers (\<open>echo-sdk-protocol/src/methods.rs\<close>): the requests on Agents,
  Sessions and Runs with their validation, and the responses. The length of an encoded chat message
  is an argument; the validation of paths takes base64.
\<close>

section \<open>Sessions\<close>

record session_create_request =
  cq_agent :: wire_handle
  cq_working_dir :: "wire_path option"
  cq_session_id :: "string option"
  cq_idempotency_id :: "string option"

text \<open>The bound shared by the optional identities of the requests.\<close>

abbreviation (input) "unbounded_id i \<equiv> blank i \<or> 256 < length i"

definition bad_optional_id :: "string option \<Rightarrow> bool" where
  "bad_optional_id i = (case i of None \<Rightarrow> False | Some i \<Rightarrow> unbounded_id i)"

definition bad_working_dir :: "base64_decoder \<Rightarrow> wire_path option \<Rightarrow> bool" where
  "bad_working_dir b64 p = (case p of None \<Rightarrow> False | Some p \<Rightarrow> \<not> is_ok (validate_path b64 p))"

definition validate_session_create :: "base64_decoder \<Rightarrow> session_create_request \<Rightarrow> string + unit" where
  "validate_session_create b64 q =
     and_then (map_err (\<lambda>_. ''invalid Agent handle'') (validate_handle (cq_agent q))) (\<lambda>_.
     and_then (reject_if (bad_working_dir b64 (cq_working_dir q)) ''invalid working_dir'') (\<lambda>_.
     and_then (reject_if (bad_optional_id (cq_session_id q)) ''session_id must be non-empty and bounded'') (\<lambda>_.
       reject_if (bad_optional_id (cq_idempotency_id q)) ''idempotency_id must be non-empty and bounded'')))"

record session_load_request =
  lq_agent :: wire_handle
  lq_session_id :: string
  lq_working_dir :: "wire_path option"

definition validate_session_load :: "base64_decoder \<Rightarrow> session_load_request \<Rightarrow> string + unit" where
  "validate_session_load b64 q =
     and_then (map_err (\<lambda>_. ''invalid Agent handle'') (validate_handle (lq_agent q))) (\<lambda>_.
     and_then (reject_if (unbounded_id (lq_session_id q)) ''session_id must be non-empty and bounded'') (\<lambda>_.
       reject_if (bad_working_dir b64 (lq_working_dir q)) ''invalid working_dir''))"

record recovered_run_wire =
  rw_run :: wire_handle
  rw_stream :: wire_handle
  rw_status :: run_status
  rw_last_sequence :: wire_u64
  rw_terminal :: "run_terminal option"

definition validate_recovered_run_wire :: "recovered_run_wire \<Rightarrow> string + unit" where
  "validate_recovered_run_wire r =
     and_then (reject_if (h_kind (rw_run r) \<noteq> RunKind \<or> h_kind (rw_stream r) \<noteq> StreamKind)
                 ''recovered run handles must be run and stream kind'') (\<lambda>_.
     and_then (reject_if (rw_status r = StInterrupted \<and> rw_terminal r \<noteq> None)
                 ''interrupted runs never carry a terminal'') (\<lambda>_.
       case rw_terminal r of None \<Rightarrow> Ok () | Some t \<Rightarrow> validate_terminal t))"

record session_load_response =
  lr_session :: wire_handle
  lr_task_run :: wire_handle
  lr_acp_session_id :: string
  lr_recovered_sequence :: "wire_u64 option"
  lr_runs :: "recovered_run_wire list"

section \<open>Runs\<close>

datatype run_input =
    Chat string
  | ChatMessage llm_message_wire
  | ExecuteMessage llm_message_wire
  | Execute string

definition max_input_chars :: nat where "max_input_chars = 1048576"
definition max_message_bytes :: nat where "max_message_bytes = 4 * 1024 * 1024"

text \<open>\<open>serde_json::to_vec(message).unwrap_or_default().len()\<close> is \<open>encoded_len\<close>.\<close>

fun input_problems :: "(llm_message_wire \<Rightarrow> nat) \<Rightarrow> run_input \<Rightarrow> bool \<times> bool" where
  "input_problems encoded_len (Chat content) = (blank content, max_input_chars < length content)"
| "input_problems encoded_len (ChatMessage m) = (blank (lm_role m), max_message_bytes < encoded_len m)"
| "input_problems encoded_len (ExecuteMessage m) = (blank (lm_role m), max_message_bytes < encoded_len m)"
| "input_problems encoded_len (Execute task) = (blank task, max_input_chars < length task)"

definition validate_run_input :: "(llm_message_wire \<Rightarrow> nat) \<Rightarrow> run_input \<Rightarrow> string + unit" where
  "validate_run_input encoded_len i =
     (case input_problems encoded_len i of (blank_input, over_limit) \<Rightarrow>
        if blank_input then Err ''run input text must not be empty''
        else if over_limit then Err ''run input text exceeds the character bound''
        else Ok ())"

fun input_kind :: "run_input \<Rightarrow> string" where
  "input_kind (Chat _) = ''chat''"
| "input_kind (ChatMessage _) = ''chat''"
| "input_kind (ExecuteMessage _) = ''execute''"
| "input_kind (Execute _) = ''execute''"

record run_start_request =
  sq_session :: wire_handle
  sq_input :: run_input
  sq_idempotency_id :: "string option"

definition validate_run_start :: "(llm_message_wire \<Rightarrow> nat) \<Rightarrow> run_start_request \<Rightarrow> string + unit" where
  "validate_run_start encoded_len q =
     and_then (map_err (\<lambda>_. ''invalid Session handle'') (validate_handle (sq_session q))) (\<lambda>_.
     and_then (validate_run_input encoded_len (sq_input q)) (\<lambda>_.
       reject_if (bad_optional_id (sq_idempotency_id q)) ''idempotency_id must be non-empty and bounded''))"

record run_get_response =
  gr_status :: run_status
  gr_last_sequence :: wire_u64
  gr_stream :: "wire_handle option"
  gr_terminal :: "run_terminal option"
  gr_receipt :: "run_receipt option"

record run_wait_request =
  wq_run :: wire_handle
  wq_timeout :: "wire_duration option"

definition validate_run_wait :: "run_wait_request \<Rightarrow> string + unit" where
  "validate_run_wait q =
     and_then (map_err (\<lambda>_. ''invalid Run handle'') (validate_handle (wq_run q))) (\<lambda>_.
       reject_if (case wq_timeout q of None \<Rightarrow> False
                  | Some t \<Rightarrow> \<not> is_ok (validate_duration t) \<or> to_u64 (dur_seconds t) = None)
         ''timeout nanos must be below one second'')"

record run_wait_response =
  wr_settled :: bool
  wr_terminal :: "run_terminal option"
  wr_receipt :: "run_receipt option"

record run_cancel_response =
  xr_initiated :: bool
  xr_status :: run_status

record run_steer_request =
  eq_run :: wire_handle
  eq_content :: string

definition validate_run_steer :: "run_steer_request \<Rightarrow> string + unit" where
  "validate_run_steer q =
     (if blank (eq_content q) then Err ''steer text must not be empty''
      else if max_input_chars < length (eq_content q) then Err ''steer text exceeds the character bound''
      else Ok ())"

record run_steer_response =
  er_accepted :: bool
  er_steer_id :: "string option"

section \<open>Lemmas\<close>

lemma validate_run_start_Ok:
  "validate_run_start encoded_len q = Ok u \<longleftrightarrow>
     validate_handle (sq_session q) = Ok () \<and> validate_run_input encoded_len (sq_input q) = Ok () \<and>
     \<not> bad_optional_id (sq_idempotency_id q)"
  by (auto simp: validate_run_start_def res_simps)

text \<open>A validated timeout is a duration without carry: \<open>Duration::new\<close> cannot overflow on it.\<close>

lemma validated_timeout:
  assumes "is_ok (validate_run_wait q)" and "wq_timeout q = Some t"
  shows "unat (dur_nanos t) < nanos_per_second \<and> to_u64 (dur_seconds t) \<noteq> None"
  using assms by (auto simp: validate_run_wait_def res_simps is_ok_iff validate_duration_def reject_if_def split: if_splits)

end
