(* ===== verification/Run_Handlers.thy ===== *)
theory Run_Handlers
  imports Core_Messages Settlement
begin

text \<open>
  The run handlers (\<open>run_start_fresh\<close> to \<open>event_ack\<close> of \<open>core_profile/handler.rs\<close>) over the state they
  share: the handle registry with its publications and the durable settlement. The answers of the
  framework (Sessions, turns, journals, the driver) are the record \<open>run_env\<close>; the calls that change the
  framework's own state are logged in order in \<open>hs_calls\<close>. A handler is one definition, composed of the
  sections between which the code decides to return early; what the code undoes on each early return
  is written out.
\<close>

section \<open>State and environment\<close>

datatype framework_call =
    TurnBegun string
  | RunPrepared string
  | RunRemoved string
  | DriverSpawned string
  | RunCancelled string
  | SessionInserted string
  | SessionClosed string

record ('d, 'j) host_state =
  hs_world :: "'d publication_world"
  hs_core :: "'j core_state"
  hs_calls :: "framework_call list"

abbreviation hs_registry :: "('d, 'j) host_state \<Rightarrow> 'd handle_inner" where
  "hs_registry s \<equiv> pw_registry (hs_world s)"

definition set_registry :: "'d handle_inner \<Rightarrow> ('d, 'j) host_state \<Rightarrow> ('d, 'j) host_state" where
  "set_registry r s = s\<lparr>hs_world := (hs_world s)\<lparr>pw_registry := r\<rparr>\<rparr>"

definition on_core :: "('j core_state \<Rightarrow> 'j core_state) \<Rightarrow> ('d, 'j) host_state \<Rightarrow> ('d, 'j) host_state" where
  "on_core f s = s\<lparr>hs_core := f (hs_core s)\<rparr>"

definition call :: "framework_call \<Rightarrow> ('d, 'j) host_state \<Rightarrow> ('d, 'j) host_state" where
  "call c s = s\<lparr>hs_calls := hs_calls s @ [c]\<rparr>"

text \<open>
  A live run of the framework as the handlers read it; \<open>le_waited\<close> is the receipt the bounded wait
  returns, if it does not time out, and \<open>le_cancelled\<close> what \<open>cancel\<close> and the receipt after it are.
\<close>

record live_entry =
  le_session_id :: string
  le_stream_id :: string
  le_last_sequence :: u64
  le_receipt :: "turn_receipt option"
  le_waited :: "turn_receipt option"
  le_cancelled :: "bool \<times> turn_receipt option"

record 'j run_env =
  rn_codec :: error_codec
  rn_connection :: connection
  rn_advertisement :: echo_capability
  rn_settlement :: settlement_env
  rn_paths :: path_codec
  rn_encoded_len :: "llm_message_wire \<Rightarrow> nat"
  rn_decode_content :: "json \<Rightarrow> string + unit"
  rn_max_outstanding :: usize
  rn_max_event_bytes :: usize
  rn_session_cwd :: "string \<Rightarrow> native_path option"
  rn_begin_turn :: "string \<Rightarrow> string + string"
  rn_identity :: "string \<Rightarrow> string \<Rightarrow> framework_observation + string"
  rn_open_journal :: "string \<Rightarrow> string + 'j"
  rn_observe :: "react_error \<Rightarrow> framework_observation"
  rn_prepare :: "string \<Rightarrow> framework_observation option"
  rn_spawn :: "string \<Rightarrow> handler_error option"
  rn_show_error :: "handler_error \<Rightarrow> string"
  rn_entry :: "string \<Rightarrow> live_entry"
  rn_steer :: "string \<Rightarrow> string \<Rightarrow> string option"

abbreviation rn_disk :: "'j run_env \<Rightarrow> disk" where "rn_disk env \<equiv> se_disk (rn_settlement env)"

definition typed :: "'j run_env \<Rightarrow> sdk_err \<Rightarrow> handler_error" where
  "typed env e = typed_error (rn_codec env) e"

definition typed_framework :: "'j run_env \<Rightarrow> string \<Rightarrow> framework_observation \<Rightarrow> handler_error" where
  "typed_framework env operation obs = typed env (framework_error (se_names (rn_settlement env)) obs operation)"

definition handler_admission ::
  "'j run_env \<Rightarrow> extension_capability \<Rightarrow> string \<Rightarrow> handler_error + unit" where
  "handler_admission env capability operation =
     admission (rn_codec env) (rn_connection env) (rn_advertisement env) capability operation"

definition invalid_value :: "string \<Rightarrow> string \<Rightarrow> sdk_err" where
  "invalid_value operation reason = sdk_error InvalidValue reason Never operation"

section \<open>Starting a run\<close>

definition run_start_operation :: string where "run_start_operation = ''_echo_agent/run/start''"

definition resolve_session :: "'j run_env \<Rightarrow> wire_handle \<Rightarrow> 'd handle_inner \<Rightarrow> sdk_err + string \<times> native_path" where
  "resolve_session env h s =
     and_then (session h s) (\<lambda>e.
       if sn_closing e then Err (handle_error ClosedHandle ''Session is closing'' ''_echo_agent/session'' h)
       else case cn_services_error (rn_connection env) of
         Some t \<Rightarrow> Err (sdk_error HostShuttingDown t Never ''_echo_agent/session'')
       | None \<Rightarrow>
           (case rn_session_cwd env (sn_acp_session_id e) of
              None \<Rightarrow> Err (handle_error ClosedHandle ''the underlying ACP Session is gone'' run_start_operation h)
            | Some cwd \<Rightarrow> Ok (sn_acp_session_id e, cwd)))"

text \<open>The checks before the turn begins: the ladder, the Session and the Agent it belongs to.\<close>

definition run_start_checks ::
  "'j run_env \<Rightarrow> run_start_request \<Rightarrow> 'd handle_inner \<Rightarrow> handler_error + (string \<times> native_path) \<times> string \<times> string" where
  "run_start_checks env q s =
     and_then (handler_admission env Runs run_start_operation) (\<lambda>_. map_err (typed env)
      (and_then (map_err (invalid_value run_start_operation) (validate_run_start (rn_encoded_len env) q)) (\<lambda>_.
       and_then (check_shape_and_generation s (sq_session q) SessionKind run_start_operation) (\<lambda>_.
       and_then (resolve_session env (sq_session q) s) (\<lambda>resolved.
       and_then (session (sq_session q) s) (\<lambda>e.
         if sn_closing e then Err (handle_error ClosedHandle ''Session is closing'' run_start_operation (sq_session q))
         else map_ok (\<lambda>fingerprint. (resolved, sn_agent_handle_id e, fingerprint))
                (agent_fingerprint (issued s AgentKind (sn_agent_handle_id e)) s)))))))"

text \<open>The turn begins, behind the admission of the publication when the request carries a key.\<close>

definition begin_turn ::
  "'j run_env \<Rightarrow> nat option \<Rightarrow> string \<Rightarrow> ('d, 'j) host_state \<Rightarrow> (handler_error + string) \<times> ('d, 'j) host_state" where
  "begin_turn env publication acp s =
     (let admitted = map_err (\<lambda>e. typed env (sdk_error InvalidRequest e AfterDelay run_start_operation))
                       (rn_begin_turn env acp)
      in case (case publication of
                 None \<Rightarrow> (admitted, hs_world s)
               | Some a \<Rightarrow> admit_publication_effects (typed env) a admitted (hs_world s)) of
           (Inl e, w) \<Rightarrow> (Err e, s\<lparr>hs_world := w\<rparr>)
         | (Inr run_id, w) \<Rightarrow> (Ok run_id, call (TurnBegun run_id) (s\<lparr>hs_world := w\<rparr>)))"

fun decode_input :: "'j run_env \<Rightarrow> run_input \<Rightarrow> sdk_err + unit" where
  "decode_input env (Chat content) = Ok ()"
| "decode_input env (ChatMessage m) =
     map_ok (\<lambda>_. ()) (map_err (invalid_value run_start_operation) (message_from_wire (rn_decode_content env) m))"
| "decode_input env (ExecuteMessage m) =
     map_ok (\<lambda>_. ()) (map_err (invalid_value run_start_operation) (message_from_wire (rn_decode_content env) m))"
| "decode_input env (Execute task) = Ok ()"

text \<open>The identity, the input, the journal, the live delivery and the durable record of a run.\<close>

definition new_run_delivery :: "'j run_env \<Rightarrow> string \<Rightarrow> wire_handle \<Rightarrow> stream_delivery" where
  "new_run_delivery env run_id stream_handle =
     new_stream_delivery run_id stream_handle (rn_max_outstanding env)
       (saturating_mul (rn_max_event_bytes env) (rn_max_outstanding env)) (rn_max_event_bytes env)"

definition prepare_start ::
  "'j run_env \<Rightarrow> run_start_request \<Rightarrow> (string \<times> native_path) \<times> string \<times> string \<Rightarrow> string \<Rightarrow> ('d, 'j) host_state \<Rightarrow>
     (handler_error + string) \<times> ('d, 'j) host_state" where
  "prepare_start env q facts run_id s =
     (case facts of ((acp, cwd), agent_id, fingerprint) \<Rightarrow>
      case and_then (map_err (typed_framework env run_start_operation) (rn_identity env acp run_id)) (\<lambda>stream_id.
             map_ok (\<lambda>_. stream_id) (map_err (typed env) (decode_input env (sq_input q)))) of
        Inl e \<Rightarrow> (Err e, s)
      | Inr stream_id \<Rightarrow>
          (case cached_journal (rn_open_journal env) run_id (hs_core s) of
             (Inl e, c) \<Rightarrow> (Err (typed_framework env run_start_operation (rn_observe env e)), s\<lparr>hs_core := c\<rparr>)
           | (Inr _, c) \<Rightarrow>
               (case path_to_wire (rn_paths env) cwd of
                  Inl e \<Rightarrow> (Err (typed env (invalid_value run_start_operation e)), s\<lparr>hs_core := c\<rparr>)
                | Inr wire_cwd \<Rightarrow>
                    (case record_run_started (rn_disk env) run_id stream_id acp agent_id fingerprint
                            (Some wire_cwd) (input_kind (sq_input q)) (cs_files c) of
                       (Inl e, fs) \<Rightarrow>
                         (Err (typed_framework env run_start_operation (rn_observe env e)),
                          s\<lparr>hs_core := c\<lparr>cs_files := fs\<rparr>\<rparr>)
                     | (Inr _, fs) \<Rightarrow> (Ok stream_id, s\<lparr>hs_core := c\<lparr>cs_files := fs\<rparr>\<rparr>)))))"

text \<open>What the early returns after the durable record undo.\<close>

definition discard_run :: "'j run_env \<Rightarrow> string \<Rightarrow> ('d, 'j) host_state \<Rightarrow> ('d, 'j) host_state" where
  "discard_run env run_id =
     on_core (\<lambda>c. let c1 = remove_journal run_id (remove_delivery_for_run run_id c)
                  in c1\<lparr>cs_files := snd (remove_run (rn_disk env) run_id (cs_files c1))\<rparr>)"

definition withdraw_run :: "'j run_env \<Rightarrow> string \<Rightarrow> ('d, 'j) host_state \<Rightarrow> ('d, 'j) host_state" where
  "withdraw_run env run_id s = discard_run env run_id (call (RunRemoved run_id) s)"

definition unregister_run :: "'j run_env \<Rightarrow> string \<Rightarrow> ('d, 'j) host_state \<Rightarrow> ('d, 'j) host_state" where
  "unregister_run env run_id s =
     discard_run env run_id
       (let s1 = call (RunRemoved run_id) s in set_registry (remove_run_handles run_id (hs_registry s1)) s1)"

text \<open>The framework's run, its handles, the live delivery and the driver.\<close>

definition launch_run ::
  "'j run_env \<Rightarrow> wire_handle \<Rightarrow> string \<Rightarrow> string \<Rightarrow> string \<Rightarrow> ('d, 'j) host_state \<Rightarrow>
     (handler_error + run_start_response) \<times> ('d, 'j) host_state" where
  "launch_run env session_handle acp run_id stream_id s =
     (case rn_prepare env run_id of
        Some obs \<Rightarrow> (Err (typed_framework env run_start_operation obs), discard_run env run_id s)
      | None \<Rightarrow>
          let s1 = call (RunPrepared run_id) s in
          (case register_live_run run_id acp (Some (h_id session_handle)) (hs_registry s1) of
             (Inl e, r) \<Rightarrow> (Err (typed env e), withdraw_run env run_id (set_registry r s1))
           | (Inr (run_handle, _), r) \<Rightarrow>
               (case register_live_stream stream_id run_id r of
                  (Inl e, r') \<Rightarrow> (Err (typed env e), unregister_run env run_id (set_registry r' s1))
                | (Inr _, r') \<Rightarrow>
                    let stream_handle = issued r' StreamKind stream_id;
                        s2 = on_core begin_settlement (on_core (register_delivery
                               (new_run_delivery env run_id stream_handle)) (set_registry r' s1))
                    in (case rn_spawn env run_id of
                          Some e \<Rightarrow>
                            (Err e, unregister_run env run_id
                               (on_core (finish_settlement (Err (''failed to spawn run driver: '' @ rn_show_error env e))) s2))
                        | None \<Rightarrow>
                            (Ok \<lparr>rs_run = run_handle, rs_stream = stream_handle, rs_first_event = None\<rparr>,
                             call (DriverSpawned run_id) s2)))))"

text \<open>
  \<open>run_start_fresh\<close>. The reservation taken after the turn began is released by its guard on every
  early return and kept, \<open>durable.admit()\<close>, once the driver runs.
\<close>

definition run_start_reserved ::
  "'j run_env \<Rightarrow> run_start_request \<Rightarrow> (string \<times> native_path) \<times> string \<times> string \<Rightarrow> string \<Rightarrow> ('d, 'j) host_state \<Rightarrow>
     (handler_error + run_start_response) \<times> ('d, 'j) host_state" where
  "run_start_reserved env q facts run_id s =
     (case prepare_start env q facts run_id s of
        (Inl e, s1) \<Rightarrow> (Err e, s1)
      | (Inr stream_id, s1) \<Rightarrow> launch_run env (sq_session q) (fst (fst facts)) run_id stream_id s1)"

definition run_start_begun ::
  "'j run_env \<Rightarrow> run_start_request \<Rightarrow> (string \<times> native_path) \<times> string \<times> string \<Rightarrow> string \<Rightarrow> ('d, 'j) host_state \<Rightarrow>
     (handler_error + run_start_response) \<times> ('d, 'j) host_state" where
  "run_start_begun env q facts run_id s =
     (case reserve_durable_settlement run_id (hs_core s) of
        (Inl e, c) \<Rightarrow>
          (Err (typed env (sdk_error PayloadTooLarge e AfterDelay run_start_operation)), s\<lparr>hs_core := c\<rparr>)
      | (Inr _, c) \<Rightarrow>
          (case run_start_reserved env q facts run_id (s\<lparr>hs_core := c\<rparr>) of
             (Inl e, s2) \<Rightarrow> (Err e, on_core (release_durable_reservation run_id) s2)
           | (Inr response, s2) \<Rightarrow> (Ok response, s2)))"

definition run_start_fresh ::
  "'j run_env \<Rightarrow> run_start_request \<Rightarrow> nat option \<Rightarrow> ('d, 'j) host_state \<Rightarrow>
     (handler_error + run_start_response) \<times> ('d, 'j) host_state" where
  "run_start_fresh env q publication s =
     (case run_start_checks env q (hs_registry s) of
        Inl e \<Rightarrow> (Err e, s)
      | Inr facts \<Rightarrow>
          (case begin_turn env publication (fst (fst facts)) s of
             (Inl e, s1) \<Rightarrow> (Err e, s1)
           | (Inr run_id, s1) \<Rightarrow> run_start_begun env q facts run_id s1))"

text \<open>The task that observes the receipt of a started run.\<close>

definition settle_run :: "'j run_env \<Rightarrow> string \<Rightarrow> turn_receipt \<Rightarrow> ('d, 'j) host_state \<Rightarrow> ('d, 'j) host_state" where
  "settle_run env run_id receipt =
     on_core (\<lambda>c. finish_settlement (Ok ())
       (snd (persist_settled_receipt (rn_settlement env) run_id receipt (le_last_sequence (rn_entry env run_id)) c)))"

section \<open>Observing and steering runs\<close>

definition run_get_operation :: string where "run_get_operation = ''_echo_agent/run/get''"
definition run_wait_operation :: string where "run_wait_operation = ''_echo_agent/run/wait''"
definition run_cancel_operation :: string where "run_cancel_operation = ''_echo_agent/run/cancel''"
definition run_steer_operation :: string where "run_steer_operation = ''_echo_agent/run/steer''"

definition violation :: "string \<Rightarrow> string \<Rightarrow> sdk_err" where
  "violation operation e = sdk_error SerializationViolation e Never operation"

text \<open>The ladder and the lookup of a run, as the run handlers have them.\<close>

definition addressed_run :: "'d handle_inner \<Rightarrow> wire_handle \<Rightarrow> string \<Rightarrow> sdk_err + run_entry" where
  "addressed_run s h operation =
     and_then (check_shape_and_generation s h RunKind operation) (\<lambda>_. run h s)"

text \<open>The projection of a receipt, if there is one, to terminal and receipt on the wire.\<close>

definition project_receipt ::
  "'j run_env \<Rightarrow> string \<Rightarrow> turn_receipt \<Rightarrow> sdk_err + run_terminal \<times> run_receipt" where
  "project_receipt env operation receipt =
     and_then (map_err (violation operation) (terminal_of (se_names (rn_settlement env)) receipt)) (\<lambda>terminal.
     map_ok (Pair terminal) (map_err (violation operation) (receipt_wire (se_names (rn_settlement env)) receipt)))"

definition run_get :: "'j run_env \<Rightarrow> wire_handle \<Rightarrow> ('d, 'j) host_state \<Rightarrow> run_get_response handled" where
  "run_get env h s =
     and_then (handler_admission env Runs run_get_operation) (\<lambda>_. respond (rn_codec env)
       (and_then (addressed_run (hs_registry s) h run_get_operation) (\<lambda>e. case e of
          LiveRun _ \<Rightarrow>
            (let entry = rn_entry env (h_id h) in
             map_ok (\<lambda>p.
               \<lparr>gr_status = status_of (le_receipt entry), gr_last_sequence = from_u64 (le_last_sequence entry),
                gr_stream = Some (issued (hs_registry s) StreamKind (le_stream_id entry)),
                gr_terminal = map_option fst p, gr_receipt = map_option snd p\<rparr>)
              (transpose_with (project_receipt env run_get_operation) (le_receipt entry)))
        | RecoveredRun rv \<Rightarrow>
            Ok \<lparr>gr_status = rv_status rv, gr_last_sequence = from_u64 (rv_last_sequence rv),
                gr_stream = Some (issued (hs_registry s) StreamKind (rv_stream_id rv)),
                gr_terminal = rv_terminal rv, gr_receipt = rv_receipt rv\<rparr>)))"

text \<open>\<open>persist_receipt_now\<close>\<close>

definition persist_receipt_now ::
  "'j run_env \<Rightarrow> string \<Rightarrow> turn_receipt \<Rightarrow> ('d, 'j) host_state \<Rightarrow> (sdk_err + unit) \<times> ('d, 'j) host_state" where
  "persist_receipt_now env run_id receipt s =
     (case persist_settled_receipt (rn_settlement env) run_id receipt (le_last_sequence (rn_entry env run_id)) (hs_core s) of
        (r, c) \<Rightarrow>
          (map_err (\<lambda>e. sdk_error FrameworkError e AfterDelay run_wait_operation) r, s\<lparr>hs_core := c\<rparr>))"

text \<open>
  The answer for an observed receipt. The code has it twice: for a receipt that is there at once, and
  for the one the bounded wait returns.
\<close>

definition settle_answer ::
  "'j run_env \<Rightarrow> string \<Rightarrow> turn_receipt \<Rightarrow> ('d, 'j) host_state \<Rightarrow>
     (sdk_err + run_wait_response) \<times> ('d, 'j) host_state" where
  "settle_answer env run_id receipt s =
     (case persist_receipt_now env run_id receipt s of (r, s') \<Rightarrow>
        (and_then r (\<lambda>_. map_ok (\<lambda>(terminal, rc).
           \<lparr>wr_settled = True, wr_terminal = Some terminal, wr_receipt = Some rc\<rparr>)
           (project_receipt env run_wait_operation receipt)), s'))"

definition wait_for_run ::
  "'j run_env \<Rightarrow> wire_handle \<Rightarrow> run_entry \<Rightarrow> ('d, 'j) host_state \<Rightarrow>
     (sdk_err + run_wait_response) \<times> ('d, 'j) host_state" where
  "wait_for_run env h e s =
     (case e of
        LiveRun _ \<Rightarrow>
          (let entry = rn_entry env (h_id h) in
           case le_receipt entry of
             Some receipt \<Rightarrow> settle_answer env (h_id h) receipt s
           | None \<Rightarrow>
               (case le_waited entry of
                  Some receipt \<Rightarrow> settle_answer env (h_id h) receipt s
                | None \<Rightarrow> (Ok \<lparr>wr_settled = False, wr_terminal = None, wr_receipt = None\<rparr>, s)))
      | RecoveredRun rv \<Rightarrow>
          (if rv_status rv = StInterrupted
           then (Err (handle_error HostExited ''the run was interrupted when the previous Host process exited''
                   run_wait_operation h), s)
           else (Ok \<lparr>wr_settled = True, wr_terminal = rv_terminal rv, wr_receipt = rv_receipt rv\<rparr>, s)))"

definition run_wait ::
  "'j run_env \<Rightarrow> run_wait_request \<Rightarrow> ('d, 'j) host_state \<Rightarrow> run_wait_response handled \<times> ('d, 'j) host_state" where
  "run_wait env q s =
     (case handler_admission env Runs run_wait_operation of
        Inl e \<Rightarrow> (Err e, s)
      | Inr _ \<Rightarrow>
          (case and_then (map_err (invalid_value run_wait_operation) (validate_run_wait q)) (\<lambda>_.
                 addressed_run (hs_registry s) (wq_run q) run_wait_operation) of
             Inl e \<Rightarrow> (respond (rn_codec env) (Err e), s)
           | Inr e \<Rightarrow>
               (case wait_for_run env (wq_run q) e s of (r, s') \<Rightarrow> (respond (rn_codec env) r, s'))))"

definition run_cancel ::
  "'j run_env \<Rightarrow> wire_handle \<Rightarrow> ('d, 'j) host_state \<Rightarrow> run_cancel_response handled \<times> ('d, 'j) host_state" where
  "run_cancel env h s =
     (case handler_admission env Runs run_cancel_operation of
        Inl e \<Rightarrow> (Err e, s)
      | Inr _ \<Rightarrow>
          (case addressed_run (hs_registry s) h run_cancel_operation of
             Inl e \<Rightarrow> (respond (rn_codec env) (Err e), s)
           | Inr (LiveRun _) \<Rightarrow>
               (case le_cancelled (rn_entry env (h_id h)) of (initiated, receipt) \<Rightarrow>
                  (Ok (Ok \<lparr>xr_initiated = initiated, xr_status = status_of receipt\<rparr>),
                   call (RunCancelled (h_id h)) s))
           | Inr (RecoveredRun rv) \<Rightarrow> (Ok (Ok \<lparr>xr_initiated = False, xr_status = rv_status rv\<rparr>), s)))"

text \<open>\<open>{:?}\<close> of a run status.\<close>

definition debug_status :: "run_status \<Rightarrow> string" where
  "debug_status st =
     (case st of StPending \<Rightarrow> ''Pending'' | StRunning \<Rightarrow> ''Running'' | StPaused \<Rightarrow> ''Paused''
      | StCompleted \<Rightarrow> ''Completed'' | StCancelled \<Rightarrow> ''Cancelled'' | StFailed \<Rightarrow> ''Failed''
      | StInterrupted \<Rightarrow> ''Interrupted'' | StClosed \<Rightarrow> ''Closed'')"

definition run_steer ::
  "'j run_env \<Rightarrow> run_steer_request \<Rightarrow> ('d, 'j) host_state \<Rightarrow> run_steer_response handled" where
  "run_steer env q s =
     and_then (handler_admission env Runs run_steer_operation) (\<lambda>_.
     case and_then (map_err (invalid_value run_steer_operation) (validate_run_steer q)) (\<lambda>_.
          and_then (addressed_run (hs_registry s) (eq_run q) run_steer_operation) (\<lambda>e. case e of
            LiveRun _ \<Rightarrow> Ok (rn_entry env (h_id (eq_run q)))
          | RecoveredRun rv \<Rightarrow>
              Err (handle_error HostExited (''run status '' @ debug_status (rv_status rv) @ '' cannot be steered'')
                run_steer_operation (eq_run q)))) of
       Inl e \<Rightarrow> respond (rn_codec env) (Err e)
     | Inr entry \<Rightarrow>
         and_then (case cn_services_error (rn_connection env) of Some e \<Rightarrow> Err (RpcInternal e) | None \<Rightarrow> Ok ()) (\<lambda>_.
         and_then (ok_or (rn_session_cwd env (le_session_id entry)) (RpcInternal ''run session missing'')) (\<lambda>_.
           Ok (Ok (case rn_steer env (h_id (eq_run q)) (eq_content q) of
                     Some steer_id \<Rightarrow> \<lparr>er_accepted = True, er_steer_id = Some steer_id\<rparr>
                   | None \<Rightarrow> \<lparr>er_accepted = False, er_steer_id = None\<rparr>)))))"

section \<open>Replay and acknowledgement\<close>

record 'j replay_limits =
  rp_env :: replay_env
  rp_delivery :: delivery_env
  rp_journal :: "'j \<Rightarrow> replay_journal"
  rp_max_events :: usize
  rp_max_bytes :: usize
  rp_send_error :: "string \<Rightarrow> handler_error"

definition requested_page :: "'j replay_limits \<Rightarrow> replay_request \<Rightarrow> usize" where
  "requested_page rp q =
     min (option_default (Option.bind (rq_max_events q) nz_to_u64) (- 1)) (rp_max_events rp)"

text \<open>The page leaves through the delivery of the stream, when it has one, so its cursor may be acknowledged.\<close>

definition answer_replay ::
  "'j replay_limits \<Rightarrow> wire_handle \<Rightarrow> replay_response \<Rightarrow> 'j core_state \<Rightarrow> replay_response handled \<times> 'j core_state" where
  "answer_replay rp h response c =
     (case hget (cs_deliveries c) (h_id h) of
        None \<Rightarrow> (Ok (Ok response), c)
      | Some d \<Rightarrow>
          (case publish_replay (rp_delivery rp) d h response of (r, d') \<Rightarrow>
             (case r of
                Inl (ReplayData t) \<Rightarrow> Err (RpcInternal t)
              | Inl (ReplaySend t) \<Rightarrow> Err (rp_send_error rp t)
              | Inr _ \<Rightarrow> Ok (Ok response),
              c\<lparr>cs_deliveries := hput (h_id h) d' (cs_deliveries c)\<rparr>)))"

definition run_replay ::
  "'j run_env \<Rightarrow> 'j replay_limits \<Rightarrow> replay_request \<Rightarrow> ('d, 'j) host_state \<Rightarrow>
     replay_response handled \<times> ('d, 'j) host_state" where
  "run_replay env rp q s =
     (case handler_admission env EventReplayCap replay_operation of
        Inl e \<Rightarrow> (Err e, s)
      | Inr _ \<Rightarrow>
          (case and_then (map_err (\<lambda>e. invalid_value replay_operation (''invalid replay request: '' @ display_event_error e))
                   (validate_replay_request q)) (\<lambda>_.
                 and_then (check_shape_and_generation (hs_registry s) (rq_stream q) StreamKind replay_operation) (\<lambda>_.
                   stream (rq_stream q) (hs_registry s))) of
             Inl e \<Rightarrow> (respond (rn_codec env) (Err e), s)
           | Inr st \<Rightarrow>
               (case cached_journal (rn_open_journal env) (st_run_handle_id st) (hs_core s) of
                  (Inl e, c) \<Rightarrow>
                    (Ok (Err (typed_framework env replay_operation (rn_observe env e))), s\<lparr>hs_core := c\<rparr>)
                | (Inr journal, c) \<Rightarrow>
                    (case bounded_replay (rp_env rp) (rp_max_bytes rp) (rp_journal rp journal) (rq_stream q)
                            (option_default (to_u64 (rq_after q)) 0) (requested_page rp q) of
                       Inl e \<Rightarrow> (respond (rn_codec env) (Err e), s\<lparr>hs_core := c\<rparr>)
                     | Inr response \<Rightarrow>
                         (case answer_replay rp (rq_stream q) response c of (r, c') \<Rightarrow> (r, s\<lparr>hs_core := c'\<rparr>))))))"

text \<open>A notification is never answered: what is malformed or unknown is ignored.\<close>

definition event_ack_operation :: string where "event_ack_operation = ''_echo_agent/event/ack''"

definition handle_event_ack :: "delivery_env \<Rightarrow> event_ack \<Rightarrow> ('d, 'j) host_state \<Rightarrow> ('d, 'j) host_state" where
  "handle_event_ack denv ack s =
     (if \<not> is_ok (validate_ack ack) then s
      else if \<not> is_ok (check_shape_and_generation (hs_registry s) (ack_stream ack) StreamKind event_ack_operation) then s
      else case hget (cs_deliveries (hs_core s)) (h_id (ack_stream ack)) of
        None \<Rightarrow> s
      | Some d \<Rightarrow>
          on_core (\<lambda>c. c\<lparr>cs_deliveries :=
            hput (h_id (ack_stream ack)) (snd (acknowledge denv d ack)) (cs_deliveries c)\<rparr>) s)"

end
