(* ===== verification/Run_Start.thy ===== *)
theory Run_Start
  imports Run_Handlers
begin

text \<open>
  Starting a run is all or nothing: what every early return of \<open>run_start_fresh\<close> leaves behind.
\<close>

section \<open>Hash maps\<close>

lemma hdel_hput_absent: "hget m k = None \<Longrightarrow> hdel k (hput k v m) = m"
  by (induction m) (auto simp: AList.delete_eq split: if_splits)

lemma find_hput_new:
  "hget m k = None \<Longrightarrow> \<forall>e\<in>set m. \<not> P e \<Longrightarrow> P (k, v) \<Longrightarrow> List.find P (hput k v m) = Some (k, v)"
  by (induction m) (auto split: if_splits)

section \<open>Registration and its undoing\<close>

text \<open>A registry but for its tombstones.\<close>

definition open_part :: "'d handle_inner \<Rightarrow> 'd handle_inner" where
  "open_part r = r\<lparr>hi_tombstones := []\<rparr>"

lemma register_live_run_shape:
  "register_live_run run_id acp sh r = (res, r') \<Longrightarrow>
     (case res of
        Inl _ \<Rightarrow> r' = r
      | Inr (h, e) \<Rightarrow> h = issued r RunKind run_id \<and> e = LiveRun acp \<and> \<not> hmem run_id (hi_runs r) \<and>
          r' = r\<lparr>hi_runs := hput run_id (LiveRun acp) (hi_runs r)\<rparr>)"
  by (auto simp: register_live_run_def admit_live_run_def res_simps split: sum.splits)

lemma register_live_stream_shape:
  "register_live_stream stream_id run_id r = (res, r') \<Longrightarrow>
     (case res of
        Inl _ \<Rightarrow> r' = r
      | Inr h \<Rightarrow> h = issued r StreamKind stream_id \<and> \<not> hmem stream_id (hi_streams r) \<and>
          r' = r\<lparr>hi_streams := hput stream_id (plain_stream run_id 0) (hi_streams r)\<rparr>)"
  by (auto simp: register_live_stream_def res_simps split: sum.splits)

lemma open_part_push [simp]: "open_part (push_tombstones ts r) = open_part r"
  by (simp add: open_part_def push_tombstones_def)

definition no_stream_of :: "string \<Rightarrow> 'd handle_inner \<Rightarrow> bool" where
  "no_stream_of run_id r = (\<forall>e\<in>set (hi_streams r). st_run_handle_id (snd e) \<noteq> run_id)"

lemma remove_registered_run:
  assumes "no_stream_of run_id r" and "\<not> hmem run_id (hi_runs r)"
  shows "open_part (remove_run_handles run_id (r\<lparr>hi_runs := hput run_id e (hi_runs r)\<rparr>)) = open_part r"
proof -
  have "List.find (\<lambda>e. st_run_handle_id (snd e) = run_id) (hi_streams r) = None"
    using assms(1) by (auto simp: no_stream_of_def find_None_iff)
  then show ?thesis
    using assms(2) by (simp add: remove_run_handles_def hmem_def hdel_hput_absent)
qed

lemma remove_registered_stream:
  assumes "no_stream_of run_id r" and "\<not> hmem run_id (hi_runs r)" and "\<not> hmem stream_id (hi_streams r)"
  shows "open_part (remove_run_handles run_id
    (r\<lparr>hi_runs := hput run_id e (hi_runs r),
       hi_streams := hput stream_id (plain_stream run_id 0) (hi_streams r)\<rparr>)) = open_part r"
proof -
  have "List.find (\<lambda>e. st_run_handle_id (snd e) = run_id)
      (hput stream_id (plain_stream run_id 0) (hi_streams r)) = Some (stream_id, plain_stream run_id 0)"
    using assms(1,3) by (intro find_hput_new) (auto simp: no_stream_of_def hmem_def plain_stream_def)
  then show ?thesis
    using assms(2,3) by (simp add: remove_run_handles_def hmem_def hdel_hput_absent open_part_def push_tombstones_def)
qed

section \<open>The sections of a start\<close>

text \<open>What a start has to leave as it was when it fails: live objects, reservations and counts.\<close>

definition undone :: "('d, 'j) host_state \<Rightarrow> ('d, 'j) host_state \<Rightarrow> bool" where
  "undone s s' =
     (open_part (hs_registry s') = open_part (hs_registry s) \<and>
      cs_debts (hs_core s') = cs_debts (hs_core s) \<and>
      cs_deliveries (hs_core s') = cs_deliveries (hs_core s) \<and>
      cs_pending_settlements (hs_core s') = cs_pending_settlements (hs_core s) \<and>
      (\<exists>cs. hs_calls s' = hs_calls s @ cs \<and> (\<forall>run_id. DriverSpawned run_id \<notin> set cs)))"

definition fresh_turn :: "string \<Rightarrow> ('d, 'j) host_state \<Rightarrow> bool" where
  "fresh_turn run_id s =
     (no_stream_of run_id (hs_registry s) \<and>
      (\<forall>e\<in>set (cs_deliveries (hs_core s)). sd_run_id (snd e) \<noteq> run_id))"

lemma undone_refl: "undone s s"
  by (simp add: undone_def)

lemma undone_trans: "undone s t \<Longrightarrow> undone t u \<Longrightarrow> undone s u"
  by (force simp: undone_def)

lemma begin_turn_shape:
  "begin_turn env publication acp s = (r, s') \<Longrightarrow>
     (case r of
        Inl _ \<Rightarrow> s' = s
      | Inr run_id \<Rightarrow> rn_begin_turn env acp = Ok run_id \<and> hs_core s' = hs_core s \<and>
          hs_registry s' = hs_registry s \<and> hs_calls s' = hs_calls s @ [TurnBegun run_id])"
  by (cases "rn_begin_turn env acp")
    (auto simp: begin_turn_def admit_publication_effects_def update_publication_def call_def Let_def
      split: option.splits if_splits)

lemma cached_journal_shape:
  "cached_journal open_journal run_id c = (r, c') \<Longrightarrow> \<exists>js. c' = c\<lparr>cs_journals := js\<rparr>"
  by (auto simp: cached_journal_def Let_def split: option.splits sum.splits)
    (metis core_state.surjective core_state.update_convs(4) | blast)+

lemma prepare_start_shape:
  assumes "prepare_start env q ((acp, cwd), agent_id, fingerprint) run_id s = (r, s')"
  shows "undone s s' \<and> hs_calls s' = hs_calls s \<and> hs_world s' = hs_world s \<and>
    (case r of
       Inl _ \<Rightarrow> True
     | Inr stream_id \<Rightarrow>
         \<exists>wire_cwd. path_to_wire (rn_paths env) cwd = Ok wire_cwd \<and>
           record_run_started (rn_disk env) run_id stream_id acp agent_id fingerprint (Some wire_cwd)
             (input_kind (sq_input q)) (cs_files (hs_core s)) = (Ok (), cs_files (hs_core s')))"
proof -
  obtain j c where c: "cached_journal (rn_open_journal env) run_id (hs_core s) = (j, c)" by fastforce
  from cached_journal_shape [OF c] obtain js where js: "c = (hs_core s)\<lparr>cs_journals := js\<rparr>" by blast
  show ?thesis
    using assms c unfolding js
    by (auto simp: prepare_start_def undone_def split: sum.splits prod.splits)
qed

lemma filter_deliveries:
  "\<forall>e\<in>set m. sd_run_id (snd e) \<noteq> run_id \<Longrightarrow> filter (\<lambda>(_, d). sd_run_id d \<noteq> run_id) m = m"
  by (rule filter_True) auto

lemma filter_new_delivery:
  "\<forall>e\<in>set m. sd_run_id (snd e) \<noteq> run_id \<Longrightarrow> sd_run_id d = run_id \<Longrightarrow> hget m k = None \<Longrightarrow>
     filter (\<lambda>(_, d). sd_run_id d \<noteq> run_id) (hput k d m) = m"
  by (induction m) (auto split: if_splits)

lemma discard_run_core:
  "cs_debts (hs_core (discard_run env run_id s)) = cs_debts (hs_core s)"
  "cs_deliveries (hs_core (discard_run env run_id s)) =
     filter (\<lambda>(_, d). sd_run_id d \<noteq> run_id) (cs_deliveries (hs_core s))"
  "cs_pending_settlements (hs_core (discard_run env run_id s)) = cs_pending_settlements (hs_core s)"
  "hs_world (discard_run env run_id s) = hs_world s"
  "hs_calls (discard_run env run_id s) = hs_calls s"
  by (simp_all add: discard_run_def on_core_def Let_def remove_journal_def remove_delivery_for_run_def)

lemma state_parts:
  "hs_registry (set_registry r s) = r" "hs_core (set_registry r s) = hs_core s"
  "hs_calls (set_registry r s) = hs_calls s"
  "hs_registry (call c s) = hs_registry s" "hs_core (call c s) = hs_core s"
  "hs_calls (call c s) = hs_calls s @ [c]"
  "hs_registry (on_core f s) = hs_registry s" "hs_core (on_core f s) = f (hs_core s)"
  "hs_calls (on_core f s) = hs_calls s"
  by (simp_all add: set_registry_def call_def on_core_def)

lemmas launch_simps = discard_run_core state_parts withdraw_run_def unregister_run_def Let_def
  register_delivery_def begin_settlement_def finish_settlement_def filter_deliveries

text \<open>A stream the registry knows has a delivery under its id only if it is the run's own.\<close>

definition free_stream :: "string \<Rightarrow> ('d, 'j) host_state \<Rightarrow> bool" where
  "free_stream stream_id s = (hget (cs_deliveries (hs_core s)) stream_id = None)"

lemma pending_back: "(n :: usize) \<noteq> - 1 \<Longrightarrow> saturating_sub (n + 1) 1 = n"
proof -
  assume n: "n \<noteq> - 1"
  then have "n + 1 \<noteq> 0" by (metis add.right_neutral add_diff_cancel_right' diff_0 eq_neg_iff_add_eq_0)
  then have "1 \<le> n + 1" by (simp add: word_le_nat_alt unat_gt_0 Suc_leI)
  then show ?thesis by (simp add: saturating_sub_def)
qed

lemma launch_run_shape:
  assumes launch: "launch_run env h acp run_id stream_id s = (r, s')"
    and fresh: "fresh_turn run_id s" and free: "free_stream stream_id s"
    and count: "cs_pending_settlements (hs_core s) \<noteq> - 1"
  shows "case r of
      Inl _ \<Rightarrow> undone s s'
    | Inr response \<Rightarrow>
        let stream_handle = issued (hs_registry s) StreamKind stream_id in
        response = \<lparr>rs_run = issued (hs_registry s) RunKind run_id, rs_stream = stream_handle, rs_first_event = None\<rparr> \<and>
        hs_registry s' = (hs_registry s)\<lparr>hi_runs := hput run_id (LiveRun acp) (hi_runs (hs_registry s)),
          hi_streams := hput stream_id (plain_stream run_id 0) (hi_streams (hs_registry s))\<rparr> \<and>
        hs_core s' = (hs_core s)\<lparr>cs_deliveries := hput stream_id (new_run_delivery env run_id stream_handle)
            (cs_deliveries (hs_core s)),
          cs_pending_settlements := cs_pending_settlements (hs_core s) + 1\<rparr> \<and>
        hs_calls s' = hs_calls s @ [RunPrepared run_id, DriverSpawned run_id]"
proof (cases "rn_prepare env run_id")
  case (Some obs)
  with launch fresh show ?thesis
    by (auto simp: launch_run_def launch_simps undone_def fresh_turn_def)
next
  case None
  obtain ra reg where ra: "register_live_run run_id acp (Some (h_id h)) (hs_registry s) = (ra, reg)" by fastforce
  note ra_shape = register_live_run_shape [OF ra]
  show ?thesis
  proof (cases ra)
    case (Inl e)
    with None ra ra_shape launch fresh show ?thesis
      by (auto simp: launch_run_def launch_simps undone_def fresh_turn_def)
  next
    case (Inr x)
    obtain run_handle e where x: "x = (run_handle, e)" by fastforce
    from ra_shape Inr x have reg: "reg = (hs_registry s)\<lparr>hi_runs := hput run_id (LiveRun acp) (hi_runs (hs_registry s))\<rparr>"
      and rh: "run_handle = issued (hs_registry s) RunKind run_id" and new: "\<not> hmem run_id (hi_runs (hs_registry s))"
      by auto
    obtain rb reg2 where rb: "register_live_stream stream_id run_id reg = (rb, reg2)" by fastforce
    note rb_shape = register_live_stream_shape [OF rb]
    show ?thesis
    proof (cases rb)
      case (Inl e)
      have "open_part (remove_run_handles run_id reg) = open_part (hs_registry s)"
        using fresh new unfolding reg fresh_turn_def by (intro remove_registered_run) auto
      with Inl None ra rb rb_shape \<open>ra = Inr x\<close> x launch fresh show ?thesis
        by (auto simp: launch_run_def launch_simps undone_def fresh_turn_def)
    next
      case (Inr y)
      with rb_shape have reg2: "reg2 = (hs_registry s)\<lparr>hi_runs := hput run_id (LiveRun acp) (hi_runs (hs_registry s)),
          hi_streams := hput stream_id (plain_stream run_id 0) (hi_streams (hs_registry s))\<rparr>"
        and new_stream: "\<not> hmem stream_id (hi_streams (hs_registry s))"
        unfolding reg by auto
      have gen: "issued reg2 StreamKind stream_id = issued (hs_registry s) StreamKind stream_id"
        by (simp add: reg2 issued_def)
      have key: "h_id (issued (hs_registry s) StreamKind stream_id) = stream_id"
        by (simp add: issued_def mk_handle_def)
      have sd: "sd_stream (new_run_delivery env run_id hh) = hh" "sd_run_id (new_run_delivery env run_id hh) = run_id" for hh
        by (simp_all add: new_run_delivery_def new_stream_delivery_def)
      show ?thesis
      proof (cases "rn_spawn env run_id")
        case None
        with \<open>rn_prepare env run_id = None\<close> \<open>ra = Inr x\<close> x \<open>rb = Inr y\<close> ra rb launch gen key sd rh show ?thesis
          by (auto simp: launch_run_def launch_simps reg2)
      next
        case (Some e)
        have "open_part (remove_run_handles run_id reg2) = open_part (hs_registry s)"
          using fresh new new_stream unfolding reg2 fresh_turn_def by (intro remove_registered_stream) auto
        moreover have "filter (\<lambda>(_, d). sd_run_id d \<noteq> run_id) (hput stream_id
            (new_run_delivery env run_id (issued (hs_registry s) StreamKind stream_id)) (cs_deliveries (hs_core s))) =
            cs_deliveries (hs_core s)"
          using fresh free sd by (intro filter_new_delivery) (auto simp: fresh_turn_def free_stream_def)
        ultimately show ?thesis
          using Some \<open>rn_prepare env run_id = None\<close> \<open>ra = Inr x\<close> x \<open>rb = Inr y\<close> ra rb launch gen key sd count
          by (auto simp: launch_run_def launch_simps undone_def pending_back)
      qed
    qed
  qed
qed

section \<open>The whole start\<close>

text \<open>The framework hands out fresh turn ids and stream ids.\<close>

definition fresh_identities :: "'j run_env \<Rightarrow> ('d, 'j) host_state \<Rightarrow> bool" where
  "fresh_identities env s =
     (\<forall>acp run_id. rn_begin_turn env acp = Ok run_id \<longrightarrow>
        fresh_turn run_id s \<and> (\<forall>stream_id. rn_identity env acp run_id = Ok stream_id \<longrightarrow> free_stream stream_id s))"

text \<open>What a successful start has put in place.\<close>

definition run_started :: "'j run_env \<Rightarrow> run_start_response \<Rightarrow> ('d, 'j) host_state \<Rightarrow> ('d, 'j) host_state \<Rightarrow> bool" where
  "run_started env response s s' =
     (\<exists>run_id stream_id acp. rn_begin_turn env acp = Ok run_id \<and>
        response = \<lparr>rs_run = issued (hs_registry s) RunKind run_id,
                    rs_stream = issued (hs_registry s) StreamKind stream_id, rs_first_event = None\<rparr> \<and>
        hget (hi_runs (hs_registry s')) run_id = Some (LiveRun acp) \<and>
        hget (hi_streams (hs_registry s')) stream_id = Some (plain_stream run_id 0) \<and>
        hget (cs_debts (hs_core s')) run_id = Some None \<and>
        hget (cs_deliveries (hs_core s')) stream_id = Some (new_run_delivery env run_id (rs_stream response)) \<and>
        cs_pending_settlements (hs_core s') = cs_pending_settlements (hs_core s) + 1 \<and>
        (\<exists>agent_id fingerprint cwd kind.
           record_run_started (rn_disk env) run_id stream_id acp agent_id fingerprint (Some cwd) kind
             (cs_files (hs_core s)) = (Ok (), cs_files (hs_core s'))) \<and>
        hs_calls s' = hs_calls s @ [TurnBegun run_id, RunPrepared run_id, DriverSpawned run_id])"

lemma prepare_start_identity:
  "prepare_start env q ((acp, cwd), agent_id, fingerprint) run_id s = (Ok stream_id, s') \<Longrightarrow>
     rn_identity env acp run_id = Ok stream_id"
  by (auto simp: prepare_start_def res_simps split: sum.splits prod.splits)

lemma hi_streams_open_part: "hi_streams (open_part r) = hi_streams r"
  by (simp add: open_part_def)

lemma undone_fresh:
  assumes "undone s t"
  shows "fresh_turn run_id t = fresh_turn run_id s" "free_stream sid t = free_stream sid s"
proof -
  have "hi_streams (hs_registry t) = hi_streams (hs_registry s)"
    using assms hi_streams_open_part unfolding undone_def by metis
  then show "fresh_turn run_id t = fresh_turn run_id s" "free_stream sid t = free_stream sid s"
    using assms by (auto simp: undone_def fresh_turn_def free_stream_def no_stream_of_def)
qed

lemma run_start_reserved_shape:
  assumes start: "run_start_reserved env q ((acp, cwd), agent_id, fingerprint) run_id s = (r, s')"
    and fresh: "fresh_turn run_id s" "\<forall>sid. rn_identity env acp run_id = Ok sid \<longrightarrow> free_stream sid s"
    and count: "cs_pending_settlements (hs_core s) \<noteq> - 1"
  shows "case r of
      Inl _ \<Rightarrow> undone s s'
    | Inr response \<Rightarrow>
        \<exists>stream_id wire_cwd.
          response = \<lparr>rs_run = issued (hs_registry s) RunKind run_id,
                      rs_stream = issued (hs_registry s) StreamKind stream_id, rs_first_event = None\<rparr> \<and>
          hget (hi_runs (hs_registry s')) run_id = Some (LiveRun acp) \<and>
          hget (hi_streams (hs_registry s')) stream_id = Some (plain_stream run_id 0) \<and>
          cs_debts (hs_core s') = cs_debts (hs_core s) \<and>
          hget (cs_deliveries (hs_core s')) stream_id = Some (new_run_delivery env run_id (rs_stream response)) \<and>
          cs_pending_settlements (hs_core s') = cs_pending_settlements (hs_core s) + 1 \<and>
          record_run_started (rn_disk env) run_id stream_id acp agent_id fingerprint (Some wire_cwd)
            (input_kind (sq_input q)) (cs_files (hs_core s)) = (Ok (), cs_files (hs_core s')) \<and>
          hs_calls s' = hs_calls s @ [RunPrepared run_id, DriverSpawned run_id]"
proof -
  obtain rp t where p: "prepare_start env q ((acp, cwd), agent_id, fingerprint) run_id s = (rp, t)" by fastforce
  note shape = prepare_start_shape [OF p]
  show ?thesis
  proof (cases rp)
    case (Inl e)
    with start p shape show ?thesis by (auto simp: run_start_reserved_def)
  next
    case (Inr stream_id)
    from shape have undone: "undone s t" and same: "hs_calls t = hs_calls s" "hs_world t = hs_world s" by auto
    have launch: "launch_run env (sq_session q) acp run_id stream_id t = (r, s')"
      using start p Inr by (simp add: run_start_reserved_def)
    have f: "fresh_turn run_id t" "free_stream stream_id t"
      using fresh prepare_start_identity [OF p [unfolded Inr]] undone_fresh [OF undone] by auto
    have n: "cs_pending_settlements (hs_core t) \<noteq> - 1" using undone count by (simp add: undone_def)
    note l = launch_run_shape [OF launch f n]
    show ?thesis
    proof (cases r)
      case (Inl e)
      with l undone undone_trans show ?thesis by auto
    next
      case (Inr response)
      with l undone same shape \<open>rp = Inr stream_id\<close> show ?thesis
        by (auto simp: Let_def undone_def)
    qed
  qed
qed

lemma run_start_begun_shape:
  assumes start: "run_start_begun env q ((acp, cwd), agent_id, fingerprint) run_id t = (r, s')"
    and fresh: "fresh_turn run_id t" "\<forall>sid. rn_identity env acp run_id = Ok sid \<longrightarrow> free_stream sid t"
    and count: "cs_pending_settlements (hs_core t) \<noteq> - 1"
    and begun: "rn_begin_turn env acp = Ok run_id" "hs_core t = hs_core s" "hs_registry t = hs_registry s"
      "hs_calls t = hs_calls s @ [TurnBegun run_id]"
  shows "case r of Inl _ \<Rightarrow> undone s s' | Inr response \<Rightarrow> run_started env response s s'"
proof -
  obtain rr c where c: "reserve_durable_settlement run_id (hs_core t) = (rr, c)" by fastforce
  show ?thesis
  proof (cases rr)
    case (Inl e)
    with c have "c = hs_core s" using begun(2) by (auto simp: reserve_durable_settlement_def split: if_splits)
    with start c Inl begun show ?thesis by (auto simp: run_start_begun_def undone_def)
  next
    case (Inr x)
    with c begun(2) have c_eq: "c = (hs_core s)\<lparr>cs_debts := hput run_id None (cs_debts (hs_core s))\<rparr>"
      and absent: "hget (cs_debts (hs_core s)) run_id = None"
      by (auto simp: reserve_durable_settlement_def hmem_def split: if_splits)
    let ?t = "t\<lparr>hs_core := c\<rparr>"
    obtain rs u where u: "run_start_reserved env q ((acp, cwd), agent_id, fingerprint) run_id ?t = (rs, u)" by fastforce
    have f: "fresh_turn run_id ?t" "\<forall>sid. rn_identity env acp run_id = Ok sid \<longrightarrow> free_stream sid ?t"
      using fresh begun unfolding c_eq by (auto simp: fresh_turn_def free_stream_def)
    have n: "cs_pending_settlements (hs_core ?t) \<noteq> - 1" using count begun by (simp add: c_eq)
    note l = run_start_reserved_shape [OF u f n]
    have s': "r = rs \<and> s' = (case rs of Inl _ \<Rightarrow> on_core (release_durable_reservation run_id) u | Inr _ \<Rightarrow> u)"
      using start c Inr u by (auto simp: run_start_begun_def split: sum.splits)
    show ?thesis
    proof (cases rs)
      case (Inl e)
      with l s' absent begun show ?thesis
        by (auto simp: undone_def c_eq state_parts release_durable_reservation_def hdel_hput_absent)
    next
      case (Inr response)
      with l obtain stream_id wire_cwd where
        "response = \<lparr>rs_run = issued (hs_registry s) RunKind run_id,
           rs_stream = issued (hs_registry s) StreamKind stream_id, rs_first_event = None\<rparr>"
        "hget (hi_runs (hs_registry u)) run_id = Some (LiveRun acp)"
        "hget (hi_streams (hs_registry u)) stream_id = Some (plain_stream run_id 0)"
        "cs_debts (hs_core u) = cs_debts c"
        "hget (cs_deliveries (hs_core u)) stream_id = Some (new_run_delivery env run_id (rs_stream response))"
        "cs_pending_settlements (hs_core u) = cs_pending_settlements (hs_core s) + 1"
        "record_run_started (rn_disk env) run_id stream_id acp agent_id fingerprint (Some wire_cwd)
           (input_kind (sq_input q)) (cs_files (hs_core s)) = (Ok (), cs_files (hs_core u))"
        "hs_calls u = hs_calls s @ [TurnBegun run_id, RunPrepared run_id, DriverSpawned run_id]"
        using begun by (auto simp: c_eq)
      with begun(1) have "run_started env response s u"
        unfolding run_started_def by (intro exI [of _ run_id] exI [of _ stream_id] exI [of _ acp]) (auto simp: c_eq)
      with Inr s' show ?thesis by simp
    qed
  qed
qed

section \<open>The run index\<close>

text \<open>
  What the undoing leaves of a run's record: none, unless the removal itself fails. That failure is only
  logged, so the running record then stays; it is the files on which the removal fails.
\<close>

definition record_withdrawn :: "disk \<Rightarrow> string \<Rightarrow> host_files \<Rightarrow> bool" where
  "record_withdrawn dk run_id fs \<longleftrightarrow>
     record_absent dk run_id fs \<or> (\<exists>e. remove_run dk run_id fs = (Err e, fs))"

lemma remove_run_withdraws: "record_withdrawn dk run_id (snd (remove_run dk run_id fs))"
proof -
  obtain r fs' where r: "remove_run dk run_id fs = (r, fs')" by fastforce
  with remove_run_cases [OF r] show ?thesis by (auto simp: record_withdrawn_def)
qed

lemma discard_run_files:
  "cs_files (hs_core (discard_run env run_id s)) = snd (remove_run (rn_disk env) run_id (cs_files (hs_core s)))"
  by (simp add: discard_run_def on_core_def Let_def remove_journal_def remove_delivery_for_run_def)

lemma launch_run_files:
  "launch_run env h acp run_id stream_id s = (Inl e, s') \<Longrightarrow>
     cs_files (hs_core s') = snd (remove_run (rn_disk env) run_id (cs_files (hs_core s)))"
  by (auto simp: launch_run_def state_parts withdraw_run_def unregister_run_def Let_def discard_run_files
      register_delivery_def begin_settlement_def finish_settlement_def split: option.splits sum.splits prod.splits)

lemma prepare_start_files:
  assumes "prepare_start env q facts run_id s = (Inl e, s')"
  shows "cs_files (hs_core s') = cs_files (hs_core s)"
proof -
  obtain j c where c: "cached_journal (rn_open_journal env) run_id (hs_core s) = (j, c)" by fastforce
  from cached_journal_shape [OF c] have "cs_files c = cs_files (hs_core s)" by auto
  with assms c show ?thesis
    by (auto simp: prepare_start_def split: sum.splits prod.splits dest: record_run_started_failed)
qed

lemma run_start_begun_files:
  assumes "run_start_begun env q facts run_id s = (Inl e, s')"
  shows "cs_files (hs_core s') = cs_files (hs_core s) \<or> record_withdrawn (rn_disk env) run_id (cs_files (hs_core s'))"
proof -
  have reserved: "cs_files (snd (reserve_durable_settlement run_id c)) = cs_files c"
    "cs_files (release_durable_reservation run_id c) = cs_files c" for c :: "'b core_state"
    by (simp_all add: reserve_durable_settlement_def release_durable_reservation_def)
  obtain rr c where c: "reserve_durable_settlement run_id (hs_core s) = (rr, c)" by fastforce
  have files: "cs_files c = cs_files (hs_core s)" using reserved(1) [of "hs_core s"] c by simp
  show ?thesis
  proof (cases rr)
    case (Inl x)
    with assms c files show ?thesis by (auto simp: run_start_begun_def)
  next
    case reserved_ok: (Inr x)
    obtain rp t where p: "prepare_start env q facts run_id (s\<lparr>hs_core := c\<rparr>) = (rp, t)" by fastforce
    obtain rl u where l: "run_start_reserved env q facts run_id (s\<lparr>hs_core := c\<rparr>) = (rl, u)" by fastforce
    have s': "rl = Inl e" "s' = on_core (release_durable_reservation run_id) u"
      using assms c reserved_ok l by (auto simp: run_start_begun_def split: sum.splits)
    show ?thesis
    proof (cases rp)
      case (Inl y)
      have "u = t" using p l Inl by (simp add: run_start_reserved_def)
      with prepare_start_files [OF p [unfolded Inl]] files s' show ?thesis by (simp add: state_parts reserved(2))
    next
      case (Inr stream_id)
      have "launch_run env (sq_session q) (fst (fst facts)) run_id stream_id t = (Inl e, u)"
        using p l Inr s'(1) by (simp add: run_start_reserved_def)
      from launch_run_files [OF this] s'(2) remove_run_withdraws show ?thesis
        by (simp add: state_parts reserved(2))
    qed
  qed
qed

text \<open>The index file holds one record of the run, and it is running.\<close>

definition running_record_held :: "disk \<Rightarrow> string \<Rightarrow> host_files \<Rightarrow> bool" where
  "running_record_held dk run_id fs \<longleftrightarrow>
     (\<exists>kept x. index_holds dk fs kept \<and> filter (\<lambda>x. rr_run_id x = run_id) kept = [x] \<and> running x)"

lemma started_record_held:
  "record_run_started dk run_id stream_id acp agent_id fp cwd kind fs = (Ok (), fs') \<Longrightarrow>
     running_record_held dk run_id fs'"
  using record_run_started_in_index
  by (fastforce simp: running_record_held_def running_def started_record_def)

section \<open>Property\<close>

text \<open>C3: Starting a run is all or nothing. When \<open>run_start\<close> succeeds, the run has a live handle and a
  live stream, its settlement is reserved, its delivery is registered, its running record is the one
  record of the run in the index file, the count of pending settlements is one higher and the driver was
  spawned last. When it fails, at whatever step, no handle, reservation, delivery or pending count of it
  is left, no driver was spawned, and the index file is as before or holds no record of the run; the one
  exception is a cleanup whose own removal of the record fails: that failure is only logged and the
  record stays.\<close>

theorem run_start_is_all_or_nothing:
  assumes start: "run_start_fresh env q publication s = (r, s')"
    and fresh: "fresh_identities env s"
    and count: "cs_pending_settlements (hs_core s) \<noteq> - 1"
  shows "case r of
      Inl _ \<Rightarrow> undone s s' \<and>
        (cs_files (hs_core s') = cs_files (hs_core s) \<or>
         (\<exists>acp run_id. rn_begin_turn env acp = Ok run_id \<and>
            record_withdrawn (rn_disk env) run_id (cs_files (hs_core s'))))
    | Inr response \<Rightarrow> run_started env response s s' \<and>
        running_record_held (rn_disk env) (h_id (rs_run response)) (cs_files (hs_core s'))"
proof (cases "run_start_checks env q (hs_registry s)")
  case (Inl e)
  with start show ?thesis by (auto simp: run_start_fresh_def undone_refl)
next
  case (Inr facts)
  obtain acp cwd agent_id fingerprint where facts: "facts = ((acp, cwd), agent_id, fingerprint)"
    by (cases facts) auto
  obtain rt t where t: "begin_turn env publication acp s = (rt, t)" by fastforce
  note turn = begin_turn_shape [OF t]
  show ?thesis
  proof (cases rt)
    case (Inl e)
    with start Inr facts t turn show ?thesis by (auto simp: run_start_fresh_def undone_refl)
  next
    case (Inr run_id)
    with turn have begun: "rn_begin_turn env acp = Ok run_id" "hs_core t = hs_core s" "hs_registry t = hs_registry s"
      "hs_calls t = hs_calls s @ [TurnBegun run_id]" by auto
    have f: "fresh_turn run_id t" "\<forall>sid. rn_identity env acp run_id = Ok sid \<longrightarrow> free_stream sid t"
      using fresh begun by (auto simp: fresh_identities_def fresh_turn_def free_stream_def)
    have n: "cs_pending_settlements (hs_core t) \<noteq> - 1" using count begun(2) by simp
    have "run_start_begun env q ((acp, cwd), agent_id, fingerprint) run_id t = (r, s')"
      using start \<open>run_start_checks env q (hs_registry s) = Inr facts\<close> t Inr unfolding facts
      by (simp add: run_start_fresh_def)
    note started = this
    show ?thesis
    proof (cases r)
      case (Inl e)
      with run_start_begun_shape [OF started f n begun] run_start_begun_files [OF started [unfolded Inl]] begun
      show ?thesis by auto
    next
      case (Inr response)
      with run_start_begun_shape [OF started f n begun] have ok: "run_started env response s s'" by simp
      then have "running_record_held (rn_disk env) (h_id (rs_run response)) (cs_files (hs_core s'))"
        by (auto simp: run_started_def issued_def mk_handle_def intro: started_record_held)
      with Inr ok show ?thesis by simp
    qed
  qed
qed

text \<open>A Host with one Agent and one Session, on the framework that admits everything.\<close>

definition host_registry :: "unit handle_inner" where
  "host_registry = (new_registry 7 16)\<lparr>
     hi_agents := [(''agent-1'', \<lparr>ae_closing = False, ae_definition = (), ae_fingerprint = ''fp''\<rparr>)],
     hi_sessions := [(''session-1'', \<lparr>sn_cancelled = False, sn_closing = False, sn_acp_session_id = ''acp'',
       sn_agent_handle_id = ''agent-1'', sn_cwd = Some [47], sn_task_run_handle_id = ''task-1''\<rparr>)]\<rparr>"

definition sample_host :: "(unit, unit) host_state" where
  "sample_host =
     \<lparr>hs_world = \<lparr>pw_registry = host_registry, pw_store = []\<rparr>,
      hs_core = \<lparr>cs_files = sample_root, cs_debts = [], cs_deliveries = [], cs_journals = [],
        cs_pending_settlements = 0, cs_settlement_error = None, cs_recovered = [], cs_max_open_handles = 16\<rparr>,
      hs_calls = []\<rparr>"

definition host_limits :: echo_limits where
  "host_limits =
     (let n = from_u64 1; d = \<lparr>dur_seconds = n, dur_nanos = 0\<rparr> in
      \<lparr>el_message_bytes = n, el_stream_buffer_events = n, el_callback_concurrency = 1, el_callback_timeout = d,
       el_replay_events = n, el_structured_output_bytes = n, el_outstanding_live_events = n,
       el_stream_buffer_bytes = n, el_replay_bytes = n, el_open_handles = n, el_registered_extensions = n,
       el_extension_descriptor_bytes = n, el_extension_payload_bytes = n, el_extension_stream_bytes = n,
       el_inflight_extension_invocations = n, el_facade_resources = n, el_facade_streams = n,
       el_facade_page_items = n, el_facade_operation_args = n\<rparr>)"

definition host_advertisement :: echo_capability where
  "host_advertisement =
     \<lparr>ec_version = 1, ec_contract_digest = [], ec_source_digest = [], ec_features = [],
      ec_capabilities = map (\<lambda>c. \<lparr>cd_capability = c, cd_required = True\<rparr>)
        [AgentLifecycle, SessionHandles, Runs, EventReplayCap], ec_limits = host_limits\<rparr>"

definition host_env :: "unit run_env" where
  "host_env =
     \<lparr>rn_codec = \<lparr>ec_to_value_ok = \<lambda>_. True, ec_to_vec_len = \<lambda>_. Some 1\<rparr>,
      rn_connection = \<lparr>cn_services_error = None, cn_extended = True, cn_admission = True\<rparr>,
      rn_advertisement = host_advertisement,
      rn_settlement = sample_settlement_env\<lparr>se_disk := sample_disk\<lparr>dk_encode_runs := \<lambda>_. Ok [1]\<rparr>\<rparr>,
      rn_paths = sample_path_codec, rn_encoded_len = \<lambda>_. 1, rn_decode_content = \<lambda>_. Ok (),
      rn_max_outstanding = 4, rn_max_event_bytes = 100,
      rn_session_cwd = \<lambda>acp. if acp = ''acp'' then Some [47] else None,
      rn_begin_turn = \<lambda>_. Ok ''turn-1'', rn_identity = \<lambda>_ run_id. Ok (''stream-'' @ run_id),
      rn_open_journal = \<lambda>_. Ok (), rn_observe = \<lambda>_. FwRefused, rn_prepare = \<lambda>_. None, rn_spawn = \<lambda>_. None,
      rn_show_error = \<lambda>_. [],
      rn_entry = \<lambda>_. \<lparr>le_session_id = ''acp'', le_stream_id = ''stream-turn-1'', le_last_sequence = 7,
        le_receipt = Some sample_cancelled_turn, le_waited = None, le_cancelled = (False, Some sample_cancelled_turn)\<rparr>,
      rn_steer = \<lambda>_ _. None\<rparr>"

definition host_start :: run_start_request where
  "host_start = \<lparr>sq_session = mk_handle ''session-1'' SessionKind 7, sq_input = Chat ''hello'', sq_idempotency_id = None\<rparr>"

lemma host_fresh: "fresh_identities host_env sample_host"
  by (simp add: fresh_identities_def fresh_turn_def free_stream_def no_stream_of_def sample_host_def
      host_registry_def new_registry_def)

lemma host_handle: "check_shape_and_generation host_registry (mk_handle ''session-1'' SessionKind 7) SessionKind operation = Ok ()"
  by (simp add: check_shape_and_generation_def mk_handle_def validate_handle_def host_registry_def new_registry_def
      blank_def is_whitespace_def)

lemma host_checks:
  "run_start_checks host_env host_start host_registry = Ok ((''acp'', [47]), ''agent-1'', ''fp'')"
proof -
  have "handler_admission host_env Runs run_start_operation = Ok ()"
    by (simp add: handler_admission_def host_env_def admission_Ok declares_def host_advertisement_def)
  moreover have "validate_run_start (rn_encoded_len host_env) host_start = Ok ()"
    by (simp add: validate_run_start_Ok host_start_def mk_handle_def validate_handle_def blank_def is_whitespace_def
        validate_run_input_def max_input_chars_def bad_optional_id_def)
  moreover have "session (sq_session host_start) host_registry =
      Ok \<lparr>sn_cancelled = False, sn_closing = False, sn_acp_session_id = ''acp'',
         sn_agent_handle_id = ''agent-1'', sn_cwd = Some [47], sn_task_run_handle_id = ''task-1''\<rparr>"
    by (simp add: session_def lookup_def host_start_def host_registry_def mk_handle_def)
  moreover have "agent_fingerprint (issued host_registry AgentKind ''agent-1'') host_registry = Ok ''fp''"
    by (simp add: agent_fingerprint_def agent_def lookup_def issued_def mk_handle_def host_registry_def)
  moreover have "check_shape_and_generation host_registry (sq_session host_start) SessionKind run_start_operation = Ok ()"
    using host_handle by (simp add: host_start_def)
  ultimately show ?thesis
    by (simp add: run_start_checks_def resolve_session_def host_env_def)
qed

lemma host_budget: "enforce_budget host_registry 1 = Ok ()"
  by (simp add: enforce_budget_def open_handles_def host_registry_def new_registry_def len_usize_def saturating_add_def)

lemma host_start_succeeds: "is_ok (fst (run_start_fresh host_env host_start None sample_host))"
proof -
  let ?s = "call (TurnBegun ''turn-1'') sample_host"
  let ?c = "(hs_core sample_host)\<lparr>cs_debts := [(''turn-1'', None)]\<rparr>"
  have "begin_turn host_env None ''acp'' sample_host = (Ok ''turn-1'', ?s)"
    by (simp add: begin_turn_def host_env_def)
  moreover have "reserve_durable_settlement ''turn-1'' (hs_core ?s) = (Ok (), ?c)"
    by (simp add: reserve_durable_settlement_def sample_host_def hmem_def call_def)
  moreover have "\<exists>c. prepare_start host_env host_start ((''acp'', [47]), ''agent-1'', ''fp'') ''turn-1'' (?s\<lparr>hs_core := ?c\<rparr>) =
      (Ok ''stream-turn-1'', ?s\<lparr>hs_core := c\<rparr>)"
    by (simp add: prepare_start_def host_env_def host_start_def cached_journal_def sample_host_def max_cached_journals_def
        path_to_wire_def native_is_absolute_def sample_path_codec_def record_run_started_def upsert_record_def
        read_index_def sample_root_def sample_settlement_env_def sample_disk_def size_check_def read_file_def
        write_index_def prune_entries.simps max_run_index_entries_def encode_runs_def prune_bytes.simps
        max_run_index_bytes_def call_def)
  moreover have "\<exists>response s2. launch_run host_env (mk_handle ''session-1'' SessionKind 7) ''acp'' ''turn-1''
      ''stream-turn-1'' (?s\<lparr>hs_core := c\<rparr>) = (Ok response, s2)" for c
  proof -
    have "register_live_run ''turn-1'' ''acp'' (Some ''session-1'') host_registry =
        (Ok (issued host_registry RunKind ''turn-1'', LiveRun ''acp''),
         host_registry\<lparr>hi_runs := [(''turn-1'', LiveRun ''acp'')]\<rparr>)"
      by (simp add: register_live_run_def admit_live_run_def host_budget)
        (simp add: host_registry_def new_registry_def hmem_def)
    moreover have "\<exists>h r. register_live_stream ''stream-turn-1'' ''turn-1''
        (host_registry\<lparr>hi_runs := [(''turn-1'', LiveRun ''acp'')]\<rparr>) = (Ok h, r)"
      by (simp add: register_live_stream_def enforce_budget_def open_handles_def host_registry_def new_registry_def
          len_usize_def saturating_add_def hmem_def)
    ultimately show ?thesis
      by (auto simp: launch_run_def host_env_def mk_handle_def call_def sample_host_def Let_def)
  qed
  moreover have "hs_registry sample_host = host_registry"
    "sq_session host_start = mk_handle ''session-1'' SessionKind 7"
    by (simp_all add: sample_host_def host_start_def)
  ultimately obtain c response s2 where
    "prepare_start host_env host_start ((''acp'', [47]), ''agent-1'', ''fp'') ''turn-1'' (?s\<lparr>hs_core := ?c\<rparr>) =
      (Ok ''stream-turn-1'', ?s\<lparr>hs_core := c\<rparr>)"
    "launch_run host_env (sq_session host_start) ''acp'' ''turn-1'' ''stream-turn-1'' (?s\<lparr>hs_core := c\<rparr>) = (Ok response, s2)"
    "begin_turn host_env None ''acp'' sample_host = (Ok ''turn-1'', ?s)"
    "reserve_durable_settlement ''turn-1'' (hs_core ?s) = (Ok (), ?c)" "hs_registry sample_host = host_registry"
    by metis
  then show ?thesis
    by (simp add: run_start_fresh_def run_start_begun_def run_start_reserved_def host_checks)
qed

theorem run_start_is_all_or_nothing_witness:
  "\<exists>response s'. run_start_fresh host_env host_start None sample_host = (Ok response, s') \<and>
     run_started host_env response sample_host s'"
proof -
  obtain r s' where start: "run_start_fresh host_env host_start None sample_host = (r, s')" by fastforce
  moreover obtain response where "r = Ok response" using host_start_succeeds start by (auto simp: is_ok_iff)
  ultimately show ?thesis
    using run_start_is_all_or_nothing [OF start host_fresh] by (simp add: sample_host_def)
qed

end
