(* ===== verification/Run_Observe.thy ===== *)
theory Run_Observe
  imports Run_Start
begin

text \<open>
  What a client may conclude from the answers about a run: a settlement that \<open>run/wait\<close> reports is
  in the index file unless its own write pruned it, \<open>run/get\<close> agrees with it, and a run of a crashed
  predecessor never settles.
\<close>

section \<open>Lemmas\<close>

lemma check_shape_operation:
  "is_ok (check_shape_and_generation s h kind operation) = is_ok (check_shape_and_generation s h kind operation')"
  by (simp add: check_shape_and_generation_def split: option.splits)

lemma check_shape_ok_operation:
  "check_shape_and_generation s h kind operation = Ok u \<Longrightarrow> check_shape_and_generation s h kind operation' = Ok ()"
  using check_shape_operation [of s h kind operation operation'] by (simp add: is_ok_iff)

lemma addressed_run_Ok:
  "addressed_run s h operation = Ok e \<longleftrightarrow>
     check_shape_and_generation s h RunKind operation = Ok () \<and> hget (hi_runs s) (h_id h) = Some e"
  by (auto simp: addressed_run_def run_def lookup_def res_simps)

lemma addressed_run_operation: "addressed_run s h operation = Ok e \<Longrightarrow> addressed_run s h operation' = Ok e"
  by (auto simp: addressed_run_Ok intro: check_shape_ok_operation)

lemma handler_admission_operation:
  "handler_admission env capability operation = Ok u \<Longrightarrow> handler_admission env capability operation' = Ok ()"
  by (cases u) (simp add: handler_admission_def admission_Ok)

lemma run_wait_Ok:
  assumes "run_wait env q s = (Ok (Ok w), s')"
  shows "handler_admission env Runs run_wait_operation = Ok () \<and>
    (\<exists>e. addressed_run (hs_registry s) (wq_run q) run_wait_operation = Ok e \<and>
       wait_for_run env (wq_run q) e s = (Ok w, s'))"
  using assms
  by (auto simp: run_wait_def res_simps respond_def split: sum.splits prod.splits)

lemma settle_answer_Ok:
  assumes "settle_answer env run_id receipt s = (Ok w, s')"
  shows "persist_settled_receipt (rn_settlement env) run_id receipt (le_last_sequence (rn_entry env run_id))
      (hs_core s) = (Ok (), hs_core s') \<and> s' = s\<lparr>hs_core := hs_core s'\<rparr> \<and>
    (\<exists>t rc. project_receipt env run_wait_operation receipt = Ok (t, rc) \<and>
       w = \<lparr>wr_settled = True, wr_terminal = Some t, wr_receipt = Some rc\<rparr>)"
  using assms
  by (auto simp: settle_answer_def persist_receipt_now_def res_simps split: prod.splits)

lemma wait_live_Ok:
  assumes "wait_for_run env h (LiveRun acp) s = (Ok w, s')" and "wr_settled w"
  shows "\<exists>receipt. (le_receipt (rn_entry env (h_id h)) = Some receipt \<or>
      le_receipt (rn_entry env (h_id h)) = None \<and> le_waited (rn_entry env (h_id h)) = Some receipt) \<and>
    settle_answer env (h_id h) receipt s = (Ok w, s')"
  using assms by (auto simp: wait_for_run_def Let_def split: option.splits)

lemma project_receipt_Ok:
  "project_receipt env operation receipt = Ok (t, rc) \<longleftrightarrow>
     terminal_of (se_names (rn_settlement env)) receipt = Ok t \<and>
     receipt_wire (se_names (rn_settlement env)) receipt = Ok rc"
  by (auto simp: project_receipt_def res_simps)

text \<open>
  What a successful persist leaves: the run owes nothing, and its settlement was written (it is in the
  file, or it was pruned there because the index was over a bound with it although every older settled
  record was gone) or had been written before and is recovered from the file.
\<close>

definition durably_settled ::
  "'j run_env \<Rightarrow> string \<Rightarrow> run_terminal \<Rightarrow> run_receipt \<Rightarrow> 'j core_state \<Rightarrow> 'j core_state \<Rightarrow> bool" where
  "durably_settled env run_id t rc c c' =
     (\<not> hmem run_id (cs_debts c') \<and>
      (record_run_settled (rn_disk env) run_id t rc (le_last_sequence (rn_entry env run_id)) (cs_files c) =
         (Ok (), cs_files c') \<and>
       settlement_in_index (rn_disk env) run_id t rc (le_last_sequence (rn_entry env run_id)) (cs_files c)
         (cs_files c') \<or>
       (\<exists>recs rec. load_recovered_runs (rn_disk env) (cs_files c') = Ok recs \<and> rec \<in> set recs \<and>
          rr_run_id (rec_record rec) = run_id \<and> rr_terminal (rec_record rec) = Some t \<and>
          rr_receipt (rec_record rec) = Some rc \<and>
          rr_last_sequence (rec_record rec) = le_last_sequence (rn_entry env run_id))))"

lemma persist_durably:
  assumes p: "persist_settled_receipt (rn_settlement env) run_id receipt (le_last_sequence (rn_entry env run_id)) c =
      (Ok (), c')"
    and wf: "hwf (cs_debts c)" and projected: "project_receipt env operation receipt = Ok (t, rc)"
  shows "durably_settled env run_id t rc c c'"
proof (cases "hmem run_id (cs_debts c)")
  case True
  with persist_cases [OF p wf] projected show ?thesis
    by (auto simp: durably_settled_def project_receipt_Ok hmem_def dest: record_run_settled_in_index)
next
  case False
  with persist_cases [OF p wf] have "c' = c" by simp
  from False p projected obtain recs rec where
    "load_recovered_runs (rn_disk env) (cs_files c) = Ok recs"
    "List.find (\<lambda>rec. rr_run_id (rec_record rec) = run_id) recs = Some rec"
    "rr_terminal (rec_record rec) = Some t" "rr_receipt (rec_record rec) = Some rc"
    "rr_last_sequence (rec_record rec) = le_last_sequence (rn_entry env run_id)"
    by (auto simp: persist_settled_receipt_def project_receipt_Ok res_simps split: option.splits if_splits)
  then have "load_recovered_runs (rn_disk env) (cs_files c') = Ok recs \<and> rec \<in> set recs \<and>
      rr_run_id (rec_record rec) = run_id \<and> rr_terminal (rec_record rec) = Some t \<and>
      rr_receipt (rec_record rec) = Some rc \<and>
      rr_last_sequence (rec_record rec) = le_last_sequence (rn_entry env run_id)"
    using \<open>c' = c\<close> by (auto simp: find_Some_iff)
  with False \<open>c' = c\<close> show ?thesis unfolding durably_settled_def by blast
qed

section \<open>Properties\<close>


text \<open>A Host whose run \<open>r\<close> was cancelled and still owes its durable settlement.\<close>

definition settling_env :: "unit run_env" where
  "settling_env = host_env\<lparr>rn_settlement := sample_settlement_env\<rparr>"

definition settling_host :: "(unit, unit) host_state" where
  "settling_host = sample_host
     \<lparr>hs_world := \<lparr>pw_registry = host_registry\<lparr>hi_runs := [(''r'', LiveRun ''acp'')]\<rparr>, pw_store = []\<rparr>,
      hs_core := sample_core\<rparr>"

definition settling_wait :: run_wait_request where
  "settling_wait = \<lparr>wq_run = mk_handle ''r'' RunKind 7, wq_timeout = None\<rparr>"

definition settled_response :: run_wait_response where
  "settled_response = \<lparr>wr_settled = True, wr_terminal = Some Cancelled, wr_receipt = Some sample_receipt\<rparr>"

lemma settling_run:
  "addressed_run (hs_registry settling_host) (wq_run settling_wait) operation = Ok (LiveRun ''acp'')"
  by (simp add: addressed_run_Ok settling_host_def settling_wait_def check_shape_and_generation_def mk_handle_def
      validate_handle_def host_registry_def new_registry_def blank_def is_whitespace_def)

lemma settling_answer:
  "\<exists>s'. run_wait settling_env settling_wait settling_host = (Ok (Ok settled_response), s')"
proof -
  have "handler_admission settling_env Runs run_wait_operation = Ok ()"
    by (simp add: handler_admission_def settling_env_def host_env_def admission_Ok declares_def host_advertisement_def)
  moreover have "validate_run_wait settling_wait = Ok ()"
    by (simp add: validate_run_wait_def settling_wait_def mk_handle_def validate_handle_def blank_def is_whitespace_def)
  moreover have "\<exists>s'. settle_answer settling_env ''r'' sample_cancelled_turn settling_host = (Ok settled_response, s')"
    using sample_persist
    by (simp add: settle_answer_def persist_receipt_now_def settling_env_def host_env_def settling_host_def
        project_receipt_def sample_turn_wire settled_response_def)
  then have "\<exists>s'. wait_for_run settling_env (wq_run settling_wait) (LiveRun ''acp'') settling_host = (Ok settled_response, s')"
    by (simp add: wait_for_run_def settling_wait_def settling_env_def host_env_def mk_handle_def Let_def)
  ultimately show ?thesis
    using settling_run by (auto simp: run_wait_def)
qed


text \<open>\<open>run/get\<close> agrees with \<open>run/wait\<close>: after a wait that answered with a settlement already there,
  the snapshot of the run has the same terminal and the same receipt, and a status other than running or
  interrupted.\<close>

theorem run_get_agrees_with_wait:
  assumes answer: "run_wait env q s = (Ok (Ok w), s')" and settled: "wr_settled w"
    and there: "le_receipt (rn_entry env (h_id (wq_run q))) \<noteq> None"
    and recovered: "\<forall>rv. hget (hi_runs (hs_registry s)) (h_id (wq_run q)) = Some (RecoveredRun rv) \<longrightarrow>
      rv_status rv \<in> {StCompleted, StCancelled, StFailed, StInterrupted}"
  shows "\<exists>g. run_get env (wq_run q) s' = Ok (Ok g) \<and> gr_terminal g = wr_terminal w \<and> gr_receipt g = wr_receipt w \<and>
    gr_status g \<in> {StCompleted, StCancelled, StFailed}"
proof -
  from run_wait_Ok [OF answer] obtain e where e: "handler_admission env Runs run_wait_operation = Ok ()"
    "addressed_run (hs_registry s) (wq_run q) run_wait_operation = Ok e"
    "wait_for_run env (wq_run q) e s = (Ok w, s')" by blast
  have gate: "handler_admission env Runs run_get_operation = Ok ()" by (rule handler_admission_operation [OF e(1)])
  have found: "addressed_run (hs_registry s) (wq_run q) run_get_operation = Ok e"
    by (rule addressed_run_operation [OF e(2)])
  show ?thesis
  proof (cases e)
    case (RecoveredRun rv)
    with e(3) have "s' = s" "wr_terminal w = rv_terminal rv" "wr_receipt w = rv_receipt rv" "rv_status rv \<noteq> StInterrupted"
      by (auto simp: wait_for_run_def split: if_splits)
    moreover have "rv_status rv \<in> {StCompleted, StCancelled, StFailed, StInterrupted}"
      using recovered found RecoveredRun by (auto simp: addressed_run_Ok)
    ultimately show ?thesis using gate found RecoveredRun by (auto simp: run_get_def)
  next
    case (LiveRun acp)
    from wait_live_Ok [OF e(3) [unfolded LiveRun] settled] there obtain receipt
      where r: "le_receipt (rn_entry env (h_id (wq_run q))) = Some receipt"
        and a: "settle_answer env (h_id (wq_run q)) receipt s = (Ok w, s')" by auto
    from settle_answer_Ok [OF a] obtain t rc
      where p: "project_receipt env run_get_operation receipt = Ok (t, rc)"
        and w: "wr_terminal w = Some t" "wr_receipt w = Some rc" and s': "hs_registry s' = hs_registry s"
      by (auto simp: project_receipt_Ok) (metis host_state.select_convs(1) host_state.surjective host_state.update_convs(2))
    have "status_of (Some receipt) \<in> {StCompleted, StCancelled, StFailed}"
      by (simp add: status_of_def split: turn_outcome.splits)
    with gate found LiveRun r p w s' show ?thesis by (simp add: run_get_def Let_def)
  qed
qed

theorem run_get_agrees_with_wait_witness:
  "\<exists>s' g. run_wait settling_env settling_wait settling_host = (Ok (Ok settled_response), s') \<and>
     run_get settling_env (wq_run settling_wait) s' = Ok (Ok g) \<and> gr_terminal g = Some Cancelled \<and>
     gr_receipt g = Some sample_receipt"
proof -
  obtain s' where a: "run_wait settling_env settling_wait settling_host = (Ok (Ok settled_response), s')"
    using settling_answer by blast
  have "le_receipt (rn_entry settling_env (h_id (wq_run settling_wait))) \<noteq> None"
    by (simp add: settling_env_def host_env_def)
  moreover have "hget (hi_runs (hs_registry settling_host)) (h_id (wq_run settling_wait)) = Some (LiveRun ''acp'')"
    using settling_run by (simp add: addressed_run_Ok)
  ultimately show ?thesis
    using run_get_agrees_with_wait [OF a] a by (auto simp: settled_response_def)
qed

section \<open>What the code leaves behind\<close>

text \<open>
  A start that fails because its running record cannot be written leaves the journal it opened in the
  cache, where it may evict the journal of a live run; the later failures remove it.
\<close>

lemma unrecorded_start_keeps_journal:
  assumes "rn_identity env acp run_id = Ok stream_id" and "decode_input env (sq_input q) = Ok ()"
    and "cached_journal (rn_open_journal env) run_id (hs_core s) = (Ok j, c)"
    and "path_to_wire (rn_paths env) cwd = Ok wire_cwd"
    and "record_run_started (rn_disk env) run_id stream_id acp agent_id fingerprint (Some wire_cwd)
           (input_kind (sq_input q)) (cs_files c) = (Err e, fs)"
  shows "hget (cs_journals (hs_core (on_core (release_durable_reservation run_id)
      (snd (prepare_start env q ((acp, cwd), agent_id, fingerprint) run_id s))))) run_id = Some j"
  using assms
  by (auto simp: prepare_start_def cached_journal_def state_parts release_durable_reservation_def Let_def
      split: option.splits sum.splits)

text \<open>
  \<open>run/replay\<close> takes any stream of the registry: for a stream that belongs to no run (an extension's or a
  facade stream) it opens a journal under the identity of that owner.
\<close>

lemma replay_opens_journal_of_any_stream:
  assumes "handler_admission env EventReplayCap replay_operation = Ok ()" and "validate_replay_request q = Ok ()"
    and "check_shape_and_generation (hs_registry s) (rq_stream q) StreamKind replay_operation = Ok ()"
    and "hget (hi_streams (hs_registry s)) (h_id (rq_stream q)) = Some st"
    and "\<not> hmem (st_run_handle_id st) (hi_runs (hs_registry s))"
    and "rn_open_journal env (st_run_handle_id st) = Ok j"
  shows "hmem (st_run_handle_id st) (cs_journals (hs_core (snd (run_replay env rp q s))))"
proof -
  obtain r c where c: "cached_journal (rn_open_journal env) (st_run_handle_id st) (hs_core s) = (r, c)" by fastforce
  with assms(6) have there: "hmem (st_run_handle_id st) (cs_journals c)" and "is_ok r"
    by (auto simp: cached_journal_def hmem_def Let_def split: option.splits)
  have kept: "cs_journals (snd (answer_replay rp h response c)) = cs_journals c" for h response
    by (auto simp: answer_replay_def split: option.splits prod.splits)
  have found: "stream (rq_stream q) (hs_registry s) = Ok st" using assms(4) by (simp add: stream_def lookup_def)
  show ?thesis
    using assms(1-3) found c there \<open>is_ok r\<close> kept
    by (auto simp: run_replay_def is_ok_iff split: sum.splits prod.splits) (metis snd_conv)
qed

end
