(* ===== verification/Agent_Config.thy ===== *)
theory Agent_Config
  imports Core_Messages
begin

text \<open>
  The typed Agent configuration (\<open>echo-sdk-protocol/src/methods.rs\<close>): its validation, the fingerprint
  that decides whether two configurations are the same (\<open>config_fingerprint\<close> of
  \<open>core_profile/handles.rs\<close>) and its translation to the framework (\<open>framework_from_wire\<close> of
  \<open>core_profile/wire.rs\<close>). The serialized form is the one the serde attributes of the types give; the
  JSON text, SHA-256, the process environment, the parsing of decimals and the construction of a model
  client are arguments.
\<close>

section \<open>The configuration\<close>

datatype api_protocol = ChatCompletions | Responses | Anthropic

datatype credential_source = InlineToken string | EnvVariable string

record model_config =
  mc_provider :: string
  mc_name :: string
  mc_base_url :: string
  mc_api_protocol :: api_protocol
  mc_credential :: "credential_source option"
  mc_max_tokens :: "u32 option"
  mc_temperature :: "string option"
  mc_context_window :: "wire_u64 option"

record agent_settings =
  as_name :: string
  as_system_prompt :: string
  as_max_iterations :: u32

record explicit_config =
  xc_config_version :: u32
  xc_model :: model_config
  xc_agent :: agent_settings

datatype agent_config = HostDefault | Explicit explicit_config

definition too_long :: "nat \<Rightarrow> string \<Rightarrow> bool" where
  "too_long n s = (blank s \<or> n < length s)"

definition bad_credential :: "credential_source \<Rightarrow> string option" where
  "bad_credential c =
     (case c of
        InlineToken token \<Rightarrow>
          (if token = [] \<or> 4096 < length token
           then Some ''inline credential is empty or exceeds its bound'' else None)
      | EnvVariable variable \<Rightarrow>
          (if too_long 256 variable
           then Some ''credential environment variable is empty or exceeds its bound'' else None))"

definition validate_agent_config :: "agent_config \<Rightarrow> string + unit" where
  "validate_agent_config c =
     (case c of HostDefault \<Rightarrow> Ok () | Explicit x \<Rightarrow>
        if xc_config_version x \<noteq> 1 then Err ''unsupported agent config_version''
        else if too_long 128 (mc_provider (xc_model x)) \<or> too_long 256 (mc_name (xc_model x)) \<or>
                too_long 2048 (mc_base_url (xc_model x))
        then Err ''model fields are empty or exceed their bounds''
        else if too_long 256 (as_name (xc_agent x)) \<or> too_long 65536 (as_system_prompt (xc_agent x)) \<or>
                as_max_iterations (xc_agent x) = 0
        then Err ''agent fields are empty or exceed their bounds''
        else case Option.bind (mc_credential (xc_model x)) bad_credential of
               Some e \<Rightarrow> Err e | None \<Rightarrow> Ok ())"

record agent_create_request =
  aq_config :: agent_config
  aq_idempotency_id :: "string option"

definition validate_agent_create :: "agent_create_request \<Rightarrow> string + unit" where
  "validate_agent_create q =
     and_then (validate_agent_config (aq_config q)) (\<lambda>_.
       reject_if (bad_optional_id (aq_idempotency_id q)) ''idempotency_id must be non-empty and bounded'')"

section \<open>The serialized form\<close>

text \<open>A field that is skipped when it is absent.\<close>

definition optional_field :: "string \<Rightarrow> ('a \<Rightarrow> json) \<Rightarrow> 'a option \<Rightarrow> (string \<times> json) list" where
  "optional_field name f x = (case x of None \<Rightarrow> [] | Some v \<Rightarrow> [(name, f v)])"

definition number_json :: "u32 \<Rightarrow> json" where
  "number_json n = JNumber (PosInt (word_of_nat (unat n)))"

definition protocol_json :: "api_protocol \<Rightarrow> json" where
  "protocol_json p = JString (case p of ChatCompletions \<Rightarrow> ''chat_completions'' | Responses \<Rightarrow> ''responses''
     | Anthropic \<Rightarrow> ''anthropic'')"

fun credential_json :: "credential_source \<Rightarrow> json" where
  "credential_json (InlineToken token) = JObject [(''source'', JString ''inline''), (''token'', JString token)]"
| "credential_json (EnvVariable variable) = JObject [(''source'', JString ''env''), (''variable'', JString variable)]"

definition model_json :: "model_config \<Rightarrow> json" where
  "model_json m = JObject
     ([(''provider'', JString (mc_provider m)), (''name'', JString (mc_name m)),
       (''base_url'', JString (mc_base_url m)), (''api_protocol'', protocol_json (mc_api_protocol m))] @
      optional_field ''credential'' credential_json (mc_credential m) @
      optional_field ''max_tokens'' number_json (mc_max_tokens m) @
      optional_field ''temperature'' JString (mc_temperature m) @
      optional_field ''context_window'' (\<lambda>v. JString (u64_text v)) (mc_context_window m))"

definition settings_json :: "agent_settings \<Rightarrow> json" where
  "settings_json a = JObject
     [(''name'', JString (as_name a)), (''system_prompt'', JString (as_system_prompt a)),
      (''max_iterations'', number_json (as_max_iterations a))]"

fun config_json :: "agent_config \<Rightarrow> json" where
  "config_json HostDefault = JObject [(''variant'', JString ''host_default'')]"
| "config_json (Explicit x) = JObject
     [(''variant'', JString ''explicit''), (''config_version'', number_json (xc_config_version x)),
      (''model'', model_json (xc_model x)), (''agent'', settings_json (xc_agent x))]"

section \<open>The fingerprint\<close>

text \<open>\<open>get_mut\<close> and assignment through it.\<close>

definition map_field :: "string \<Rightarrow> (json \<Rightarrow> json) \<Rightarrow> json \<Rightarrow> json" where
  "map_field name f j =
     (case j of JObject es \<Rightarrow> JObject (map (\<lambda>(k, v). (k, if k = name then f v else v)) es) | _ \<Rightarrow> j)"

definition field_is :: "string \<Rightarrow> string \<Rightarrow> json \<Rightarrow> bool" where
  "field_is name v j = (case j of JObject es \<Rightarrow> hget es name = Some (JString v) | _ \<Rightarrow> False)"

definition redact_token :: "(string \<Rightarrow> string) \<Rightarrow> json \<Rightarrow> json" where
  "redact_token sha256_hex j = (case j of JString t \<Rightarrow> JString (''sha256:'' @ sha256_hex t) | _ \<Rightarrow> j)"

definition redact_config :: "(string \<Rightarrow> string) \<Rightarrow> json \<Rightarrow> json" where
  "redact_config sha256_hex j =
     (if field_is ''variant'' ''explicit'' j then
        map_field ''model'' (map_field ''credential'' (\<lambda>c.
          if field_is ''source'' ''inline'' c then map_field ''token'' (redact_token sha256_hex) c else c)) j
      else j)"

text \<open>\<open>to_text\<close> is \<open>serde_json::to_string\<close>; the encoding of the configuration cannot fail.\<close>

definition config_fingerprint :: "(string \<Rightarrow> string) \<Rightarrow> (json \<Rightarrow> string option) \<Rightarrow> agent_config \<Rightarrow> string" where
  "config_fingerprint sha256_hex to_text c =
     option_default (to_text (redact_config sha256_hex (config_json c))) ''<unencodable>''"

section \<open>Translation to the framework\<close>

record 'f framework_config =
  fc_provider :: string
  fc_model_name :: string
  fc_base_url :: string
  fc_api_protocol :: api_protocol
  fc_auth_token :: "string option"
  fc_max_tokens :: "u32 option"
  fc_temperature :: "'f option"
  fc_context_window :: "u32 option"
  fc_agent_name :: string
  fc_system_prompt :: string
  fc_max_iterations :: usize
  fc_enable_tools :: bool

record ('f, 'l) framework_builder =
  fb_environment :: "string \<Rightarrow> string option"
  fb_parse_f32 :: "string \<Rightarrow> 'f option"
  fb_llm_config :: "string \<Rightarrow> string \<Rightarrow> string \<Rightarrow> string \<Rightarrow> api_protocol \<Rightarrow> string + 'l"
  fb_build_client :: "'l \<Rightarrow> string + unit"

definition credential_token ::
  "(string \<Rightarrow> string option) \<Rightarrow> credential_source option \<Rightarrow> string + string option" where
  "credential_token environment c =
     (case c of
        None \<Rightarrow> Ok None
      | Some (InlineToken token) \<Rightarrow> Ok (Some token)
      | Some (EnvVariable variable) \<Rightarrow>
          map_ok Some (ok_or (environment variable)
            (''credential environment variable '' @ variable @ '' is unavailable'')))"

definition context_window_u32 :: "wire_u64 \<Rightarrow> string + u32" where
  "context_window_u32 v =
     and_then (ok_or (to_u64 v) ''context_window is out of range'') (\<lambda>raw.
       if unat raw < 2 ^ 32 then Ok (word_of_nat (unat raw)) else Err ''context_window exceeds u32'')"

text \<open>Every \<open>u32\<close> fits the \<open>usize\<close> of a 64-bit target.\<close>

definition framework_from_wire ::
  "('f, 'l) framework_builder \<Rightarrow> explicit_config \<Rightarrow> string + 'f framework_config \<times> 'l" where
  "framework_from_wire fb c =
     (if xc_config_version c \<noteq> 1
      then Err (''unsupported agent config_version '' @ show_nat (unat (xc_config_version c)) @ ''; expected 1'')
      else
        (let m = xc_model c; a = xc_agent c in
         and_then (credential_token (fb_environment fb) (mc_credential m)) (\<lambda>token.
         and_then (transpose_with (\<lambda>t. ok_or (fb_parse_f32 fb t)
                     (''temperature must be a decimal number, got '' @ debug_string t)) (mc_temperature m)) (\<lambda>temperature.
         and_then (transpose_with context_window_u32 (mc_context_window m)) (\<lambda>window.
         and_then (map_err (\<lambda>e. ''failed to build model client: '' @ e)
                    (fb_llm_config fb (mc_provider m) (mc_base_url m) (option_default token [])
                       (mc_name m) (mc_api_protocol m))) (\<lambda>llm.
         and_then (map_err (\<lambda>e. ''failed to build model client: '' @ e) (fb_build_client fb llm)) (\<lambda>_.
           Ok (\<lparr>fc_provider = mc_provider m, fc_model_name = mc_name m, fc_base_url = mc_base_url m,
                fc_api_protocol = mc_api_protocol m, fc_auth_token = None, fc_max_tokens = mc_max_tokens m,
                fc_temperature = temperature, fc_context_window = window, fc_agent_name = as_name a,
                fc_system_prompt = as_system_prompt a, fc_max_iterations = word_of_nat (unat (as_max_iterations a)),
                fc_enable_tools = True\<rparr>, llm))))))))"

section \<open>Lemmas\<close>

lemma hget_optional_field: "hget (optional_field n f x) k = (if k = n then map_option f x else None)"
  by (cases x) (auto simp: optional_field_def)

lemma unat_widened: "unat (word_of_nat (unat (n :: u32)) :: u64) = unat n"
proof -
  have "unat n < 2 ^ 32" using unsigned_less [of n, where ?'a = nat] by simp
  then show ?thesis by (simp add: unsigned_ucast_eq take_bit_nat_eq_self)
qed

lemma number_json_inject [simp]: "number_json a = number_json b \<longleftrightarrow> a = b"
proof -
  have "a = b" if "(word_of_nat (unat a) :: u64) = word_of_nat (unat b)" for a b :: u32
    using arg_cong [OF that, of unat] by (simp only: unat_widened word_unat_eq_iff)
  then show ?thesis by (auto simp: number_json_def)
qed

lemma protocol_json_inject [simp]: "protocol_json a = protocol_json b \<longleftrightarrow> a = b"
  by (cases a; cases b) (auto simp: protocol_json_def)

lemma credential_json_inject [simp]: "credential_json a = credential_json b \<longleftrightarrow> a = b"
  by (cases a; cases b) auto

lemma map_option_inject: "(\<And>a b. f a = f b \<longleftrightarrow> a = b) \<Longrightarrow> map_option f x = map_option f y \<longleftrightarrow> x = y"
  by (cases x; cases y) auto

definition object_field :: "string \<Rightarrow> json \<Rightarrow> json option" where
  "object_field k j = (case j of JObject es \<Rightarrow> hget es k | _ \<Rightarrow> None)"

lemma model_json_fields:
  "object_field ''provider'' (model_json m) = Some (JString (mc_provider m))"
  "object_field ''name'' (model_json m) = Some (JString (mc_name m))"
  "object_field ''base_url'' (model_json m) = Some (JString (mc_base_url m))"
  "object_field ''api_protocol'' (model_json m) = Some (protocol_json (mc_api_protocol m))"
  "object_field ''credential'' (model_json m) = map_option credential_json (mc_credential m)"
  "object_field ''max_tokens'' (model_json m) = map_option number_json (mc_max_tokens m)"
  "object_field ''temperature'' (model_json m) = map_option JString (mc_temperature m)"
  "object_field ''context_window'' (model_json m) = map_option (\<lambda>v. JString (u64_text v)) (mc_context_window m)"
  by (simp_all add: object_field_def model_json_def map_of_append map_add_def hget_optional_field split: option.splits)

lemma model_json_inject: "model_json m = model_json n \<longleftrightarrow> m = n"
proof
  assume eq: "model_json m = model_json n"
  have "(JString (u64_text a) = JString (u64_text b)) = (a = b)" for a b by (cases a; cases b) simp
  then have "mc_context_window m = mc_context_window n"
    using arg_cong [OF eq, of "object_field ''context_window''"] by (simp add: model_json_fields map_option_inject)
  moreover have "mc_credential m = mc_credential n" "mc_max_tokens m = mc_max_tokens n" "mc_temperature m = mc_temperature n"
    using arg_cong [OF eq, of "object_field ''credential''"] arg_cong [OF eq, of "object_field ''max_tokens''"]
      arg_cong [OF eq, of "object_field ''temperature''"]
    by (simp_all add: model_json_fields map_option_inject)
  moreover have "mc_provider m = mc_provider n" "mc_name m = mc_name n" "mc_base_url m = mc_base_url n"
    "mc_api_protocol m = mc_api_protocol n"
    using arg_cong [OF eq, of "object_field ''provider''"] arg_cong [OF eq, of "object_field ''name''"]
      arg_cong [OF eq, of "object_field ''base_url''"] arg_cong [OF eq, of "object_field ''api_protocol''"]
    by (simp_all add: model_json_fields)
  ultimately show "m = n" by simp
qed simp

lemma settings_json_inject: "settings_json a = settings_json b \<longleftrightarrow> a = b"
  by (cases a; cases b) (simp add: settings_json_def)

lemma config_json_inject: "config_json a = config_json b \<longleftrightarrow> a = b"
  by (cases a; cases b) (auto simp: model_json_inject settings_json_inject intro: explicit_config.equality)

text \<open>The configuration with its inline token replaced by its digest.\<close>

definition redacted_credential :: "(string \<Rightarrow> string) \<Rightarrow> credential_source \<Rightarrow> credential_source" where
  "redacted_credential sha256_hex c =
     (case c of InlineToken t \<Rightarrow> InlineToken (''sha256:'' @ sha256_hex t) | EnvVariable v \<Rightarrow> EnvVariable v)"

definition redacted :: "(string \<Rightarrow> string) \<Rightarrow> agent_config \<Rightarrow> agent_config" where
  "redacted sha256_hex c =
     (case c of HostDefault \<Rightarrow> HostDefault
      | Explicit x \<Rightarrow> Explicit (x\<lparr>xc_model := (xc_model x)\<lparr>mc_credential :=
          map_option (redacted_credential sha256_hex) (mc_credential (xc_model x))\<rparr>\<rparr>))"

lemma redact_credential_json:
  "(if field_is ''source'' ''inline'' (credential_json c)
    then map_field ''token'' (redact_token h) (credential_json c) else credential_json c) =
   credential_json (redacted_credential h c)"
  by (cases c) (simp_all add: field_is_def map_field_def redact_token_def redacted_credential_def)

lemma map_field_optional:
  "map (\<lambda>(k, v). (k, if k = n then f v else v)) (optional_field n' g x) =
     optional_field n' (\<lambda>v. if n' = n then f (g v) else g v) x"
  by (cases x) (simp_all add: optional_field_def)

lemma map_field_model:
  assumes "\<And>c. f (credential_json c) = credential_json (g c)"
  shows "map_field ''credential'' f (model_json m) = model_json (m\<lparr>mc_credential := map_option g (mc_credential m)\<rparr>)"
  by (cases "mc_credential m")
    (simp_all add: model_json_def map_field_def map_field_optional assms, simp_all add: optional_field_def assms)

lemma redact_config_json: "redact_config h (config_json c) = config_json (redacted h c)"
proof (cases c)
  case (Explicit x)
  then show ?thesis
    using map_field_model [of "\<lambda>c. if field_is ''source'' ''inline'' c then map_field ''token'' (redact_token h) c else c"
        "redacted_credential h", OF redact_credential_json]
    by (simp add: redact_config_def redacted_def field_is_def map_field_def)
qed (simp add: redact_config_def redacted_def field_is_def)

section \<open>Property\<close>

text \<open>C35: The fingerprint of an Agent configuration identifies it without its secret: it is the JSON text of
  the configuration in which an inline token is replaced by its SHA-256 digest, so it never depends on the
  token but through the digest, and two configurations have the same fingerprint exactly when they agree in
  everything but the token, and in the digest of the token.\<close>

theorem fingerprint_identifies_config:
  assumes "\<And>c. c \<in> {a, b} \<Longrightarrow> to_text (config_json (redacted sha256_hex c)) \<noteq> None"
    and "inj_on to_text {config_json (redacted sha256_hex a), config_json (redacted sha256_hex b)}"
  shows "to_text (config_json (redacted sha256_hex a)) = Some (config_fingerprint sha256_hex to_text a) \<and>
    (config_fingerprint sha256_hex to_text a = config_fingerprint sha256_hex to_text b \<longleftrightarrow>
       redacted sha256_hex a = redacted sha256_hex b)"
proof -
  have shown: "to_text (config_json (redacted sha256_hex c)) = Some (config_fingerprint sha256_hex to_text c)"
    if "c \<in> {a, b}" for c
    using assms(1) [OF that] by (auto simp: config_fingerprint_def redact_config_json option_default_def)
  have "redacted sha256_hex a = redacted sha256_hex b"
    if "config_fingerprint sha256_hex to_text a = config_fingerprint sha256_hex to_text b"
  proof -
    have "to_text (config_json (redacted sha256_hex a)) = to_text (config_json (redacted sha256_hex b))"
      using shown that by simp
    from inj_onD [OF assms(2) this] show ?thesis by (simp add: config_json_inject)
  qed
  moreover have "config_fingerprint sha256_hex to_text a = config_fingerprint sha256_hex to_text b"
    if "redacted sha256_hex a = redacted sha256_hex b"
    by (simp add: config_fingerprint_def redact_config_json that)
  ultimately show ?thesis using shown [of a] by blast
qed

definition sample_config :: "string \<Rightarrow> agent_config" where
  "sample_config token = Explicit
     \<lparr>xc_config_version = 1,
      xc_model = \<lparr>mc_provider = ''local'', mc_name = ''model'', mc_base_url = ''http://127.0.0.1'',
        mc_api_protocol = ChatCompletions, mc_credential = Some (InlineToken token), mc_max_tokens = None,
        mc_temperature = None, mc_context_window = None\<rparr>,
      xc_agent = \<lparr>as_name = ''a'', as_system_prompt = ''p'', as_max_iterations = 3\<rparr>\<rparr>"

text \<open>A digest that keeps one character, under which the two tokens collide and a third one does not.\<close>

definition sample_text :: "json \<Rightarrow> string option" where
  "sample_text j = (if j = config_json (redacted (take 1) (sample_config ''sa'')) then Some ''x'' else Some ''y'')"

lemma sample_text_total: "sample_text j \<noteq> None"
  by (simp add: sample_text_def)

lemma sample_text_inj:
  "inj_on sample_text {config_json (redacted (take 1) (sample_config ''sa'')), config_json (redacted (take 1) c)}"
  by (auto simp: inj_on_def sample_text_def split: if_splits)

theorem fingerprint_identifies_config_witness:
  "config_fingerprint (take 1) sample_text (sample_config ''sa'') =
     config_fingerprint (take 1) sample_text (sample_config ''sb'') \<and>
   config_fingerprint (take 1) sample_text (sample_config ''sa'') \<noteq>
     config_fingerprint (take 1) sample_text (sample_config ''t'')"
proof -
  have same: "redacted (take 1) (sample_config ''sa'') = redacted (take 1) (sample_config ''sb'')"
    and other: "redacted (take 1) (sample_config ''sa'') \<noteq> redacted (take 1) (sample_config ''t'')"
    by (simp_all add: redacted_def sample_config_def redacted_credential_def)
  from fingerprint_identifies_config [OF sample_text_total sample_text_inj] same other show ?thesis by blast
qed

end
