(* ===== verification/Session_Factory.thy ===== *)
theory Session_Factory
  imports Publication Agent_Config
begin

text \<open>
  The Session factory (\<open>echo-sdk-host/src/factory.rs\<close>): the Agent definitions Sessions are built from,
  the authority services of the open Sessions and the association of a Session's construction with the
  publication that asked for it. Whether the framework can construct the Agent is an argument; of the
  authority services only the working directory is kept.
\<close>

section \<open>State\<close>

record prepared_definition =
  pd_id :: string
  pd_name :: string
  pd_model_name :: string
  pd_system_prompt :: string
  pd_host_default :: bool

record publication_admission =
  pa_token :: string
  pa_definition :: string
  pa_observer :: "nat option"

record session_factory =
  sf_default :: prepared_definition
  sf_definitions :: "prepared_definition hmap"
  sf_services :: "native_path hmap"
  sf_max_definitions :: usize
  sf_admissions :: "publication_admission hmap"

definition new_factory :: "prepared_definition \<Rightarrow> usize \<Rightarrow> session_factory" where
  "new_factory d max_definitions =
     \<lparr>sf_default = d, sf_definitions = [(pd_id d, d)], sf_services = [],
      sf_max_definitions = max_definitions, sf_admissions = []\<rparr>"

record agent_snapshot =
  sp_name :: string
  sp_model_name :: string
  sp_system_prompt :: string
  sp_tool_names :: "string list"
  sp_skill_names :: "string list"
  sp_mcp_server_names :: "string list"
  sp_working_dir :: "string option"
  sp_host_default :: bool

definition snapshot :: "prepared_definition \<Rightarrow> agent_snapshot" where
  "snapshot d =
     \<lparr>sp_name = pd_name d, sp_model_name = pd_model_name d, sp_system_prompt = pd_system_prompt d,
      sp_tool_names = [], sp_skill_names = [], sp_mcp_server_names = [], sp_working_dir = None,
      sp_host_default = pd_host_default d\<rparr>"

section \<open>Definitions\<close>

definition register_definition :: "prepared_definition \<Rightarrow> session_factory \<Rightarrow> (string + unit) \<times> session_factory" where
  "register_definition d f =
     (if hmem (pd_id d) (sf_definitions f) then (Ok (), f)
      else if unat (sf_max_definitions f) \<le> length (sf_definitions f)
      then (Err (''Agent definition limit '' @ show_nat (unat (sf_max_definitions f)) @ '' reached''), f)
      else (Ok (), f\<lparr>sf_definitions := hput (pd_id d) d (sf_definitions f)\<rparr>))"

definition remove_definition :: "string \<Rightarrow> session_factory \<Rightarrow> session_factory" where
  "remove_definition i f =
     (if i \<noteq> pd_id (sf_default f) then f\<lparr>sf_definitions := hdel i (sf_definitions f)\<rparr> else f)"

definition remove_session_services :: "string \<Rightarrow> session_factory \<Rightarrow> session_factory" where
  "remove_session_services session_id f = f\<lparr>sf_services := hdel session_id (sf_services f)\<rparr>"

section \<open>Association with a publication\<close>

text \<open>The token identifies the association to its guard; \<open>observer\<close> is the publication to admit.\<close>

definition associate_publication ::
  "string \<Rightarrow> string \<Rightarrow> string \<Rightarrow> nat option \<Rightarrow> session_factory \<Rightarrow> (unit + unit) \<times> session_factory" where
  "associate_publication token session_id definition_id observer f =
     (if hmem session_id (sf_admissions f) then (Err (), f)
      else (Ok (), f\<lparr>sf_admissions := hput session_id
             \<lparr>pa_token = token, pa_definition = definition_id, pa_observer = observer\<rparr> (sf_admissions f)\<rparr>))"

text \<open>Dropping the guard.\<close>

definition drop_association :: "string \<Rightarrow> string \<Rightarrow> session_factory \<Rightarrow> session_factory" where
  "drop_association session_id token f =
     (if map_option pa_token (hget (sf_admissions f) session_id) = Some token
      then f\<lparr>sf_admissions := hdel session_id (sf_admissions f)\<rparr> else f)"

text \<open>The locked section of \<open>enter_publication_factory\<close>, and the observer that runs after it.\<close>

definition take_observer ::
  "string \<Rightarrow> string option \<Rightarrow> session_factory \<Rightarrow> (react_error + nat option) \<times> session_factory" where
  "take_observer session_id definition_id f =
     (case hget (sf_admissions f) session_id of
        None \<Rightarrow> (Ok None, f)
      | Some a \<Rightarrow>
          if definition_id = Some (pa_definition a)
          then (Ok (pa_observer a),
                f\<lparr>sf_admissions := hput session_id (a\<lparr>pa_observer := None\<rparr>) (sf_admissions f)\<rparr>)
          else (Err (ReactOther ''Session factory publication owner mismatch''), f))"

definition enter_publication_factory ::
  "(sdk_err \<Rightarrow> handler_error) \<Rightarrow> (handler_error \<Rightarrow> string) \<Rightarrow> string \<Rightarrow> string option \<Rightarrow>
     session_factory \<times> 'd publication_world \<Rightarrow> (react_error + unit) \<times> session_factory \<times> 'd publication_world" where
  "enter_publication_factory to_rpc show_error session_id definition_id fw =
     (case fw of (f, w) \<Rightarrow>
      case take_observer session_id definition_id f of
        (Inl e, f') \<Rightarrow> (Err e, f', w)
      | (Inr None, f') \<Rightarrow> (Ok (), f', w)
      | (Inr (Some a), f') \<Rightarrow>
          (case begin_publication_effects to_rpc a w of
             (r, w') \<Rightarrow> (map_err (\<lambda>e. ReactOther (show_error e)) r, f', w')))"

section \<open>Construction of a Session\<close>

text \<open>\<open>build\<close> is the framework's construction of the Agent from a definition.\<close>

definition create_session ::
  "(sdk_err \<Rightarrow> handler_error) \<Rightarrow> (handler_error \<Rightarrow> string) \<Rightarrow> (prepared_definition \<Rightarrow> react_error option) \<Rightarrow>
     string \<Rightarrow> string option \<Rightarrow> native_path \<Rightarrow> session_factory \<times> 'd publication_world \<Rightarrow>
     (react_error + prepared_definition) \<times> session_factory \<times> 'd publication_world" where
  "create_session to_rpc show_error build session_id definition_id cwd fw =
     (case (case definition_id of
              None \<Rightarrow> Ok (sf_default (fst fw))
            | Some i \<Rightarrow> ok_or (hget (sf_definitions (fst fw)) i)
                (ReactOther (''unknown Agent definition id '' @ i))) of
        Inl e \<Rightarrow> (Err e, fw)
      | Inr d \<Rightarrow>
          (case enter_publication_factory to_rpc show_error session_id definition_id fw of
             (Inl e, fw') \<Rightarrow> (Err e, fw')
           | (Inr _, f, w) \<Rightarrow>
               (case build d of
                  Some e \<Rightarrow> (Err e, f, w)
                | None \<Rightarrow> (Ok d, f\<lparr>sf_services := hput session_id cwd (sf_services f)\<rparr>, w))))"

section \<open>Histories\<close>

text \<open>
  \<open>fh_taken\<close> lists, in order, the publications whose observer was taken with the session and the
  definition of the construction that took it, and \<open>fh_asked\<close> the associations that were made.
\<close>

definition observer_of :: "string \<times> string \<times> nat \<Rightarrow> nat" where
  "observer_of t = snd (snd t)"

record factory_history =
  fh_factory :: session_factory
  fh_asked :: "(string \<times> string \<times> nat) list"
  fh_taken :: "(string \<times> string \<times> nat) list"

definition history_associate ::
  "string \<Rightarrow> string \<Rightarrow> string \<Rightarrow> nat option \<Rightarrow> factory_history \<Rightarrow> factory_history" where
  "history_associate token session_id definition_id observer h =
     (case associate_publication token session_id definition_id observer (fh_factory h) of (r, f) \<Rightarrow>
        h\<lparr>fh_factory := f,
          fh_asked := fh_asked h @ (case (r, observer) of
            (Inr _, Some a) \<Rightarrow> [(session_id, definition_id, a)] | _ \<Rightarrow> [])\<rparr>)"

definition history_take :: "string \<Rightarrow> string option \<Rightarrow> factory_history \<Rightarrow> factory_history" where
  "history_take session_id definition_id h =
     (case take_observer session_id definition_id (fh_factory h) of (r, f) \<Rightarrow>
        h\<lparr>fh_factory := f,
          fh_taken := fh_taken h @ (case (r, definition_id) of
            (Inr (Some a), Some i) \<Rightarrow> [(session_id, i, a)] | _ \<Rightarrow> [])\<rparr>)"

inductive factory_step :: "factory_history \<Rightarrow> factory_history \<Rightarrow> bool" where
  step_register: "register_definition d (fh_factory h) = (r, f) \<Longrightarrow> factory_step h (h\<lparr>fh_factory := f\<rparr>)"
| step_remove: "factory_step h (h\<lparr>fh_factory := remove_definition i (fh_factory h)\<rparr>)"
| step_drop_services: "factory_step h (h\<lparr>fh_factory := remove_session_services session_id (fh_factory h)\<rparr>)"
| step_associate: "(\<forall>a. observer = Some a \<longrightarrow> a \<notin> observer_of ` set (fh_asked h)) \<Longrightarrow>
    factory_step h (history_associate token session_id definition_id observer h)"
| step_drop: "factory_step h (h\<lparr>fh_factory := drop_association session_id token (fh_factory h)\<rparr>)"
| step_take: "factory_step h (history_take session_id definition_id h)"
| step_built: "factory_step h (h\<lparr>fh_factory := (fh_factory h)
    \<lparr>sf_services := hput session_id cwd (sf_services (fh_factory h))\<rparr>\<rparr>)"

definition factory_new :: "factory_history \<Rightarrow> bool" where
  "factory_new h \<longleftrightarrow> (\<exists>d n. fh_factory h = new_factory d n) \<and> fh_asked h = [] \<and> fh_taken h = []"

section \<open>The invariant\<close>

definition definitions_inv :: "session_factory \<Rightarrow> bool" where
  "definitions_inv f \<longleftrightarrow>
     hwf (sf_definitions f) \<and> hget (sf_definitions f) (pd_id (sf_default f)) = Some (sf_default f) \<and>
     (\<forall>i d. hget (sf_definitions f) i = Some d \<longrightarrow> pd_id d = i) \<and>
     length (sf_definitions f) \<le> max 1 (unat (sf_max_definitions f))"

definition observers_inv ::
  "publication_admission hmap \<Rightarrow> (string \<times> string \<times> nat) list \<Rightarrow> (string \<times> string \<times> nat) list \<Rightarrow> bool" where
  "observers_inv admissions asked taken \<longleftrightarrow>
     distinct (map observer_of asked) \<and> distinct (map observer_of taken) \<and> set taken \<subseteq> set asked \<and>
     (\<forall>session_id p a. hget admissions session_id = Some p \<longrightarrow> pa_observer p = Some a \<longrightarrow>
        (session_id, pa_definition p, a) \<in> set asked - set taken)"

definition factory_inv :: "factory_history \<Rightarrow> bool" where
  "factory_inv h \<longleftrightarrow> definitions_inv (fh_factory h) \<and>
     observers_inv (sf_admissions (fh_factory h)) (fh_asked h) (fh_taken h)"

lemma definitions_inv_same:
  "definitions_inv f \<Longrightarrow> sf_definitions f' = sf_definitions f \<Longrightarrow> sf_default f' = sf_default f \<Longrightarrow>
     sf_max_definitions f' = sf_max_definitions f \<Longrightarrow> definitions_inv f'"
  by (simp add: definitions_inv_def)

lemma register_definition_inv:
  assumes "definitions_inv f" and "register_definition d f = (r, f')"
  shows "definitions_inv f' \<and> sf_admissions f' = sf_admissions f"
proof (cases "hmem (pd_id d) (sf_definitions f) \<or> unat (sf_max_definitions f) \<le> length (sf_definitions f)")
  case True
  with assms show ?thesis by (auto simp: register_definition_def split: if_splits)
next
  case False
  then have f': "f' = f\<lparr>sf_definitions := hput (pd_id d) d (sf_definitions f)\<rparr>"
    and absent: "hget (sf_definitions f) (pd_id d) = None"
    using assms(2) by (auto simp: register_definition_def hmem_def)
  have "length (hput (pd_id d) d (sf_definitions f)) \<le> max 1 (unat (sf_max_definitions f))"
    using False by (simp add: length_hput_absent [OF absent])
  moreover have "pd_id (sf_default f) \<noteq> pd_id d" using assms(1) absent by (auto simp: definitions_inv_def)
  ultimately show ?thesis using assms(1) unfolding f' definitions_inv_def by simp
qed

lemma remove_definition_inv: "definitions_inv f \<Longrightarrow> definitions_inv (remove_definition i f)"
  using length_hdel_le [of i "sf_definitions f"]
  by (auto simp: definitions_inv_def remove_definition_def split: if_splits)

lemma observers_inv_forget: "observers_inv m asked taken \<Longrightarrow> observers_inv (hdel k m) asked taken"
  by (simp add: observers_inv_def)

lemma observers_inv_ask_none:
  "observers_inv m asked taken \<Longrightarrow> pa_observer p = None \<Longrightarrow> observers_inv (hput k p m) asked taken"
  by (simp add: observers_inv_def)

lemma observers_inv_ask:
  assumes "observers_inv m asked taken" and "pa_observer p = Some a" and "a \<notin> observer_of ` set asked"
  shows "observers_inv (hput k p m) (asked @ [(k, pa_definition p, a)]) taken"
proof -
  have new: "(k, pa_definition p, a) \<notin> set asked" using assms(3) by (auto simp: observer_of_def image_iff)
  moreover have "set taken \<subseteq> set asked" using assms(1) by (simp add: observers_inv_def)
  ultimately show ?thesis using assms by (auto simp: observers_inv_def observer_of_def image_iff)
qed

lemma observers_inv_take:
  assumes inv: "observers_inv m asked taken" and "hget m k = Some p" and "pa_observer p = Some a"
  shows "observers_inv (hput k (p\<lparr>pa_observer := None\<rparr>) m) asked (taken @ [(k, pa_definition p, a)])"
proof -
  have t: "(k, pa_definition p, a) \<in> set asked - set taken" using assms by (auto simp: observers_inv_def)
  have inj: "inj_on observer_of (set asked)" and sub: "set taken \<subseteq> set asked"
    using inv by (auto simp: observers_inv_def distinct_map)
  have fresh: "a \<notin> observer_of ` set taken"
  proof
    assume "a \<in> observer_of ` set taken"
    then obtain x where x: "x \<in> set taken" "observer_of x = a" by auto
    with inj sub t have "x = (k, pa_definition p, a)" by (auto simp: inj_on_def observer_of_def)
    with x t show False by simp
  qed
  have "(k', pa_definition q, b) \<in> set asked - set (taken @ [(k, pa_definition p, a)])"
    if "hget (hput k (p\<lparr>pa_observer := None\<rparr>) m) k' = Some q" "pa_observer q = Some b" for k' q b
    using that inv by (auto simp: observers_inv_def split: if_splits)
  then show ?thesis using inv t fresh by (auto simp: observers_inv_def observer_of_def)
qed

lemma associate_inv:
  assumes "factory_inv h" and "\<forall>a. observer = Some a \<longrightarrow> a \<notin> observer_of ` set (fh_asked h)"
  shows "factory_inv (history_associate token session_id definition_id observer h)"
proof (cases "hmem session_id (sf_admissions (fh_factory h))")
  case True
  with assms show ?thesis
    by (cases observer) (simp_all add: history_associate_def associate_publication_def factory_inv_def)
next
  case False
  let ?p = "\<lparr>pa_token = token, pa_definition = definition_id, pa_observer = observer\<rparr>"
  have d: "definitions_inv (fh_factory h\<lparr>sf_admissions := hput session_id ?p (sf_admissions (fh_factory h))\<rparr>)"
    using assms(1) by (auto simp: factory_inv_def intro: definitions_inv_same)
  show ?thesis
  proof (cases observer)
    case None
    with False d assms(1) observers_inv_ask_none [of _ _ _ ?p] show ?thesis
      by (simp add: history_associate_def associate_publication_def factory_inv_def)
  next
    case (Some a)
    with False d assms observers_inv_ask [of _ _ _ ?p a] show ?thesis
      by (simp add: history_associate_def associate_publication_def factory_inv_def)
  qed
qed

lemma take_inv:
  assumes "factory_inv h"
  shows "factory_inv (history_take session_id definition_id h)"
proof (cases "hget (sf_admissions (fh_factory h)) session_id")
  case None
  with assms show ?thesis
    by (cases definition_id) (simp_all add: history_take_def take_observer_def factory_inv_def)
next
  case (Some p)
  show ?thesis
  proof (cases "definition_id = Some (pa_definition p)")
    case False
    with Some assms show ?thesis
      by (cases definition_id) (auto simp: history_take_def take_observer_def factory_inv_def)
  next
    case True
    let ?f = "fh_factory h\<lparr>sf_admissions := hput session_id (p\<lparr>pa_observer := None\<rparr>) (sf_admissions (fh_factory h))\<rparr>"
    have d: "definitions_inv ?f" using assms by (auto simp: factory_inv_def intro: definitions_inv_same)
    show ?thesis
    proof (cases "pa_observer p")
      case None
      with True Some d assms observers_inv_ask_none [of _ _ _ "p\<lparr>pa_observer := None\<rparr>"] show ?thesis
        by (simp add: history_take_def take_observer_def factory_inv_def)
    next
      case (Some a)
      with True \<open>hget (sf_admissions (fh_factory h)) session_id = Some p\<close> d assms observers_inv_take [of _ _ _ session_id p a]
      show ?thesis by (simp add: history_take_def take_observer_def factory_inv_def)
    qed
  qed
qed

lemma factory_step_inv: "factory_inv h \<Longrightarrow> factory_step h h' \<Longrightarrow> factory_inv h'"
proof (erule factory_step.cases, goal_cases)
  case (1 d k r f)
  with register_definition_inv [of "fh_factory h" d r f] show ?case by (simp add: factory_inv_def)
next
  case (2 k i)
  with remove_definition_inv [of "fh_factory h" i] show ?case
    by (simp add: factory_inv_def remove_definition_def)
next
  case (3 k session_id)
  then show ?case
    by (auto simp: factory_inv_def remove_session_services_def intro: definitions_inv_same)
next
  case (4 observer k token session_id definition_id)
  then show ?case using associate_inv by blast
next
  case (5 k session_id token)
  then show ?case
    by (auto simp: factory_inv_def drop_association_def intro: definitions_inv_same observers_inv_forget)
next
  case (6 k session_id definition_id)
  then show ?case using take_inv by blast
next
  case (7 k session_id cwd)
  then show ?case by (auto simp: factory_inv_def intro: definitions_inv_same)
qed

interpretation factory_hist: invariant_system factory_new factory_step factory_inv
proof unfold_locales
  show "factory_inv h" if "factory_new h" for h
    using that by (auto simp: factory_new_def new_factory_def factory_inv_def observers_inv_def definitions_inv_def hwf_def
        split: if_splits)
qed (rule factory_step_inv)

section \<open>Property\<close>

text \<open>C34: In every history of the factory the default definition can be resolved, every resolvable
  definition is the one with that identity, and their number is bounded; every publication's observer is
  taken at most once, and only by a construction of the very Session and definition it was associated
  with; a construction that names another definition, or none, is refused while the association stands.\<close>

theorem sessions_are_built_from_their_definition:
  assumes "reach factory_new factory_step h"
  shows "let f = fh_factory h in
    hget (sf_definitions f) (pd_id (sf_default f)) = Some (sf_default f) \<and>
    (\<forall>i d. hget (sf_definitions f) i = Some d \<longrightarrow> pd_id d = i) \<and>
    length (sf_definitions f) \<le> max 1 (unat (sf_max_definitions f)) \<and>
    distinct (map observer_of (fh_taken h)) \<and> set (fh_taken h) \<subseteq> set (fh_asked h) \<and>
    (\<forall>session_id p definition_id. hget (sf_admissions f) session_id = Some p \<longrightarrow>
       definition_id \<noteq> Some (pa_definition p) \<longrightarrow>
       \<not> is_ok (fst (create_session to_rpc show_error build session_id definition_id cwd (f, w))))"
proof -
  have inv: "factory_inv h" using assms by (rule factory_hist.reach_inv)
  have "\<not> is_ok (fst (create_session to_rpc show_error build session_id definition_id cwd (fh_factory h, w)))"
    if "hget (sf_admissions (fh_factory h)) session_id = Some p" "definition_id \<noteq> Some (pa_definition p)"
    for session_id p definition_id
    using that by (auto simp: create_session_def enter_publication_factory_def take_observer_def
        split: option.splits sum.splits)
  with inv show ?thesis
    by (auto simp: Let_def factory_inv_def definitions_inv_def observers_inv_def)
qed

text \<open>A construction under its association.\<close>

definition sample_definition :: prepared_definition where
  "sample_definition = \<lparr>pd_id = ''d'', pd_name = ''assistant'', pd_model_name = ''m'', pd_system_prompt = [],
     pd_host_default = True\<rparr>"

definition sample_factory_history :: factory_history where
  "sample_factory_history =
     history_take ''s'' (Some ''d'') (history_associate ''t'' ''s'' ''d'' (Some 0)
       \<lparr>fh_factory = new_factory sample_definition 4, fh_asked = [], fh_taken = []\<rparr>)"

lemma sample_factory_reach: "reach factory_new factory_step sample_factory_history"
proof -
  let ?h = "\<lparr>fh_factory = new_factory sample_definition 4, fh_asked = [], fh_taken = []\<rparr>"
  have "factory_new ?h" by (auto simp: factory_new_def)
  then have "reach factory_new factory_step ?h" by (rule reach_init)
  moreover have "factory_step ?h (history_associate ''t'' ''s'' ''d'' (Some 0) ?h)"
    by (rule step_associate) simp
  ultimately have "reach factory_new factory_step (history_associate ''t'' ''s'' ''d'' (Some 0) ?h)"
    by (rule reach.reach_step)
  then show ?thesis
    unfolding sample_factory_history_def by (rule reach.reach_step) (rule step_take)
qed

theorem sessions_are_built_from_their_definition_witness:
  "set (fh_taken sample_factory_history) \<subseteq> set (fh_asked sample_factory_history) \<and>
   fh_taken sample_factory_history = [(''s'', ''d'', 0)] \<and>
   \<not> is_ok (fst (create_session sample_to_rpc (\<lambda>_. []) (\<lambda>_. None) ''s'' None [47]
     (fh_factory sample_factory_history, \<lparr>pw_registry = new_registry 7 4 :: unit handle_inner, pw_store = []\<rparr>)))"
proof -
  have "fh_taken sample_factory_history = [(''s'', ''d'', 0)] \<and>
      hget (sf_admissions (fh_factory sample_factory_history)) ''s'' =
        Some \<lparr>pa_token = ''t'', pa_definition = ''d'', pa_observer = None\<rparr>"
    by (simp add: sample_factory_history_def history_take_def history_associate_def associate_publication_def
        take_observer_def new_factory_def hmem_def)
  with sessions_are_built_from_their_definition [OF sample_factory_reach, of sample_to_rpc "\<lambda>_. []" "\<lambda>_. None" "[47]"
      "\<lparr>pw_registry = new_registry 7 4 :: unit handle_inner, pw_store = []\<rparr>"]
  show ?thesis by (auto simp: Let_def)
qed

end
