(* ===== verification/Session_Handlers.thy ===== *)
theory Session_Handlers
  imports Run_Observe Session_Factory
begin

text \<open>
  The Agent and Session handlers (\<open>agent_create\<close> to \<open>close_session_owned\<close> of
  \<open>core_profile/handler.rs\<close>) and the registration of the standard entry points
  (\<open>core_profile/mod.rs\<close>), over the shared state and the Session factory. The framework's Session
  registry answers through \<open>session_env\<close>; its calls to the factory are made where the code lets it
  make them.
\<close>

section \<open>State and environment\<close>

record 'j sdk_host =
  sh_host :: "(prepared_definition, 'j) host_state"
  sh_factory :: session_factory

abbreviation sh_registry :: "'j sdk_host \<Rightarrow> prepared_definition handle_inner" where
  "sh_registry s \<equiv> hs_registry (sh_host s)"

definition on_host :: "((prepared_definition, 'j) host_state \<Rightarrow> (prepared_definition, 'j) host_state) \<Rightarrow> 'j sdk_host \<Rightarrow> 'j sdk_host" where
  "on_host f s = s\<lparr>sh_host := f (sh_host s)\<rparr>"

definition on_factory :: "(session_factory \<Rightarrow> session_factory) \<Rightarrow> 'j sdk_host \<Rightarrow> 'j sdk_host" where
  "on_factory f s = s\<lparr>sh_factory := f (sh_factory s)\<rparr>"

definition put_registry :: "prepared_definition handle_inner \<Rightarrow> 'j sdk_host \<Rightarrow> 'j sdk_host" where
  "put_registry r = on_host (set_registry r)"

definition log_call :: "framework_call \<Rightarrow> 'j sdk_host \<Rightarrow> 'j sdk_host" where
  "log_call c = on_host (call c)"

text \<open>
  \<open>ve_insert_refused\<close> and \<open>ve_insert_late\<close> are what the framework's Session registry answers before and
  after it calls the factory, \<open>ve_build\<close> its construction of the Agent, \<open>ve_context\<close> the directory of an
  inserted Session and \<open>ve_close\<close> the failure of closing one; the fresh identities are arguments.
  \<open>ve_drop_resources\<close> is the teardown of the facade's own resources, which another component keeps: the
  handles it closed in the registry and its failure.
\<close>

record 'j session_env =
  ve_run :: "'j run_env"
  ve_current_dir :: "string + native_path"
  ve_show_path :: "native_path \<Rightarrow> string"
  ve_new_session_id :: string
  ve_uuids :: "string \<times> string"
  ve_token :: string
  ve_capabilities :: "framework_observation option"
  ve_insert_refused :: "string \<Rightarrow> framework_observation option"
  ve_build :: "prepared_definition \<Rightarrow> react_error option"
  ve_insert_late :: "string \<Rightarrow> framework_observation option"
  ve_context :: "string \<Rightarrow> native_path option"
  ve_reserve_turns :: "string list \<Rightarrow> framework_observation option"
  ve_close :: "string \<Rightarrow> framework_observation option"
  ve_show_observation :: "framework_observation \<Rightarrow> string"
  ve_drop_resources :: "string \<Rightarrow> string list \<Rightarrow> string list \<times> sdk_err option"
  ve_receipt :: "string \<Rightarrow> turn_receipt"
  ve_builder :: "(unit, unit) framework_builder"
  ve_definition_id :: string
  ve_sha256 :: "string \<Rightarrow> string"
  ve_json_text :: "json \<Rightarrow> string option"

definition framework_sdk :: "'j session_env \<Rightarrow> string \<Rightarrow> framework_observation \<Rightarrow> sdk_err" where
  "framework_sdk env operation obs =
     framework_error (se_names (rn_settlement (ve_run env))) obs operation"

definition never_error :: "error_code \<Rightarrow> string \<Rightarrow> string \<Rightarrow> sdk_err" where
  "never_error code operation reason = sdk_error code reason Never operation"

definition session_create_operation :: string where "session_create_operation = ''_echo_agent/session/create''"
definition session_load_operation :: string where "session_load_operation = ''_echo_agent/session/load''"
definition session_close_operation :: string where "session_close_operation = ''_echo_agent/session/close''"

text \<open>The call that closes a Session in the framework; \<open>ve_close\<close> says whether it fails.\<close>

definition close_framework_session :: "string \<Rightarrow> 'j sdk_host \<Rightarrow> 'j sdk_host" where
  "close_framework_session acp = log_call (SessionClosed acp)"

section \<open>Creating a framework Session\<close>

definition effective_dir :: "'j session_env \<Rightarrow> string \<Rightarrow> native_path option \<Rightarrow> sdk_err + native_path" where
  "effective_dir env operation working_dir =
     (case working_dir of
        Some p \<Rightarrow>
          (if native_is_absolute p then Ok p
           else Err (never_error InvalidValue operation (''working_dir must be absolute: '' @ ve_show_path env p)))
      | None \<Rightarrow>
          map_err (\<lambda>e. never_error InvalidConfig operation (''no working directory available: '' @ e)) (ve_current_dir env))"

text \<open>\<open>insert_session\<close>: the framework refuses, or constructs the Session through the factory.\<close>

definition insert_session ::
  "'j session_env \<Rightarrow> string \<Rightarrow> prepared_definition \<Rightarrow> string \<Rightarrow> native_path \<Rightarrow> 'j sdk_host \<Rightarrow>
     (sdk_err + unit) \<times> 'j sdk_host" where
  "insert_session env operation d session_id cwd s =
     (case ve_insert_refused env session_id of
        Some obs \<Rightarrow> (Err (framework_sdk env operation obs), s)
      | None \<Rightarrow>
          (case Session_Factory.create_session (typed (ve_run env)) (rn_show_error (ve_run env)) (ve_build env)
                  session_id (Some (pd_id d)) cwd (sh_factory s, hs_world (sh_host s)) of
             (r, f, w) \<Rightarrow>
               let s' = s\<lparr>sh_factory := f, sh_host := (sh_host s)\<lparr>hs_world := w\<rparr>\<rparr> in
               (case r of
                  Inl e \<Rightarrow> (Err (framework_sdk env operation (rn_observe (ve_run env) e)), s')
                | Inr _ \<Rightarrow>
                   (case ve_insert_late env session_id of
                      Some obs \<Rightarrow> (Err (framework_sdk env operation obs), s')
                    | None \<Rightarrow> (Ok (), log_call (SessionInserted session_id) s')))))"

text \<open>The identities of the recovered runs of the Session are reserved before it is published.\<close>

definition reserve_recovered_turns ::
  "'j session_env \<Rightarrow> string \<Rightarrow> string \<Rightarrow> 'j sdk_host \<Rightarrow> sdk_err + unit" where
  "reserve_recovered_turns env operation session_id s =
     and_then (map_err (\<lambda>e. framework_sdk env operation (rn_observe (ve_run env) e))
                (load_recovered_runs (rn_disk (ve_run env)) (cs_files (hs_core (sh_host s))))) (\<lambda>runs.
     and_then (ok_or (ve_context env session_id)
                (never_error FrameworkError operation
                   ''Session disappeared before recovered turn identities were reserved'')) (\<lambda>_.
     case ve_reserve_turns env (map (\<lambda>rec. rr_run_id (rec_record rec))
            (filter (\<lambda>rec. rr_session_id (rec_record rec) = session_id) runs)) of
       Some obs \<Rightarrow> Err (framework_sdk env operation obs)
     | None \<Rightarrow> Ok ()))"

definition insert_and_reserve ::
  "'j session_env \<Rightarrow> string \<Rightarrow> prepared_definition \<Rightarrow> string \<Rightarrow> native_path \<Rightarrow> 'j sdk_host \<Rightarrow>
     (sdk_err + string) \<times> 'j sdk_host" where
  "insert_and_reserve env operation d session_id cwd s =
     (case insert_session env operation d session_id cwd s of
        (Inl e, s1) \<Rightarrow> (Err e, s1)
      | (Inr _, s1) \<Rightarrow>
          (case reserve_recovered_turns env operation session_id s1 of
             Inr _ \<Rightarrow> (Ok session_id, s1)
           | Inl e \<Rightarrow>
               let s2 = close_framework_session session_id s1 in
               (case ve_close env session_id of
                  None \<Rightarrow> (Err e, on_factory (remove_session_services session_id) s2)
                | Some obs \<Rightarrow>
                    (Err (sdk_error FrameworkError
                       (''turn identity reservation failed: '' @ err_message e @ ''; Session cleanup pending: '' @
                        ve_show_observation env obs) AfterDelay operation), s2))))"

text \<open>\<open>create_session_on\<close>; its association ends with it.\<close>

definition create_session_on ::
  "'j session_env \<Rightarrow> string \<Rightarrow> prepared_definition \<Rightarrow> string \<Rightarrow> native_path option \<Rightarrow> nat option \<Rightarrow> 'j sdk_host \<Rightarrow>
     (sdk_err + string) \<times> 'j sdk_host" where
  "create_session_on env operation d session_id working_dir publication s =
     (case and_then (effective_dir env operation working_dir) (\<lambda>cwd.
             case ve_capabilities env of Some obs \<Rightarrow> Err (framework_sdk env operation obs) | None \<Rightarrow> Ok cwd) of
        Inl e \<Rightarrow> (Err e, s)
      | Inr cwd \<Rightarrow>
          (case associate_publication (ve_token env) session_id (pd_id d) publication (sh_factory s) of
             (Inl _, f) \<Rightarrow>
               (Err (sdk_error InvalidRequest ''Session publication admission is pending'' AfterDelay operation), s)
           | (Inr _, f) \<Rightarrow>
               (case insert_and_reserve env operation d session_id cwd (s\<lparr>sh_factory := f\<rparr>) of
                  (r, s') \<Rightarrow> (r, on_factory (drop_association session_id (ve_token env)) s'))))"

section \<open>Creating a Session\<close>

text \<open>The checks of a creation or a load: the ladder, the Agent and that it is not closing.\<close>

definition open_agent ::
  "'d handle_inner \<Rightarrow> wire_handle \<Rightarrow> string \<Rightarrow> sdk_err + 'd agent_entry" where
  "open_agent s h operation =
     and_then (check_shape_and_generation s h AgentKind operation) (\<lambda>_.
     and_then (agent h s) (\<lambda>a.
       if is_closed s h \<or> ae_closing a then Err (never_error ClosedHandle operation ''Agent is closing'') else Ok a))"

text \<open>What a failed creation takes back: the handle, if there is one, and the framework's Session.\<close>

definition abandon_session :: "wire_handle \<Rightarrow> string \<Rightarrow> 'j sdk_host \<Rightarrow> 'j sdk_host" where
  "abandon_session h acp s =
     close_framework_session acp (put_registry (snd (close_session h (sh_registry s))) s)"

definition persist_session ::
  "'j session_env \<Rightarrow> string \<Rightarrow> string \<Rightarrow> string \<Rightarrow> wire_path \<Rightarrow> 'j sdk_host \<Rightarrow> (react_error + unit) \<times> 'j sdk_host" where
  "persist_session env acp agent_id fingerprint cwd s =
     (case record_session (rn_disk (ve_run env)) acp agent_id fingerprint cwd (cs_files (hs_core (sh_host s))) of
        (r, fs) \<Rightarrow> (r, on_host (on_core (\<lambda>c. c\<lparr>cs_files := fs\<rparr>)) s))"

text \<open>From the created framework Session to its handles and its durable record.\<close>

definition publish_session ::
  "'j session_env \<Rightarrow> wire_handle \<Rightarrow> prepared_definition agent_entry \<Rightarrow> string \<Rightarrow> 'j sdk_host \<Rightarrow>
     (sdk_err + session_create_response) \<times> 'j sdk_host" where
  "publish_session env agent_handle a acp s =
     (case register_session_with_cwd (fst (ve_uuids env)) (snd (ve_uuids env)) acp (h_id agent_handle)
             (ve_context env acp) (sh_registry s) of
        (Inl e, r) \<Rightarrow> (Err e, close_framework_session acp (put_registry r s))
      | (Inr (h, t, entry), r) \<Rightarrow>
          let s1 = put_registry r s in
          (case (case ve_context env acp of
                   None \<Rightarrow> Err (never_error FrameworkError session_create_operation
                                  ''Session disappeared before persistence'')
                 | Some cwd \<Rightarrow>
                     map_err (never_error InvalidValue session_create_operation) (path_to_wire (rn_paths (ve_run env)) cwd)) of
             Inl e \<Rightarrow> (Err e, abandon_session h acp s1)
           | Inr cwd_wire \<Rightarrow>
               (case persist_session env acp (sn_agent_handle_id entry) (ae_fingerprint a) cwd_wire s1 of
                  (Inl e, s2) \<Rightarrow>
                    (Err (framework_sdk env session_create_operation (rn_observe (ve_run env) e)), abandon_session h acp s2)
                | (Inr _, s2) \<Rightarrow>
                    (Ok \<lparr>sc_session = h, sc_task_run = t, sc_acp_session_id = acp\<rparr>, s2))))"

definition session_create_checks ::
  "'j session_env \<Rightarrow> session_create_request \<Rightarrow> prepared_definition handle_inner \<Rightarrow>
     handler_error + prepared_definition agent_entry \<times> native_path option" where
  "session_create_checks env q s =
     and_then (handler_admission (ve_run env) SessionHandles session_create_operation) (\<lambda>_. map_err (typed (ve_run env))
      (and_then (map_err (invalid_value session_create_operation)
                  (validate_session_create (dk_base64 (rn_disk (ve_run env))) q)) (\<lambda>_.
       and_then (open_agent s (cq_agent q) session_create_operation) (\<lambda>a.
         map_ok (Pair a) (working_dir_from_wire (rn_paths (ve_run env)) (cq_working_dir q))))))"

definition requested_session_id :: "'j session_env \<Rightarrow> session_create_request \<Rightarrow> string" where
  "requested_session_id env q = option_default (cq_session_id q) (''sess_'' @ ve_new_session_id env)"

definition session_create_fresh ::
  "'j session_env \<Rightarrow> session_create_request \<Rightarrow> nat option \<Rightarrow> 'j sdk_host \<Rightarrow>
     (handler_error + session_create_response) \<times> 'j sdk_host" where
  "session_create_fresh env q publication s =
     (case session_create_checks env q (sh_registry s) of
        Inl e \<Rightarrow> (Err e, s)
      | Inr (a, working_dir) \<Rightarrow>
          (case create_session_on env session_create_operation (ae_definition a)
                  (requested_session_id env q) working_dir publication s of
             (Inl e, s1) \<Rightarrow> (Err (typed (ve_run env) e), s1)
           | (Inr acp, s1) \<Rightarrow>
               (case publish_session env (cq_agent q) a acp s1 of
                  (r, s2) \<Rightarrow> (map_err (typed (ve_run env)) r, s2))))"

section \<open>Loading a Session\<close>

text \<open>What a load decides before it touches the framework: the recovered runs and the directory.\<close>

definition persisted_dir ::
  "path_codec \<Rightarrow> session_record option \<Rightarrow> recovered_run list \<Rightarrow> native_path option" where
  "persisted_dir pc persisted recovered =
     Option.bind
       (option_or (map_option sr_cwd persisted)
          (case recovered of [] \<Rightarrow> None | rec # _ \<Rightarrow> rr_cwd (rec_record rec)))
       (\<lambda>cwd. case path_from_wire pc cwd of Inl _ \<Rightarrow> None | Inr p \<Rightarrow> Some p)"

definition foreign_fingerprint :: "string \<Rightarrow> string \<Rightarrow> bool" where
  "foreign_fingerprint recorded fingerprint = (recorded \<noteq> [] \<and> recorded \<noteq> fingerprint)"

definition session_load_plan ::
  "'j session_env \<Rightarrow> session_load_request \<Rightarrow> 'j sdk_host \<Rightarrow>
     sdk_err + prepared_definition agent_entry \<times> recovered_run list \<times> native_path" where
  "session_load_plan env q s =
     and_then (map_err (invalid_value session_load_operation)
                (validate_session_load (dk_base64 (rn_disk (ve_run env))) q)) (\<lambda>_.
     and_then (open_agent (sh_registry s) (lq_agent q) session_load_operation) (\<lambda>a.
     and_then (working_dir_from_wire (rn_paths (ve_run env)) (lq_working_dir q)) (\<lambda>requested.
     and_then (map_err (\<lambda>e. framework_sdk env session_load_operation (rn_observe (ve_run env) e))
                (load_session (rn_disk (ve_run env)) (cs_files (hs_core (sh_host s))) (lq_session_id q))) (\<lambda>persisted.
     let recovered = recovered_runs_of_session (lq_session_id q) (hs_core (sh_host s));
         known_dir = persisted_dir (rn_paths (ve_run env)) persisted recovered in
     if recovered = [] \<and> persisted = None
     then Err (never_error InvalidValue session_load_operation
            (''session '' @ lq_session_id q @ '' is not present in the configured state root''))
     else if (case persisted of None \<Rightarrow> False | Some r \<Rightarrow> foreign_fingerprint (sr_fingerprint r) (ae_fingerprint a)) \<or>
        list_ex (\<lambda>rec. foreign_fingerprint (rr_fingerprint (rec_record rec)) (ae_fingerprint a)) recovered
     then Err (never_error InvalidConfig session_load_operation
            ''session recovery Agent definition does not match the requested Agent handle'')
     else if (case (requested, known_dir) of (Some r, Some p) \<Rightarrow> r \<noteq> p | _ \<Rightarrow> False)
     then Err (never_error InvalidConfig session_load_operation
            ''session recovery working_dir does not match the persisted Session directory'')
     else map_ok (\<lambda>dir. (a, recovered, dir))
            (ok_or (option_or requested known_dir)
               (never_error InvalidConfig session_load_operation ''recovered Session has no persisted working_dir''))))))"

definition recovered_entry_of :: "recovered_run \<Rightarrow> recovered_entry" where
  "recovered_entry_of rec =
     \<lparr>rv_stream_id = rr_stream_id (rec_record rec), rv_session_id = rr_session_id (rec_record rec),
      rv_status = rec_status rec, rv_last_sequence = rec_last_sequence rec, rv_terminal = rec_terminal rec,
      rv_receipt = rec_receipt rec\<rparr>"

text \<open>The loop over the recovered runs; a failed registration reports those registered before it.\<close>

fun register_recovered ::
  "recovered_run list \<Rightarrow> string list \<Rightarrow> recovered_run_wire list \<Rightarrow> 'd handle_inner \<Rightarrow>
     (sdk_err \<times> string list + recovered_run_wire list \<times> string list) \<times> 'd handle_inner" where
  "register_recovered [] ids ws r = (Ok (ws, ids), r)"
| "register_recovered (rec # recs) ids ws r =
     (case register_recovered_run (rr_run_id (rec_record rec)) (recovered_entry_of rec) r of
        (Inl e, r') \<Rightarrow> (Err (e, ids), r')
      | (Inr (run_handle, stream_handle, _), r') \<Rightarrow>
          register_recovered recs (ids @ [rr_run_id (rec_record rec)])
            (ws @ [\<lparr>rw_run = run_handle, rw_stream = stream_handle, rw_status = rec_status rec,
                    rw_last_sequence = from_u64 (rec_last_sequence rec), rw_terminal = rec_terminal rec\<rparr>]) r')"

definition unregister_runs :: "string list \<Rightarrow> 'd handle_inner \<Rightarrow> 'd handle_inner" where
  "unregister_runs ids r = fold remove_run_handles ids r"

definition recovered_watermark :: "recovered_run list \<Rightarrow> u64" where
  "recovered_watermark recs = fold (\<lambda>rec q. max q (rec_last_sequence rec)) recs 0"

text \<open>
  The Session and its runs become addressable. The last two failures return without taking the handles
  back: \<open>?\<close> leaves the handler.
\<close>

definition publish_loaded ::
  "'j session_env \<Rightarrow> session_load_request \<Rightarrow> prepared_definition agent_entry \<Rightarrow> recovered_run list \<Rightarrow> string \<Rightarrow>
     'j sdk_host \<Rightarrow> session_load_response handled \<times> 'j sdk_host" where
  "publish_loaded env q a recovered acp s =
     (case register_recovered recovered [] [] (sh_registry s) of
        (Inl (e, ids), r) \<Rightarrow>
          (respond (rn_codec (ve_run env)) (Err e),
           close_framework_session acp (put_registry (unregister_runs ids r) s))
      | (Inr (ws, ids), r) \<Rightarrow>
          (case register_session_with_cwd (fst (ve_uuids env)) (snd (ve_uuids env)) acp (h_id (lq_agent q))
                  (ve_context env acp) r of
             (Inl e, r') \<Rightarrow>
               (respond (rn_codec (ve_run env)) (Err e),
                close_framework_session acp (put_registry (unregister_runs ids r') s))
           | (Inr (h, t, entry), r') \<Rightarrow>
               let s1 = put_registry r' s in
               (case and_then (ok_or (ve_context env acp) (RpcInternal ''Session disappeared'')) (\<lambda>cwd.
                       map_err RpcInternal (path_to_wire (rn_paths (ve_run env)) cwd)) of
                  Inl e \<Rightarrow> (Err e, s1)
                | Inr cwd_wire \<Rightarrow>
                    (case persist_session env acp (sn_agent_handle_id entry) (ae_fingerprint a) cwd_wire s1 of
                       (Inl e, s2) \<Rightarrow> (Err (RpcInternal (se_react_text (rn_settlement (ve_run env)) e)), s2)
                     | (Inr _, s2) \<Rightarrow>
                         (Ok (Ok \<lparr>lr_session = h, lr_task_run = t, lr_acp_session_id = acp,
                             lr_recovered_sequence =
                               (if 0 < recovered_watermark recovered then Some (from_u64 (recovered_watermark recovered))
                                else None),
                             lr_runs = ws\<rparr>), s2)))))"

definition session_load ::
  "'j session_env \<Rightarrow> session_load_request \<Rightarrow> 'j sdk_host \<Rightarrow> session_load_response handled \<times> 'j sdk_host" where
  "session_load env q s =
     (case handler_admission (ve_run env) SessionHandles session_load_operation of
        Inl e \<Rightarrow> (Err e, s)
      | Inr _ \<Rightarrow>
          (case session_load_plan env q s of
             Inl e \<Rightarrow> (respond (rn_codec (ve_run env)) (Err e), s)
           | Inr (a, recovered, dir) \<Rightarrow>
               (case create_session_on env session_load_operation (ae_definition a) (lq_session_id q) (Some dir) None s of
                  (Inl e, s1) \<Rightarrow> (respond (rn_codec (ve_run env)) (Err e), s1)
                | (Inr acp, s1) \<Rightarrow> publish_loaded env q a recovered acp s1)))"

section \<open>What a failure leaves\<close>

text \<open>Two states that differ in their tombstones, the calls between them and the authority services.\<close>

definition session_frame :: "framework_call list \<Rightarrow> 'j sdk_host \<Rightarrow> 'j sdk_host \<Rightarrow> bool" where
  "session_frame log s s' \<longleftrightarrow>
     open_part (sh_registry s') = open_part (sh_registry s) \<and> hs_core (sh_host s') = hs_core (sh_host s) \<and>
     hs_calls (sh_host s') = hs_calls (sh_host s) @ log \<and>
     sf_definitions (sh_factory s') = sf_definitions (sh_factory s) \<and>
     sf_default (sh_factory s') = sf_default (sh_factory s)"

lemmas host_parts = on_host_def on_factory_def put_registry_def set_registry_def log_call_def call_def
  on_core_def close_framework_session_def

lemma hdel_hput_same: "hdel k (hput k v m) = hdel k m"
  by (induction m) (auto simp: AList.delete_eq)

lemma hdel_absent: "hget m k = None \<Longrightarrow> hdel k m = m"
  using hdel_hput_same [of k undefined m] hdel_hput_absent [of m k undefined] by simp

lemma session_frame_refl: "session_frame [] s s"
  by (simp add: session_frame_def)

lemma admit_effects_registry [simp]:
  "pw_registry (snd (admit_publication_effects to_rpc a admitted w)) = pw_registry w"
  by (simp add: admit_publication_effects_def Let_def update_publication_def split: sum.splits)

lemma create_session_parts:
  assumes "Session_Factory.create_session to_rpc show_error build session_id definition_id cwd (f, w) = (r, f', w')"
  shows "pw_registry w' = pw_registry w \<and> sf_definitions f' = sf_definitions f \<and> sf_default f' = sf_default f \<and>
    hdel session_id (sf_admissions f') = hdel session_id (sf_admissions f) \<and>
    map_option pa_token (hget (sf_admissions f') session_id) = map_option pa_token (hget (sf_admissions f) session_id)"
proof -
  have reg: "begin_publication_effects to_rpc a w = (x, v) \<Longrightarrow> pw_registry v = pw_registry w" for a x v
    using admit_effects_registry [of to_rpc a "Ok ()" w] by (simp add: begin_publication_effects_def)
  show ?thesis
    using assms reg
    by (auto simp: create_session_def enter_publication_factory_def take_observer_def hdel_hput_same
        split: option.splits sum.splits prod.splits if_splits)
qed

lemma insert_session_shape:
  assumes "insert_session env operation d session_id cwd s = (r, s')"
  shows "session_frame (if is_ok r then [SessionInserted session_id] else []) s s' \<and>
    hdel session_id (sf_admissions (sh_factory s')) = hdel session_id (sf_admissions (sh_factory s)) \<and>
    map_option pa_token (hget (sf_admissions (sh_factory s')) session_id) =
      map_option pa_token (hget (sf_admissions (sh_factory s)) session_id)"
proof (cases "ve_insert_refused env session_id")
  case (Some obs)
  with assms show ?thesis by (auto simp: insert_session_def session_frame_refl)
next
  case None
  obtain x f w where x: "Session_Factory.create_session (typed (ve_run env)) (rn_show_error (ve_run env)) (ve_build env)
      session_id (Some (pd_id d)) cwd (sh_factory s, hs_world (sh_host s)) = (x, f, w)" by (metis prod_cases3)
  note same = create_session_parts [OF x]
  have "s' = (if is_ok r then log_call (SessionInserted session_id) else id)
      (s\<lparr>sh_factory := f, sh_host := (sh_host s)\<lparr>hs_world := w\<rparr>\<rparr>)"
    using assms None x by (auto simp: insert_session_def Let_def split: sum.splits option.splits)
  with same show ?thesis by (auto simp: session_frame_def host_parts)
qed

lemma insert_and_reserve_shape:
  assumes "insert_and_reserve env operation d session_id cwd s = (r, s')"
  shows "(\<exists>log. session_frame log s s' \<and>
      (case r of Inl _ \<Rightarrow> log = [] \<or> log = [SessionInserted session_id, SessionClosed session_id]
       | Inr i \<Rightarrow> i = session_id \<and> log = [SessionInserted session_id])) \<and>
    hdel session_id (sf_admissions (sh_factory s')) = hdel session_id (sf_admissions (sh_factory s)) \<and>
    map_option pa_token (hget (sf_admissions (sh_factory s')) session_id) =
      map_option pa_token (hget (sf_admissions (sh_factory s)) session_id)"
proof -
  obtain x s1 where x: "insert_session env operation d session_id cwd s = (x, s1)" by fastforce
  note shape = insert_session_shape [OF x]
  show ?thesis
  proof (cases x)
    case (Inl e)
    with assms x shape show ?thesis by (auto simp: insert_and_reserve_def)
  next
    case (Inr u)
    have "(\<exists>log. session_frame log s1 s' \<and>
        (case r of Inl _ \<Rightarrow> log = [SessionClosed session_id] | Inr i \<Rightarrow> i = session_id \<and> log = [])) \<and>
      sf_admissions (sh_factory s') = sf_admissions (sh_factory s1)"
      using assms x Inr
      by (auto simp: insert_and_reserve_def Let_def session_frame_def host_parts remove_session_services_def
          split: sum.splits option.splits)
    then obtain log where log: "session_frame log s1 s'"
      "case r of Inl _ \<Rightarrow> log = [SessionClosed session_id] | Inr i \<Rightarrow> i = session_id \<and> log = []"
      "sf_admissions (sh_factory s') = sf_admissions (sh_factory s1)" by auto
    have "session_frame ([SessionInserted session_id] @ log) s s'"
      using shape log(1) Inr by (simp add: session_frame_def)
    with log shape show ?thesis by (cases r) auto
  qed
qed

lemma create_session_on_shape:
  assumes "create_session_on env operation d session_id working_dir publication s = (r, s')"
  shows "\<exists>log. session_frame log s s' \<and> sf_admissions (sh_factory s') = sf_admissions (sh_factory s) \<and>
    (case r of Inl _ \<Rightarrow> log = [] \<or> log = [SessionInserted session_id, SessionClosed session_id]
     | Inr i \<Rightarrow> i = session_id \<and> log = [SessionInserted session_id])"
proof (cases "is_ok (and_then (effective_dir env operation working_dir) (\<lambda>cwd.
      case ve_capabilities env of Some obs \<Rightarrow> Err (framework_sdk env operation obs) | None \<Rightarrow> Ok cwd)) \<and>
    is_ok (fst (associate_publication (ve_token env) session_id (pd_id d) publication (sh_factory s)))")
  case False
  with assms show ?thesis
    by (auto simp: create_session_on_def session_frame_refl is_ok_iff split: sum.splits prod.splits
        intro!: exI [of _ "[]"])
next
  case True
  define f where "f = snd (associate_publication (ve_token env) session_id (pd_id d) publication (sh_factory s))"
  have absent: "hget (sf_admissions (sh_factory s)) session_id = None"
    using True by (auto simp: associate_publication_def hmem_def split: if_splits)
  then have f: "f = (sh_factory s)\<lparr>sf_admissions := hput session_id
      \<lparr>pa_token = ve_token env, pa_definition = pd_id d, pa_observer = publication\<rparr> (sf_admissions (sh_factory s))\<rparr>"
    by (simp add: f_def associate_publication_def hmem_def)
  obtain cwd where "and_then (effective_dir env operation working_dir) (\<lambda>cwd.
      case ve_capabilities env of Some obs \<Rightarrow> Err (framework_sdk env operation obs) | None \<Rightarrow> Ok cwd) = Ok cwd"
    using True by (auto simp: is_ok_iff)
  moreover have "associate_publication (ve_token env) session_id (pd_id d) publication (sh_factory s) = (Ok (), f)"
    using True by (auto simp: f_def prod_eq_iff is_ok_iff)
  ultimately obtain t where t: "insert_and_reserve env operation d session_id cwd (s\<lparr>sh_factory := f\<rparr>) = (r, t)"
    and s': "s' = on_factory (drop_association session_id (ve_token env)) t"
    using assms by (auto simp: create_session_on_def split: prod.splits)
  note shape = insert_and_reserve_shape [OF t]
  have "sf_admissions (sh_factory s') = sf_admissions (sh_factory s)"
    using shape s' absent by (simp add: f host_parts drop_association_def hdel_hput_same hdel_absent)
  moreover have "session_frame log s s'" if "session_frame log (s\<lparr>sh_factory := f\<rparr>) t" for log
    using that by (simp add: session_frame_def s' f host_parts drop_association_def)
  ultimately show ?thesis using shape by blast
qed

text \<open>The identities minted for a Session are new.\<close>

definition fresh_session_ids :: "'j session_env \<Rightarrow> 'd handle_inner \<Rightarrow> bool" where
  "fresh_session_ids env r \<longleftrightarrow>
     \<not> hmem (minted_id SessionKind (fst (ve_uuids env))) (hi_sessions r) \<and>
     \<not> hmem (minted_id TaskRunKind (snd (ve_uuids env))) (hi_task_runs r) \<and>
     plan_tasks_of (minted_id TaskRunKind (snd (ve_uuids env))) r = []"

lemma register_session_shape:
  assumes "register_session_with_cwd (fst (ve_uuids env)) (snd (ve_uuids env)) acp agent_id cwd r = (res, r')"
  shows "case res of
      Inl _ \<Rightarrow> r' = r
    | Inr (h, t, entry) \<Rightarrow>
        h = issued r SessionKind (minted_id SessionKind (fst (ve_uuids env))) \<and>
        t = issued r TaskRunKind (minted_id TaskRunKind (snd (ve_uuids env))) \<and>
        entry = \<lparr>sn_cancelled = False, sn_closing = False, sn_acp_session_id = acp, sn_agent_handle_id = agent_id,
          sn_cwd = cwd, sn_task_run_handle_id = h_id t\<rparr> \<and>
        r' = r\<lparr>hi_sessions := hput (h_id h) entry (hi_sessions r),
          hi_task_runs := hput (h_id t) \<lparr>tr_session_handle_id = h_id h, tr_acp_session_id = acp\<rparr> (hi_task_runs r)\<rparr>"
  using assms
  by (auto simp: register_session_with_cwd_def mint_id_def issued_def mk_handle_def Let_def
      split: if_splits sum.splits option.splits)

lemma plan_tasks_of_parts [simp]:
  "plan_tasks_of t (r\<lparr>hi_sessions := x\<rparr>) = plan_tasks_of t r"
  "plan_tasks_of t (r\<lparr>hi_task_runs := y\<rparr>) = plan_tasks_of t r"
  by (simp_all add: plan_tasks_of_def)

lemma close_registered_session:
  assumes "register_session_with_cwd (fst (ve_uuids env)) (snd (ve_uuids env)) acp agent_id cwd r = (Ok (h, t, entry), r')"
    and "fresh_session_ids env r"
  shows "open_part (snd (close_session h r')) = open_part r"
proof -
  note shape = register_session_shape [OF assms(1)]
  have ids: "h_id h = minted_id SessionKind (fst (ve_uuids env))"
    "sn_task_run_handle_id entry = minted_id TaskRunKind (snd (ve_uuids env))"
    "h_id t = minted_id TaskRunKind (snd (ve_uuids env))"
    using shape by (simp_all add: issued_def mk_handle_def)
  have "snd (close_session h r') = release_session h entry (r'\<lparr>hi_sessions := hdel (h_id h) (hi_sessions r')\<rparr>)"
    using shape by (simp add: close_session_def)
  moreover have "open_part \<dots> = open_part r"
    using shape assms(2) ids
    by (simp add: release_session_def Let_def fresh_session_ids_def hmem_def hdel_hput_absent open_part_def
        push_tombstones_def)
  ultimately show ?thesis by simp
qed


lemma abandoned_frame:
  assumes "register_session_with_cwd (fst (ve_uuids env)) (snd (ve_uuids env)) acp agent_id cwd (sh_registry s) =
      (Ok (h, t, entry), r)" and "fresh_session_ids env (sh_registry s)"
  shows "session_frame [SessionClosed acp] s (abandon_session h acp (put_registry r s))"
  using close_registered_session [OF assms] by (simp add: session_frame_def abandon_session_def host_parts)

text \<open>A Session that was published: its handles, its durable record and its place in the framework.\<close>

definition session_published ::
  "'j session_env \<Rightarrow> wire_handle \<Rightarrow> string \<Rightarrow> string \<Rightarrow> session_create_response \<Rightarrow> 'j sdk_host \<Rightarrow> 'j sdk_host \<Rightarrow> bool" where
  "session_published env agent_handle fingerprint acp response s s' \<longleftrightarrow>
     sc_acp_session_id response = acp \<and>
     (\<exists>entry cwd wire.
        session (sc_session response) (sh_registry s') = Ok entry \<and>
        sn_acp_session_id entry = acp \<and> sn_agent_handle_id entry = h_id agent_handle \<and> \<not> sn_closing entry \<and>
        task_run_for_session (sc_session response) (sh_registry s') = Ok (sc_task_run response) \<and>
        sn_cwd entry = Some cwd \<and> path_to_wire (rn_paths (ve_run env)) cwd = Ok wire \<and>
        record_session (rn_disk (ve_run env)) acp (h_id agent_handle) fingerprint wire
          (cs_files (hs_core (sh_host s))) = (Ok (), cs_files (hs_core (sh_host s'))))"

lemma persist_session_shape:
  assumes "persist_session env acp agent_id fp wire s = (r, s')"
  shows "case r of
      Inl _ \<Rightarrow> s' = s
    | Inr _ \<Rightarrow> \<exists>fs. record_session (rn_disk (ve_run env)) acp agent_id fp wire (cs_files (hs_core (sh_host s))) = (Ok (), fs) \<and>
        s' = on_host (on_core (\<lambda>c. c\<lparr>cs_files := fs\<rparr>)) s"
proof -
  have "fs' = fs" if "record_session dk i ag f w fs = (Inl e, fs')" for dk i ag f w fs e fs'
    using that by (auto simp: record_session_def split: sum.splits option.splits)
  with assms show ?thesis
    by (cases r) (fastforce simp: persist_session_def on_host_def on_core_def split: prod.splits)+
qed

lemma publish_session_shape:
  assumes res: "publish_session env agent_handle a acp s = (r, s')" and fresh: "fresh_session_ids env (sh_registry s)"
  shows "sh_factory s' = sh_factory s \<and>
    (case r of
       Inl _ \<Rightarrow> session_frame [SessionClosed acp] s s'
     | Inr response \<Rightarrow>
         session_published env agent_handle (ae_fingerprint a) acp response s s' \<and>
         hs_calls (sh_host s') = hs_calls (sh_host s))"
proof -
  obtain x r1 where x: "register_session_with_cwd (fst (ve_uuids env)) (snd (ve_uuids env)) acp (h_id agent_handle)
      (ve_context env acp) (sh_registry s) = (x, r1)" by fastforce
  note shape = register_session_shape [OF x]
  show ?thesis
  proof (cases x)
    case (Inl e)
    with res x shape show ?thesis by (auto simp: publish_session_def session_frame_def host_parts)
  next
    case (Inr y)
    then obtain h t entry where y: "x = Ok (h, t, entry)" by (cases y) auto
    note undone = abandoned_frame [OF x [unfolded y] fresh]
    have same: "sh_factory (abandon_session h acp (put_registry r1 s)) = sh_factory s"
      by (simp add: abandon_session_def host_parts)
    define dir where "dir = (case ve_context env acp of
        None \<Rightarrow> Err (never_error FrameworkError session_create_operation ''Session disappeared before persistence'')
      | Some cwd \<Rightarrow> map_err (never_error InvalidValue session_create_operation) (path_to_wire (rn_paths (ve_run env)) cwd))"
    show ?thesis
    proof (cases dir)
      case (Inl e)
      with res x y undone same show ?thesis by (auto simp: publish_session_def dir_def [symmetric] Let_def)
    next
      case (Inr wire)
      obtain p s2 where p: "persist_session env acp (sn_agent_handle_id entry) (ae_fingerprint a) wire (put_registry r1 s) = (p, s2)"
        by fastforce
      note persisted = persist_session_shape [OF p]
      show ?thesis
      proof (cases p)
        case (Inl e)
        with res x y Inr p persisted undone same show ?thesis
          by (auto simp: publish_session_def dir_def [symmetric] Let_def)
      next
        case (Inr u)
        with res x y \<open>dir = Inr wire\<close> p have "r = Ok \<lparr>sc_session = h, sc_task_run = t, sc_acp_session_id = acp\<rparr>" "s' = s2"
          by (auto simp: publish_session_def dir_def [symmetric] Let_def)
        moreover obtain cwd where "ve_context env acp = Some cwd" "path_to_wire (rn_paths (ve_run env)) cwd = Ok wire"
          using \<open>dir = Inr wire\<close> by (auto simp: dir_def map_err_eq_Ok split: option.splits)
        ultimately show ?thesis
          using persisted shape Inr y
          by (auto simp: session_published_def host_parts session_def task_run_for_session_def lookup_def issued_def
              mk_handle_def)
      qed
    qed
  qed
qed


lemma fresh_session_ids_frame:
  "open_part r' = open_part r \<Longrightarrow> fresh_session_ids env r' = fresh_session_ids env r"
  by (cases r; cases r') (simp add: open_part_def fresh_session_ids_def plan_tasks_of_def)

lemma session_published_core:
  "hs_core (sh_host s) = hs_core (sh_host t) \<Longrightarrow>
     session_published env h fp acp response s s' = session_published env h fp acp response t s'"
  by (simp add: session_published_def)

section \<open>Property\<close>

text \<open>C5: Creating a Session is all or nothing. A creation that fails, at any of its early returns,
  leaves the registry as it was but for tombstones, the durable state, the deliveries, the definitions
  and the associations untouched, and has asked the framework to close the Session whenever it had
  inserted one. A creation that succeeds has published a Session and a task graph under fresh handles of
  the requested Agent, has written its record with the directory and the fingerprint, has inserted it in
  the framework under the requested identity, or the minted one, and keeps no association.\<close>

theorem session_create_is_all_or_nothing:
  assumes "session_create_fresh env q publication s = (r, s')"
    and "fresh_session_ids env (sh_registry s)"
  shows "let acp = requested_session_id env q in
    sf_admissions (sh_factory s') = sf_admissions (sh_factory s) \<and>
    (case r of
       Inl _ \<Rightarrow>
         session_frame [] s s' \<or> session_frame [SessionInserted acp, SessionClosed acp] s s'
     | Inr response \<Rightarrow>
         (\<exists>a. open_agent (sh_registry s) (cq_agent q) session_create_operation = Ok a \<and>
            session_published env (cq_agent q) (ae_fingerprint a) acp response s s') \<and>
         hs_calls (sh_host s') = hs_calls (sh_host s) @ [SessionInserted acp])"
proof (cases "session_create_checks env q (sh_registry s)")
  case (Inl e)
  with assms(1) show ?thesis by (auto simp: session_create_fresh_def session_frame_refl Let_def)
next
  case (Inr facts)
  then obtain a working_dir where checks: "session_create_checks env q (sh_registry s) = Ok (a, working_dir)"
    by (cases facts) simp
  then have opened: "open_agent (sh_registry s) (cq_agent q) session_create_operation = Ok a"
    by (auto simp: session_create_checks_def res_simps)
  define acp where "acp = requested_session_id env q"
  obtain c s1 where c: "create_session_on env session_create_operation (ae_definition a) acp working_dir publication s = (c, s1)"
    by fastforce
  note created = create_session_on_shape [OF c]
  show ?thesis
  proof (cases c)
    case (Inl e)
    with assms(1) checks c created show ?thesis by (auto simp: session_create_fresh_def acp_def [symmetric] Let_def)
  next
    case (Inr i)
    with created have frame: "session_frame [SessionInserted acp] s s1" and i: "i = acp"
      and adm: "sf_admissions (sh_factory s1) = sf_admissions (sh_factory s)" by auto
    obtain p s2 where p: "publish_session env (cq_agent q) a acp s1 = (p, s2)" by fastforce
    have "open_part (sh_registry s1) = open_part (sh_registry s)" using frame by (simp add: session_frame_def)
    then have "fresh_session_ids env (sh_registry s1)" using assms(2) fresh_session_ids_frame by blast
    note published = publish_session_shape [OF p this]
    have res: "r = map_err (typed (ve_run env)) p" "s' = s2"
      using assms(1) checks c Inr i p by (auto simp: session_create_fresh_def acp_def [symmetric])
    have "hs_core (sh_host s1) = hs_core (sh_host s)" "hs_calls (sh_host s1) = hs_calls (sh_host s) @ [SessionInserted acp]"
      using frame by (simp_all add: session_frame_def)
    then show ?thesis
      using published res adm opened frame session_published_core [of s1 s env "cq_agent q" "ae_fingerprint a" acp _ s2]
      by (cases p) (auto simp: acp_def [symmetric] Let_def session_frame_def)
  qed
qed


text \<open>A Host with one Agent on the framework that admits everything, and the creation of a Session.\<close>

definition agent_host :: "unit sdk_host" where
  "agent_host =
     \<lparr>sh_host = \<lparr>hs_world = \<lparr>pw_registry = (new_registry 7 16)\<lparr>hi_agents :=
          [(''a'', \<lparr>ae_closing = False, ae_definition = sample_definition, ae_fingerprint = ''f''\<rparr>)]\<rparr>, pw_store = []\<rparr>,
        hs_core = hs_core sample_host, hs_calls = []\<rparr>,
      sh_factory = new_factory sample_definition 4\<rparr>"

definition agent_host_env :: "unit session_env" where
  "agent_host_env =
     \<lparr>ve_run = host_env\<lparr>rn_settlement := sample_settlement_env\<rparr>, ve_current_dir = Ok [47], ve_show_path = \<lambda>_. [],
      ve_new_session_id = ''0'', ve_uuids = (''1'', ''2''), ve_token = ''t'', ve_capabilities = None,
      ve_insert_refused = \<lambda>_. None, ve_build = \<lambda>_. None, ve_insert_late = \<lambda>_. None, ve_context = \<lambda>_. Some [47],
      ve_reserve_turns = \<lambda>_. None, ve_close = \<lambda>_. None, ve_show_observation = \<lambda>_. [],
      ve_drop_resources = \<lambda>_ _. ([], None), ve_receipt = \<lambda>_. sample_cancelled_turn,
      ve_builder = \<lparr>fb_environment = \<lambda>_. None, fb_parse_f32 = \<lambda>_. None, fb_llm_config = \<lambda>_ _ _ _ _. Ok (),
        fb_build_client = \<lambda>_. Ok ()\<rparr>,
      ve_definition_id = ''d2'', ve_sha256 = id, ve_json_text = \<lambda>_. None\<rparr>"

definition agent_host_create :: session_create_request where
  "agent_host_create = \<lparr>cq_agent = mk_handle ''a'' AgentKind 7, cq_working_dir = None, cq_session_id = Some ''c'',
     cq_idempotency_id = None\<rparr>"

lemma agent_host_checks:
  "session_create_checks agent_host_env agent_host_create (sh_registry agent_host) =
     Ok (\<lparr>ae_closing = False, ae_definition = sample_definition, ae_fingerprint = ''f''\<rparr>, None)"
proof -
  have "handler_admission (ve_run agent_host_env) SessionHandles session_create_operation = Ok ()"
    by (simp add: handler_admission_def agent_host_env_def host_env_def admission_Ok declares_def host_advertisement_def)
  moreover have "validate_session_create b64 agent_host_create = Ok ()" for b64
    by (simp add: validate_session_create_def agent_host_create_def mk_handle_def validate_handle_def bad_working_dir_def
        bad_optional_id_def blank_def is_whitespace_def)
  moreover have "open_agent (sh_registry agent_host) (cq_agent agent_host_create) session_create_operation =
      Ok \<lparr>ae_closing = False, ae_definition = sample_definition, ae_fingerprint = ''f''\<rparr>"
    by (simp add: open_agent_def agent_host_def agent_host_create_def mk_handle_def check_shape_and_generation_def
        validate_handle_def new_registry_def agent_def lookup_def is_closed_def tombstoned_def blank_def is_whitespace_def)
  moreover have "working_dir_from_wire pc (cq_working_dir agent_host_create) = Ok None" for pc
    by (simp add: working_dir_from_wire_def agent_host_create_def)
  ultimately show ?thesis by (simp add: session_create_checks_def)
qed

lemma agent_host_session:
  "\<exists>s. create_session_on agent_host_env session_create_operation sample_definition ''c'' None None agent_host = (Ok ''c'', s) \<and>
     sh_registry s = sh_registry agent_host \<and> hs_core (sh_host s) = hs_core sample_host"
proof -
  define f where "f = (sh_factory agent_host)\<lparr>sf_admissions :=
    [(''c'', \<lparr>pa_token = ''t'', pa_definition = ''d'', pa_observer = None\<rparr>)]\<rparr>"
  define s1 where "s1 = log_call (SessionInserted ''c'') (agent_host\<lparr>sh_factory := f\<lparr>sf_services := [(''c'', [47])]\<rparr>\<rparr>)"
  have "associate_publication ''t'' ''c'' (pd_id sample_definition) None (sh_factory agent_host) = (Ok (), f)"
    by (simp add: associate_publication_def f_def agent_host_def new_factory_def hmem_def sample_definition_def)
  moreover have "effective_dir agent_host_env session_create_operation None = Ok [47]"
    by (simp add: effective_dir_def agent_host_env_def)
  moreover have "insert_session agent_host_env session_create_operation sample_definition ''c'' [47]
      (agent_host\<lparr>sh_factory := f\<rparr>) = (Ok (), s1)"
    by (simp add: insert_session_def s1_def f_def agent_host_env_def agent_host_def new_factory_def sample_definition_def
        Session_Factory.create_session_def enter_publication_factory_def take_observer_def Let_def)
  moreover have "reserve_recovered_turns agent_host_env session_create_operation ''c'' s1 = Ok ()"
    by (simp add: reserve_recovered_turns_def load_recovered_runs_def size_check_def read_file_def s1_def host_parts
        agent_host_def sample_host_def sample_root_def)
      (simp add: agent_host_env_def sample_settlement_env_def sample_disk_def)
  moreover have "ve_token agent_host_env = ''t''" "ve_capabilities agent_host_env = None"
    by (simp_all add: agent_host_env_def)
  ultimately have "create_session_on agent_host_env session_create_operation sample_definition ''c'' None None agent_host =
      (Ok ''c'', on_factory (drop_association ''c'' ''t'') s1)"
    by (simp add: create_session_on_def insert_and_reserve_def)
  then show ?thesis
    by (simp add: s1_def f_def host_parts drop_association_def agent_host_def)
qed

lemma agent_host_creates:
  "is_ok (fst (session_create_fresh agent_host_env agent_host_create None agent_host))"
proof -
  let ?a = "\<lparr>ae_closing = False, ae_definition = sample_definition, ae_fingerprint = ''f''\<rparr> :: prepared_definition agent_entry"
  obtain s1 where s1: "create_session_on agent_host_env session_create_operation sample_definition ''c'' None None agent_host =
      (Ok ''c'', s1)" and same: "sh_registry s1 = sh_registry agent_host" "hs_core (sh_host s1) = hs_core sample_host"
    using agent_host_session by blast
  obtain h t r where reg: "register_session_with_cwd (fst (ve_uuids agent_host_env)) (snd (ve_uuids agent_host_env)) ''c''
      (h_id (cq_agent agent_host_create)) (ve_context agent_host_env ''c'') (sh_registry s1) =
      (Ok (h, t, \<lparr>sn_cancelled = False, sn_closing = False, sn_acp_session_id = ''c'', sn_agent_handle_id = ''a'',
        sn_cwd = Some [47], sn_task_run_handle_id = ''task_run-2''\<rparr>), r)"
    by (simp add: same register_session_with_cwd_def agent_host_def agent_host_create_def mk_handle_def new_registry_def
        enforce_budget_def open_handles_def len_usize_def saturating_add_def agent_host_env_def mint_id_def minted_id_def
        Let_def)
  have slash: "char_of (47 :: nat) = CHR ''/''" by code_simp
  have wire: "path_to_wire (rn_paths (ve_run agent_host_env)) [47] = Ok (Utf8Path ''/'')"
    by (simp add: path_to_wire_def native_is_absolute_def agent_host_env_def host_env_def sample_path_codec_def slash)
  have "record_session sample_disk ''c'' ''a'' ''f'' (Utf8Path ''/'') sample_root = (Ok (), sample_root\<lparr>hf_sessions := Some [3]\<rparr>)"
    by (simp add: record_session_def is_absolute_utf8_path_def size_check_def read_file_def sample_root_def
        max_session_index_entries_def max_session_index_bytes_def sample_disk_def sample_session_def)
  then have "is_ok (fst (persist_session agent_host_env ''c'' ''a'' ''f'' (Utf8Path ''/'') (put_registry r s1)))"
    by (simp add: persist_session_def host_parts same sample_host_def agent_host_env_def sample_settlement_env_def)
  then have "is_ok (fst (publish_session agent_host_env (cq_agent agent_host_create) ?a ''c'' s1))"
    using reg wire by (auto simp: publish_session_def Let_def agent_host_env_def is_ok_iff split: prod.splits sum.splits)
  moreover have "requested_session_id agent_host_env agent_host_create = ''c''"
    by (simp add: requested_session_id_def agent_host_create_def option_default_def)
  ultimately show ?thesis
    using s1 by (auto simp: session_create_fresh_def agent_host_checks split: prod.splits)
qed

theorem session_create_is_all_or_nothing_witness:
  "\<exists>response s'. session_create_fresh agent_host_env agent_host_create None agent_host = (Ok response, s') \<and>
     session_published agent_host_env (cq_agent agent_host_create) ''f'' ''c'' response agent_host s' \<and>
     hs_calls (sh_host s') = [SessionInserted ''c'']"
proof -
  obtain r s' where made: "session_create_fresh agent_host_env agent_host_create None agent_host = (r, s')" by fastforce
  moreover obtain response where "r = Ok response" using agent_host_creates made by (auto simp: is_ok_iff)
  moreover have "fresh_session_ids agent_host_env (sh_registry agent_host)"
    by (simp add: fresh_session_ids_def agent_host_def new_registry_def hmem_def plan_tasks_of_def)
  moreover have "open_agent (sh_registry agent_host) (cq_agent agent_host_create) session_create_operation =
      Ok \<lparr>ae_closing = False, ae_definition = sample_definition, ae_fingerprint = ''f''\<rparr>"
    using agent_host_checks by (auto simp: session_create_checks_def res_simps)
  moreover have "requested_session_id agent_host_env agent_host_create = ''c''" "hs_calls (sh_host agent_host) = []"
    by (simp_all add: requested_session_id_def agent_host_create_def agent_host_def option_default_def)
  ultimately show ?thesis
    using session_create_is_all_or_nothing [of agent_host_env agent_host_create None agent_host r s']
    by (simp add: Let_def)
qed

end
