(* ===== verification/Session_Close.thy ===== *)
theory Session_Close
  imports Session_Handlers Registry_Inv
begin

text \<open>
  The Agent handlers and the closing of Sessions (\<open>agent_create\<close>, \<open>agent_describe\<close>, \<open>agent_close\<close>,
  \<open>session_close\<close> and \<open>close_session_owned\<close> of \<open>core_profile/handler.rs\<close>), and the entry points of the
  standard protocol (\<open>core_profile/mod.rs\<close>).
\<close>

section \<open>Agents\<close>

definition agent_describe_operation :: string where "agent_describe_operation = ''_echo_agent/agent/describe''"
definition agent_close_operation :: string where "agent_close_operation = ''_echo_agent/agent/close''"

text \<open>\<open>build_definition\<close>; the identity of an explicit definition is minted by its constructor.\<close>

definition explicit_definition :: "'j session_env \<Rightarrow> 'f framework_config \<Rightarrow> prepared_definition" where
  "explicit_definition env fc =
     \<lparr>pd_id = ve_definition_id env, pd_name = fc_agent_name fc, pd_model_name = fc_model_name fc,
      pd_system_prompt = fc_system_prompt fc, pd_host_default = False\<rparr>"

definition build_definition ::
  "'j session_env \<Rightarrow> agent_config \<Rightarrow> session_factory \<Rightarrow> sdk_err + prepared_definition \<times> string" where
  "build_definition env c f =
     (let fingerprint = config_fingerprint (ve_sha256 env) (ve_json_text env) c in
      case c of
        HostDefault \<Rightarrow> Ok (sf_default f, fingerprint)
      | Explicit x \<Rightarrow>
          map_ok (\<lambda>(fc, _). (explicit_definition env fc, fingerprint))
            (map_err (never_error InvalidConfig agent_create_operation) (framework_from_wire (ve_builder env) x)))"

definition registered_agent ::
  "'j session_env \<Rightarrow> agent_create_request \<Rightarrow> 'j sdk_host \<Rightarrow>
     (sdk_err + wire_handle \<times> prepared_definition agent_entry \<times> bool) \<times> prepared_definition handle_inner" where
  "registered_agent env q s =
     (let built = build_definition env (aq_config q) (sh_factory s) in
      case aq_idempotency_id q of
        Some i \<Rightarrow>
          agent_create_idempotent i (config_fingerprint (ve_sha256 env) (ve_json_text env) (aq_config q))
            built (sh_registry s)
      | None \<Rightarrow>
          (case built of
             Inl e \<Rightarrow> (Err e, sh_registry s)
           | Inr (d, fingerprint) \<Rightarrow>
               (case register_agent d fingerprint (sh_registry s) of
                  (r, s') \<Rightarrow> (map_ok (\<lambda>(h, a). (h, a, True)) r, s'))))"

definition agent_create ::
  "'j session_env \<Rightarrow> agent_create_request \<Rightarrow> 'j sdk_host \<Rightarrow> wire_handle handled \<times> 'j sdk_host" where
  "agent_create env q s =
     (case handler_admission (ve_run env) AgentLifecycle agent_create_operation of
        Inl e \<Rightarrow> (Err e, s)
      | Inr _ \<Rightarrow>
          (case validate_agent_create q of
             Inl e \<Rightarrow> (respond (rn_codec (ve_run env)) (Err (never_error InvalidConfig agent_create_operation e)), s)
           | Inr _ \<Rightarrow>
               (case registered_agent env q s of
                  (Inl e, r) \<Rightarrow> (respond (rn_codec (ve_run env)) (Err e), put_registry r s)
                | (Inr (h, a, _), r) \<Rightarrow>
                    let s1 = put_registry r s in
                    (case Session_Factory.register_definition (ae_definition a) (sh_factory s1) of
                       (Inl e, _) \<Rightarrow>
                         (respond (rn_codec (ve_run env))
                            (Err (sdk_error PayloadTooLarge e AfterDelay agent_create_operation)),
                          put_registry (snd (close_agent h (sh_registry s1))) s1)
                     | (Inr _, f) \<Rightarrow> (Ok (Ok h), s1\<lparr>sh_factory := f\<rparr>)))))"

definition agent_describe ::
  "'j session_env \<Rightarrow> wire_handle \<Rightarrow> 'j sdk_host \<Rightarrow> agent_snapshot handled" where
  "agent_describe env h s =
     and_then (handler_admission (ve_run env) AgentLifecycle agent_describe_operation) (\<lambda>_.
       respond (rn_codec (ve_run env))
         (and_then (check_shape_and_generation (sh_registry s) h AgentKind agent_describe_operation) (\<lambda>_.
            map_ok (\<lambda>a. snapshot (ae_definition a)) (agent h (sh_registry s)))))"

section \<open>Closing a Session\<close>

text \<open>A live run of the Session is settled before it is removed; then every trace of the run goes.\<close>

definition settle_closing_run ::
  "'j session_env \<Rightarrow> string \<Rightarrow> string \<Rightarrow> 'j sdk_host \<Rightarrow> (sdk_err + unit) \<times> 'j sdk_host" where
  "settle_closing_run env operation run_id s =
     (case run (issued (sh_registry s) RunKind run_id) (sh_registry s) of
        Inr (LiveRun _) \<Rightarrow>
          (case persist_settled_receipt (rn_settlement (ve_run env)) run_id (ve_receipt env run_id)
                  (le_last_sequence (rn_entry (ve_run env) run_id)) (hs_core (sh_host s)) of
             (r, c) \<Rightarrow> (map_err (\<lambda>e. sdk_error FrameworkError e AfterDelay operation) r, on_host (on_core (\<lambda>_. c)) s))
      | _ \<Rightarrow> (Ok (), s))"

definition remove_closing_run :: "string \<Rightarrow> 'j sdk_host \<Rightarrow> 'j sdk_host" where
  "remove_closing_run run_id s =
     (let s1 = log_call (RunRemoved run_id) s
      in on_host (on_core (remove_delivery_for_run run_id))
           (put_registry (remove_run_handles run_id (sh_registry s1)) s1))"

fun close_runs :: "'j session_env \<Rightarrow> string \<Rightarrow> string list \<Rightarrow> 'j sdk_host \<Rightarrow> (sdk_err + unit) \<times> 'j sdk_host" where
  "close_runs env operation [] s = (Ok (), s)"
| "close_runs env operation (run_id # rest) s =
     (case settle_closing_run env operation run_id s of
        (Inl e, s1) \<Rightarrow> (Err e, s1)
      | (Inr _, s1) \<Rightarrow> close_runs env operation rest (remove_closing_run run_id s1))"

text \<open>The resources of the Session: the facade's own, and the handles they have in the registry.\<close>

definition drop_resources ::
  "'j session_env \<Rightarrow> string \<Rightarrow> string \<Rightarrow> 'j sdk_host \<Rightarrow> (sdk_err + unit) \<times> 'j sdk_host" where
  "drop_resources env operation owner s =
     (case ve_drop_resources env owner (facade_resource_ids_of owner (sh_registry s)) of
        (ids, failure) \<Rightarrow>
          let r = fold (\<lambda>i r. snd (close_facade_resource (issued r FacadeResourceKind i) operation r)) ids (sh_registry s)
          in case failure of
               Some e \<Rightarrow> (Err (with_operation e operation), put_registry r s)
             | None \<Rightarrow> (Ok (), put_registry (snd (close_facade_resources_of owner r)) s))"

text \<open>\<open>close_session_owned\<close>, under the lifecycle lock of the Session, and the mark that precedes the lock.\<close>

definition close_locked_session ::
  "'j session_env \<Rightarrow> wire_handle \<Rightarrow> string \<Rightarrow> string \<Rightarrow> 'j sdk_host \<Rightarrow> (sdk_err + bool) \<times> 'j sdk_host" where
  "close_locked_session env h operation owner s =
     (if is_closed (sh_registry s) h then (Ok False, s)
      else case drop_resources env operation owner s of
        (Inl e, s1) \<Rightarrow> (Err e, s1)
      | (Inr _, s1) \<Rightarrow>
          let s2 = close_framework_session owner s1 in
          (case ve_close env owner of
             Some obs \<Rightarrow> (Err (framework_sdk env operation obs), s2)
           | None \<Rightarrow>
               (case close_runs env operation (runs_for_session owner (sh_registry s2)) s2 of
                  (Inl e, s3) \<Rightarrow> (Err e, s3)
                | (Inr _, s3) \<Rightarrow>
                    let s4 = on_factory (remove_session_services owner) s3 in
                    (case close_session h (sh_registry s4) of
                       (r, reg) \<Rightarrow> (map_ok fst r, put_registry reg s4)))))"

definition close_session_owned ::
  "'j session_env \<Rightarrow> wire_handle \<Rightarrow> string \<Rightarrow> 'j sdk_host \<Rightarrow> (sdk_err + bool) \<times> 'j sdk_host" where
  "close_session_owned env h operation s =
     (case session h (sh_registry s) of
        Inl e \<Rightarrow> (if err_code e = ClosedHandle then Ok False else Err e, s)
      | Inr entry \<Rightarrow>
          close_locked_session env h operation (sn_acp_session_id entry)
            (put_registry (mark_session_closing (h_id h) (sh_registry s)) s))"

definition session_close ::
  "'j session_env \<Rightarrow> wire_handle \<Rightarrow> 'j sdk_host \<Rightarrow> bool handled \<times> 'j sdk_host" where
  "session_close env h s =
     (case handler_admission (ve_run env) SessionHandles session_close_operation of
        Inl e \<Rightarrow> (Err e, s)
      | Inr _ \<Rightarrow>
          (case check_shape_and_generation (sh_registry s) h SessionKind session_close_operation of
             Inl e \<Rightarrow> (respond (rn_codec (ve_run env)) (Err e), s)
           | Inr _ \<Rightarrow>
               (case close_session_owned env h session_close_operation s of
                  (r, s') \<Rightarrow> (respond (rn_codec (ve_run env)) r, s'))))"

section \<open>Closing an Agent\<close>

text \<open>The cascade goes on after a failure and reports the last one.\<close>

fun close_sessions ::
  "'j session_env \<Rightarrow> wire_handle list \<Rightarrow> sdk_err option \<Rightarrow> 'j sdk_host \<Rightarrow> sdk_err option \<times> 'j sdk_host" where
  "close_sessions env [] failure s = (failure, s)"
| "close_sessions env (h # hs) failure s =
     (case close_session_owned env h agent_close_operation s of
        (r, s1) \<Rightarrow> close_sessions env hs (case r of Inl e \<Rightarrow> Some e | Inr _ \<Rightarrow> failure) s1)"

definition close_open_agent ::
  "'j session_env \<Rightarrow> wire_handle \<Rightarrow> prepared_definition agent_entry \<Rightarrow> 'j sdk_host \<Rightarrow> (sdk_err + bool) \<times> 'j sdk_host" where
  "close_open_agent env h a s =
     (if is_closed (sh_registry s) h then (Ok False, s)
      else
        let s1 = put_registry (mark_agent_closing (h_id h) (sh_registry s)) s in
        case close_sessions env (map fst (sessions_for_agent (h_id h) (sh_registry s1))) None s1 of
          (Some e, s2) \<Rightarrow> (Err e, s2)
        | (None, s2) \<Rightarrow>
            (case close_agent h (sh_registry s2) of
               (Inl e, r) \<Rightarrow> (Err e, put_registry r s2)
             | (Inr released, r) \<Rightarrow>
                 (Ok released, on_factory (remove_definition (pd_id (ae_definition a))) (put_registry r s2))))"

definition agent_close ::
  "'j session_env \<Rightarrow> wire_handle \<Rightarrow> 'j sdk_host \<Rightarrow> bool handled \<times> 'j sdk_host" where
  "agent_close env h s =
     (case handler_admission (ve_run env) AgentLifecycle agent_close_operation of
        Inl e \<Rightarrow> (Err e, s)
      | Inr _ \<Rightarrow>
          (case and_then (check_shape_and_generation (sh_registry s) h AgentKind agent_close_operation) (\<lambda>_.
                 agent h (sh_registry s)) of
             Inl e \<Rightarrow>
               (if is_ok (check_shape_and_generation (sh_registry s) h AgentKind agent_close_operation) \<and>
                   err_code e = ClosedHandle
                then Ok (Ok False) else respond (rn_codec (ve_run env)) (Err e), s)
           | Inr a \<Rightarrow>
               (case close_open_agent env h a s of (r, s') \<Rightarrow> (respond (rn_codec (ve_run env)) r, s'))))"

section \<open>What closing keeps\<close>

definition same_owners :: "'d handle_inner \<Rightarrow> 'd handle_inner \<Rightarrow> bool" where
  "same_owners r r' \<longleftrightarrow> hi_sessions r' = hi_sessions r \<and> hi_runs r' = hi_runs r \<and> hi_agents r' = hi_agents r"

lemma same_owners_trans: "same_owners r t \<Longrightarrow> same_owners t u \<Longrightarrow> same_owners r u"
  by (simp add: same_owners_def)

lemma remove_streams_owners: "same_owners r (remove_streams ids r)"
  by (simp add: remove_streams_def same_owners_def)

lemma close_resource_owners: "same_owners r (snd (close_facade_resource h operation r))"
  by (auto simp: close_facade_resource_def Let_def same_owners_def remove_streams_def split: sum.splits)

lemma close_resources_owners:
  "same_owners r (fold (\<lambda>i r. snd (close_facade_resource (issued r FacadeResourceKind i) operation r)) ids r)"
proof (induction ids arbitrary: r)
  case (Cons i ids)
  then show ?case
    using same_owners_trans [OF close_resource_owners Cons.IH] by (simp add: o_def)
qed (simp add: same_owners_def)

lemma fold_hdel: "fold hdel ids m = filter (\<lambda>e. fst e \<notin> set ids) m"
  by (induction ids arbitrary: m) (auto simp: AList.delete_eq filter_filter intro!: filter_cong)

lemma close_owned_resources:
  "same_owners r (snd (close_facade_resources_of owner r))"
  "facade_resource_ids_of owner (snd (close_facade_resources_of owner r)) = []"
proof -
  show "same_owners r (snd (close_facade_resources_of owner r))"
    by (simp add: close_facade_resources_of_def Let_def same_owners_def remove_streams_def)
  show "facade_resource_ids_of owner (snd (close_facade_resources_of owner r)) = []"
    by (auto simp: close_facade_resources_of_def facade_resource_ids_of_def Let_def remove_streams_def
        fold_hdel filter_empty_conv image_iff)
qed

lemma drop_resources_shape:
  assumes "drop_resources env operation owner s = (r, s')"
  shows "same_owners (sh_registry s) (sh_registry s') \<and> hs_core (sh_host s') = hs_core (sh_host s) \<and>
    sh_factory s' = sh_factory s \<and> hs_calls (sh_host s') = hs_calls (sh_host s) \<and>
    (is_ok r \<longrightarrow> facade_resource_ids_of owner (sh_registry s') = [])"
  using assms close_resources_owners close_owned_resources same_owners_trans
  by (fastforce simp: drop_resources_def Let_def host_parts split: prod.splits option.splits)

lemma persist_undebted:
  assumes "persist_settled_receipt env run_id receipt q c = (r, c')" and "hwf (cs_debts c)"
  shows "\<not> hmem k (cs_debts c) \<Longrightarrow> \<not> hmem k (cs_debts c')" and "is_ok r \<Longrightarrow> \<not> hmem run_id (cs_debts c')"
  using persist_cases [OF assms] by (auto simp: is_ok_iff split: if_splits sum.splits)

lemma settle_closing_run_shape:
  assumes "settle_closing_run env operation run_id s = (r, s')" and "hwf (cs_debts (hs_core (sh_host s)))"
  shows "sh_registry s' = sh_registry s \<and> sh_factory s' = sh_factory s \<and> hs_calls (sh_host s') = hs_calls (sh_host s) \<and>
    hwf (cs_debts (hs_core (sh_host s'))) \<and>
    (\<forall>k. \<not> hmem k (cs_debts (hs_core (sh_host s))) \<longrightarrow> \<not> hmem k (cs_debts (hs_core (sh_host s')))) \<and>
    (is_ok r \<longrightarrow> (\<exists>acp. hget (hi_runs (sh_registry s)) run_id = Some (LiveRun acp)) \<longrightarrow>
       \<not> hmem run_id (cs_debts (hs_core (sh_host s'))))"
proof (cases "\<exists>acp. hget (hi_runs (sh_registry s)) run_id = Some (LiveRun acp)")
  case False
  then have "s' = s"
    using assms(1)
    by (auto simp: settle_closing_run_def run_def lookup_def issued_def mk_handle_def ok_or_def
        split: option.splits sum.splits run_entry.splits)
  with False assms(2) show ?thesis by auto
next
  case True
  obtain x c where p: "persist_settled_receipt (rn_settlement (ve_run env)) run_id (ve_receipt env run_id)
      (le_last_sequence (rn_entry (ve_run env) run_id)) (hs_core (sh_host s)) = (x, c)" by fastforce
  with True assms(1) have r: "is_ok r = is_ok x" "s' = on_host (on_core (\<lambda>_. c)) s"
    by (auto simp: settle_closing_run_def run_def lookup_def issued_def mk_handle_def)
  show ?thesis
    using persist_undebted [OF p assms(2)] persist_length [OF p assms(2)] r by (auto simp: host_parts)
qed

lemma remove_run_owners:
  "hi_sessions (remove_run_handles run_id r) = hi_sessions r"
  "hi_facade_resources (remove_run_handles run_id r) = hi_facade_resources r"
  "hi_runs (remove_run_handles run_id r) = filter (\<lambda>e. fst e \<noteq> run_id) (hi_runs r)"
  by (auto simp: remove_run_handles_def AList.delete_eq Let_def split: option.splits prod.splits intro!: filter_cong)

text \<open>\<open>closed\<close> are the runs that were closed between two states: the handles and deliveries they have lost,
  the receipts they no longer owe and the calls that removed them from the framework.\<close>

definition runs_closed :: "string list \<Rightarrow> 'j sdk_host \<Rightarrow> 'j sdk_host \<Rightarrow> bool" where
  "runs_closed closed s s' \<longleftrightarrow>
     hi_runs (sh_registry s') = filter (\<lambda>e. fst e \<notin> set closed) (hi_runs (sh_registry s)) \<and>
     (\<forall>i\<in>set closed.
        ((\<exists>acp. hget (hi_runs (sh_registry s)) i = Some (LiveRun acp)) \<longrightarrow> \<not> hmem i (cs_debts (hs_core (sh_host s')))) \<and>
        (\<forall>d\<in>set (cs_deliveries (hs_core (sh_host s'))). sd_run_id (snd d) \<noteq> i)) \<and>
     hs_calls (sh_host s') = hs_calls (sh_host s) @ map RunRemoved closed"

definition closing_frame :: "'j sdk_host \<Rightarrow> 'j sdk_host \<Rightarrow> bool" where
  "closing_frame s s' \<longleftrightarrow>
     sh_factory s' = sh_factory s \<and> hi_sessions (sh_registry s') = hi_sessions (sh_registry s) \<and>
     hi_facade_resources (sh_registry s') = hi_facade_resources (sh_registry s) \<and>
     hwf (cs_debts (hs_core (sh_host s'))) \<and>
     (\<forall>k. \<not> hmem k (cs_debts (hs_core (sh_host s))) \<longrightarrow> \<not> hmem k (cs_debts (hs_core (sh_host s')))) \<and>
     set (cs_deliveries (hs_core (sh_host s'))) \<subseteq> set (cs_deliveries (hs_core (sh_host s)))"

lemma persist_deliveries:
  "persist_settled_receipt env run_id receipt q c = (r, c') \<Longrightarrow> set (cs_deliveries c') \<subseteq> set (cs_deliveries c)"
  by (auto simp: persist_settled_receipt_def Let_def remove_delivery_for_run_def split: sum.splits prod.splits if_splits)

lemma settle_closing_deliveries:
  "settle_closing_run env operation run_id s = (r, s') \<Longrightarrow>
     set (cs_deliveries (hs_core (sh_host s'))) \<subseteq> set (cs_deliveries (hs_core (sh_host s)))"
  by (auto simp: settle_closing_run_def host_parts split: sum.splits run_entry.splits prod.splits
      dest!: persist_deliveries)

lemma remove_closing_run_shape:
  "sh_factory (remove_closing_run run_id s) = sh_factory s"
  "cs_debts (hs_core (sh_host (remove_closing_run run_id s))) = cs_debts (hs_core (sh_host s))"
  "cs_deliveries (hs_core (sh_host (remove_closing_run run_id s))) =
     filter (\<lambda>d. sd_run_id (snd d) \<noteq> run_id) (cs_deliveries (hs_core (sh_host s)))"
  "sh_registry (remove_closing_run run_id s) = remove_run_handles run_id (sh_registry s)"
  "hs_calls (sh_host (remove_closing_run run_id s)) = hs_calls (sh_host s) @ [RunRemoved run_id]"
  by (auto simp: remove_closing_run_def Let_def host_parts remove_delivery_for_run_def intro!: filter_cong)

lemma runs_closed_Cons:
  assumes first: "settle_closing_run env operation i s = (Ok (), s1)" and wf: "hwf (cs_debts (hs_core (sh_host s)))"
    and rest: "runs_closed closed (remove_closing_run i s1) s'" and frame: "closing_frame (remove_closing_run i s1) s'"
    and new: "i \<notin> set closed"
  shows "runs_closed (i # closed) s s' \<and> closing_frame s s'"
proof -
  note shape = settle_closing_run_shape [OF first wf]
  note removed = remove_closing_run_shape [of i s1] remove_run_owners [of i "sh_registry s1"]
  have other: "hget (filter (\<lambda>e. fst e \<noteq> i) m) k = (if k = i then None else hget m k)" for k and m :: "run_entry hmap"
    by (induction m) auto
  have later: "\<not> hmem k (cs_debts (hs_core (sh_host s')))"
    if "k \<in> set closed" "hget (hi_runs (sh_registry s)) k = Some (LiveRun acp)" for k acp
  proof -
    have "k \<noteq> i" using that(1) new by auto
    with that(2) shape removed other have "hget (hi_runs (sh_registry (remove_closing_run i s1))) k = Some (LiveRun acp)"
      by simp
    with rest that(1) show ?thesis by (auto simp: runs_closed_def)
  qed
  have "\<not> hmem i (cs_debts (hs_core (sh_host s')))" if "hget (hi_runs (sh_registry s)) i = Some (LiveRun acp)" for acp
    using that shape frame removed by (auto simp: closing_frame_def)
  moreover have "\<forall>d\<in>set (cs_deliveries (hs_core (sh_host s'))). sd_run_id (snd d) \<noteq> k"
    if "k \<in> set (i # closed)" for k
  proof (cases "k = i")
    case True
    have "set (cs_deliveries (hs_core (sh_host s'))) \<subseteq> set (cs_deliveries (hs_core (sh_host (remove_closing_run i s1))))"
      using frame by (simp add: closing_frame_def)
    with True show ?thesis by (auto simp: removed)
  next
    case False
    with that rest show ?thesis by (simp add: runs_closed_def)
  qed
  moreover have "hi_runs (sh_registry s') = filter (\<lambda>e. fst e \<notin> set (i # closed)) (hi_runs (sh_registry s))"
    using rest shape removed by (simp add: runs_closed_def conj_commute)
  moreover have "hs_calls (sh_host s') = hs_calls (sh_host s) @ map RunRemoved (i # closed)"
    using rest shape removed by (simp add: runs_closed_def)
  ultimately have "runs_closed (i # closed) s s'"
    using later unfolding runs_closed_def by auto
  moreover have "closing_frame s s'"
    using shape frame removed settle_closing_deliveries [OF first] by (auto simp: closing_frame_def)
  ultimately show ?thesis by blast
qed

lemma close_runs_shape:
  assumes "close_runs env operation ids s = (r, s')" and "hwf (cs_debts (hs_core (sh_host s)))" and "distinct ids"
  shows "\<exists>closed rest. ids = closed @ rest \<and> (rest = [] \<longleftrightarrow> is_ok r) \<and> runs_closed closed s s' \<and> closing_frame s s'"
  using assms
proof (induction ids arbitrary: s)
  case Nil
  then show ?case by (auto simp: runs_closed_def closing_frame_def)
next
  case (Cons i ids)
  obtain x s1 where x: "settle_closing_run env operation i s = (x, s1)" by fastforce
  note shape = settle_closing_run_shape [OF x Cons.prems(2)]
  show ?case
  proof (cases x)
    case (Inl e)
    with Cons.prems x have "r = Err e" "s' = s1" by auto
    with shape settle_closing_deliveries [OF x] have "runs_closed [] s s' \<and> closing_frame s s'"
      by (auto simp: runs_closed_def closing_frame_def)
    with \<open>r = Err e\<close> show ?thesis by (intro exI [of _ "[]"] exI [of _ "i # ids"]) simp
  next
    case (Inr u)
    with Cons.prems(1) x have "close_runs env operation ids (remove_closing_run i s1) = (r, s')" by simp
    from Cons.IH [OF this] shape Cons.prems(3) obtain closed rest where
      "ids = closed @ rest" "rest = [] \<longleftrightarrow> is_ok r" "runs_closed closed (remove_closing_run i s1) s'"
      "closing_frame (remove_closing_run i s1) s'"
      by (auto simp: remove_closing_run_shape)
    moreover from this runs_closed_Cons [of env operation i s s1 closed s'] x Inr Cons.prems
    have "runs_closed (i # closed) s s' \<and> closing_frame s s'" by auto
    ultimately show ?thesis by (intro exI [of _ "i # closed"] exI [of _ rest]) simp
  qed
qed

section \<open>Properties\<close>

lemma runs_for_session_filter:
  "hi_runs r' = filter (\<lambda>e. fst e \<notin> set (runs_for_session owner r)) (hi_runs r) \<Longrightarrow> runs_for_session owner r' = []"
  by (auto simp: runs_for_session_def filter_empty_conv image_iff)

lemma marked_session:
  assumes "hget (hi_sessions r) (h_id h) = Some entry"
  shows "hget (hi_sessions (mark_session_closing (h_id h) r)) (h_id h) = Some (entry\<lparr>sn_closing := True, sn_cancelled := True\<rparr>)"
    and "hi_runs (mark_session_closing (h_id h) r) = hi_runs r"
  using assms by (simp_all add: mark_session_closing_def)

text \<open>The state of a Session whose close failed: it is still addressed and fenced, and owns its services.\<close>

definition close_retryable :: "wire_handle \<Rightarrow> string \<Rightarrow> 'j sdk_host \<Rightarrow> 'j sdk_host \<Rightarrow> bool" where
  "close_retryable h owner s s' \<longleftrightarrow>
     (\<exists>entry. session h (sh_registry s') = Ok entry \<and> sn_acp_session_id entry = owner \<and> sn_closing entry \<and>
        sn_cancelled entry) \<and>
     sh_factory s' = sh_factory s"

lemma close_session_found:
  "hget (hi_sessions r) (h_id h) = Some entry \<Longrightarrow>
     close_session h r = (Ok (True, sn_acp_session_id entry), release_session h entry (r\<lparr>hi_sessions := hdel (h_id h) (hi_sessions r)\<rparr>))"
  by (simp add: close_session_def)

lemma release_session_parts:
  "hi_sessions (release_session h entry r) = hi_sessions r"
  "hi_runs (release_session h entry r) = hi_runs r"
  "hi_facade_resources (release_session h entry r) = hi_facade_resources r"
proof -
  have "hi_sessions (fold remove_plan_task ts r) = hi_sessions r \<and> hi_runs (fold remove_plan_task ts r) = hi_runs r \<and>
      hi_facade_resources (fold remove_plan_task ts r) = hi_facade_resources r" for ts
    by (induction ts arbitrary: r) (auto simp: remove_plan_task_def Let_def split: option.splits)
  then show "hi_sessions (release_session h entry r) = hi_sessions r"
    "hi_runs (release_session h entry r) = hi_runs r"
    "hi_facade_resources (release_session h entry r) = hi_facade_resources r"
    by (simp_all add: release_session_def Let_def)
qed

text \<open>What has become of the runs of a Session after the close processed some of them.\<close>

definition session_settled :: "string \<Rightarrow> 'j sdk_host \<Rightarrow> 'j sdk_host \<Rightarrow> bool" where
  "session_settled owner s s' \<longleftrightarrow>
     (let ids = runs_for_session owner (sh_registry s) in
      runs_for_session owner (sh_registry s') = [] \<and> facade_resource_ids_of owner (sh_registry s') = [] \<and>
      hget (sf_services (sh_factory s')) owner = None \<and>
      (\<forall>i\<in>set ids.
         ((\<exists>acp. hget (hi_runs (sh_registry s)) i = Some (LiveRun acp)) \<longrightarrow> \<not> hmem i (cs_debts (hs_core (sh_host s')))) \<and>
         (\<forall>d\<in>set (cs_deliveries (hs_core (sh_host s'))). sd_run_id (snd d) \<noteq> i)) \<and>
      hs_calls (sh_host s') = hs_calls (sh_host s) @ SessionClosed owner # map RunRemoved ids)"

lemma close_locked_shape:
  assumes locked: "close_locked_session env h operation owner s = (r, s')"
    and found: "hget (hi_sessions (sh_registry s)) (h_id h) = Some entry" "sn_acp_session_id entry = owner"
      "sn_closing entry" "sn_cancelled entry"
    and wf: "hwf (hi_runs (sh_registry s))" "hwf (cs_debts (hs_core (sh_host s)))"
  shows "case r of
      Inl _ \<Rightarrow> close_retryable h owner s s'
    | Inr released \<Rightarrow>
        if released then \<not> is_ok (session h (sh_registry s')) \<and> session_settled owner s s'
        else s' = s \<and> is_closed (sh_registry s) h"
proof (cases "is_closed (sh_registry s) h")
  case True
  with locked show ?thesis by (auto simp: close_locked_session_def)
next
  case open_h: False
  obtain x s1 where x: "drop_resources env operation owner s = (x, s1)" by fastforce
  note dropped = drop_resources_shape [OF x]
  have kept: "close_retryable h owner s t" if "hi_sessions (sh_registry t) = hi_sessions (sh_registry s)"
    "sh_factory t = sh_factory s" for t
    using that found by (auto simp: close_retryable_def session_def lookup_def)
  define s2 where "s2 = close_framework_session owner s1"
  have s2: "sh_registry s2 = sh_registry s1" "sh_factory s2 = sh_factory s1" "hs_core (sh_host s2) = hs_core (sh_host s1)"
    "hs_calls (sh_host s2) = hs_calls (sh_host s1) @ [SessionClosed owner]"
    by (simp_all add: s2_def host_parts)
  consider (drop_failed) e where "x = Err e"
    | (close_failed) obs where "x = Ok ()" "ve_close env owner = Some obs"
    | (closing) "x = Ok ()" "ve_close env owner = None" by (cases x; cases "ve_close env owner") auto
  then show ?thesis
  proof cases
    case drop_failed
    with locked x open_h dropped kept [of s'] show ?thesis
      by (auto simp: close_locked_session_def same_owners_def)
  next
    case close_failed
    with locked x open_h dropped kept [of s'] s2 show ?thesis
      by (auto simp: close_locked_session_def same_owners_def s2_def [symmetric] Let_def)
  next
    case closing
    let ?ids = "runs_for_session owner (sh_registry s)"
    have ids: "runs_for_session owner (sh_registry s2) = ?ids"
      using dropped s2 by (simp add: runs_for_session_def same_owners_def)
    obtain y s3 where y: "close_runs env operation ?ids s2 = (y, s3)" by fastforce
    have "distinct ?ids" using wf(1) by (simp add: runs_for_session_def hwf_def distinct_map_filter)
    with close_runs_shape [OF y] wf(2) dropped s2 obtain closed rest where
      parts: "?ids = closed @ rest" "rest = [] \<longleftrightarrow> is_ok y" and settled: "runs_closed closed s2 s3"
      and frame: "closing_frame s2 s3" by auto
    have here: "hi_sessions (sh_registry s3) = hi_sessions (sh_registry s)" "sh_factory s3 = sh_factory s"
      using frame dropped s2 by (simp_all add: closing_frame_def same_owners_def)
    show ?thesis
    proof (cases y)
      case (Inl e)
      with locked x open_h closing ids y have "r = Err e" "s' = s3"
        by (auto simp: close_locked_session_def s2_def [symmetric] Let_def)
      with kept [OF here] show ?thesis by simp
    next
      case (Inr u)
      then have all: "closed = ?ids" using parts by simp
      define s4 where "s4 = on_factory (remove_session_services owner) s3"
      have s4: "sh_registry s4 = sh_registry s3" "hs_core (sh_host s4) = hs_core (sh_host s3)"
        "hs_calls (sh_host s4) = hs_calls (sh_host s3)" "hget (sf_services (sh_factory s4)) owner = None"
        by (simp_all add: s4_def host_parts remove_session_services_def)
      have "close_session h (sh_registry s4) = (Ok (True, owner),
          release_session h entry ((sh_registry s3)\<lparr>hi_sessions := hdel (h_id h) (hi_sessions (sh_registry s3))\<rparr>))"
        using close_session_found [of "sh_registry s3" h entry] here found s4 by simp
      with locked x open_h closing ids y Inr have res: "r = Ok True" "s' = put_registry
          (release_session h entry ((sh_registry s3)\<lparr>hi_sessions := hdel (h_id h) (hi_sessions (sh_registry s3))\<rparr>)) s4"
        by (auto simp: close_locked_session_def s2_def [symmetric] s4_def [symmetric] Let_def)
      have "\<not> is_ok (session h (sh_registry s'))"
        by (simp add: res host_parts session_def lookup_def release_session_parts)
      moreover have "session_settled owner s s'"
      proof -
        have "runs_for_session owner (sh_registry s') = []"
          using settled s2 dropped runs_for_session_filter [of "sh_registry s'" owner "sh_registry s"]
          by (simp add: res host_parts release_session_parts runs_closed_def all same_owners_def)
        moreover have "facade_resource_ids_of owner (sh_registry s') = []"
          using frame dropped s2 closing
          by (simp add: res host_parts release_session_parts closing_frame_def facade_resource_ids_of_def)
        moreover have "hs_calls (sh_host s') = hs_calls (sh_host s) @ SessionClosed owner # map RunRemoved ?ids"
          using settled s2 s4 dropped by (simp add: res host_parts runs_closed_def all)
        moreover have "hs_core (sh_host s') = hs_core (sh_host s3)" "sh_factory s' = sh_factory s4"
          using s4 by (simp_all add: res host_parts)
        moreover have "hi_runs (sh_registry s2) = hi_runs (sh_registry s)" using s2 dropped by (simp add: same_owners_def)
        ultimately show ?thesis
          using settled s4 unfolding session_settled_def runs_closed_def all by (auto simp: Let_def)
      qed
      ultimately show ?thesis using res by simp
    qed
  qed
qed

text \<open>C2: Closing a Session settles it. A close that reports a release has removed the Session, every run
  and every facade resource it owned from the registry and its authority services from the factory; no
  durable settlement of a live run of it is owed any more and no live delivery of its runs is left; the
  framework was told to close the Session first and then to remove its runs, in order. A close that fails
  keeps the address of the Session, fenced against new work, together with its services, so that it can be
  retried; a close that reports no release only fences the Session of a handle that was released before.\<close>

theorem closing_a_session_settles_it:
  assumes "close_session_owned env h operation s = (r, s')"
    and "session h (sh_registry s) = Ok entry"
    and "hwf (hi_runs (sh_registry s))" and "hwf (cs_debts (hs_core (sh_host s)))"
  shows "let owner = sn_acp_session_id entry in
    case r of
      Inl _ \<Rightarrow> close_retryable h owner s s'
    | Inr released \<Rightarrow>
        if released then \<not> is_ok (session h (sh_registry s')) \<and> session_settled owner s s'
        else close_retryable h owner s s' \<and> is_closed (sh_registry s) h"
proof -
  let ?s = "put_registry (mark_session_closing (h_id h) (sh_registry s)) s"
  let ?entry = "entry\<lparr>sn_closing := True, sn_cancelled := True\<rparr>"
  have found: "hget (hi_sessions (sh_registry s)) (h_id h) = Some entry"
    using assms(2) by (simp add: session_def lookup_def ok_or_def split: option.splits)
  note marked = marked_session [OF found]
  have here: "sh_registry ?s = mark_session_closing (h_id h) (sh_registry s)" "hs_core (sh_host ?s) = hs_core (sh_host s)"
    "sh_factory ?s = sh_factory s" "hs_calls (sh_host ?s) = hs_calls (sh_host s)"
    by (simp_all add: host_parts)
  have same: "is_closed (sh_registry ?s) h = is_closed (sh_registry s) h"
    "runs_for_session owner (sh_registry ?s) = runs_for_session owner (sh_registry s)" for owner
    using marked found by (simp_all add: host_parts runs_for_session_def is_closed_def tombstoned_def mark_session_closing_def)
  have locked: "close_locked_session env h operation (sn_acp_session_id entry) ?s = (r, s')"
    using assms(1,2) by (simp add: close_session_owned_def)
  have "case r of
      Inl _ \<Rightarrow> close_retryable h (sn_acp_session_id entry) ?s s'
    | Inr released \<Rightarrow>
        if released then \<not> is_ok (session h (sh_registry s')) \<and> session_settled (sn_acp_session_id entry) ?s s'
        else s' = ?s \<and> is_closed (sh_registry ?s) h"
    by (rule close_locked_shape [where entry = ?entry, OF locked]) (simp_all add: here marked assms(3,4))
  moreover have "close_retryable h (sn_acp_session_id entry) ?s t = close_retryable h (sn_acp_session_id entry) s t" for t
    by (simp add: close_retryable_def here)
  moreover have "session_settled (sn_acp_session_id entry) ?s t = session_settled (sn_acp_session_id entry) s t" for t
    using marked by (simp add: session_settled_def runs_for_session_def here)
  moreover have "close_retryable h (sn_acp_session_id entry) s ?s"
    using marked by (simp add: close_retryable_def here session_def lookup_def)
  ultimately show ?thesis using same by (auto simp: Let_def split: sum.splits)
qed

text \<open>A Session with one run of a previous process, on the framework that closes it.\<close>

definition closing_registry :: "prepared_definition handle_inner" where
  "closing_registry = (new_registry 7 16)\<lparr>
     hi_sessions := [(''session-1'', \<lparr>sn_cancelled = False, sn_closing = False, sn_acp_session_id = ''c'',
       sn_agent_handle_id = ''a'', sn_cwd = Some [47], sn_task_run_handle_id = ''task-1''\<rparr>)],
     hi_runs := [(''r'', RecoveredRun \<lparr>rv_stream_id = ''stream-r'', rv_session_id = ''c'', rv_status = StInterrupted,
       rv_last_sequence = 7, rv_terminal = None, rv_receipt = None\<rparr>)]\<rparr>"

definition closing_host :: "unit sdk_host" where
  "closing_host = agent_host\<lparr>sh_host := (sh_host agent_host)\<lparr>hs_world := \<lparr>pw_registry = closing_registry, pw_store = []\<rparr>\<rparr>\<rparr>"

definition closing_handle :: wire_handle where
  "closing_handle = mk_handle ''session-1'' SessionKind 7"

lemma closing_host_closes:
  "fst (close_session_owned agent_host_env closing_handle session_close_operation closing_host) = Ok True"
  by (simp add: close_session_owned_def session_def lookup_def closing_host_def closing_handle_def mk_handle_def
      closing_registry_def new_registry_def mark_session_closing_def close_locked_session_def is_closed_def tombstoned_def
      drop_resources_def host_parts agent_host_env_def facade_resource_ids_of_def close_facade_resources_of_def
      streams_where_def remove_streams_def push_tombstones_def Let_def runs_for_session_def settle_closing_run_def
      run_def issued_def remove_closing_run_def remove_run_handles_def remove_delivery_for_run_def
      remove_session_services_def close_session_def)

theorem closing_a_session_settles_it_witness:
  "\<exists>s'. close_session_owned agent_host_env closing_handle session_close_operation closing_host = (Ok True, s') \<and>
     session_settled ''c'' closing_host s' \<and> \<not> is_ok (session closing_handle (sh_registry s'))"
proof -
  obtain r s' where close: "close_session_owned agent_host_env closing_handle session_close_operation closing_host = (r, s')"
    by fastforce
  have "session closing_handle (sh_registry closing_host) = Ok \<lparr>sn_cancelled = False, sn_closing = False,
      sn_acp_session_id = ''c'', sn_agent_handle_id = ''a'', sn_cwd = Some [47], sn_task_run_handle_id = ''task-1''\<rparr>"
    by (simp add: session_def lookup_def closing_host_def closing_handle_def mk_handle_def closing_registry_def)
  moreover have "hwf (hi_runs (sh_registry closing_host))" "hwf (cs_debts (hs_core (sh_host closing_host)))"
    by (simp_all add: closing_host_def closing_registry_def agent_host_def sample_host_def hwf_def)
  ultimately show ?thesis
    using closing_a_session_settles_it [OF close] closing_host_closes close by (simp add: Let_def)
qed

section \<open>Limits of the retries\<close>

text \<open>
  A live run whose record has left the run index and that holds no reservation cannot be settled, so the
  close of its Session fails however often it is retried.
\<close>

lemma unindexed_run_blocks_close:
  assumes "hget (hi_runs (sh_registry s)) i = Some (LiveRun acp)" and "\<not> hmem i (cs_debts (hs_core (sh_host s)))"
    and "load_recovered_runs (rn_disk (ve_run env)) (cs_files (hs_core (sh_host s))) = Ok recs"
    and "\<forall>rec\<in>set recs. rr_run_id (rec_record rec) \<noteq> i"
  shows "\<not> is_ok (fst (settle_closing_run env operation i s)) \<and> snd (settle_closing_run env operation i s) = s"
proof -
  have "List.find (\<lambda>rec. rr_run_id (rec_record rec) = i) recs = None"
    using assms(4) by (auto simp: find_None_iff)
  then obtain e where "persist_settled_receipt (rn_settlement (ve_run env)) i (ve_receipt env i)
      (le_last_sequence (rn_entry (ve_run env) i)) (hs_core (sh_host s)) = (Err e, hs_core (sh_host s))"
    using assms(2,3)
    by (cases "receipt_wire (se_names (rn_settlement (ve_run env))) (ve_receipt env i)";
        cases "terminal_of (se_names (rn_settlement (ve_run env))) (ve_receipt env i)")
      (simp_all add: persist_settled_receipt_def)
  then show ?thesis
    using assms(1)
    by (simp add: settle_closing_run_def run_def lookup_def issued_def mk_handle_def host_parts)
qed

text \<open>
  A creation with an idempotency id that fails at the definition limit, an error that asks for a later
  retry, has closed the Agent under the id: the retry is refused as the creation of a closed Agent.
\<close>

lemma failed_creation_burns_idempotency_id:
  assumes new: "registered_agent env q s = (Ok (h, a, True), r)" and idem: "aq_idempotency_id q = Some i"
    and full: "register_definition (ae_definition a) (sh_factory s) = (Err e, f)"
    and admitted: "handler_admission (ve_run env) AgentLifecycle agent_create_operation = Ok ()"
      "validate_agent_create q = Ok ()"
  shows "fst (registered_agent env q (snd (agent_create env q s))) = Err (idempotency_closed h)"
proof -
  let ?s = "put_registry (snd (close_agent h r)) s"
  have "snd (agent_create env q s) = put_registry (snd (close_agent h (sh_registry (put_registry r s)))) (put_registry r s)"
    using new full admitted by (simp add: agent_create_def Let_def host_parts)
  then have s': "snd (agent_create env q s) = ?s" by (simp add: host_parts)
  have "hget (hi_idempotency r) i = Some h"
    using new idem
    by (auto simp: registered_agent_def agent_create_idempotent_def create_commit_def Let_def
        split: sum.splits option.splits prod.splits if_splits)
  then have "hget (hi_idempotency (snd (close_agent h r))) i = Some h"
    by (auto simp: close_agent_def split: option.splits)
  moreover have "hget (hi_agents (snd (close_agent h r))) (h_id h) = None"
    by (auto simp: close_agent_def split: option.splits)
  ultimately show ?thesis
    using idem by (simp add: s' registered_agent_def agent_create_idempotent_def create_lookup_def host_parts)
qed

end
