(* ===== verification/Standard_Entry.thy ===== *)
theory Standard_Entry
  imports Session_Close
begin

text \<open>
  The entry points of the standard protocol (\<open>SdkCoreProfile\<close> of \<open>core_profile/mod.rs\<close>): the framework
  registers with them the Sessions and the runs that standard requests create, asks for the handles that
  annotate its responses and takes back a run it could not start.
\<close>

section \<open>Sessions\<close>

text \<open>\<open>default_agent\<close> is the id of the Agent the Host installed.\<close>

definition register_standard_session ::
  "'j session_env \<Rightarrow> string \<Rightarrow> string \<Rightarrow> native_path \<Rightarrow> 'j sdk_host \<Rightarrow> (string + unit) \<times> 'j sdk_host" where
  "register_standard_session env default_agent session_id cwd s =
     (case register_session_with_cwd (fst (ve_uuids env)) (snd (ve_uuids env)) session_id default_agent (Some cwd)
             (sh_registry s) of
        (Inl e, r) \<Rightarrow> (Err (err_message e), put_registry r s)
      | (Inr (h, _, entry), r) \<Rightarrow>
          let s1 = put_registry r s in
          (case path_to_wire (rn_paths (ve_run env)) cwd of
             Inl e \<Rightarrow> (Err e, put_registry (snd (close_session h (sh_registry s1))) s1)
           | Inr wire \<Rightarrow>
               (case persist_session env session_id (sn_agent_handle_id entry)
                       (config_fingerprint (ve_sha256 env) (ve_json_text env) HostDefault) wire s1 of
                  (Inl e, s2) \<Rightarrow>
                    (Err (se_react_text (rn_settlement (ve_run env)) e),
                     put_registry (snd (close_session h (sh_registry s2))) s2)
                | (Inr _, s2) \<Rightarrow> (Ok (), s2))))"

section \<open>Runs\<close>

text \<open>What the early returns after the handles undo; the framework then takes back the rest.\<close>

definition unregister_standard :: "string \<Rightarrow> ('d, 'j) host_state \<Rightarrow> ('d, 'j) host_state" where
  "unregister_standard run_id s =
     on_core (remove_delivery_for_run run_id) (set_registry (remove_run_handles run_id (hs_registry s)) s)"

text \<open>The Agent of the Session, its fingerprint and the directory the Session was registered with.\<close>

definition standard_facts ::
  "'j run_env \<Rightarrow> wire_handle \<Rightarrow> string \<Rightarrow> 'd handle_inner \<Rightarrow> string + string \<times> string \<times> wire_path option" where
  "standard_facts env h acp r =
     and_then (map_err err_message (session h r)) (\<lambda>e.
     and_then (map_err err_message (agent_fingerprint (issued r AgentKind (sn_agent_handle_id e)) r)) (\<lambda>fingerprint.
       map_ok (\<lambda>cwd. (sn_agent_handle_id e, fingerprint, cwd))
         (transpose_with (path_to_wire (rn_paths env))
            (Option.bind (session_handle_for_acp acp r) (\<lambda>g.
               case session g r of Inl _ \<Rightarrow> None | Inr e' \<Rightarrow> sn_cwd e')))))"

definition record_standard_run ::
  "'j run_env \<Rightarrow> wire_handle \<Rightarrow> string \<Rightarrow> ('d, 'j) host_state \<Rightarrow> (string + unit) \<times> ('d, 'j) host_state" where
  "record_standard_run env h run_id s =
     (let entry = rn_entry env run_id in
      case standard_facts env h (le_session_id entry) (hs_registry s) of
        Inl e \<Rightarrow> (Err e, unregister_standard run_id s)
      | Inr (owner, fingerprint, cwd) \<Rightarrow>
          (case record_run_started (rn_disk env) run_id (le_stream_id entry) (le_session_id entry) owner fingerprint
                  cwd ''chat'' (cs_files (hs_core s)) of
             (r, fs) \<Rightarrow>
               let s1 = on_core (\<lambda>c. c\<lparr>cs_files := fs\<rparr>) s in
               (case r of
                  Inl e \<Rightarrow> (Err (se_react_text (rn_settlement env) e), unregister_standard run_id s1)
                | Inr _ \<Rightarrow> (Ok (), s1))))"

definition register_reserved_run ::
  "'j run_env \<Rightarrow> string \<Rightarrow> ('d, 'j) host_state \<Rightarrow> (string + unit) \<times> ('d, 'j) host_state" where
  "register_reserved_run env run_id s =
     (let entry = rn_entry env run_id in
      case session_handle_for_acp (le_session_id entry) (hs_registry s) of
        None \<Rightarrow>
          (Err ''standard Session handle is not registered'',
           on_core (\<lambda>c. remove_journal run_id (remove_delivery_for_run run_id c)) s)
      | Some h \<Rightarrow>
          (case register_live_run run_id (le_session_id entry) (Some (h_id h)) (hs_registry s) of
             (Inl e, r) \<Rightarrow> (Err (err_message e), on_core (remove_delivery_for_run run_id) (set_registry r s))
           | (Inr _, r) \<Rightarrow>
               (case register_live_stream (le_stream_id entry) run_id r of
                  (Inl e, r') \<Rightarrow> (Err (err_message e), unregister_standard run_id (set_registry r' s))
                | (Inr _, r') \<Rightarrow> record_standard_run env h run_id (set_registry r' s))))"

text \<open>The reservation is released on every early return and kept by \<open>durable.admit()\<close>.\<close>

definition register_standard_run ::
  "'j run_env \<Rightarrow> string \<Rightarrow> ('d, 'j) host_state \<Rightarrow> (string + unit) \<times> ('d, 'j) host_state" where
  "register_standard_run env run_id s =
     (case reserve_durable_settlement run_id (hs_core s) of
        (Inl e, c) \<Rightarrow> (Err e, s\<lparr>hs_core := c\<rparr>)
      | (Inr _, c) \<Rightarrow>
          (case register_reserved_run env run_id (s\<lparr>hs_core := c\<rparr>) of
             (Inl e, s1) \<Rightarrow> (Err e, on_core (release_durable_reservation run_id) s1)
           | (Inr _, s1) \<Rightarrow> (Ok (), s1)))"

definition rollback_run :: "'j run_env \<Rightarrow> string \<Rightarrow> string \<Rightarrow> ('d, 'j) host_state \<Rightarrow> ('d, 'j) host_state" where
  "rollback_run env run_id stream_id s =
     (let s1 = on_core (release_durable_reservation run_id) s;
          s2 = set_registry (remove_run_handles run_id (hs_registry s1)) s1
      in discard_run env run_id (on_core (remove_delivery stream_id) s2))"

text \<open>The observer of a run is its live delivery, registered before the run starts.\<close>

definition run_observers ::
  "'j run_env \<Rightarrow> string \<Rightarrow> string \<Rightarrow> ('d, 'j) host_state \<Rightarrow> stream_delivery list \<times> ('d, 'j) host_state" where
  "run_observers env run_id stream_id s =
     (let d = new_stream_delivery run_id (issued (hs_registry s) StreamKind stream_id) (rn_max_outstanding env)
                (saturating_mul (rn_max_event_bytes env) (rn_max_outstanding env)) (rn_max_event_bytes env)
      in ([d], on_core (register_delivery d) s))"

definition persist_receipt ::
  "'j run_env \<Rightarrow> string \<Rightarrow> turn_receipt \<Rightarrow> ('d, 'j) host_state \<Rightarrow> (string + unit) \<times> ('d, 'j) host_state" where
  "persist_receipt env run_id receipt s =
     (case persist_settled_receipt (rn_settlement env) run_id receipt (le_last_sequence (rn_entry env run_id)) (hs_core s) of
        (r, c) \<Rightarrow> (r, s\<lparr>hs_core := c\<rparr>))"

section \<open>Annotations\<close>

text \<open>The annotation of a standard response, before it is written as JSON.\<close>

datatype bridge_outcome = SessionCreated string | PromptStarted string string string

definition annotate_standard :: "bridge_outcome \<Rightarrow> 'd handle_inner \<Rightarrow> (string \<times> wire_handle) list option" where
  "annotate_standard outcome r =
     (case outcome of
        SessionCreated session_id \<Rightarrow>
          map_option (\<lambda>h. [(''session'', h)]) (session_handle_for_acp session_id r)
      | PromptStarted session_id run_id stream_id \<Rightarrow>
          Option.bind (run_handle_for_id run_id r) (\<lambda>run_handle.
            map_option (\<lambda>stream_handle. [(''run'', run_handle), (''stream'', stream_handle)])
              (stream_handle_for_id stream_id r)))"

section \<open>Settling a connection\<close>

text \<open>\<open>sync\<close> is the failure of a journal's flush.\<close>

fun flush_journals :: "('j \<Rightarrow> string option) \<Rightarrow> 'j hmap \<Rightarrow> string + unit" where
  "flush_journals sync [] = Ok ()"
| "flush_journals sync ((_, j) # js) =
     (case sync j of Some e \<Rightarrow> Err (''failed to flush run journal: '' @ e) | None \<Rightarrow> flush_journals sync js)"

text \<open>
  \<open>wait_for_settlements\<close> in the state in which its waits end; \<open>facade\<close> is what the facade's teardown
  answers, \<open>None\<close> when it timed out. Its failure is reported before that of the settlements.
\<close>

definition wait_for_settlements ::
  "'j session_env \<Rightarrow> (string + unit) option \<Rightarrow> 'j sdk_host \<Rightarrow> (string + unit) \<times> 'j sdk_host" where
  "wait_for_settlements env facade s =
     (let w = fence_publications (hs_world (sh_host s));
          s1 = s\<lparr>sh_host := (sh_host s)\<lparr>hs_world := w\<rparr>\<rparr>;
          s2 = put_registry (snd (fence_sessions (sh_registry s1))) s1
      in case wait_settlements (rn_settlement (ve_run env)) (hs_core (sh_host s2)) of
           (settled, c) \<Rightarrow>
             (and_then (option_default facade (Err ''facade teardown timed out'')) (\<lambda>_. settled),
              on_host (on_core (\<lambda>_. c)) s2))"

definition release_after_agents :: "'j sdk_host \<Rightarrow> 'j sdk_host" where
  "release_after_agents s =
     (let s1 = s\<lparr>sh_host := (sh_host s)\<lparr>hs_world := discard_publications_after_settlement (hs_world (sh_host s))\<rparr>\<rparr>
      in put_registry (close_all_extensions (sh_registry s1)) s1)"

section \<open>Standard runs\<close>

definition run_untouched :: "string \<Rightarrow> ('d, 'j) host_state \<Rightarrow> ('d, 'j) host_state \<Rightarrow> bool" where
  "run_untouched run_id s s' \<longleftrightarrow>
     open_part (hs_registry s') = open_part (hs_registry s) \<and> cs_debts (hs_core s') = cs_debts (hs_core s) \<and>
     set (cs_deliveries (hs_core s')) \<subseteq> set (cs_deliveries (hs_core s)) \<and> hs_calls s' = hs_calls s"

text \<open>What a registered run has: its handles, which the annotation names, and its running record.\<close>

definition standard_registered ::
  "'j run_env \<Rightarrow> string \<Rightarrow> ('d, 'j) host_state \<Rightarrow> ('d, 'j) host_state \<Rightarrow> bool" where
  "standard_registered env run_id s s' \<longleftrightarrow>
     (let entry = rn_entry env run_id; r = hs_registry s; sid = le_stream_id entry in
      \<not> hmem run_id (hi_runs r) \<and> \<not> hmem sid (hi_streams r) \<and>
      hs_registry s' = r\<lparr>hi_runs := hput run_id (LiveRun (le_session_id entry)) (hi_runs r),
        hi_streams := hput sid (plain_stream run_id 0) (hi_streams r)\<rparr> \<and>
      cs_deliveries (hs_core s') = cs_deliveries (hs_core s) \<and> hs_calls s' = hs_calls s \<and>
      (\<exists>owner fingerprint cwd.
         record_run_started (rn_disk env) run_id sid (le_session_id entry) owner fingerprint cwd ''chat''
           (cs_files (hs_core s)) = (Ok (), cs_files (hs_core s'))))"

lemma unregister_standard_parts:
  "hs_registry (unregister_standard run_id s) = remove_run_handles run_id (hs_registry s)"
  "cs_debts (hs_core (unregister_standard run_id s)) = cs_debts (hs_core s)"
  "cs_deliveries (hs_core (unregister_standard run_id s)) =
     filter (\<lambda>(_, d). sd_run_id d \<noteq> run_id) (cs_deliveries (hs_core s))"
  "hs_calls (unregister_standard run_id s) = hs_calls s"
  by (simp_all add: unregister_standard_def state_parts remove_delivery_for_run_def)

lemma unregister_standard_files: "cs_files (hs_core (unregister_standard run_id s)) = cs_files (hs_core s)"
  by (simp add: unregister_standard_def state_parts remove_delivery_for_run_def)

lemma register_reserved_files:
  assumes "register_reserved_run env run_id s = (Inl e, s')"
  shows "cs_files (hs_core s') = cs_files (hs_core s)"
proof -
  have "cs_files (hs_core u) = cs_files (hs_core t)" if "record_standard_run env h run_id t = (Inl e, u)" for h t u
    using that
    by (auto simp: record_standard_run_def Let_def unregister_standard_files state_parts
        split: sum.splits prod.splits dest: record_run_started_failed)
  with assms show ?thesis
    by (fastforce simp: register_reserved_run_def Let_def unregister_standard_files state_parts
        remove_delivery_for_run_def remove_journal_def split: option.splits sum.splits prod.splits)
qed

lemma rollback_files:
  "cs_files (hs_core (rollback_run env run_id sid s)) = snd (remove_run (rn_disk env) run_id (cs_files (hs_core s)))"
  by (simp add: rollback_run_def Let_def discard_run_files state_parts remove_delivery_def
      release_durable_reservation_def)

lemma register_standard_files:
  assumes "register_standard_run env run_id s = (Inl e, s')"
  shows "cs_files (hs_core s') = cs_files (hs_core s)"
proof -
  have "cs_files c = cs_files (hs_core s)" if "reserve_durable_settlement run_id (hs_core s) = (x, c)" for x c
    using that by (auto simp: reserve_durable_settlement_def split: if_splits)
  with assms show ?thesis
    by (auto simp: register_standard_run_def state_parts release_durable_reservation_def
        split: sum.splits prod.splits dest!: register_reserved_files)
qed

lemma register_reserved_shape:
  assumes reg: "register_reserved_run env run_id s = (r, s')" and fresh: "no_stream_of run_id (hs_registry s)"
  shows "case r of Inl _ \<Rightarrow> run_untouched run_id s s'
    | Inr _ \<Rightarrow> standard_registered env run_id s s' \<and> cs_debts (hs_core s') = cs_debts (hs_core s)"
proof (cases "session_handle_for_acp (le_session_id (rn_entry env run_id)) (hs_registry s)")
  case None
  with reg show ?thesis
    by (auto simp: register_reserved_run_def run_untouched_def state_parts remove_journal_def remove_delivery_for_run_def)
next
  case (Some h)
  let ?entry = "rn_entry env run_id"
  obtain x reg1 where x: "register_live_run run_id (le_session_id ?entry) (Some (h_id h)) (hs_registry s) = (x, reg1)"
    by fastforce
  note live_shape = register_live_run_shape [OF x]
  show ?thesis
  proof (cases x)
    case (Inl e)
    with reg Some x live_shape show ?thesis
      by (auto simp: register_reserved_run_def run_untouched_def state_parts remove_delivery_for_run_def)
  next
    case (Inr a)
    with live_shape have reg1: "reg1 = (hs_registry s)\<lparr>hi_runs := hput run_id (LiveRun (le_session_id ?entry)) (hi_runs (hs_registry s))\<rparr>"
      and new: "\<not> hmem run_id (hi_runs (hs_registry s))" by (auto split: prod.splits)
    obtain y reg2 where y: "register_live_stream (le_stream_id ?entry) run_id reg1 = (y, reg2)" by fastforce
    note stream_shape = register_live_stream_shape [OF y]
    show ?thesis
    proof (cases y)
      case (Inl e)
      with reg Some x \<open>x = Inr a\<close> y have "s' = unregister_standard run_id (set_registry reg2 s)" "r = Err (err_message e)"
        by (auto simp: register_reserved_run_def Let_def split: prod.splits)
      moreover have "reg2 = reg1" using stream_shape Inl by simp
      ultimately show ?thesis
        using remove_registered_run [OF fresh new]
        by (auto simp: run_untouched_def unregister_standard_parts state_parts reg1)
    next
      case (Inr b)
      with stream_shape have reg2: "reg2 = reg1\<lparr>hi_streams := hput (le_stream_id ?entry) (plain_stream run_id 0)
          (hi_streams (hs_registry s))\<rparr>"
        and new_stream: "\<not> hmem (le_stream_id ?entry) (hi_streams (hs_registry s))"
        by (auto simp: reg1)
      have recorded: "record_standard_run env h run_id (set_registry reg2 s) = (r, s')"
        using reg Some x \<open>x = Inr a\<close> y Inr by (simp add: register_reserved_run_def Let_def split: prod.splits)
      have undone: "open_part (remove_run_handles run_id reg2) = open_part (hs_registry s)"
        using remove_registered_stream [OF fresh new new_stream] by (simp add: reg1 reg2)
      show ?thesis
      proof (cases r)
        case (Inl e)
        with recorded undone show ?thesis
          by (auto simp: record_standard_run_def Let_def run_untouched_def unregister_standard_parts state_parts
              split: sum.splits prod.splits)
      next
        case (Inr u)
        with recorded new new_stream show ?thesis
          by (fastforce simp: record_standard_run_def Let_def standard_registered_def state_parts reg1 reg2
              split: sum.splits prod.splits)
      qed
    qed
  qed
qed

lemma rollback_parts:
  "hs_registry (rollback_run env run_id sid s) = remove_run_handles run_id (hs_registry s)"
  "cs_debts (hs_core (rollback_run env run_id sid s)) = cs_debts (release_durable_reservation run_id (hs_core s))"
  "cs_deliveries (hs_core (rollback_run env run_id sid s)) =
     filter (\<lambda>(_, d). sd_run_id d \<noteq> run_id) (hdel sid (cs_deliveries (hs_core s)))"
  by (simp_all add: rollback_run_def Let_def state_parts discard_run_core remove_delivery_def
      release_durable_reservation_def)

text \<open>C8: Registering a standard run is all or nothing, and what was registered can be taken back. A
  registration that fails leaves the registry as it was but for tombstones, the durable reservations and
  the files as they were and no new delivery. One that succeeds makes the run live under its own id with an
  open stream, reserves its settlement, makes its running record the one record of the run in the index
  file and gives the annotation of the standard response exactly the handles that address them; when the
  framework then rolls the run back, the registry is as it was before the registration but for tombstones,
  neither a reservation nor a delivery of the run is left, and the index file holds no record of it, unless
  the removal of the record itself fails: that failure is only logged and the record stays.\<close>

theorem standard_run_is_all_or_nothing:
  assumes reg: "register_standard_run env run_id s = (r, s')" and fresh: "no_stream_of run_id (hs_registry s)"
  shows "case r of
      Inl _ \<Rightarrow> run_untouched run_id s s' \<and> cs_files (hs_core s') = cs_files (hs_core s)
    | Inr _ \<Rightarrow>
        let sid = le_stream_id (rn_entry env run_id); t = rollback_run env run_id sid s' in
        standard_registered env run_id s s' \<and> hget (cs_debts (hs_core s')) run_id = Some None \<and>
        running_record_held (rn_disk env) run_id (cs_files (hs_core s')) \<and>
        record_withdrawn (rn_disk env) run_id (cs_files (hs_core t)) \<and>
        annotate_standard (PromptStarted (le_session_id (rn_entry env run_id)) run_id sid) (hs_registry s') =
          Some [(''run'', issued (hs_registry s) RunKind run_id), (''stream'', issued (hs_registry s) StreamKind sid)] \<and>
        open_part (hs_registry t) = open_part (hs_registry s) \<and> cs_debts (hs_core t) = cs_debts (hs_core s) \<and>
        (\<forall>e\<in>set (cs_deliveries (hs_core t)). sd_run_id (snd e) \<noteq> run_id)"
proof -
  obtain x c where x: "reserve_durable_settlement run_id (hs_core s) = (x, c)" by fastforce
  show ?thesis
  proof (cases x)
    case (Inl e)
    then have "c = hs_core s" using x by (auto simp: reserve_durable_settlement_def split: if_splits)
    with reg x Inl show ?thesis
      by (auto simp: register_standard_run_def run_untouched_def)
  next
    case (Inr u)
    with x have c: "c = (hs_core s)\<lparr>cs_debts := hput run_id None (cs_debts (hs_core s))\<rparr>"
      and absent: "hget (cs_debts (hs_core s)) run_id = None"
      by (auto simp: reserve_durable_settlement_def hmem_def split: if_splits)
    obtain y t where y: "register_reserved_run env run_id (s\<lparr>hs_core := c\<rparr>) = (y, t)" by fastforce
    note shape = register_reserved_shape [OF y]
    show ?thesis
    proof (cases y)
      case (Inl e)
      with reg x \<open>x = Inr u\<close> y have s': "r = Err e" "s' = on_core (release_durable_reservation run_id) t"
        by (auto simp: register_standard_run_def)
      with register_standard_files [of env run_id s e s'] reg
      have "cs_files (hs_core s') = cs_files (hs_core s)" by simp
      with s' shape fresh Inl absent show ?thesis
        by (auto simp: run_untouched_def state_parts c release_durable_reservation_def hdel_hput_absent)
    next
      case (Inr v)
      with reg x \<open>x = Inr u\<close> y have s': "r = Ok ()" "s' = t" by (auto simp: register_standard_run_def)
      let ?sid = "le_stream_id (rn_entry env run_id)"
      have registered: "standard_registered env run_id s s'" "hget (cs_debts (hs_core s')) run_id = Some None"
        "cs_debts (hs_core s') = hput run_id None (cs_debts (hs_core s))"
        using shape fresh Inr s' by (auto simp: standard_registered_def Let_def c)
      then have reg2: "hs_registry s' = (hs_registry s)\<lparr>hi_runs := hput run_id (LiveRun (le_session_id (rn_entry env run_id)))
          (hi_runs (hs_registry s)), hi_streams := hput ?sid (plain_stream run_id 0) (hi_streams (hs_registry s))\<rparr>"
        and new: "\<not> hmem run_id (hi_runs (hs_registry s))" "\<not> hmem ?sid (hi_streams (hs_registry s))"
        by (auto simp: standard_registered_def Let_def)
      have "annotate_standard (PromptStarted (le_session_id (rn_entry env run_id)) run_id ?sid) (hs_registry s') =
          Some [(''run'', issued (hs_registry s) RunKind run_id), (''stream'', issued (hs_registry s) StreamKind ?sid)]"
        by (simp add: annotate_standard_def run_handle_for_id_def stream_handle_for_id_def reg2 issued_def)
      moreover have "open_part (hs_registry (rollback_run env run_id ?sid s')) = open_part (hs_registry s)"
        using remove_registered_stream [OF fresh new] by (simp add: rollback_parts reg2)
      moreover have "cs_debts (hs_core (rollback_run env run_id ?sid s')) = cs_debts (hs_core s)"
        using registered absent by (simp add: rollback_parts release_durable_reservation_def hdel_hput_absent)
      moreover have "running_record_held (rn_disk env) run_id (cs_files (hs_core s'))"
        using registered(1) by (auto simp: standard_registered_def Let_def intro: started_record_held)
      moreover have "record_withdrawn (rn_disk env) run_id (cs_files (hs_core (rollback_run env run_id ?sid s')))"
        by (simp add: rollback_files remove_run_withdraws)
      ultimately show ?thesis
        using registered s' by (auto simp: Let_def rollback_parts)
    qed
  qed
qed

text \<open>A run of the sample Host's Session.\<close>

lemma standard_sample:
  "session_handle_for_acp ''acp'' host_registry = Some (mk_handle ''session-1'' SessionKind 7)"
  by (simp add: session_handle_for_acp_def host_registry_def issued_def new_registry_def)

lemma standard_sample_registers: "is_ok (fst (register_standard_run host_env ''turn-1'' sample_host))"
proof -
  let ?c = "(hs_core sample_host)\<lparr>cs_debts := [(''turn-1'', None)]\<rparr>"
  have "reserve_durable_settlement ''turn-1'' (hs_core sample_host) = (Ok (), ?c)"
    by (simp add: reserve_durable_settlement_def sample_host_def hmem_def)
  moreover have "is_ok (fst (register_reserved_run host_env ''turn-1'' (sample_host\<lparr>hs_core := ?c\<rparr>)))"
  proof -
    let ?r1 = "host_registry\<lparr>hi_runs := [(''turn-1'', LiveRun ''acp'')]\<rparr>"
    let ?r2 = "?r1\<lparr>hi_streams := [(''stream-turn-1'', plain_stream ''turn-1'' 0)]\<rparr>"
    have "register_live_run ''turn-1'' ''acp'' (Some ''session-1'') host_registry =
        (Ok (issued host_registry RunKind ''turn-1'', LiveRun ''acp''), ?r1)"
      by (simp add: register_live_run_def admit_live_run_def host_budget)
        (simp add: host_registry_def new_registry_def hmem_def)
    moreover have "register_live_stream ''stream-turn-1'' ''turn-1'' ?r1 =
        (Ok (issued ?r1 StreamKind ''stream-turn-1''), ?r2)"
      by (simp add: register_live_stream_def enforce_budget_def open_handles_def host_registry_def new_registry_def
          len_usize_def saturating_add_def hmem_def)
    moreover have "standard_facts host_env (mk_handle ''session-1'' SessionKind 7) ''acp'' ?r2 =
        Ok (''agent-1'', ''fp'', Some (Utf8Path [char_of (47 :: nat)]))"
      by (simp add: standard_facts_def session_def lookup_def mk_handle_def host_registry_def new_registry_def
          agent_fingerprint_def agent_def issued_def session_handle_for_acp_def transpose_with_def path_to_wire_def
          native_is_absolute_def host_env_def sample_path_codec_def)
    moreover have "is_ok (fst (record_run_started (rn_disk host_env) ''turn-1'' ''stream-turn-1'' ''acp'' ''agent-1'' ''fp''
        (Some (Utf8Path [char_of (47 :: nat)])) ''chat'' sample_root))"
      by (simp add: host_env_def record_run_started_def upsert_record_def
        read_index_def sample_root_def sample_settlement_env_def sample_disk_def size_check_def read_file_def
        write_index_def prune_entries.simps max_run_index_entries_def encode_runs_def prune_bytes.simps
        max_run_index_bytes_def)
    moreover have "le_session_id (rn_entry host_env ''turn-1'') = ''acp''" "le_stream_id (rn_entry host_env ''turn-1'') = ''stream-turn-1''"
      by (simp_all add: host_env_def)
    moreover have "hs_registry sample_host = host_registry" "cs_files (hs_core sample_host) = sample_root"
      by (simp_all add: sample_host_def)
    moreover have "h_id (mk_handle ''session-1'' SessionKind 7) = ''session-1''" by (simp add: mk_handle_def)
    ultimately show ?thesis
      by (auto simp: register_reserved_run_def standard_sample record_standard_run_def state_parts Let_def
          split: prod.splits sum.splits)
  qed
  ultimately show ?thesis
    by (auto simp: register_standard_run_def is_ok_iff split: prod.splits sum.splits)
qed

theorem standard_run_is_all_or_nothing_witness:
  "\<exists>s'. register_standard_run host_env ''turn-1'' sample_host = (Ok (), s') \<and>
     annotate_standard (PromptStarted ''acp'' ''turn-1'' ''stream-turn-1'') (hs_registry s') =
       Some [(''run'', issued host_registry RunKind ''turn-1''), (''stream'', issued host_registry StreamKind ''stream-turn-1'')] \<and>
     cs_debts (hs_core (rollback_run host_env ''turn-1'' ''stream-turn-1'' s')) = []"
proof -
  obtain r s' where reg: "register_standard_run host_env ''turn-1'' sample_host = (r, s')" by fastforce
  moreover have "r = Ok ()" using standard_sample_registers reg by (auto simp: is_ok_iff)
  moreover have "no_stream_of ''turn-1'' (hs_registry sample_host)"
    by (simp add: no_stream_of_def sample_host_def host_registry_def new_registry_def)
  moreover have "le_session_id (rn_entry host_env ''turn-1'') = ''acp''" "le_stream_id (rn_entry host_env ''turn-1'') = ''stream-turn-1''"
    "hs_registry sample_host = host_registry" "cs_debts (hs_core sample_host) = []"
    by (simp_all add: host_env_def sample_host_def)
  ultimately show ?thesis
    using standard_run_is_all_or_nothing [of host_env "''turn-1''" sample_host r s'] by (simp add: Let_def)
qed

end
