(* ===== verification/Host_Install.thy ===== *)
theory Host_Install
  imports Session_Handlers Advertisement
begin

text \<open>
  The installation of the Host (\<open>install_with_facade\<close> of \<open>core_profile/state.rs\<close> and \<open>CorePersistence::open\<close>):
  the generation it mints, the runs of the previous process it recovers, what it advertises, the default
  Agent and the empty maps it starts with.
\<close>

section \<open>Installation\<close>

text \<open>Every recovered journal is opened; its last sequence becomes the watermark of the run.\<close>

fun recover_journals ::
  "(string \<Rightarrow> string + 'j) \<Rightarrow> ('j \<Rightarrow> u64) \<Rightarrow> (react_error \<Rightarrow> string) \<Rightarrow> recovered_run list \<Rightarrow> string + recovered_run list" where
  "recover_journals open_journal last_of show_error [] = Ok []"
| "recover_journals open_journal last_of show_error (rec # recs) =
     and_then (open_journal (rr_run_id (rec_record rec))) (\<lambda>j.
     and_then (map_err show_error (validate_recovered_journal rec (last_of j))) (\<lambda>_.
       map_ok ((#) (rec\<lparr>rec_last_sequence := last_of j\<rparr>)) (recover_journals open_journal last_of show_error recs)))"

definition installed_core :: "host_files \<Rightarrow> recovered_run list \<Rightarrow> usize \<Rightarrow> 'j core_state" where
  "installed_core fs recs max_handles =
     \<lparr>cs_files = fs, cs_debts = [], cs_deliveries = [], cs_journals = [], cs_pending_settlements = 0,
      cs_settlement_error = None, cs_recovered = recs, cs_max_open_handles = max_handles\<rparr>"

text \<open>\<open>CorePersistence::open\<close>: \<open>root_error\<close> is the failure to create the directories or the state store.\<close>

definition open_persistence :: "react_error option \<Rightarrow> disk \<Rightarrow> host_files \<Rightarrow> (react_error + u64) \<times> host_files" where
  "open_persistence root_error dk fs =
     (case root_error of Some e \<Rightarrow> (Err e, fs) | None \<Rightarrow> advance_generation dk fs)"

text \<open>What the Host is built from: the compiled features, the digest of the contract, the source contract.\<close>

record installation =
  in_root_error :: "react_error option"
  in_features :: "string \<Rightarrow> bool"
  in_contract_digest :: string
  in_source_contract :: "string + json"
  in_limits :: profile_limits

text \<open>From the opened root: the recovered runs, the advertisement, the default Agent and the factory.\<close>

definition install_opened ::
  "'j session_env \<Rightarrow> ('j \<Rightarrow> u64) \<Rightarrow> installation \<Rightarrow> prepared_definition \<Rightarrow> u64 \<Rightarrow> host_files \<Rightarrow>
     host_error + wire_handle \<times> echo_capability \<times> 'j sdk_host" where
  "install_opened env last_of i d generation fs =
     (let show_error = se_react_text (rn_settlement (ve_run env)); max_handles = max_open_handles (in_limits i) in
      and_then (map_err (\<lambda>e. HostConfigError (show_error e)) (load_recovered_runs (rn_disk (ve_run env)) fs)) (\<lambda>found.
      and_then (map_err HostConfigError (recover_journals (rn_open_journal (ve_run env)) last_of show_error found)) (\<lambda>recs.
      and_then (build_advertisement (in_features i) (in_contract_digest i) (in_source_contract i) (in_limits i)) (\<lambda>adv.
        case register_agent d (config_fingerprint (ve_sha256 env) (ve_json_text env) HostDefault)
               (new_registry generation max_handles) of
          (Inl e, _) \<Rightarrow> Err (HostConfigError (err_message e))
        | (Inr (h, _), r) \<Rightarrow>
            Ok (h, adv, \<lparr>sh_host = \<lparr>hs_world = \<lparr>pw_registry = r, pw_store = []\<rparr>,
                     hs_core = installed_core fs recs max_handles, hs_calls = []\<rparr>,
                   sh_factory = new_factory d max_handles\<rparr>)))))"

definition install ::
  "'j session_env \<Rightarrow> ('j \<Rightarrow> u64) \<Rightarrow> installation \<Rightarrow> prepared_definition \<Rightarrow> host_files \<Rightarrow>
     (host_error + wire_handle \<times> echo_capability \<times> 'j sdk_host) \<times> host_files" where
  "install env last_of i d fs =
     (case open_persistence (in_root_error i) (rn_disk (ve_run env)) fs of
        (Inl e, fs') \<Rightarrow> (Err (HostConfigError (se_react_text (rn_settlement (ve_run env)) e)), fs')
      | (Inr generation, fs') \<Rightarrow> (install_opened env last_of i d generation fs', fs'))"

section \<open>What an installed Host has recovered\<close>

text \<open>A record of the index and the recovered run it became.\<close>

definition recovered_from :: "(string \<Rightarrow> string + 'j) \<Rightarrow> ('j \<Rightarrow> u64) \<Rightarrow> recovered_run \<Rightarrow> recovered_run \<Rightarrow> bool" where
  "recovered_from open_journal last_of rec rec' \<longleftrightarrow>
     (\<exists>j. open_journal (rr_run_id (rec_record rec)) = Ok j \<and> rec' = rec\<lparr>rec_last_sequence := last_of j\<rparr> \<and>
        (rec_status rec \<noteq> StInterrupted \<longrightarrow>
           last_of j = rr_last_sequence (rec_record rec) \<and>
           (\<exists>t rc. rec_terminal rec = Some t \<and> rec_receipt rec = Some rc \<and>
              validate_settled_run (rr_run_id (rec_record rec)) t rc (last_of j) = Ok ())))"

lemma recovered_journal_valid:
  assumes "validate_recovered_journal rec q = Ok ()"
  shows "rec_status rec \<noteq> StInterrupted \<longrightarrow>
    q = rr_last_sequence (rec_record rec) \<and>
    (\<exists>t rc. rec_terminal rec = Some t \<and> rec_receipt rec = Some rc \<and>
       validate_settled_run (rr_run_id (rec_record rec)) t rc q = Ok ())"
  using assms by (auto simp: validate_recovered_journal_def Let_def res_simps)

lemma recover_journals_Ok:
  "recover_journals open_journal last_of show_error recs = Ok recs' \<Longrightarrow>
     list_all2 (recovered_from open_journal last_of) recs recs'"
proof (induction recs arbitrary: recs')
  case (Cons rec recs)
  then obtain j rest where j: "open_journal (rr_run_id (rec_record rec)) = Ok j"
    and valid: "validate_recovered_journal rec (last_of j) = Ok ()"
    and rest: "recover_journals open_journal last_of show_error recs = Ok rest"
    and recs': "recs' = rec\<lparr>rec_last_sequence := last_of j\<rparr> # rest"
    by (auto simp: res_simps)
  have "recovered_from open_journal last_of rec (rec\<lparr>rec_last_sequence := last_of j\<rparr>)"
    using j recovered_journal_valid [OF valid] unfolding recovered_from_def by blast
  with Cons.IH [OF rest] show ?case by (simp add: recs')
qed simp

lemma install_opened_Ok:
  assumes "install_opened env last_of i d generation fs = Ok (h, adv, s)"
  shows "let r = sh_registry s; c = hs_core (sh_host s); n = max_open_handles (in_limits i) in
    (\<exists>found. load_recovered_runs (rn_disk (ve_run env)) fs = Ok found \<and>
       list_all2 (recovered_from (rn_open_journal (ve_run env)) last_of) found (cs_recovered c)) \<and>
    cs_files c = fs \<and> settlement_new c \<and> cs_deliveries c = [] \<and> cs_pending_settlements c = 0 \<and>
    build_advertisement (in_features i) (in_contract_digest i) (in_source_contract i) (in_limits i) = Ok adv \<and>
    (\<exists>a. agent h r = Ok a \<and> ae_definition a = d \<and> \<not> ae_closing a \<and> to_u64 (h_generation h) = Some generation \<and>
       r = (new_registry generation n)\<lparr>hi_agents := [(h_id h, a)], hi_next_agent_id := 1\<rparr>) \<and>
    sh_factory s = new_factory d n"
proof -
  let ?n = "max_open_handles (in_limits i)"
  obtain found recs where found: "load_recovered_runs (rn_disk (ve_run env)) fs = Ok found"
    and recs: "recover_journals (rn_open_journal (ve_run env)) last_of (se_react_text (rn_settlement (ve_run env))) found = Ok recs"
    and adv: "build_advertisement (in_features i) (in_contract_digest i) (in_source_contract i) (in_limits i) = Ok adv"
    using assms by (cases "load_recovered_runs (rn_disk (ve_run env)) fs";
        cases "recover_journals (rn_open_journal (ve_run env)) last_of (se_react_text (rn_settlement (ve_run env)))
          (projr (load_recovered_runs (rn_disk (ve_run env)) fs))";
        cases "build_advertisement (in_features i) (in_contract_digest i) (in_source_contract i) (in_limits i)")
      (auto simp: install_opened_def Let_def split: prod.splits sum.splits)
  with assms obtain a r where reg: "register_agent d (config_fingerprint (ve_sha256 env) (ve_json_text env) HostDefault)
      (new_registry generation ?n) = (Ok (h, a), r)"
    and s: "s = \<lparr>sh_host = \<lparr>hs_world = \<lparr>pw_registry = r, pw_store = []\<rparr>,
        hs_core = installed_core fs recs ?n, hs_calls = []\<rparr>, sh_factory = new_factory d ?n\<rparr>"
    by (auto simp: install_opened_def Let_def split: prod.splits sum.splits)
  have "checked_add (0 :: u64) 1 = Some 1" by (simp add: checked_add_def)
  with reg have "a = \<lparr>ae_closing = False, ae_definition = d,
        ae_fingerprint = config_fingerprint (ve_sha256 env) (ve_json_text env) HostDefault\<rparr>"
    "h = mk_handle (''agent-'' @ show_nat 1) AgentKind generation"
    "r = (new_registry generation ?n)\<lparr>hi_agents := [(''agent-'' @ show_nat 1, a)], hi_next_agent_id := 1\<rparr>"
    by (auto simp: register_agent_def mint_id_def issued_def Let_def new_registry_def split: sum.splits)
  with recover_journals_Ok [OF recs] found adv show ?thesis
    by (simp add: s Let_def installed_core_def settlement_new_def agent_def lookup_def mk_handle_def)
qed

text \<open>C29: A Host that installs has recovered every run the index holds, in order, each with the last
  sequence of its journal, and every settled one agrees with its journal and has a valid settlement. It has
  minted the next generation and written nothing else. It starts with the default Agent alone, open under
  a handle of that generation, no Session, run, stream, extension or resource, no reservation, delivery or
  publication, the advertisement of its limits and a factory that knows only the default definition. An
  installation that fails, as it does when a single run cannot be recovered so, has at most minted a
  generation.\<close>

theorem installed_host_is_recovered:
  assumes "install env last_of i d fs = (res, fs')"
  shows "case res of
      Inl _ \<Rightarrow> fs' = fs \<or> (\<exists>g. advance_generation (rn_disk (ve_run env)) fs = (Ok g, fs'))
    | Inr (h, adv, s) \<Rightarrow>
        let r = sh_registry s; c = hs_core (sh_host s); n = max_open_handles (in_limits i) in
        (\<exists>found. load_recovered_runs (rn_disk (ve_run env)) fs' = Ok found \<and>
           list_all2 (recovered_from (rn_open_journal (ve_run env)) last_of) found (cs_recovered c)) \<and>
        cs_files c = fs' \<and> settlement_new c \<and> cs_deliveries c = [] \<and> cs_pending_settlements c = 0 \<and>
        build_advertisement (in_features i) (in_contract_digest i) (in_source_contract i) (in_limits i) = Ok adv \<and>
        (\<exists>g a. advance_generation (rn_disk (ve_run env)) fs = (Ok g, fs') \<and> to_u64 (h_generation h) = Some g \<and>
           agent h r = Ok a \<and> ae_definition a = d \<and> \<not> ae_closing a \<and>
           r = (new_registry g n)\<lparr>hi_agents := [(h_id h, a)], hi_next_agent_id := 1\<rparr>) \<and>
        sh_factory s = new_factory d n"
proof -
  obtain o_res where opened: "open_persistence (in_root_error i) (rn_disk (ve_run env)) fs = (o_res, fs')"
    using assms by (auto simp: install_def split: prod.splits sum.splits)
  show ?thesis
  proof (cases res)
    case (Inl e)
    have "fs' = fs \<or> (\<exists>g. advance_generation (rn_disk (ve_run env)) fs = (Ok g, fs'))"
      using opened by (cases o_res)
        (auto simp: open_persistence_def advance_generation_def split: option.splits sum.splits)
    with Inl show ?thesis by simp
  next
    case (Inr x)
    then obtain h adv s where x: "res = Ok (h, adv, s)" by (metis prod_cases3)
    then obtain g where g: "o_res = Ok g" and inst: "install_opened env last_of i d g fs' = Ok (h, adv, s)"
      using assms opened by (cases o_res) (auto simp: install_def)
    have adv: "advance_generation (rn_disk (ve_run env)) fs = (Ok g, fs')"
      using opened g by (auto simp: open_persistence_def split: option.splits)
    from install_opened_Ok [OF inst] adv show ?thesis by (auto simp: x Let_def)
  qed
qed

text \<open>A Host installed on a root with one settled run.\<close>

definition sample_installation :: installation where
  "sample_installation = \<lparr>in_root_error = None, in_features = \<lambda>_. True, in_contract_digest = sample_digest,
     in_source_contract = Ok sample_source, in_limits = default_limits\<rparr>"

definition sample_run_root :: host_files where
  "sample_run_root = sample_root\<lparr>hf_runs := Some [2]\<rparr>"

lemma sample_installs: "is_ok (fst (install agent_host_env (\<lambda>_. 7) sample_installation sample_definition sample_run_root))"
proof -
  let ?rec = "\<lparr>rec_record = sample_settled, rec_status = StCancelled, rec_last_sequence = 7,
    rec_terminal = Some Cancelled, rec_receipt = Some sample_receipt\<rparr> :: recovered_run"
  have env: "rn_disk (ve_run agent_host_env) = sample_disk" "rn_open_journal (ve_run agent_host_env) = (\<lambda>_. Ok ())"
    by (simp_all add: agent_host_env_def sample_settlement_env_def host_env_def)
  have opened: "open_persistence None sample_disk sample_run_root =
      (Ok 1, sample_run_root\<lparr>hf_generation := Some (show_nat 1)\<rparr>)"
    by (simp add: open_persistence_def advance_generation_def sample_run_root_def sample_root_def read_file_def
        sample_disk_def checked_add_def)
  have loads: "load_recovered_runs sample_disk (sample_run_root\<lparr>hf_generation := Some (show_nat 1)\<rparr>) = Ok [?rec]"
    using sample_settled_loads by (simp add: load_recovered_runs_def size_check_def read_file_def sample_run_root_def)
  have recs: "recover_journals (\<lambda>_. Ok ()) (\<lambda>_. 7) show_error [?rec] = Ok [?rec]" for show_error
    by (simp add: validate_recovered_journal_def sample_settled_id sample_settled_valid)
  obtain adv where adv: "build_advertisement (\<lambda>_. True) sample_digest (Ok sample_source) default_limits = Ok adv"
    using built_advertisement [OF default_limits_validate sample_digest_valid, of sample_source sample_digest]
    by (auto simp: sample_source_def)
  have "enforce_budget (new_registry 1 (max_open_handles default_limits) :: prepared_definition handle_inner) 1 = Ok ()"
    by (simp add: enforce_budget_def open_handles_def new_registry_def len_usize_def saturating_add_def default_limits_def)
  then have "\<exists>h a r. register_agent sample_definition fp (new_registry 1 (max_open_handles default_limits)) = (Ok (h, a), r)" for fp
    by (simp add: register_agent_def mint_id_def checked_add_def Let_def)
      (simp add: new_registry_def)
  then obtain h a r where "register_agent sample_definition
      (config_fingerprint (ve_sha256 agent_host_env) (ve_json_text agent_host_env) HostDefault)
      (new_registry 1 (max_open_handles default_limits)) = (Ok (h, a), r)" by blast
  then show ?thesis
    using opened loads recs adv by (simp add: install_def install_opened_def env sample_installation_def Let_def)
qed

theorem installed_host_is_recovered_witness:
  "\<exists>h adv s fs'. install agent_host_env (\<lambda>_. 7) sample_installation sample_definition sample_run_root = (Ok (h, adv, s), fs') \<and>
     length (cs_recovered (hs_core (sh_host s))) = 1 \<and> is_ok (agent h (sh_registry s))"
proof -
  obtain h adv s fs' where inst: "install agent_host_env (\<lambda>_. 7) sample_installation sample_definition sample_run_root =
      (Ok (h, adv, s), fs')"
    using sample_installs by (metis is_ok_iff prod.collapse)
  have disk: "rn_disk (ve_run agent_host_env) = sample_disk"
    by (simp add: agent_host_env_def sample_settlement_env_def)
  note shape = installed_host_is_recovered [OF inst]
  then have "advance_generation sample_disk sample_run_root = (Ok 1, fs')"
    by (auto simp: Let_def disk advance_generation_def sample_run_root_def sample_root_def read_file_def
        sample_disk_def checked_add_def)
  then have "hf_runs fs' = Some [2]"
    by (auto simp: advance_generation_def sample_run_root_def sample_root_def read_file_def sample_disk_def checked_add_def)
  then have "load_recovered_runs sample_disk fs' = load_recovered_runs sample_disk (sample_root\<lparr>hf_runs := Some [2]\<rparr>)"
    by (simp add: load_recovered_runs_def size_check_def read_file_def)
  then show ?thesis
    using shape inst by (auto simp: Let_def disk sample_settled_loads dest!: list_all2_lengthD)
qed

end
