(* ===== verification/Index_Loops.thy ===== *)
theory Index_Loops
  imports Run_Survival "HOL-Library.While_Combinator"
begin

text \<open>
  The two loops of \<open>write_index\<close> (\<open>core_profile/persistence.rs\<close>) as the code writes them, with
  \<open>while_option\<close>: a loop that did not end would have no result. They end, and what they compute is what
  the recursive \<open>prune_entries\<close> and \<open>prune_bytes\<close> of the model compute.
\<close>

section \<open>The loops\<close>

text \<open>\<open>while records.len() > MAX_RUN_INDEX_ENTRIES\<close>, left by \<open>break\<close> when no settled record is left.\<close>

definition entries_loop :: "run_record list \<Rightarrow> run_record list option" where
  "entries_loop =
     while_option (\<lambda>rs. max_run_index_entries < length rs \<and> remove_first_settled rs \<noteq> None)
       (\<lambda>rs. case remove_first_settled rs of None \<Rightarrow> rs | Some rs' \<Rightarrow> rs')"

text \<open>The second loop returns from the function on its two errors: then the result is an error.\<close>

definition bytes_loop ::
  "disk \<Rightarrow> run_record list \<times> (react_error + u8 list) \<Rightarrow> (run_record list \<times> (react_error + u8 list)) option" where
  "bytes_loop dk =
     while_option (\<lambda>(rs, r). case r of Inl _ \<Rightarrow> False | Inr bytes \<Rightarrow> max_run_index_bytes < length bytes)
       (\<lambda>(rs, r). case remove_first_settled rs of
          None \<Rightarrow>
            (rs, Err (ReactOther (''run index exceeds the '' @ show_nat max_run_index_bytes @ '' byte bound'')))
        | Some rs' \<Rightarrow> (rs', encode_runs dk rs'))"

section \<open>What they leave\<close>

lemma entries_loop_result: "entries_loop rs = Some (prune_entries rs)"
proof (induction rs rule: prune_entries.induct)
  case (1 rs)
  then show ?case
    unfolding entries_loop_def
    by (subst while_option_unfold, subst prune_entries.simps) (auto split: option.splits)
qed

text \<open>The records and the result the second loop ends with, from the records it began with.\<close>

definition bytes_outcome ::
  "disk \<Rightarrow> run_record list \<Rightarrow> u8 list \<Rightarrow> run_record list \<Rightarrow> react_error + u8 list \<Rightarrow> bool" where
  "bytes_outcome dk rs bytes rs' result \<longleftrightarrow>
     subseq rs' rs \<and> filter running rs' = filter running rs \<and>
     (case result of
        Inl e \<Rightarrow> encode_runs dk rs' = Err e \<or> list_all running rs'
      | Inr out \<Rightarrow> length out \<le> max_run_index_bytes \<and>
          (rs' = rs \<and> out = bytes \<or> encode_runs dk rs' = Ok out))"

lemma bytes_outcome_step:
  assumes "remove_first_settled rs = Some rs1" and "encode_runs dk rs1 = Ok b"
    and "bytes_outcome dk rs1 b rs' result"
  shows "bytes_outcome dk rs bytes rs' result"
proof -
  have "subseq rs1 rs" "filter running rs1 = filter running rs"
    using remove_first_settled_kept [OF assms(1)] by (simp_all add: kept_of_def)
  with assms(2,3) show ?thesis
    by (auto simp: bytes_outcome_def split: sum.splits intro: subseq_order.trans)
qed

lemma bytes_loop_result:
  "\<exists>rs'. bytes_loop dk (rs, Ok bytes) = Some (rs', prune_bytes dk rs bytes) \<and>
     bytes_outcome dk rs bytes rs' (prune_bytes dk rs bytes)"
proof (induction dk rs bytes rule: prune_bytes.induct)
  case (1 dk rs bytes)
  have step: "bytes_loop dk x = (if (case x of (rs, r) \<Rightarrow> case r of Inl _ \<Rightarrow> False | Inr b \<Rightarrow> max_run_index_bytes < length b)
      then bytes_loop dk (case x of (rs, r) \<Rightarrow> case remove_first_settled rs of
          None \<Rightarrow> (rs, Err (ReactOther (''run index exceeds the '' @ show_nat max_run_index_bytes @ '' byte bound'')))
        | Some rs' \<Rightarrow> (rs', encode_runs dk rs')) else Some x)" for x
    unfolding bytes_loop_def by (rule while_option_unfold)
  have failed: "bytes_loop dk (rs', Inl e) = Some (rs', Inl e)" for rs' e by (subst step) simp
  show ?case
  proof (cases "length bytes \<le> max_run_index_bytes")
    case True
    then show ?thesis by (subst step, subst (1 2) prune_bytes.simps) (simp add: bytes_outcome_def)
  next
    case big: False
    show ?thesis
    proof (cases "remove_first_settled rs")
      case None
      then have "list_all running rs" by (simp add: remove_first_settled_None)
      with big failed None show ?thesis
        by (subst step, subst (1 2) prune_bytes.simps) (simp add: bytes_outcome_def)
    next
      case (Some rs1)
      note kept = remove_first_settled_kept [OF Some]
      show ?thesis
      proof (cases "encode_runs dk rs1")
        case (Inl e)
        with big Some failed kept show ?thesis
          by (subst step, subst (1 2) prune_bytes.simps) (simp add: bytes_outcome_def kept_of_def)
      next
        case (Inr b)
        with 1 big Some obtain rs' where rs': "bytes_loop dk (rs1, Ok b) = Some (rs', prune_bytes dk rs1 b)"
          "bytes_outcome dk rs1 b rs' (prune_bytes dk rs1 b)" by blast
        with big Some Inr bytes_outcome_step [OF Some Inr rs'(2)] show ?thesis
          by (subst step, subst (1 2) prune_bytes.simps) simp
      qed
    qed
  qed
qed

text \<open>C31: The loops that bound the run index end, whatever the records and however they encode, and
  neither drops a running record. The first returns the records the index keeps: those given, in their
  order, less settled ones. The second ends with a sub-sequence of its records that has every running
  one of them, and returns either the bytes of exactly these records, within the bound, or an error:
  that of encoding them, or that of an index which running records alone overfill.\<close>

theorem index_loops_end:
  "entries_loop rs = Some (prune_entries rs) \<and>
   subseq (prune_entries rs) rs \<and> filter running (prune_entries rs) = filter running rs \<and>
   (\<exists>rs'. bytes_loop dk (rs, Ok bytes) = Some (rs', prune_bytes dk rs bytes) \<and>
      subseq rs' rs \<and> filter running rs' = filter running rs \<and>
      (case prune_bytes dk rs bytes of
         Inl e \<Rightarrow> encode_runs dk rs' = Err e \<or> list_all running rs'
       | Inr out \<Rightarrow> length out \<le> max_run_index_bytes \<and>
           (rs' = rs \<and> out = bytes \<or> encode_runs dk rs' = Ok out)))"
  using entries_loop_result prune_entries_kept [of rs] bytes_loop_result [of dk rs bytes]
  by (simp add: kept_of_def bytes_outcome_def)

end
