(* ===== verification/Facade_Stream.thy ===== *)
theory Facade_Stream
  imports Registry_Streams Framework_Wire "HOL-Library.Sublist"
begin

text \<open>
  The pull-based facade streams (\<open>core_profile/facade/stream.rs\<close>). The registry holds the address, the
  sequence, the cancellation and the terminal of a stream; a record of this component holds the receiver of
  its producer, the causes of failure that were received, and what is known of the end of the producer and
  of the callback behind it. A request that waits is modelled in the states in which its wait ends; while
  it still waits it has no answer (\<open>None\<close>) and can be repeated.
\<close>

section \<open>Records\<close>

text \<open>\<open>JoinError\<close>: how the task of a producer ended abnormally.\<close>

datatype join_error = Panicked string | Aborted string

fun join_error_text :: "join_error \<Rightarrow> string" where
  "join_error_text (Panicked t) = t"
| "join_error_text (Aborted t) = t"

record stream_observation =
  ob_error :: "sdk_err option"
  ob_producer_joined :: bool
  ob_callback_bound :: bool
  ob_callback_closed :: bool

text \<open>
  \<open>fx_sender\<close>: a sender of the queue is alive. \<open>fx_cancel\<close>: the local shutdown token was cancelled; it is
  a child of the token the registry keeps.
\<close>

record facade_stream_record =
  fx_owner_session :: string
  fx_family :: string
  fx_resource_id :: string
  fx_close_resource :: bool
  fx_abort_on_deadline :: bool
  fx_queue :: "(sdk_err + wire_value) list"
  fx_sender :: bool
  fx_cancel :: bool
  fx_attached :: bool
  fx_producer_failure :: "join_error option"
  fx_pending_failure :: "sdk_err option"
  fx_observation :: stream_observation
  fx_settled :: bool

record 'd stream_world =
  sw_registry :: "'d handle_inner"
  sw_streams :: "facade_stream_record hmap"
  sw_max_streams :: usize

definition new_observation :: stream_observation where
  "new_observation = \<lparr>ob_error = None, ob_producer_joined = False, ob_callback_bound = False, ob_callback_closed = False\<rparr>"

definition new_stream_record :: "string \<Rightarrow> string \<Rightarrow> string \<Rightarrow> bool \<Rightarrow> bool \<Rightarrow> facade_stream_record" where
  "new_stream_record owner family resource_id close_resource abort =
     \<lparr>fx_owner_session = owner, fx_family = family, fx_resource_id = resource_id, fx_close_resource = close_resource,
      fx_abort_on_deadline = abort, fx_queue = [], fx_sender = True, fx_cancel = False, fx_attached = False,
      fx_producer_failure = None, fx_pending_failure = None, fx_observation = new_observation, fx_settled = True\<rparr>"

section \<open>Producers\<close>

definition bind_original_callback :: "facade_stream_record \<Rightarrow> facade_stream_record" where
  "bind_original_callback r =
     r\<lparr>fx_observation := (fx_observation r)\<lparr>ob_callback_bound := True\<rparr>,
       fx_settled := (fx_settled r \<and> ob_callback_closed (fx_observation r))\<rparr>"

definition original_callback_physically_closed :: "facade_stream_record \<Rightarrow> facade_stream_record" where
  "original_callback_physically_closed r =
     r\<lparr>fx_observation := (fx_observation r)\<lparr>ob_callback_closed := True, ob_error := None\<rparr>,
       fx_settled := (fx_settled r \<or> ob_producer_joined (fx_observation r))\<rparr>"

definition record_observation :: "sdk_err \<Rightarrow> facade_stream_record \<Rightarrow> bool \<times> facade_stream_record" where
  "record_observation e r =
     (if \<not> has_observation_hint e then (False, r)
      else if ob_callback_closed (fx_observation r) then (True, r)
      else (True, r\<lparr>fx_observation := (fx_observation r)\<lparr>ob_error := Some e\<rparr>, fx_settled := False\<rparr>))"

definition pending_observation :: "facade_stream_record \<Rightarrow> sdk_err option" where
  "pending_observation r = ob_error (fx_observation r)"

text \<open>The attached task, and its collector: what it stores, then what it settles.\<close>

definition attach_background :: "facade_stream_record \<Rightarrow> facade_stream_record" where
  "attach_background r =
     r\<lparr>fx_observation := (fx_observation r)\<lparr>ob_producer_joined := False\<rparr>, fx_settled := False, fx_attached := True\<rparr>"

definition collect_failure :: "join_error \<Rightarrow> facade_stream_record \<Rightarrow> facade_stream_record" where
  "collect_failure f r = r\<lparr>fx_producer_failure := Some f\<rparr>"

definition collect_join :: "facade_stream_record \<Rightarrow> facade_stream_record" where
  "collect_join r =
     (let ob = fx_observation r in
      r\<lparr>fx_observation := ob\<lparr>ob_producer_joined := True\<rparr>,
        fx_settled := (fx_settled r \<or> (ob_error ob = None \<and> (\<not> ob_callback_bound ob \<or> ob_callback_closed ob)))\<rparr>)"

text \<open>The queue has one place; the last sender goes with its producer.\<close>

definition send_item :: "sdk_err + wire_value \<Rightarrow> facade_stream_record \<Rightarrow> facade_stream_record" where
  "send_item x r = (if fx_sender r \<and> fx_queue r = [] then r\<lparr>fx_queue := [x]\<rparr> else r)"

definition drop_sender :: "facade_stream_record \<Rightarrow> facade_stream_record" where
  "drop_sender r = r\<lparr>fx_sender := False\<rparr>"

section \<open>Opening and addressing\<close>

definition put_record :: "string \<Rightarrow> facade_stream_record \<Rightarrow> 'd stream_world \<Rightarrow> 'd stream_world" where
  "put_record i r w = w\<lparr>sw_streams := hput i r (sw_streams w)\<rparr>"

definition open_with_ownership ::
  "string \<Rightarrow> wire_handle \<Rightarrow> string \<Rightarrow> string \<Rightarrow> bool \<Rightarrow> bool \<Rightarrow> 'd stream_world \<Rightarrow>
     (sdk_err + wire_handle) \<times> 'd stream_world" where
  "open_with_ownership uuid resource owner operation close_resource abort w =
     (case facade_resource resource operation (sw_registry w) of
        Inl e \<Rightarrow> (Err e, w)
      | Inr entry \<Rightarrow>
          (case register_facade_stream uuid (sw_max_streams w) resource (Some owner) operation (sw_registry w) of
             (Inl e, s) \<Rightarrow> (Err e, w\<lparr>sw_registry := s\<rparr>)
           | (Inr h, s) \<Rightarrow>
               let w1 = w\<lparr>sw_registry := s\<rparr> in
               (case and_then (facade_stream h (Some owner) operation s) (\<lambda>st.
                       if st_token st = None
                       then Err (sdk_error FrameworkError ''facade stream lacks its original cancellation authority'' Never
                              operation)
                       else Ok ()) of
                  Inl e \<Rightarrow> (Err e, w1)
                | Inr _ \<Rightarrow>
                    (Ok h, put_record (h_id h)
                       (new_stream_record owner (fr_family entry) (h_id resource) close_resource abort) w1))))"

definition stream_record ::
  "wire_handle \<Rightarrow> string \<Rightarrow> string \<Rightarrow> string \<Rightarrow> 'd stream_world \<Rightarrow> sdk_err + facade_stream_record" where
  "stream_record h owner family operation w =
     and_then (facade_stream h (Some owner) operation (sw_registry w)) (\<lambda>_.
     and_then (ok_or (hget (sw_streams w) (h_id h))
       (sdk_error ClosedHandle ''facade stream receiver is no longer available'' Never operation)) (\<lambda>r.
       if fx_family r \<noteq> family
       then Err (sdk_error InvalidValue
              (''facade stream belongs to family '' @ fx_family r @ '', not '' @ family) Never operation)
       else Ok r))"

text \<open>The local token is cancelled with the one of the registry.\<close>

definition cleanup_cancelled :: "'d handle_inner \<Rightarrow> wire_handle \<Rightarrow> facade_stream_record \<Rightarrow> bool" where
  "cleanup_cancelled s h r =
     (fx_cancel r \<or> (case hget (hi_streams s) (h_id h) of None \<Rightarrow> False | Some st \<Rightarrow> st_token st = Some True))"

definition stream_event :: "wire_handle \<Rightarrow> u64 \<Rightarrow> string \<Rightarrow> wire_value option \<Rightarrow> wire_value" where
  "stream_event h sequence variant value =
     WVariant ''echo_sdk::FacadeStreamEvent'' variant
       ([(''stream'', WHandle h), (''sequence'', WU64 (from_u64 sequence))] @
        (case value of None \<Rightarrow> [] | Some v \<Rightarrow> [(''value'', v)]))"

section \<open>Settlement\<close>

text \<open>\<open>wait_settled_or_observation\<close>; \<open>None\<close> while it waits.\<close>

definition settled_or_observation :: "facade_stream_record \<Rightarrow> (sdk_err + unit) option" where
  "settled_or_observation r =
     (case pending_observation r of
        Some e \<Rightarrow> Some (Err e)
      | None \<Rightarrow> if fx_settled r then Some (Ok ()) else None)"

text \<open>\<open>settle_record\<close>: the wait ends, or its timeout passes.\<close>

definition cleanup_timeout :: "facade_stream_record \<Rightarrow> sdk_err" where
  "cleanup_timeout r =
     sdk_error FrameworkError
       (if fx_abort_on_deadline r then ''facade stream cleanup is still awaiting its original producer''
        else ''callback stream cleanup is still awaiting its original callback/driver'')
       AfterDelay (fx_family r @ ''.stream.close'')"

definition settle_record :: "facade_stream_record \<Rightarrow> (sdk_err + unit) \<times> facade_stream_record" where
  "settle_record r =
     (option_default (settled_or_observation r) (Err (cleanup_timeout r)), r\<lparr>fx_cancel := True\<rparr>)"

definition finish_record ::
  "wire_handle \<Rightarrow> string \<Rightarrow> string \<Rightarrow> facade_stream_record \<Rightarrow> 'd stream_world \<Rightarrow>
     (sdk_err + bool) \<times> 'd stream_world" where
  "finish_record h owner operation r w =
     (case (if fx_close_resource r
            then close_facade_resource \<lparr>h_id = fx_resource_id r, h_generation = h_generation h, h_kind = FacadeResourceKind\<rparr>
                   operation (sw_registry w)
            else (Ok False, sw_registry w)) of
        (Inl e, s) \<Rightarrow> (Err e, w\<lparr>sw_registry := s\<rparr>)
      | (Inr _, s) \<Rightarrow>
          (case close_facade_stream h (Some owner) operation s of
             (Inl e, s') \<Rightarrow> (Err e, w\<lparr>sw_registry := s'\<rparr>)
           | (Inr closed, s') \<Rightarrow> (Ok closed, w\<lparr>sw_registry := s', sw_streams := hdel (h_id h) (sw_streams w)\<rparr>)))"

section \<open>Pulling the next event\<close>

text \<open>
  \<open>tokio::select!\<close> picks any branch that is ready: \<open>pick\<close> is its choice when the cancellation and another
  branch are.
\<close>

definition receive_item ::
  "bool \<Rightarrow> bool \<Rightarrow> facade_stream_record \<Rightarrow>
     ((sdk_err + (sdk_err + wire_value) option) \<times> facade_stream_record) option" where
  "receive_item pick cancelled r =
     (case fx_pending_failure r of
        Some e \<Rightarrow> Some (Ok (Some (Err e)), r)
      | None \<Rightarrow>
          (case pending_observation r of
             Some e \<Rightarrow> Some (Err e, r)
           | None \<Rightarrow>
               (case fx_queue r of
                  [] \<Rightarrow> if fx_sender r \<and> \<not> cancelled then None else Some (Ok None, r)
                | x # xs \<Rightarrow>
                    if cancelled \<and> pick then Some (Ok None, r) else Some (Ok (Some x), r\<lparr>fx_queue := xs\<rparr>))))"

definition producer_exit_error :: "wire_handle \<Rightarrow> string \<Rightarrow> join_error \<Rightarrow> sdk_err" where
  "producer_exit_error h operation f =
     (handle_error FrameworkError (bounded_message (''facade stream producer failed: '' @ join_error_text f)) operation h)
       \<lparr>err_details := Some \<lparr>ed_fields = Some [\<lparr>df_key = ''producer_exit'',
          df_value = (case f of Panicked _ \<Rightarrow> ''panic'' | Aborted _ \<Rightarrow> ''abort'')\<rparr>], ed_facade = None\<rparr>\<rparr>"

definition decorated :: "wire_handle \<Rightarrow> string \<Rightarrow> sdk_err \<Rightarrow> sdk_err" where
  "decorated h operation e = with_handle (with_operation e operation) h"

text \<open>
  No item: the end of the queue does not prove that the source completed, so the pull waits for the
  settlement, unless it was cancelled; an abnormal exit of the producer is a failure.
\<close>

definition after_eof ::
  "bool \<Rightarrow> bool \<Rightarrow> bool \<Rightarrow> wire_handle \<Rightarrow> string \<Rightarrow> facade_stream_record \<Rightarrow>
     (sdk_err + (sdk_err + wire_value) option) option" where
  "after_eof pick cancelled registry_cancelled h operation r =
     (case (if cancelled \<and> (pick \<or> settled_or_observation r = None) then Some (Ok ()) else settled_or_observation r) of
        None \<Rightarrow> None
      | Some (Inl e) \<Rightarrow> Some (Err (decorated h operation e))
      | Some (Inr _) \<Rightarrow>
          if registry_cancelled then Some (Ok None)
          else (case settled_or_observation r of
             None \<Rightarrow> None
           | Some (Inl e) \<Rightarrow> Some (Err (decorated h operation e))
           | Some (Inr _) \<Rightarrow>
               Some (Ok (map_option (\<lambda>f. Err (producer_exit_error h operation f)) (fx_producer_failure r)))))"

text \<open>\<open>project\<close> is the error as a wire value: its JSON and \<open>WireValue::from_json\<close>.\<close>

definition projection_failed :: "string \<Rightarrow> string \<Rightarrow> sdk_err" where
  "projection_failed operation t =
     sdk_error FrameworkError (''facade stream error projection failed: '' @ t) Never operation"

definition terminal_event :: "wire_handle \<Rightarrow> u64 \<Rightarrow> bool \<Rightarrow> wire_value option \<Rightarrow> wire_value" where
  "terminal_event h sequence cancelled error_value =
     (if cancelled then stream_event h sequence ''cancelled'' None
      else case error_value of
        Some v \<Rightarrow> stream_event h sequence ''failed'' (Some v)
      | None \<Rightarrow> stream_event h sequence ''complete'' None)"

text \<open>The terminal: the producer is settled first, then the registry commits the terminal and the record goes.\<close>

definition conclude ::
  "(sdk_err \<Rightarrow> string + wire_value) \<Rightarrow> wire_handle \<Rightarrow> string \<Rightarrow> string \<Rightarrow> (sdk_err + wire_value) option \<Rightarrow>
     facade_stream_record \<Rightarrow> 'd stream_world \<Rightarrow> (sdk_err + wire_value) \<times> 'd stream_world" where
  "conclude project h owner operation item r w =
     (case (case item of
              Some (Inl e) \<Rightarrow> map_ok Some (map_err (projection_failed operation) (project e))
            | _ \<Rightarrow> Ok None) of
        Inl e \<Rightarrow> (Err e, put_record (h_id h) r w)
      | Inr error_value \<Rightarrow>
          (case settle_record r of
             (Inl e, r1) \<Rightarrow> (Err e, put_record (h_id h) r1 w)
           | (Inr _, r1) \<Rightarrow>
               let w1 = put_record (h_id h) r1 w in
               (case settle_facade_stream h (Some owner) False operation (sw_registry w1) of
                  (Inl e, s) \<Rightarrow> (Err e, w1\<lparr>sw_registry := s\<rparr>)
                | (Inr (sequence, cancelled), s) \<Rightarrow>
                    (Ok (terminal_event h sequence cancelled error_value),
                     snd (finish_record h owner operation r1 (w1\<lparr>sw_registry := s\<rparr>))))))"

text \<open>An item advances the sequence unless the stream was cancelled; everything else leads to the terminal.\<close>

definition deliver_value ::
  "(sdk_err \<Rightarrow> string + wire_value) \<Rightarrow> wire_handle \<Rightarrow> string \<Rightarrow> string \<Rightarrow> u64 \<Rightarrow> wire_value \<Rightarrow>
     facade_stream_record \<Rightarrow> 'd stream_world \<Rightarrow> (sdk_err + wire_value) \<times> 'd stream_world" where
  "deliver_value project h owner operation watermark v r w =
     (case checked_add watermark 1 of
        None \<Rightarrow> (Err (sdk_error FrameworkError ''facade stream sequence exhausted'' Never operation), put_record (h_id h) r w)
      | Some sequence \<Rightarrow>
          (case advance_facade_stream h (Some owner) sequence operation (sw_registry w) of
             (Inr _, s) \<Rightarrow>
               (Ok (stream_event h sequence ''item'' (Some v)), put_record (h_id h) r (w\<lparr>sw_registry := s\<rparr>))
           | (Inl e, s) \<Rightarrow>
               if err_code e = error_code.Cancelled
               then conclude project h owner operation (Some (Ok v)) r (w\<lparr>sw_registry := s\<rparr>)
               else (Err e, put_record (h_id h) r (w\<lparr>sw_registry := s\<rparr>))))"

definition deliver ::
  "(sdk_err \<Rightarrow> string + wire_value) \<Rightarrow> wire_handle \<Rightarrow> string \<Rightarrow> string \<Rightarrow> u64 \<Rightarrow> (sdk_err + wire_value) option \<Rightarrow>
     facade_stream_record \<Rightarrow> 'd stream_world \<Rightarrow> (sdk_err + wire_value) \<times> 'd stream_world" where
  "deliver project h owner operation watermark item r w =
     (case item of
        Some (Inl e) \<Rightarrow>
          (if has_observation_hint e
           then (Err (decorated h operation e), put_record (h_id h) (snd (record_observation e r)) w)
           else
             let r1 = r\<lparr>fx_pending_failure := Some e\<rparr> in
             (case facade_stream_state h (Some owner) operation (sw_registry w) of
                (Inl e', s) \<Rightarrow> (Err e', put_record (h_id h) r1 (w\<lparr>sw_registry := s\<rparr>))
              | (Inr _, s) \<Rightarrow> conclude project h owner operation item r1 (w\<lparr>sw_registry := s\<rparr>)))
      | _ \<Rightarrow>
          (case facade_stream_state h (Some owner) operation (sw_registry w) of
             (Inl e', s) \<Rightarrow> (Err e', put_record (h_id h) r (w\<lparr>sw_registry := s\<rparr>))
           | (Inr (_, cancelled), s) \<Rightarrow>
               let w1 = w\<lparr>sw_registry := s\<rparr> in
               (case item of
                  Some (Inr v) \<Rightarrow>
                    (if cancelled then conclude project h owner operation item r w1
                     else deliver_value project h owner operation watermark v r w1)
                | _ \<Rightarrow> conclude project h owner operation item r w1)))"

text \<open>\<open>next\<close>, under the lock of the stream's receiver; \<open>None\<close> while it waits.\<close>

definition pull_next ::
  "bool \<Rightarrow> (sdk_err \<Rightarrow> string + wire_value) \<Rightarrow> wire_handle \<Rightarrow> string \<Rightarrow> string \<Rightarrow> string \<Rightarrow> 'd stream_world \<Rightarrow>
     ((sdk_err + wire_value) \<times> 'd stream_world) option" where
  "pull_next pick project h owner family operation w =
     (case stream_record h owner family operation w of
        Inl e \<Rightarrow> Some (Err e, w)
      | Inr r \<Rightarrow>
          (case pending_observation r of
             Some e \<Rightarrow> Some (Err (decorated h operation e), w)
           | None \<Rightarrow>
               (case facade_stream_state h (Some owner) operation (sw_registry w) of
                  (Inl e, s) \<Rightarrow> Some (Err e, w\<lparr>sw_registry := s\<rparr>)
                | (Inr (watermark, registry_cancelled), s) \<Rightarrow>
                    let w1 = w\<lparr>sw_registry := s\<rparr>; cancelled = cleanup_cancelled s h r in
                    (case receive_item pick cancelled r of
                       None \<Rightarrow> None
                     | Some (Inl e, r1) \<Rightarrow> Some (Err (decorated h operation e), put_record (h_id h) r1 w1)
                     | Some (Inr item, r1) \<Rightarrow>
                         (case (if item = None then after_eof pick cancelled registry_cancelled h operation r1 else Some (Ok item)) of
                            None \<Rightarrow> None
                          | Some (Inl e) \<Rightarrow> Some (Err e, put_record (h_id h) r1 w1)
                          | Some (Inr item') \<Rightarrow> Some (deliver project h owner operation watermark item' r1 w1))))))"

section \<open>Cancelling and closing\<close>

definition cancel_stream ::
  "wire_handle \<Rightarrow> string \<Rightarrow> string \<Rightarrow> string \<Rightarrow> 'd stream_world \<Rightarrow> (sdk_err + bool) \<times> 'd stream_world" where
  "cancel_stream h owner family operation w =
     (case stream_record h owner family operation w of
        Inl e \<Rightarrow> (Err e, w)
      | Inr r \<Rightarrow>
          (case cancel_facade_stream h (Some owner) operation (sw_registry w) of
             (r', s) \<Rightarrow>
               let w1 = w\<lparr>sw_registry := s\<rparr> in
               (r', if r' = Ok True then put_record (h_id h) (r\<lparr>fx_cancel := True\<rparr>) w1 else w1)))"

definition close_stream ::
  "wire_handle \<Rightarrow> string \<Rightarrow> string \<Rightarrow> string \<Rightarrow> 'd stream_world \<Rightarrow> (sdk_err + bool) \<times> 'd stream_world" where
  "close_stream h owner family operation w =
     (case (if is_closed (sw_registry w) h then (Ok (), sw_registry w)
            else case stream_record h owner family operation w of
              Inl e \<Rightarrow> (Err e, sw_registry w)
            | Inr _ \<Rightarrow> apfst (map_ok (\<lambda>_. ())) (cancel_facade_stream h (Some owner) operation (sw_registry w))) of
        (Inl e, s) \<Rightarrow> (Err e, w\<lparr>sw_registry := s\<rparr>)
      | (Inr _, s) \<Rightarrow>
          let w1 = w\<lparr>sw_registry := s\<rparr> in
          (case hget (sw_streams w1) (h_id h) of
             Some r \<Rightarrow>
               (case settle_record r of
                  (Inl e, r1) \<Rightarrow> (Err e, put_record (h_id h) r1 w1)
                | (Inr _, r1) \<Rightarrow> finish_record h owner operation r1 (put_record (h_id h) r1 w1))
           | None \<Rightarrow>
               (case close_facade_stream h (Some owner) operation s of (r, s') \<Rightarrow> (r, w1\<lparr>sw_registry := s'\<rparr>))))"

text \<open>\<open>close_matching\<close>: every match is cancelled first; those that settle are removed, the first error is reported.\<close>

definition cancel_matching :: "(facade_stream_record \<Rightarrow> bool) \<Rightarrow> facade_stream_record hmap \<Rightarrow> facade_stream_record hmap" where
  "cancel_matching matches m = map (\<lambda>(i, r). (i, if matches r then r\<lparr>fx_cancel := True\<rparr> else r)) m"

fun close_each ::
  "(string \<times> facade_stream_record) list \<Rightarrow> sdk_err option \<Rightarrow> facade_stream_record hmap \<Rightarrow>
     sdk_err option \<times> facade_stream_record hmap" where
  "close_each [] failure m = (failure, m)"
| "close_each ((i, r) # rest) failure m =
     (case settle_record r of
        (Inl e, _) \<Rightarrow> close_each rest (Some (option_default failure e)) m
      | (Inr _, _) \<Rightarrow> close_each rest failure (hdel i m))"

definition close_matching ::
  "(facade_stream_record \<Rightarrow> bool) \<Rightarrow> 'd stream_world \<Rightarrow> (sdk_err + unit) \<times> 'd stream_world" where
  "close_matching matches w =
     (let m = cancel_matching matches (sw_streams w) in
      case close_each (filter (\<lambda>e. matches (snd e)) m) None m of
        (failure, m') \<Rightarrow>
          (case failure of Some e \<Rightarrow> Err e | None \<Rightarrow> Ok (), w\<lparr>sw_streams := m'\<rparr>))"

definition close_owner :: "string \<Rightarrow> 'd stream_world \<Rightarrow> (sdk_err + unit) \<times> 'd stream_world" where
  "close_owner owner = close_matching (\<lambda>r. fx_owner_session r = owner)"

definition close_resource_streams :: "string \<Rightarrow> 'd stream_world \<Rightarrow> (sdk_err + unit) \<times> 'd stream_world" where
  "close_resource_streams resource_id = close_matching (\<lambda>r. fx_resource_id r = resource_id)"

definition close_all_streams :: "'d stream_world \<Rightarrow> (sdk_err + unit) \<times> 'd stream_world" where
  "close_all_streams = close_matching (\<lambda>_. True)"

text \<open>\<open>dispatch_control\<close>; \<open>arguments\<close> and \<open>operation\<close> are of the request.\<close>

definition dispatch_control ::
  "bool \<Rightarrow> (sdk_err \<Rightarrow> string + wire_value) \<Rightarrow> string \<Rightarrow> string \<Rightarrow> wire_value list \<Rightarrow> string \<Rightarrow> 'd stream_world \<Rightarrow>
     ((sdk_err + wire_value) \<times> 'd stream_world) option" where
  "dispatch_control pick project owner family arguments operation w =
     (let invalid = (\<lambda>t. Some (Err (sdk_error InvalidValue t Never operation), w)) in
      case arguments of
        [WHandle h] \<Rightarrow>
          if suffix ''.stream.next'' operation then pull_next pick project h owner family operation w
          else if suffix ''.stream.cancel'' operation
          then Some (apfst (map_ok WBool) (cancel_stream h owner family operation w))
          else if suffix ''.stream.close'' operation
          then Some (apfst (map_ok WBool) (close_stream h owner family operation w))
          else invalid ''unknown facade stream control operation''
      | [_] \<Rightarrow> invalid ''facade stream control requires a Stream handle''
      | _ \<Rightarrow> invalid ''facade stream control accepts exactly one Stream handle argument'')"

section \<open>What settles a record\<close>

text \<open>
  Every operation on a record after it was opened. A producer is attached once, and its collector ends once;
  the request side takes from the queue, keeps a cause of failure and cancels the local token.
\<close>

inductive record_step :: "facade_stream_record \<Rightarrow> facade_stream_record \<Rightarrow> bool" where
  rs_bind: "record_step r (bind_original_callback r)"
| rs_closed: "record_step r (original_callback_physically_closed r)"
| rs_observe: "record_observation e r = (b, r') \<Longrightarrow> record_step r r'"
| rs_attach: "\<not> fx_attached r \<Longrightarrow> record_step r (attach_background r)"
| rs_failure: "fx_attached r \<Longrightarrow> \<not> ob_producer_joined (fx_observation r) \<Longrightarrow> record_step r (collect_failure f r)"
| rs_join: "fx_attached r \<Longrightarrow> \<not> ob_producer_joined (fx_observation r) \<Longrightarrow> record_step r (collect_join r)"
| rs_send: "record_step r (send_item x r)"
| rs_drop: "record_step r (drop_sender r)"
| rs_receive: "receive_item pick cancelled r = Some (y, r') \<Longrightarrow> record_step r r'"
| rs_keep: "record_step r (r\<lparr>fx_pending_failure := Some e\<rparr>)"
| rs_settle: "settle_record r = (y, r') \<Longrightarrow> record_step r r'"

inductive_simps record_step_joined_simps: "record_step r (collect_join r)"

definition record_opened :: "facade_stream_record \<Rightarrow> bool" where
  "record_opened r = (\<exists>owner family resource_id close_resource abort.
     r = new_stream_record owner family resource_id close_resource abort)"

definition physically_settled :: "stream_observation \<Rightarrow> bool" where
  "physically_settled ob = (ob_producer_joined ob \<and> ob_error ob = None \<and> (ob_callback_bound ob \<longrightarrow> ob_callback_closed ob))"

definition record_inv :: "facade_stream_record \<Rightarrow> bool" where
  "record_inv r =
     ((ob_callback_closed (fx_observation r) \<longrightarrow> ob_error (fx_observation r) = None) \<and>
      (ob_producer_joined (fx_observation r) \<longrightarrow> fx_attached r) \<and>
      (fx_attached r \<longrightarrow> fx_settled r = physically_settled (fx_observation r)))"

lemma receive_item_observation:
  "receive_item pick cancelled r = Some (y, r') \<Longrightarrow>
     fx_observation r' = fx_observation r \<and> fx_settled r' = fx_settled r \<and> fx_attached r' = fx_attached r"
  by (auto simp: receive_item_def split: option.splits list.splits if_splits)

lemma record_step_inv: "record_inv r \<Longrightarrow> record_step r r' \<Longrightarrow> record_inv r'"
  by (erule record_step.cases)
    (auto simp: record_inv_def physically_settled_def bind_original_callback_def original_callback_physically_closed_def
      record_observation_def attach_background_def collect_failure_def collect_join_def send_item_def drop_sender_def
      settle_record_def Let_def dest!: receive_item_observation split: if_splits)

interpretation record_hist: invariant_system record_opened record_step record_inv
proof unfold_locales
  show "record_inv r" if "record_opened r" for r
    using that by (auto simp: record_opened_def record_inv_def new_stream_record_def new_observation_def)
qed (rule record_step_inv)

lemma closed_callback_stays_settled:
  assumes "record_step\<^sup>*\<^sup>* r r'" and "ob_callback_closed (fx_observation r) \<and> fx_settled r \<and> fx_attached r"
  shows "ob_callback_closed (fx_observation r') \<and> fx_settled r' \<and> fx_attached r'"
  using assms
proof (induction rule: rtranclp_induct)
  case (step x y)
  then have "ob_callback_closed (fx_observation x) \<and> fx_settled x \<and> fx_attached x" by blast
  with step.hyps(2) show ?case
    by (cases rule: record_step.cases)
      (auto simp: bind_original_callback_def original_callback_physically_closed_def record_observation_def
        attach_background_def collect_failure_def collect_join_def send_item_def drop_sender_def settle_record_def Let_def
        dest!: receive_item_observation split: if_splits)
qed blast

text \<open>C22: over every history of a stream's record, an attached producer is reported settled exactly when it was
  joined, no observation of its callback is pending and a bound callback is physically closed; a closed
  callback can no longer be reported unsettled. Anything else answers the pending observation, or that the
  cleanup still waits.
\<close>

theorem facade_stream_settlement_is_exact:
  assumes "reach record_opened record_step r" and "fx_attached r"
  shows "fst (settle_record r) =
      (case ob_error (fx_observation r) of
         Some e \<Rightarrow> Err e
       | None \<Rightarrow>
           if ob_producer_joined (fx_observation r) \<and> (ob_callback_bound (fx_observation r) \<longrightarrow> ob_callback_closed (fx_observation r))
           then Ok () else Err (cleanup_timeout r)) \<and>
    (ob_callback_closed (fx_observation r) \<and> fx_settled r \<and> record_step\<^sup>*\<^sup>* r r' \<longrightarrow> fx_settled r')"
proof (rule conjI)
  have "record_inv r" by (rule record_hist.reach_inv [OF assms(1)])
  with assms(2) show "fst (settle_record r) =
      (case ob_error (fx_observation r) of
         Some e \<Rightarrow> Err e
       | None \<Rightarrow>
           if ob_producer_joined (fx_observation r) \<and> (ob_callback_bound (fx_observation r) \<longrightarrow> ob_callback_closed (fx_observation r))
           then Ok () else Err (cleanup_timeout r))"
    by (auto simp: record_inv_def physically_settled_def settle_record_def settled_or_observation_def pending_observation_def
        option_default_def split: option.splits)
qed (use assms(2) closed_callback_stays_settled in blast)

definition sample_stream_record :: facade_stream_record where
  "sample_stream_record = new_stream_record ''s1'' ''memory'' (minted_id FacadeResourceKind ''r'') False True"

definition sample_joined_record :: facade_stream_record where
  "sample_joined_record = collect_join (attach_background (bind_original_callback sample_stream_record))"

theorem facade_stream_settlement_is_exact_witness:
  "fst (settle_record sample_joined_record) = Err (cleanup_timeout sample_joined_record) \<and>
     fst (settle_record (original_callback_physically_closed sample_joined_record)) = Ok ()"
proof -
  have start: "reach record_opened record_step sample_stream_record"
    by (rule reach_init) (unfold record_opened_def sample_stream_record_def, blast)
  have joined: "reach record_opened record_step sample_joined_record"
    unfolding sample_joined_record_def
    by (rule reach_step [OF reach_step [OF reach_step [OF start rs_bind] rs_attach] rs_join])
      (simp_all add: sample_stream_record_def new_stream_record_def new_observation_def bind_original_callback_def
        attach_background_def)
  note parts = sample_joined_record_def sample_stream_record_def new_stream_record_def new_observation_def
    bind_original_callback_def attach_background_def collect_join_def original_callback_physically_closed_def
  from facade_stream_settlement_is_exact [OF joined] facade_stream_settlement_is_exact [OF reach_step [OF joined rs_closed]]
  show ?thesis by (simp add: parts)
qed

section \<open>What a pull tells\<close>

lemma observe_idem [simp]: "observe_facade_cancellation (observe_facade_cancellation st) = observe_facade_cancellation st"
  by (simp add: observe_facade_cancellation_def)

lemma observe_sequence [simp]: "st_last_sequence (observe_facade_cancellation st) = st_last_sequence st"
  by (simp add: observe_facade_cancellation_def)

lemma facade_stream_state_at:
  assumes "facade_stream h owner operation s = Ok st"
  shows "facade_stream_state h owner operation s =
      (Ok (st_last_sequence st, st_cancelled (observe_facade_cancellation st)), put_stream h (observe_facade_cancellation st) s)"
    "facade_stream h owner operation (put_stream h (observe_facade_cancellation st) s) = Ok (observe_facade_cancellation st)"
  using assms facade_stream_put [OF assms same_stream_observe]
  by (simp_all add: facade_stream_state_def with_facade_stream_def)

text \<open>A terminal names why the stream ended, and only a settled record ends it.\<close>

definition ends_with :: "(sdk_err \<Rightarrow> string + wire_value) \<Rightarrow> wire_handle \<Rightarrow> facade_stream_record \<Rightarrow> stream_entry \<Rightarrow>
    sdk_err option \<Rightarrow> wire_value \<Rightarrow> bool" where
  "ends_with project h r st cause ev =
     (\<exists>sequence error_value. checked_add (st_last_sequence st) 1 = Some sequence \<and> \<not> st_terminal st \<and>
        settled_or_observation r = Some (Ok ()) \<and>
        (case cause of None \<Rightarrow> error_value = None | Some e \<Rightarrow> \<exists>v. project e = Ok v \<and> error_value = Some v) \<and>
        ev = terminal_event h sequence (st_cancelled st) error_value)"

fun item_cause :: "(sdk_err + wire_value) option \<Rightarrow> sdk_err option" where
  "item_cause (Some (Inl e)) = Some e"
| "item_cause _ = None"

lemma settled_unaffected [simp]:
  "settled_or_observation (r\<lparr>fx_pending_failure := x\<rparr>) = settled_or_observation r"
  "settled_or_observation (r\<lparr>fx_cancel := c\<rparr>) = settled_or_observation r"
  "settled_or_observation (r\<lparr>fx_queue := q\<rparr>) = settled_or_observation r"
  by (simp_all add: settled_or_observation_def pending_observation_def)

lemma settle_record_Ok:
  "settle_record r = (Ok (), r1) \<longleftrightarrow> settled_or_observation r = Some (Ok ()) \<and> r1 = r\<lparr>fx_cancel := True\<rparr>"
  by (auto simp: settle_record_def option_default_def split: option.splits)

lemma put_record_registry [simp]: "sw_registry (put_record i r w) = sw_registry w"
  by (simp add: put_record_def)

lemma conclude_Ok:
  assumes "conclude project h owner operation item r w = (Ok ev, w')"
    and "facade_stream h (Some owner) operation (sw_registry w) = Ok st"
  shows "ends_with project h r (observe_facade_cancellation st) (item_cause item) ev"
proof -
  let ?st = "observe_facade_cancellation st"
  obtain ev_value where val: "case item_cause item of None \<Rightarrow> ev_value = None | Some e \<Rightarrow> \<exists>v. project e = Ok v \<and> ev_value = Some v"
    and rest: "(case settle_record r of
           (Inl e, r1) \<Rightarrow> (Err e, put_record (h_id h) r1 w)
         | (Inr _, r1) \<Rightarrow>
             let w1 = put_record (h_id h) r1 w in
             (case settle_facade_stream h (Some owner) False operation (sw_registry w1) of
                (Inl e, s) \<Rightarrow> (Err e, w1\<lparr>sw_registry := s\<rparr>)
              | (Inr (sequence, cancelled), s) \<Rightarrow>
                  (Ok (terminal_event h sequence cancelled ev_value),
                   snd (finish_record h owner operation r1 (w1\<lparr>sw_registry := s\<rparr>))))) = (Ok ev, w')"
    using assms(1) unfolding conclude_def
    by (cases item rule: item_cause.cases; cases "project (projl (the item))") (auto simp: map_ok_def map_err_def)
  from rest have settled: "settled_or_observation r = Some (Ok ())"
    by (cases "settled_or_observation r") (auto simp: settle_record_def option_default_def split: sum.splits)
  from rest obtain sequence cancelled s where
    st: "settle_facade_stream h (Some owner) False operation (sw_registry w) = (Ok (sequence, cancelled), s)"
    and ev: "ev = terminal_event h sequence cancelled ev_value"
    by (auto simp: settle_record_def settled option_default_def Let_def split: prod.splits sum.splits)
  from st have "\<not> st_terminal ?st \<and> checked_add (st_last_sequence ?st) 1 = Some sequence \<and> cancelled = st_cancelled ?st"
    by (auto simp: settle_facade_stream_def with_facade_stream_def settle_section_def assms(2) simp del: observe_sequence
        split: prod.splits if_splits option.splits)
  with val settled ev show ?thesis unfolding ends_with_def by blast
qed

text \<open>What a received item, or the end of the queue, is delivered as.\<close>

definition delivered :: "(sdk_err \<Rightarrow> string + wire_value) \<Rightarrow> wire_handle \<Rightarrow> facade_stream_record \<Rightarrow> stream_entry \<Rightarrow>
    (sdk_err + wire_value) option \<Rightarrow> wire_value \<Rightarrow> bool" where
  "delivered project h r st item ev =
     ((\<exists>v sequence. item = Some (Ok v) \<and> \<not> st_cancelled st \<and> checked_add (st_last_sequence st) 1 = Some sequence \<and>
         ev = stream_event h sequence ''item'' (Some v)) \<or>
      (ends_with project h r st (item_cause item) ev \<and> (is_ok (the item) \<and> item \<noteq> None \<longrightarrow> st_cancelled st)))"

lemma deliver_Ok:
  assumes "deliver project h owner operation (st_last_sequence st) item r w = (Ok ev, w')"
    and "facade_stream h (Some owner) operation (sw_registry w) = Ok st"
  shows "delivered project h r (observe_facade_cancellation st) item ev"
proof -
  let ?st = "observe_facade_cancellation st" and ?w = "w\<lparr>sw_registry := put_stream h (observe_facade_cancellation st) (sw_registry w)\<rparr>"
  note state = facade_stream_state_at [OF assms(2)]
  have at: "facade_stream h (Some owner) operation (sw_registry ?w) = Ok ?st" using state(2) by simp
  consider (failed) e where "item = Some (Err e)" | (eof) "item = None" | (received) v where "item = Some (Ok v)"
    by (cases item rule: item_cause.cases) auto
  then show ?thesis
  proof cases
    case (failed e)
    then have "conclude project h owner operation item (r\<lparr>fx_pending_failure := Some e\<rparr>) ?w = (Ok ev, w')"
      using assms(1) by (auto simp: deliver_def state(1) Let_def split: if_splits)
    from conclude_Ok [OF this at] failed show ?thesis by (simp add: delivered_def ends_with_def)
  next
    case eof
    then have "conclude project h owner operation item r ?w = (Ok ev, w')"
      using assms(1) by (auto simp: deliver_def state(1) Let_def)
    from conclude_Ok [OF this at] eof show ?thesis by (simp add: delivered_def)
  next
    case (received v)
    show ?thesis
    proof (cases "st_cancelled ?st")
      case True
      then have "conclude project h owner operation item r ?w = (Ok ev, w')"
        using assms(1) received by (auto simp: deliver_def state(1) Let_def)
      from conclude_Ok [OF this at] received True show ?thesis by (simp add: delivered_def)
    next
      case False
      then have "deliver_value project h owner operation (st_last_sequence st) v r ?w = (Ok ev, w')"
        using assms(1) received by (auto simp: deliver_def state(1) Let_def)
      then show ?thesis using False received at
        by (auto simp: deliver_value_def advance_facade_stream_def with_facade_stream_def advance_section_def handle_error_def
            delivered_def split: option.splits if_splits)
    qed
  qed
qed

text \<open>What a pull may answer.\<close>

definition cause_known :: "wire_handle \<Rightarrow> string \<Rightarrow> facade_stream_record \<Rightarrow> sdk_err \<Rightarrow> bool" where
  "cause_known h operation r e =
     (fx_pending_failure r = Some e \<or> (\<exists>xs. fx_queue r = Err e # xs) \<or>
      (\<exists>f. fx_producer_failure r = Some f \<and> e = producer_exit_error h operation f))"

definition completes :: "facade_stream_record \<Rightarrow> bool" where
  "completes r = (fx_pending_failure r = None \<and> fx_producer_failure r = None \<and> (fx_queue r = [] \<or> fx_cancel r))"

lemma receive_item_Ok:
  assumes "receive_item pick cancelled r = Some (Ok item, r1)"
  shows "settled_or_observation r1 = settled_or_observation r \<and> pending_observation r1 = pending_observation r \<and>
      fx_producer_failure r1 = fx_producer_failure r \<and> fx_cancel r1 = fx_cancel r"
    and "case item of
        Some (Inl e) \<Rightarrow> fx_pending_failure r = Some e \<or> (\<exists>xs. fx_queue r = Err e # xs)
      | Some (Inr v) \<Rightarrow> fx_pending_failure r = None \<and> (\<exists>xs. fx_queue r = Ok v # xs)
      | None \<Rightarrow> fx_pending_failure r = None \<and> (fx_queue r = [] \<or> cancelled)"
  using assms
  by (auto simp: receive_item_def settled_or_observation_def pending_observation_def
      split: option.splits list.splits if_splits sum.splits)

lemma after_eof_Ok:
  assumes "after_eof pick cancelled registry_cancelled h operation r = Some (Ok item)"
  shows "case item of
      None \<Rightarrow> registry_cancelled \<or> fx_producer_failure r = None
    | Some (Inl e) \<Rightarrow> \<exists>f. fx_producer_failure r = Some f \<and> e = producer_exit_error h operation f
    | Some (Inr v) \<Rightarrow> False"
  using assms by (auto simp: after_eof_def split: if_splits option.splits sum.splits)

text \<open>The local token of an unfinished stream that the registry has not cancelled.\<close>

lemma cleanup_cancelled_at:
  assumes "facade_stream h owner operation s = Ok st" and "\<not> st_cancelled (observe_facade_cancellation st)" and "\<not> st_terminal st"
  shows "cleanup_cancelled (put_stream h (observe_facade_cancellation st) s) h r = fx_cancel r"
  using assms by (auto simp: cleanup_cancelled_def put_stream_def observe_facade_cancellation_def split: if_splits)

lemma observe_terminal [simp]: "st_terminal (observe_facade_cancellation st) = st_terminal st"
  by (simp add: observe_facade_cancellation_def)

definition item_source ::
  "wire_handle \<Rightarrow> string \<Rightarrow> facade_stream_record \<Rightarrow> bool \<Rightarrow> bool \<Rightarrow> (sdk_err + wire_value) option \<Rightarrow> bool" where
  "item_source h operation r cancelled registry_cancelled item =
     (case item of
        Some (Inl e) \<Rightarrow> cause_known h operation r e
      | Some (Inr v) \<Rightarrow> fx_pending_failure r = None \<and> (\<exists>xs. fx_queue r = Ok v # xs)
      | None \<Rightarrow> fx_pending_failure r = None \<and> (fx_queue r = [] \<or> cancelled) \<and>
          (registry_cancelled \<or> fx_producer_failure r = None))"

lemma pull_item_source:
  assumes "receive_item pick cancelled r = Some (Ok item, r1)"
    and "(if item = None then after_eof pick cancelled registry_cancelled h operation r1 else Some (Ok item)) = Some (Ok item')"
  shows "item_source h operation r cancelled registry_cancelled item'"
proof (cases item)
  case None
  note got = receive_item_Ok [OF assms(1)]
  have pf: "fx_producer_failure r1 = fx_producer_failure r" using got(1) by blast
  from assms(2) None have "after_eof pick cancelled registry_cancelled h operation r1 = Some (Ok item')" by simp
  from after_eof_Ok [OF this] got(2) None pf show ?thesis
    by (cases item') (auto simp: item_source_def cause_known_def split: sum.splits)
next
  case (Some i)
  with assms(2) have "item' = Some i" by simp
  with receive_item_Ok(2) [OF assms(1)] Some show ?thesis
    by (auto simp: item_source_def cause_known_def split: sum.splits)
qed

lemma delivered_unaffected:
  "settled_or_observation r1 = settled_or_observation r \<Longrightarrow> delivered project h r1 st item ev = delivered project h r st item ev"
  by (simp add: delivered_def ends_with_def)

lemma pull_next_delivered:
  assumes "pull_next pick project h owner family operation w = Some (Ok ev, w')"
    and "stream_record h owner family operation w = Ok r"
    and "facade_stream h (Some owner) operation (sw_registry w) = Ok entry"
  defines "st \<equiv> observe_facade_cancellation entry"
  defines "c \<equiv> cleanup_cancelled (put_stream h st (sw_registry w)) h r"
  shows "pending_observation r = None \<and> (\<exists>item. delivered project h r st item ev \<and> item_source h operation r c (st_cancelled st) item)"
proof -
  have obs: "pending_observation r = None"
    using assms(1,2) by (cases "pending_observation r") (auto simp: pull_next_def)
  note state = facade_stream_state_at [OF assms(3), folded st_def]
  obtain item r1 item' where rcv: "receive_item pick c r = Some (Ok item, r1)"
    and eof: "(if item = None then after_eof pick c (st_cancelled st) h operation r1 else Some (Ok item)) = Some (Ok item')"
    and del: "deliver project h owner operation (st_last_sequence st) item' r1 (w\<lparr>sw_registry := put_stream h st (sw_registry w)\<rparr>) = (Ok ev, w')"
    using assms(1)
    by (auto simp: pull_next_def assms(2) obs state(1) Let_def c_def st_def split: option.splits sum.splits prod.splits if_splits)
  have "delivered project h r1 st item' ev"
    using deliver_Ok [OF del] state(2) by (simp add: st_def)
  moreover have "settled_or_observation r1 = settled_or_observation r" using receive_item_Ok(1) [OF rcv] by blast
  ultimately show ?thesis using obs pull_item_source [OF rcv eof] delivered_unaffected by blast
qed

text \<open>C21: the event a pull answers tells what happened. An \<open>item\<close> is the head of the producer's queue, of a stream
  that is not cancelled; any other event ends a stream whose producer is settled and that had no terminal: it
  says \<open>cancelled\<close> exactly when the registry has the stream cancelled, \<open>failed\<close> only with a cause that was
  received or that ended the producer, and \<open>complete\<close> only when the producer ended without a failure and
  nothing of its queue is left, unless an earlier close or settlement cancelled the local token. Each carries the sequence after the
  last one.
\<close>

theorem pulled_events_are_truthful:
  assumes "pull_next pick project h owner family operation w = Some (Ok ev, w')"
  shows "\<exists>r entry st sequence. stream_record h owner family operation w = Ok r \<and> pending_observation r = None \<and>
      facade_stream h (Some owner) operation (sw_registry w) = Ok entry \<and> st = observe_facade_cancellation entry \<and>
      unat sequence = unat (st_last_sequence entry) + 1 \<and>
      ((\<exists>v xs. ev = stream_event h sequence ''item'' (Some v) \<and> \<not> st_cancelled st \<and> fx_pending_failure r = None \<and>
          fx_queue r = Ok v # xs) \<or>
       fx_settled r \<and> \<not> st_terminal entry \<and>
       (if st_cancelled st then ev = stream_event h sequence ''cancelled'' None
        else (\<exists>e v. ev = stream_event h sequence ''failed'' (Some v) \<and> project e = Ok v \<and> cause_known h operation r e) \<or>
             (ev = stream_event h sequence ''complete'' None \<and> completes r)))"
proof -
  obtain r where rec: "stream_record h owner family operation w = Ok r"
    using assms by (cases "stream_record h owner family operation w") (auto simp: pull_next_def)
  then obtain entry where ent: "facade_stream h (Some owner) operation (sw_registry w) = Ok entry"
    by (auto simp: stream_record_def and_then_eq_Ok)
  define st where "st = observe_facade_cancellation entry"
  have obs: "pending_observation r = None" using pull_next_delivered [OF assms rec ent] by blast
  obtain item where told: "delivered project h r st item ev"
    and src: "item_source h operation r (cleanup_cancelled (put_stream h st (sw_registry w)) h r) (st_cancelled st) item"
    using pull_next_delivered [OF assms rec ent] unfolding st_def by blast
  from told [unfolded delivered_def] show ?thesis
  proof
    assume "\<exists>v sequence. item = Some (Ok v) \<and> \<not> st_cancelled st \<and> checked_add (st_last_sequence st) 1 = Some sequence \<and>
         ev = stream_event h sequence ''item'' (Some v)"
    with src rec obs ent show ?thesis
      by (fastforce simp: st_def item_source_def checked_add_Some)
  next
    assume e: "ends_with project h r st (item_cause item) ev \<and> (is_ok (the item) \<and> item \<noteq> None \<longrightarrow> st_cancelled st)"
    then obtain sequence ev_value where t: "checked_add (st_last_sequence entry) 1 = Some sequence" "\<not> st_terminal entry"
        "settled_or_observation r = Some (Ok ())" "ev = terminal_event h sequence (st_cancelled st) ev_value"
      and val: "case item_cause item of None \<Rightarrow> ev_value = None | Some e \<Rightarrow> \<exists>v. project e = Ok v \<and> ev_value = Some v"
      by (auto simp: ends_with_def st_def)
    have settled: "fx_settled r" using t(3) obs by (auto simp: settled_or_observation_def split: if_splits)
    have tail: "(\<exists>e v. ev_value = Some v \<and> project e = Ok v \<and> cause_known h operation r e) \<or> (ev_value = None \<and> completes r)"
      if nc: "\<not> st_cancelled st"
      using src val e nc cleanup_cancelled_at [OF ent, folded st_def, OF nc t(2)]
      by (cases item rule: item_cause.cases) (auto simp: item_source_def completes_def)
    show ?thesis
      by (intro exI [of _ r] exI [of _ entry] exI [of _ st] exI [of _ sequence])
        (use rec obs ent settled t tail in \<open>auto simp: checked_add_Some terminal_event_def st_def\<close>)
  qed
qed

definition sample_owned_registry :: "nat handle_inner" where
  "sample_owned_registry = sample_with_resource\<lparr>hi_streams := [(minted_id StreamKind ''s'',
     new_facade_stream (minted_id FacadeResourceKind ''r'') (Some ''s1''))]\<rparr>"

definition sample_stream_world :: "nat stream_world" where
  "sample_stream_world = \<lparr>sw_registry = sample_owned_registry,
     sw_streams = [(minted_id StreamKind ''s'', send_item (Ok (WBool True)) sample_stream_record)], sw_max_streams = 4\<rparr>"

lemma sample_owned_resolves:
  "facade_stream sample_stream_handle (Some ''s1'') op sample_owned_registry =
     Ok (new_facade_stream (minted_id FacadeResourceKind ''r'') (Some ''s1''))"
proof -
  have gen: "hi_generation sample_owned_registry = 7"
    by (simp add: sample_owned_registry_def sample_with_resource_fields)
  show ?thesis
    by (simp add: facade_stream_def checked_lookup_def lookup_def sample_handles_shape gen)
      (simp add: sample_owned_registry_def sample_stream_handle_def new_facade_stream_def)
qed

lemma sample_record_found:
  "stream_record sample_stream_handle ''s1'' ''memory'' op sample_stream_world =
     Ok (send_item (Ok (WBool True)) sample_stream_record)"
  by (simp add: stream_record_def sample_stream_world_def sample_owned_resolves)
    (simp add: sample_stream_handle_def send_item_def sample_stream_record_def new_stream_record_def)

lemma sample_pull:
  "\<exists>ev w'. pull_next False (\<lambda>_. Err []) sample_stream_handle ''s1'' ''memory'' op sample_stream_world = Some (Ok ev, w')"
proof -
  let ?st = "new_facade_stream (minted_id FacadeResourceKind ''r'') (Some ''s1'')"
  let ?r = "send_item (Ok (WBool True)) sample_stream_record"
  have reg: "sw_registry sample_stream_world = sample_owned_registry" by (simp add: sample_stream_world_def)
  have o: "observe_facade_cancellation ?st = ?st" by (simp add: observe_facade_cancellation_def new_facade_stream_def)
  have cn: "\<not> st_cancelled ?st" "st_last_sequence ?st = 0" "\<not> st_terminal ?st" by (simp_all add: new_facade_stream_def)
  note state = facade_stream_state_at [OF sample_owned_resolves [of op], unfolded o]
  have pend: "pending_observation ?r = None" "fx_pending_failure ?r = None" "fx_queue ?r = [Ok (WBool True)]" "\<not> fx_cancel ?r"
    by (simp_all add: pending_observation_def send_item_def sample_stream_record_def new_stream_record_def new_observation_def)
  have c: "\<not> cleanup_cancelled (put_stream sample_stream_handle ?st sample_owned_registry) sample_stream_handle ?r"
    using pend(4) by (simp add: cleanup_cancelled_def put_stream_def) (simp add: new_facade_stream_def)
  have one: "checked_add (0 :: u64) 1 = Some 1" by (simp add: checked_add_Some)
  show ?thesis
    by (simp add: pull_next_def sample_record_found pend reg state cn c receive_item_def deliver_def deliver_value_def
        facade_stream_state_at [OF state(2), unfolded o] one Let_def advance_facade_stream_def with_facade_stream_def
        facade_stream_state_at(2) [OF state(2), unfolded o] o advance_section_def)
qed

theorem pulled_events_are_truthful_witness:
  "\<exists>ev w'. pull_next False (\<lambda>_. Err []) sample_stream_handle ''s1'' ''memory'' ''memory.stream.next'' sample_stream_world =
      Some (Ok ev, w') \<and> ev = stream_event sample_stream_handle 1 ''item'' (Some (WBool True))"
proof -
  obtain ev w' where p: "pull_next False (\<lambda>_. Err []) sample_stream_handle ''s1'' ''memory'' ''memory.stream.next''
      sample_stream_world = Some (Ok ev, w')" using sample_pull by blast
  have reg: "sw_registry sample_stream_world = sample_owned_registry" by (simp add: sample_stream_world_def)
  let ?st = "new_facade_stream (minted_id FacadeResourceKind ''r'') (Some ''s1'')"
  let ?r = "send_item (Ok (WBool True)) sample_stream_record"
  have facts: "\<not> st_cancelled (observe_facade_cancellation ?st)" "st_last_sequence ?st = 0" "\<not> completes ?r"
    "fx_queue ?r = [Ok (WBool True)]" "\<not> cause_known h op' ?r e" for h op' e
    by (simp_all add: completes_def cause_known_def observe_facade_cancellation_def new_facade_stream_def send_item_def
        sample_stream_record_def new_stream_record_def)
  have "unat q = unat (1 :: u64) \<longleftrightarrow> q = 1" for q :: u64 by (rule word_eq_iff_unsigned [symmetric])
  with pulled_events_are_truthful [OF p] facts
  have "ev = stream_event sample_stream_handle 1 ''item'' (Some (WBool True))"
    by (auto simp: sample_record_found reg sample_owned_resolves unat_1)
  with p show ?thesis by blast
qed

section \<open>The answer of a close\<close>

text \<open>
  An ephemeral stream is closed with its resource, and the cascade of the resource takes the stream with it: the
  close that released both never answers \<open>true\<close>, the answer of the close that releases any other stream.
\<close>

lemma ephemeral_close_never_answers_true:
  assumes "fx_close_resource r" and "facade_stream h (Some owner) operation (sw_registry w) = Ok st"
    and "st_resource_id st = Some (fx_resource_id r)" and "hmem (fx_resource_id r) (hi_facade_resources (sw_registry w))"
    and "hwf (hi_streams (sw_registry w))"
  shows "fst (finish_record h owner operation r w) \<noteq> Ok True"
proof -
  let ?h = "\<lparr>h_id = fx_resource_id r, h_generation = h_generation h, h_kind = FacadeResourceKind\<rparr>"
  obtain res s where c: "close_facade_resource ?h operation (sw_registry w) = (res, s)" by fastforce
  have "hget (hi_streams s) (h_id h) = None" if "res = Ok b" for b
  proof -
    from c that assms(4) have "res = Ok True" by (auto simp: close_facade_resource_def Let_def split: sum.splits if_splits)
    from close_facade_resource_effect(2) [OF c [unfolded this]] facade_stream_Ok [OF assms(2)] assms(3,5)
    show ?thesis by (auto simp: hget_fold_hdel streams_where_mem [OF assms(5)] of_resource_def)
  qed
  then show ?thesis using assms(1) c
    by (cases res)
      (auto simp: finish_record_def close_facade_stream_def split: sum.splits if_splits prod.splits option.splits)
qed

end
