(* ===== verification/Reverse_Calls.thy ===== *)
theory Reverse_Calls
  imports Extension_Wire Framework_Wire Host_Config
begin

text \<open>
  The vocabulary of reverse invocations: the operations of the extension kinds with their wire names
  (\<open>echo-sdk-protocol/src/methods.rs\<close>), the call the Host sends and the outcome it receives with their
  validation, and what the bridge makes of an outcome (\<open>core_profile/extension_bridge.rs\<close>). The inputs and
  results of the operations are opaque: of them the bridge knows the operation and the serialized length.
  The lease of an invocation belongs to the framework and is an argument.
\<close>

section \<open>Operations\<close>

datatype extension_operation =
    OpToolExecute | OpToolExecuteStream | OpToolValidateParameters | OpLlmChat | OpLlmChatStream
    | OpStorePut | OpStoreGet | OpStoreSearch | OpStoreSearchWith | OpStoreDelete | OpStoreListNamespaces
    | OpStoreList | OpStorePruneExpired | OpStoreDedupByContent | OpHumanLoopRequest | OpHookRun
    | OpCallbackOnThinkStart | OpCallbackOnThinkEnd | OpCallbackOnToolStart | OpCallbackOnToolEnd
    | OpCallbackOnToolError | OpCallbackOnToolInterrupted | OpCallbackOnFinalAnswer | OpCallbackOnIteration
    | OpInterventionOnToolCall | OpInterventionOnThinkStart | OpInterventionOnFinalAnswer
    | OpFactoryCreateAgent | OpAgentExecute | OpAgentExecuteStream | OpAgentChat | OpAgentChatStream
    | OpAgentClose | OpCriticCritique | OpChannelStart | OpChannelStop | OpChannelSend | OpChannelHealth
    | OpChannelHandle | OpChannelHandleStream | OpChannelReply | OpCompressorCompress | OpAgentComponentCall
    | OpAgentComponentCallStream

fun operation_str :: "extension_operation \<Rightarrow> string" where
  "operation_str OpToolExecute = ''tool_execute''"
| "operation_str OpToolExecuteStream = ''tool_execute_stream''"
| "operation_str OpToolValidateParameters = ''tool_validate_parameters''"
| "operation_str OpLlmChat = ''llm_chat''"
| "operation_str OpLlmChatStream = ''llm_chat_stream''"
| "operation_str OpStorePut = ''store_put''"
| "operation_str OpStoreGet = ''store_get''"
| "operation_str OpStoreSearch = ''store_search''"
| "operation_str OpStoreSearchWith = ''store_search_with''"
| "operation_str OpStoreDelete = ''store_delete''"
| "operation_str OpStoreListNamespaces = ''store_list_namespaces''"
| "operation_str OpStoreList = ''store_list''"
| "operation_str OpStorePruneExpired = ''store_prune_expired''"
| "operation_str OpStoreDedupByContent = ''store_dedup_by_content''"
| "operation_str OpHumanLoopRequest = ''human_loop_request''"
| "operation_str OpHookRun = ''hook_run''"
| "operation_str OpCallbackOnThinkStart = ''callback_on_think_start''"
| "operation_str OpCallbackOnThinkEnd = ''callback_on_think_end''"
| "operation_str OpCallbackOnToolStart = ''callback_on_tool_start''"
| "operation_str OpCallbackOnToolEnd = ''callback_on_tool_end''"
| "operation_str OpCallbackOnToolError = ''callback_on_tool_error''"
| "operation_str OpCallbackOnToolInterrupted = ''callback_on_tool_interrupted''"
| "operation_str OpCallbackOnFinalAnswer = ''callback_on_final_answer''"
| "operation_str OpCallbackOnIteration = ''callback_on_iteration''"
| "operation_str OpInterventionOnToolCall = ''intervention_on_tool_call''"
| "operation_str OpInterventionOnThinkStart = ''intervention_on_think_start''"
| "operation_str OpInterventionOnFinalAnswer = ''intervention_on_final_answer''"
| "operation_str OpFactoryCreateAgent = ''factory_create_agent''"
| "operation_str OpAgentExecute = ''agent_execute''"
| "operation_str OpAgentExecuteStream = ''agent_execute_stream''"
| "operation_str OpAgentChat = ''agent_chat''"
| "operation_str OpAgentChatStream = ''agent_chat_stream''"
| "operation_str OpAgentClose = ''agent_close''"
| "operation_str OpCriticCritique = ''critic_critique''"
| "operation_str OpChannelStart = ''channel_start''"
| "operation_str OpChannelStop = ''channel_stop''"
| "operation_str OpChannelSend = ''channel_send''"
| "operation_str OpChannelHealth = ''channel_health''"
| "operation_str OpChannelHandle = ''channel_handle''"
| "operation_str OpChannelHandleStream = ''channel_handle_stream''"
| "operation_str OpChannelReply = ''channel_reply''"
| "operation_str OpCompressorCompress = ''compressor_compress''"
| "operation_str OpAgentComponentCall = ''agent_component_call''"
| "operation_str OpAgentComponentCallStream = ''agent_component_call_stream''"

fun operation_kind :: "extension_operation \<Rightarrow> extension_kind" where
  "operation_kind OpToolExecute = KTool"
| "operation_kind OpToolExecuteStream = KTool"
| "operation_kind OpToolValidateParameters = KTool"
| "operation_kind OpLlmChat = KLlmClient"
| "operation_kind OpLlmChatStream = KLlmClient"
| "operation_kind OpStorePut = KStore"
| "operation_kind OpStoreGet = KStore"
| "operation_kind OpStoreSearch = KStore"
| "operation_kind OpStoreSearchWith = KStore"
| "operation_kind OpStoreDelete = KStore"
| "operation_kind OpStoreListNamespaces = KStore"
| "operation_kind OpStoreList = KStore"
| "operation_kind OpStorePruneExpired = KStore"
| "operation_kind OpStoreDedupByContent = KStore"
| "operation_kind OpHumanLoopRequest = KHumanLoopProvider"
| "operation_kind OpHookRun = KHook"
| "operation_kind OpCallbackOnThinkStart = KAgentCallback"
| "operation_kind OpCallbackOnThinkEnd = KAgentCallback"
| "operation_kind OpCallbackOnToolStart = KAgentCallback"
| "operation_kind OpCallbackOnToolEnd = KAgentCallback"
| "operation_kind OpCallbackOnToolError = KAgentCallback"
| "operation_kind OpCallbackOnToolInterrupted = KAgentCallback"
| "operation_kind OpCallbackOnFinalAnswer = KAgentCallback"
| "operation_kind OpCallbackOnIteration = KAgentCallback"
| "operation_kind OpInterventionOnToolCall = KInterventionCallback"
| "operation_kind OpInterventionOnThinkStart = KInterventionCallback"
| "operation_kind OpInterventionOnFinalAnswer = KInterventionCallback"
| "operation_kind OpFactoryCreateAgent = KAgentFactory"
| "operation_kind OpAgentExecute = KCustomAgent"
| "operation_kind OpAgentExecuteStream = KCustomAgent"
| "operation_kind OpAgentChat = KCustomAgent"
| "operation_kind OpAgentChatStream = KCustomAgent"
| "operation_kind OpAgentClose = KCustomAgent"
| "operation_kind OpCriticCritique = KCritic"
| "operation_kind OpChannelStart = KChannelPlugin"
| "operation_kind OpChannelStop = KChannelPlugin"
| "operation_kind OpChannelSend = KChannelPlugin"
| "operation_kind OpChannelHealth = KChannelPlugin"
| "operation_kind OpChannelHandle = KChannelMessageHandler"
| "operation_kind OpChannelHandleStream = KChannelMessageHandler"
| "operation_kind OpChannelReply = KChannelMessageHandler"
| "operation_kind OpCompressorCompress = KContextCompressor"
| "operation_kind OpAgentComponentCall = KAgentComponent"
| "operation_kind OpAgentComponentCallStream = KAgentComponent"

definition is_streaming :: "extension_operation \<Rightarrow> bool" where
  "is_streaming operation = (operation \<in>
     {OpToolExecuteStream, OpLlmChatStream, OpAgentExecuteStream, OpAgentChatStream, OpChannelHandleStream
      , OpAgentComponentCallStream})"

text \<open>The operations on Agent components.\<close>

datatype component_operation =
    CoConversationEnsureProjectionEpochWithContext | CoConversationGetProjectionAuthorityWithContext
    | CoConversationApplyTranscriptProjectionWithContext | CoConversationDeleteManagedWithContext
    | CoRuntimeLoadManagedStateWithContext | CoRuntimeLoadScopeAuthorityWithContext
    | CoRuntimeCompareAndSaveCheckpointWithContext | CoRuntimeAcknowledgeTranscriptProjectionWithContext
    | CoRuntimeRetireGenerationWithContext | CoRuntimeBeginScopeRetirementWithContext
    | CoRuntimeContinueScopeRetirementWithContext | CoConversationCreate | CoConversationGet
    | CoConversationList | CoConversationUpdate | CoConversationDelete | CoConversationSaveMessages
    | CoConversationGetMessages | CoConversationCountMessages | CoConversationEnsure | CoConversationSearch
    | CoRunSave | CoRunLoad | CoRunListBySession | CoRunListAll | CoRunAppendEvent | CoRunListByParent
    | CoRuntimeGetCheckpoint | CoRuntimeSaveCheckpoint | CoRuntimeSaveCheckpointForScope | CoRuntimeStateIds
    | CoRuntimeClearState | CoRuntimeClearScope | CoRuntimeClearConversation | CoAuditLog | CoAuditQuery
    | CoContextProject | CoMemoryTrigger | CoGuardCheck | CoSearchProviderSearch | CoWorkflowCheckpointSave
    | CoWorkflowCheckpointSaveIfGeneration | CoWorkflowCheckpointLoad | CoWorkflowCheckpointClaim
    | CoWorkflowCheckpointAckClaim | CoWorkflowCheckpointRequeueClaim | CoWorkflowCheckpointRenewClaim
    | CoWorkflowCheckpointProtectClaim | CoWorkflowCheckpointList | CoWorkflowCheckpointListByGraph
    | CoWorkflowCheckpointListFiltered | CoWorkflowCheckpointDelete | CoWorkflowCheckpointClear
    | CoRevisionedTaskLoad | CoRevisionedTaskCompareAndCommit | CoRevisionedTaskCompareAndCommitExecution
    | CoSandboxIsAvailable | CoSandboxExecute | CoSandboxExecuteStream | CoSandboxExecuteWithLimits
    | CoSandboxExecuteWithLimitsAndCancel | CoSandboxCleanup | CoMcpTransportSend | CoMcpTransportNotify
    | CoMcpTransportClose | CoMcpTransportTryNotification | CoEmbedderEmbed | CoMemoryPromoterPromote
    | CoWorkflowRun | CoWorkflowRunStream | CoIntentClassify | CoSkillLoadAllows

fun component_of :: "component_operation \<Rightarrow> component_kind" where
  "component_of CoConversationEnsureProjectionEpochWithContext = ConversationStore"
| "component_of CoConversationGetProjectionAuthorityWithContext = ConversationStore"
| "component_of CoConversationApplyTranscriptProjectionWithContext = ConversationStore"
| "component_of CoConversationDeleteManagedWithContext = ConversationStore"
| "component_of CoRuntimeLoadManagedStateWithContext = RuntimeStateStore"
| "component_of CoRuntimeLoadScopeAuthorityWithContext = RuntimeStateStore"
| "component_of CoRuntimeCompareAndSaveCheckpointWithContext = RuntimeStateStore"
| "component_of CoRuntimeAcknowledgeTranscriptProjectionWithContext = RuntimeStateStore"
| "component_of CoRuntimeRetireGenerationWithContext = RuntimeStateStore"
| "component_of CoRuntimeBeginScopeRetirementWithContext = RuntimeStateStore"
| "component_of CoRuntimeContinueScopeRetirementWithContext = RuntimeStateStore"
| "component_of CoConversationCreate = ConversationStore"
| "component_of CoConversationGet = ConversationStore"
| "component_of CoConversationList = ConversationStore"
| "component_of CoConversationUpdate = ConversationStore"
| "component_of CoConversationDelete = ConversationStore"
| "component_of CoConversationSaveMessages = ConversationStore"
| "component_of CoConversationGetMessages = ConversationStore"
| "component_of CoConversationCountMessages = ConversationStore"
| "component_of CoConversationEnsure = ConversationStore"
| "component_of CoConversationSearch = ConversationStore"
| "component_of CoRunSave = RunStore"
| "component_of CoRunLoad = RunStore"
| "component_of CoRunListBySession = RunStore"
| "component_of CoRunListAll = RunStore"
| "component_of CoRunAppendEvent = RunStore"
| "component_of CoRunListByParent = RunStore"
| "component_of CoRuntimeGetCheckpoint = RuntimeStateStore"
| "component_of CoRuntimeSaveCheckpoint = RuntimeStateStore"
| "component_of CoRuntimeSaveCheckpointForScope = RuntimeStateStore"
| "component_of CoRuntimeStateIds = RuntimeStateStore"
| "component_of CoRuntimeClearState = RuntimeStateStore"
| "component_of CoRuntimeClearScope = RuntimeStateStore"
| "component_of CoRuntimeClearConversation = RuntimeStateStore"
| "component_of CoAuditLog = AuditLogger"
| "component_of CoAuditQuery = AuditLogger"
| "component_of CoContextProject = ContextProjector"
| "component_of CoMemoryTrigger = MemoryTriggerSink"
| "component_of CoGuardCheck = Guard"
| "component_of CoSearchProviderSearch = SearchProvider"
| "component_of CoWorkflowCheckpointSave = WorkflowCheckpointStore"
| "component_of CoWorkflowCheckpointSaveIfGeneration = WorkflowCheckpointStore"
| "component_of CoWorkflowCheckpointLoad = WorkflowCheckpointStore"
| "component_of CoWorkflowCheckpointClaim = WorkflowCheckpointStore"
| "component_of CoWorkflowCheckpointAckClaim = WorkflowCheckpointStore"
| "component_of CoWorkflowCheckpointRequeueClaim = WorkflowCheckpointStore"
| "component_of CoWorkflowCheckpointRenewClaim = WorkflowCheckpointStore"
| "component_of CoWorkflowCheckpointProtectClaim = WorkflowCheckpointStore"
| "component_of CoWorkflowCheckpointList = WorkflowCheckpointStore"
| "component_of CoWorkflowCheckpointListByGraph = WorkflowCheckpointStore"
| "component_of CoWorkflowCheckpointListFiltered = WorkflowCheckpointStore"
| "component_of CoWorkflowCheckpointDelete = WorkflowCheckpointStore"
| "component_of CoWorkflowCheckpointClear = WorkflowCheckpointStore"
| "component_of CoRevisionedTaskLoad = RevisionedTaskStore"
| "component_of CoRevisionedTaskCompareAndCommit = RevisionedTaskStore"
| "component_of CoRevisionedTaskCompareAndCommitExecution = RevisionedTaskStore"
| "component_of CoSandboxIsAvailable = SandboxExecutor"
| "component_of CoSandboxExecute = SandboxExecutor"
| "component_of CoSandboxExecuteStream = SandboxExecutor"
| "component_of CoSandboxExecuteWithLimits = SandboxExecutor"
| "component_of CoSandboxExecuteWithLimitsAndCancel = SandboxExecutor"
| "component_of CoSandboxCleanup = SandboxExecutor"
| "component_of CoMcpTransportSend = McpTransport"
| "component_of CoMcpTransportNotify = McpTransport"
| "component_of CoMcpTransportClose = McpTransport"
| "component_of CoMcpTransportTryNotification = McpTransport"
| "component_of CoEmbedderEmbed = Embedder"
| "component_of CoMemoryPromoterPromote = MemoryPromoter"
| "component_of CoWorkflowRun = Workflow"
| "component_of CoWorkflowRunStream = Workflow"
| "component_of CoIntentClassify = IntentClassifier"
| "component_of CoSkillLoadAllows = SkillLoadPolicy"

section \<open>The context of a call\<close>

record invocation_context =
  ic_session_id :: "string option"
  ic_run_id :: "string option"
  ic_stream_id :: "string option"
  ic_turn_id :: "string option"
  ic_message_id :: "string option"
  ic_execution_id :: "string option"
  ic_call_id :: "string option"

text \<open>The first identity that is empty or too long, in the order of the fields.\<close>

fun check_identities :: "(string \<times> string option) list \<Rightarrow> string + unit" where
  "check_identities [] = Ok ()"
| "check_identities ((name, value) # rest) =
     (if (case value of None \<Rightarrow> False | Some i \<Rightarrow> blank i \<or> 256 < length i)
      then Err (name @ '' is empty or exceeds its bound'')
      else check_identities rest)"

definition validate_context :: "invocation_context \<Rightarrow> string + unit" where
  "validate_context c =
     check_identities
       [(''session_id'', ic_session_id c), (''run_id'', ic_run_id c), (''stream_id'', ic_stream_id c),
        (''turn_id'', ic_turn_id c), (''message_id'', ic_message_id c), (''execution_id'', ic_execution_id c),
        (''call_id'', ic_call_id c)]"

section \<open>Calls\<close>

text \<open>
  \<open>ExtensionInvocation\<close>: the creation of an Agent by a factory names the reserved instance, a call of an
  Agent component its kind and operation, and the other operations have inputs the bridge does not look at.
\<close>

datatype 'i invocation =
    InvokeFactory wire_handle 'i
  | InvokeComponent component_kind component_operation 'i
  | InvokeComponentStream component_kind component_operation 'i
  | InvokeOther extension_operation 'i

fun invocation_operation :: "'i invocation \<Rightarrow> extension_operation" where
  "invocation_operation (InvokeFactory _ _) = OpFactoryCreateAgent"
| "invocation_operation (InvokeComponent _ _ _) = OpAgentComponentCall"
| "invocation_operation (InvokeComponentStream _ _ _) = OpAgentComponentCallStream"
| "invocation_operation (InvokeOther operation _) = operation"

record 'i invoke_call =
  iv_factory_origin :: "wire_handle option"
  iv_extension :: wire_handle
  iv_invocation_id :: string
  iv_context :: "invocation_context option"
  iv_invocation :: "'i invocation"
  iv_deadline :: wire_duration
  iv_stream :: "wire_handle option"

definition agent_instance_operations :: "extension_operation set" where
  "agent_instance_operations = {OpAgentExecute, OpAgentExecuteStream, OpAgentChat, OpAgentChatStream, OpAgentClose}"

fun check_factory_instance :: "wire_handle \<Rightarrow> 'i invocation \<Rightarrow> string + unit" where
  "check_factory_instance extension (InvokeFactory inst _) =
     and_then (map_err (\<lambda>_. ''invalid factory instance handle'') (validate_handle inst)) (\<lambda>_.
       reject_if (h_kind inst \<noteq> ExtensionKindOf \<or> h_generation inst \<noteq> h_generation extension \<or> h_id inst = h_id extension)
         ''factory create requires a reserved distinct same-generation instance'')"
| "check_factory_instance _ _ = Ok ()"

definition check_factory_origin :: "'i invoke_call \<Rightarrow> string + unit" where
  "check_factory_origin c =
     (case iv_factory_origin c of
        None \<Rightarrow> Ok ()
      | Some origin \<Rightarrow>
          and_then (map_err (\<lambda>_. ''invalid factory origin handle'') (validate_handle origin)) (\<lambda>_.
            reject_if (h_kind origin \<noteq> ExtensionKindOf \<or> h_generation origin \<noteq> h_generation (iv_extension c) \<or>
                h_id origin = h_id (iv_extension c) \<or>
                invocation_operation (iv_invocation c) \<notin> agent_instance_operations)
              ''factory origin requires a distinct same-generation Agent instance''))"

definition check_call_stream :: "'i invoke_call \<Rightarrow> string + unit" where
  "check_call_stream c =
     (if \<not> is_streaming (invocation_operation (iv_invocation c))
      then reject_if (iv_stream c \<noteq> None) ''non-streaming operations must not carry a stream handle''
      else case iv_stream c of
        None \<Rightarrow> Err ''streaming operations require a stream handle''
      | Some h \<Rightarrow>
          and_then (map_err (\<lambda>_. ''invalid stream handle'') (validate_handle h)) (\<lambda>_.
            reject_if (h_kind h \<noteq> StreamKind) ''streaming operations require a stream-kind handle''))"

definition validate_call :: "('i invocation \<Rightarrow> nat option) \<Rightarrow> 'i invoke_call \<Rightarrow> string + unit" where
  "validate_call encoded_len c =
     (if blank (iv_invocation_id c) \<or> max_extension_implementation_id_chars < length (iv_invocation_id c)
      then Err ''invocation_id must be non-empty and bounded''
      else
        and_then (map_err (\<lambda>_. ''invalid extension handle'') (validate_handle (iv_extension c))) (\<lambda>_.
        and_then (reject_if (h_kind (iv_extension c) \<noteq> ExtensionKindOf) ''invoke requires an extension handle'') (\<lambda>_.
        and_then (case iv_context c of None \<Rightarrow> Ok () | Some context \<Rightarrow> validate_context context) (\<lambda>_.
        and_then (check_factory_instance (iv_extension c) (iv_invocation c)) (\<lambda>_.
        and_then (check_factory_origin c) (\<lambda>_.
        and_then (check_call_stream c) (\<lambda>_.
        and_then (ok_or (encoded_len (iv_invocation c)) ''payload is not encodable'') (\<lambda>n.
        and_then (reject_if (max_extension_payload_bytes < n) ''invocation payload exceeds the serialized bound'') (\<lambda>_.
          map_err (\<lambda>_. ''invocation deadline is out of range'') (validate_duration (iv_deadline c)))))))))))"

section \<open>Which calls are special\<close>

text \<open>Calls whose Rust contract has no slot for an error: an unknown outcome must not become a value.\<close>

fun cannot_return_observation :: "'i invocation \<Rightarrow> bool" where
  "cannot_return_observation (InvokeOther operation _) =
     (operation \<in> {OpHookRun, OpCallbackOnThinkStart, OpCallbackOnThinkEnd, OpCallbackOnToolStart, OpCallbackOnToolEnd,
        OpCallbackOnToolError, OpCallbackOnToolInterrupted, OpCallbackOnFinalAnswer, OpCallbackOnIteration,
        OpInterventionOnToolCall, OpInterventionOnThinkStart, OpInterventionOnFinalAnswer})"
| "cannot_return_observation (InvokeComponent component operation _) =
     (component = RevisionedTaskStore \<or> operation \<in> {CoIntentClassify, CoSkillLoadAllows})"
| "cannot_return_observation _ = False"

text \<open>Calls whose execution the remote side owns physically.\<close>

fun owns_physical_execution :: "'i invocation \<Rightarrow> bool" where
  "owns_physical_execution (InvokeFactory _ _) = True"
| "owns_physical_execution (InvokeOther operation _) =
     (operation \<in> {OpAgentExecute, OpAgentChat, OpAgentClose, OpToolExecute, OpLlmChat})"
| "owns_physical_execution (InvokeComponent _ operation _) =
     (operation \<in> {CoSandboxExecute, CoSandboxExecuteWithLimits, CoSandboxExecuteWithLimitsAndCancel, CoSandboxCleanup,
        CoWorkflowRun})"
| "owns_physical_execution (InvokeComponentStream _ _ _) = False"

definition is_exclusive_invocation :: "extension_kind \<Rightarrow> 'i invocation \<Rightarrow> bool" where
  "is_exclusive_invocation kind invocation =
     (if kind = KAgentComponent
      then (case invocation of
              InvokeComponent component _ _ \<Rightarrow> component = Workflow
            | InvokeComponentStream component _ _ \<Rightarrow> component = Workflow
            | _ \<Rightarrow> False)
      else kind \<in> {KHumanLoopProvider, KCustomAgent, KHook, KChannelPlugin, KContextCompressor})"

section \<open>Outcomes\<close>

datatype 'r invoke_outcome =
    OutResult 'r
  | OutStream wire_handle
  | OutError sdk_err

text \<open>Of a result the bridge knows the operation and the serialized length, none when it does not encode.\<close>

record 'r result_facts =
  rf_operation :: "'r \<Rightarrow> extension_operation"
  rf_len :: "'r \<Rightarrow> nat option"

fun validate_outcome :: "'r result_facts \<Rightarrow> 'r invoke_outcome \<Rightarrow> string + unit" where
  "validate_outcome rf (OutResult result) =
     and_then (ok_or (rf_len rf result) ''callback result is not encodable'') (\<lambda>n.
       reject_if (max_extension_payload_bytes < n) ''callback result exceeds the serialized bound'')"
| "validate_outcome rf (OutStream h) =
     and_then (validate_handle h) (\<lambda>_.
       reject_if (h_kind h \<noteq> StreamKind) ''stream outcome requires a stream handle'')"
| "validate_outcome rf (OutError e) = validate_sdk_err e"

abbreviation (input) "invoke_method \<equiv> ''_echo_agent/extension/invoke''"

definition invoke_error :: "error_code \<Rightarrow> string \<Rightarrow> sdk_err" where
  "invoke_error code message = sdk_error code message Never invoke_method"

text \<open>The lease of an invocation: how it settles, at most once.\<close>

datatype settlement = Answered | CancelledSettlement | TimedOut | Disconnected

record 'l lease_ops =
  lo_settle :: "settlement \<Rightarrow> 'l \<Rightarrow> bool \<times> 'l"
  lo_settlement :: "'l \<Rightarrow> settlement option"

fun settlement_error :: "settlement option \<Rightarrow> sdk_err" where
  "settlement_error (Some CancelledSettlement) =
     invoke_error error_code.Cancelled ''extension invocation was cancelled before its response was applied''"
| "settlement_error (Some TimedOut) =
     invoke_error ExtensionTimeout ''extension invocation exceeded its deadline before its response was applied''"
| "settlement_error (Some Disconnected) =
     invoke_error ExtensionDisconnected ''extension connection closed before its response was applied''"
| "settlement_error _ =
     invoke_error ExtensionFailed ''extension invocation settled concurrently without a usable response''"

text \<open>\<open>limit\<close> is the configured payload bound, an error when the profile state is gone.\<close>

definition ensure_payload_bound :: "sdk_err + usize \<Rightarrow> nat option \<Rightarrow> string \<Rightarrow> sdk_err + unit" where
  "ensure_payload_bound limit len shown =
     and_then (ok_or len (invoke_error SerializationViolation (''extension payload is not encodable: '' @ shown))) (\<lambda>n.
     and_then limit (\<lambda>l.
       reject_if (unat l < n) (invoke_error PayloadTooLarge ''extension payload exceeds the configured byte bound'')))"

text \<open>What an outcome means once the lease took it: a result, or the acknowledgement of the expected stream.\<close>

definition accept_outcome ::
  "'r result_facts \<Rightarrow> sdk_err + usize \<Rightarrow> extension_operation \<Rightarrow> wire_handle option \<Rightarrow> 'r invoke_outcome \<Rightarrow>
     sdk_err + 'r option" where
  "accept_outcome rf limit operation expected outcome =
     (case validate_outcome rf outcome of
        Inl reason \<Rightarrow> Err (invoke_error SerializationViolation reason)
      | Inr _ \<Rightarrow>
          (case outcome of
             OutResult result \<Rightarrow>
               and_then (ensure_payload_bound limit (rf_len rf result) []) (\<lambda>_.
                 if is_streaming operation
                 then Err (invoke_error ExtensionFailed ''streaming operation answered with a single result'')
                 else if rf_operation rf result \<noteq> operation
                 then Err (invoke_error SerializationViolation ''extension result operation does not match the invocation'')
                 else Ok (Some result))
           | OutStream h \<Rightarrow>
               (case expected of
                  None \<Rightarrow> Err (invoke_error ExtensionFailed ''non-streaming operation answered with a stream'')
                | Some e \<Rightarrow>
                    if h \<noteq> e
                    then Err (invoke_error ExtensionFailed ''stream outcome did not echo the Host-minted stream handle'')
                    else Ok None)
           | OutError e \<Rightarrow> Err e))"

definition settle_outcome ::
  "'l lease_ops \<Rightarrow> 'r result_facts \<Rightarrow> sdk_err + usize \<Rightarrow> 'l \<Rightarrow> 'r invoke_outcome \<Rightarrow> extension_operation \<Rightarrow>
     wire_handle option \<Rightarrow> (sdk_err + 'r option) \<times> 'l" where
  "settle_outcome lo rf limit lease outcome operation expected =
     (case outcome of
        OutError e \<Rightarrow>
          if has_observation_hint e then (Err e, lease)
          else (case lo_settle lo Answered lease of (ok, l) \<Rightarrow>
            (if ok then accept_outcome rf limit operation expected outcome else Err (settlement_error (lo_settlement lo l)), l))
      | _ \<Rightarrow>
          (case lo_settle lo Answered lease of (ok, l) \<Rightarrow>
            (if ok then accept_outcome rf limit operation expected outcome else Err (settlement_error (lo_settlement lo l)), l)))"

section \<open>Errors of the transport\<close>

text \<open>
  An error the connection answers: its code and data, its text, and whether the connection's incoming side
  has closed. \<open>len\<close> and \<open>decode\<close> are the length and the decoding of the data.
\<close>

record peer_error =
  pe_code :: int
  pe_data :: "json option"
  pe_shown :: string
  pe_transport_closed :: bool

record data_decoder =
  dd_len :: "json \<Rightarrow> nat option"
  dd_decode :: "json \<Rightarrow> sdk_err option"

fun json_member :: "string \<Rightarrow> json \<Rightarrow> json option" where
  "json_member key (JObject es) = map_of es key"
| "json_member key _ = None"

definition member_text :: "string \<Rightarrow> json \<Rightarrow> string option" where
  "member_text key j = (case json_member key j of Some (JString t) \<Rightarrow> Some t | _ \<Rightarrow> None)"

definition raw_observation_hint :: "json option \<Rightarrow> bool" where
  "raw_observation_hint data =
     (case Option.bind (Option.bind data (json_member ''details'')) (json_member ''fields'') of
        Some (JArray fs) \<Rightarrow>
          list_ex (\<lambda>f. member_text ''key'' f = Some ''observation'' \<and> member_text ''value'' f = Some ''not_settled'') fs
      | _ \<Rightarrow> False)"

definition invalid_observation :: "string \<Rightarrow> sdk_err" where
  "invalid_observation reason =
     with_fields (invoke_error SerializationViolation (bounded_message reason))
       [\<lparr>df_key = ''observation'', df_value = ''not_settled''\<rparr>]"

definition transport_error :: "data_decoder \<Rightarrow> peer_error \<Rightarrow> sdk_err" where
  "transport_error dd e =
     (if pe_transport_closed e
      then invoke_error ExtensionDisconnected ''the SDK connection closed before the callback answered''
      else case from_jsonrpc_data (dd_len dd) (dd_decode dd) (pe_data e) of
        Inr decoded \<Rightarrow>
          if has_observation_hint decoded \<and> observation_from_sdk_error decoded = None
          then invalid_observation ''reverse observation error has malformed identity or envelope fields''
          else decoded
      | Inl _ \<Rightarrow>
          if raw_observation_hint (pe_data e)
          then invalid_observation ''reverse observation error failed bounded envelope validation''
          else invoke_error ExtensionFailed (''reverse invocation failed: '' @ pe_shown e))"

text \<open>
  Whether the answer is one of the peer: the connection's own errors have other codes than the reserved one.
\<close>

definition has_original_peer_response :: "peer_error + 'r invoke_outcome \<Rightarrow> bool" where
  "has_original_peer_response answer =
     (case answer of Inr _ \<Rightarrow> True | Inl e \<Rightarrow> pe_code e = extension_error_code)"

section \<open>Cancel notices\<close>

definition validate_cancel_notice :: "string \<Rightarrow> string \<Rightarrow> string + unit" where
  "validate_cancel_notice invocation_id reason =
     (if blank invocation_id \<or> max_extension_implementation_id_chars < length invocation_id
      then Err ''invocation_id must be non-empty and bounded''
      else reject_if (blank reason \<or> 64 < length reason) ''cancel reason must be non-empty and bounded'')"

section \<open>Lemmas\<close>

lemma operation_str_inject: "operation_str a = operation_str b \<longleftrightarrow> a = b"
  by (cases a; cases b) simp_all

lemma invalid_observation_hint [simp]: "has_observation_hint (invalid_observation reason)"
  by (simp add: invalid_observation_def with_fields_def has_observation_hint_def detail_fields_def)

lemma invalid_observation_untrusted [simp]: "observation_from_sdk_error (invalid_observation reason) = None"
  by (simp add: invalid_observation_def with_fields_def observation_from_sdk_error_def invoke_error_def sdk_error_def
      sdk_error_new_def with_operation_def)

lemma invalid_observation_code [simp]: "err_code (invalid_observation reason) = SerializationViolation"
  by (simp add: invalid_observation_def with_fields_def invoke_error_def sdk_error_def sdk_error_new_def with_operation_def)

lemma accept_outcome_Ok:
  "accept_outcome rf limit operation expected outcome = Ok r \<longleftrightarrow>
     is_ok (validate_outcome rf outcome) \<and>
     (case r of
        Some result \<Rightarrow> outcome = OutResult result \<and> \<not> is_streaming operation \<and> rf_operation rf result = operation \<and>
          (\<exists>l n. limit = Ok l \<and> rf_len rf result = Some n \<and> n \<le> unat l)
      | None \<Rightarrow> \<exists>h. outcome = OutStream h \<and> expected = Some h)"
  by (cases outcome)
    (auto simp: accept_outcome_def ensure_payload_bound_def is_ok_iff and_then_eq_Ok ok_or_eq_Ok reject_if_eq_Ok not_less
      split: sum.splits option.splits if_splits)

lemma settle_outcome_Ok:
  "fst (settle_outcome lo rf limit lease outcome operation expected) = Ok r \<longleftrightarrow>
     fst (lo_settle lo Answered lease) \<and> accept_outcome rf limit operation expected outcome = Ok r"
  by (cases outcome)
    (auto simp: settle_outcome_def accept_outcome_def split: prod.splits sum.splits option.splits)

end
