(* ===== verification/Callback_Owner.thy ===== *)
theory Callback_Owner
  imports Reverse_Calls Facade_Stream
begin

text \<open>
  The owner of one reverse callback (\<open>CallbackInvocationOwner\<close> of \<open>core_profile/extension_bridge.rs\<close>): the lease
  and the guards it keeps until the callback has physically ended, what was observed of a callback whose end
  is unknown, and what the response of the peer does to all of it (the response hook of
  \<open>submit_owned_invocation\<close>).
\<close>

section \<open>State\<close>

text \<open>
  What the owner uses of the lease of a factory instance. \<open>fa_registered\<close>: its registration can still be
  looked up for cleanup; \<open>fa_retained\<close>: the registration retains the lease; \<open>fa_close\<close>: the owner of the close
  whose reply is awaited, and that reply.
\<close>

record 'r factory_lease =
  fa_observation :: "sdk_err option"
  fa_registered :: bool
  fa_retained :: bool
  fa_close :: "(nat \<times> 'r option) option"

text \<open>
  \<open>co_registered\<close>: the weak reference to the registration still resolves; \<open>co_retained\<close>: the registration's list
  of callback owners holds this owner. \<open>co_guards\<close>: the tool context and the Agent invocation. The factory lease
  and the record of the facade stream are shared; \<open>co_holds_factory\<close> says whether the owner still holds the first.
\<close>

record ('r, 'l) callback_owner =
  co_id :: nat
  co_context :: "invocation_context option"
  co_registered :: bool
  co_retained :: bool
  co_lease :: "'l option"
  co_guards :: bool
  co_factory :: "'r factory_lease option"
  co_holds_factory :: bool
  co_observation :: "sdk_err option"
  co_refusal :: "sdk_err option"
  co_pending_failure :: "sdk_err option"
  co_physical_closed :: bool
  co_response_completed :: bool
  co_finished :: bool
  co_observer :: "facade_stream_record option"

datatype stream_policy = ChannelPolicy | CustomAgentPolicy

definition factory_retain_unknown :: "sdk_err \<Rightarrow> 'r factory_lease \<Rightarrow> 'r factory_lease" where
  "factory_retain_unknown e f = f\<lparr>fa_observation := Some e, fa_retained := (fa_retained f \<or> fa_registered f)\<rparr>"

definition factory_clear :: "'r factory_lease \<Rightarrow> 'r factory_lease" where
  "factory_clear f = f\<lparr>fa_observation := None, fa_retained := (fa_retained f \<and> \<not> fa_registered f)\<rparr>"

definition on_held_factory ::
  "('r factory_lease \<Rightarrow> 'r factory_lease) \<Rightarrow> ('r, 'l) callback_owner \<Rightarrow> ('r, 'l) callback_owner" where
  "on_held_factory f o' = (if co_holds_factory o' then o'\<lparr>co_factory := map_option f (co_factory o')\<rparr> else o')"

section \<open>Observations\<close>

text \<open>
  The refusal the framework sees: the observed execution, or the run of the owner's own context. (The framework's
  error for an execution that is not settled projects to \<open>not_settled_error\<close>.)
\<close>

definition observation_refusal :: "invocation_context option \<Rightarrow> sdk_err \<Rightarrow> sdk_err option" where
  "observation_refusal context e =
     (case observation_from_sdk_error e of
        Some (FwNotSettled run_id execution_id) \<Rightarrow> Some (not_settled_error run_id execution_id invoke_method)
      | _ \<Rightarrow>
          (case Option.bind context ic_run_id of
             None \<Rightarrow> None
           | Some run_id \<Rightarrow>
               if blank run_id then None
               else Some (not_settled_error run_id (Option.bind context ic_execution_id) invoke_method)))"

definition bounded_observation :: "sdk_err \<Rightarrow> sdk_err" where
  "bounded_observation e =
     (if has_observation_hint e \<and> observation_from_sdk_error e = None \<and> err_code e \<noteq> SerializationViolation
      then invalid_observation ''observation failed bounded identity projection'' else e)"

definition retain_unknown :: "sdk_err \<Rightarrow> ('r, 'l) callback_owner \<Rightarrow> sdk_err option \<times> ('r, 'l) callback_owner" where
  "retain_unknown e0 o' =
     (if co_physical_closed o' then (None, o')
      else
        let e = bounded_observation e0;
            refusal = observation_refusal (co_context o') e;
            o1 = o'\<lparr>co_observation := Some e, co_refusal := refusal, co_retained := (co_retained o' \<or> co_registered o')\<rparr>;
            o2 = (if co_registered o1 then on_held_factory (factory_retain_unknown (option_default refusal e)) o1 else o1)
        in (refusal, o2\<lparr>co_observer := map_option (snd \<circ> Facade_Stream.record_observation e) (co_observer o2)\<rparr>))"

definition observed :: "('r, 'l) callback_owner \<Rightarrow> bool" where
  "observed o' = (\<not> co_physical_closed o' \<and> co_observation o' \<noteq> None)"

definition framework_refusal :: "('r, 'l) callback_owner \<Rightarrow> sdk_err option" where
  "framework_refusal o' = (if co_physical_closed o' then None else co_refusal o')"

section \<open>Physical closure\<close>

definition finish_closure_with_reply ::
  "('r \<Rightarrow> bool) \<Rightarrow> 'r option \<Rightarrow> ('r, 'l) callback_owner \<Rightarrow> ('r, 'l) callback_owner" where
  "finish_closure_with_reply is_close reply o' =
     (if co_physical_closed o' then o'
      else
        let accept = (\<lambda>f. case (reply, fa_close f) of
              (Some r, Some (source, kept)) \<Rightarrow>
                if is_close r \<and> source = co_id o' then f\<lparr>fa_close := Some (source, Some r)\<rparr> else f
            | _ \<Rightarrow> f);
            o1 = on_held_factory (accept \<circ> factory_clear) (o'\<lparr>co_physical_closed := True\<rparr>)
        in o1\<lparr>co_lease := None, co_guards := False, co_holds_factory := False,
              co_retained := (co_retained o' \<and> \<not> co_registered o'),
              co_observer := map_option original_callback_physically_closed (co_observer o'),
              co_finished := True\<rparr>)"

definition finish_closure :: "('r, 'l) callback_owner \<Rightarrow> ('r, 'l) callback_owner" where
  "finish_closure = finish_closure_with_reply (\<lambda>_. False) None"

text \<open>The response of the peer and the validated terminal of its stream.\<close>

definition finish_if_physical_facts :: "bool \<Rightarrow> ('r, 'l) callback_owner \<Rightarrow> bool \<times> ('r, 'l) callback_owner" where
  "finish_if_physical_facts remote_terminal o' =
     (if co_response_completed o' \<and> remote_terminal then (True, finish_closure o') else (False, o'))"

definition record_peer_response :: "bool \<Rightarrow> ('r, 'l) callback_owner \<Rightarrow> ('r, 'l) callback_owner" where
  "record_peer_response received o' = o'\<lparr>co_response_completed := (co_response_completed o' \<or> received)\<rparr>"

section \<open>What the waiter of the callback sees\<close>

datatype 'r original_response = Reply "sdk_err + 'r option" | ClosedObservation sdk_err

definition project_observation :: "sdk_err \<Rightarrow> ('r, 'l) callback_owner \<Rightarrow> 'r original_response" where
  "project_observation diagnostic o' =
     (if co_physical_closed o'
      then ClosedObservation (invoke_error SerializationViolation
        ''original callback physically closed without an accepted invocation reply; prior observation retained as diagnostic'')
      else Reply (Err (option_default (co_refusal o') diagnostic)))"

definition callback_response_lost :: sdk_err where
  "callback_response_lost =
     invoke_error ExtensionDisconnected ''channel response owner ended without a callback response: channel closed''"

text \<open>The reply on the channel of the call; none when its sender was dropped.\<close>

definition observe_response ::
  "(sdk_err + 'r option) option \<Rightarrow> ('r, 'l) callback_owner \<Rightarrow> 'r original_response \<times> ('r, 'l) callback_owner" where
  "observe_response response o' =
     (let uncertain = (\<lambda>e. case retain_unknown e o' of (_, o1) \<Rightarrow> (project_observation e o1, o1)) in
      case response of
        Some (Inr r) \<Rightarrow> (Reply (Ok r), record_peer_response True o')
      | Some (Inl e) \<Rightarrow>
          if has_observation_hint e then uncertain e
          else if err_code e = ExtensionDisconnected then uncertain (invalid_observation (err_message e))
          else (Reply (Err e), o')
      | None \<Rightarrow> uncertain (invalid_observation (err_message callback_response_lost)))"

text \<open>
  \<open>wait_original_response\<close> after the response was observed: an observation without a trusted identity keeps
  waiting (\<open>None\<close>) and projects again; a closed owner answers once its release is complete.
\<close>

definition await_projection :: "('r, 'l) callback_owner \<Rightarrow> 'r original_response \<Rightarrow> (sdk_err + 'r option) option" where
  "await_projection o' response =
     (case response of
        ClosedObservation e \<Rightarrow> if co_finished o' then Some (Err e) else None
      | Reply (Inl e) \<Rightarrow>
          if has_observation_hint e \<and> observation_from_sdk_error e = None then None else Some (Err e)
      | Reply (Inr r) \<Rightarrow> Some (Ok r))"

section \<open>The response of the peer\<close>

definition is_final_response :: "peer_error + 'r invoke_outcome \<Rightarrow> bool" where
  "is_final_response answer =
     (case answer of
        Inr (OutResult _) \<Rightarrow> True
      | Inr (OutError e) \<Rightarrow> \<not> has_observation_hint e
      | Inr (OutStream _) \<Rightarrow> False
      | Inl e \<Rightarrow> has_original_peer_response answer \<and> \<not> raw_observation_hint (pe_data e))"

definition source_observation ::
  "data_decoder \<Rightarrow> stream_policy \<Rightarrow> peer_error + 'r invoke_outcome \<Rightarrow> sdk_err option" where
  "source_observation dd policy answer =
     (case answer of
        Inr (OutError e) \<Rightarrow> if has_observation_hint e then Some e else None
      | Inr _ \<Rightarrow> None
      | Inl e \<Rightarrow>
          if raw_observation_hint (pe_data e) then Some (transport_error dd e)
          else if policy = CustomAgentPolicy \<and> pe_transport_closed e
          then Some (invalid_observation ''original producer transport closed without physical settlement proof'')
          else None)"

definition is_setup_ack :: "stream_policy \<Rightarrow> wire_handle option \<Rightarrow> peer_error + 'r invoke_outcome \<Rightarrow> bool" where
  "is_setup_ack policy expected answer =
     (policy = CustomAgentPolicy \<and>
      (case answer of Inr (OutStream h) \<Rightarrow> expected = Some h \<and> is_ok (validate_handle h) | _ \<Rightarrow> False))"

text \<open>What the call is: its operation, the stream it minted, how it was interrupted.\<close>

record owned_call =
  oc_policy :: stream_policy
  oc_operation :: extension_operation
  oc_expected :: "wire_handle option"
  oc_limit :: "sdk_err + usize"

text \<open>The validated reply of an Agent's close.\<close>

definition acknowledged_close ::
  "'r result_facts \<Rightarrow> owned_call \<Rightarrow> ('r, 'l) callback_owner \<Rightarrow> peer_error + 'r invoke_outcome \<Rightarrow> 'r option" where
  "acknowledged_close rf c o' answer =
     (case answer of
        Inr (OutResult result) \<Rightarrow>
          if rf_operation rf result = OpAgentClose \<and> oc_operation c = OpAgentClose \<and> \<not> observed o' \<and>
             is_ok (validate_outcome rf (OutResult result)) \<and> is_ok (ensure_payload_bound (oc_limit c) (rf_len rf result) [])
          then Some result else None
      | _ \<Rightarrow> None)"

text \<open>The result of the call and its lease, before observations are looked at.\<close>

definition settle_answer_with ::
  "'l lease_ops \<Rightarrow> 'r result_facts \<Rightarrow> data_decoder \<Rightarrow> owned_call \<Rightarrow> sdk_err option \<Rightarrow> peer_error + 'r invoke_outcome \<Rightarrow>
     'l \<Rightarrow> ('r, 'l) callback_owner \<Rightarrow> (sdk_err + 'r option) \<times> 'l \<times> ('r, 'l) callback_owner" where
  "settle_answer_with lo rf dd c interruption answer lease o' =
     (case source_observation dd (oc_policy c) answer of
        Some e \<Rightarrow> (Err e, lease, o')
      | None \<Rightarrow>
          (case interruption of
             Some e \<Rightarrow>
               (let l = snd (lo_settle lo (if err_code e = ExtensionTimeout then TimedOut else CancelledSettlement) lease) in
                if is_setup_ack (oc_policy c) (oc_expected c) answer
                then (Ok None, l, o'\<lparr>co_pending_failure := Some e\<rparr>)
                else (Err e, l, o'))
           | None \<Rightarrow>
               (case answer of
                  Inr outcome \<Rightarrow>
                    (case settle_outcome lo rf (oc_limit c) lease outcome (oc_operation c) (oc_expected c) of
                       (r, l) \<Rightarrow> (r, l, o'))
                | Inl e \<Rightarrow>
                    (let typed = transport_error dd e in
                     (Err typed,
                      snd (lo_settle lo (if err_code typed = ExtensionDisconnected then Disconnected else Answered) lease),
                      o')))))"

text \<open>An observation, and a setup without a final response or its acknowledgement, is retained.\<close>

definition retain_in_result ::
  "owned_call \<Rightarrow> peer_error + 'r invoke_outcome \<Rightarrow> sdk_err + 'r option \<Rightarrow> ('r, 'l) callback_owner \<Rightarrow>
     (sdk_err + 'r option) \<times> ('r, 'l) callback_owner" where
  "retain_in_result c answer result o' =
     (case (case result of
              Inl e \<Rightarrow>
                if has_observation_hint e
                then (case retain_unknown e o' of (refusal, o1) \<Rightarrow> (Err (option_default refusal e), o1))
                else (result, o')
            | Inr _ \<Rightarrow> (result, o')) of
        (r1, o1) \<Rightarrow>
          if oc_policy c = CustomAgentPolicy \<and> \<not> is_setup_ack (oc_policy c) (oc_expected c) answer \<and>
             \<not> is_final_response answer \<and> \<not> (case r1 of Inl e \<Rightarrow> has_observation_hint e | Inr _ \<Rightarrow> False)
          then (let diagnostic = invalid_observation ''original producer has no final peer response or matching stream ACK'' in
                case retain_unknown diagnostic o1 of (refusal, o2) \<Rightarrow> (Err (option_default refusal diagnostic), o2))
          else (r1, o1))"

text \<open>
  The response hook: the result it sends, whether it first ended the stream of a Channel callback that returned
  without a terminal, and the owner. \<open>remote\<close> is what the sink knows of the remote terminal, if there is one.
\<close>

definition on_response ::
  "'l lease_ops \<Rightarrow> 'r result_facts \<Rightarrow> data_decoder \<Rightarrow> owned_call \<Rightarrow> sdk_err option \<Rightarrow> bool option \<Rightarrow>
     peer_error + 'r invoke_outcome \<Rightarrow> ('r, 'l) callback_owner \<Rightarrow>
     (sdk_err + 'r option) \<times> bool \<times> ('r, 'l) callback_owner" where
  "on_response lo rf dd c interruption remote answer o' =
     (case co_lease o' of
        None \<Rightarrow>
          (let e = invalid_observation ''original callback response lost its retained lease''
           in (Err e, False, snd (retain_unknown e o')))
      | Some lease \<Rightarrow>
          (let reply = acknowledged_close rf c o' answer in
           case settle_answer_with lo rf dd c interruption answer lease (o'\<lparr>co_lease := None\<rparr>) of
             (r0, l, o1) \<Rightarrow>
               (case retain_in_result c answer r0 o1 of
                  (r, o2) \<Rightarrow>
                    let o3 = (if oc_policy c = CustomAgentPolicy \<or> observed o2 then o2\<lparr>co_lease := Some l\<rparr>
                              else o2\<lparr>co_finished := True\<rparr>);
                        o4 = record_peer_response (has_original_peer_response answer) o3;
                        o5 = (if oc_policy c = CustomAgentPolicy \<and> is_final_response answer \<and> \<not> observed o4
                              then finish_closure_with_reply (\<lambda>r. rf_operation rf r = OpAgentClose) reply o4
                              else case remote of
                                Some received \<Rightarrow> snd (finish_if_physical_facts received o4)
                              | None \<Rightarrow> o4)
                    in (r, oc_policy c = ChannelPolicy \<and> r0 = Ok None \<and> remote \<noteq> None, o5))))"

text \<open>The watch of the deadline and of the cancellation: an owner that is finished is left alone.\<close>

definition on_interrupt :: "owned_call \<Rightarrow> sdk_err \<Rightarrow> ('r, 'l) callback_owner \<Rightarrow> ('r, 'l) callback_owner" where
  "on_interrupt c e o' =
     (if \<not> co_finished o' \<and> oc_policy c = CustomAgentPolicy then o'\<lparr>co_pending_failure := Some e\<rparr> else o')"

text \<open>A close of a factory's Agent first registers as the source of the reply its lease awaits.\<close>

definition expect_close_reply :: "owned_call \<Rightarrow> ('r, 'l) callback_owner \<Rightarrow> ('r, 'l) callback_owner" where
  "expect_close_reply c o' =
     (if oc_operation c = OpAgentClose
      then on_held_factory (\<lambda>f. f\<lparr>fa_close := Some (co_id o', None)\<rparr>) o' else o')"

text \<open>The submission installs the lease and tells the facade stream of the callback behind it.\<close>

definition on_submit :: "owned_call \<Rightarrow> 'l \<Rightarrow> ('r, 'l) callback_owner \<Rightarrow> ('r, 'l) callback_owner" where
  "on_submit c lease o' =
     (let o1 = expect_close_reply c o'
      in o1\<lparr>co_lease := Some lease, co_observer := map_option bind_original_callback (co_observer o1)\<rparr>)"

section \<open>What each operation keeps\<close>

lemma on_held_factory_simps [simp]:
  "co_lease (on_held_factory f o') = co_lease o'" "co_guards (on_held_factory f o') = co_guards o'"
  "co_physical_closed (on_held_factory f o') = co_physical_closed o'"
  "co_response_completed (on_held_factory f o') = co_response_completed o'"
  "co_finished (on_held_factory f o') = co_finished o'" "co_retained (on_held_factory f o') = co_retained o'"
  "co_registered (on_held_factory f o') = co_registered o'" "co_holds_factory (on_held_factory f o') = co_holds_factory o'"
  "co_observation (on_held_factory f o') = co_observation o'" "co_refusal (on_held_factory f o') = co_refusal o'"
  "co_observer (on_held_factory f o') = co_observer o'" "co_pending_failure (on_held_factory f o') = co_pending_failure o'"
  "co_id (on_held_factory f o') = co_id o'" "co_context (on_held_factory f o') = co_context o'"
  by (simp_all add: on_held_factory_def)

definition observer_flags :: "('r, 'l) callback_owner \<Rightarrow> (bool \<times> bool) option" where
  "observer_flags o' =
     map_option (\<lambda>r. (ob_callback_bound (fx_observation r), ob_callback_closed (fx_observation r))) (co_observer o')"

lemma record_observation_flags [simp]:
  "ob_callback_bound (fx_observation (snd (Facade_Stream.record_observation e r))) = ob_callback_bound (fx_observation r)"
  "ob_callback_closed (fx_observation (snd (Facade_Stream.record_observation e r))) = ob_callback_closed (fx_observation r)"
  by (simp_all add: Facade_Stream.record_observation_def)

lemma retain_unknown_keeps [simp]:
  "co_lease (snd (retain_unknown e o')) = co_lease o'" "co_guards (snd (retain_unknown e o')) = co_guards o'"
  "co_physical_closed (snd (retain_unknown e o')) = co_physical_closed o'"
  "co_response_completed (snd (retain_unknown e o')) = co_response_completed o'"
  "co_finished (snd (retain_unknown e o')) = co_finished o'"
  "co_registered (snd (retain_unknown e o')) = co_registered o'"
  "co_holds_factory (snd (retain_unknown e o')) = co_holds_factory o'"
  "co_pending_failure (snd (retain_unknown e o')) = co_pending_failure o'"
  "observer_flags (snd (retain_unknown e o')) = observer_flags o'"
  by (simp_all add: retain_unknown_def Let_def observer_flags_def option.map_comp comp_def)

lemma retain_unknown_observation:
  "co_observation (snd (retain_unknown e o')) =
     (if co_physical_closed o' then co_observation o' else Some (bounded_observation e))"
  "co_retained (snd (retain_unknown e o')) = (co_retained o' \<or> \<not> co_physical_closed o' \<and> co_registered o')"
  by (auto simp: retain_unknown_def Let_def)

lemma finish_closure_effect:
  "co_physical_closed (finish_closure_with_reply is_close reply o')"
  "\<not> co_physical_closed o' \<Longrightarrow> co_lease (finish_closure_with_reply is_close reply o') = None \<and>
     \<not> co_guards (finish_closure_with_reply is_close reply o') \<and>
     \<not> co_holds_factory (finish_closure_with_reply is_close reply o') \<and> co_finished (finish_closure_with_reply is_close reply o') \<and>
     (co_retained (finish_closure_with_reply is_close reply o') = (co_retained o' \<and> \<not> co_registered o'))"
  "co_response_completed (finish_closure_with_reply is_close reply o') = co_response_completed o'"
  "co_registered (finish_closure_with_reply is_close reply o') = co_registered o'"
  "co_observation (finish_closure_with_reply is_close reply o') = co_observation o'"
  "co_pending_failure (finish_closure_with_reply is_close reply o') = co_pending_failure o'"
  "\<not> co_physical_closed o' \<Longrightarrow> observer_flags (finish_closure_with_reply is_close reply o') =
     map_option (\<lambda>(bound, _). (bound, True)) (observer_flags o')"
  by (simp_all add: finish_closure_with_reply_def Let_def observer_flags_def option.map_comp comp_def
      original_callback_physically_closed_def)

section \<open>Histories of one call\<close>

text \<open>
  A call and its owner: whether it was submitted and a final response arrived, what was sent to its waiter, and
  whether its stream, if it has one, received the terminal of the remote side.
\<close>

record ('r, 'l) call_state =
  cs_owner :: "('r, 'l) callback_owner"
  cs_submitted :: bool
  cs_final :: bool
  cs_reply :: "(sdk_err + 'r option) option"
  cs_remote :: "bool option"

definition call_created :: "('r, 'l) call_state \<Rightarrow> bool" where
  "call_created s =
     (\<not> cs_submitted s \<and> \<not> cs_final s \<and> cs_reply s = None \<and> cs_remote s \<noteq> Some True \<and>
      (let o' = cs_owner s in
       \<not> co_physical_closed o' \<and> \<not> co_response_completed o' \<and> \<not> co_finished o' \<and> \<not> co_retained o' \<and>
       co_lease o' = None \<and> co_observation o' = None \<and> co_refusal o' = None \<and> co_pending_failure o' = None \<and>
       (observer_flags o' = None \<or> observer_flags o' = Some (False, False))))"

text \<open>
  The steps: submission, the response hook, the watch, an observation (of an event or of the closed transport),
  the remote terminal, the tracker that waits for both facts, the waiter that takes the reply or finds its
  sender gone, and the end of the registration.
\<close>

inductive call_step ::
  "'l lease_ops \<Rightarrow> 'r result_facts \<Rightarrow> data_decoder \<Rightarrow> owned_call \<Rightarrow> ('r, 'l) call_state \<Rightarrow> ('r, 'l) call_state \<Rightarrow> bool"
  for lo rf dd c where
  st_submit: "\<not> cs_submitted s \<Longrightarrow>
     call_step lo rf dd c s (s\<lparr>cs_owner := on_submit c lease (cs_owner s), cs_submitted := True\<rparr>)"
| st_response: "cs_submitted s \<Longrightarrow> cs_reply s = None \<Longrightarrow>
     on_response lo rf dd c interruption (cs_remote s) answer (cs_owner s) = (r, ended, o') \<Longrightarrow>
     call_step lo rf dd c s (s\<lparr>cs_owner := o', cs_reply := Some r, cs_final := is_final_response answer\<rparr>)"
| st_interrupt: "call_step lo rf dd c s (s\<lparr>cs_owner := on_interrupt c e (cs_owner s)\<rparr>)"
| st_retain: "call_step lo rf dd c s (s\<lparr>cs_owner := snd (retain_unknown e (cs_owner s))\<rparr>)"
| st_remote: "cs_remote s = Some b \<Longrightarrow>
     call_step lo rf dd c s (s\<lparr>cs_owner := snd (finish_if_physical_facts True (cs_owner s)), cs_remote := Some True\<rparr>)"
| st_track: "cs_remote s = Some received \<Longrightarrow>
     call_step lo rf dd c s (s\<lparr>cs_owner := snd (finish_if_physical_facts received (cs_owner s))\<rparr>)"
| st_observe: "cs_reply s = Some r \<Longrightarrow>
     call_step lo rf dd c s (s\<lparr>cs_owner := snd (observe_response (Some r) (cs_owner s))\<rparr>)"
| st_lost: "call_step lo rf dd c s (s\<lparr>cs_owner := snd (observe_response None (cs_owner s))\<rparr>)"
| st_unregister: "call_step lo rf dd c s (s\<lparr>cs_owner := (cs_owner s)\<lparr>co_registered := False\<rparr>\<rparr>)"

definition owner_inv :: "owned_call \<Rightarrow> bool \<Rightarrow> bool \<Rightarrow> bool option \<Rightarrow> ('r, 'l) callback_owner \<Rightarrow> bool" where
  "owner_inv c submitted final remote o' =
     ((co_physical_closed o' \<longrightarrow>
        co_response_completed o' \<and> co_finished o' \<and> co_lease o' = None \<and> \<not> co_guards o' \<and> \<not> co_holds_factory o' \<and>
        (co_registered o' \<longrightarrow> \<not> co_retained o') \<and> (final \<or> remote = Some True)) \<and>
      (co_response_completed o' \<longrightarrow> submitted) \<and>
      (co_retained o' \<longrightarrow> co_observation o' \<noteq> None) \<and>
      (observer_flags o' = None \<or> observer_flags o' = Some (submitted, co_physical_closed o')) \<and>
      (oc_policy c = CustomAgentPolicy \<and> submitted \<and> \<not> co_physical_closed o' \<longrightarrow>
        co_lease o' \<noteq> None \<and> (final \<longrightarrow> co_observation o' \<noteq> None)))"

definition call_inv :: "owned_call \<Rightarrow> ('r, 'l) call_state \<Rightarrow> bool" where
  "call_inv c s =
     (owner_inv c (cs_submitted s) (cs_final s) (cs_remote s) (cs_owner s) \<and>
      (cs_reply s \<noteq> None \<longrightarrow> cs_submitted s) \<and> (cs_reply s = None \<longrightarrow> \<not> cs_final s))"

lemma retain_unknown_inv:
  "owner_inv c submitted final remote o' \<Longrightarrow> owner_inv c submitted final remote (snd (retain_unknown e o'))"
  by (auto simp: owner_inv_def retain_unknown_observation)

lemma observe_response_owner:
  "snd (observe_response response o') = o' \<or>
     snd (observe_response response o') = record_peer_response True o' \<and> (\<exists>r. response = Some (Ok r)) \<or>
     (\<exists>e. snd (observe_response response o') = snd (retain_unknown e o'))"
  by (auto simp: observe_response_def Let_def split: option.splits sum.splits prod.splits) (metis snd_conv)+

lemma finish_if_inv:
  assumes "owner_inv c submitted final remote o'" and "received \<Longrightarrow> remote = Some True"
  shows "owner_inv c submitted final remote (snd (finish_if_physical_facts received o'))"
proof (cases "co_response_completed o' \<and> received \<and> \<not> co_physical_closed o'")
  case True
  with assms show ?thesis
    by (auto simp: owner_inv_def finish_if_physical_facts_def finish_closure_def finish_closure_effect)
next
  case False
  then have "snd (finish_if_physical_facts received o') = o'"
    by (auto simp: finish_if_physical_facts_def finish_closure_def finish_closure_with_reply_def)
  with assms show ?thesis by simp
qed

lemma retain_in_result_keeps:
  assumes "P o'" and "\<And>e x. P x \<Longrightarrow> P (snd (retain_unknown e x))"
  shows "P (snd (retain_in_result c answer result o'))"
  using assms
  by (auto simp: retain_in_result_def Let_def split: sum.splits prod.splits if_splits) (metis snd_conv)+

lemma final_response_is_of_the_peer: "is_final_response answer \<Longrightarrow> has_original_peer_response answer"
  by (auto simp: is_final_response_def has_original_peer_response_def split: sum.splits)

text \<open>The owner while its response is looked at: open, its lease taken out.\<close>

definition owner_open :: "('r, 'l) callback_owner \<Rightarrow> bool" where
  "owner_open o' =
     (\<not> co_physical_closed o' \<and> (co_retained o' \<longrightarrow> co_observation o' \<noteq> None) \<and>
      (observer_flags o' = None \<or> observer_flags o' = Some (True, False)))"

lemma settle_answer_with_open:
  "owner_open o' \<Longrightarrow> settle_answer_with lo rf dd c interruption answer lease o' = (r, l, o1) \<Longrightarrow> owner_open o1"
  by (auto simp: settle_answer_with_def owner_open_def observer_flags_def Let_def split: option.splits sum.splits prod.splits if_splits)

lemma owner_open_retained: "owner_open x \<Longrightarrow> owner_open (snd (retain_unknown e x))"
  by (auto simp: owner_open_def retain_unknown_observation)

lemma on_response_inv:
  assumes inv: "owner_inv c True False remote o'"
    and response: "on_response lo rf dd c interruption remote answer o' = (r, ended, o'')"
  shows "owner_inv c True (is_final_response answer) remote o''"
proof (cases "co_lease o'")
  case None
  then have o'': "o'' = snd (retain_unknown (invalid_observation ''original callback response lost its retained lease'') o')"
    using response by (simp add: on_response_def Let_def)
  show ?thesis
    using inv None unfolding o'' by (auto simp: owner_inv_def retain_unknown_observation)
next
  case (Some lease)
  then have "owner_open (o'\<lparr>co_lease := None\<rparr>)" using inv by (auto simp: owner_inv_def owner_open_def observer_flags_def)
  obtain r0 l o1 where settled: "settle_answer_with lo rf dd c interruption answer lease (o'\<lparr>co_lease := None\<rparr>) = (r0, l, o1)"
    by (metis prod_cases3)
  obtain r1 o2 where retained: "retain_in_result c answer r0 o1 = (r1, o2)" by fastforce
  have "owner_open o1" by (rule settle_answer_with_open [OF _ settled]) fact
  then have "owner_open (snd (retain_in_result c answer r0 o1))"
    by (rule retain_in_result_keeps) (rule owner_open_retained)
  then have o2: "owner_open o2" using retained by simp
  define o3 where "o3 = (if oc_policy c = CustomAgentPolicy \<or> observed o2 then o2\<lparr>co_lease := Some l\<rparr> else o2\<lparr>co_finished := True\<rparr>)"
  define o4 where "o4 = record_peer_response (has_original_peer_response answer) o3"
  have o4: "owner_open o4" "oc_policy c = CustomAgentPolicy \<Longrightarrow> co_lease o4 = Some l"
    "has_original_peer_response answer \<Longrightarrow> co_response_completed o4"
    using o2 by (auto simp: o4_def o3_def owner_open_def record_peer_response_def observer_flags_def)
  have o'': "o'' = (if oc_policy c = CustomAgentPolicy \<and> is_final_response answer \<and> \<not> observed o4
      then finish_closure_with_reply (\<lambda>r. rf_operation rf r = OpAgentClose) (acknowledged_close rf c o' answer) o4
      else case remote of Some received \<Rightarrow> snd (finish_if_physical_facts received o4) | None \<Rightarrow> o4)"
    using response Some settled retained
    unfolding on_response_def Let_def o4_def o3_def by (simp split del: if_split)
  show ?thesis
  proof (cases "oc_policy c = CustomAgentPolicy \<and> is_final_response answer \<and> \<not> observed o4")
    case True
    with o4 final_response_is_of_the_peer show ?thesis unfolding o''
      by (auto simp: owner_inv_def owner_open_def finish_closure_effect)
  next
    case False
    then have base: "owner_inv c True (is_final_response answer) remote o4"
      using o4 by (auto simp: owner_inv_def owner_open_def observed_def)
    from False have "o'' = (case remote of Some received \<Rightarrow> snd (finish_if_physical_facts received o4) | None \<Rightarrow> o4)"
      unfolding o'' by auto
    with base finish_if_inv [OF base] show ?thesis by (cases remote) auto
  qed
qed

lemma on_submit_inv:
  assumes "owner_inv c False final remote o'" "\<not> final"
  shows "owner_inv c True final remote (on_submit c lease o')"
  using assms
  by (auto simp: owner_inv_def on_submit_def expect_close_reply_def Let_def observer_flags_def option.map_comp comp_def bind_original_callback_def)

lemma observe_response_inv:
  assumes inv: "owner_inv c submitted final remote o'" and "response \<noteq> None \<longrightarrow> submitted"
  shows "owner_inv c submitted final remote (snd (observe_response response o'))"
proof -
  have "owner_inv c submitted final remote (record_peer_response True o')" if submitted
    using inv that by (simp add: owner_inv_def record_peer_response_def observer_flags_def)
  with observe_response_owner [of response o'] retain_unknown_inv [OF inv] inv assms(2) show ?thesis by auto
qed

lemma call_step_inv: "call_inv c s \<Longrightarrow> call_step lo rf dd c s t \<Longrightarrow> call_inv c t"
proof (erule call_step.cases, goal_cases)
  case (1 s lease)
  then show ?case using on_submit_inv by (auto simp: call_inv_def)
next
  case (2 s interruption answer r ended o')
  then show ?case using on_response_inv [OF _ 2(6)] by (auto simp: call_inv_def)
next
  case (3 s e)
  then show ?case by (auto simp: call_inv_def owner_inv_def on_interrupt_def observer_flags_def)
next
  case (4 s e)
  then show ?case using retain_unknown_inv by (auto simp: call_inv_def)
next
  case (5 s b)
  then have "owner_inv c (cs_submitted s) (cs_final s) (Some True) (cs_owner s)"
    by (auto simp: call_inv_def owner_inv_def)
  from finish_if_inv [OF this, of True] 5 show ?case by (auto simp: call_inv_def)
next
  case (6 s received)
  then have "owner_inv c (cs_submitted s) (cs_final s) (cs_remote s) (cs_owner s)" by (simp add: call_inv_def)
  from finish_if_inv [OF this, of received] 6 show ?case by (auto simp: call_inv_def)
next
  case (7 s r)
  then show ?case by (auto simp: call_inv_def intro: observe_response_inv)
next
  case (8 s)
  then show ?case by (auto simp: call_inv_def intro: observe_response_inv)
next
  case (9 s)
  then show ?case by (auto simp: call_inv_def owner_inv_def observer_flags_def)
qed

interpretation call_hist: invariant_system call_created "call_step lo rf dd c" "call_inv c" for lo rf dd c
proof unfold_locales
  show "call_inv c s" if "call_created s" for s
    using that by (auto simp: call_created_def call_inv_def owner_inv_def Let_def)
qed (rule call_step_inv)

section \<open>What stays until the end\<close>

text \<open>An operation that does not close the owner leaves its guards and its factory lease alone.\<close>

definition holds_on :: "('r, 'l) callback_owner \<Rightarrow> ('r, 'l) callback_owner \<Rightarrow> bool" where
  "holds_on o' o'' \<longleftrightarrow>
     (\<not> co_physical_closed o'' \<longrightarrow>
        \<not> co_physical_closed o' \<and> co_guards o'' = co_guards o' \<and> co_holds_factory o'' = co_holds_factory o')"

lemma holds_on_refl [simp]: "holds_on o' o'"
  by (simp add: holds_on_def)

lemma holds_on_trans: "holds_on a b \<Longrightarrow> holds_on b c \<Longrightarrow> holds_on a c"
  by (auto simp: holds_on_def)

lemma retain_unknown_holds [simp]: "holds_on o' (snd (retain_unknown e o'))"
  by (simp add: holds_on_def)

lemma finish_closure_holds [simp]: "holds_on o' (finish_closure_with_reply is_close reply o')"
  by (simp add: holds_on_def finish_closure_effect)

lemma finish_if_holds [simp]: "holds_on o' (snd (finish_if_physical_facts received o'))"
  by (simp add: finish_if_physical_facts_def finish_closure_def)

lemma record_peer_response_holds [simp]: "holds_on o' (record_peer_response received o')"
  by (simp add: holds_on_def record_peer_response_def)

lemma on_response_holds:
  assumes "on_response lo rf dd c interruption remote answer o' = (r, ended, o'')"
  shows "holds_on o' o''"
proof (cases "co_lease o'")
  case None
  with assms show ?thesis by (auto simp: on_response_def Let_def)
next
  case (Some lease)
  obtain r0 l o1 where settled: "settle_answer_with lo rf dd c interruption answer lease (o'\<lparr>co_lease := None\<rparr>) = (r0, l, o1)"
    by (metis prod_cases3)
  obtain r1 o2 where retained: "retain_in_result c answer r0 o1 = (r1, o2)" by fastforce
  have "holds_on o' o1"
    using settled
    by (auto simp: settle_answer_with_def holds_on_def Let_def split: option.splits sum.splits prod.splits if_splits)
  then have "holds_on o' (snd (retain_in_result c answer r0 o1))"
    by (rule retain_in_result_keeps) (erule holds_on_trans, rule retain_unknown_holds)
  then have o2: "holds_on o' o2" using retained by simp
  define o3 where "o3 = (if oc_policy c = CustomAgentPolicy \<or> observed o2 then o2\<lparr>co_lease := Some l\<rparr> else o2\<lparr>co_finished := True\<rparr>)"
  define o4 where "o4 = record_peer_response (has_original_peer_response answer) o3"
  have o4: "holds_on o' o4"
    using o2 by (simp add: o4_def o3_def holds_on_def record_peer_response_def)
  have "o'' = (if oc_policy c = CustomAgentPolicy \<and> is_final_response answer \<and> \<not> observed o4
      then finish_closure_with_reply (\<lambda>r. rf_operation rf r = OpAgentClose) (acknowledged_close rf c o' answer) o4
      else case remote of Some received \<Rightarrow> snd (finish_if_physical_facts received o4) | None \<Rightarrow> o4)"
    using assms Some settled retained
    unfolding on_response_def Let_def o4_def o3_def by (simp split del: if_split)
  then have "holds_on o4 o''" by (simp split: option.splits)
  with o4 show ?thesis by (rule holds_on_trans)
qed

text \<open>Since the owner was created; and until the response hook has answered, the call holds its lease.\<close>

definition kept_since :: "('r, 'l) callback_owner \<Rightarrow> ('r, 'l) call_state \<Rightarrow> bool" where
  "kept_since o' s \<longleftrightarrow>
     holds_on o' (cs_owner s) \<and>
     (cs_submitted s \<and> cs_reply s = None \<longrightarrow>
        co_lease (cs_owner s) \<noteq> None \<and> \<not> co_response_completed (cs_owner s)) \<and>
     (\<not> cs_submitted s \<longrightarrow> \<not> co_response_completed (cs_owner s) \<and> cs_reply s = None)"

lemma finish_if_waits:
  "\<not> co_response_completed o' \<Longrightarrow> snd (finish_if_physical_facts received o') = o'"
  by (simp add: finish_if_physical_facts_def)

lemmas holds_steps =
  holds_on_trans [OF _ retain_unknown_holds] holds_on_trans [OF _ finish_if_holds]
  holds_on_trans [OF _ record_peer_response_holds]

lemma observe_lost: "\<exists>e. snd (observe_response None o') = snd (retain_unknown e o')"
  by (auto simp: observe_response_def Let_def split: prod.splits) (metis snd_conv)

lemma call_step_kept: "call_step lo rf dd c s t \<Longrightarrow> kept_since o' s \<Longrightarrow> kept_since o' t"
proof (erule call_step.cases, goal_cases)
  case (1 s lease)
  then show ?case
    by (auto simp: kept_since_def holds_on_def on_submit_def expect_close_reply_def Let_def)
next
  case (2 s interruption answer r ended o'')
  from holds_on_trans [OF _ on_response_holds [OF 2(6)]] 2 show ?case by (simp add: kept_since_def)
next
  case (3 s e)
  then show ?case by (auto simp: kept_since_def holds_on_def on_interrupt_def)
next
  case (4 s e)
  then show ?case by (simp add: kept_since_def holds_steps)
next
  case (5 s b)
  then show ?case by (cases "cs_submitted s") (auto simp: kept_since_def holds_steps finish_if_waits)
next
  case (6 s received)
  then show ?case by (cases "cs_submitted s") (auto simp: kept_since_def holds_steps finish_if_waits)
next
  case (7 s r)
  have "holds_on (cs_owner s) (snd (observe_response (Some r) (cs_owner s)))"
    using observe_response_owner [of "Some r" "cs_owner s"] by auto
  from holds_on_trans [OF _ this] 7 show ?case by (auto simp: kept_since_def)
next
  case (8 s)
  obtain e where "snd (observe_response None (cs_owner s)) = snd (retain_unknown e (cs_owner s))"
    using observe_lost by blast
  with 8 show ?case by (simp add: kept_since_def holds_steps)
next
  case (9 s)
  then show ?case by (simp add: kept_since_def holds_on_def)
qed

lemma call_steps_kept:
  assumes "call_created s0" and "(call_step lo rf dd c)\<^sup>*\<^sup>* s0 s"
  shows "reach call_created (call_step lo rf dd c) s \<and> kept_since (cs_owner s0) s"
  using assms(2)
proof (induction rule: rtranclp_induct)
  case base
  have "kept_since (cs_owner s0) s0" using assms(1) by (auto simp: kept_since_def call_created_def Let_def)
  with reach_init [of call_created, OF assms(1)] show ?case by simp
next
  case (step t u)
  from step(3) have t: "reach call_created (call_step lo rf dd c) t" "kept_since (cs_owner s0) t" by simp_all
  from reach_step [OF t(1) step(2)] call_step_kept [OF step(2) t(2)] show ?case by simp
qed


text \<open>A streaming call of an Agent: the setup is acknowledged, then the terminal of the stream arrives.\<close>

definition sample_lease_ops :: "nat lease_ops" where
  "sample_lease_ops = \<lparr>lo_settle = (\<lambda>_ n. (n = 0, 1)), lo_settlement = (\<lambda>_. Some Answered)\<rparr>"

definition sample_results :: "string result_facts" where
  "sample_results = \<lparr>rf_operation = (\<lambda>_. OpAgentExecute), rf_len = (\<lambda>s. Some (length s))\<rparr>"

definition sample_decoder :: data_decoder where
  "sample_decoder = \<lparr>dd_len = (\<lambda>_. None), dd_decode = (\<lambda>_. None)\<rparr>"

definition sample_owned_call :: owned_call where
  "sample_owned_call = \<lparr>oc_policy = CustomAgentPolicy, oc_operation = OpAgentExecuteStream,
     oc_expected = Some sample_stream_handle, oc_limit = Ok 1000\<rparr>"

definition sample_callback_owner :: "(string, nat) callback_owner" where
  "sample_callback_owner = \<lparr>co_id = 0, co_context = None, co_registered = True, co_retained = False, co_lease = None,
     co_guards = True, co_factory = None, co_holds_factory = False, co_observation = None, co_refusal = None,
     co_pending_failure = None, co_physical_closed = False, co_response_completed = False, co_finished = False,
     co_observer = None\<rparr>"

definition sample_call :: "(string, nat) call_state" where
  "sample_call = \<lparr>cs_owner = sample_callback_owner, cs_submitted = False, cs_final = False, cs_reply = None, cs_remote = Some False\<rparr>"

definition sample_acknowledged :: "(string, nat) call_state" where
  "sample_acknowledged = \<lparr>cs_owner = sample_callback_owner\<lparr>co_lease := Some 1, co_response_completed := True\<rparr>,
     cs_submitted = True, cs_final = False, cs_reply = Some (Ok None), cs_remote = Some False\<rparr>"

lemma sample_handle_valid: "validate_handle sample_stream_handle = Ok ()" "h_kind sample_stream_handle = StreamKind"
  using sample_handles_shape(2) [of sample_registry] sample_registry_fields(1)
  by (auto simp: check_shape_Ok is_ok_iff)

lemma sample_acknowledgement:
  "on_response sample_lease_ops sample_results sample_decoder sample_owned_call None (Some False)
     (Inr (OutStream sample_stream_handle)) (sample_callback_owner\<lparr>co_lease := Some 0\<rparr>) =
   (Ok None, False, sample_callback_owner\<lparr>co_lease := Some 1, co_response_completed := True\<rparr>)"
  by (simp add: on_response_def acknowledged_close_def settle_answer_with_def source_observation_def settle_outcome_def
      accept_outcome_def retain_in_result_def is_setup_ack_def is_final_response_def has_original_peer_response_def
      sample_handle_valid sample_owned_call_def sample_lease_ops_def record_peer_response_def finish_if_physical_facts_def
      Let_def)

lemma sample_call_created: "call_created sample_call"
  by (simp add: call_created_def sample_call_def sample_callback_owner_def observer_flags_def)

lemma sample_acknowledged_steps:
  "(call_step sample_lease_ops sample_results sample_decoder sample_owned_call)\<^sup>*\<^sup>* sample_call sample_acknowledged"
proof -
  let ?step = "call_step sample_lease_ops sample_results sample_decoder sample_owned_call"
  let ?sent = "sample_call\<lparr>cs_owner := on_submit sample_owned_call 0 (cs_owner sample_call), cs_submitted := True\<rparr>"
  have sent: "?step sample_call ?sent"
    by (rule st_submit) (simp add: sample_call_def)
  have owner: "cs_owner ?sent = sample_callback_owner\<lparr>co_lease := Some 0\<rparr>"
    by (simp add: on_submit_def expect_close_reply_def sample_owned_call_def sample_call_def) (simp add: sample_callback_owner_def)
  have facts: "cs_submitted ?sent" "cs_reply ?sent = None" "cs_remote ?sent = Some False" by (simp_all add: sample_call_def)
  have "on_response sample_lease_ops sample_results sample_decoder sample_owned_call None (cs_remote ?sent)
     (Inr (OutStream sample_stream_handle)) (cs_owner ?sent) =
     (Ok None, False, sample_callback_owner\<lparr>co_lease := Some 1, co_response_completed := True\<rparr>)"
    unfolding owner facts(3) by (rule sample_acknowledgement)
  from st_response [OF facts(1,2) this] sent show ?thesis
    by (simp add: sample_call_def sample_acknowledged_def is_final_response_def)
qed


lemma retain_in_result_Ok: "retain_in_result c answer result o' = (Ok r, o1) \<Longrightarrow> result = Ok r \<and> o1 = o'"
  by (auto simp: retain_in_result_def Let_def split: sum.splits prod.splits if_splits)

lemma pending_failure_kept [simp]:
  "co_pending_failure (record_peer_response b o') = co_pending_failure o'"
  "co_pending_failure (finish_closure_with_reply is_close reply o') = co_pending_failure o'"
  "co_pending_failure (snd (finish_if_physical_facts received o')) = co_pending_failure o'"
  by (simp_all add: record_peer_response_def finish_closure_effect finish_if_physical_facts_def finish_closure_def)

lemma on_response_Ok:
  assumes "on_response lo rf dd c interruption remote answer o' = (Ok r, ended, o'')"
  obtains lease l o1 where "co_lease o' = Some lease"
    "settle_answer_with lo rf dd c interruption answer lease (o'\<lparr>co_lease := None\<rparr>) = (Ok r, l, o1)"
    "co_pending_failure o'' = co_pending_failure o1"
proof (cases "co_lease o'")
  case None
  with assms show ?thesis by (simp add: on_response_def Let_def)
next
  case (Some lease)
  obtain r0 l o1 where settled: "settle_answer_with lo rf dd c interruption answer lease (o'\<lparr>co_lease := None\<rparr>) = (r0, l, o1)"
    by (metis prod_cases3)
  obtain r1 o2 where retained: "retain_in_result c answer r0 o1 = (r1, o2)" by fastforce
  with assms Some settled have "r1 = Ok r" by (simp add: on_response_def Let_def)
  with retained retain_in_result_Ok have "r0 = Ok r" "o2 = o1" by blast+
  moreover have "co_pending_failure o'' = co_pending_failure o2"
    using assms Some settled retained
    by (auto simp: on_response_def Let_def split: option.splits if_splits)
  ultimately show ?thesis using that [OF Some] settled by simp
qed

text \<open>C23: a callback succeeds only with the answer to its own call: a result of the called operation within the
  payload bound, or the acknowledgement of exactly the stream the Host minted; when the call had been interrupted
  the acknowledgement is accepted, but the interruption stays pending for its consumer. An answer that carries an
  observation never succeeds.\<close>

theorem callback_success_answers_the_call:
  assumes "on_response lo rf dd c interruption remote answer o' = (Ok r, ended, o'')"
  shows "source_observation dd (oc_policy c) answer = None \<and>
    (case r of
       Some result \<Rightarrow> interruption = None \<and> answer = Inr (OutResult result) \<and> rf_operation rf result = oc_operation c \<and>
         \<not> is_streaming (oc_operation c) \<and> (\<exists>l n. oc_limit c = Ok l \<and> rf_len rf result = Some n \<and> n \<le> unat l)
     | None \<Rightarrow> (\<exists>h. answer = Inr (OutStream h) \<and> oc_expected c = Some h \<and>
         (interruption \<noteq> None \<longrightarrow> co_pending_failure o'' = interruption)))"
proof -
  obtain lease l o1 where settled: "settle_answer_with lo rf dd c interruption answer lease (o'\<lparr>co_lease := None\<rparr>) = (Ok r, l, o1)"
    and pending: "co_pending_failure o'' = co_pending_failure o1" by (rule on_response_Ok [OF assms])
  have src: "source_observation dd (oc_policy c) answer = None"
    using settled by (auto simp: settle_answer_with_def split: option.splits)
  show ?thesis
  proof (cases interruption)
    case (Some e)
    with settled src pending show ?thesis
      by (auto simp: settle_answer_with_def is_setup_ack_def Let_def split: if_splits sum.splits invoke_outcome.splits)
  next
    case None
    with settled src obtain outcome where answer: "answer = Inr outcome"
      and "settle_outcome lo rf (oc_limit c) lease outcome (oc_operation c) (oc_expected c) = (Ok r, l)"
      by (auto simp: settle_answer_with_def Let_def split: sum.splits prod.splits)
    then have "accept_outcome rf (oc_limit c) (oc_operation c) (oc_expected c) outcome = Ok r"
      using settle_outcome_Ok [of lo rf "oc_limit c" lease outcome "oc_operation c" "oc_expected c" r] by simp
    with None answer src show ?thesis by (auto simp: accept_outcome_Ok split: option.splits)
  qed
qed

theorem callback_success_answers_the_call_witness:
  "\<exists>h. (Inr (OutStream sample_stream_handle) :: peer_error + string invoke_outcome) = Inr (OutStream h) \<and>
     oc_expected sample_owned_call = Some h"
  using callback_success_answers_the_call [OF sample_acknowledgement] by simp

end
