(* ===== verification/Extension_Stream.thy ===== *)
theory Extension_Stream
  imports Callback_Owner
begin

text \<open>
  The streams of reverse invocations (\<open>core_profile/extension_bridge.rs\<close>): the events the client sends
  (\<open>echo-sdk-protocol/src/methods.rs\<close>), the sink of one stream with its bounded mailbox and its ledger of
  sequences and terminals, the table that routes an event to its sink, and the consumer that turns the mailbox,
  the terminal and the response of the call into the items of one framework stream.
\<close>

section \<open>Events\<close>

text \<open>Of the payloads the sink knows the kind, the serialized length and the finish reason of an LLM terminal.\<close>

datatype 'p chunk_value = ChunkTool 'p | ChunkLlm 'p | ChunkAgent 'p | ChunkChannel 'p | ChunkComponent 'p

datatype 'p complete_value =
    CompleteTool 'p | CompleteLlm string 'p | CompleteAgent 'p | CompleteChannel 'p | CompleteComponent 'p

fun chunk_kind :: "'p chunk_value \<Rightarrow> extension_kind" where
  "chunk_kind (ChunkTool _) = KTool"
| "chunk_kind (ChunkLlm _) = KLlmClient"
| "chunk_kind (ChunkAgent _) = KCustomAgent"
| "chunk_kind (ChunkChannel _) = KChannelMessageHandler"
| "chunk_kind (ChunkComponent _) = KAgentComponent"

fun complete_kind :: "'p complete_value \<Rightarrow> extension_kind" where
  "complete_kind (CompleteTool _) = KTool"
| "complete_kind (CompleteLlm _ _) = KLlmClient"
| "complete_kind (CompleteAgent _) = KCustomAgent"
| "complete_kind (CompleteChannel _) = KChannelMessageHandler"
| "complete_kind (CompleteComponent _) = KAgentComponent"

datatype 'p reverse_event =
    EvChunk (ev_stream: wire_handle) (ev_sequence: wire_non_zero_u64) "'p chunk_value"
  | EvComplete (ev_stream: wire_handle) (ev_sequence: wire_non_zero_u64) "'p complete_value"
  | EvFailed (ev_stream: wire_handle) (ev_sequence: wire_non_zero_u64) sdk_err
  | EvCancelled (ev_stream: wire_handle) (ev_sequence: wire_non_zero_u64)

fun is_terminal :: "'p reverse_event \<Rightarrow> bool" where
  "is_terminal (EvChunk _ _ _) = False"
| "is_terminal _ = True"

record 'p value_len =
  vl_chunk :: "'p chunk_value \<Rightarrow> nat option"
  vl_complete :: "'p complete_value \<Rightarrow> nat option"

definition check_value_len :: "nat option \<Rightarrow> string + unit" where
  "check_value_len len =
     and_then (ok_or len ''stream value is not encodable'') (\<lambda>n.
       reject_if (max_extension_stream_chunk_bytes < n) ''stream value exceeds the chunk bound'')"

fun validate_event_body :: "'p value_len \<Rightarrow> 'p reverse_event \<Rightarrow> string + unit" where
  "validate_event_body vl (EvChunk _ _ v) = check_value_len (vl_chunk vl v)"
| "validate_event_body vl (EvComplete _ _ v) =
     (case v of
        CompleteLlm reason _ \<Rightarrow>
          if blank reason \<or> 256 < length reason then Err ''LLM stream terminal requires a bounded finish reason''
          else check_value_len (vl_complete vl v)
      | _ \<Rightarrow> check_value_len (vl_complete vl v))"
| "validate_event_body vl (EvFailed _ _ e) = validate_sdk_err e"
| "validate_event_body vl (EvCancelled _ _) = Ok ()"

definition validate_event :: "'p value_len \<Rightarrow> 'p reverse_event \<Rightarrow> string + unit" where
  "validate_event vl ev =
     and_then (validate_event_body vl ev) (\<lambda>_.
     and_then (validate_handle (ev_stream ev)) (\<lambda>_.
     and_then (reject_if (h_kind (ev_stream ev) \<noteq> StreamKind) ''stream event requires a stream handle'') (\<lambda>_.
       reject_if (case nz_to_u64 (ev_sequence ev) of None \<Rightarrow> True | Some q \<Rightarrow> q = 0)
         ''stream sequence must start at one'')))"

text \<open>A failure that only reports an observation is no physical terminal.\<close>

definition is_observation :: "'p reverse_event \<Rightarrow> bool" where
  "is_observation ev = (case ev of EvFailed _ _ e \<Rightarrow> has_observation_hint e | _ \<Rightarrow> False)"

definition physical_terminal :: "'p reverse_event \<Rightarrow> bool" where
  "physical_terminal ev = (is_terminal ev \<and> \<not> is_observation ev)"

definition payload_kind :: "'p reverse_event \<Rightarrow> extension_kind option" where
  "payload_kind ev =
     (case ev of EvChunk _ _ v \<Rightarrow> Some (chunk_kind v) | EvComplete _ _ v \<Rightarrow> Some (complete_kind v) | _ \<Rightarrow> None)"

section \<open>Sinks\<close>

text \<open>
  \<open>sk_mailbox\<close> is the content of the bounded channel, \<open>sk_receiver_open\<close> its receiver; \<open>sk_owner\<close> the address of
  the callback's owner, \<open>sk_session_callback\<close> the Session whose callback count the sink's guard holds.
\<close>

record 'p stream_sink =
  sk_stream :: wire_handle
  sk_extension_id :: string
  sk_value_kind :: extension_kind
  sk_capacity :: usize
  sk_mailbox :: "'p reverse_event list"
  sk_receiver_open :: bool
  sk_last_sequence :: u64
  sk_remote_last_sequence :: u64
  sk_terminal_seen :: bool
  sk_terminal :: "'p reverse_event option"
  sk_session_callback :: "string option"
  sk_retain :: bool
  sk_remote_terminal :: bool
  sk_owner :: "nat option"

definition new_sink :: "wire_handle \<Rightarrow> string \<Rightarrow> extension_kind \<Rightarrow> usize \<Rightarrow> string option \<Rightarrow> 'p stream_sink" where
  "new_sink h extension_id kind capacity callback =
     \<lparr>sk_stream = h, sk_extension_id = extension_id, sk_value_kind = kind,
      sk_capacity = (if capacity = 0 then 1 else capacity), sk_mailbox = [], sk_receiver_open = True,
      sk_last_sequence = 0, sk_remote_last_sequence = 0, sk_terminal_seen = False, sk_terminal = None,
      sk_session_callback = callback, sk_retain = False, sk_remote_terminal = False, sk_owner = None\<rparr>"

datatype send_result = Sent | SendFull | SendClosed

definition try_send :: "'p reverse_event \<Rightarrow> 'p stream_sink \<Rightarrow> send_result \<times> 'p stream_sink" where
  "try_send ev sk =
     (if \<not> sk_receiver_open sk then (SendClosed, sk)
      else if length (sk_mailbox sk) < unat (sk_capacity sk) then (Sent, sk\<lparr>sk_mailbox := sk_mailbox sk @ [ev]\<rparr>)
      else (SendFull, sk))"

definition clear_terminal :: "'p stream_sink \<Rightarrow> 'p stream_sink" where
  "clear_terminal sk = sk\<lparr>sk_terminal := None\<rparr>"

definition take_terminal :: "'p stream_sink \<Rightarrow> 'p reverse_event option \<times> 'p stream_sink" where
  "take_terminal sk = (sk_terminal sk, sk\<lparr>sk_terminal := None\<rparr>)"

text \<open>A terminal that is stored first, and is cleared again when the mailbox takes it.\<close>

definition publish_terminal :: "'p reverse_event \<Rightarrow> 'p stream_sink \<Rightarrow> 'p stream_sink" where
  "publish_terminal ev sk =
     (case try_send ev (sk\<lparr>sk_terminal_seen := True, sk_terminal := Some ev\<rparr>) of
        (Sent, sk') \<Rightarrow> clear_terminal sk'
      | (_, sk') \<Rightarrow> sk')"

definition observe_remote_sequence :: "'p reverse_event \<Rightarrow> 'p stream_sink \<Rightarrow> bool \<times> 'p stream_sink" where
  "observe_remote_sequence ev sk =
     (case nz_to_u64 (ev_sequence ev) of
        None \<Rightarrow> (False, sk)
      | Some q \<Rightarrow>
          if sk_remote_terminal sk \<or> checked_add (sk_remote_last_sequence sk) 1 \<noteq> Some q then (False, sk)
          else (True, sk\<lparr>sk_remote_last_sequence := q\<rparr>))"

definition admit_event :: "'p reverse_event \<Rightarrow> 'p stream_sink \<Rightarrow> bool \<times> 'p stream_sink" where
  "admit_event ev sk =
     (case checked_add (sk_last_sequence sk) 1 of
        None \<Rightarrow> (False, sk)
      | Some expected \<Rightarrow>
          (let q = option_default (nz_to_u64 (ev_sequence ev)) 0 in
           if sk_terminal_seen sk \<or> q \<noteq> expected then (False, sk)
           else
             let sk1 = sk\<lparr>sk_last_sequence := q, sk_terminal_seen := physical_terminal ev\<rparr>
             in (True, if physical_terminal ev then sk1\<lparr>sk_terminal := Some ev\<rparr> else sk1)))"

definition stream_failed :: "error_code \<Rightarrow> string \<Rightarrow> sdk_err" where
  "stream_failed code reason = sdk_error code reason Never ''_echo_agent/extension/stream''"

definition fail_undelivered :: "wire_non_zero_u64 \<Rightarrow> string \<Rightarrow> 'p stream_sink \<Rightarrow> 'p stream_sink" where
  "fail_undelivered sequence reason sk =
     publish_terminal (EvFailed (sk_stream sk) sequence (stream_failed ExtensionFailed reason)) sk"

text \<open>\<open>terminate\<close>: the terminal of the local side, with the next sequence.\<close>

definition terminate_sink :: "(wire_non_zero_u64 \<Rightarrow> 'p reverse_event) \<Rightarrow> 'p stream_sink \<Rightarrow> 'p stream_sink" where
  "terminate_sink build sk =
     (if sk_terminal_seen sk then sk
      else case checked_add (sk_last_sequence sk) 1 of
        None \<Rightarrow> sk
      | Some v \<Rightarrow>
          (case wire_non_zero_try_from (show_nat (unat v)) of
             Inl _ \<Rightarrow> sk
           | Inr sequence \<Rightarrow>
               publish_terminal (build sequence)
                 (sk\<lparr>sk_last_sequence := option_default (nz_to_u64 sequence) 0\<rparr>)))"

definition close_sink :: "'p stream_sink \<Rightarrow> 'p stream_sink" where
  "close_sink sk = (terminate_sink (EvCancelled (sk_stream sk)) sk)\<lparr>sk_session_callback := None\<rparr>"

definition fail_sink :: "error_code \<Rightarrow> string \<Rightarrow> 'p stream_sink \<Rightarrow> 'p stream_sink" where
  "fail_sink code reason sk =
     terminate_sink (\<lambda>sequence. EvFailed (sk_stream sk) sequence (stream_failed code reason)) sk"

section \<open>The table of streams\<close>

text \<open>
  Sinks and owners are shared and known by their addresses; an owner that was dropped has none. Cleanup tasks
  are known by a number.
\<close>

record ('p, 'r, 'l) bridge_shared =
  bs_connected :: bool
  bs_streams :: "nat hmap"
  bs_sinks :: "nat \<Rightarrow> 'p stream_sink"
  bs_owners :: "nat \<Rightarrow> ('r, 'l) callback_owner option"
  bs_session_callbacks :: "usize hmap"
  bs_cleanup_tasks :: "nat list"
  bs_aborted :: "nat list"
  bs_cleanup_closed :: bool

definition new_bridge :: "(nat \<Rightarrow> 'p stream_sink) \<Rightarrow> ('p, 'r, 'l) bridge_shared" where
  "new_bridge sinks =
     \<lparr>bs_connected = False, bs_streams = [], bs_sinks = sinks, bs_owners = (\<lambda>_. None), bs_session_callbacks = [],
      bs_cleanup_tasks = [], bs_aborted = [], bs_cleanup_closed = False\<rparr>"

definition enter_session_callback ::
  "string option \<Rightarrow> ('p, 'r, 'l) bridge_shared \<Rightarrow> string option \<times> ('p, 'r, 'l) bridge_shared" where
  "enter_session_callback session_id b =
     (case session_id of
        None \<Rightarrow> (None, b)
      | Some i \<Rightarrow>
          (Some i, b\<lparr>bs_session_callbacks :=
             hput i (saturating_add (option_default (hget (bs_session_callbacks b) i) 0) 1) (bs_session_callbacks b)\<rparr>))"

definition has_active_session_callback :: "string \<Rightarrow> ('p, 'r, 'l) bridge_shared \<Rightarrow> bool" where
  "has_active_session_callback i b = (case hget (bs_session_callbacks b) i of None \<Rightarrow> False | Some n \<Rightarrow> 0 < n)"

text \<open>The drop of the guard.\<close>

definition leave_session_callback :: "string option \<Rightarrow> ('p, 'r, 'l) bridge_shared \<Rightarrow> ('p, 'r, 'l) bridge_shared" where
  "leave_session_callback guard b =
     (case guard of
        None \<Rightarrow> b
      | Some i \<Rightarrow>
          (case hget (bs_session_callbacks b) i of
             None \<Rightarrow> b
           | Some n \<Rightarrow>
               let m = saturating_sub n 1 in
               b\<lparr>bs_session_callbacks := (if m = 0 then hdel i (bs_session_callbacks b) else hput i m (bs_session_callbacks b))\<rparr>))"

definition bind_connection :: "('p, 'r, 'l) bridge_shared \<Rightarrow> ('p, 'r, 'l) bridge_shared" where
  "bind_connection b = b\<lparr>bs_connected := True\<rparr>"

definition bridge_connection :: "('p, 'r, 'l) bridge_shared \<Rightarrow> sdk_err + unit" where
  "bridge_connection b =
     reject_if (\<not> bs_connected b)
       (invoke_error ExtensionDisconnected ''extension transport is not bound to a connection'')"

definition put_sink :: "nat \<Rightarrow> 'p stream_sink \<Rightarrow> ('p, 'r, 'l) bridge_shared \<Rightarrow> ('p, 'r, 'l) bridge_shared" where
  "put_sink a sk b = b\<lparr>bs_sinks := (bs_sinks b)(a := sk)\<rparr>"

definition on_sink :: "nat \<Rightarrow> ('p stream_sink \<Rightarrow> 'p stream_sink) \<Rightarrow> ('p, 'r, 'l) bridge_shared \<Rightarrow> ('p, 'r, 'l) bridge_shared" where
  "on_sink a f b = put_sink a (f (bs_sinks b a)) b"

definition register_stream :: "nat \<Rightarrow> 'p stream_sink \<Rightarrow> ('p, 'r, 'l) bridge_shared \<Rightarrow> ('p, 'r, 'l) bridge_shared" where
  "register_stream a sk b = (put_sink a sk b)\<lparr>bs_streams := hput (h_id (sk_stream sk)) a (bs_streams b)\<rparr>"

text \<open>The close of a sink drops its guard.\<close>

definition close_at :: "nat \<Rightarrow> ('p, 'r, 'l) bridge_shared \<Rightarrow> ('p, 'r, 'l) bridge_shared" where
  "close_at a b = leave_session_callback (sk_session_callback (bs_sinks b a)) (on_sink a close_sink b)"

definition remove_stream :: "string \<Rightarrow> ('p, 'r, 'l) bridge_shared \<Rightarrow> ('p, 'r, 'l) bridge_shared" where
  "remove_stream stream_id b =
     (case hget (bs_streams b) stream_id of
        None \<Rightarrow> b
      | Some a \<Rightarrow> close_at a (b\<lparr>bs_streams := hdel stream_id (bs_streams b)\<rparr>))"

definition remove_streams_for_extension :: "string \<Rightarrow> ('p, 'r, 'l) bridge_shared \<Rightarrow> ('p, 'r, 'l) bridge_shared" where
  "remove_streams_for_extension extension_id b =
     (let mine = filter (\<lambda>e. sk_extension_id (bs_sinks b (snd e)) = extension_id) (bs_streams b)
      in fold (close_at \<circ> snd) mine (b\<lparr>bs_streams := fold (hdel \<circ> fst) mine (bs_streams b)\<rparr>))"

definition close_every_stream :: "('p, 'r, 'l) bridge_shared \<Rightarrow> ('p, 'r, 'l) bridge_shared" where
  "close_every_stream b =
     fold (close_at \<circ> snd) (bs_streams b)
       (b\<lparr>bs_cleanup_closed := True, bs_aborted := bs_aborted b @ bs_cleanup_tasks b, bs_cleanup_tasks := [],
          bs_streams := []\<rparr>)"

definition track_factory_cleanup ::
  "(nat \<Rightarrow> bool) \<Rightarrow> nat \<Rightarrow> ('p, 'r, 'l) bridge_shared \<Rightarrow> ('p, 'r, 'l) bridge_shared" where
  "track_factory_cleanup is_finished task b =
     (let tasks = filter (\<lambda>t. \<not> is_finished t) (bs_cleanup_tasks b) in
      if bs_cleanup_closed b then b\<lparr>bs_cleanup_tasks := tasks, bs_aborted := bs_aborted b @ [task]\<rparr>
      else b\<lparr>bs_cleanup_tasks := tasks @ [task]\<rparr>)"

definition owns_settlement_stream :: "wire_handle \<Rightarrow> string \<Rightarrow> ('p, 'r, 'l) bridge_shared \<Rightarrow> bool" where
  "owns_settlement_stream h extension_id b =
     (case hget (bs_streams b) (h_id h) of
        None \<Rightarrow> False
      | Some a \<Rightarrow> sk_stream (bs_sinks b a) = h \<and> sk_extension_id (bs_sinks b a) = extension_id)"

section \<open>Routing an event\<close>

definition fail_stream :: "wire_handle \<Rightarrow> string \<Rightarrow> ('p, 'r, 'l) bridge_shared \<Rightarrow> ('p, 'r, 'l) bridge_shared" where
  "fail_stream h reason b =
     (case hget (bs_streams b) (h_id h) of
        None \<Rightarrow> b
      | Some a \<Rightarrow>
          (let b1 = on_sink a
                 (terminate_sink (\<lambda>sequence. EvFailed h sequence (stream_failed SerializationViolation reason))) b
           in if sk_retain (bs_sinks b1 a) then b1 else remove_stream (h_id (sk_stream (bs_sinks b1 a))) b1))"

text \<open>The owner of a sink, when it is still alive.\<close>

definition on_owner ::
  "nat \<Rightarrow> (('r, 'l) callback_owner \<Rightarrow> ('r, 'l) callback_owner) \<Rightarrow> ('p, 'r, 'l) bridge_shared \<Rightarrow> ('p, 'r, 'l) bridge_shared" where
  "on_owner a f b =
     (case sk_owner (bs_sinks b a) of
        None \<Rightarrow> b
      | Some i \<Rightarrow> b\<lparr>bs_owners := (bs_owners b)(i := map_option f (bs_owners b i))\<rparr>)"

text \<open>An event that violates the contract: why.\<close>

definition event_violation :: "'p value_len \<Rightarrow> 'p reverse_event \<Rightarrow> string option" where
  "event_violation vl ev =
     (case validate_event vl ev of
        Inl reason \<Rightarrow> Some reason
      | Inr _ \<Rightarrow>
          (case ev of
             EvFailed _ _ e \<Rightarrow>
               if has_observation_hint e \<and> observation_from_sdk_error e = None
               then Some ''observation has malformed identity or envelope fields'' else None
           | _ \<Rightarrow> None))"

text \<open>What the original receive ledger makes of an event that was accepted: the observation, the physical terminal.\<close>

definition ledger_event :: "nat \<Rightarrow> 'p reverse_event \<Rightarrow> ('p, 'r, 'l) bridge_shared \<Rightarrow> ('p, 'r, 'l) bridge_shared" where
  "ledger_event a ev b =
     (let b1 = (case ev of
                  EvFailed _ _ e \<Rightarrow> if has_observation_hint e then on_owner a (snd \<circ> retain_unknown e) b else b
                | _ \<Rightarrow> b)
      in if physical_terminal ev
         then on_owner a (snd \<circ> finish_if_physical_facts True) (on_sink a (\<lambda>sk. sk\<lparr>sk_remote_terminal := True\<rparr>) b1)
         else b1)"

definition sequence_reason :: "u64 \<Rightarrow> string" where
  "sequence_reason q =
     ''extension stream sequence '' @ show_nat (unat q) @
     '' is not the next contiguous value or follows a terminal''"

definition mailbox_reason :: string where
  "mailbox_reason = ''extension stream consumer exceeded its bounded mailbox''"

text \<open>Into the mailbox; a full mailbox ends the stream at the same sequence.\<close>

definition offer_event :: "'p reverse_event \<Rightarrow> 'p stream_sink \<Rightarrow> send_result \<times> 'p stream_sink" where
  "offer_event ev sk =
     (case try_send ev sk of
        (Sent, sk1) \<Rightarrow> (Sent, if physical_terminal ev then clear_terminal sk1 else sk1)
      | (SendClosed, sk1) \<Rightarrow> (SendClosed, sk1)
      | (SendFull, sk1) \<Rightarrow> (SendFull, fail_undelivered (ev_sequence ev) mailbox_reason sk1))"

definition unless_retained :: "nat \<Rightarrow> ('p, 'r, 'l) bridge_shared \<Rightarrow> ('p, 'r, 'l) bridge_shared" where
  "unless_retained a b =
     (if sk_retain (bs_sinks b a) then b else remove_stream (h_id (sk_stream (bs_sinks b a))) b)"

definition enqueue_event :: "nat \<Rightarrow> 'p reverse_event \<Rightarrow> ('p, 'r, 'l) bridge_shared \<Rightarrow> (string + unit) \<times> ('p, 'r, 'l) bridge_shared" where
  "enqueue_event a ev b =
     (case admit_event ev (bs_sinks b a) of
        (False, sk) \<Rightarrow>
          (let reason = sequence_reason (option_default (nz_to_u64 (ev_sequence ev)) 0)
           in (Err reason, fail_stream (sk_stream sk) reason (put_sink a sk b)))
      | (True, sk) \<Rightarrow>
          (case offer_event ev sk of
             (Sent, sk1) \<Rightarrow> (Ok (), put_sink a sk1 b)
           | (SendClosed, sk1) \<Rightarrow> (Ok (), unless_retained a (put_sink a sk1 b))
           | (SendFull, sk1) \<Rightarrow> (Err mailbox_reason, unless_retained a (put_sink a sk1 b))))"

definition kind_reason :: string where
  "kind_reason = ''extension stream payload kind does not match the invocation''"

definition contiguous_reason :: string where
  "contiguous_reason = ''extension stream remote sequence is not contiguous''"

definition deliver_stream_event ::
  "'p value_len \<Rightarrow> 'p reverse_event \<Rightarrow> ('p, 'r, 'l) bridge_shared \<Rightarrow> (string + unit) \<times> ('p, 'r, 'l) bridge_shared" where
  "deliver_stream_event vl ev b =
     (case hget (bs_streams b) (h_id (ev_stream ev)) of
        None \<Rightarrow> (Ok (), b)
      | Some a \<Rightarrow>
          if ev_stream ev \<noteq> sk_stream (bs_sinks b a)
          then (Err ''extension stream handle does not match the original owner/generation'', b)
          else case event_violation vl ev of
            Some reason \<Rightarrow>
              (Err (''stream event violated the contract: '' @ reason),
               if is_observation ev then on_owner a (snd \<circ> retain_unknown (invalid_observation reason)) b
               else fail_stream (ev_stream ev) reason b)
          | None \<Rightarrow>
              if (case payload_kind ev of None \<Rightarrow> False | Some k \<Rightarrow> k \<noteq> sk_value_kind (bs_sinks b a))
              then (Err kind_reason, fail_stream (sk_stream (bs_sinks b a)) kind_reason b)
              else (case observe_remote_sequence ev (bs_sinks b a) of
                (False, sk) \<Rightarrow> (Err contiguous_reason, fail_stream (sk_stream sk) contiguous_reason (put_sink a sk b))
              | (True, sk) \<Rightarrow> enqueue_event a ev (ledger_event a ev (put_sink a sk b))))"

text \<open>\<open>PendingExtensionStream\<close>: its drop releases the stream of the call, here and in the registry.\<close>

definition release_stream ::
  "wire_handle \<Rightarrow> ('p, 'r, 'l) bridge_shared \<times> 'd handle_inner \<Rightarrow> ('p, 'r, 'l) bridge_shared \<times> 'd handle_inner" where
  "release_stream h s = (remove_stream (h_id h) (fst s), remove_extension_stream (h_id h) (snd s))"

section \<open>Sinks step by step\<close>

text \<open>
  Everything the bridge does to a sink is one of these: an event of its own stream that passed the checks is
  admitted and offered, the remote ledger advances, the stream is ended locally, the guard or the retention
  changes. The receiving side takes from the mailbox and from the stored terminal.
\<close>

definition fits :: "'p value_len \<Rightarrow> 'p stream_sink \<Rightarrow> 'p reverse_event \<Rightarrow> bool" where
  "fits vl sk ev =
     (ev_stream ev = sk_stream sk \<and> event_violation vl ev = None \<and>
      (case payload_kind ev of None \<Rightarrow> True | Some k \<Rightarrow> k = sk_value_kind sk))"

inductive sink_step :: "'p value_len \<Rightarrow> 'p stream_sink \<Rightarrow> 'p stream_sink \<Rightarrow> bool" for vl where
  ss_offer: "fits vl sk ev \<Longrightarrow> admit_event ev sk = (True, sk1) \<Longrightarrow> offer_event ev sk1 = (sent, sk2) \<Longrightarrow> sink_step vl sk sk2"
| ss_remote: "observe_remote_sequence ev sk = (True, sk1) \<Longrightarrow>
     sink_step vl sk (if terminal then sk1\<lparr>sk_remote_terminal := True\<rparr> else sk1)"
| ss_fail: "\<not> has_observation_hint e \<Longrightarrow>
     sink_step vl sk (terminate_sink (\<lambda>sequence. EvFailed h sequence e) sk)"
| ss_close: "sink_step vl sk (close_sink sk)"

lemma stream_failed_no_hint [simp]: "\<not> has_observation_hint (stream_failed code reason)"
  by (simp add: stream_failed_def has_observation_hint_def detail_fields_def sdk_error_def sdk_error_new_def with_operation_def)

definition sinks_step :: "'p value_len \<Rightarrow> ('p, 'r, 'l) bridge_shared \<Rightarrow> ('p, 'r, 'l) bridge_shared \<Rightarrow> bool" where
  "sinks_step vl b b' = (\<forall>a. (sink_step vl)\<^sup>*\<^sup>* (bs_sinks b a) (bs_sinks b' a))"

lemma sinks_step_refl [simp]: "bs_sinks b' = bs_sinks b \<Longrightarrow> sinks_step vl b b'"
  by (simp add: sinks_step_def)

lemma sinks_step_trans: "sinks_step vl b b' \<Longrightarrow> sinks_step vl b' b'' \<Longrightarrow> sinks_step vl b b''"
  unfolding sinks_step_def by (meson rtranclp_trans)

lemma sinks_step_put: "sink_step vl (bs_sinks b a) sk \<Longrightarrow> sinks_step vl b (put_sink a sk b)"
  by (auto simp: sinks_step_def put_sink_def)

lemma leave_session_callback_sinks [simp]: "bs_sinks (leave_session_callback guard b) = bs_sinks b"
  by (simp add: leave_session_callback_def Let_def split: option.splits)

lemma on_owner_sinks [simp]: "bs_sinks (on_owner a f b) = bs_sinks b" "bs_streams (on_owner a f b) = bs_streams b"
  by (simp_all add: on_owner_def split: option.splits)

lemma put_sink_sinks [simp]:
  "bs_sinks (put_sink a sk b) = (bs_sinks b)(a := sk)" "bs_streams (put_sink a sk b) = bs_streams b"
  by (simp_all add: put_sink_def)

lemma close_at_step: "sinks_step vl b (close_at a b)"
  by (auto simp: close_at_def on_sink_def sinks_step_def put_sink_def intro: ss_close)

lemma fold_close_step: "sinks_step vl b (fold (close_at \<circ> f) es b)"
proof (induction es arbitrary: b)
  case (Cons e es)
  from sinks_step_trans [OF close_at_step Cons.IH] show ?case by simp
qed simp

lemma remove_stream_step: "sinks_step vl b (remove_stream i b)"
proof (cases "hget (bs_streams b) i")
  case (Some a)
  then show ?thesis
    using close_at_step [of vl "b\<lparr>bs_streams := hdel i (bs_streams b)\<rparr>" a]
    by (simp add: remove_stream_def sinks_step_def)
qed (simp add: remove_stream_def)

lemma remove_streams_for_extension_step: "sinks_step vl b (remove_streams_for_extension i b)"
  using fold_close_step [of vl "b\<lparr>bs_streams := streams\<rparr>" for streams]
  by (simp add: remove_streams_for_extension_def Let_def sinks_step_def)

lemma close_every_stream_step: "sinks_step vl b (close_every_stream b)"
  using fold_close_step [of vl "b\<lparr>bs_cleanup_closed := True, bs_aborted := x, bs_cleanup_tasks := [], bs_streams := []\<rparr>" for x]
  by (simp add: close_every_stream_def sinks_step_def)

lemma unless_retained_step: "sinks_step vl b (unless_retained a b)"
  by (simp add: unless_retained_def remove_stream_step)

lemma fail_stream_step: "sinks_step vl b (fail_stream h reason b)"
proof (cases "hget (bs_streams b) (h_id h)")
  case (Some a)
  let ?b = "on_sink a (terminate_sink (\<lambda>sequence. EvFailed h sequence (stream_failed SerializationViolation reason))) b"
  have "sinks_step vl b ?b" by (simp add: on_sink_def ss_fail sinks_step_put)
  with sinks_step_trans [OF this remove_stream_step] Some show ?thesis by (simp add: fail_stream_def Let_def)
qed (simp add: fail_stream_def)

lemma enqueue_event_step:
  assumes "fits vl (bs_sinks b a) ev"
  shows "sinks_step vl b (snd (enqueue_event a ev b))"
proof (cases "admit_event ev (bs_sinks b a)")
  case (Pair ok sk)
  show ?thesis
  proof (cases ok)
    case False
    then have "sk = bs_sinks b a" using Pair by (auto simp: admit_event_def Let_def split: option.splits if_splits)
    then have "sinks_step vl b (put_sink a sk b)" by (simp add: sinks_step_def)
    from sinks_step_trans [OF this fail_stream_step] Pair False show ?thesis by (simp add: enqueue_event_def Let_def)
  next
    case True
    obtain sent sk1 where offered: "offer_event ev sk = (sent, sk1)" by fastforce
    have "sinks_step vl b (put_sink a sk1 b)"
      using ss_offer [OF assms _ offered] Pair True by (intro sinks_step_put) simp
    with sinks_step_trans [OF this unless_retained_step] Pair True offered show ?thesis
      by (cases sent) (simp_all add: enqueue_event_def)
  qed
qed

lemma ledger_event_sink:
  "bs_sinks (ledger_event a ev b) =
     (if physical_terminal ev then (bs_sinks b)(a := (bs_sinks b a)\<lparr>sk_remote_terminal := True\<rparr>) else bs_sinks b)"
  by (auto simp: ledger_event_def Let_def on_sink_def split: reverse_event.splits)

lemma deliver_stream_event_step: "sinks_step vl b (snd (deliver_stream_event vl ev b))"
proof (cases "hget (bs_streams b) (h_id (ev_stream ev))")
  case (Some a)
  obtain ok sk where seen: "observe_remote_sequence ev (bs_sinks b a) = (ok, sk)" by fastforce
  show ?thesis
  proof (cases "fits vl (bs_sinks b a) ev \<and> ok")
    case False
    have "\<not> ok \<Longrightarrow> sk = bs_sinks b a" using seen by (auto simp: observe_remote_sequence_def split: option.splits if_splits)
    then have "\<not> ok \<Longrightarrow> sinks_step vl b (put_sink a sk b)" by (simp add: sinks_step_def)
    with False Some seen fail_stream_step sinks_step_trans [OF _ fail_stream_step] show ?thesis
      by (auto simp: deliver_stream_event_def fits_def split: option.splits)
  next
    case True
    let ?b = "ledger_event a ev (put_sink a sk b)"
    have "sink_step vl (bs_sinks b a) (if physical_terminal ev then sk\<lparr>sk_remote_terminal := True\<rparr> else sk)"
      using seen True by (intro ss_remote) simp
    then have one: "sinks_step vl b ?b" by (auto simp: sinks_step_def ledger_event_sink)
    have "sk_stream sk = sk_stream (bs_sinks b a)" "sk_value_kind sk = sk_value_kind (bs_sinks b a)"
      using seen by (auto simp: observe_remote_sequence_def split: option.splits if_splits)
    then have "fits vl (bs_sinks ?b a) ev" using True by (cases "payload_kind ev") (auto simp: fits_def ledger_event_sink)
    from sinks_step_trans [OF one enqueue_event_step [OF this]] True Some seen show ?thesis
      by (auto simp: deliver_stream_event_def fits_def split: option.splits)
  qed
qed (simp add: deliver_stream_event_def)

section \<open>The consumer\<close>

text \<open>
  \<open>CallbackStreamState\<close> of \<open>owned_callback_event_stream\<close>. The reply of the call is \<open>None\<close> while it has not come,
  and \<open>Some None\<close> when its sender was dropped. The sink the consumer holds owns a sender of the mailbox, so the
  mailbox never ends while it is read: that arm is not there.
\<close>

record 'p stream_consumer =
  cn_answered :: bool
  cn_terminal :: "'p reverse_event option"
  cn_closed_error :: "sdk_err option"
  cn_observation_delivered :: bool
  cn_finished :: bool
  cn_armed :: bool

definition new_consumer :: "'p stream_consumer" where
  "new_consumer = \<lparr>cn_answered = False, cn_terminal = None, cn_closed_error = None, cn_observation_delivered = False,
     cn_finished = False, cn_armed = True\<rparr>"

record ('p, 'r, 'l) stream_call =
  sc_sink :: "'p stream_sink"
  sc_owner :: "('r, 'l) callback_owner"
  sc_consumer :: "'p stream_consumer"
  sc_reply :: "(sdk_err + 'r option) option option"

text \<open>One turn of the loop: it yields an item, goes round again, waits, or the stream has ended.\<close>

datatype 'p turn = Yield "sdk_err + 'p reverse_event" | Again | Waits | Ended

abbreviation (input) "on_consumer f s \<equiv> s\<lparr>sc_consumer := f (sc_consumer s)\<rparr>"

definition finish_with :: "sdk_err + 'p reverse_event \<Rightarrow> ('p, 'r, 'l) stream_call \<Rightarrow> 'p turn \<times> ('p, 'r, 'l) stream_call" where
  "finish_with item s = (Yield item, on_consumer (\<lambda>c. c\<lparr>cn_finished := True, cn_armed := False\<rparr>) s)"

text \<open>The stream may end: its terminal and the answer are known and the physical facts, where they matter.\<close>

definition may_end :: "('p, 'r, 'l) stream_call \<Rightarrow> bool" where
  "may_end s =
     (cn_terminal (sc_consumer s) \<noteq> None \<and> cn_answered (sc_consumer s) \<and>
      (\<not> sk_retain (sc_sink s) \<or>
       (sk_remote_terminal (sc_sink s) \<and> co_response_completed (sc_owner s)) \<or>
       co_physical_closed (sc_owner s)))"

definition end_stream :: "('p, 'r, 'l) stream_call \<Rightarrow> 'p turn \<times> ('p, 'r, 'l) stream_call" where
  "end_stream s =
     (let o1 = snd (finish_if_physical_facts (sk_remote_terminal (sc_sink s)) (sc_owner s)) in
      if co_physical_closed o1 \<and> \<not> co_finished o1 then (Waits, s\<lparr>sc_owner := o1\<rparr>)
      else case co_pending_failure o1 of
        Some e \<Rightarrow> finish_with (Err e) (s\<lparr>sc_owner := o1\<lparr>co_pending_failure := None\<rparr>\<rparr>)
      | None \<Rightarrow>
          finish_with
            (case cn_terminal (sc_consumer s) of
               Some ev \<Rightarrow> Ok ev
             | None \<Rightarrow>
                 Err (option_default (cn_closed_error (sc_consumer s))
                   (stream_failed ExtensionFailed ''callback stream sink ended without a terminal'')))
            (s\<lparr>sc_owner := o1, sc_consumer := (sc_consumer s)\<lparr>cn_terminal := None\<rparr>\<rparr>))"

definition take_response :: "('p, 'r, 'l) stream_call \<Rightarrow> (sdk_err + 'r option) option \<Rightarrow> 'p turn \<times> ('p, 'r, 'l) stream_call" where
  "take_response s response =
     (case observe_response response (sc_owner s) of
        (seen, o1) \<Rightarrow>
          let s1 = on_consumer (\<lambda>c. c\<lparr>cn_answered := True\<rparr>) (s\<lparr>sc_owner := o1\<rparr>) in
          (case seen of
             ClosedObservation e \<Rightarrow> (Again, on_consumer (\<lambda>c. c\<lparr>cn_closed_error := Some e\<rparr>) s1)
           | Reply (Inr None) \<Rightarrow>
               (Again, s1\<lparr>sc_owner := snd (finish_if_physical_facts (sk_remote_terminal (sc_sink s1)) o1)\<rparr>)
           | Reply (Inr (Some _)) \<Rightarrow>
               finish_with (Err (invoke_error ExtensionFailed ''callback stream returned a single result'')) s1
           | Reply (Inl e) \<Rightarrow>
               if has_observation_hint e
               then (if \<not> cn_observation_delivered (sc_consumer s1) \<and> observation_from_sdk_error e \<noteq> None
                     then (Yield (Err e), on_consumer (\<lambda>c. c\<lparr>cn_observation_delivered := True\<rparr>) s1)
                     else (Again, s1))
               else finish_with (Err e) s1))"

definition take_event :: "('p, 'r, 'l) stream_call \<Rightarrow> 'p reverse_event \<Rightarrow> 'p reverse_event list \<Rightarrow> 'p turn \<times> ('p, 'r, 'l) stream_call" where
  "take_event s ev rest =
     (let s1 = s\<lparr>sc_sink := (sc_sink s)\<lparr>sk_mailbox := rest\<rparr>\<rparr> in
      case ev of
        EvFailed _ _ e \<Rightarrow>
          if has_observation_hint e
          then (case retain_unknown e (sc_owner s1) of
                  (refusal, o1) \<Rightarrow>
                    (case refusal of
                       Some r \<Rightarrow>
                         if \<not> cn_observation_delivered (sc_consumer s1)
                         then (Yield (Err r), on_consumer (\<lambda>c. c\<lparr>cn_observation_delivered := True\<rparr>) (s1\<lparr>sc_owner := o1\<rparr>))
                         else (Again, s1\<lparr>sc_owner := o1\<rparr>)
                     | None \<Rightarrow> (Again, s1\<lparr>sc_owner := o1\<rparr>)))
          else (Again, on_consumer (\<lambda>c. c\<lparr>cn_terminal := Some ev\<rparr>) s1)
      | _ \<Rightarrow>
          if physical_terminal ev then (Again, on_consumer (\<lambda>c. c\<lparr>cn_terminal := Some ev\<rparr>) s1)
          else (Yield (Ok ev), s1))"

text \<open>\<open>response_first\<close> is the choice of \<open>tokio::select!\<close> between the response and an event.\<close>

definition consumer_turn :: "bool \<Rightarrow> ('p, 'r, 'l) stream_call \<Rightarrow> 'p turn \<times> ('p, 'r, 'l) stream_call" where
  "consumer_turn response_first s =
     (let c = sc_consumer s in
      if cn_finished c then (Ended, s)
      else case (if cn_observation_delivered c then None else framework_refusal (sc_owner s)) of
        Some refusal \<Rightarrow> (Yield (Err refusal), s\<lparr>sc_consumer := c\<lparr>cn_observation_delivered := True\<rparr>\<rparr>)
      | None \<Rightarrow>
          if may_end s then end_stream s
          else case (if sk_mailbox (sc_sink s) = [] then fst (take_terminal (sc_sink s)) else None) of
            Some ev \<Rightarrow>
              (Again, s\<lparr>sc_sink := snd (take_terminal (sc_sink s)), sc_consumer := c\<lparr>cn_terminal := Some ev\<rparr>\<rparr>)
          | None \<Rightarrow>
              (case (if cn_answered c then None else sc_reply s,
                     if cn_terminal c = None then sk_mailbox (sc_sink s) else []) of
                 (None, []) \<Rightarrow> (Waits, s)
               | (Some response, []) \<Rightarrow> take_response s response
               | (None, ev # rest) \<Rightarrow> take_event s ev rest
               | (Some response, ev # rest) \<Rightarrow> if response_first then take_response s response else take_event s ev rest))"

end
