(* ===== verification/Stream_Order.thy ===== *)
theory Stream_Order
  imports Extension_Stream
begin

text \<open>
  The order of the events of one extension stream: an invariant of its sink that the sink steps and the consumer
  keep, and what the consumer is given.
\<close>

section \<open>Order\<close>

definition event_number :: "'p reverse_event \<Rightarrow> nat option" where
  "event_number ev = map_option unat (nz_to_u64 (ev_sequence ev))"

definition pending_events :: "'p stream_sink \<Rightarrow> 'p reverse_event list" where
  "pending_events sk = sk_mailbox sk @ (case sk_terminal sk of None \<Rightarrow> [] | Some ev \<Rightarrow> [ev])"

text \<open>Events without a gap, numbered from one, of which only the last may be a physical terminal.\<close>

definition numbered :: "'p reverse_event list \<Rightarrow> bool" where
  "numbered evs = (map event_number evs = map Some [1..<Suc (length evs)])"

definition only_last_ends :: "'p reverse_event list \<Rightarrow> bool" where
  "only_last_ends evs = (\<forall>ev\<in>set (butlast evs). \<not> physical_terminal ev)"

definition ends :: "'p reverse_event list \<Rightarrow> bool" where
  "ends evs = (evs \<noteq> [] \<and> physical_terminal (last evs))"

definition of_stream :: "'p stream_sink \<Rightarrow> 'p reverse_event \<Rightarrow> bool" where
  "of_stream sk ev = (case payload_kind ev of None \<Rightarrow> True | Some k \<Rightarrow> k = sk_value_kind sk \<and> ev_stream ev = sk_stream sk)"

definition sink_inv :: "'p reverse_event list \<Rightarrow> 'p stream_sink \<Rightarrow> bool" where
  "sink_inv taken sk =
     (let evs = taken @ pending_events sk in
      sk_receiver_open sk \<and> 0 < sk_capacity sk \<and> length (sk_mailbox sk) \<le> unat (sk_capacity sk) \<and>
      numbered evs \<and> length evs = unat (sk_last_sequence sk) \<and> only_last_ends evs \<and>
      sk_terminal_seen sk = ends evs \<and> (\<forall>ev. sk_terminal sk = Some ev \<longrightarrow> physical_terminal ev) \<and>
      (\<forall>ev\<in>set evs. of_stream sk ev))"

lemma numbered_snoc: "numbered (evs @ [ev]) \<longleftrightarrow> numbered evs \<and> event_number ev = Some (Suc (length evs))"
  by (simp add: numbered_def)

lemma only_last_ends_snoc: "only_last_ends (evs @ [ev]) \<longleftrightarrow> only_last_ends evs \<and> \<not> ends evs"
  by (cases evs rule: rev_cases) (auto simp: only_last_ends_def ends_def butlast_append)

lemma ends_snoc [simp]: "ends (evs @ [ev]) = physical_terminal ev"
  by (simp add: ends_def)

text \<open>Another event at the end: the stream had not ended.\<close>

lemma sink_inv_snoc:
  assumes inv: "sink_inv taken sk" and unended: "\<not> sk_terminal_seen sk"
    and kept: "sk_receiver_open sk' = sk_receiver_open sk" "sk_capacity sk' = sk_capacity sk" "sk_stream sk' = sk_stream sk"
      "sk_value_kind sk' = sk_value_kind sk"
    and pend: "pending_events sk' = pending_events sk @ [ev]" and len: "length (sk_mailbox sk') \<le> unat (sk_capacity sk)"
    and seq: "unat (sk_last_sequence sk') = Suc (unat (sk_last_sequence sk))" "event_number ev = Some (unat (sk_last_sequence sk'))"
    and seen: "sk_terminal_seen sk' = physical_terminal ev" and stored: "\<And>t. sk_terminal sk' = Some t \<Longrightarrow> physical_terminal t"
    and mine: "of_stream sk ev"
  shows "sink_inv taken sk'"
proof -
  have old: "numbered (taken @ pending_events sk)" "length (taken @ pending_events sk) = unat (sk_last_sequence sk)"
    "only_last_ends (taken @ pending_events sk)" "\<not> ends (taken @ pending_events sk)"
    using inv unended by (simp_all add: sink_inv_def Let_def)
  have new: "taken @ pending_events sk' = (taken @ pending_events sk) @ [ev]" using pend by simp
  have "numbered (taken @ pending_events sk')" "only_last_ends (taken @ pending_events sk')"
    "ends (taken @ pending_events sk') = physical_terminal ev"
    "length (taken @ pending_events sk') = unat (sk_last_sequence sk')"
    unfolding new numbered_snoc only_last_ends_snoc ends_snoc using old seq by simp_all
  moreover have "\<forall>x\<in>set (taken @ pending_events sk'). of_stream sk' x"
    using inv mine kept unfolding new by (auto simp: sink_inv_def Let_def of_stream_def split: option.splits)
  ultimately show ?thesis
    using inv kept len seen stored by (simp add: sink_inv_def Let_def)
qed

lemma open_sink_pending: "sink_inv taken sk \<Longrightarrow> \<not> sk_terminal_seen sk \<Longrightarrow> sk_terminal sk = None"
  by (cases "sk_terminal sk") (auto simp: sink_inv_def Let_def pending_events_def ends_def)

lemma publish_terminal_fields:
  "sk_receiver_open (publish_terminal ev sk) = sk_receiver_open sk" "sk_capacity (publish_terminal ev sk) = sk_capacity sk"
  "sk_stream (publish_terminal ev sk) = sk_stream sk" "sk_value_kind (publish_terminal ev sk) = sk_value_kind sk"
  "sk_last_sequence (publish_terminal ev sk) = sk_last_sequence sk" "sk_terminal_seen (publish_terminal ev sk)"
  "sk_terminal (publish_terminal ev sk) = Some t \<Longrightarrow> t = ev"
  "sk_receiver_open sk \<Longrightarrow> pending_events (publish_terminal ev sk) = sk_mailbox sk @ [ev]"
  "length (sk_mailbox sk) \<le> n \<Longrightarrow> unat (sk_capacity sk) \<le> n \<Longrightarrow>
     length (sk_mailbox (publish_terminal ev sk)) \<le> n"
  by (auto simp: publish_terminal_def try_send_def clear_terminal_def pending_events_def split: if_splits)

text \<open>The local terminal ends the stream at the next sequence; a stream that has ended is left alone.\<close>

lemma terminate_sink_inv:
  assumes inv: "sink_inv taken sk"
    and build: "\<And>q. ev_sequence (build q) = q" "\<And>q. physical_terminal (build q)" "\<And>q. payload_kind (build q) = None"
  shows "sink_inv taken (terminate_sink build sk)"
proof (cases "sk_terminal_seen sk")
  case False
  show ?thesis
  proof (cases "checked_add (sk_last_sequence sk) 1")
    case (Some v)
    then have v: "unat v = Suc (unat (sk_last_sequence sk))" by (simp add: checked_add_Some)
    then have "v \<noteq> 0" by auto
    then have nz: "wire_non_zero_try_from (show_nat (unat v)) = Ok (WireNonZeroU64 (from_u64 v))"
      by (auto simp: wire_non_zero_try_from_iff)
    let ?q = "WireNonZeroU64 (from_u64 v)"
    have number: "nz_to_u64 ?q = Some v" by (simp add: nz_to_u64_def)
    have eq: "terminate_sink build sk = publish_terminal (build ?q) (sk\<lparr>sk_last_sequence := v\<rparr>)"
      using False Some nz number by (simp add: terminate_sink_def option_default_def)
    have pend: "pending_events sk = sk_mailbox sk"
      using open_sink_pending [OF inv False] by (simp add: pending_events_def)
    have "sk_receiver_open sk" "length (sk_mailbox sk) \<le> unat (sk_capacity sk)"
      using inv by (simp_all add: sink_inv_def Let_def)
    then show ?thesis
      unfolding eq using build number v pend
      by (intro sink_inv_snoc [OF inv False, where ev = "build ?q"])
        (auto simp: publish_terminal_fields event_number_def of_stream_def dest: publish_terminal_fields(7))
  qed (use False inv in \<open>simp add: terminate_sink_def\<close>)
qed (use inv in \<open>simp add: terminate_sink_def\<close>)

lemma admit_event_fields:
  assumes "admit_event ev sk = (True, sk1)"
  shows "\<not> sk_terminal_seen sk" "event_number ev = Some (Suc (unat (sk_last_sequence sk)))"
    "sk1 = sk\<lparr>sk_last_sequence := the (nz_to_u64 (ev_sequence ev)), sk_terminal_seen := physical_terminal ev,
       sk_terminal := (if physical_terminal ev then Some ev else sk_terminal sk)\<rparr>"
    "unat (the (nz_to_u64 (ev_sequence ev))) = Suc (unat (sk_last_sequence sk))"
proof -
  from assms obtain v where v: "checked_add (sk_last_sequence sk) 1 = Some v"
    and unseen: "\<not> sk_terminal_seen sk" and q: "option_default (nz_to_u64 (ev_sequence ev)) 0 = v"
    and sk1: "sk1 = (let s = sk\<lparr>sk_last_sequence := v, sk_terminal_seen := physical_terminal ev\<rparr> in
       if physical_terminal ev then s\<lparr>sk_terminal := Some ev\<rparr> else s)"
    by (auto simp: admit_event_def Let_def split: option.splits if_splits)
  from v have n: "unat v = Suc (unat (sk_last_sequence sk))" by (simp add: checked_add_Some)
  then have "nz_to_u64 (ev_sequence ev) = Some v" using q by (cases "nz_to_u64 (ev_sequence ev)") (auto simp: option_default_def)
  with n sk1 unseen show "\<not> sk_terminal_seen sk" "event_number ev = Some (Suc (unat (sk_last_sequence sk)))"
    "sk1 = sk\<lparr>sk_last_sequence := the (nz_to_u64 (ev_sequence ev)), sk_terminal_seen := physical_terminal ev,
       sk_terminal := (if physical_terminal ev then Some ev else sk_terminal sk)\<rparr>"
    "unat (the (nz_to_u64 (ev_sequence ev))) = Suc (unat (sk_last_sequence sk))"
    by (auto simp: event_number_def Let_def)
qed

lemma failure_physical: "physical_terminal (EvFailed h q (stream_failed code reason))"
  by (simp add: physical_terminal_def is_observation_def)

lemma offered_inv:
  assumes inv: "sink_inv taken sk" and "fits vl sk ev" and admitted: "admit_event ev sk = (True, sk1)"
    and offered: "offer_event ev sk1 = (sent, sk2)"
  shows "sink_inv taken sk2"
proof -
  note a = admit_event_fields [OF admitted]
  have old: "sk_receiver_open sk" "length (sk_mailbox sk) \<le> unat (sk_capacity sk)" "sk_terminal sk = None"
    using inv open_sink_pending [OF inv a(1)] by (simp_all add: sink_inv_def Let_def)
  have mine: "of_stream sk ev" using assms(2) by (auto simp: fits_def of_stream_def split: option.splits)
  show ?thesis
  proof (cases "length (sk_mailbox sk) < unat (sk_capacity sk)")
    case True
    then have sk2: "sk2 = sk1\<lparr>sk_mailbox := sk_mailbox sk @ [ev], sk_terminal := None\<rparr>"
      using offered old a(3) by (auto simp: offer_event_def try_send_def clear_terminal_def)
    show ?thesis
      using a old True mine by (intro sink_inv_snoc [OF inv a(1), where ev = ev])
        (auto simp: sk2 pending_events_def)
  next
    case False
    let ?f = "EvFailed (sk_stream sk) (ev_sequence ev) (stream_failed ExtensionFailed mailbox_reason)"
    have sk2: "sk2 = publish_terminal ?f sk1"
      using offered old a(3) False by (auto simp: offer_event_def try_send_def fail_undelivered_def)
    have "event_number ?f = event_number ev" "of_stream sk ?f" by (simp_all add: event_number_def of_stream_def payload_kind_def)
    moreover have "pending_events sk = sk_mailbox sk" using old by (simp add: pending_events_def)
    ultimately show ?thesis
      using a old False failure_physical
      by (intro sink_inv_snoc [OF inv a(1), where ev = ?f])
        (auto simp: sk2 publish_terminal_fields dest: publish_terminal_fields(7))
  qed
qed

text \<open>The ledger of the remote side, the guard and the retention do not matter to it.\<close>

lemma sink_inv_ledger [simp]:
  "sink_inv taken (sk\<lparr>sk_remote_last_sequence := q\<rparr>) = sink_inv taken sk"
  "sink_inv taken (sk\<lparr>sk_remote_terminal := r\<rparr>) = sink_inv taken sk"
  "sink_inv taken (sk\<lparr>sk_session_callback := g\<rparr>) = sink_inv taken sk"
  by (simp_all add: sink_inv_def pending_events_def of_stream_def cong: option.case_cong)

lemma observe_remote_sequence_inv: "sink_inv taken (snd (observe_remote_sequence ev sk)) = sink_inv taken sk"
  by (simp add: observe_remote_sequence_def split: option.splits)

text \<open>Every step of the bridge on a sink keeps its invariant and its identity.\<close>

lemma sink_step_inv: "sink_step vl sk sk' \<Longrightarrow> sink_inv taken sk \<Longrightarrow> sink_inv taken sk'"
proof (induction rule: sink_step.induct)
  case (ss_offer sk ev sk1 sent sk2)
  then show ?case using offered_inv by blast
next
  case (ss_remote ev sk sk1 terminal)
  then show ?case using observe_remote_sequence_inv [of taken ev sk] by simp
next
  case (ss_fail e sk h)
  then show ?case
    by (intro terminate_sink_inv) (auto simp: physical_terminal_def is_observation_def payload_kind_def)
next
  case (ss_close sk)
  then have "sink_inv taken (terminate_sink (EvCancelled (sk_stream sk)) sk)"
    by (intro terminate_sink_inv) (auto simp: physical_terminal_def is_observation_def payload_kind_def)
  then show ?case by (simp add: close_sink_def)
qed

lemma new_sink_inv: "sink_inv [] (new_sink h extension_id kind capacity callback)"
  by (simp add: sink_inv_def new_sink_def pending_events_def numbered_def only_last_ends_def ends_def word_gt_0)

section \<open>Events that are rejected\<close>

text \<open>what the bridge does to its sinks - routing an event, removing a stream, the streams of an extension or all of
  them, releasing the stream of a call - is, for every sink, a sequence of the sink's own steps.\<close>

theorem bridge_operations_are_sink_steps:
  "sinks_step vl b (snd (deliver_stream_event vl ev b)) \<and> sinks_step vl b (remove_stream stream_id b) \<and>
   sinks_step vl b (remove_streams_for_extension extension_id b) \<and> sinks_step vl b (close_every_stream b) \<and>
   sinks_step vl b (fst (release_stream h (b, handles)))"
  by (simp add: deliver_stream_event_step remove_stream_step remove_streams_for_extension_step close_every_stream_step
      release_stream_def)

text \<open>A sink that takes no further event: it has seen its terminal, or its sequence is exhausted.\<close>

definition sink_over :: "'p stream_sink \<Rightarrow> bool" where
  "sink_over sk = (sk_terminal_seen sk \<or> sk_last_sequence sk = - 1)"

lemma terminate_sink_over: "sink_over (terminate_sink build sk)"
proof (cases "checked_add (sk_last_sequence sk) 1")
  case None
  have "unat (sk_last_sequence sk) < 2 ^ LENGTH(64)" by (rule unsigned_less)
  with None have "unat (sk_last_sequence sk) = unat (- 1 :: u64)" by (simp add: checked_add_None unat_all_ones)
  with None show ?thesis by (simp add: terminate_sink_def sink_over_def unsigned_word_eqI)
next
  case (Some v)
  then have "v \<noteq> 0" by (auto simp: checked_add_Some)
  then have "wire_non_zero_try_from (show_nat (unat v)) = Ok (WireNonZeroU64 (from_u64 v))"
    by (auto simp: wire_non_zero_try_from_iff)
  with Some show ?thesis by (simp add: terminate_sink_def sink_over_def publish_terminal_fields)
qed

lemma close_sink_over [simp]: "sink_over (close_sink sk)"
  using terminate_sink_over [of "EvCancelled (sk_stream sk)" sk] by (simp add: close_sink_def sink_over_def)

lemma terminate_sink_stream [simp]: "sk_stream (terminate_sink build sk) = sk_stream sk"
  by (simp add: terminate_sink_def publish_terminal_fields split: option.splits sum.splits)

lemma remove_stream_sinks:
  "hget (bs_streams b) i = Some a \<Longrightarrow> bs_sinks (remove_stream i b) = (bs_sinks b)(a := close_sink (bs_sinks b a))"
  by (simp add: remove_stream_def close_at_def on_sink_def)

definition only_ended :: "nat \<Rightarrow> (nat \<Rightarrow> 'p stream_sink) \<Rightarrow> (nat \<Rightarrow> 'p stream_sink) \<Rightarrow> bool" where
  "only_ended a sinks sinks' = ((\<forall>a'. a' \<noteq> a \<longrightarrow> sinks' a' = sinks a') \<and> sink_over (sinks' a))"

lemma fail_stream_ends:
  assumes "hget (bs_streams b) (h_id h) = Some a" "sk_stream (bs_sinks b a) = h"
  shows "only_ended a (bs_sinks b) (bs_sinks (fail_stream h reason b))"
  using assms by (simp add: fail_stream_def on_sink_def Let_def remove_stream_sinks only_ended_def terminate_sink_over)

lemma enqueue_event_rejects:
  assumes "enqueue_event a ev b = (Err reason, b')" "hget (bs_streams b) (h_id (sk_stream (bs_sinks b a))) = Some a"
  shows "only_ended a (bs_sinks b) (bs_sinks b')"
proof (cases "admit_event ev (bs_sinks b a)")
  case (Pair ok sk)
  have same: "sk_stream sk = sk_stream (bs_sinks b a)"
    using Pair by (auto simp: admit_event_def Let_def split: option.splits if_splits)
  show ?thesis
  proof (cases ok)
    case False
    then have b': "b' = fail_stream (sk_stream sk) reason (put_sink a sk b)"
      using assms(1) Pair by (auto simp: enqueue_event_def Let_def)
    show ?thesis
      using fail_stream_ends [of "put_sink a sk b" "sk_stream sk" a reason] assms(2) same
      unfolding b' by (simp add: only_ended_def)
  next
    case True
    obtain sent sk1 where offered: "offer_event ev sk = (sent, sk1)" by fastforce
    then have full: "sent = SendFull" "b' = unless_retained a (put_sink a sk1 b)"
      using assms(1) Pair True by (cases sent; simp add: enqueue_event_def)+
    then have sk1: "sk1 = fail_undelivered (ev_sequence ev) mailbox_reason sk"
      using offered by (auto simp: offer_event_def try_send_def split: if_splits)
    then have "sink_over sk1" "sk_stream sk1 = sk_stream sk"
      by (simp_all add: fail_undelivered_def publish_terminal_fields sink_over_def)
    with assms(2) same show ?thesis
      unfolding full by (simp add: unless_retained_def only_ended_def remove_stream_sinks)
  qed
qed

lemma ledger_event_streams: "bs_streams (ledger_event a ev b) = bs_streams b"
  by (auto simp: ledger_event_def Let_def on_sink_def split: reverse_event.splits)

text \<open>C24: an event the bridge rejects names a registered stream and touches no other sink. A handle of another owner or
  generation changes nothing; an observation that is malformed leaves every sink as it is; any other violation - of
  the contract, of the payload's kind, of the order, or a full mailbox - ends that stream.\<close>

theorem rejected_event_ends_only_its_stream:
  assumes "deliver_stream_event vl ev b = (Err reason, b')"
  shows "\<exists>a. hget (bs_streams b) (h_id (ev_stream ev)) = Some a \<and> (\<forall>a'. a' \<noteq> a \<longrightarrow> bs_sinks b' a' = bs_sinks b a') \<and>
    (if ev_stream ev \<noteq> sk_stream (bs_sinks b a) then b' = b
     else if event_violation vl ev \<noteq> None \<and> is_observation ev then bs_sinks b' = bs_sinks b
     else sk_terminal_seen (bs_sinks b' a) \<or> sk_last_sequence (bs_sinks b' a) = - 1)"
proof -
  from assms obtain a where a: "hget (bs_streams b) (h_id (ev_stream ev)) = Some a"
    by (auto simp: deliver_stream_event_def split: option.splits)
  let ?sk = "bs_sinks b a"
  have "ev_stream ev = sk_stream ?sk \<Longrightarrow> \<not> (event_violation vl ev \<noteq> None \<and> is_observation ev) \<Longrightarrow>
    only_ended a (bs_sinks b) (bs_sinks b')"
  proof -
    assume mine: "ev_stream ev = sk_stream ?sk" and no: "\<not> (event_violation vl ev \<noteq> None \<and> is_observation ev)"
    note found = a [unfolded mine]
    consider (violates) why where "event_violation vl ev = Some why" "\<not> is_observation ev"
      | (kind) "event_violation vl ev = None" "case payload_kind ev of None \<Rightarrow> False | Some k \<Rightarrow> k \<noteq> sk_value_kind ?sk"
      | (rest) "event_violation vl ev = None" "\<not> (case payload_kind ev of None \<Rightarrow> False | Some k \<Rightarrow> k \<noteq> sk_value_kind ?sk)"
      using no by blast
    then show ?thesis
    proof cases
      case violates
      then have "b' = fail_stream (sk_stream ?sk) why b" using assms a mine by (simp add: deliver_stream_event_def)
      then show ?thesis using fail_stream_ends [OF found refl] by simp
    next
      case kind
      then have "b' = fail_stream (sk_stream ?sk) kind_reason b" using assms a mine by (simp add: deliver_stream_event_def)
      then show ?thesis using fail_stream_ends [OF found refl] by simp
    next
      case rest
      obtain ok sk where seen: "observe_remote_sequence ev ?sk = (ok, sk)" by fastforce
      then have same: "sk_stream sk = sk_stream ?sk"
        by (auto simp: observe_remote_sequence_def split: option.splits if_splits)
      show ?thesis
      proof (cases ok)
        case False
        then have b': "b' = fail_stream (sk_stream sk) contiguous_reason (put_sink a sk b)"
          using assms a mine rest seen by (simp add: deliver_stream_event_def)
        show ?thesis
          using fail_stream_ends [of "put_sink a sk b" "sk_stream sk" a contiguous_reason] found same
          unfolding b' by (simp add: only_ended_def)
      next
        case True
        let ?b = "ledger_event a ev (put_sink a sk b)"
        have enqueued: "enqueue_event a ev ?b = (Err reason, b')"
          using assms a mine rest seen True by (simp add: deliver_stream_event_def)
        have fields: "sk_stream (bs_sinks ?b a) = sk_stream ?sk" "bs_streams ?b = bs_streams b" "\<forall>a'. a' \<noteq> a \<longrightarrow> bs_sinks ?b a' = bs_sinks b a'"
          using same by (simp_all add: ledger_event_sink ledger_event_streams)
        then show ?thesis using enqueue_event_rejects [OF enqueued] found by (simp add: only_ended_def)
      qed
    qed
  qed
  moreover have "ev_stream ev \<noteq> sk_stream ?sk \<Longrightarrow> b' = b"
    "ev_stream ev = sk_stream ?sk \<Longrightarrow> event_violation vl ev \<noteq> None \<Longrightarrow> is_observation ev \<Longrightarrow> bs_sinks b' = bs_sinks b"
    using assms a by (auto simp: deliver_stream_event_def split: if_splits)
  ultimately show ?thesis
    using a unfolding only_ended_def sink_over_def by (intro exI [of _ a]) (auto split: if_splits)
qed

section \<open>What the consumer is given\<close>

text \<open>
  One stream call under the steps of everyone who touches it: the bridge on the sink, the switch to retention,
  the owner of the callback, the reply, and the turns of the consumer. With it go the events the consumer has
  taken from the sink and the items it has yielded. Of the owner any change is allowed.
\<close>

definition taken_from :: "'p stream_sink \<Rightarrow> 'p stream_sink \<Rightarrow> 'p reverse_event list" where
  "taken_from sk sk' = take (length (pending_events sk) - length (pending_events sk')) (pending_events sk)"

definition yielded_by :: "'p turn \<Rightarrow> (sdk_err + 'p reverse_event) list" where
  "yielded_by t = (case t of Yield item \<Rightarrow> [item] | _ \<Rightarrow> [])"

lemma yielded_by_simps [simp]:
  "yielded_by (Yield item) = [item]" "yielded_by Again = []" "yielded_by Waits = []" "yielded_by Ended = []"
  by (simp_all add: yielded_by_def)

inductive stream_history ::
  "'p value_len \<Rightarrow> ('p, 'r, 'l) stream_call \<Rightarrow> 'p reverse_event list \<Rightarrow> (sdk_err + 'p reverse_event) list \<Rightarrow> bool" for vl where
  sh_start: "sc_sink s = new_sink h extension_id kind capacity callback \<Longrightarrow> sc_consumer s = new_consumer \<Longrightarrow>
     stream_history vl s [] []"
| sh_bridge: "stream_history vl s taken items \<Longrightarrow> sink_step vl (sc_sink s) sk \<Longrightarrow>
     stream_history vl (s\<lparr>sc_sink := sk\<rparr>) taken items"
| sh_retain: "stream_history vl s taken items \<Longrightarrow>
     stream_history vl (s\<lparr>sc_sink := (sc_sink s)\<lparr>sk_retain := retain, sk_owner := owner\<rparr>\<rparr>) taken items"
| sh_owner: "stream_history vl s taken items \<Longrightarrow> stream_history vl (s\<lparr>sc_owner := o'\<rparr>) taken items"
| sh_reply: "stream_history vl s taken items \<Longrightarrow> stream_history vl (s\<lparr>sc_reply := reply\<rparr>) taken items"
| sh_turn: "stream_history vl s taken items \<Longrightarrow> consumer_turn response_first s = (t, s') \<Longrightarrow>
     stream_history vl s' (taken @ taken_from (sc_sink s) (sc_sink s')) (items @ yielded_by t)"

definition ok_items :: "(sdk_err + 'p reverse_event) list \<Rightarrow> 'p reverse_event list" where
  "ok_items items = concat (map (\<lambda>item. case item of Inl _ \<Rightarrow> [] | Inr ev \<Rightarrow> [ev]) items)"

lemma ok_items_simps [simp]:
  "ok_items [] = []" "ok_items (items @ items') = ok_items items @ ok_items items'"
  "ok_items [Inl e] = []" "ok_items [Inr ev] = [ev]"
  by (simp_all add: ok_items_def)

text \<open>
  Until it has finished, the consumer has yielded the chunks it took; when it has finished, these, or these and
  the terminal.
\<close>

definition given :: "'p stream_consumer \<Rightarrow> 'p reverse_event list \<Rightarrow> (sdk_err + 'p reverse_event) list \<Rightarrow> bool" where
  "given c taken items =
     (if cn_finished c
      then items \<noteq> [] \<and>
        (case last items of
           Inl _ \<Rightarrow> ok_items items = filter (\<lambda>ev. \<not> is_terminal ev) taken
         | Inr ev \<Rightarrow> physical_terminal ev \<and> ends taken \<and> ok_items items = filter (\<lambda>ev. \<not> is_observation ev) taken)
      else ok_items items = filter (\<lambda>ev. \<not> is_terminal ev) taken \<and>
        (case cn_terminal c of None \<Rightarrow> \<not> ends taken | Some ev \<Rightarrow> ends taken \<and> last taken = ev))"

definition stream_inv :: "('p, 'r, 'l) stream_call \<Rightarrow> 'p reverse_event list \<Rightarrow> (sdk_err + 'p reverse_event) list \<Rightarrow> bool" where
  "stream_inv s taken items = (sink_inv taken (sc_sink s) \<and> given (sc_consumer s) taken items)"

lemma sink_inv_retain [simp]:
  "sink_inv taken (sk\<lparr>sk_retain := retain, sk_owner := owner\<rparr>) = sink_inv taken sk"
  by (simp add: sink_inv_def pending_events_def of_stream_def cong: option.case_cong)

text \<open>The first pending event moves to the consumer.\<close>

lemma sink_inv_taken:
  assumes "sink_inv taken sk" "pending_events sk = ev # pending_events sk'" "sk_receiver_open sk' = sk_receiver_open sk"
    "sk_capacity sk' = sk_capacity sk" "sk_stream sk' = sk_stream sk" "sk_value_kind sk' = sk_value_kind sk"
    "sk_last_sequence sk' = sk_last_sequence sk" "sk_terminal_seen sk' = sk_terminal_seen sk"
    "length (sk_mailbox sk') \<le> length (sk_mailbox sk)" "\<And>t. sk_terminal sk' = Some t \<Longrightarrow> sk_terminal sk = Some t"
  shows "sink_inv (taken @ [ev]) sk'"
  using assms by (auto simp: sink_inv_def Let_def of_stream_def cong: option.case_cong)

lemma ended_nothing_pending: "sink_inv taken sk \<Longrightarrow> ends taken \<Longrightarrow> pending_events sk = []"
  by (cases "pending_events sk" rule: rev_cases)
    (auto simp: sink_inv_def Let_def only_last_ends_def ends_def butlast_append split: if_splits)

lemma taken_from_cons:
  "pending_events sk = ev # pending_events sk' \<Longrightarrow> taken_from sk sk' = [ev]"
  by (simp add: taken_from_def)

lemma taken_from_same [simp]: "pending_events sk' = pending_events sk \<Longrightarrow> taken_from sk sk' = []"
  by (simp add: taken_from_def)

lemma given_quiet:
  assumes "given c taken items" "\<not> cn_finished c" "ok_items (yielded_by t) = []"
    "cn_finished c' \<Longrightarrow> \<exists>e. t = Yield (Inl e)" "\<not> cn_finished c' \<Longrightarrow> cn_terminal c' = cn_terminal c"
  shows "given c' taken (items @ yielded_by t)"
  using assms by (cases "cn_finished c'") (auto simp: given_def yielded_by_def)

lemma take_response_quiet:
  assumes "take_response s response = (t, s')" "\<not> cn_finished (sc_consumer s)"
  shows "sc_sink s' = sc_sink s" "ok_items (yielded_by t) = []"
    "cn_finished (sc_consumer s') \<Longrightarrow> \<exists>e. t = Yield (Inl e)" "cn_terminal (sc_consumer s') = cn_terminal (sc_consumer s)"
proof -
  have all: "sc_sink s' = sc_sink s \<and> ok_items (yielded_by t) = [] \<and>
    (cn_finished (sc_consumer s') \<longrightarrow> (\<exists>e. t = Yield (Inl e))) \<and> cn_terminal (sc_consumer s') = cn_terminal (sc_consumer s)"
    using assms
    by (auto simp: take_response_def finish_with_def yielded_by_def Let_def split: prod.splits original_response.splits
      sum.splits option.splits if_splits)
  from all show "sc_sink s' = sc_sink s" "ok_items (yielded_by t) = []"
    "cn_finished (sc_consumer s') \<Longrightarrow> \<exists>e. t = Yield (Inl e)" "cn_terminal (sc_consumer s') = cn_terminal (sc_consumer s)"
    by blast+
qed

lemma not_terminal_not_physical: "physical_terminal ev \<longleftrightarrow> is_terminal ev \<and> \<not> is_observation ev"
  "is_observation ev \<Longrightarrow> is_terminal ev"
  by (auto simp: physical_terminal_def is_observation_def split: reverse_event.splits)

text \<open>An event the consumer takes: a physical terminal is kept back, an observation is reported once, a chunk is yielded.\<close>

lemma take_event_cases:
  assumes "take_event s ev rest = (t, s')" "\<not> cn_finished (sc_consumer s)"
  shows "sc_sink s' = (sc_sink s)\<lparr>sk_mailbox := rest\<rparr> \<and> \<not> cn_finished (sc_consumer s') \<and>
    (if physical_terminal ev then cn_terminal (sc_consumer s') = Some ev \<and> yielded_by t = []
     else cn_terminal (sc_consumer s') = cn_terminal (sc_consumer s) \<and>
       ok_items (yielded_by t) = filter (\<lambda>ev. \<not> is_terminal ev) [ev])"
  using assms
  by (cases ev) (auto simp: take_event_def yielded_by_def Let_def physical_terminal_def is_observation_def
    split: prod.splits option.splits if_splits)

text \<open>A terminal reached the consumer, from the mailbox or from the sink.\<close>

lemma given_taken:
  assumes "given c taken items" "\<not> cn_finished c" "cn_terminal c = None" "\<not> cn_finished c'"
    "if physical_terminal ev then cn_terminal c' = Some ev \<and> new = []
     else cn_terminal c' = None \<and> ok_items new = filter (\<lambda>ev. \<not> is_terminal ev) [ev]"
  shows "given c' (taken @ [ev]) (items @ new)"
  using assms by (auto simp: given_def not_terminal_not_physical split: if_splits)

lemma ends_observations:
  assumes "only_last_ends taken" "ends taken"
  shows "filter (\<lambda>ev. \<not> is_observation ev) taken = filter (\<lambda>ev. \<not> is_terminal ev) taken @ [last taken]"
proof -
  from assms(2) obtain front ev where taken: "taken = front @ [ev]" and ev: "physical_terminal ev"
    unfolding ends_def by (metis append_butlast_last_id)
  have "\<forall>x\<in>set front. is_observation x = is_terminal x"
    using assms(1) by (auto simp: taken only_last_ends_def physical_terminal_def not_terminal_not_physical(2))
  then have "filter (\<lambda>ev. \<not> is_observation ev) front = filter (\<lambda>ev. \<not> is_terminal ev) front"
    by (simp cong: filter_cong)
  with ev show ?thesis by (simp add: taken physical_terminal_def)
qed

lemma end_stream_cases:
  assumes "end_stream s = (t, s')" "\<not> cn_finished (sc_consumer s)" "cn_terminal (sc_consumer s) = Some ev"
  shows "sc_sink s' = sc_sink s \<and>
    (t = Waits \<and> sc_consumer s' = sc_consumer s \<or>
     cn_finished (sc_consumer s') \<and> (t = Yield (Inr ev) \<or> (\<exists>e. t = Yield (Inl e))))"
  using assms by (auto simp: end_stream_def finish_with_def Let_def split: option.splits if_splits)

lemma end_stream_inv:
  assumes "stream_inv s taken items" "end_stream s = (t, s')" "\<not> cn_finished (sc_consumer s)" "may_end s"
  shows "stream_inv s' taken (items @ yielded_by t)"
proof -
  from assms(4) obtain ev where ev: "cn_terminal (sc_consumer s) = Some ev" by (auto simp: may_end_def)
  from end_stream_cases [OF assms(2,3) ev] have sink: "sc_sink s' = sc_sink s" by blast
  have g: "given (sc_consumer s) taken items" and inv: "sink_inv taken (sc_sink s)"
    using assms(1) by (simp_all add: stream_inv_def)
  have e: "ends taken" "last taken = ev" "ok_items items = filter (\<lambda>ev. \<not> is_terminal ev) taken"
    using g ev assms(3) by (simp_all add: given_def)
  have only: "only_last_ends taken"
    using inv ended_nothing_pending [OF inv e(1)] by (simp add: sink_inv_def Let_def)
  have "given (sc_consumer s') taken (items @ yielded_by t)"
    using end_stream_cases [OF assms(2,3) ev] g e ends_observations [OF only e(1)] assms(3)
    by (auto simp: given_def ends_def)
  with inv sink show ?thesis by (simp add: stream_inv_def)
qed

lemma taken_inv:
  assumes inv: "stream_inv s taken items" and unended: "\<not> cn_finished (sc_consumer s)" "cn_terminal (sc_consumer s) = None"
    and moved: "pending_events (sc_sink s) = ev # pending_events (sc_sink s')" "sink_inv (taken @ [ev]) (sc_sink s')"
    and consumer: "\<not> cn_finished (sc_consumer s')"
      "if physical_terminal ev then cn_terminal (sc_consumer s') = Some ev \<and> yielded_by t = []
       else cn_terminal (sc_consumer s') = None \<and> ok_items (yielded_by t) = filter (\<lambda>ev. \<not> is_terminal ev) [ev]"
  shows "stream_inv s' (taken @ taken_from (sc_sink s) (sc_sink s')) (items @ yielded_by t)"
  using inv moved given_taken [OF _ unended consumer] by (simp add: stream_inv_def taken_from_cons)

lemma take_response_inv:
  assumes "stream_inv s taken items" "take_response s response = (t, s')" "\<not> cn_finished (sc_consumer s)"
  shows "stream_inv s' (taken @ taken_from (sc_sink s) (sc_sink s')) (items @ yielded_by t)"
  using assms(1,3) take_response_quiet [OF assms(2,3)] given_quiet [of "sc_consumer s" taken items t "sc_consumer s'"]
  by (simp add: stream_inv_def)

lemma take_event_inv:
  assumes inv: "stream_inv s taken items" and "take_event s ev rest = (t, s')" "\<not> cn_finished (sc_consumer s)"
    and unended: "cn_terminal (sc_consumer s) = None" and box: "sk_mailbox (sc_sink s) = ev # rest"
  shows "stream_inv s' (taken @ taken_from (sc_sink s) (sc_sink s')) (items @ yielded_by t)"
proof (rule taken_inv [OF inv assms(3) unended])
  note c = take_event_cases [OF assms(2,3)]
  show moved: "pending_events (sc_sink s) = ev # pending_events (sc_sink s')" using c box by (simp add: pending_events_def)
  show "sink_inv (taken @ [ev]) (sc_sink s')"
    using inv c box moved by (intro sink_inv_taken [of taken "sc_sink s"]) (auto simp: stream_inv_def)
qed (use take_event_cases [OF assms(2,3)] unended in \<open>auto split: if_splits\<close>)

lemma turn_choice:
  assumes "(t, s') = (case (answer, box) of
      (None, []) \<Rightarrow> (Waits, s)
    | (Some response, []) \<Rightarrow> take_response s response
    | (None, ev # rest) \<Rightarrow> take_event s ev rest
    | (Some response, ev # rest) \<Rightarrow> if response_first then take_response s response else take_event s ev rest)"
  obtains (waits) "t = Waits" "s' = s" "answer = None" "box = []"
    | (response) r where "answer = Some r" "take_response s r = (t, s')"
    | (event) ev rest where "take_event s ev rest = (t, s')" "box = ev # rest"
  using assms by (cases answer; cases box; cases response_first) (auto dest: sym)

text \<open>The branches of a turn.\<close>

lemma consumer_turn_cases:
  assumes turn: "consumer_turn response_first s = (t, s')"
  obtains (finished) "cn_finished (sc_consumer s)" "t = Ended" "s' = s"
    | (refused) refusal where "\<not> cn_finished (sc_consumer s)" "t = Yield (Err refusal)"
        "s' = s\<lparr>sc_consumer := (sc_consumer s)\<lparr>cn_observation_delivered := True\<rparr>\<rparr>"
    | (ending) "\<not> cn_finished (sc_consumer s)" "may_end s" "end_stream s = (t, s')"
    | (stored) ev where "\<not> cn_finished (sc_consumer s)" "sk_mailbox (sc_sink s) = []" "sk_terminal (sc_sink s) = Some ev"
        "t = Again" "s' = s\<lparr>sc_sink := (sc_sink s)\<lparr>sk_terminal := None\<rparr>, sc_consumer := (sc_consumer s)\<lparr>cn_terminal := Some ev\<rparr>\<rparr>"
    | (waits) "\<not> cn_finished (sc_consumer s)" "\<not> may_end s" "t = Waits" "s' = s" "cn_answered (sc_consumer s) \<or> sc_reply s = None"
        "cn_terminal (sc_consumer s) = None \<Longrightarrow> pending_events (sc_sink s) = []"
    | (response) r where "\<not> cn_finished (sc_consumer s)" "\<not> cn_answered (sc_consumer s)" "take_response s r = (t, s')"
    | (event) ev rest where "\<not> cn_finished (sc_consumer s)" "cn_terminal (sc_consumer s) = None"
        "sk_mailbox (sc_sink s) = ev # rest" "take_event s ev rest = (t, s')"
proof -
  let ?c = "sc_consumer s" and ?sk = "sc_sink s"
  let ?refusal = "if cn_observation_delivered ?c then None else framework_refusal (sc_owner s)"
  let ?stored = "if sk_mailbox ?sk = [] then fst (take_terminal ?sk) else None"
  let ?answer = "if cn_answered ?c then None else sc_reply s"
  let ?box = "if cn_terminal ?c = None then sk_mailbox ?sk else []"
  consider "cn_finished ?c" | refusal where "\<not> cn_finished ?c" "?refusal = Some refusal"
    | "\<not> cn_finished ?c" "?refusal = None" "may_end s"
    | ev where "\<not> cn_finished ?c" "?refusal = None" "\<not> may_end s" "?stored = Some ev"
    | "\<not> cn_finished ?c" "?refusal = None" "\<not> may_end s" "?stored = None"
    by (metis option.exhaust)
  then show thesis
  proof cases
    case 1
    then have "(t, s') = (Ended, s)" by (simp flip: turn add: consumer_turn_def)
    with 1 finished show ?thesis by blast
  next
    case 2
    then have "(t, s') = (Yield (Err refusal), s\<lparr>sc_consumer := ?c\<lparr>cn_observation_delivered := True\<rparr>\<rparr>)"
      by (simp flip: turn add: consumer_turn_def Let_def)
    with 2 refused show ?thesis by blast
  next
    case 3
    then have "end_stream s = (t, s')" by (simp flip: turn add: consumer_turn_def Let_def)
    with 3 ending show ?thesis by blast
  next
    case 4
    then have "sk_mailbox ?sk = []" "sk_terminal ?sk = Some ev" by (auto simp: take_terminal_def split: if_splits)
    moreover from this 4 have "(t, s') = (Again, s\<lparr>sc_sink := ?sk\<lparr>sk_terminal := None\<rparr>, sc_consumer := ?c\<lparr>cn_terminal := Some ev\<rparr>\<rparr>)"
      by (simp flip: turn add: consumer_turn_def Let_def take_terminal_def)
    ultimately show ?thesis using 4 stored by blast
  next
    case 5
    then have "(t, s') = (case (?answer, ?box) of
          (None, []) \<Rightarrow> (Waits, s)
        | (Some response, []) \<Rightarrow> take_response s response
        | (None, ev # rest) \<Rightarrow> take_event s ev rest
        | (Some response, ev # rest) \<Rightarrow> if response_first then take_response s response else take_event s ev rest)"
      by (simp flip: turn add: consumer_turn_def Let_def)
    then show ?thesis
    proof (cases rule: turn_choice)
      case ws: waits
      have "pending_events ?sk = []" if "cn_terminal ?c = None"
        using that ws(4) 5(4) by (simp add: pending_events_def take_terminal_def)
      moreover have "cn_answered ?c \<or> sc_reply s = None" using ws(3) by (simp split: if_splits)
      ultimately show ?thesis using waits [OF 5(1,3) ws(1,2)] by iprover
    next
      case rs: (response r)
      then have "\<not> cn_answered ?c" by (simp split: if_splits)
      then show ?thesis using 5 rs response by blast
    next
      case es: (event ev rest)
      then have "cn_terminal ?c = None" "sk_mailbox ?sk = ev # rest" by (simp_all split: if_splits)
      then show ?thesis using 5 es event by blast
    qed
  qed
qed

lemma ended_turn: "consumer_turn response_first u = (Ended, s) \<Longrightarrow> cn_finished (sc_consumer s)"
proof (erule consumer_turn_cases)
  assume "may_end u" "end_stream u = (Ended, s)"
  then show ?thesis by (auto simp: end_stream_def finish_with_def Let_def split: option.splits if_splits)
next
  fix r assume "take_response u r = (Ended, s)"
  then show ?thesis by (auto simp: take_response_def finish_with_def Let_def split: prod.splits original_response.splits
      sum.splits option.splits if_splits)
next
  fix ev rest assume "take_event u ev rest = (Ended, s)"
  then show ?thesis by (auto simp: take_event_def Let_def split: reverse_event.splits prod.splits option.splits if_splits)
qed auto

lemma consumer_turn_inv:
  assumes inv: "stream_inv s taken items" and "consumer_turn response_first s = (t, s')"
  shows "stream_inv s' (taken @ taken_from (sc_sink s) (sc_sink s')) (items @ yielded_by t)"
  using assms(2)
proof (cases rule: consumer_turn_cases)
  case refused
  then show ?thesis
    using inv given_quiet [of "sc_consumer s" taken items t "sc_consumer s'"] by (auto simp: stream_inv_def)
next
  case ending
  then obtain ev where "cn_terminal (sc_consumer s) = Some ev" by (auto simp: may_end_def)
  then have "sc_sink s' = sc_sink s" using end_stream_cases [OF ending(3,1)] by blast
  then show ?thesis using end_stream_inv [OF inv ending(3,1,2)] by simp
next
  case (stored ev)
  have sk: "sink_inv taken (sc_sink s)" and g: "given (sc_consumer s) taken items" using inv by (simp_all add: stream_inv_def)
  have pend: "pending_events (sc_sink s) = [ev]" using stored by (simp add: pending_events_def)
  then have "\<not> ends taken" using ended_nothing_pending [OF sk] by auto
  then have none: "cn_terminal (sc_consumer s) = None" using g stored(1) by (auto simp: given_def split: option.splits)
  have "physical_terminal ev" using sk stored by (simp add: sink_inv_def Let_def)
  then show ?thesis
  proof (intro taken_inv [OF inv stored(1) none])
    show moved: "pending_events (sc_sink s) = ev # pending_events (sc_sink s')"
      using pend stored by (simp add: pending_events_def)
    show "sink_inv (taken @ [ev]) (sc_sink s')"
      by (rule sink_inv_taken [OF sk moved]) (simp_all add: stored)
  qed (simp_all add: stored)
next
  case response
  then show ?thesis using take_response_inv [OF inv] by blast
next
  case event
  then show ?thesis using take_event_inv [OF inv] by blast
qed (use inv in simp_all)

lemma stream_history_inv: "stream_history vl s taken items \<Longrightarrow> stream_inv s taken items"
proof (induction rule: stream_history.induct)
  case (sh_start s h extension_id kind capacity callback)
  then show ?case by (simp add: stream_inv_def new_sink_inv given_def new_consumer_def ends_def)
next
  case (sh_bridge s taken items sk)
  then show ?case by (auto simp: stream_inv_def intro: sink_step_inv)
next
  case (sh_turn s taken items response_first t s')
  then show ?case using consumer_turn_inv by blast
qed (simp_all add: stream_inv_def)

text \<open>C13: whatever the client sends and whenever the bridge closes, fails or overruns the stream, the events of one
  reverse stream reach its consumer numbered from one without a gap, through a mailbox within its capacity, and only
  the last can be a physical terminal; every payload is of the invoked kind and of this stream. The consumer yields
  exactly the chunks it took, in order, and after them at most one terminal, the last item; a consumer that has
  finished has ended with that terminal or with an error, and yields nothing more.\<close>

theorem extension_stream_is_ordered_and_ends_once:
  assumes "stream_history vl s taken items"
  shows "numbered (taken @ pending_events (sc_sink s)) \<and> only_last_ends (taken @ pending_events (sc_sink s)) \<and>
    length (sk_mailbox (sc_sink s)) \<le> unat (sk_capacity (sc_sink s)) \<and>
    (\<forall>ev\<in>set (taken @ pending_events (sc_sink s)). \<forall>k. payload_kind ev = Some k \<longrightarrow>
       k = sk_value_kind (sc_sink s) \<and> ev_stream ev = sk_stream (sc_sink s)) \<and>
    (ok_items items = filter (\<lambda>ev. \<not> is_terminal ev) taken \<or>
     cn_finished (sc_consumer s) \<and> ok_items items = filter (\<lambda>ev. \<not> is_terminal ev) taken @ [last taken]) \<and>
    (cn_finished (sc_consumer s) \<longrightarrow>
       items \<noteq> [] \<and> (case last items of Inl _ \<Rightarrow> True | Inr ev \<Rightarrow> physical_terminal ev) \<and>
       (\<forall>response_first. consumer_turn response_first s = (Ended, s)))"
proof -
  from stream_history_inv [OF assms] have inv: "sink_inv taken (sc_sink s)" and g: "given (sc_consumer s) taken items"
    by (simp_all add: stream_inv_def)
  have "only_last_ends taken" if "ends taken"
    using inv ended_nothing_pending [OF inv that] by (simp add: sink_inv_def Let_def)
  then have "ends taken \<Longrightarrow> filter (\<lambda>ev. \<not> is_observation ev) taken = filter (\<lambda>ev. \<not> is_terminal ev) taken @ [last taken]"
    using ends_observations by blast
  then have items: "ok_items items = filter (\<lambda>ev. \<not> is_terminal ev) taken \<or>
     cn_finished (sc_consumer s) \<and> ok_items items = filter (\<lambda>ev. \<not> is_terminal ev) taken @ [last taken]"
    using g by (auto simp: given_def split: if_splits sum.splits)
  have "cn_finished (sc_consumer s) \<Longrightarrow>
       items \<noteq> [] \<and> (case last items of Inl _ \<Rightarrow> True | Inr ev \<Rightarrow> physical_terminal ev) \<and>
       (\<forall>response_first. consumer_turn response_first s = (Ended, s))"
    using g by (auto simp: given_def consumer_turn_def Let_def split: sum.splits)
  moreover have "\<forall>ev\<in>set (taken @ pending_events (sc_sink s)). \<forall>k. payload_kind ev = Some k \<longrightarrow>
       k = sk_value_kind (sc_sink s) \<and> ev_stream ev = sk_stream (sc_sink s)"
    using inv unfolding sink_inv_def Let_def of_stream_def by fastforce
  moreover have "numbered (taken @ pending_events (sc_sink s))" "only_last_ends (taken @ pending_events (sc_sink s))"
    "length (sk_mailbox (sc_sink s)) \<le> unat (sk_capacity (sc_sink s))"
    using inv by (simp_all add: sink_inv_def Let_def)
  ultimately show ?thesis using items by blast
qed

section \<open>The loop of the consumer\<close>

text \<open>Every round the loop goes again has taken an event or the answer: the loop ends.\<close>

definition loop_measure :: "('p, 'r, 'l) stream_call \<Rightarrow> nat" where
  "loop_measure s = length (pending_events (sc_sink s)) + (if cn_answered (sc_consumer s) then 0 else 1)"

lemma take_response_answers:
  "take_response s response = (t, s') \<Longrightarrow> sc_sink s' = sc_sink s \<and> cn_answered (sc_consumer s')"
  by (auto simp: take_response_def finish_with_def Let_def split: prod.splits original_response.splits
      sum.splits option.splits if_splits)

lemma take_event_answers:
  "take_event s ev rest = (t, s') \<Longrightarrow>
     sc_sink s' = (sc_sink s)\<lparr>sk_mailbox := rest\<rparr> \<and> cn_answered (sc_consumer s') = cn_answered (sc_consumer s)"
  by (auto simp: take_event_def Let_def split: reverse_event.splits prod.splits option.splits if_splits)

lemma end_stream_not_again: "end_stream s \<noteq> (Again, s')"
  by (auto simp: end_stream_def finish_with_def Let_def split: option.splits if_splits)

lemma consumer_turn_again: "consumer_turn response_first s = (Again, s') \<Longrightarrow> loop_measure s' < loop_measure s"
proof (erule consumer_turn_cases)
  fix r assume "\<not> cn_answered (sc_consumer s)" "take_response s r = (Again, s')"
  then show ?thesis using take_response_answers by (fastforce simp: loop_measure_def)
next
  fix ev rest assume "sk_mailbox (sc_sink s) = ev # rest" "take_event s ev rest = (Again, s')"
  then show ?thesis using take_event_answers by (fastforce simp: loop_measure_def pending_events_def)
qed (auto simp: end_stream_not_again loop_measure_def pending_events_def)

text \<open>\<open>pick\<close>: what \<open>tokio::select!\<close> chooses in each round.\<close>

function consumer_next ::
  "(nat \<Rightarrow> bool) \<Rightarrow> nat \<Rightarrow> ('p, 'r, 'l) stream_call \<Rightarrow> 'p turn \<times> ('p, 'r, 'l) stream_call" where
  "consumer_next pick n s =
     (case consumer_turn (pick n) s of
        (Again, s') \<Rightarrow> consumer_next pick (Suc n) s'
      | other \<Rightarrow> other)"
  by pat_completeness auto
termination
  by (relation "measure (\<lambda>(pick, n, s). loop_measure s)") (auto intro: consumer_turn_again [OF sym])

declare consumer_next.simps [simp del]

lemma consumer_next_poll:
  "stream_history vl s taken items \<Longrightarrow>
     \<exists>taken'. stream_history vl (snd (consumer_next pick n s)) taken' (items @ yielded_by (fst (consumer_next pick n s))) \<and>
       fst (consumer_next pick n s) \<noteq> Again \<and> (\<exists>response_first u. consumer_turn response_first u = consumer_next pick n s)"
proof (induction pick n s arbitrary: taken items rule: consumer_next.induct)
  case (1 pick n s)
  obtain t s' where turn: "consumer_turn (pick n) s = (t, s')" by fastforce
  note history = sh_turn [OF 1(2) turn]
  show ?case
  proof (cases "t = Again")
    case True
    then show ?thesis using 1(1) [OF _ _ ] history turn by (simp add: consumer_next.simps [of pick n s])
  next
    case False
    then have "consumer_next pick n s = (t, s')"
      using turn by (simp add: consumer_next.simps [of pick n s] split: turn.splits)
    then show ?thesis using history turn False by (auto intro!: exI)
  qed
qed

text \<open>A turn that waits has nothing to read, or awaits the release of the callback.\<close>

lemma waiting_turn:
  assumes "consumer_turn response_first u = (Waits, s)"
  shows "\<not> cn_finished (sc_consumer s) \<and>
    (co_physical_closed (sc_owner s) \<and> \<not> co_finished (sc_owner s) \<or>
     \<not> may_end s \<and> (cn_answered (sc_consumer s) \<or> sc_reply s = None) \<and>
       (cn_terminal (sc_consumer s) = None \<longrightarrow> pending_events (sc_sink s) = []))"
  using assms
proof (cases rule: consumer_turn_cases)
  case ending
  then show ?thesis by (auto simp: end_stream_def finish_with_def Let_def split: option.splits if_splits)
next
  case response
  then show ?thesis by (auto simp: take_response_def finish_with_def Let_def split: prod.splits original_response.splits
      sum.splits option.splits if_splits)
next
  case event
  then show ?thesis by (auto simp: take_event_def Let_def split: reverse_event.splits prod.splits option.splits if_splits)
qed auto

text \<open>C25: a poll of the consumer returns, whatever \<open>select!\<close> picks and however many events are pending, and goes on
  with the same history. When it waits, the stream has not ended and there is nothing to read: the answer is taken
  or has not come, and no event is pending before the terminal; or the release of the callback is awaited. It is
  over only for a consumer that has finished.\<close>

theorem consumer_poll_returns:
  assumes "stream_history vl s taken items"
  shows "case consumer_next pick n s of (t, s') \<Rightarrow>
    (\<exists>taken'. stream_history vl s' taken' (items @ yielded_by t)) \<and>
    (case t of
       Yield item \<Rightarrow> True
     | Again \<Rightarrow> False
     | Ended \<Rightarrow> cn_finished (sc_consumer s')
     | Waits \<Rightarrow> \<not> cn_finished (sc_consumer s') \<and>
         (co_physical_closed (sc_owner s') \<and> \<not> co_finished (sc_owner s') \<or>
          \<not> may_end s' \<and> (cn_answered (sc_consumer s') \<or> sc_reply s' = None) \<and>
          (cn_terminal (sc_consumer s') = None \<longrightarrow> pending_events (sc_sink s') = [])))"
proof -
  obtain t s' where eq: "consumer_next pick n s = (t, s')" by fastforce
  then obtain taken' response_first u where history: "stream_history vl s' taken' (items @ yielded_by t)"
    and turn: "t \<noteq> Again" "consumer_turn response_first u = (t, s')"
    using consumer_next_poll [OF assms, of pick n] by auto
  show ?thesis
  proof (cases t)
    case Waits
    with turn(2) have "consumer_turn response_first u = (Waits, s')" by simp
    from waiting_turn [OF this] history show ?thesis unfolding eq Waits by auto
  qed (use eq history turn ended_turn in auto)
qed

section \<open>A stream that is overrun\<close>

definition sample_value_len :: "string value_len" where
  "sample_value_len = \<lparr>vl_chunk = (\<lambda>_. Some 1), vl_complete = (\<lambda>_. Some 1)\<rparr>"

definition sample_number :: "u64 \<Rightarrow> wire_non_zero_u64" where
  "sample_number q = WireNonZeroU64 (from_u64 q)"

definition sample_chunk :: "u64 \<Rightarrow> string reverse_event" where
  "sample_chunk q = EvChunk sample_stream_handle (sample_number q) (ChunkAgent ''part'')"

definition sample_overrun_failure :: "string reverse_event" where
  "sample_overrun_failure =
     EvFailed sample_stream_handle (sample_number 2) (stream_failed ExtensionFailed mailbox_reason)"

definition sample_opened :: "(string, string, nat) stream_call" where
  "sample_opened = \<lparr>sc_sink = new_sink sample_stream_handle ''agent'' KCustomAgent 1 None, sc_owner = sample_callback_owner,
     sc_consumer = new_consumer, sc_reply = None\<rparr>"

definition sample_overrun :: "(string, string, nat) stream_call" where
  "sample_overrun = sample_opened\<lparr>sc_sink := (sc_sink sample_opened)\<lparr>sk_mailbox := [sample_chunk 1], sk_last_sequence := 2,
     sk_terminal_seen := True, sk_terminal := Some sample_overrun_failure\<rparr>\<rparr>"

lemma sample_chunk_fits: "sk_stream sk = sample_stream_handle \<Longrightarrow> sk_value_kind sk = KCustomAgent \<Longrightarrow> q \<noteq> 0 \<Longrightarrow>
  fits sample_value_len sk (sample_chunk q)"
  by (simp add: fits_def sample_chunk_def event_violation_def validate_event_def check_value_len_def sample_value_len_def
      sample_handle_valid payload_kind_def sample_number_def nz_to_u64_def reject_if_def
      max_extension_stream_chunk_bytes_def)

lemma sample_chunk_facts [simp]:
  "\<not> physical_terminal (sample_chunk q)" "\<not> is_terminal (sample_chunk q)" "nz_to_u64 (sample_number q) = Some q"
  "ev_sequence (sample_chunk q) = sample_number q" "is_observation (sample_chunk q) = False"
  by (simp_all add: sample_chunk_def physical_terminal_def sample_number_def nz_to_u64_def is_observation_def)

lemma sample_sequence: "checked_add (0 :: u64) 1 = Some 1" "checked_add (1 :: u64) 1 = Some 2"
  by (simp_all add: checked_add_Some)

lemma sample_overrun_history: "stream_history sample_value_len sample_overrun [] []"
proof -
  let ?sk0 = "sc_sink sample_opened"
  let ?sk1 = "?sk0\<lparr>sk_mailbox := [sample_chunk 1], sk_last_sequence := 1\<rparr>"
  have fields: "sk_stream ?sk0 = sample_stream_handle" "sk_value_kind ?sk0 = KCustomAgent"
    by (simp_all add: sample_opened_def new_sink_def)
  have start: "stream_history sample_value_len sample_opened [] []"
    by (rule sh_start) (simp_all add: sample_opened_def)
  have one: "sink_step sample_value_len ?sk0 ?sk1"
  proof (rule ss_offer)
    show "fits sample_value_len ?sk0 (sample_chunk 1)" by (rule sample_chunk_fits) (simp_all add: fields)
    show "admit_event (sample_chunk 1) ?sk0 = (True, ?sk0\<lparr>sk_last_sequence := 1\<rparr>)"
      by (simp add: admit_event_def sample_opened_def new_sink_def sample_sequence option_default_def Let_def)
    show "offer_event (sample_chunk 1) (?sk0\<lparr>sk_last_sequence := 1\<rparr>) = (Sent, ?sk1)"
      by (simp add: offer_event_def try_send_def sample_opened_def new_sink_def)
  qed
  have two: "sink_step sample_value_len ?sk1 (sc_sink sample_overrun)"
  proof (rule ss_offer)
    show "fits sample_value_len ?sk1 (sample_chunk 2)" by (rule sample_chunk_fits) (simp_all add: fields)
    show "admit_event (sample_chunk 2) ?sk1 = (True, ?sk1\<lparr>sk_last_sequence := 2\<rparr>)"
      by (simp add: admit_event_def sample_opened_def new_sink_def sample_sequence option_default_def Let_def)
    show "offer_event (sample_chunk 2) (?sk1\<lparr>sk_last_sequence := 2\<rparr>) = (SendFull, sc_sink sample_overrun)"
      by (simp add: offer_event_def try_send_def sample_opened_def new_sink_def fail_undelivered_def publish_terminal_def
          sample_overrun_def sample_overrun_failure_def)
  qed
  from sh_bridge [OF sh_bridge [OF start one]] two show ?thesis by (simp add: sample_overrun_def)
qed

definition sample_ended :: "(string, string, nat) stream_call" where
  "sample_ended = sample_overrun\<lparr>sc_sink := (sc_sink sample_overrun)\<lparr>sk_mailbox := [], sk_terminal := None\<rparr>,
     sc_reply := Some (Some (Ok None)), sc_owner := sample_callback_owner\<lparr>co_response_completed := True\<rparr>,
     sc_consumer := new_consumer\<lparr>cn_answered := True, cn_finished := True, cn_armed := False\<rparr>\<rparr>"

lemma sample_ended_history:
  "stream_history sample_value_len sample_ended [sample_chunk 1, sample_overrun_failure]
     [Ok (sample_chunk 1), Ok sample_overrun_failure]"
proof -
  let ?s1 = "sample_overrun\<lparr>sc_sink := (sc_sink sample_overrun)\<lparr>sk_mailbox := []\<rparr>\<rparr>"
  let ?s2 = "sample_overrun\<lparr>sc_sink := (sc_sink sample_overrun)\<lparr>sk_mailbox := [], sk_terminal := None\<rparr>,
    sc_consumer := new_consumer\<lparr>cn_terminal := Some sample_overrun_failure\<rparr>\<rparr>"
  let ?s3 = "?s2\<lparr>sc_reply := Some (Some (Ok None))\<rparr>"
  let ?s4 = "?s3\<lparr>sc_owner := sample_callback_owner\<lparr>co_response_completed := True\<rparr>, sc_consumer := (sc_consumer ?s2)\<lparr>cn_answered := True\<rparr>\<rparr>"
  note evaluate = consumer_turn_def Let_def sample_overrun_def sample_opened_def new_sink_def new_consumer_def may_end_def
    framework_refusal_def sample_callback_owner_def take_terminal_def
  have one: "consumer_turn False sample_overrun = (Yield (Ok (sample_chunk 1)), ?s1)"
    by (simp add: evaluate) (simp add: take_event_def sample_chunk_def physical_terminal_def)
  have two: "consumer_turn False ?s1 = (Again, ?s2)" by (simp add: evaluate)
  have three: "consumer_turn False ?s3 = (Again, ?s4)"
    by (simp add: evaluate) (simp add: take_response_def observe_response_def finish_if_physical_facts_def record_peer_response_def)
  have four: "consumer_turn False ?s4 = (Yield (Ok sample_overrun_failure), sample_ended)"
    by (simp add: evaluate) (simp add: end_stream_def finish_with_def finish_if_physical_facts_def sample_ended_def evaluate)
  have taken: "taken_from (sc_sink sample_overrun) (sc_sink ?s1) = [sample_chunk 1]"
    "taken_from (sc_sink ?s1) (sc_sink ?s2) = [sample_overrun_failure]" "taken_from (sc_sink ?s3) (sc_sink ?s4) = []"
    "taken_from (sc_sink ?s4) (sc_sink sample_ended) = []"
    by (simp_all add: taken_from_def pending_events_def sample_ended_def sample_overrun_def sample_opened_def new_sink_def)
  from sh_turn [OF sh_turn [OF sh_reply [OF sh_turn [OF sh_turn [OF sample_overrun_history one] two]] three] four]
  show ?thesis unfolding taken by simp
qed

theorem extension_stream_is_ordered_and_ends_once_witness:
  "numbered [sample_chunk 1, sample_overrun_failure] \<and> consumer_turn True sample_ended = (Ended, sample_ended)"
  using extension_stream_is_ordered_and_ends_once [OF sample_ended_history]
  by (simp add: sample_ended_def sample_overrun_def sample_opened_def new_sink_def pending_events_def)

theorem consumer_poll_returns_witness:
  "fst (consumer_next (\<lambda>_. True) 0 sample_ended) \<noteq> Again"
  using consumer_poll_returns [OF sample_ended_history, of "\<lambda>_. True" 0] by auto

definition sample_bridge :: "(string, string, nat) bridge_shared" where
  "sample_bridge = register_stream 0 (sc_sink sample_opened) (new_bridge (\<lambda>_. sc_sink sample_opened))"

lemma sample_bridge_fields: "hget (bs_streams sample_bridge) (h_id sample_stream_handle) = Some 0"
  "bs_sinks sample_bridge 0 = sc_sink sample_opened" "sk_stream (sc_sink sample_opened) = sample_stream_handle"
  "sk_value_kind (sc_sink sample_opened) = KCustomAgent"
  by (simp_all add: sample_bridge_def register_stream_def new_bridge_def sample_opened_def new_sink_def)

lemma sample_gap:
  "deliver_stream_event sample_value_len (sample_chunk 2) sample_bridge =
   (Err contiguous_reason, fail_stream sample_stream_handle contiguous_reason sample_bridge)"
proof -
  have "fits sample_value_len (sc_sink sample_opened) (sample_chunk 2)"
    by (rule sample_chunk_fits) (simp_all add: sample_bridge_fields)
  then have "event_violation sample_value_len (sample_chunk 2) = None" by (simp add: fits_def)
  moreover have "observe_remote_sequence (sample_chunk 2) (sc_sink sample_opened) = (False, sc_sink sample_opened)"
    by (simp add: observe_remote_sequence_def sample_opened_def new_sink_def sample_sequence)
  moreover have "ev_stream (sample_chunk 2) = sample_stream_handle" "payload_kind (sample_chunk 2) = Some KCustomAgent"
    by (simp_all add: sample_chunk_def payload_kind_def)
  moreover have "put_sink 0 (sc_sink sample_opened) sample_bridge = sample_bridge"
    by (simp add: put_sink_def flip: sample_bridge_fields(2))
  ultimately show ?thesis by (simp add: deliver_stream_event_def sample_bridge_fields)
qed

theorem rejected_event_ends_only_its_stream_witness:
  "let b' = snd (deliver_stream_event sample_value_len (sample_chunk 2) sample_bridge)
   in sk_terminal_seen (bs_sinks b' 0) \<or> sk_last_sequence (bs_sinks b' 0) = - 1"
  unfolding sample_gap Let_def snd_conv
  using rejected_event_ends_only_its_stream [OF sample_gap] sample_bridge_fields
  by (simp add: sample_chunk_def is_observation_def)

end
