(* ===== verification/Reverse_Invocation.thy ===== *)
theory Reverse_Invocation
  imports Stream_Order
begin

text \<open>
  How the Host makes a reverse call (\<open>ExtensionBridge\<close> of \<open>core_profile/extension_bridge.rs\<close>): the admission every
  call passes, the call that is built, a call with one answer from its admission to its result, and a call with a
  stream, which registers the stream before it is submitted and releases it when it fails.
\<close>

section \<open>The bridge\<close>

text \<open>
  What the bridge asks for: \<open>be_live\<close>, the profile state still exists; the error of \<open>services()\<close>; the lease authority
  of the framework with the exclusive key of the call; the limits.
\<close>

datatype lease_refusal = AdmissionClosed | ConcurrencyLimit | ExclusiveConflict

record 'l bridge_env =
  be_live :: bool
  be_services_error :: "string option"
  be_lease :: "string option \<Rightarrow> lease_refusal + 'l"
  be_identity :: "'l \<Rightarrow> string"
  be_payload_limit :: usize
  be_outstanding :: usize
  be_timeout_secs :: u64

fun lease_error :: "lease_refusal \<Rightarrow> sdk_err" where
  "lease_error AdmissionClosed =
     sdk_error HostShuttingDown ''the Host is shutting down and refuses new extension invocations'' Never invoke_method"
| "lease_error ConcurrencyLimit =
     sdk_error ExtensionRejected ''extension callback concurrency limit reached'' AfterDelay invoke_method"
| "lease_error ExclusiveConflict =
     sdk_error ExtensionConflict ''extension is already executing an exclusive invocation'' Never invoke_method"

definition bridge_state :: "'l bridge_env \<Rightarrow> sdk_err + unit" where
  "bridge_state env =
     reject_if (\<not> be_live env) (invoke_error HostShuttingDown ''extension bridge profile state is not live'')"

definition payload_limit :: "'l bridge_env \<Rightarrow> sdk_err + usize" where
  "payload_limit env = map_ok (\<lambda>_. be_payload_limit env) (bridge_state env)"

section \<open>Admission\<close>

definition admitted_extension ::
  "wire_handle \<Rightarrow> extension_operation \<Rightarrow> 'd handle_inner \<Rightarrow> sdk_err + extension_entry" where
  "admitted_extension h operation s =
     and_then (check_shape_and_generation s h ExtensionKindOf invoke_method) (\<lambda>_.
     and_then (map_err (invoke_error InvalidValue) (validate_handle h)) (\<lambda>_.
     and_then (if operation = OpAgentClose then extension_for_cleanup h s else extension h s) (\<lambda>e.
       if ex_kind e \<noteq> operation_kind operation
       then Err (with_handle (invoke_error InvalidValue
              (''operation '' @ operation_str operation @ '' does not address extension kind '' @
               extension_kind_str (ex_kind e))) h)
       else Ok e)))"

definition exclusive_key :: "wire_handle \<Rightarrow> extension_kind \<Rightarrow> 'i invocation \<Rightarrow> string option" where
  "exclusive_key h kind invocation =
     (if is_exclusive_invocation kind invocation then Some (h_id h @ ''/'' @ extension_kind_str kind) else None)"

definition prepare ::
  "'l bridge_env \<Rightarrow> wire_handle \<Rightarrow> 'i invocation \<Rightarrow> 'd handle_inner \<Rightarrow> sdk_err + 'l \<times> extension_entry" where
  "prepare env h invocation s =
     and_then (bridge_state env) (\<lambda>_.
     and_then (admitted_extension h (invocation_operation invocation) s) (\<lambda>e.
       case be_services_error env of
         Some message \<Rightarrow> Err (invoke_error HostShuttingDown message)
       | None \<Rightarrow>
           map_ok (\<lambda>lease. (lease, e)) (map_err lease_error (be_lease env (exclusive_key h (ex_kind e) invocation)))))"

section \<open>The call\<close>

text \<open>A duration is its seconds and its nanoseconds below a second.\<close>

definition deadline_of :: "'l bridge_env \<Rightarrow> extension_entry \<Rightarrow> u64 \<times> u32" where
  "deadline_of env e =
     (case Option.bind (ex_timeout e) (\<lambda>t.
             if is_ok (validate_duration t) then map_option (\<lambda>seconds. (seconds, dur_nanos t)) (to_u64 (dur_seconds t))
             else None) of
        Some d \<Rightarrow> d
      | None \<Rightarrow> (max (if be_live env then be_timeout_secs env else 0) 1, 0))"

definition duration_wire :: "u64 \<times> u32 \<Rightarrow> wire_duration" where
  "duration_wire d = \<lparr>dur_seconds = from_u64 (fst d), dur_nanos = snd d\<rparr>"

definition duration_min :: "u64 \<times> u32 \<Rightarrow> u64 \<times> u32 \<Rightarrow> u64 \<times> u32" where
  "duration_min d d' = (if fst d < fst d' \<or> fst d = fst d' \<and> snd d \<le> snd d' then d else d')"

text \<open>A call of a managed store carries an absolute deadline; \<open>remaining\<close> is the framework's time that is left.\<close>

definition deadline_exceeded :: "string \<Rightarrow> sdk_err" where
  "deadline_exceeded message =
     with_fields (invoke_error ExtensionTimeout message)
       [\<lparr>df_key = ''persistence_error_class'', df_value = ''deadline_exceeded''\<rparr>]"

definition managed_deadline ::
  "(int \<Rightarrow> string + u64 \<times> u32) \<Rightarrow> wire_i64 option \<Rightarrow> u64 \<times> u32 \<Rightarrow> sdk_err + u64 \<times> u32" where
  "managed_deadline remaining managed d =
     (case managed of
        None \<Rightarrow> Ok d
      | Some w \<Rightarrow>
          and_then (ok_or (to_i64 w) (invoke_error InvalidValue ''invalid managed deadline'')) (\<lambda>ms.
            map_ok (duration_min d) (map_err deadline_exceeded (remaining ms))))"

definition call_of ::
  "'l bridge_env \<Rightarrow> wire_handle \<Rightarrow> extension_entry \<Rightarrow> 'l \<Rightarrow> invocation_context option \<Rightarrow> 'i invocation \<Rightarrow>
     u64 \<times> u32 \<Rightarrow> wire_handle option \<Rightarrow> 'i invoke_call" where
  "call_of env h e lease context invocation deadline stream_handle =
     \<lparr>iv_factory_origin = ex_factory_origin e, iv_extension = h, iv_invocation_id = be_identity env lease,
      iv_context = context, iv_invocation = invocation, iv_deadline = duration_wire deadline, iv_stream = stream_handle\<rparr>"

definition checked_call :: "('i invocation \<Rightarrow> nat option) \<Rightarrow> 'i invoke_call \<Rightarrow> sdk_err + 'i invoke_call" where
  "checked_call len c = map_ok (\<lambda>_. c) (map_err (invoke_error SerializationViolation) (validate_call len c))"

definition bounded_invocation ::
  "'l bridge_env \<Rightarrow> ('i invocation \<Rightarrow> nat option) \<Rightarrow> ('i invocation \<Rightarrow> string) \<Rightarrow> 'i invocation \<Rightarrow> sdk_err + unit" where
  "bounded_invocation env len shown invocation =
     ensure_payload_bound (payload_limit env) (len invocation) (shown invocation)"

text \<open>
  Whose cancellation ends a call: the run its context names, else the run that is active in its Session, else the
  one it came with. \<open>services\<close> is none when the bridge cannot reach them.
\<close>

record 'c cancellation_services =
  cs_run :: "string \<Rightarrow> 'c option"
  cs_active :: "string \<Rightarrow> 'c option"

definition cancellation_for_context ::
  "'c cancellation_services option \<Rightarrow> invocation_context option \<Rightarrow> 'c \<Rightarrow> 'c" where
  "cancellation_for_context services context fallback =
     (case services of
        None \<Rightarrow> fallback
      | Some sv \<Rightarrow>
          (case Option.bind (Option.bind context ic_run_id) (cs_run sv) of
             Some c \<Rightarrow> c
           | None \<Rightarrow>
               (case Option.bind (Option.bind context ic_session_id) (cs_active sv) of
                  Some c \<Rightarrow> c
                | None \<Rightarrow> fallback)))"

section \<open>A call with one answer\<close>

text \<open>\<open>invoke_once_with_scope\<close> up to the submission, and \<open>invoke_channel_once\<close>.\<close>

definition once_call ::
  "'l bridge_env \<Rightarrow> ('i invocation \<Rightarrow> nat option) \<Rightarrow> ('i invocation \<Rightarrow> string) \<Rightarrow> (int \<Rightarrow> string + u64 \<times> u32) \<Rightarrow>
     wire_i64 option \<Rightarrow> wire_handle \<Rightarrow> invocation_context option \<Rightarrow> 'i invocation \<Rightarrow>
     ('p, 'r, 'k) bridge_shared \<times> 'd handle_inner \<Rightarrow> sdk_err + 'l \<times> 'i invoke_call" where
  "once_call env len shown remaining managed h context invocation w =
     and_then (prepare env h invocation (snd w)) (\<lambda>(lease, e).
     and_then (bridge_connection (fst w)) (\<lambda>_.
     and_then (bounded_invocation env len shown invocation) (\<lambda>_.
     and_then (managed_deadline remaining managed (deadline_of env e)) (\<lambda>deadline.
       map_ok (Pair lease) (checked_call len (call_of env h e lease context invocation deadline None))))))"

definition channel_call ::
  "'l bridge_env \<Rightarrow> ('i invocation \<Rightarrow> nat option) \<Rightarrow> ('i invocation \<Rightarrow> string) \<Rightarrow> wire_handle \<Rightarrow> 'i invocation \<Rightarrow>
     'd handle_inner \<Rightarrow> sdk_err + 'l \<times> 'i invoke_call" where
  "channel_call env len shown h invocation s =
     and_then (prepare env h invocation s) (\<lambda>(lease, e).
     and_then (bounded_invocation env len shown invocation) (\<lambda>_.
       map_ok (Pair lease) (checked_call len (call_of env h e lease None invocation (deadline_of env e) None))))"

text \<open>What a call whose execution the other side owns makes of the answer its owner projects.\<close>

definition owned_result :: "sdk_err + 'r option \<Rightarrow> sdk_err + 'r" where
  "owned_result response =
     and_then response (\<lambda>r. ok_or r (invoke_error SerializationViolation ''non-streaming callback returned no result''))"

definition channel_result :: "(sdk_err + 'r option) option \<Rightarrow> sdk_err + 'r" where
  "channel_result response =
     and_then (case response of None \<Rightarrow> Err callback_response_lost | Some r \<Rightarrow> r) (\<lambda>r.
       ok_or r (invoke_error ExtensionFailed ''channel callback returned no single result''))"

text \<open>
  The other calls race their answer against the cancellation and the deadline. A settlement that lost leaves at once
  with the error of the settlement that won (the flag); the observation of an unknown outcome keeps the lease.
\<close>

datatype 'r once_event = OnceAnswer "peer_error + 'r invoke_outcome" | OnceCancelled | OnceTimeout

fun settle_once ::
  "'l lease_ops \<Rightarrow> 'r result_facts \<Rightarrow> data_decoder \<Rightarrow> sdk_err + usize \<Rightarrow> extension_operation \<Rightarrow> 'r once_event \<Rightarrow> 'l \<Rightarrow>
     bool \<times> (sdk_err + 'r) \<times> 'l" where
  "settle_once lo rf dd limit operation (OnceAnswer (Inr outcome)) lease =
     (case settle_outcome lo rf limit lease outcome operation None of
        (r, l) \<Rightarrow> (False, and_then r (\<lambda>x. ok_or x (invoke_error ExtensionFailed ''non-streaming invocation returned no result'')), l))"
| "settle_once lo rf dd limit operation (OnceAnswer (Inl e)) lease =
     (let typed = transport_error dd e in
      (False, Err typed,
       if has_observation_hint typed then lease
       else snd (lo_settle lo (if err_code typed = ExtensionDisconnected then Disconnected else Answered) lease)))"
| "settle_once lo rf dd limit operation OnceCancelled lease =
     (case lo_settle lo CancelledSettlement lease of
        (won, l) \<Rightarrow>
          if won then (False, Err (invoke_error error_code.Cancelled ''extension invocation was cancelled''), l)
          else (True, Err (settlement_error (lo_settlement lo l)), l))"
| "settle_once lo rf dd limit operation OnceTimeout lease =
     (case lo_settle lo TimedOut lease of
        (won, l) \<Rightarrow>
          if won then (False, Err (invoke_error ExtensionTimeout ''extension invocation exceeded its deadline''), l)
          else (True, Err (settlement_error (lo_settlement lo l)), l))"

text \<open>
  The result of the call (\<open>None\<close>: it waits for the owner's observation to be settled) and the owner. A call that has
  no slot for an error never answers an observation while the owner is observed.
\<close>

definition once_result ::
  "bool \<Rightarrow> bool \<times> (sdk_err + 'r) \<times> 'l \<Rightarrow> ('r, 'l) callback_owner \<Rightarrow> (sdk_err + 'r) option \<times> ('r, 'l) callback_owner" where
  "once_result no_slot settled o' =
     (case settled of
        (early, r, l) \<Rightarrow>
          if early then (Some r, o')
          else case r of
            Inr _ \<Rightarrow> (Some r, o')
          | Inl e \<Rightarrow>
              if \<not> has_observation_hint e then (Some r, o')
              else (case retain_unknown e o' of
                (refusal, o1) \<Rightarrow>
                  let o2 = o1\<lparr>co_lease := Some l, co_response_completed := True\<rparr>
                  in (if \<not> no_slot \<and> refusal \<noteq> None then (map_option Inl refusal, o2)
                      else if observed o2 then (None, o2) else (Some r, o2))))"

section \<open>A call with a stream\<close>

text \<open>
  The transport: the watch of the deadline is spawned, for a producer that outlives its acknowledgement also the
  watch of its end, and then the request is sent. Once the first is spawned, it holds the owner.
\<close>

record transport =
  tp_watch :: "sdk_err + unit"
  tp_tracker :: "sdk_err + unit"
  tp_send :: "sdk_err + unit"

datatype submission = Refused sdk_err | Held bool sdk_err | Submitted

text \<open>\<open>Held\<close> says whether the lease had been installed in the owner.\<close>

definition submit ::
  "transport \<Rightarrow> stream_policy \<Rightarrow> 'i invoke_call \<Rightarrow> ('p, 'r, 'l) bridge_shared \<Rightarrow> submission" where
  "submit tp policy c b =
     (case and_then (bridge_connection b) (\<lambda>_.
             and_then (ok_or (to_u64 (dur_seconds (iv_deadline c)))
               (invoke_error SerializationViolation ''invalid channel callback deadline'')) (\<lambda>_. tp_watch tp)) of
        Inl e \<Rightarrow> Refused e
      | Inr _ \<Rightarrow>
          (case (if policy = CustomAgentPolicy then tp_tracker tp else Ok ()) of
             Inl e \<Rightarrow> Held False e
           | Inr _ \<Rightarrow> (case tp_send tp of Inl e \<Rightarrow> Held True e | Inr _ \<Rightarrow> Submitted)))"

text \<open>
  \<open>invoke_channel_stream\<close> and \<open>invoke_owned_producer_stream\<close>: the stream is registered, the sink (at address \<open>a\<close>) and
  the owner (at \<open>i\<close>) are created, the call is checked and submitted. A failure drops the receiver and then the owner,
  which releases the stream and leaves the Session's callback.
\<close>

definition drop_receiver :: "nat \<Rightarrow> ('p, 'r, 'l) bridge_shared \<Rightarrow> ('p, 'r, 'l) bridge_shared" where
  "drop_receiver a = on_sink a (\<lambda>sk. sk\<lparr>sk_receiver_open := False, sk_mailbox := []\<rparr>)"

definition give_up ::
  "wire_handle \<Rightarrow> string option \<Rightarrow> nat \<Rightarrow> nat \<Rightarrow> ('p, 'r, 'l) bridge_shared \<times> 'd handle_inner \<Rightarrow>
     ('p, 'r, 'l) bridge_shared \<times> 'd handle_inner" where
  "give_up stream_handle guard a i w =
     (case release_stream stream_handle (drop_receiver a (fst w), snd w) of
        (b, s) \<Rightarrow> (leave_session_callback guard (b\<lparr>bs_owners := (bs_owners b)(i := None)\<rparr>), s))"

definition stream_sink_of ::
  "'l bridge_env \<Rightarrow> stream_policy \<Rightarrow> wire_handle \<Rightarrow> wire_handle \<Rightarrow> 'i invocation \<Rightarrow> 'p stream_sink" where
  "stream_sink_of env policy stream_handle h invocation =
     (new_sink stream_handle (h_id h) (operation_kind (invocation_operation invocation)) (be_outstanding env) None)
       \<lparr>sk_retain := (policy = CustomAgentPolicy)\<rparr>"

definition submit_stream ::
  "'l bridge_env \<Rightarrow> transport \<Rightarrow> stream_policy \<Rightarrow> nat \<Rightarrow> nat \<Rightarrow> ('r, 'l) callback_owner \<Rightarrow> wire_handle \<Rightarrow> string option \<Rightarrow>
     'l \<Rightarrow> 'i invoke_call \<Rightarrow> ('p, 'r, 'l) bridge_shared \<times> 'd handle_inner \<Rightarrow>
     (sdk_err + 'i invoke_call) \<times> ('p, 'r, 'l) bridge_shared \<times> 'd handle_inner" where
  "submit_stream env tp policy a i owner stream_handle guard lease c w =
     (let b = (on_sink a (\<lambda>sk. sk\<lparr>sk_owner := Some i\<rparr>) (fst w))\<lparr>bs_owners := (bs_owners (fst w))(i := Some owner)\<rparr>;
          sent = b\<lparr>bs_owners := (bs_owners b)(i := Some (on_submit
            \<lparr>oc_policy = policy, oc_operation = invocation_operation (iv_invocation c), oc_expected = Some stream_handle,
             oc_limit = payload_limit env\<rparr> lease owner))\<rparr>
      in case submit tp policy c b of
        Refused e \<Rightarrow> (Err e, give_up stream_handle guard a i (b, snd w))
      | Held installed e \<Rightarrow> (Err e, drop_receiver a (if installed then sent else b), snd w)
      | Submitted \<Rightarrow> (Ok c, sent, snd w))"

definition open_stream_call ::
  "'l bridge_env \<Rightarrow> transport \<Rightarrow> ('i invocation \<Rightarrow> nat option) \<Rightarrow> ('i invocation \<Rightarrow> string) \<Rightarrow> string \<Rightarrow> nat \<Rightarrow> nat \<Rightarrow>
     ('r, 'l) callback_owner \<Rightarrow> stream_policy \<Rightarrow> wire_handle \<Rightarrow> invocation_context option \<Rightarrow> 'i invocation \<Rightarrow>
     ('p, 'r, 'l) bridge_shared \<times> 'd handle_inner \<Rightarrow>
     (sdk_err + 'i invoke_call) \<times> ('p, 'r, 'l) bridge_shared \<times> 'd handle_inner" where
  "open_stream_call env tp len shown uuid a i owner policy h context invocation w =
     (case and_then (prepare env h invocation (snd w)) (\<lambda>(lease, e).
             and_then (bounded_invocation env len shown invocation) (\<lambda>_.
               map_ok (\<lambda>_. (lease, e)) (bridge_state env))) of
        Inl e \<Rightarrow> (Err e, w)
      | Inr (lease, e) \<Rightarrow>
          (case register_extension_stream uuid (h_id h) (snd w) of
             (Inl err, s) \<Rightarrow> (Err err, fst w, s)
           | (Inr stream_handle, s) \<Rightarrow>
               (case enter_session_callback
                       (if policy = CustomAgentPolicy then Option.bind context ic_session_id else None) (fst w) of
                  (guard, b) \<Rightarrow>
                    let b1 = register_stream a (stream_sink_of env policy stream_handle h invocation) b
                    in case checked_call len
                         (call_of env h e lease context invocation (deadline_of env e) (Some stream_handle)) of
                      Inl err \<Rightarrow> (Err err, give_up stream_handle guard a i (b1, s))
                    | Inr c \<Rightarrow> submit_stream env tp policy a i owner stream_handle guard lease c (b1, s))))"

definition invoke_channel_stream ::
  "'l bridge_env \<Rightarrow> transport \<Rightarrow> ('i invocation \<Rightarrow> nat option) \<Rightarrow> ('i invocation \<Rightarrow> string) \<Rightarrow> string \<Rightarrow> nat \<Rightarrow> nat \<Rightarrow>
     ('r, 'l) callback_owner \<Rightarrow> wire_handle \<Rightarrow> 'i invocation \<Rightarrow> ('p, 'r, 'l) bridge_shared \<times> 'd handle_inner \<Rightarrow>
     (sdk_err + 'i invoke_call) \<times> ('p, 'r, 'l) bridge_shared \<times> 'd handle_inner" where
  "invoke_channel_stream env tp len shown uuid a i owner h invocation =
     open_stream_call env tp len shown uuid a i owner ChannelPolicy h None invocation"

definition invoke_owned_producer_stream ::
  "'l bridge_env \<Rightarrow> transport \<Rightarrow> ('i invocation \<Rightarrow> nat option) \<Rightarrow> ('i invocation \<Rightarrow> string) \<Rightarrow> string \<Rightarrow> nat \<Rightarrow> nat \<Rightarrow>
     ('r, 'l) callback_owner \<Rightarrow> wire_handle \<Rightarrow> invocation_context \<Rightarrow> 'i invocation \<Rightarrow>
     ('p, 'r, 'l) bridge_shared \<times> 'd handle_inner \<Rightarrow>
     (sdk_err + 'i invoke_call) \<times> ('p, 'r, 'l) bridge_shared \<times> 'd handle_inner" where
  "invoke_owned_producer_stream env tp len shown uuid a i owner h context invocation =
     open_stream_call env tp len shown uuid a i owner CustomAgentPolicy h (Some context) invocation"

section \<open>All or nothing\<close>

lemma has_active_counts:
  "has_active_session_callback j b = (0 < unat (option_default (hget (bs_session_callbacks b) j) 0))"
  by (simp add: has_active_session_callback_def option_default_def word_less_nat_alt split: option.splits)

lemma enter_leave_active:
  assumes "enter_session_callback session_id b = (guard, b1)" "bs_session_callbacks b2 = bs_session_callbacks b1"
  shows "has_active_session_callback j (leave_session_callback guard b2) = has_active_session_callback j b"
proof (cases session_id)
  case None
  with assms show ?thesis by (simp add: enter_session_callback_def leave_session_callback_def has_active_session_callback_def)
next
  case (Some k)
  let ?n = "option_default (hget (bs_session_callbacks b) k) 0 :: usize"
  have guard: "guard = Some k" "bs_session_callbacks b2 = hput k (saturating_add ?n 1) (bs_session_callbacks b)"
    using assms Some by (auto simp: enter_session_callback_def)
  have left: "bs_session_callbacks (leave_session_callback guard b2) =
    (let m = saturating_sub (saturating_add ?n 1) 1 in
     if m = 0 then hdel k (bs_session_callbacks b2) else hput k m (bs_session_callbacks b2))"
    by (simp add: leave_session_callback_def guard Let_def)
  have "unat ?n < 2 ^ 64" using unsigned_less [of ?n] by simp
  then have "unat (saturating_sub (saturating_add ?n 1) 1) = min (unat ?n) (2 ^ 64 - 2)"
    by (simp add: unat_saturating_sub unat_saturating_add min_def)
  then have "saturating_sub (saturating_add ?n 1) 1 = 0 \<longleftrightarrow> unat ?n = 0"
    "0 < unat (saturating_sub (saturating_add ?n 1) 1) \<longleftrightarrow> 0 < unat ?n"
    by (simp_all add: unat_eq_zero min_def flip: unat_eq_0)
  then show ?thesis
    unfolding has_active_counts left by (simp add: guard Let_def option_default_def)
qed

text \<open>What a failed call must have undone; \<open>a\<close> is the address of its own sink.\<close>

definition call_undone ::
  "nat \<Rightarrow> ('p, 'r, 'l) bridge_shared \<times> 'd handle_inner \<Rightarrow> ('p, 'r, 'l) bridge_shared \<times> 'd handle_inner \<Rightarrow> bool" where
  "call_undone a w w' =
     ((\<forall>k. hget (bs_streams (fst w')) k = hget (bs_streams (fst w)) k) \<and>
      (\<forall>k. hget (hi_streams (snd w')) k = hget (hi_streams (snd w)) k) \<and>
      (\<forall>j. has_active_session_callback j (fst w') = has_active_session_callback j (fst w)) \<and>
      (\<forall>a'. a' \<noteq> a \<longrightarrow> bs_sinks (fst w') a' = bs_sinks (fst w) a'))"

lemma on_sink_fields [simp]:
  "bs_session_callbacks (on_sink a f b) = bs_session_callbacks b" "bs_owners (on_sink a f b) = bs_owners b"
  "bs_streams (on_sink a f b) = bs_streams b" "bs_sinks (on_sink a f b) = (bs_sinks b)(a := f (bs_sinks b a))"
  "bs_connected (on_sink a f b) = bs_connected b"
  by (simp_all add: on_sink_def put_sink_def)

lemma leave_session_callback_streams [simp]: "bs_streams (leave_session_callback guard b) = bs_streams b"
  by (simp add: leave_session_callback_def Let_def split: option.splits)

lemma give_up_undoes:
  assumes entered: "enter_session_callback session_id b = (guard, b1)"
    and fresh: "hget (bs_streams b) (h_id h) = None" "hget (hi_streams s) (h_id h) = None"
    and streams: "bs_streams b2 = hput (h_id h) a (bs_streams b)" "hi_streams s2 = hput (h_id h) entry (hi_streams s)"
    and kept: "bs_session_callbacks b2 = bs_session_callbacks b1" "\<And>a'. a' \<noteq> a \<Longrightarrow> bs_sinks b2 a' = bs_sinks b a'"
    and guardless: "sk_session_callback (bs_sinks b2 a) = None"
  shows "call_undone a (b, s) (give_up h guard a i (b2, s2))"
proof -
  let ?b3 = "drop_receiver a b2"
  let ?b4 = "remove_stream (h_id h) ?b3" and ?s = "remove_extension_stream (h_id h) s2"
  have r: "give_up h guard a i (b2, s2) =
      (leave_session_callback guard (?b4\<lparr>bs_owners := (bs_owners ?b4)(i := None)\<rparr>), ?s)"
    by (simp add: give_up_def release_stream_def)
  have b4: "?b4 = on_sink a close_sink (?b3\<lparr>bs_streams := hdel (h_id h) (bs_streams ?b3)\<rparr>)"
    using streams guardless
    by (simp add: remove_stream_def close_at_def drop_receiver_def leave_session_callback_def)
  have callbacks: "bs_session_callbacks ?b4 = bs_session_callbacks b1" and sinks: "a' \<noteq> a \<Longrightarrow> bs_sinks ?b4 a' = bs_sinks b a'" for a'
    unfolding b4 using kept by (simp_all add: drop_receiver_def)
  have table: "hget (bs_streams ?b4) k = hget (bs_streams b) k" for k
    unfolding b4 using streams fresh by (simp add: drop_receiver_def)
  have registry: "hget (hi_streams ?s) k = hget (hi_streams s) k" for k
    using streams fresh by (simp add: remove_extension_stream_def hmem_def push_tombstones_def)
  have "has_active_session_callback j (leave_session_callback guard (?b4\<lparr>bs_owners := (bs_owners ?b4)(i := None)\<rparr>)) =
      has_active_session_callback j b" for j
    by (rule enter_leave_active [OF entered]) (simp add: callbacks)
  then show ?thesis using table registry sinks by (simp add: call_undone_def r)
qed

lemma prepare_Ok:
  assumes "prepare env h invocation s = Ok (lease, e)"
  shows "admitted_extension h (invocation_operation invocation) s = Ok e"
    "be_lease env (exclusive_key h (ex_kind e) invocation) = Ok lease" "be_live env" "be_services_error env = None"
  using assms by (auto simp: prepare_def bridge_state_def reject_if_def and_then_eq_Ok map_ok_def map_err_def
      split: option.splits sum.splits if_splits)

lemma admitted_extension_Ok:
  "admitted_extension h operation s = Ok e \<Longrightarrow> operation \<noteq> OpAgentClose \<Longrightarrow>
     extension h s = Ok e \<and> ex_kind e = operation_kind operation"
  by (auto simp: admitted_extension_def and_then_eq_Ok split: if_splits)

lemma register_extension_stream_Ok:
  assumes "register_extension_stream uuid extension_id s = (Ok h, s')"
  shows "h_id h = minted_id StreamKind uuid" "hi_streams s' = hput (h_id h) (plain_stream extension_id 0) (hi_streams s)"
  using assms
  by (auto simp: register_extension_stream_def mint_id_def issued_def split: if_splits sum.splits prod.splits)

lemma register_extension_stream_Err:
  "register_extension_stream uuid extension_id s = (Err e, s') \<Longrightarrow> s' = s"
  by (auto simp: register_extension_stream_def mint_id_def split: if_splits sum.splits prod.splits)

lemma call_undone_refl [simp]: "call_undone a w w"
  by (simp add: call_undone_def)

lemma checked_call_Ok: "checked_call len c = Ok c' \<longleftrightarrow> c' = c \<and> validate_call len c = Ok ()"
  by (cases "validate_call len c") (auto simp: checked_call_def)

lemma validate_call_stream:
  "validate_call len c = Ok () \<Longrightarrow> iv_stream c = Some h \<Longrightarrow> is_streaming (invocation_operation (iv_invocation c))"
  by (auto simp: validate_call_def check_call_stream_def reject_if_def and_then_eq_Ok split: if_splits)

text \<open>The transport failed after the watch of the deadline was spawned, which holds the owner until the call is over.\<close>

definition watch_holds :: "transport \<Rightarrow> stream_policy \<Rightarrow> bool" where
  "watch_holds tp policy =
     (is_ok (tp_watch tp) \<and> (policy = CustomAgentPolicy \<and> \<not> is_ok (tp_tracker tp) \<or> \<not> is_ok (tp_send tp)))"

definition with_owner :: "nat \<Rightarrow> nat \<Rightarrow> ('r, 'l) callback_owner \<Rightarrow> ('p, 'r, 'l) bridge_shared \<Rightarrow> ('p, 'r, 'l) bridge_shared" where
  "with_owner a i owner b =
     (on_sink a (\<lambda>sk. sk\<lparr>sk_owner := Some i\<rparr>) b)\<lparr>bs_owners := (bs_owners b)(i := Some owner)\<rparr>"

lemma with_owner_fields [simp]:
  "bs_streams (with_owner a i owner b) = bs_streams b" "bs_session_callbacks (with_owner a i owner b) = bs_session_callbacks b"
  "bs_sinks (with_owner a i owner b) = (bs_sinks b)(a := (bs_sinks b a)\<lparr>sk_owner := Some i\<rparr>)"
  "bs_owners (with_owner a i owner b) i = Some owner" "bs_connected (with_owner a i owner b) = bs_connected b"
  by (simp_all add: with_owner_def)

lemma submit_stream_cases:
  assumes "submit_stream env tp policy a i owner h guard lease c (b, s) = (r, b', s')"
  obtains (refused) e where "r = Err e" "(b', s') = give_up h guard a i (with_owner a i owner b, s)"
    | (held) e o' where "r = Err e" "watch_holds tp policy" "s' = s" "b' = drop_receiver a (with_owner a i o' b)"
    | (submitted) o' where "r = Ok c" "s' = s" "b' = with_owner a i o' b" "co_lease o' = Some lease" "bs_connected b"
proof (cases "submit tp policy c (with_owner a i owner b)")
  case (Refused e)
  then have "(r, b', s') = (Err e, give_up h guard a i (with_owner a i owner b, s))"
    by (simp flip: assms add: submit_stream_def Let_def with_owner_def)
  with refused show ?thesis by blast
next
  case (Held installed e)
  then have "watch_holds tp policy"
    by (auto simp: submit_def watch_holds_def is_ok_iff and_then_eq_Ok split: sum.splits if_splits)
  moreover let ?o = "if installed then on_submit \<lparr>oc_policy = policy, oc_operation = invocation_operation (iv_invocation c),
     oc_expected = Some h, oc_limit = payload_limit env\<rparr> lease owner else owner"
  have "(r, b', s') = (Err e, drop_receiver a (with_owner a i ?o b), s)"
    using Held by (simp flip: assms add: submit_stream_def Let_def with_owner_def)
  ultimately show ?thesis using held [of e ?o] by blast
next
  case Submitted
  then have "bs_connected b"
    by (auto simp: submit_def bridge_connection_def reject_if_def and_then_eq_Ok split: sum.splits if_splits)
  let ?o = "on_submit \<lparr>oc_policy = policy, oc_operation = invocation_operation (iv_invocation c), oc_expected = Some h,
     oc_limit = payload_limit env\<rparr> lease owner"
  have "(r, b', s') = (Ok c, with_owner a i ?o b, s)"
    using Submitted by (simp flip: assms add: submit_stream_def Let_def with_owner_def)
  moreover have "co_lease ?o = Some lease" by (simp add: on_submit_def Let_def)
  ultimately show ?thesis using submitted [of ?o] \<open>bs_connected b\<close> by blast
qed

text \<open>What an opened call is: admitted, valid, with its stream registered for its extension and its sink in the table.\<close>

definition opened ::
  "('i invocation \<Rightarrow> nat option) \<Rightarrow> nat \<Rightarrow> nat \<Rightarrow> wire_handle \<Rightarrow> 'i invocation \<Rightarrow> 'd handle_inner \<Rightarrow> 'i invoke_call \<Rightarrow>
     ('p, 'r, 'l) bridge_shared \<times> 'd handle_inner \<Rightarrow> bool" where
  "opened len a i h invocation s c w =
     (validate_call len c = Ok () \<and> iv_extension c = h \<and> iv_invocation c = invocation \<and>
      (\<exists>e. extension h s = Ok e \<and> ex_kind e = operation_kind (invocation_operation invocation) \<and>
         iv_factory_origin c = ex_factory_origin e) \<and>
      (\<exists>st. iv_stream c = Some st \<and> hget (hi_streams (snd w)) (h_id st) = Some (plain_stream (h_id h) 0) \<and>
         hget (bs_streams (fst w)) (h_id st) = Some a \<and>
         sk_stream (bs_sinks (fst w) a) = st \<and> sk_extension_id (bs_sinks (fst w) a) = h_id h \<and>
         sk_value_kind (bs_sinks (fst w) a) = operation_kind (invocation_operation invocation) \<and>
         sk_owner (bs_sinks (fst w) a) = Some i \<and> sink_inv [] (bs_sinks (fst w) a)) \<and>
      (\<exists>o'. bs_owners (fst w) i = Some o' \<and> co_lease o' \<noteq> None) \<and> bs_connected (fst w))"

lemma new_stream_sink:
  "sk_session_callback (stream_sink_of env policy st h invocation) = None"
  "sk_stream (stream_sink_of env policy st h invocation) = st"
  "sk_extension_id (stream_sink_of env policy st h invocation) = h_id h"
  "sk_value_kind (stream_sink_of env policy st h invocation) = operation_kind (invocation_operation invocation)"
  "sink_inv [] ((stream_sink_of env policy st h invocation)\<lparr>sk_owner := Some i\<rparr>)"
  using new_sink_inv [of st "h_id h" "operation_kind (invocation_operation invocation)" "be_outstanding env" None]
  by (simp_all add: stream_sink_of_def) (simp_all add: new_sink_def)

lemma open_stream_call_Ok:
  assumes valid: "validate_call len c = Ok ()" and c: "c = call_of env h e lease context invocation d (Some st)"
    and e: "admitted_extension h (invocation_operation invocation) s = Ok e"
    and st: "hi_streams s1 = hput (h_id st) (plain_stream (h_id h) 0) (hi_streams s)"
    and b: "b' = with_owner a i o' (register_stream a (stream_sink_of env policy st h invocation) b1)"
    and o': "co_lease o' = Some lease" and conn: "bs_connected b1"
  shows "opened len a i h invocation s c (b', s1)"
proof -
  have "is_streaming (invocation_operation invocation)" using validate_call_stream [OF valid] c by (simp add: call_of_def)
  then have "invocation_operation invocation \<noteq> OpAgentClose" by (auto simp: is_streaming_def)
  with admitted_extension_Ok [OF e] have "extension h s = Ok e" "ex_kind e = operation_kind (invocation_operation invocation)"
    by blast+
  then show ?thesis
    using valid st o' conn
    by (simp add: opened_def c b call_of_def register_stream_def put_sink_def new_stream_sink)
qed

text \<open>
  What a failed call leaves while the watch of its deadline holds it: the stream stays registered for the extension
  and routed to the call's sink, whose receiver is gone, the owner stays and the Session's callback stays entered;
  every other stream and sink is as it was.
\<close>

definition call_held ::
  "nat \<Rightarrow> nat \<Rightarrow> wire_handle \<Rightarrow> string \<Rightarrow> string option \<Rightarrow> ('p, 'r, 'l) bridge_shared \<times> 'd handle_inner \<Rightarrow>
     ('p, 'r, 'l) bridge_shared \<times> 'd handle_inner \<Rightarrow> bool" where
  "call_held a i h stream_id session_id w w' =
     ((\<forall>k. hget (bs_streams (fst w')) k = (if k = stream_id then Some a else hget (bs_streams (fst w)) k)) \<and>
      (\<forall>k. hget (hi_streams (snd w')) k =
         (if k = stream_id then Some (plain_stream (h_id h) 0) else hget (hi_streams (snd w)) k)) \<and>
      bs_session_callbacks (fst w') = bs_session_callbacks (snd (enter_session_callback session_id (fst w))) \<and>
      (\<forall>a'. a' \<noteq> a \<longrightarrow> bs_sinks (fst w') a' = bs_sinks (fst w) a') \<and>
      \<not> sk_receiver_open (bs_sinks (fst w') a) \<and> sk_mailbox (bs_sinks (fst w') a) = [] \<and>
      sk_owner (bs_sinks (fst w') a) = Some i \<and> bs_owners (fst w') i \<noteq> None)"

text \<open>From the registered stream on: the call is opened, or what was done is undone, or the watch holds it.\<close>

lemma registered_stream_call:
  assumes b2: "b2 = register_stream a (stream_sink_of env policy st h invocation) b1"
    and call: "call = call_of env h e lease context invocation (deadline_of env e) (Some st)"
    and admitted: "admitted_extension h (invocation_operation invocation) s = Ok e"
    and registered: "hi_streams s1 = hput (h_id st) (plain_stream (h_id h) 0) (hi_streams s)"
    and entered: "enter_session_callback session_id b = (guard, b1)"
    and fresh: "hget (bs_streams b) (h_id st) = None" "hget (hi_streams s) (h_id st) = None"
    and run: "(r, b', s') = (case checked_call len call of
          Inl err \<Rightarrow> (Err err, give_up st guard a i (b2, s1))
        | Inr c \<Rightarrow> submit_stream env tp policy a i owner st guard lease c (b2, s1))"
  shows "case r of
      Inr c \<Rightarrow> opened len a i h invocation s c (b', s')
    | Inl e \<Rightarrow> call_undone a (b, s) (b', s') \<or>
        watch_holds tp policy \<and> call_held a i h (h_id st) session_id (b, s) (b', s')"
proof -
  have b1: "bs_streams b1 = bs_streams b" "bs_sinks b1 = bs_sinks b"
    using entered by (auto simp: enter_session_callback_def split: option.splits)
  have streams: "bs_streams b2 = hput (h_id st) a (bs_streams b)" "bs_session_callbacks b2 = bs_session_callbacks b1"
    "\<And>a'. a' \<noteq> a \<Longrightarrow> bs_sinks b2 a' = bs_sinks b a'" "sk_session_callback (bs_sinks b2 a) = None"
    using b1 by (simp_all add: b2 register_stream_def put_sink_def new_stream_sink)
  have gone: "call_undone a (b, s) (give_up st guard a i (b3, s1))"
    if "bs_streams b3 = bs_streams b2" "bs_session_callbacks b3 = bs_session_callbacks b2"
      "\<And>a'. a' \<noteq> a \<Longrightarrow> bs_sinks b3 a' = bs_sinks b2 a'" "sk_session_callback (bs_sinks b3 a) = None" for b3
    by (rule give_up_undoes [OF entered]) (use that streams registered fresh in simp_all)
  show ?thesis
  proof (cases "checked_call len call")
    case (Inl err)
    with run have "r = Err err" "(b', s') = give_up st guard a i (b2, s1)" by simp_all
    then show ?thesis using gone [of b2] streams by simp
  next
    case (Inr c)
    then have c: "c = call" "validate_call len c = Ok ()" by (auto simp: checked_call_Ok)
    have "submit_stream env tp policy a i owner st guard lease c (b2, s1) = (r, b', s')"
      using run Inr by simp
    then show ?thesis
    proof (cases rule: submit_stream_cases)
      case refused
      then show ?thesis using gone [of "with_owner a i owner b2"] streams by simp
    next
      case (submitted o')
      have "bs_connected b1" using submitted by (simp add: b2 register_stream_def put_sink_def)
      from open_stream_call_Ok [OF c(2) c(1) [unfolded call] admitted registered submitted(3) [unfolded b2] submitted(4) this] submitted(1,2)
      show ?thesis by simp
    next
      case (held e o')
      have "call_held a i h (h_id st) session_id (b, s) (b', s')"
        using b1 entered registered held(3,4)
        by (simp add: call_held_def b2 register_stream_def put_sink_def drop_receiver_def new_stream_sink)
      with held(1,2) show ?thesis by simp
    qed
  qed
qed

text \<open>C10: opening a reverse stream is all or nothing. A call that is answered is admitted - its extension is registered,
  resolves and is of the operation's kind -, validates, carries the stream the Host minted, which is registered for
  that extension and routed to a fresh sink of the call's kind, and its owner holds the lease. A call that fails
  leaves the table of streams, the registered streams, the other sinks and the Sessions' callbacks as they were, with
  one exception: when the transport broke after the watch of its deadline was spawned, that watch may hold the call.
  Then its stream stays registered for the extension and routed to its sink, whose receiver is gone, its owner and
  its Session's callback stay entered until the watch ends, and every other stream and sink is as it was.\<close>

theorem stream_call_is_all_or_nothing:
  assumes run: "open_stream_call env tp len shown uuid a i owner policy h context invocation (b, s) = (r, b', s')"
    and fresh: "hget (bs_streams b) (minted_id StreamKind uuid) = None" "hget (hi_streams s) (minted_id StreamKind uuid) = None"
  shows "case r of
      Inr c \<Rightarrow> opened len a i h invocation s c (b', s')
    | Inl e \<Rightarrow> call_undone a (b, s) (b', s') \<or>
        watch_holds tp policy \<and>
        call_held a i h (minted_id StreamKind uuid)
          (if policy = CustomAgentPolicy then Option.bind context ic_session_id else None) (b, s) (b', s')"
proof (cases "and_then (prepare env h invocation s) (\<lambda>(lease, e).
             and_then (bounded_invocation env len shown invocation) (\<lambda>_.
               map_ok (\<lambda>_. (lease, e)) (bridge_state env)))")
  case (Inl e)
  then show ?thesis using run by (auto simp: open_stream_call_def)
next
  case (Inr admitted)
  obtain lease e where le: "admitted = (lease, e)" by fastforce
  have "prepare env h invocation s = Ok (lease, e)"
    using Inr by (auto simp: le and_then_eq_Ok map_ok_eq_Ok)
  note admitted = prepare_Ok(1) [OF this]
  show ?thesis
  proof (cases "register_extension_stream uuid (h_id h) s")
    case (Pair registered s1)
    show ?thesis
    proof (cases registered)
      case (Inl err)
      then have "s1 = s" using Pair register_extension_stream_Err by blast
      then show ?thesis using run Inr le Pair Inl by (auto simp: open_stream_call_def)
    next
      case (Inr st)
      note st = register_extension_stream_Ok [OF Pair [unfolded Inr]]
      obtain guard b1 where entered: "enter_session_callback
          (if policy = CustomAgentPolicy then Option.bind context ic_session_id else None) b = (guard, b1)" by fastforce
      show ?thesis unfolding st(1) [symmetric]
      proof (rule registered_stream_call [OF refl refl admitted st(2) entered])
        show "(r, b', s') = (case checked_call len (call_of env h e lease context invocation (deadline_of env e) (Some st)) of
            Inl err \<Rightarrow> (Err err, give_up st guard a i (register_stream a (stream_sink_of env policy st h invocation) b1, s1))
          | Inr c \<Rightarrow> submit_stream env tp policy a i owner st guard lease c
              (register_stream a (stream_sink_of env policy st h invocation) b1, s1))"
          using \<open>and_then _ _ = Inr admitted\<close> le Pair Inr entered by (simp flip: run add: open_stream_call_def Let_def)
      qed (use fresh st(1) in simp_all)
    qed
  qed
qed

section \<open>A channel handler\<close>

definition sample_handler :: wire_handle where
  "sample_handler = mk_handle (minted_id ExtensionKindOf ''h'') ExtensionKindOf 7"

definition sample_handler_entry :: extension_entry where
  "sample_handler_entry = \<lparr>ex_kind = KChannelMessageHandler, ex_implementation_id = ''imp'',
     ex_descriptor = DChannelMessageHandler \<lparr>ch_descriptor_version = 1, ch_handler_id = ''imp''\<rparr>, ex_fingerprint = ''?'', ex_timeout = None, ex_registration_order = 1,
     ex_factory_instance = False, ex_factory_origin = None, ex_reserved = False\<rparr>"

definition sample_handlers :: "nat handle_inner" where
  "sample_handlers = sample_registry\<lparr>hi_extensions := [(minted_id ExtensionKindOf ''h'', sample_handler_entry)]\<rparr>"

definition sample_bridge_env :: "nat bridge_env" where
  "sample_bridge_env = \<lparr>be_live = True, be_services_error = None, be_lease = (\<lambda>_. Ok 0), be_identity = (\<lambda>_. ''call-1''),
     be_payload_limit = 1000, be_outstanding = 4, be_timeout_secs = 30\<rparr>"

definition sample_transport :: transport where
  "sample_transport = \<lparr>tp_watch = Ok (), tp_tracker = Ok (), tp_send = Ok ()\<rparr>"

definition sample_invocation :: "string invocation" where
  "sample_invocation = InvokeOther OpChannelHandleStream ''in''"

definition sample_invoke_call :: "string invoke_call" where
  "sample_invoke_call = \<lparr>iv_factory_origin = None, iv_extension = sample_handler, iv_invocation_id = ''call-1'',
     iv_context = None, iv_invocation = sample_invocation, iv_deadline = duration_wire (30, 0),
     iv_stream = Some sample_stream_handle\<rparr>"

definition sample_connected :: "(string, string, nat) bridge_shared" where
  "sample_connected = bind_connection (new_bridge (\<lambda>_. sc_sink sample_opened))"

definition sample_open ::
  "(sdk_err + string invoke_call) \<times> (string, string, nat) bridge_shared \<times> nat handle_inner" where
  "sample_open = open_stream_call sample_bridge_env sample_transport (\<lambda>_. Some 2) (\<lambda>_. ''?'') ''s'' 0 0 sample_callback_owner
     ChannelPolicy sample_handler None sample_invocation (sample_connected, sample_handlers)"

lemma sample_handlers_fields:
  "hi_generation sample_handlers = 7" "hi_streams sample_handlers = []" "enforce_budget sample_handlers 1 = Ok ()"
  "hget (hi_extensions sample_handlers) (h_id sample_handler) = Some sample_handler_entry"
  by (simp_all add: sample_handlers_def sample_registry_def new_registry_def enforce_budget_def open_handles_def
      len_usize_def saturating_add_def sample_handler_def)

lemma sample_handler_shape: "check_shape_and_generation sample_handlers sample_handler ExtensionKindOf operation = Ok ()"
  "validate_handle sample_handler = Ok ()" "h_kind sample_handler = ExtensionKindOf"
  by (simp_all add: check_shape_Ok sample_handlers_fields)
    (simp_all add: sample_handler_def validate_handle_def blank_def is_whitespace_def minted_id_def)

lemma sample_prepare: "prepare sample_bridge_env sample_handler sample_invocation sample_handlers = Ok (0, sample_handler_entry)"
proof -
  have "admitted_extension sample_handler OpChannelHandleStream sample_handlers = Ok sample_handler_entry"
    by (simp add: admitted_extension_def extension_def extension_for_cleanup_def checked_lookup_def lookup_def
        sample_handler_shape sample_handlers_fields)
      (simp add: sample_handler_entry_def)
  then show ?thesis by (simp add: prepare_def bridge_state_def sample_bridge_env_def sample_invocation_def)
qed

lemma sample_valid: "validate_call (\<lambda>_. Some 2) sample_invoke_call = Ok ()"
proof -
  have "is_streaming OpChannelHandleStream" by (simp add: is_streaming_def)
  then show ?thesis
    by (simp add: validate_call_def sample_invoke_call_def sample_handler_shape check_factory_origin_def check_call_stream_def
        sample_invocation_def sample_handle_valid validate_duration_def duration_wire_def nanos_per_second_def blank_def
        is_whitespace_def max_extension_implementation_id_chars_def max_extension_payload_bytes_def)
qed

lemma sample_submitted:
  "bs_connected b \<Longrightarrow>
   fst (submit_stream sample_bridge_env sample_transport ChannelPolicy a i owner h guard lease sample_invoke_call (b, s)) =
     Ok sample_invoke_call"
  by (simp add: submit_stream_def submit_def bridge_connection_def sample_transport_def sample_invoke_call_def
      duration_wire_def Let_def)

lemma sample_connected_stream: "bs_connected (register_stream a sk sample_connected)"
  by (simp add: register_stream_def put_sink_def sample_connected_def bind_connection_def)

lemma sample_open_Ok: "fst sample_open = Ok sample_invoke_call"
proof -
  have registered: "register_extension_stream ''s'' (h_id sample_handler) sample_handlers =
      (Ok sample_stream_handle, sample_handlers\<lparr>hi_streams := hput (minted_id StreamKind ''s'')
         (plain_stream (h_id sample_handler) 0) (hi_streams sample_handlers)\<rparr>)"
    by (simp add: register_extension_stream_def hmem_def sample_handlers_fields mint_id_def issued_def
        sample_stream_handle_def)
  have bound: "bounded_invocation sample_bridge_env (\<lambda>_. Some 2) shown sample_invocation = Ok ()" for shown
    by (simp add: bounded_invocation_def ensure_payload_bound_def payload_limit_def bridge_state_def sample_bridge_env_def)
  have call: "call_of sample_bridge_env sample_handler sample_handler_entry 0 None sample_invocation
      (deadline_of sample_bridge_env sample_handler_entry) (Some sample_stream_handle) = sample_invoke_call"
    by (simp add: call_of_def sample_invoke_call_def deadline_of_def sample_bridge_env_def sample_handler_entry_def)
  have "checked_call (\<lambda>_. Some 2) sample_invoke_call = Ok sample_invoke_call" by (simp add: checked_call_Ok sample_valid)
  moreover have "bridge_state sample_bridge_env = Ok ()" by (simp add: bridge_state_def sample_bridge_env_def)
  ultimately show ?thesis
    by (simp add: sample_open_def open_stream_call_def sample_prepare bound registered call enter_session_callback_def
        sample_submitted sample_connected_stream Let_def)
qed

theorem stream_call_is_all_or_nothing_witness:
  "case sample_open of (Inr c, w) \<Rightarrow> opened (\<lambda>_. Some 2) 0 0 sample_handler sample_invocation sample_handlers c w | _ \<Rightarrow> False"
proof -
  obtain b s where run: "sample_open = (Ok sample_invoke_call, b, s)" using sample_open_Ok by (metis prod.collapse)
  have fresh: "hget (bs_streams sample_connected) (minted_id StreamKind ''s'') = None"
    "hget (hi_streams sample_handlers) (minted_id StreamKind ''s'') = None"
    by (simp_all add: sample_connected_def bind_connection_def new_bridge_def sample_handlers_fields)
  from stream_call_is_all_or_nothing [OF run [unfolded sample_open_def] fresh] show ?thesis unfolding run by simp
qed

end
