(* ===== verification/Extension_Handlers.thy ===== *)
theory Extension_Handlers
  imports Reverse_Invocation Run_Start
begin

text \<open>
  The handlers of the extension bridge (\<open>extension_handlers\<close> of \<open>core_profile/handler.rs\<close>): the client registers and
  unregisters its implementations and sends the events of their streams. Their state is the bridge's shared state and
  the handle registry.
\<close>

section \<open>Registration\<close>

text \<open>\<open>channels\<close>: the Host was built with the channels of the framework.\<close>

definition extension_register ::
  "error_codec \<Rightarrow> Handler_Gate.connection \<Rightarrow> echo_capability \<Rightarrow> bool \<Rightarrow> base64_decoder \<Rightarrow> (extension_descriptor \<Rightarrow> nat option) \<Rightarrow>
     descriptor_codec \<Rightarrow> string \<Rightarrow> registration_limits \<Rightarrow> register_request \<Rightarrow>
     ('p, 'r, 'l) bridge_shared \<times> 'd handle_inner \<Rightarrow> wire_handle handled \<times> ('p, 'r, 'l) bridge_shared \<times> 'd handle_inner" where
  "extension_register ec cn advertisement channels b64 encoded_len codec uuid limits request w =
     (case admission ec cn advertisement ExtensionBridge register_operation of
        Inl e \<Rightarrow> (Err e, w)
      | Inr _ \<Rightarrow>
          (case validate_register_request b64 encoded_len request of
             Inl reason \<Rightarrow> (respond ec (Err (sdk_error InvalidConfig reason Never register_operation)), w)
           | Inr _ \<Rightarrow>
               if \<not> channels \<and> rq_kind request \<in> {KChannelPlugin, KChannelMessageHandler}
               then (respond ec (Err (sdk_error FeatureUnavailable
                       ''channel extensions require the framework-channels Host feature'' Never register_operation)), w)
               else
                 (case register_extension codec uuid limits (rq_kind request) (rq_implementation_id request)
                         (rq_descriptor request) (rq_timeout request) False (snd w) of
                    (r, s) \<Rightarrow>
                      (respond ec (map_err (\<lambda>e. with_operation e register_operation) (map_ok fst r)),
                       bind_connection (fst w), s))))"

definition unregister_operation :: string where
  "unregister_operation = ''_echo_agent/extension/unregister''"

definition extension_unregister ::
  "error_codec \<Rightarrow> Handler_Gate.connection \<Rightarrow> echo_capability \<Rightarrow> wire_handle \<Rightarrow>
     ('p, 'r, 'l) bridge_shared \<times> 'd handle_inner \<Rightarrow> bool handled \<times> ('p, 'r, 'l) bridge_shared \<times> 'd handle_inner" where
  "extension_unregister ec cn advertisement h w =
     (case admission ec cn advertisement ExtensionBridge unregister_operation of
        Inl e \<Rightarrow> (Err e, w)
      | Inr _ \<Rightarrow>
          (case check_shape_and_generation (snd w) h ExtensionKindOf unregister_operation of
             Inl e \<Rightarrow> (respond ec (Err e), w)
           | Inr _ \<Rightarrow>
               (case close_extension h (snd w) of
                  (Inl e, s) \<Rightarrow> (respond ec (Err (with_operation e unregister_operation)), fst w, s)
                | (Inr released, s) \<Rightarrow>
                    (respond ec (Ok released),
                     if released then remove_streams_for_extension (h_id h) (fst w) else fst w, s))))"

section \<open>Stream events\<close>

text \<open>Once the Host admits nothing new, only the streams of a registered extension are still settled.\<close>

definition settles_after_fence :: "wire_handle \<Rightarrow> ('p, 'r, 'l) bridge_shared \<times> 'd handle_inner \<Rightarrow> bool" where
  "settles_after_fence h w =
     (case stream h (snd w) of
        Inl _ \<Rightarrow> False
      | Inr st \<Rightarrow>
          \<not> st_facade st \<and> st_resource_id st = None \<and>
          (let owner = \<lparr>h_id = st_run_handle_id st, h_generation = h_generation h, h_kind = ExtensionKindOf\<rparr>
           in is_ok (extension_for_cleanup owner (snd w)) \<and> owns_settlement_stream h (h_id owner) (fst w)))"

definition stream_bytes_reason :: string where
  "stream_bytes_reason = ''extension stream event exceeds the configured byte bound''"

text \<open>\<open>len\<close> is the serialized length of the event or the message of the encoder.\<close>

definition extension_stream ::
  "Handler_Gate.connection \<Rightarrow> usize \<Rightarrow> ('p reverse_event \<Rightarrow> string + nat) \<Rightarrow> 'p value_len \<Rightarrow> 'p reverse_event \<Rightarrow>
     ('p, 'r, 'l) bridge_shared \<times> 'd handle_inner \<Rightarrow> (string + unit) \<times> ('p, 'r, 'l) bridge_shared" where
  "extension_stream cn max_stream_bytes len vl ev w =
     (case cn_services_error cn of
        Some message \<Rightarrow> (Err message, fst w)
      | None \<Rightarrow>
          if \<not> cn_extended cn then (Ok (), fst w)
          else if \<not> is_ok (check_shape_and_generation (snd w) (ev_stream ev) StreamKind ''_echo_agent/extension/stream'')
          then (Ok (), fst w)
          else if \<not> cn_admission cn \<and> \<not> settles_after_fence (ev_stream ev) w then (Ok (), fst w)
          else (case len ev of
            Inl message \<Rightarrow> (Err (''stream event is not encodable: '' @ message), fst w)
          | Inr n \<Rightarrow>
              if unat max_stream_bytes < n
              then (Err stream_bytes_reason, fail_stream (ev_stream ev) stream_bytes_reason (fst w))
              else deliver_stream_event vl ev (fst w)))"

section \<open>An unregistered extension\<close>

lemma close_sink_extension [simp]: "sk_extension_id (close_sink sk) = sk_extension_id sk"
  by (simp add: close_sink_def terminate_sink_def publish_terminal_def try_send_def clear_terminal_def
      split: option.splits sum.splits)

lemma close_at_sinks: "bs_sinks (close_at a b) = (bs_sinks b)(a := close_sink (bs_sinks b a))"
  "bs_streams (close_at a b) = bs_streams b"
  by (simp_all add: close_at_def)

lemma fold_close_sinks:
  "a \<notin> f ` set es \<Longrightarrow> bs_sinks (fold (close_at \<circ> f) es b) a = bs_sinks b a"
  "sk_extension_id (bs_sinks (fold (close_at \<circ> f) es b) a) = sk_extension_id (bs_sinks b a)"
  "a \<in> f ` set es \<or> sink_over (bs_sinks b a) \<Longrightarrow> sink_over (bs_sinks (fold (close_at \<circ> f) es b) a)"
  "bs_streams (fold (close_at \<circ> f) es b) = bs_streams b"
  by (induction es arbitrary: b) (auto simp: close_at_sinks)

lemma remove_streams_for_extension_effect:
  assumes wf: "hwf (bs_streams b)" and run: "b' = remove_streams_for_extension i b"
  shows "hget (bs_streams b') k =
      (case hget (bs_streams b) k of
         None \<Rightarrow> None
       | Some a \<Rightarrow> if sk_extension_id (bs_sinks b a) = i then None else Some a)"
    and "hget (bs_streams b) k = Some a \<Longrightarrow>
      if sk_extension_id (bs_sinks b a) = i then sink_over (bs_sinks b' a) else bs_sinks b' a = bs_sinks b a"
    and "sk_extension_id (bs_sinks b' a) = sk_extension_id (bs_sinks b a)"
proof -
  let ?mine = "filter (\<lambda>e. sk_extension_id (bs_sinks b (snd e)) = i) (bs_streams b)"
  have b': "b' = fold (close_at \<circ> snd) ?mine (b\<lparr>bs_streams := fold (hdel \<circ> fst) ?mine (bs_streams b)\<rparr>)"
    by (simp add: run remove_streams_for_extension_def Let_def)
  have keys: "k \<in> fst ` set ?mine \<longleftrightarrow> (\<exists>a. hget (bs_streams b) k = Some a \<and> sk_extension_id (bs_sinks b a) = i)" for k
    using wf by (force simp: hget_in_set image_iff)
  have "bs_streams b' = fold (\<lambda>e. hdel (fst e)) ?mine (bs_streams b)"
    unfolding b' by (simp add: fold_close_sinks) (simp add: comp_def)
  then have "hget (bs_streams b') k = (if k \<in> fst ` set ?mine then None else hget (bs_streams b) k)"
    by (simp only: hget_fold_hdel_by)
  then show "hget (bs_streams b') k =
      (case hget (bs_streams b) k of
         None \<Rightarrow> None
       | Some a \<Rightarrow> if sk_extension_id (bs_sinks b a) = i then None else Some a)"
    unfolding keys by (auto split: option.splits)
  show "sk_extension_id (bs_sinks b' a) = sk_extension_id (bs_sinks b a)"
    unfolding b' by (simp add: fold_close_sinks)
  assume found: "hget (bs_streams b) k = Some a"
  then have "(k, a) \<in> set (bs_streams b)" using wf by (simp add: hget_in_set)
  then show "if sk_extension_id (bs_sinks b a) = i then sink_over (bs_sinks b' a) else bs_sinks b' a = bs_sinks b a"
    unfolding b' by (auto simp: fold_close_sinks image_iff intro!: fold_close_sinks(3))
qed

lemma extension_unregister_Ok:
  assumes "extension_unregister ec cn advertisement h (b, s) = (Ok (Ok True), b', s')"
  shows "close_extension h s = (Ok True, s')" "b' = remove_streams_for_extension (h_id h) b"
  using assms by (auto simp: extension_unregister_def respond_def split: sum.splits prod.splits)

lemma close_extension_released:
  assumes "close_extension h s = (Ok True, s')" "hwf (hi_streams s)"
  shows "hget (hi_extensions s') k = (if k = h_id h then None else hget (hi_extensions s) k)"
    "hget (hi_streams s') k = Some st \<Longrightarrow> st_run_handle_id st \<noteq> h_id h"
  using assms
  by (auto simp: close_extension_def Let_def push_tombstones_def remove_streams_def hget_fold_hdel streams_where_mem
      split: if_splits option.splits)

text \<open>C11: an extension whose unregistration is answered as released is silent: the registry resolves neither it nor a
  stream of it, no event is routed to it any more, and every stream it had is over, whatever its consumer has not
  read; the streams of the other extensions are routed and stand as before.\<close>

theorem unregistered_extension_is_silent:
  assumes run: "extension_unregister ec cn advertisement h (b, s) = (Ok (Ok True), b', s')"
    and wf: "hwf (bs_streams b)" "hwf (hi_streams s)"
  shows "hget (hi_extensions s') (h_id h) = None \<and>
    (\<forall>k st. hget (hi_streams s') k = Some st \<longrightarrow> st_run_handle_id st \<noteq> h_id h) \<and>
    (\<forall>k a. hget (bs_streams b') k = Some a \<longrightarrow> sk_extension_id (bs_sinks b' a) \<noteq> h_id h) \<and>
    (\<forall>k a. hget (bs_streams b) k = Some a \<longrightarrow>
       (if sk_extension_id (bs_sinks b a) = h_id h
        then sk_terminal_seen (bs_sinks b' a) \<or> sk_last_sequence (bs_sinks b' a) = - 1
        else hget (bs_streams b') k = Some a \<and> bs_sinks b' a = bs_sinks b a))"
proof -
  note released = extension_unregister_Ok [OF run]
  note bridge = remove_streams_for_extension_effect [OF wf(1) released(2)]
  have "hget (hi_extensions s') (h_id h) = None"
    "\<forall>k st. hget (hi_streams s') k = Some st \<longrightarrow> st_run_handle_id st \<noteq> h_id h"
    using close_extension_released [OF released(1) wf(2)] by auto
  moreover have "\<forall>k a. hget (bs_streams b') k = Some a \<longrightarrow> sk_extension_id (bs_sinks b' a) \<noteq> h_id h"
    unfolding bridge(1) bridge(3) by (auto split: option.splits if_splits)
  moreover have "\<forall>k a. hget (bs_streams b) k = Some a \<longrightarrow>
       (if sk_extension_id (bs_sinks b a) = h_id h
        then sk_terminal_seen (bs_sinks b' a) \<or> sk_last_sequence (bs_sinks b' a) = - 1
        else hget (bs_streams b') k = Some a \<and> bs_sinks b' a = bs_sinks b a)"
  proof (intro allI impI)
    fix k a assume found: "hget (bs_streams b) k = Some a"
    show "if sk_extension_id (bs_sinks b a) = h_id h
        then sk_terminal_seen (bs_sinks b' a) \<or> sk_last_sequence (bs_sinks b' a) = - 1
        else hget (bs_streams b') k = Some a \<and> bs_sinks b' a = bs_sinks b a"
      using bridge(2) [OF found] bridge(1) [of k] found by (auto simp: sink_over_def split: if_splits)
  qed
  ultimately show ?thesis by blast
qed

text \<open>The channel handler is unregistered while its stream is open.\<close>

definition sample_open_sink :: "string stream_sink" where
  "sample_open_sink = new_sink sample_stream_handle (h_id sample_handler) KChannelMessageHandler 4 None"

definition sample_streaming :: "(string, string, nat) bridge_shared" where
  "sample_streaming = register_stream 0 sample_open_sink sample_connected"

definition sample_advertisement :: echo_capability where
  "sample_advertisement = host_advertisement\<lparr>ec_capabilities := [\<lparr>cd_capability = ExtensionBridge, cd_required = True\<rparr>]\<rparr>"

definition sample_connection :: Handler_Gate.connection where
  "sample_connection = \<lparr>cn_services_error = None, cn_extended = True, cn_admission = True\<rparr>"

lemma sample_unregister:
  "\<exists>s. extension_unregister ec sample_connection sample_advertisement sample_handler (sample_streaming, sample_handlers) =
     (Ok (Ok True), remove_streams_for_extension (h_id sample_handler) sample_streaming, s)"
proof -
  have closed: "fst (close_extension sample_handler sample_handlers) = Ok True"
    by (simp add: close_extension_def sample_handlers_fields Let_def)
      (simp add: sample_handlers_def sample_handler_entry_def)
  have "admission ec sample_connection sample_advertisement ExtensionBridge unregister_operation = Ok ()"
    by (simp add: admission_Ok sample_connection_def sample_advertisement_def declares_def)
  with closed show ?thesis
    by (cases "close_extension sample_handler sample_handlers") (simp add: extension_unregister_def sample_handler_shape)
qed

theorem unregistered_extension_is_silent_witness:
  "let b' = remove_streams_for_extension (h_id sample_handler) sample_streaming
   in hget (bs_streams sample_streaming) (h_id sample_stream_handle) = Some 0 \<and>
      hget (bs_streams b') (h_id sample_stream_handle) = None \<and>
      (sk_terminal_seen (bs_sinks b' 0) \<or> sk_last_sequence (bs_sinks b' 0) = - 1)"
proof -
  obtain s where run: "extension_unregister (rn_codec host_env) sample_connection sample_advertisement sample_handler
      (sample_streaming, sample_handlers) =
      (Ok (Ok True), remove_streams_for_extension (h_id sample_handler) sample_streaming, s)"
    using sample_unregister by blast
  have sample: "bs_streams sample_streaming = [(h_id sample_stream_handle, 0)]" "bs_sinks sample_streaming 0 = sample_open_sink"
    "sk_extension_id sample_open_sink = h_id sample_handler"
    by (simp_all add: sample_streaming_def register_stream_def put_sink_def sample_connected_def bind_connection_def
        new_bridge_def sample_open_sink_def new_sink_def)
  then have wf: "hwf (bs_streams sample_streaming)" "hwf (hi_streams sample_handlers)"
    by (simp_all add: sample_handlers_fields hwf_def)
  have route: "hget (bs_streams sample_streaming) (h_id sample_stream_handle) = Some 0" by (simp add: sample(1))
  let ?b' = "remove_streams_for_extension (h_id sample_handler) sample_streaming"
  have "hget (bs_streams ?b') (h_id sample_stream_handle) = None"
    unfolding remove_streams_for_extension_effect(1) [OF wf(1) refl] route sample(2) option.case sample(3) by simp
  moreover have "sk_terminal_seen (bs_sinks ?b' 0) \<or> sk_last_sequence (bs_sinks ?b' 0) = - 1"
    using unregistered_extension_is_silent [OF run wf, THEN conjunct2, THEN conjunct2, THEN conjunct2, rule_format, OF route]
    unfolding sample(2,3) by simp
  ultimately show ?thesis using route unfolding Let_def by blast
qed

end
