(* ===== verification/Spec2Isabelle.thy ===== *)
theory Spec2Isabelle
  imports Delivery_Live Frame_Reader Settlement Registry_Streams Advertisement Run_Observe Standard_Entry Host_Install Index_Loops Facade_Stream Extension_Handlers
begin

text \<open>
  A verification library for the Echo Agent SDK: the wire protocol crate
  (\<open>src/echo-sdk-protocol/src\<close>) and the Host that serves it over ACP
  (\<open>src/echo-sdk-host/src\<close>).

  \<^bold>\<open>The program.\<close> A Host reads newline-delimited JSON-RPC from its standard input, negotiates the
  \<open>_echo_agent/*\<close> extension profile with its client, and serves typed requests on Agents, Sessions,
  Runs, task graphs, registered extensions and facade resources. Every object the client addresses is
  a generation-fenced handle of one registry. A Run's committed events go to a bounded live window and
  to a journal; its receipt is settled durably in the run index, from which the next Host process
  recovers. The protocol crate defines the values, errors and messages both sides validate.

  \<^bold>\<open>Theories and the code they model.\<close>
  \<^item> \<open>Prelude\<close>: results, machine integers, strings, hash maps (the interface \<open>hash_map\<close> and its
    interpretation), transition systems (\<open>invariant_system\<close>, \<open>refinement\<close>).
  \<^item> \<open>Wire_Int\<close>, \<open>Wire_Value\<close>: \<open>scalar.rs\<close>, decimal-string integers, durations, timestamps, the tagged
    value tree, its bounds and its JSON projection.
  \<^item> \<open>Wire_Handle\<close>, \<open>Sdk_Error\<close>: \<open>handle.rs\<close>, \<open>error.rs\<close> and the error constructors of
    \<open>core_profile/wire.rs\<close>.
  \<^item> \<open>Wire_Event\<close>: the event, acknowledgement, replay and gap messages of \<open>event.rs\<close>.
  \<^item> \<open>Capability\<close>, \<open>Catalog\<close>: \<open>capability.rs\<close> and \<open>catalog.rs\<close>. \<open>Host_Config\<close>: \<open>config.rs\<close>.
    \<open>Advertisement\<close>: \<open>features.rs\<close>, \<open>build_advertisement\<close> of \<open>core_profile/state.rs\<close> and the
    negotiation of \<open>core_profile/mod.rs\<close>.
  \<^item> \<open>Frame_Reader\<close>: \<open>bounded_stdio.rs\<close>.
  \<^item> \<open>Event_Projection\<close>, \<open>Delivery\<close>, \<open>Delivery_Inv\<close>, \<open>Delivery_Live\<close>, \<open>Replay\<close>:
    \<open>core_profile/events.rs\<close>, the projection of framework events, the live window with its gaps and
    acknowledgements, and the bounded replay.
  \<^item> \<open>Run_Wire\<close>: failures, terminals and receipts (\<open>methods.rs\<close>, \<open>error.rs\<close>, \<open>core_profile/wire.rs\<close>).
    \<open>Run_Index\<close>, \<open>Run_Recovery\<close>, \<open>Run_Survival\<close>, \<open>Index_Loops\<close>: \<open>core_profile/persistence.rs\<close>; what a write of
    the run index prunes and what becomes of the record of a run. \<open>Settlement\<close>: the durable settlement of
    \<open>core_profile/state.rs\<close>.
  \<^item> \<open>Framework_Wire\<close>, \<open>Tool_Wire\<close>: framework errors and native paths, tool results and chat
    messages (\<open>core_profile/wire.rs\<close>).
    \<open>Handler_Gate\<close>, \<open>Core_Messages\<close>, \<open>Run_Handlers\<close>, \<open>Run_Start\<close>, \<open>Run_Observe\<close>: the run handlers of
    \<open>core_profile/handler.rs\<close> with their admission ladder and messages; that a start is all or nothing,
    and what the answers about a run guarantee.
    \<open>Agent_Config\<close>: the typed Agent configuration, its fingerprint and its translation.
    \<open>Session_Factory\<close>: \<open>factory.rs\<close>, the definitions Sessions are built from. \<open>Session_Handlers\<close>,
    \<open>Session_Close\<close>: the Agent and Session handlers of \<open>handler.rs\<close>; that a creation is all or nothing
    and a close settles the Session. \<open>Standard_Entry\<close>: the standard entry points and the teardown of a
    connection (\<open>core_profile/mod.rs\<close>). \<open>Host_Install\<close>: the installation of the Host
    (\<open>core_profile/state.rs\<close>).
    \<open>Publication\<close>: the idempotent publications of \<open>core_profile/handles.rs\<close> and the
    \<open>request_publication\<close> of \<open>handler.rs\<close>.
  \<^item> \<open>Extension_Wire\<close>: the extension descriptors of \<open>methods.rs\<close>. \<open>Registry\<close>, \<open>Registry_Extension\<close>,
    \<open>Registry_Facade\<close>: the registry of \<open>core_profile/handles.rs\<close>; \<open>Registry_Inv\<close>, \<open>Registry_Steps\<close>,
    \<open>Registry_Ext_Steps\<close>, \<open>Registry_Facade_Steps\<close>, \<open>Registry_History\<close>: its invariant over every history
    and its refinement of the specification of open and retired addresses; \<open>Registry_Contract\<close>,
    \<open>Registry_Streams\<close>: what clients of the registry may rely on. \<open>Facade_Stream\<close>: the pull-based streams
    of \<open>core_profile/facade/stream.rs\<close>; when a producer is settled, and that a pull tells what happened.
  \<^item> \<open>Reverse_Calls\<close>: the operations of registered implementations, the calls and outcomes of \<open>methods.rs\<close>
    and how \<open>core_profile/extension_bridge.rs\<close> settles them. \<open>Callback_Owner\<close>: the owner of a submitted callback
    there, what it retains and what releases it. \<open>Extension_Stream\<close>, \<open>Stream_Order\<close>: the streams of such calls,
    from the event of the client to the item of the framework; that they are ordered, bounded and end once.
    \<open>Reverse_Invocation\<close>: how the Host admits, builds and submits a reverse call, and that opening a stream is
    all or nothing. \<open>Extension_Handlers\<close>: the extension handlers of \<open>handler.rs\<close>.

  \<^bold>\<open>How state and operations correspond.\<close> A Rust struct behind a lock is a record; a method that locks
  it is a function from the record to a result and the new record. A method that locks once is one
  step. Methods that lock more than once are one definition, and where the sections may be separated
  by another thread and it matters, the sections are definitions of their own
  (\<open>create_lookup\<close>/\<open>create_commit\<close>, \<open>facade_stream_admitted\<close>/\<open>insert_facade_stream\<close>). Shared records
  (\<open>Arc\<close>) that two parties mutate live in a store and are known by their address. Errors are the
  left side of a sum, every early return is a branch. Machine integers keep their width. A hash map is
  an association list with distinct keys whose order, which Rust leaves open, every theorem quantifies
  over.

  \<^bold>\<open>Parameters.\<close> What is not in the repository is an argument: base64 and SHA-256, the JSON encoder and
  decoder (their results and lengths), the file system (\<open>disk\<close>), the journal, UUIDs (fresh where a
  history needs it), the connection the messages are sent on, the framework's Agents, Sessions and
  receipts, the compiled Cargo features and the process environment.

  \<^bold>\<open>Bounds and termination.\<close> The decoders bound value depth (64), collection widths (4096) and text;
  the run index keeps at most 1024 entries and 4 MiB; loops are structural recursion or have a
  termination proof (\<open>prune_entries\<close>, \<open>prune_bytes\<close> by the number of entries; \<open>Index_Loops\<close> has the two
  loops as the code writes them and shows that they end; \<open>consumer_next\<close> by the pending events and the awaited
  answer). No fuel is used.

  \<^bold>\<open>What is proved.\<close> Codecs are lossless and accept exactly the canonical text; validated values,
  errors, pages and frames are bounded; live delivery is ordered, recovers from a gap and skips only
  events whose own publication failed; the run index never loses a running run and recovery is exact; a
  settled receipt is written or owed, unless its own write prunes it at the byte bound of the index; the handle registry refines its specification, is bounded, and never resolves a released
  address; ownership between extensions, streams and resources is kept; a connection is extended
  exactly on a matching hello; what a request started it has started wholly or not at all (a run, a
  Session, a standard run, a reverse stream), and a closed Session owes and owns nothing; the owner of a reverse call keeps its
  guards until it has physically ended, a producer's call its lease too, and its stream is ordered, bounded and ends
  once.

  \<^bold>\<open>Not modelled.\<close> JSON-schema generation and the contract tools (\<open>schema.rs\<close>, \<open>inventory.rs\<close>,
  \<open>bin/export_schema.rs\<close>): they describe the types, they do not act on them. The other facade adapters
  (\<open>core_profile/facade/*\<close>) mostly translate typed arguments to framework services that are not in the
  repository. Of \<open>extension_bridge.rs\<close> the proxies that implement framework traits, their conversions and the
  tasks they spawn are not modelled; admission and delivery of a stream event, and the storing, delivery and
  clearing of a terminal (\<open>publish_terminal\<close>, \<open>fail_undelivered\<close>), separate critical sections there, are one
  step each here. Tokio scheduling, timeouts and wake-ups are not modelled beyond the interleaving of steps.
\<close>

end
